(* ===== verification/Omap.thy ===== *)
theory Omap
  imports Prelude
begin

text \<open>
  The dictionaries of the code.  A \<open>std::map\<close> is an association list with strictly increasing
  keys, so that iteration in key order is iteration over the list.  A \<open>std::unordered_map\<close> is
  represented the same way: the code never lets its iteration order escape (it sorts what it
  collects from one).  \<open>om_find\<close> is \<open>find\<close>, \<open>om_emplace\<close> is \<open>emplace\<close> (an existing key wins),
  \<open>om_put\<close> is \<open>m[k] = v\<close> and \<open>om_erase\<close> is \<open>erase\<close>.

  The locale \<open>dictionary\<close> is the interface the components rely on; \<open>canonical_dictionary\<close> adds
  that a dictionary is determined by its lookups.  Both are interpreted on the ordered map.
\<close>

type_synonym ('k, 'v) omap = "('k \<times> 'v) list"

fun om_find :: "('k, 'v) omap \<Rightarrow> 'k \<Rightarrow> 'v option" where
  "om_find [] k = None"
| "om_find ((k', v) # m) k = (if k' = k then Some v else om_find m k)"

fun om_put :: "'k::linorder \<Rightarrow> 'v \<Rightarrow> ('k, 'v) omap \<Rightarrow> ('k, 'v) omap" where
  "om_put k v [] = [(k, v)]"
| "om_put k v ((k', v') # m) =
     (if k < k' then (k, v) # (k', v') # m
      else if k = k' then (k, v) # m
      else (k', v') # om_put k v m)"

definition om_contains :: "('k, 'v) omap \<Rightarrow> 'k \<Rightarrow> bool" where
  "om_contains m k = (om_find m k \<noteq> None)"

definition om_emplace :: "'k::linorder \<Rightarrow> 'v \<Rightarrow> ('k, 'v) omap \<Rightarrow> ('k, 'v) omap" where
  "om_emplace k v m = (if om_contains m k then m else om_put k v m)"

definition om_erase :: "'k \<Rightarrow> ('k, 'v) omap \<Rightarrow> ('k, 'v) omap" where
  "om_erase k m = filter (\<lambda>(k', v). k' \<noteq> k) m"

definition om_inv :: "('k::linorder, 'v) omap \<Rightarrow> bool" where
  "om_inv m = sorted_wrt (<) (map fst m)"

lemma om_inv_simps [simp]:
  "om_inv []"
  "om_inv ((k, v) # m) \<longleftrightarrow> (\<forall>k' \<in> set (map fst m). k < k') \<and> om_inv m"
  by (auto simp: om_inv_def)

lemma om_contains_simps [simp]:
  "om_contains [] k = False"
  "om_contains ((k', v) # m) k = (k' = k \<or> om_contains m k)"
  by (auto simp: om_contains_def)

lemma om_find_None_iff: "om_find m k = None \<longleftrightarrow> k \<notin> fst ` set m"
  by (induction m k rule: om_find.induct) auto

lemma om_contains_iff: "om_contains m k \<longleftrightarrow> k \<in> fst ` set m"
  by (metis om_contains_def om_find_None_iff)

lemma om_find_SomeD: "om_find m k = Some v \<Longrightarrow> (k, v) \<in> set m"
  by (induction m) (auto split: if_splits)

lemma om_inv_find: "om_inv m \<Longrightarrow> (k, v) \<in> set m \<Longrightarrow> om_find m k = Some v"
  by (induction m) force+

lemma keys_om_put: "fst ` set (om_put k v m) = insert k (fst ` set m)"
  by (induction k v m rule: om_put.induct) (simp_all add: insert_commute)

lemma om_find_put: "om_find (om_put k v m) k' = (if k' = k then Some v else om_find m k')"
  by (induction m) auto

lemma om_inv_put: "om_inv m \<Longrightarrow> om_inv (om_put k v m)"
proof (induction m)
  case Nil
  show ?case by simp
next
  case (Cons a m)
  then show ?case by (cases a) (force simp: keys_om_put)
qed

lemma om_find_erase: "om_find (om_erase k m) k' = (if k' = k then None else om_find m k')"
  by (induction m) (auto simp: om_erase_def)

lemma om_inv_erase: "om_inv m \<Longrightarrow> om_inv (om_erase k m)"
  by (induction m) (auto simp: om_erase_def)

lemma om_ext:
  "om_inv m \<Longrightarrow> om_inv n \<Longrightarrow> (\<And>k. om_find m k = om_find n k) \<Longrightarrow> m = n"
proof (induction m arbitrary: n)
  case Nil
  have "k \<notin> fst ` set n" for k
    using Nil.prems(3) [of k] om_find_None_iff [of n k] by simp
  then show ?case by (cases n) force+
next
  case (Cons a m)
  obtain k v where a: "a = (k, v)" by force
  show ?case
  proof (cases n)
    case Nil
    with Cons.prems(3) [of k] a show ?thesis by simp
  next
    case (Cons b n')
    obtain l w where b: "b = (l, w)" by force
    have notin: "om_find m k = None" "om_find n' l = None"
      using Cons.prems(1,2) a b \<open>n = b # n'\<close> by (auto simp: om_find_None_iff)
    have "k = l"
    proof (rule ccontr)
      assume ne: "k \<noteq> l"
      have "om_find n' k = Some v" "om_find m l = Some w"
        using Cons.prems(3) [of k] Cons.prems(3) [of l] a b \<open>n = b # n'\<close> ne by (auto split: if_splits)
      then have "k \<in> fst ` set n'" "l \<in> fst ` set m"
        by (metis om_find_None_iff option.distinct(1))+
      then have "l < k" "k < l" using Cons.prems(1,2) a b \<open>n = b # n'\<close> by auto
      then show False by simp
    qed
    moreover from this have "v = w" using Cons.prems(3) [of k] a b \<open>n = b # n'\<close> by simp
    moreover have "m = n'"
    proof (rule Cons.IH)
      show "om_inv m" "om_inv n'" using Cons.prems a b \<open>n = b # n'\<close> by auto
      fix j
      show "om_find m j = om_find n' j"
        using Cons.prems(3) [of j] a b \<open>n = b # n'\<close> \<open>k = l\<close> notin by (cases "j = k") auto
    qed
    ultimately show ?thesis using a b \<open>n = b # n'\<close> by simp
  qed
qed

section \<open>The dictionary interface\<close>

locale dictionary =
  fixes find :: "'m \<Rightarrow> 'k \<Rightarrow> 'v option"
    and put :: "'k \<Rightarrow> 'v \<Rightarrow> 'm \<Rightarrow> 'm"
    and erase :: "'k \<Rightarrow> 'm \<Rightarrow> 'm"
    and inv :: "'m \<Rightarrow> bool"
  assumes find_put: "find (put k v m) k' = (if k' = k then Some v else find m k')"
    and inv_put: "inv m \<Longrightarrow> inv (put k v m)"
    and find_erase: "find (erase k m) k' = (if k' = k then None else find m k')"
    and inv_erase: "inv m \<Longrightarrow> inv (erase k m)"
begin

lemma find_put_same: "find (put k v m) k = Some v"
  by (simp add: find_put)

lemma inv_fold_put: "inv m \<Longrightarrow> inv (fold (\<lambda>(k, v). put k v) kvs m)"
  by (induction kvs arbitrary: m) (auto simp: inv_put)

text \<open>A loop of assignments leaves the last value of every key.\<close>

lemma find_fold_put:
  "find (fold (\<lambda>(k, v). put k v) kvs m) k =
     (case om_find (rev kvs) k of Some v \<Rightarrow> Some v | None \<Rightarrow> find m k)"
proof (induction kvs arbitrary: m)
  case Nil
  show ?case by simp
next
  case (Cons kv kvs)
  obtain a b where kv: "kv = (a, b)" by force
  have app: "om_find (xs @ [(a, b)]) k = (case om_find xs k of Some v \<Rightarrow> Some v | None \<Rightarrow> if a = k then Some b else None)"
    for xs by (induction xs) auto
  show ?case
    by (auto simp: Cons.IH kv find_put app split: option.splits)
qed

end

locale canonical_dictionary = dictionary find put erase inv
  for find :: "'m \<Rightarrow> 'k \<Rightarrow> 'v option" and put erase inv +
  assumes ext: "inv m \<Longrightarrow> inv n \<Longrightarrow> (\<And>k. find m k = find n k) \<Longrightarrow> m = n"
begin

lemma put_commute: "inv m \<Longrightarrow> k \<noteq> k' \<Longrightarrow> put k v (put k' v' m) = put k' v' (put k v m)"
  by (rule ext) (auto simp: inv_put find_put)

lemma put_put_same: "inv m \<Longrightarrow> put k v (put k v' m) = put k v m"
  by (rule ext) (auto simp: inv_put find_put)

lemma erase_put: "inv m \<Longrightarrow> find m k = None \<Longrightarrow> erase k (put k v m) = m"
  by (rule ext) (auto simp: inv_put inv_erase find_put find_erase)

end

interpretation om: canonical_dictionary om_find om_put om_erase om_inv
  by unfold_locales (auto simp: om_find_put om_inv_put om_find_erase om_inv_erase intro: om_ext)

section \<open>Emplace\<close>

lemma om_find_emplace:
  "om_find (om_emplace k v m) k' =
     (if k' = k then Some (case om_find m k of Some w \<Rightarrow> w | None \<Rightarrow> v) else om_find m k')"
  by (auto simp: om_emplace_def om_contains_def om_find_put)

lemma om_inv_emplace: "om_inv m \<Longrightarrow> om_inv (om_emplace k v m)"
  by (simp add: om_emplace_def om_inv_put)

lemma keys_om_emplace: "fst ` set (om_emplace k v m) = insert k (fst ` set m)"
  by (auto simp: om_emplace_def keys_om_put om_contains_iff image_iff)

text \<open>Emplacing at the end keeps the order: the loop that reads a sorted table rebuilds it.\<close>

lemma om_put_last: "\<forall>k' \<in> fst ` set m. k' < k \<Longrightarrow> om_put k v m = m @ [(k, v)]"
  by (induction m) (auto simp: not_less_iff_gr_or_eq)

lemma om_emplace_last: "\<forall>k' \<in> fst ` set m. k' < k \<Longrightarrow> om_emplace k v m = m @ [(k, v)]"
  by (auto simp: om_emplace_def om_contains_iff om_put_last)

lemma fold_om_emplace_sorted_aux:
  "om_inv (acc @ m) \<Longrightarrow> fold (\<lambda>(k, v). om_emplace k v) m acc = acc @ m"
proof (induction m arbitrary: acc)
  case Nil
  show ?case by simp
next
  case (Cons a m)
  obtain k v where a: "a = (k, v)" by force
  from Cons.prems have "\<forall>k' \<in> fst ` set acc. k' < k"
    by (auto simp: om_inv_def sorted_wrt_append a)
  then have "om_emplace k v acc = acc @ [(k, v)]" by (rule om_emplace_last)
  with Cons a show ?case by simp
qed

lemma fold_om_emplace_sorted [simp]: "om_inv m \<Longrightarrow> fold (\<lambda>(k, v). om_emplace k v) m [] = m"
  using fold_om_emplace_sorted_aux [of "[]" m] by simp

text \<open>The same loop over a list of values, keyed by two projections.\<close>

lemma fold_om_emplace_inv: "om_inv m \<Longrightarrow> om_inv (fold (\<lambda>x. om_emplace (f x) (g x)) xs m)"
  by (induction xs arbitrary: m) (auto simp: om_inv_emplace)

text \<open>The greatest key of a table of 32-bit identifiers, as the code computes it.\<close>

definition om_next_id :: "(u32, 'v) omap \<Rightarrow> u32" where
  "om_next_id m = fold (\<lambda>(k, v) next. max next (k + 1)) m 1"

definition om_has_value :: "('k, 'v) omap \<Rightarrow> 'v \<Rightarrow> bool" where
  "om_has_value m v = list_ex (\<lambda>(k', v'). v' = v) m"

lemma om_has_value_iff: "om_has_value m v \<longleftrightarrow> v \<in> snd ` set m"
  by (force simp: om_has_value_def list_ex_iff image_iff)

fun om_key_of :: "('k, 'v) omap \<Rightarrow> 'v \<Rightarrow> 'k option" where
  "om_key_of [] v = None"
| "om_key_of ((k, v') # m) v = (if v' = v then Some k else om_key_of m v)"

lemma om_key_of_None_iff: "om_key_of m v = None \<longleftrightarrow> v \<notin> snd ` set m"
  by (induction m v rule: om_key_of.induct) auto

lemma om_key_of_SomeD: "om_key_of m v = Some k \<Longrightarrow> (k, v) \<in> set m"
  by (induction m) (auto split: if_splits)

text \<open>The name a table gives an identifier; the code writes a missing name as the empty string.\<close>

definition name_or_empty :: "(u32, string) omap \<Rightarrow> u32 \<Rightarrow> string" where
  "name_or_empty names i = (case om_find names i of Some n \<Rightarrow> n | None \<Rightarrow> [])"

end
