(* ===== verification/Big_Endian.thy ===== *)
theory Big_Endian
  imports Prelude
begin

text \<open>
  Big-endian integers (\<open>write_big_endian\<close>, \<open>read_big_endian\<close> of
  \<open>src/kernel/canonical_codec.cpp\<close> and \<open>src/hash/hasher.cpp\<close>), polymorphic in the width of the
  word.  The round trip returns the low \<open>8 * width\<close> bits, so the full value when the width fits.
\<close>

unbundle bit_operations_syntax

text \<open>Byte \<open>shift - 1\<close> of the value is written first, byte 0 last.\<close>

fun write_big_endian :: "'a::len word \<Rightarrow> nat \<Rightarrow> bytes" where
  "write_big_endian value 0 = []"
| "write_big_endian value (Suc n) = ucast (drop_bit (n * 8) value) # write_big_endian value n"

definition read_big_endian :: "bytes \<Rightarrow> 'a::len word" where
  "read_big_endian bs = fold (\<lambda>b out. push_bit 8 out OR ucast b) bs 0"

lemma length_write_big_endian [simp]: "length (write_big_endian v n) = n"
  by (induction n) simp_all

lemma read_write_big_endian_aux:
  fixes v acc :: "'a::len word"
  shows "fold (\<lambda>b out. push_bit 8 out OR ucast b) (write_big_endian v n) acc
    = push_bit (n * 8) acc OR take_bit (n * 8) v"
proof (induction n arbitrary: acc)
  case 0
  show ?case by simp
next
  case (Suc n)
  have "push_bit (n * 8) (push_bit 8 acc OR ucast (ucast (drop_bit (n * 8) v) :: u8)) OR take_bit (n * 8) v
      = push_bit (Suc n * 8) acc OR take_bit (Suc n * 8) v"
    by (rule bit_word_eqI) (auto simp: bit_simps not_le not_less add.commute [of 8])
  with Suc.IH show ?case by simp
qed

lemma read_write_big_endian:
  "read_big_endian (write_big_endian v n) = take_bit (n * 8) v"
  by (simp add: read_big_endian_def read_write_big_endian_aux)

lemma read_write_big_endian_full [simp]:
  fixes v :: "'a::len word"
  assumes "LENGTH('a) \<le> n * 8"
  shows "(read_big_endian (write_big_endian v n) :: 'a word) = v"
  using assms by (simp add: read_write_big_endian take_bit_word_eq_self)

lemma write_big_endian_inj:
  fixes v w :: "'a::len word"
  assumes "LENGTH('a) \<le> n * 8" and "write_big_endian v n = write_big_endian w n"
  shows "v = w"
  using assms by (metis read_write_big_endian_full)

text \<open>Narrow reads of a 32-bit field go through a 64-bit accumulator and a cast.\<close>

lemma cast_read_write_big_endian:
  fixes v :: u32
  shows "ucast (read_big_endian (write_big_endian v 4) :: u64) = v"
proof -
  have "write_big_endian v 4 = write_big_endian (ucast v :: u64) 4"
    by (simp add: numeral_eq_Suc) (auto intro!: bit_word_eqI simp: bit_simps)
  then have "(read_big_endian (write_big_endian v 4) :: u64) = take_bit 32 (ucast v)"
    by (simp add: read_write_big_endian)
  then show ?thesis
    by (auto intro!: bit_word_eqI simp: bit_simps)
qed

end
