(* ===== verification/Values.thy ===== *)
theory Values
  imports Omap Big_Endian "HOL-Library.Product_Lexorder"
begin

text \<open>
  Identifiers, hashes, attribute values and their order (\<open>src/core/id.cpp\<close>,
  \<open>src/core/value.cpp\<close>, \<open>src/core/attribute.cpp\<close>, \<open>src/hash/canonical.cpp\<close>).  A struct with a
  single integer field is the integer; \<open>ObjectId\<close> is a datatype with the order of its
  \<open>operator<\<close>.  A \<open>Hash256\<close> is a 256-bit word whose byte array, most significant byte first, is
  \<open>hash_bytes\<close>.  A \<open>Value\<close> pairs a kind with the matching alternative of the variant; the
  constructors of the datatype are the eight factory functions, the only places that build one.
\<close>

unbundle bit_operations_syntax

section \<open>Identifiers\<close>

type_synonym world_id = u64
type_synonym epoch = u64
type_synonym pointer_id = u64
type_synonym type_id = u32
type_synonym relation_type = u32
type_synonym temp_object_id = u32
type_synonym operation_id = u64
type_synonym hash256 = "256 word"
type_synonym fact_id = hash256

datatype object_id = ObjectId (oid_index: u32) (oid_generation: u32)

definition invalid_index :: u32 where
  "invalid_index = - 1"

definition valid_token :: "object_id \<Rightarrow> bool" where
  "valid_token i = (oid_index i \<noteq> invalid_index \<and> oid_generation i \<noteq> 0)"

instantiation object_id :: linorder
begin

definition less_object_id :: "object_id \<Rightarrow> object_id \<Rightarrow> bool" where
  "less_object_id l r = (if oid_index l \<noteq> oid_index r then oid_index l < oid_index r
     else oid_generation l < oid_generation r)"

definition less_eq_object_id :: "object_id \<Rightarrow> object_id \<Rightarrow> bool" where
  "less_eq_object_id l r = (l = r \<or> l < r)"

instance
proof
  fix x y z :: object_id
  show "(x < y) = (x \<le> y \<and> \<not> y \<le> x)"
    by (auto simp: less_object_id_def less_eq_object_id_def split: if_splits)
  show "x \<le> x" by (simp add: less_eq_object_id_def)
  show "x \<le> y \<Longrightarrow> y \<le> z \<Longrightarrow> x \<le> z"
    by (auto simp: less_object_id_def less_eq_object_id_def split: if_splits)
  show "x \<le> y \<Longrightarrow> y \<le> x \<Longrightarrow> x = y"
    by (auto simp: less_object_id_def less_eq_object_id_def split: if_splits)
  show "x \<le> y \<or> y \<le> x"
    by (cases x, cases y) (auto simp: less_object_id_def less_eq_object_id_def)
qed

end

definition world_id_to_string :: "world_id \<Rightarrow> string" where
  "world_id_to_string i = ''W'' @ dec_string (unat i)"

definition epoch_to_string :: "epoch \<Rightarrow> string" where
  "epoch_to_string e = ''E'' @ dec_string (unat e)"

definition object_id_to_string :: "object_id \<Rightarrow> string" where
  "object_id_to_string i =
     (if valid_token i then ''O'' @ dec_string (unat (oid_index i)) @ '':'' @ dec_string (unat (oid_generation i))
      else ''O<invalid>'')"

definition qualified_object_to_string :: "world_id \<Rightarrow> epoch \<Rightarrow> object_id \<Rightarrow> string" where
  "qualified_object_to_string w e i =
     world_id_to_string w @ ''@'' @ epoch_to_string e @ '':'' @ object_id_to_string i"

definition pointer_id_to_string :: "pointer_id \<Rightarrow> string" where
  "pointer_id_to_string p = (if p \<noteq> 0 then ''P'' @ dec_string (unat p) else ''P<invalid>'')"

definition type_id_to_string :: "type_id \<Rightarrow> string" where
  "type_id_to_string t = (if t \<noteq> 0 then ''T'' @ dec_string (unat t) else ''T<invalid>'')"

definition relation_type_to_string :: "relation_type \<Rightarrow> string" where
  "relation_type_to_string r = (if r \<noteq> 0 then ''R'' @ dec_string (unat r) else ''R<invalid>'')"

section \<open>Hashes\<close>

definition hash_bytes :: "hash256 \<Rightarrow> bytes" where
  "hash_bytes h = write_big_endian h 32"

lemma length_hash_bytes [simp]: "length (hash_bytes h) = 32"
  by (simp add: hash_bytes_def)

lemma read_hash_bytes [simp]: "(read_big_endian (hash_bytes h) :: hash256) = h"
  by (simp add: hash_bytes_def)

lemma hash_bytes_inj [simp]: "hash_bytes g = hash_bytes h \<longleftrightarrow> g = h"
  by (metis read_hash_bytes)

definition hash_empty :: "hash256 \<Rightarrow> bool" where
  "hash_empty h = list_all (\<lambda>b. b = 0) (hash_bytes h)"

section \<open>Floating-point patterns\<close>

definition f64_is_nan :: "f64 \<Rightarrow> bool" where
  "f64_is_nan x = (take_bit 63 x > 0x7ff0000000000000)"

definition f64_is_zero :: "f64 \<Rightarrow> bool" where
  "f64_is_zero x = (take_bit 63 x = 0)"

definition canonical_f64 :: "f64 \<Rightarrow> u64" where
  "canonical_f64 value =
     (if f64_is_nan value then 0x7ff8000000000000
      else if f64_is_zero value then 0
      else value)"

lemma canonical_f64_idem [simp]: "canonical_f64 (canonical_f64 x) = canonical_f64 x"
  by (simp add: canonical_f64_def f64_is_nan_def f64_is_zero_def)

text \<open>The conversion of an unsigned integer to a double rounds to nearest, ties to even.\<close>

fun bit_length :: "nat \<Rightarrow> nat" where
  "bit_length n = (if n = 0 then 0 else Suc (bit_length (n div 2)))"

declare bit_length.simps [simp del]

definition nat_to_f64 :: "nat \<Rightarrow> f64" where
  "nat_to_f64 n =
     (if n = 0 then 0
      else let e = bit_length n - 1
           in if e \<le> 52 then of_nat ((e + 1023) * 2 ^ 52 + (n * 2 ^ (52 - e) - 2 ^ 52))
              else let s = e - 52; q = n div 2 ^ s; r = n mod 2 ^ s; half = 2 ^ (s - 1);
                       q' = (if r > half \<or> (r = half \<and> odd q) then q + 1 else q)
                   in of_nat ((e + 1023) * 2 ^ 52 + (q' - 2 ^ 52)))"

definition u64_to_f64 :: "u64 \<Rightarrow> f64" where
  "u64_to_f64 w = nat_to_f64 (unat w)"

definition i64_to_f64 :: "i64 \<Rightarrow> f64" where
  "i64_to_f64 w = (if sint w < 0 then push_bit 63 1 OR nat_to_f64 (nat (- sint w)) else nat_to_f64 (nat (sint w)))"

section \<open>Attribute values\<close>

datatype attr_value =
    NullValue
  | BoolValue bool
  | Int64Value i64
  | UInt64Value u64
  | Float64Value f64
  | StringValue string
  | HashValue hash256
  | ObjectRefValue object_id

fun value_kind :: "attr_value \<Rightarrow> u8" where
  "value_kind NullValue = 0"
| "value_kind (BoolValue _) = 1"
| "value_kind (Int64Value _) = 2"
| "value_kind (UInt64Value _) = 3"
| "value_kind (Float64Value _) = 4"
| "value_kind (StringValue _) = 5"
| "value_kind (HashValue _) = 6"
| "value_kind (ObjectRefValue _) = 7"

definition compare_lt :: "'a::linorder \<Rightarrow> 'a \<Rightarrow> int" where
  "compare_lt l r = (if l < r then - 1 else if l > r then 1 else 0)"

fun compare_bytes :: "bytes \<Rightarrow> bytes \<Rightarrow> int" where
  "compare_bytes (l # ls) (r # rs) = (if l < r then - 1 else if l > r then 1 else compare_bytes ls rs)"
| "compare_bytes _ _ = 0"

definition compare_hash :: "hash256 \<Rightarrow> hash256 \<Rightarrow> int" where
  "compare_hash l r = compare_bytes (hash_bytes l) (hash_bytes r)"

definition compare_object :: "object_id \<Rightarrow> object_id \<Rightarrow> int" where
  "compare_object l r =
     (if oid_index l < oid_index r then - 1
      else if oid_index l > oid_index r then 1
      else if oid_generation l < oid_generation r then - 1
      else if oid_generation l > oid_generation r then 1
      else 0)"

definition compare_f64 :: "f64 \<Rightarrow> f64 \<Rightarrow> int" where
  "compare_f64 left right =
     (let l = canonical_f64 left; r = canonical_f64 right
      in if l < r then - 1 else if l > r then 1 else 0)"

fun compare_data :: "attr_value \<Rightarrow> attr_value \<Rightarrow> int" where
  "compare_data NullValue NullValue = 0"
| "compare_data (BoolValue l) (BoolValue r) = (if l = r then 0 else if l then 1 else - 1)"
| "compare_data (Int64Value l) (Int64Value r) = (if l = r then 0 else if sint l < sint r then - 1 else 1)"
| "compare_data (UInt64Value l) (UInt64Value r) = (if l = r then 0 else if l < r then - 1 else 1)"
| "compare_data (Float64Value l) (Float64Value r) = compare_f64 l r"
| "compare_data (StringValue l) (StringValue r) = (if l = r then 0 else if l < r then - 1 else 1)"
| "compare_data (HashValue l) (HashValue r) = compare_hash l r"
| "compare_data (ObjectRefValue l) (ObjectRefValue r) = compare_object l r"
| "compare_data _ _ = 0"

definition value_compare :: "attr_value \<Rightarrow> attr_value \<Rightarrow> int" where
  "value_compare l r =
     (if value_kind l \<noteq> value_kind r then (if value_kind l < value_kind r then - 1 else 1)
      else compare_data l r)"

definition value_eq :: "attr_value \<Rightarrow> attr_value \<Rightarrow> bool" where
  "value_eq l r = (value_compare l r = 0)"

definition value_lt :: "attr_value \<Rightarrow> attr_value \<Rightarrow> bool" where
  "value_lt l r = (value_compare l r < 0)"

section \<open>Attributes\<close>

type_synonym attribute = "string \<times> attr_value"

definition attribute_eq :: "attribute \<Rightarrow> attribute \<Rightarrow> bool" where
  "attribute_eq l r = (fst l = fst r \<and> value_eq (snd l) (snd r))"

definition attribute_lt :: "attribute \<Rightarrow> attribute \<Rightarrow> bool" where
  "attribute_lt l r = (if fst l \<noteq> fst r then fst l < fst r else value_lt (snd l) (snd r))"

definition sort_attributes :: "attribute list \<Rightarrow> attribute list" where
  "sort_attributes xs = sort_by attribute_lt xs"

section \<open>The order of values\<close>

text \<open>
  Every comparison is the comparison of a key in a linear order, so the order is a strict weak
  order whose equivalence is \<open>value_eq\<close>: equality up to the canonical bits of a double.
\<close>

fun value_key :: "attr_value \<Rightarrow> u8 \<times> int \<times> int \<times> string \<times> u8 list" where
  "value_key NullValue = (0, 0, 0, [], [])"
| "value_key (BoolValue b) = (1, of_bool b, 0, [], [])"
| "value_key (Int64Value i) = (2, sint i, 0, [], [])"
| "value_key (UInt64Value u) = (3, uint u, 0, [], [])"
| "value_key (Float64Value x) = (4, uint (canonical_f64 x), 0, [], [])"
| "value_key (StringValue s) = (5, 0, 0, s, [])"
| "value_key (HashValue h) = (6, 0, 0, [], hash_bytes h)"
| "value_key (ObjectRefValue i) = (7, uint (oid_index i), uint (oid_generation i), [], [])"

lemma compare_bytes_lexord:
  "length ls = length rs \<Longrightarrow> compare_bytes ls rs = compare_lt ls rs"
  by (induction ls rs rule: list_induct2) (auto simp: compare_lt_def)

lemma compare_hash_bytes: "compare_hash l r = compare_lt (hash_bytes l) (hash_bytes r)"
  by (simp add: compare_hash_def compare_bytes_lexord)

lemma value_compare_key: "value_compare l r = compare_lt (value_key l) (value_key r)"
proof (cases "value_kind l = value_kind r")
  case True
  have sint_eq: "sint a = sint b \<longleftrightarrow> a = b" for a b :: "64 word"
    by (auto intro: signed_word_eqI)
  have uint_eq: "uint a = uint b \<longleftrightarrow> a = b" for a b :: "'a::len word"
    by (auto intro: unsigned_word_eqI)
  from True show ?thesis
    by (cases l; cases r)
      (auto simp: value_compare_def compare_lt_def compare_f64_def compare_hash_bytes compare_object_def
        Let_def word_less_def sint_eq uint_eq)
next
  case False
  moreover have "value_kind v = fst (value_key v)" for v by (cases v) simp_all
  ultimately show ?thesis
    by (cases "value_key l"; cases "value_key r") (auto simp: value_compare_def compare_lt_def)
qed

lemma value_lt_key: "value_lt l r \<longleftrightarrow> value_key l < value_key r"
  by (simp add: value_lt_def value_compare_key compare_lt_def)

lemma value_eq_key: "value_eq l r \<longleftrightarrow> value_key l = value_key r"
  by (auto simp: value_eq_def value_compare_key compare_lt_def)

definition norm_value :: "attr_value \<Rightarrow> attr_value" where
  "norm_value v = (case v of Float64Value x \<Rightarrow> Float64Value (canonical_f64 x) | _ \<Rightarrow> v)"

lemma norm_value_simps [simp]:
  "norm_value NullValue = NullValue"
  "norm_value (BoolValue b) = BoolValue b"
  "norm_value (Int64Value i) = Int64Value i"
  "norm_value (UInt64Value i) = UInt64Value i"
  "norm_value (Float64Value i) = Float64Value (canonical_f64 i)"
  "norm_value (StringValue s) = StringValue s"
  "norm_value (HashValue h) = HashValue h"
  "norm_value (ObjectRefValue oid) = ObjectRefValue oid"
  by (simp_all add: norm_value_def)

lemma value_key_inj: "value_key l = value_key r \<longleftrightarrow> norm_value l = norm_value r"
  by (cases l; cases r) (auto intro: signed_word_eqI unsigned_word_eqI object_id.expand)

lemma value_eq_norm: "value_eq l r \<longleftrightarrow> norm_value l = norm_value r"
  by (simp add: value_eq_key value_key_inj)

lemma norm_value_idem [simp]: "norm_value (norm_value v) = norm_value v"
  by (cases v) simp_all

lemma value_key_norm [simp]: "value_key (norm_value v) = value_key v"
  by (simp add: value_key_inj)

definition norm_attribute :: "attribute \<Rightarrow> attribute" where
  "norm_attribute a = (fst a, norm_value (snd a))"

lemma norm_attribute_simps [simp]:
  "norm_attribute (k, v) = (k, norm_value v)"
  "fst (norm_attribute a) = fst a"
  "norm_attribute (norm_attribute a) = norm_attribute a"
  by (simp_all add: norm_attribute_def)

definition attribute_key :: "attribute \<Rightarrow> string \<times> (u8 \<times> int \<times> int \<times> string \<times> u8 list)" where
  "attribute_key a = (fst a, value_key (snd a))"

lemma attribute_lt_key: "attribute_lt l r \<longleftrightarrow> attribute_key l < attribute_key r"
  by (auto simp: attribute_lt_def attribute_key_def value_lt_key)

lemma attribute_key_norm [simp]: "attribute_key (norm_attribute a) = attribute_key a"
  by (simp add: attribute_key_def norm_attribute_def)

lemma attribute_key_inj: "attribute_key l = attribute_key r \<longleftrightarrow> norm_attribute l = norm_attribute r"
  by (auto simp: attribute_key_def norm_attribute_def value_key_inj)

section \<open>Sorting attributes\<close>

lemma sorted_sort_attributes: "sorted_wrt (\<lambda>x y. \<not> attribute_lt y x) (sort_attributes xs)"
  unfolding sort_attributes_def by (rule sorted_sort_by) (auto simp: attribute_lt_key)

lemma sorted_attribute_keys: "sorted (map attribute_key (sort_attributes xs))"
  using sorted_sort_attributes [of xs]
  by (simp add: sorted_map attribute_lt_key not_less)

lemma sort_attributes_sorted: "sorted_wrt (\<lambda>x y. \<not> attribute_lt y x) xs \<Longrightarrow> sort_attributes xs = xs"
  by (simp add: sort_attributes_def sort_by_id)

lemma sort_attributes_idem [simp]: "sort_attributes (sort_attributes xs) = sort_attributes xs"
  by (rule sort_attributes_sorted) (rule sorted_sort_attributes)

lemma sort_attributes_om: "om_inv xs \<Longrightarrow> sort_attributes xs = xs"
proof (rule sort_attributes_sorted)
  assume "om_inv xs"
  then have "sorted_wrt (\<lambda>x y. fst x < fst y) xs" by (simp add: om_inv_def sorted_wrt_map)
  then show "sorted_wrt (\<lambda>x y. \<not> attribute_lt y x) xs"
    by (rule sorted_wrt_mono_rel [rotated]) (auto simp: attribute_lt_def)
qed

lemma mset_sort_attributes [simp]: "mset (sort_attributes xs) = mset xs"
  by (simp add: sort_attributes_def)

lemma set_sort_attributes [simp]: "set (sort_attributes xs) = set xs"
  by (simp add: sort_attributes_def)

lemma length_sort_attributes [simp]: "length (sort_attributes xs) = length xs"
  by (simp add: sort_attributes_def)

lemma sort_by_map:
  assumes "\<And>x y. lt (f x) (f y) = lt x y"
  shows "sort_by lt (map f xs) = map f (sort_by lt xs)"
proof -
  have ins: "insort_by lt (f x) (map f ys) = map f (insort_by lt x ys)" for x ys
    by (induction ys) (auto simp: assms)
  show ?thesis by (induction xs) (auto simp: ins)
qed

lemma sort_attributes_norm:
  "sort_attributes (map norm_attribute xs) = map norm_attribute (sort_attributes xs)"
  unfolding sort_attributes_def by (rule sort_by_map) (simp add: attribute_lt_key)

text \<open>
  The canonical form of an attribute list depends only on its contents: two lists with the same
  multiset of entries, up to the canonical bits of doubles, sort to the same canonical list.
\<close>

lemma canonical_attributes_unique:
  assumes "image_mset norm_attribute (mset xs) = image_mset norm_attribute (mset ys)"
  shows "map norm_attribute (sort_attributes xs) = map norm_attribute (sort_attributes ys)"
proof -
  let ?k = "\<lambda>zs. map attribute_key (sort_attributes zs)"
  have "mset (?k zs) = image_mset attribute_key (image_mset norm_attribute (mset zs))" for zs
    by (simp add: image_mset.compositionality comp_def)
  then have "mset (?k xs) = mset (?k ys)" using assms by simp
  then have "?k xs = ?k ys"
    by (metis properties_for_sort sorted_attribute_keys)
  then show ?thesis
    by (auto simp: list_eq_iff_nth_eq attribute_key_inj map_equality_iff)
qed

end
