(* ===== verification/Model_Types.thy ===== *)
theory Model_Types
  imports Values
begin

text \<open>
  The data of the engine, one type per struct, variant or enum of \<open>include/pv/core\<close>,
  \<open>include/pv/law/law.hpp\<close>, \<open>include/pv/trace/event.hpp\<close>, \<open>include/pv/kernel/\<close> and
  \<open>include/pv/runtime/commit_record.hpp\<close>.  An enum with a fixed 8-bit underlying type can hold a
  byte that names no enumerator (the decoders cast unchecked bytes), so each enum has a last
  constructor for such a byte.  An \<open>Operation\<close> carries its kind as the constructor of its body:
  every \<open>make_operation\<close> of the code passes the kind of the body it passes.
\<close>

section \<open>Enums\<close>

definition enum_of_byte :: "'e list \<Rightarrow> (u8 \<Rightarrow> 'e) \<Rightarrow> u8 \<Rightarrow> 'e" where
  "enum_of_byte names other b = (if unat b < length names then names ! unat b else other b)"

datatype existence_state = Alive | Dormant | Collapsed | Tombstoned | Existence_byte u8

fun existence_to_byte :: "existence_state \<Rightarrow> u8" where
  "existence_to_byte Alive = 0"
| "existence_to_byte Dormant = 1"
| "existence_to_byte Collapsed = 2"
| "existence_to_byte Tombstoned = 3"
| "existence_to_byte (Existence_byte b) = b"

definition existence_of_byte :: "u8 \<Rightarrow> existence_state" where
  "existence_of_byte = enum_of_byte [Alive, Dormant, Collapsed, Tombstoned] Existence_byte"

fun existence_wf :: "existence_state \<Rightarrow> bool" where
  "existence_wf (Existence_byte b) = (3 < unat b)"
| "existence_wf _ = True"

datatype causal_role =
    Structural | Observational | Generative | Inhibitory | Transformative | Ancestral | Symbolic
  | Role_byte u8

fun role_to_byte :: "causal_role \<Rightarrow> u8" where
  "role_to_byte Structural = 0"
| "role_to_byte Observational = 1"
| "role_to_byte Generative = 2"
| "role_to_byte Inhibitory = 3"
| "role_to_byte Transformative = 4"
| "role_to_byte Ancestral = 5"
| "role_to_byte Symbolic = 6"
| "role_to_byte (Role_byte b) = b"

definition role_of_byte :: "u8 \<Rightarrow> causal_role" where
  "role_of_byte = enum_of_byte
     [Structural, Observational, Generative, Inhibitory, Transformative, Ancestral, Symbolic] Role_byte"

fun role_wf :: "causal_role \<Rightarrow> bool" where
  "role_wf (Role_byte b) = (6 < unat b)"
| "role_wf _ = True"

datatype severity = Info | Warning | Error | Fatal | Severity_byte u8

fun severity_to_byte :: "severity \<Rightarrow> u8" where
  "severity_to_byte Info = 0"
| "severity_to_byte Warning = 1"
| "severity_to_byte Error = 2"
| "severity_to_byte Fatal = 3"
| "severity_to_byte (Severity_byte b) = b"

definition severity_of_byte :: "u8 \<Rightarrow> severity" where
  "severity_of_byte = enum_of_byte [Info, Warning, Error, Fatal] Severity_byte"

fun severity_wf :: "severity \<Rightarrow> bool" where
  "severity_wf (Severity_byte b) = (3 < unat b)"
| "severity_wf _ = True"

datatype fact_kind = ObjectFact | PointerFact | AttributeFact | EvidenceFact | LawFact | Fact_kind_byte u8

fun fact_kind_to_byte :: "fact_kind \<Rightarrow> u8" where
  "fact_kind_to_byte ObjectFact = 0"
| "fact_kind_to_byte PointerFact = 1"
| "fact_kind_to_byte AttributeFact = 2"
| "fact_kind_to_byte EvidenceFact = 3"
| "fact_kind_to_byte LawFact = 4"
| "fact_kind_to_byte (Fact_kind_byte b) = b"

definition fact_kind_of_byte :: "u8 \<Rightarrow> fact_kind" where
  "fact_kind_of_byte = enum_of_byte [ObjectFact, PointerFact, AttributeFact, EvidenceFact, LawFact] Fact_kind_byte"

fun fact_kind_wf :: "fact_kind \<Rightarrow> bool" where
  "fact_kind_wf (Fact_kind_byte b) = (4 < unat b)"
| "fact_kind_wf _ = True"

datatype transaction_origin =
    Manual | Script | Morphism | Evolution | Replay | ForkMerge | Internal | Ingestion | Origin_byte u8

fun origin_to_byte :: "transaction_origin \<Rightarrow> u8" where
  "origin_to_byte Manual = 0"
| "origin_to_byte Script = 1"
| "origin_to_byte Morphism = 2"
| "origin_to_byte Evolution = 3"
| "origin_to_byte Replay = 4"
| "origin_to_byte ForkMerge = 5"
| "origin_to_byte Internal = 6"
| "origin_to_byte Ingestion = 7"
| "origin_to_byte (Origin_byte b) = b"

definition origin_of_byte :: "u8 \<Rightarrow> transaction_origin" where
  "origin_of_byte = enum_of_byte
     [Manual, Script, Morphism, Evolution, Replay, ForkMerge, Internal, Ingestion] Origin_byte"

fun origin_wf :: "transaction_origin \<Rightarrow> bool" where
  "origin_wf (Origin_byte b) = (7 < unat b)"
| "origin_wf _ = True"

datatype instruction_op =
    IInternType | IInternRelation
  | ICreateObject | ISetObjectType | ISetObjectExistence | ISetObjectAttribute | IRemoveObjectAttribute
  | ICreatePointer | ISetPointerWeight | ISetPointerAttribute | IRemovePointerAttribute | IExpirePointer
  | IAssertObject | IAssertPointer | IAssertFact
  | IEmitEvent
  | Instruction_op_byte u8

definition instruction_ops :: "instruction_op list" where
  "instruction_ops =
    [IInternType, IInternRelation, ICreateObject, ISetObjectType, ISetObjectExistence, ISetObjectAttribute,
     IRemoveObjectAttribute, ICreatePointer, ISetPointerWeight, ISetPointerAttribute, IRemovePointerAttribute,
     IExpirePointer, IAssertObject, IAssertPointer, IAssertFact, IEmitEvent]"

fun instruction_op_to_byte :: "instruction_op \<Rightarrow> u8" where
  "instruction_op_to_byte IInternType = 0"
| "instruction_op_to_byte IInternRelation = 1"
| "instruction_op_to_byte ICreateObject = 2"
| "instruction_op_to_byte ISetObjectType = 3"
| "instruction_op_to_byte ISetObjectExistence = 4"
| "instruction_op_to_byte ISetObjectAttribute = 5"
| "instruction_op_to_byte IRemoveObjectAttribute = 6"
| "instruction_op_to_byte ICreatePointer = 7"
| "instruction_op_to_byte ISetPointerWeight = 8"
| "instruction_op_to_byte ISetPointerAttribute = 9"
| "instruction_op_to_byte IRemovePointerAttribute = 10"
| "instruction_op_to_byte IExpirePointer = 11"
| "instruction_op_to_byte IAssertObject = 12"
| "instruction_op_to_byte IAssertPointer = 13"
| "instruction_op_to_byte IAssertFact = 14"
| "instruction_op_to_byte IEmitEvent = 15"
| "instruction_op_to_byte (Instruction_op_byte b) = b"

definition instruction_op_of_byte :: "u8 \<Rightarrow> instruction_op" where
  "instruction_op_of_byte = enum_of_byte instruction_ops Instruction_op_byte"

fun instruction_op_wf :: "instruction_op \<Rightarrow> bool" where
  "instruction_op_wf (Instruction_op_byte b) = (15 < unat b)"
| "instruction_op_wf _ = True"

text \<open>Casting the byte of an enumerator gives the enumerator back.\<close>

lemma enum_roundtrip [simp]:
  "existence_wf e \<Longrightarrow> existence_of_byte (existence_to_byte e) = e"
  "role_wf r \<Longrightarrow> role_of_byte (role_to_byte r) = r"
  "severity_wf s \<Longrightarrow> severity_of_byte (severity_to_byte s) = s"
  "fact_kind_wf k \<Longrightarrow> fact_kind_of_byte (fact_kind_to_byte k) = k"
  "origin_wf g \<Longrightarrow> origin_of_byte (origin_to_byte g) = g"
  by (cases e, simp_all add: existence_of_byte_def enum_of_byte_def)
    (cases r, simp_all add: role_of_byte_def enum_of_byte_def,
     cases s, simp_all add: severity_of_byte_def enum_of_byte_def,
     cases k, simp_all add: fact_kind_of_byte_def enum_of_byte_def,
     cases g, simp_all add: origin_of_byte_def enum_of_byte_def)

lemma instruction_op_roundtrip [simp]:
  "instruction_op_wf i \<Longrightarrow> instruction_op_of_byte (instruction_op_to_byte i) = i"
  by (cases i) (simp_all add: instruction_op_of_byte_def enum_of_byte_def instruction_ops_def)

section \<open>Events\<close>

record trace_event =
  ev_epoch :: epoch
  ev_event :: string
  ev_fields :: "(string, string) omap"
  ev_measurements :: "(string, f64) omap"

section \<open>Snapshots\<close>

record object_snapshot =
  os_id :: object_id
  os_name :: string
  os_type :: type_id
  os_existence :: existence_state
  os_attributes :: "attribute list"
  os_incoming :: u64
  os_outgoing :: u64

record pointer_snapshot =
  ps_id :: pointer_id
  ps_from :: object_id
  ps_to :: object_id
  ps_relation :: relation_type
  ps_role :: causal_role
  ps_weight :: f64
  ps_born :: epoch
  ps_expires :: "epoch option"
  ps_law_domain :: string
  ps_attributes :: "attribute list"

section \<open>Facts\<close>

datatype attribute_subject = ObjectSubject object_id | PointerSubject pointer_id

record object_fact_payload =
  ofp_object :: object_id
  ofp_name :: string
  ofp_type :: type_id
  ofp_existence :: existence_state

record pointer_fact_payload =
  pfp_pointer :: pointer_id
  pfp_from :: object_id
  pfp_to :: object_id
  pfp_relation :: relation_type
  pfp_role :: causal_role
  pfp_weight :: f64
  pfp_born :: epoch
  pfp_expires :: "epoch option"
  pfp_law_domain :: string

datatype fact_payload =
    ObjectPayload object_fact_payload
  | PointerPayload pointer_fact_payload
  | AttributePayload attribute_subject string attr_value
  | EvidencePayload hash256 string
  | LawPayload string bool hash256 hash256

record fact =
  fact_id_of :: fact_id
  fact_kind_of :: fact_kind
  fact_born :: epoch
  fact_expired :: "epoch option"
  fact_payload_hash :: hash256
  fact_payload_of :: fact_payload

record world_snapshot =
  sn_world :: world_id
  sn_world_name :: string
  sn_epoch :: epoch
  sn_objects :: "object_snapshot list"
  sn_pointers :: "pointer_snapshot list"
  sn_facts :: "fact list"
  sn_type_names :: "(u32, string) omap"
  sn_relation_names :: "(u32, string) omap"

section \<open>Operations\<close>

datatype object_ref = RefObject object_id | RefTemp temp_object_id

record create_object_op =
  co_temp :: temp_object_id
  co_name :: string
  co_type :: type_id
  co_existence :: existence_state
  co_attributes :: "attribute list"

record create_pointer_op =
  cp_from :: object_ref
  cp_to :: object_ref
  cp_relation :: relation_type
  cp_role :: causal_role
  cp_weight :: f64
  cp_law_domain :: string
  cp_attributes :: "attribute list"

datatype operation_body =
    CreateObject create_object_op
  | SetObjectType object_ref type_id
  | SetObjectExistence object_ref existence_state
  | SetObjectAttribute object_ref attribute
  | RemoveObjectAttribute object_ref string
  | CreatePointer create_pointer_op
  | ExpirePointer pointer_id
  | SetPointerWeight pointer_id f64
  | SetPointerAttribute pointer_id attribute
  | RemovePointerAttribute pointer_id string
  | EmitEvent trace_event
  | InternType string type_id
  | InternRelation string relation_type
  | AssertObject object_ref
  | AssertPointer pointer_id
  | AssertFact fact_id

record operation =
  op_id :: operation_id
  op_body :: operation_body

fun operation_kind :: "operation_body \<Rightarrow> u8" where
  "operation_kind (CreateObject _) = 0"
| "operation_kind (SetObjectType _ _) = 1"
| "operation_kind (SetObjectExistence _ _) = 2"
| "operation_kind (SetObjectAttribute _ _) = 3"
| "operation_kind (RemoveObjectAttribute _ _) = 4"
| "operation_kind (CreatePointer _) = 5"
| "operation_kind (ExpirePointer _) = 6"
| "operation_kind (SetPointerWeight _ _) = 7"
| "operation_kind (SetPointerAttribute _ _) = 8"
| "operation_kind (RemovePointerAttribute _ _) = 9"
| "operation_kind (EmitEvent _) = 10"
| "operation_kind (InternType _ _) = 11"
| "operation_kind (InternRelation _ _) = 12"
| "operation_kind (AssertObject _) = 13"
| "operation_kind (AssertPointer _) = 14"
| "operation_kind (AssertFact _) = 15"

type_synonym delta = "operation list"

section \<open>Laws\<close>

record law_violation =
  lv_law :: string
  lv_severity :: severity
  lv_magnitude :: f64
  lv_explanation :: string
  lv_evidence :: "fact_id list"
  lv_objects :: "object_id list"
  lv_pointers :: "pointer_id list"

record law_status =
  ls_law :: string
  ls_passed :: bool
  ls_severity :: severity
  ls_magnitude :: f64
  ls_explanation :: string

section \<open>Programs\<close>

record instruction =
  in_op :: instruction_op
  in_args :: "attr_value list"

record program_symbol_table =
  sy_strings :: "string list"
  sy_type_names :: "string list"
  sy_relation_names :: "string list"

record kernel_program =
  pr_symbols :: program_symbol_table
  pr_instructions :: "instruction list"

section \<open>Commits\<close>

record commit_proof =
  cpf_program_root :: hash256
  cpf_before_root :: hash256
  cpf_operation_root :: hash256
  cpf_read_set_root :: hash256
  cpf_write_set_root :: hash256
  cpf_law_input_root :: hash256
  cpf_law_output_root :: hash256
  cpf_after_root :: hash256

type_synonym commit_id = hash256
type_synonym branch_id = u64
type_synonym transaction_id = u64
type_synonym snapshot_id = u64

record commit_record =
  cr_id :: commit_id
  cr_parent :: "commit_id option"
  cr_parents :: "commit_id list"
  cr_world :: world_id
  cr_branch :: branch_id
  cr_branch_name :: string
  cr_transaction :: transaction_id
  cr_before_epoch :: epoch
  cr_after_epoch :: epoch
  cr_before_snapshot :: snapshot_id
  cr_after_snapshot :: snapshot_id
  cr_before_hash :: hash256
  cr_after_hash :: hash256
  cr_delta_hash :: hash256
  cr_program_hash :: hash256
  cr_instruction_root :: hash256
  cr_symbol_table_hash :: hash256
  cr_trace_hash :: hash256
  cr_law_hash :: hash256
  cr_violation_hash :: hash256
  cr_morphism_path_hash :: hash256
  cr_execution_plan_hash :: hash256
  cr_read_set_hash :: hash256
  cr_write_set_hash :: hash256
  cr_proof_hash :: hash256
  cr_proof :: "commit_proof option"
  cr_before_root :: hash256
  cr_after_root :: hash256
  cr_checkpoint_snapshot_object :: hash256
  cr_checkpoint_distance :: u64
  cr_graph_page_roots :: "hash256 list"
  cr_accepted :: bool
  cr_origin :: transaction_origin
  cr_label :: string
  cr_law_statuses :: "law_status list"
  cr_violations :: "law_violation list"
  cr_events :: "trace_event list"

end
