(* ===== verification/Delta_Ops.thy ===== *)
theory Delta_Ops
  imports Model_Types
begin

text \<open>
  Deltas (\<open>src/core/operation.cpp\<close>): an append-only list of operations whose identifiers are
  assigned when they are missing, the typed appenders and the views that project one kind of
  operation out of a delta.  The lemmas give the identifiers that a delta built by \<open>append\<close>
  carries (never 0, and distinct as long as none overflows) and the views of an appended delta.
\<close>

definition next_operation_id :: "delta \<Rightarrow> operation_id" where
  "next_operation_id ops = fold (\<lambda>op next. max next (op_id op + 1)) ops 1"

definition make_operation :: "operation_body \<Rightarrow> operation_id \<Rightarrow> operation" where
  "make_operation body i = \<lparr>op_id = i, op_body = body\<rparr>"

definition delta_empty :: "delta \<Rightarrow> bool" where
  "delta_empty ops = (ops = [])"

definition delta_append :: "operation \<Rightarrow> delta \<Rightarrow> delta" where
  "delta_append operation ops =
     ops @ [if op_id operation = 0 then operation\<lparr>op_id := next_operation_id ops\<rparr> else operation]"

definition append_body :: "operation_body \<Rightarrow> delta \<Rightarrow> delta" where
  "append_body body ops = delta_append (make_operation body 0) ops"

definition append_update :: "object_ref \<Rightarrow> type_id option \<Rightarrow> existence_state option \<Rightarrow> delta \<Rightarrow> delta" where
  "append_update object type existence ops =
     (let ops = (case type of Some t \<Rightarrow> append_body (SetObjectType object t) ops | None \<Rightarrow> ops)
      in case existence of Some e \<Rightarrow> append_body (SetObjectExistence object e) ops | None \<Rightarrow> ops)"

section \<open>Views\<close>

record object_update =
  ou_object :: object_ref
  ou_type :: "type_id option"
  ou_existence :: "existence_state option"

definition creates_view :: "delta \<Rightarrow> create_object_op list" where
  "creates_view ops = List.map_filter (\<lambda>op. case op_body op of CreateObject c \<Rightarrow> Some c | _ \<Rightarrow> None) ops"

definition updates_view :: "delta \<Rightarrow> object_update list" where
  "updates_view ops = List.map_filter (\<lambda>op. case op_body op of
       SetObjectType r t \<Rightarrow> Some \<lparr>ou_object = r, ou_type = Some t, ou_existence = None\<rparr>
     | SetObjectExistence r e \<Rightarrow> Some \<lparr>ou_object = r, ou_type = None, ou_existence = Some e\<rparr>
     | _ \<Rightarrow> None) ops"

definition links_view :: "delta \<Rightarrow> create_pointer_op list" where
  "links_view ops = List.map_filter (\<lambda>op. case op_body op of CreatePointer c \<Rightarrow> Some c | _ \<Rightarrow> None) ops"

definition unlinks_view :: "delta \<Rightarrow> pointer_id list" where
  "unlinks_view ops = List.map_filter (\<lambda>op. case op_body op of ExpirePointer p \<Rightarrow> Some p | _ \<Rightarrow> None) ops"

definition events_view :: "delta \<Rightarrow> trace_event list" where
  "events_view ops = List.map_filter (\<lambda>op. case op_body op of EmitEvent e \<Rightarrow> Some e | _ \<Rightarrow> None) ops"

fun operation_kind_to_string :: "operation_body \<Rightarrow> string" where
  "operation_kind_to_string (CreateObject _) = ''CreateObject''"
| "operation_kind_to_string (SetObjectType _ _) = ''SetObjectType''"
| "operation_kind_to_string (SetObjectExistence _ _) = ''SetObjectExistence''"
| "operation_kind_to_string (SetObjectAttribute _ _) = ''SetObjectAttribute''"
| "operation_kind_to_string (RemoveObjectAttribute _ _) = ''RemoveObjectAttribute''"
| "operation_kind_to_string (CreatePointer _) = ''CreatePointer''"
| "operation_kind_to_string (ExpirePointer _) = ''ExpirePointer''"
| "operation_kind_to_string (SetPointerWeight _ _) = ''SetPointerWeight''"
| "operation_kind_to_string (SetPointerAttribute _ _) = ''SetPointerAttribute''"
| "operation_kind_to_string (RemovePointerAttribute _ _) = ''RemovePointerAttribute''"
| "operation_kind_to_string (EmitEvent _) = ''EmitEvent''"
| "operation_kind_to_string (InternType _ _) = ''InternType''"
| "operation_kind_to_string (InternRelation _ _) = ''InternRelation''"
| "operation_kind_to_string (AssertObject _) = ''AssertObject''"
| "operation_kind_to_string (AssertPointer _) = ''AssertPointer''"
| "operation_kind_to_string (AssertFact _) = ''AssertFact''"

definition temp_object_id_to_string :: "temp_object_id \<Rightarrow> string" where
  "temp_object_id_to_string t = (if t \<noteq> 0 then ''T'' @ dec_string (unat t) else ''T<invalid>'')"

definition operation_id_to_string :: "operation_id \<Rightarrow> string" where
  "operation_id_to_string i = (if i \<noteq> 0 then ''O'' @ dec_string (unat i) else ''O<invalid>'')"

definition object_ref_to_string :: "object_ref \<Rightarrow> string" where
  "object_ref_to_string r = (case r of RefObject i \<Rightarrow> object_id_to_string i | RefTemp t \<Rightarrow> temp_object_id_to_string t)"

section \<open>Lemmas\<close>

lemma append_body_simp [simp]:
  "append_body body ops = ops @ [\<lparr>op_id = next_operation_id ops, op_body = body\<rparr>]"
  by (simp add: append_body_def delta_append_def make_operation_def)

lemma fold_max_ge:
  fixes n :: "'b::linorder"
  shows "n \<le> fold (\<lambda>x m. max m (f x)) xs n"
proof (induction xs arbitrary: n)
  case Nil
  show ?case by simp
next
  case (Cons x xs)
  have "n \<le> max n (f x)" by simp
  also have "\<dots> \<le> fold (\<lambda>x m. max m (f x)) xs (max n (f x))" by (rule Cons.IH)
  finally show ?case by simp
qed

lemma fold_max_upper:
  fixes n :: "'b::linorder"
  shows "x \<in> set xs \<Longrightarrow> f x \<le> fold (\<lambda>x m. max m (f x)) xs n"
proof (induction xs arbitrary: n)
  case Nil
  then show ?case by simp
next
  case (Cons y xs)
  show ?case
  proof (cases "x = y")
    case True
    have "f y \<le> max n (f y)" by simp
    also have "\<dots> \<le> fold (\<lambda>x m. max m (f x)) xs (max n (f y))" by (rule fold_max_ge)
    finally show ?thesis using True by simp
  next
    case False
    with Cons show ?thesis by simp
  qed
qed

lemma fold_max_cases:
  fixes n :: "'b::linorder"
  shows "fold (\<lambda>x m. max m (f x)) xs n = n \<or> (\<exists>x \<in> set xs. fold (\<lambda>x m. max m (f x)) xs n = f x)"
proof (induction xs arbitrary: n)
  case Nil
  show ?case by simp
next
  case (Cons y xs)
  then show ?case using Cons.IH [of "max n (f y)"] by (auto simp: max_def)
qed

lemma next_operation_id_pos: "1 \<le> next_operation_id ops"
  unfolding next_operation_id_def by (rule fold_max_ge)

lemma next_operation_id_nonzero [simp]: "next_operation_id ops \<noteq> 0"
  using next_operation_id_pos [of ops] by (metis word_le_0_iff zero_neq_one)

lemma delta_append_ids_nonzero:
  "list_all (\<lambda>op. op_id op \<noteq> 0) ops \<Longrightarrow> list_all (\<lambda>op. op_id op \<noteq> 0) (delta_append operation ops)"
  by (simp add: delta_append_def)

text \<open>The fresh identifier is new unless the greatest identifier is the last 64-bit value.\<close>

lemma next_operation_id_fresh:
  assumes "op \<in> set ops" and "op_id op \<noteq> - 1"
  shows "op_id op < next_operation_id ops"
proof -
  have "op_id op + 1 \<le> next_operation_id ops"
    unfolding next_operation_id_def by (rule fold_max_upper [OF assms(1)])
  moreover have "op_id op < op_id op + 1"
  proof -
    have "op_id op + 1 \<noteq> 0" using assms(2) by (metis add_eq_0_iff2)
    then show ?thesis by (metis add.commute unatSuc less_Suc_eq word_less_nat_alt)
  qed
  ultimately show ?thesis by simp
qed

lemma views_append:
  "creates_view (ops @ ops') = creates_view ops @ creates_view ops'"
  "updates_view (ops @ ops') = updates_view ops @ updates_view ops'"
  "links_view (ops @ ops') = links_view ops @ links_view ops'"
  "unlinks_view (ops @ ops') = unlinks_view ops @ unlinks_view ops'"
  "events_view (ops @ ops') = events_view ops @ events_view ops'"
  by (simp_all add: creates_view_def updates_view_def links_view_def unlinks_view_def events_view_def
      List.map_filter_def)

end
