(* ===== verification/Codec_Base.thy ===== *)
theory Codec_Base
  imports Model_Types
begin

text \<open>
  \<open>CanonicalWriter\<close> and \<open>CanonicalReader\<close> (\<open>src/kernel/canonical_codec.cpp\<close>).  A writer only
  appends, so a writing operation is the list of bytes it appends and a sequence of them is a
  concatenation.  A reader is the bytes from its offset to the end of the span; a reading
  operation returns a value and the reader that is left, or the exception the code throws.

  The locale \<open>codec\<close> is the contract between an encoder and its decoder: the decoder, run on the
  encoded bytes followed by anything, returns the canonical form of the value and leaves what
  follows.  Its lemmas (sequences, injectivity, prefix-freeness) hold for every codec of the
  development, each of which is an interpretation.
\<close>

datatype codec_error =
    StreamEnded
  | TrailingBytes
  | UnexpectedTag
  | SequenceTooLong
  | InvalidObjectRefTag
  | InvalidValueKind
  | InvalidSubjectTag
  | InvalidPayloadTag
  | InvalidIndexBoolean
  | InvalidIndexOrigin

type_synonym 'a decoder = "bytes \<Rightarrow> codec_error + 'a \<times> bytes"

definition rret :: "'a \<Rightarrow> 'a decoder" where
  "rret x s = Inr (x, s)"

definition rthrow :: "codec_error \<Rightarrow> 'a decoder" where
  "rthrow e s = Inl e"

definition rbind :: "'a decoder \<Rightarrow> ('a \<Rightarrow> 'b decoder) \<Rightarrow> 'b decoder" where
  "rbind d f s = (case d s of Inl e \<Rightarrow> Inl e | Inr (x, s') \<Rightarrow> f x s')"

definition rmap :: "('a \<Rightarrow> 'b) \<Rightarrow> 'a decoder \<Rightarrow> 'b decoder" where
  "rmap f d = rbind d (\<lambda>x. rret (f x))"

text \<open>The counted loops of the decoders: \<open>for (index < count) out.push_back(decode(reader))\<close>.\<close>

fun rtimes :: "nat \<Rightarrow> 'a decoder \<Rightarrow> 'a list decoder" where
  "rtimes 0 d = rret []"
| "rtimes (Suc n) d = rbind d (\<lambda>x. rbind (rtimes n d) (\<lambda>xs. rret (x # xs)))"

lemma rret_simp [simp]: "rret x s = Inr (x, s)"
  by (simp add: rret_def)

lemma rthrow_simp [simp]: "rthrow e s = Inl e"
  by (simp add: rthrow_def)

lemma rbind_step [codec_simps]: "d s = Inr (x, s') \<Longrightarrow> rbind d f s = f x s'"
  by (simp add: rbind_def)

lemma rbind_fail: "d s = Inl e \<Longrightarrow> rbind d f s = Inl e"
  by (simp add: rbind_def)

lemma rbind_Inr_iff:
  "rbind d f s = Inr (y, t) \<longleftrightarrow> (\<exists>x s'. d s = Inr (x, s') \<and> f x s' = Inr (y, t))"
  by (auto simp: rbind_def split: sum.splits)

lemma rmap_step [codec_simps]: "d s = Inr (x, s') \<Longrightarrow> rmap f d s = Inr (f x, s')"
  by (simp add: rmap_def rbind_def)

section \<open>Reading\<close>

definition byte_to_char :: "u8 \<Rightarrow> char" where
  "byte_to_char b = char_of (unat b)"

definition char_to_byte :: "char \<Rightarrow> u8" where
  "char_to_byte c = of_char c"

lemma byte_char_roundtrip [simp]: "byte_to_char (char_to_byte c) = c"
proof -
  have "unat (of_nat (of_char c :: nat) :: u8) = of_char c"
    by (simp add: unat_of_nat)
  then show ?thesis by (simp add: byte_to_char_def char_to_byte_def of_nat_of_char)
qed

definition reader_read :: "nat \<Rightarrow> bytes decoder" where
  "reader_read n s = (if n > length s then Inl StreamEnded else Inr (take n s, drop n s))"

definition reader_u8 :: "u8 decoder" where
  "reader_u8 = rmap hd (reader_read 1)"

definition reader_u32 :: "u32 decoder" where
  "reader_u32 = rmap (\<lambda>bs. ucast (read_big_endian bs :: u64)) (reader_read 4)"

definition reader_u64 :: "u64 decoder" where
  "reader_u64 = rmap read_big_endian (reader_read 8)"

definition reader_i64 :: "i64 decoder" where
  "reader_i64 = reader_u64"

definition reader_f64 :: "f64 decoder" where
  "reader_f64 = reader_u64"

text \<open>A length that exceeds \<open>std::size_t\<close> is refused; on the 64-bit targets none does.\<close>

definition size_max :: nat where
  "size_max = 2 ^ 64 - 1"

definition checked_count :: "u64 \<Rightarrow> nat decoder" where
  "checked_count value = (if unat value > size_max then rthrow SequenceTooLong else rret (unat value))"

definition reader_count :: "nat decoder" where
  "reader_count = rbind reader_u64 checked_count"

definition reader_string :: "string decoder" where
  "reader_string = rbind reader_count (\<lambda>size. rmap (map byte_to_char) (reader_read size))"

definition reader_hash :: "hash256 decoder" where
  "reader_hash = rmap read_big_endian (reader_read 32)"

definition reader_sized_bytes :: "bytes decoder" where
  "reader_sized_bytes = rbind reader_count reader_read"

definition reader_eof :: "bytes \<Rightarrow> bool" where
  "reader_eof s = (s = [])"

definition reader_expect_end :: "unit decoder" where
  "reader_expect_end s = (if \<not> reader_eof s then Inl TrailingBytes else Inr ((), s))"

definition reader_expect_tag :: "string \<Rightarrow> unit decoder" where
  "reader_expect_tag tag = rbind reader_string (\<lambda>s. if s \<noteq> tag then rthrow UnexpectedTag else rret ())"

definition rlist :: "'a decoder \<Rightarrow> 'a list decoder" where
  "rlist d = rbind reader_count (\<lambda>n. rtimes n d)"

definition rpair :: "'a decoder \<Rightarrow> 'b decoder \<Rightarrow> ('a \<times> 'b) decoder" where
  "rpair d e = rbind d (\<lambda>x. rbind e (\<lambda>y. rret (x, y)))"

section \<open>Writing\<close>

definition writer_u8 :: "u8 \<Rightarrow> bytes" where
  "writer_u8 v = [v]"

definition writer_u32 :: "u32 \<Rightarrow> bytes" where
  "writer_u32 v = write_big_endian v 4"

definition writer_u64 :: "u64 \<Rightarrow> bytes" where
  "writer_u64 v = write_big_endian v 8"

definition writer_i64 :: "i64 \<Rightarrow> bytes" where
  "writer_i64 v = writer_u64 v"

definition writer_f64 :: "f64 \<Rightarrow> bytes" where
  "writer_f64 v = writer_u64 (canonical_f64 v)"

definition writer_count :: "nat \<Rightarrow> bytes" where
  "writer_count n = writer_u64 (of_nat n)"

definition writer_string :: "string \<Rightarrow> bytes" where
  "writer_string s = writer_count (length s) @ map char_to_byte s"

definition writer_hash :: "hash256 \<Rightarrow> bytes" where
  "writer_hash h = hash_bytes h"

definition writer_sized_bytes :: "bytes \<Rightarrow> bytes" where
  "writer_sized_bytes bs = writer_count (length bs) @ bs"

definition writer_bool :: "bool \<Rightarrow> bytes" where
  "writer_bool b = writer_u8 (if b then 1 else 0)"

text \<open>A counted sequence: the size as a 64-bit integer, then the elements in order.\<close>

definition wlist :: "('a \<Rightarrow> bytes) \<Rightarrow> 'a list \<Rightarrow> bytes" where
  "wlist enc xs = writer_count (length xs) @ concat (map enc xs)"

definition wpair :: "('a \<Rightarrow> bytes) \<Rightarrow> ('b \<Rightarrow> bytes) \<Rightarrow> 'a \<times> 'b \<Rightarrow> bytes" where
  "wpair enc enc' p = enc (fst p) @ enc' (snd p)"

section \<open>Round trips of the primitives\<close>

definition size_ok :: "'a list \<Rightarrow> bool" where
  "size_ok xs = (length xs < 2 ^ 64)"

lemma reader_read_append [codec_simps]: "length bs = n \<Longrightarrow> reader_read n (bs @ rest) = Inr (bs, rest)"
  by (simp add: reader_read_def)

lemma reader_u8_writer [codec_simps]: "reader_u8 (writer_u8 v @ rest) = Inr (v, rest)"
  by (simp add: reader_u8_def writer_u8_def rmap_def rbind_def reader_read_def)

lemma reader_u32_writer [codec_simps]: "reader_u32 (writer_u32 v @ rest) = Inr (v, rest)"
  by (simp add: reader_u32_def writer_u32_def codec_simps cast_read_write_big_endian)

lemma reader_u64_writer [codec_simps]: "reader_u64 (writer_u64 v @ rest) = Inr (v, rest)"
  by (simp add: reader_u64_def writer_u64_def codec_simps)

lemma reader_i64_writer [codec_simps]: "reader_i64 (writer_i64 v @ rest) = Inr (v, rest)"
  by (simp add: reader_i64_def writer_i64_def codec_simps)

lemma reader_f64_writer [codec_simps]: "reader_f64 (writer_f64 v @ rest) = Inr (canonical_f64 v, rest)"
  by (simp add: reader_f64_def writer_f64_def codec_simps)

lemma reader_count_writer [codec_simps]:
  "n < 2 ^ 64 \<Longrightarrow> reader_count (writer_count n @ rest) = Inr (n, rest)"
  by (simp add: reader_count_def writer_count_def codec_simps checked_count_def size_max_def
      unat_of_nat)

lemma reader_string_writer [codec_simps]:
  "size_ok s \<Longrightarrow> reader_string (writer_string s @ rest) = Inr (s, rest)"
  by (simp add: reader_string_def writer_string_def codec_simps size_ok_def comp_def)

lemma reader_hash_writer [codec_simps]: "reader_hash (writer_hash h @ rest) = Inr (h, rest)"
  by (simp add: reader_hash_def writer_hash_def codec_simps)

lemma reader_sized_bytes_writer [codec_simps]:
  "size_ok bs \<Longrightarrow> reader_sized_bytes (writer_sized_bytes bs @ rest) = Inr (bs, rest)"
  by (simp add: reader_sized_bytes_def writer_sized_bytes_def codec_simps size_ok_def)

lemma reader_expect_tag_writer [codec_simps]:
  "size_ok tag \<Longrightarrow> reader_expect_tag tag (writer_string tag @ rest) = Inr ((), rest)"
  by (simp add: reader_expect_tag_def codec_simps)

lemma reader_bool_writer [codec_simps]:
  "reader_u8 (writer_bool b @ rest) = Inr (if b then 1 else 0, rest)"
  by (simp add: writer_bool_def codec_simps)

lemma rtimes_roundtrip:
  assumes "\<And>x rest. x \<in> set xs \<Longrightarrow> d (enc x @ rest) = Inr (f x, rest)"
  shows "rtimes (length xs) d (concat (map enc xs) @ rest) = Inr (map f xs, rest)"
  using assms
proof (induction xs)
  case Nil
  show ?case by simp
next
  case (Cons x xs)
  then show ?case by (simp add: rbind_def)
qed

lemma rlist_roundtrip:
  assumes "size_ok xs" and "\<And>x rest. x \<in> set xs \<Longrightarrow> d (enc x @ rest) = Inr (f x, rest)"
  shows "rlist d (wlist enc xs @ rest) = Inr (map f xs, rest)"
proof -
  have "rtimes (length xs) d (concat (map enc xs) @ rest) = Inr (map f xs, rest)"
    by (rule rtimes_roundtrip) (rule assms(2))
  with assms(1) show ?thesis by (simp add: rlist_def wlist_def codec_simps size_ok_def)
qed

lemma rpair_roundtrip:
  assumes "\<And>rest. d (enc (fst p) @ rest) = Inr (x, rest)" and "\<And>rest. e (enc' (snd p) @ rest) = Inr (y, rest)"
  shows "rpair d e (wpair enc enc' p @ rest) = Inr ((x, y), rest)"
  using assms by (simp add: rpair_def wpair_def rbind_def)

lemma wlist_map_cong: "(\<And>x. x \<in> set xs \<Longrightarrow> enc (f x) = enc' x) \<Longrightarrow> wlist enc (map f xs) = wlist enc' xs"
  by (auto simp: wlist_def intro!: arg_cong [of _ _ concat])

lemma writer_f64_canonical [codec_stable, simp]: "writer_f64 (canonical_f64 x) = writer_f64 x"
  by (simp add: writer_f64_def)

section \<open>The contract of a codec\<close>

locale codec =
  fixes enc :: "'a \<Rightarrow> bytes" and dec :: "'a decoder" and norm :: "'a \<Rightarrow> 'a" and wf :: "'a \<Rightarrow> bool"
  assumes roundtrip: "wf x \<Longrightarrow> dec (enc x @ rest) = Inr (norm x, rest)"
begin

text \<open>A whole stream is consumed exactly.\<close>

lemma roundtrip_end: "wf x \<Longrightarrow> dec (enc x) = Inr (norm x, [])"
  using roundtrip [of x "[]"] by simp

text \<open>Equal byte streams come from values with the same canonical form, followed by the same bytes.\<close>

lemma prefix_free:
  assumes "wf x" and "wf y" and "enc x @ r = enc y @ s"
  shows "norm x = norm y \<and> r = s"
proof -
  have "Inr (norm x, r) = (Inr (norm y, s) :: codec_error + 'a \<times> bytes)"
    using roundtrip [OF assms(1), of r] roundtrip [OF assms(2), of s] assms(3) by simp
  then show ?thesis by simp
qed

lemma encoding_injective: "wf x \<Longrightarrow> wf y \<Longrightarrow> enc x = enc y \<Longrightarrow> norm x = norm y"
  using prefix_free [of x y "[]" "[]"] by simp

lemma list_roundtrip:
  "size_ok xs \<Longrightarrow> list_all wf xs \<Longrightarrow> rlist dec (wlist enc xs @ rest) = Inr (map norm xs, rest)"
  by (rule rlist_roundtrip) (auto simp: list_all_iff roundtrip)

end

text \<open>
  A codec is stable when a value and its canonical form have the same bytes: what was decoded
  encodes to the stream it was decoded from, so a content address survives a store and a load,
  and the bytes of two values agree exactly when their canonical forms do.
\<close>

locale stable_codec = codec enc dec norm wf
  for enc :: "'a \<Rightarrow> bytes" and dec :: "'a decoder" and norm :: "'a \<Rightarrow> 'a" and wf :: "'a \<Rightarrow> bool" +
  assumes enc_norm: "enc (norm x) = enc x"
begin

lemma reencode: "wf x \<Longrightarrow> dec (enc x @ rest) = Inr (y, rest') \<Longrightarrow> enc y = enc x \<and> rest' = rest"
  using roundtrip [of x rest] by (auto simp: enc_norm)

lemma same_bytes_iff: "wf x \<Longrightarrow> wf y \<Longrightarrow> enc x = enc y \<longleftrightarrow> norm x = norm y"
  by (metis enc_norm encoding_injective)

lemma wlist_norm: "wlist enc (map norm xs) = wlist enc xs"
  by (simp add: wlist_def enc_norm comp_def)

end

interpretation u8c: stable_codec writer_u8 reader_u8 "\<lambda>x. x" "\<lambda>_. True"
  by unfold_locales (simp_all add: codec_simps codec_stable)

interpretation u32c: stable_codec writer_u32 reader_u32 "\<lambda>x. x" "\<lambda>_. True"
  by unfold_locales (simp_all add: codec_simps codec_stable)

interpretation u64c: stable_codec writer_u64 reader_u64 "\<lambda>x. x" "\<lambda>_. True"
  by unfold_locales (simp_all add: codec_simps codec_stable)

interpretation f64c: stable_codec writer_f64 reader_f64 canonical_f64 "\<lambda>_. True"
  by unfold_locales (simp_all add: codec_simps codec_stable)

interpretation stringc: stable_codec writer_string reader_string "\<lambda>x. x" size_ok
  by unfold_locales (simp_all add: codec_simps codec_stable)

interpretation hashc: stable_codec writer_hash reader_hash "\<lambda>x. x" "\<lambda>_. True"
  by unfold_locales (simp_all add: codec_simps codec_stable)

interpretation bytesc: stable_codec writer_sized_bytes reader_sized_bytes "\<lambda>x. x" size_ok
  by unfold_locales (simp_all add: codec_simps codec_stable)

text \<open>String literals of the source satisfy \<open>size_ok\<close> by evaluation.\<close>

lemma size_ok_small: "length xs \<le> 1000 \<Longrightarrow> size_ok xs"
  by (simp add: size_ok_def)

lemma size_ok_map [simp]: "size_ok (map f xs) = size_ok xs"
  by (simp add: size_ok_def)

lemma size_ok_sort_attributes [simp]: "size_ok (sort_attributes xs) = size_ok xs"
  by (simp add: size_ok_def)

end
