(* ===== verification/Codec_Values.thy ===== *)
theory Codec_Values
  imports Codec_Base
begin

text \<open>
  Encoders and decoders of the small types: identifiers, enums, references, events, law statuses
  and violations, attribute values, programs, attributes and facts
  (\<open>src/kernel/canonical_codec.cpp\<close>, lines 32 to 672 and 1272 to 1358).  For each type \<open>t\<close> there
  is \<open>encode_t\<close>, \<open>decode_t\<close>, the well-formedness \<open>t_ok\<close> (sizes below \<open>2 ^ 64\<close>, maps in key order,
  enum bytes that name no enumerator), the canonical form \<open>norm_t\<close> (canonical bits of doubles,
  sorted attributes) and an interpretation of \<open>codec\<close>.
\<close>

section \<open>Identifiers, enums, references\<close>

definition encode_object_id :: "object_id \<Rightarrow> bytes" where
  "encode_object_id i = writer_u32 (oid_index i) @ writer_u32 (oid_generation i)"

definition decode_object_id :: "object_id decoder" where
  "decode_object_id = rbind reader_u32 (\<lambda>i. rbind reader_u32 (\<lambda>g. rret (ObjectId i g)))"

definition encode_existence :: "existence_state \<Rightarrow> bytes" where
  "encode_existence e = writer_u8 (existence_to_byte e)"

definition decode_existence :: "existence_state decoder" where
  "decode_existence = rmap existence_of_byte reader_u8"

definition encode_causal_role :: "causal_role \<Rightarrow> bytes" where
  "encode_causal_role r = writer_u8 (role_to_byte r)"

definition decode_causal_role :: "causal_role decoder" where
  "decode_causal_role = rmap role_of_byte reader_u8"

definition encode_severity :: "severity \<Rightarrow> bytes" where
  "encode_severity s = writer_u8 (severity_to_byte s)"

definition decode_severity :: "severity decoder" where
  "decode_severity = rmap severity_of_byte reader_u8"

definition encode_optional_epoch :: "epoch option \<Rightarrow> bytes" where
  "encode_optional_epoch e = writer_bool (e \<noteq> None) @ (case e of None \<Rightarrow> [] | Some v \<Rightarrow> writer_u64 v)"

definition decode_optional_epoch :: "epoch option decoder" where
  "decode_optional_epoch = rbind reader_u8 (\<lambda>b. if b = 0 then rret None else rmap Some reader_u64)"

definition decode_optional_type :: "type_id option decoder" where
  "decode_optional_type = rbind reader_u8 (\<lambda>b. if b = 0 then rret None else rmap Some reader_u32)"

definition decode_optional_existence :: "existence_state option decoder" where
  "decode_optional_existence = rbind reader_u8 (\<lambda>b. if b = 0 then rret None else rmap Some decode_existence)"

definition encode_ref :: "object_ref \<Rightarrow> bytes" where
  "encode_ref r = (case r of
       RefObject i \<Rightarrow> writer_u8 0 @ encode_object_id i
     | RefTemp t \<Rightarrow> writer_u8 1 @ writer_u32 t)"

definition decode_ref :: "object_ref decoder" where
  "decode_ref = rbind reader_u8 (\<lambda>tag.
     if tag = 0 then rmap RefObject decode_object_id
     else if tag = 1 then rmap RefTemp reader_u32
     else rthrow InvalidObjectRefTag)"

definition encode_optional_commit_id :: "commit_id option \<Rightarrow> bytes" where
  "encode_optional_commit_id c = writer_bool (c \<noteq> None) @ (case c of None \<Rightarrow> [] | Some h \<Rightarrow> writer_hash h)"

definition decode_optional_commit_id :: "commit_id option decoder" where
  "decode_optional_commit_id = rbind reader_u8 (\<lambda>b. if b = 0 then rret None else rmap Some reader_hash)"

lemma decode_object_id_encode [codec_simps]:
  "decode_object_id (encode_object_id i @ rest) = Inr (i, rest)"
  by (simp add: decode_object_id_def encode_object_id_def codec_simps)

lemma decode_enum_encode [codec_simps]:
  "existence_wf e \<Longrightarrow> decode_existence (encode_existence e @ rest) = Inr (e, rest)"
  "role_wf r \<Longrightarrow> decode_causal_role (encode_causal_role r @ rest) = Inr (r, rest)"
  "severity_wf s \<Longrightarrow> decode_severity (encode_severity s @ rest) = Inr (s, rest)"
  by (simp_all add: decode_existence_def encode_existence_def decode_causal_role_def
      encode_causal_role_def decode_severity_def encode_severity_def codec_simps)

lemma decode_optional_epoch_encode [codec_simps]:
  "decode_optional_epoch (encode_optional_epoch e @ rest) = Inr (e, rest)"
  by (cases e) (simp_all add: decode_optional_epoch_def encode_optional_epoch_def codec_simps)

lemma decode_ref_encode [codec_simps]: "decode_ref (encode_ref r @ rest) = Inr (r, rest)"
  by (cases r) (simp_all add: decode_ref_def encode_ref_def codec_simps)

lemma decode_optional_commit_id_encode [codec_simps]:
  "decode_optional_commit_id (encode_optional_commit_id c @ rest) = Inr (c, rest)"
  by (cases c) (simp_all add: decode_optional_commit_id_def encode_optional_commit_id_def codec_simps)

interpretation refc: stable_codec encode_ref decode_ref "\<lambda>x. x" "\<lambda>_. True"
  by unfold_locales (simp_all add: codec_simps codec_stable)

section \<open>Values and attributes\<close>

definition encode_value :: "attr_value \<Rightarrow> bytes" where
  "encode_value v = writer_u8 (value_kind v) @ (case v of
       NullValue \<Rightarrow> []
     | BoolValue b \<Rightarrow> writer_bool b
     | Int64Value i \<Rightarrow> writer_i64 i
     | UInt64Value u \<Rightarrow> writer_u64 u
     | Float64Value x \<Rightarrow> writer_f64 x
     | StringValue s \<Rightarrow> writer_string s
     | HashValue h \<Rightarrow> writer_hash h
     | ObjectRefValue i \<Rightarrow> encode_object_id i)"

definition decode_value :: "attr_value decoder" where
  "decode_value = rbind reader_u8 (\<lambda>kind.
     if kind = 0 then rret NullValue
     else if kind = 1 then rmap (\<lambda>b. BoolValue (b \<noteq> 0)) reader_u8
     else if kind = 2 then rmap Int64Value reader_i64
     else if kind = 3 then rmap UInt64Value reader_u64
     else if kind = 4 then rmap Float64Value reader_f64
     else if kind = 5 then rmap StringValue reader_string
     else if kind = 6 then rmap HashValue reader_hash
     else if kind = 7 then rmap ObjectRefValue decode_object_id
     else rthrow InvalidValueKind)"

fun value_ok :: "attr_value \<Rightarrow> bool" where
  "value_ok (StringValue s) = size_ok s"
| "value_ok _ = True"

lemma value_ok_norm [simp]: "value_ok (norm_value v) = value_ok v"
  by (cases v) simp_all

lemma decode_value_encode [codec_simps]:
  "value_ok v \<Longrightarrow> decode_value (encode_value v @ rest) = Inr (norm_value v, rest)"
  by (cases v) (simp_all add: decode_value_def encode_value_def codec_simps)

lemma encode_value_norm [codec_stable]: "encode_value (norm_value v) = encode_value v"
  by (cases v) (simp_all add: encode_value_def)

interpretation valuec: stable_codec encode_value decode_value norm_value value_ok
  by unfold_locales (simp_all add: codec_simps codec_stable)

definition encode_attribute :: "attribute \<Rightarrow> bytes" where
  "encode_attribute a = writer_string (fst a) @ encode_value (snd a)"

definition decode_attribute :: "attribute decoder" where
  "decode_attribute = rbind reader_string (\<lambda>k. rbind decode_value (\<lambda>v. rret (k, v)))"

definition attribute_ok :: "attribute \<Rightarrow> bool" where
  "attribute_ok a = (size_ok (fst a) \<and> value_ok (snd a))"

lemma attribute_ok_norm [simp]: "attribute_ok (norm_attribute a) = attribute_ok a"
  by (simp add: attribute_ok_def norm_attribute_def)

lemma decode_attribute_encode [codec_simps]:
  "attribute_ok a \<Longrightarrow> decode_attribute (encode_attribute a @ rest) = Inr (norm_attribute a, rest)"
  by (cases a) (simp add: decode_attribute_def encode_attribute_def attribute_ok_def codec_simps)

lemma encode_attribute_norm [codec_stable]: "encode_attribute (norm_attribute a) = encode_attribute a"
  by (simp add: encode_attribute_def norm_attribute_def encode_value_norm)

interpretation attributec: stable_codec encode_attribute decode_attribute norm_attribute attribute_ok
  by unfold_locales (simp_all add: codec_simps codec_stable)

text \<open>An attribute list is written in its canonical order.\<close>

definition encode_attributes :: "attribute list \<Rightarrow> bytes" where
  "encode_attributes xs = wlist encode_attribute (sort_attributes xs)"

definition decode_attributes :: "attribute list decoder" where
  "decode_attributes = rlist decode_attribute"

definition norm_attributes :: "attribute list \<Rightarrow> attribute list" where
  "norm_attributes xs = map norm_attribute (sort_attributes xs)"

definition attributes_ok :: "attribute list \<Rightarrow> bool" where
  "attributes_ok xs = (size_ok xs \<and> list_all attribute_ok xs)"

lemma decode_attributes_encode [codec_simps]:
  "attributes_ok xs \<Longrightarrow> decode_attributes (encode_attributes xs @ rest) = Inr (norm_attributes xs, rest)"
  unfolding decode_attributes_def encode_attributes_def norm_attributes_def
  by (rule attributec.list_roundtrip) (auto simp: attributes_ok_def list_all_iff)

lemma encode_attributes_norm [codec_stable]: "encode_attributes (norm_attributes xs) = encode_attributes xs"
  by (simp add: encode_attributes_def norm_attributes_def sort_attributes_norm attributec.wlist_norm)

interpretation attributesc: stable_codec encode_attributes decode_attributes norm_attributes attributes_ok
  by unfold_locales (simp_all add: codec_simps codec_stable)

lemma norm_attributes_idem [simp]: "norm_attributes (norm_attributes xs) = norm_attributes xs"
  by (simp add: norm_attributes_def sort_attributes_norm comp_def)

section \<open>Events\<close>

definition emplace_all :: "('k::linorder \<times> 'v) list \<Rightarrow> ('k, 'v) omap" where
  "emplace_all kvs = fold (\<lambda>(k, v). om_emplace k v) kvs []"

lemma emplace_all_sorted [simp]: "om_inv m \<Longrightarrow> emplace_all m = m"
  by (simp add: emplace_all_def)

definition encode_trace_event :: "trace_event \<Rightarrow> bytes" where
  "encode_trace_event e =
     writer_string ''TraceEvent:v1'' @ writer_u64 (ev_epoch e) @ writer_string (ev_event e)
     @ wlist (wpair writer_string writer_string) (ev_fields e)
     @ wlist (wpair writer_string writer_f64) (ev_measurements e)"

definition decode_trace_event :: "trace_event decoder" where
  "decode_trace_event =
     rbind (reader_expect_tag ''TraceEvent:v1'') (\<lambda>_.
     rbind reader_u64 (\<lambda>epoch.
     rbind reader_string (\<lambda>event.
     rbind (rlist (rpair reader_string reader_string)) (\<lambda>fields.
     rbind (rlist (rpair reader_string reader_f64)) (\<lambda>measurements.
     rret \<lparr>ev_epoch = epoch, ev_event = event, ev_fields = emplace_all fields,
           ev_measurements = emplace_all measurements\<rparr>)))))"

definition norm_measurements :: "(string, f64) omap \<Rightarrow> (string, f64) omap" where
  "norm_measurements m = map (\<lambda>(k, x). (k, canonical_f64 x)) m"

definition norm_trace_event :: "trace_event \<Rightarrow> trace_event" where
  "norm_trace_event e = e\<lparr>ev_measurements := norm_measurements (ev_measurements e)\<rparr>"

definition trace_event_ok :: "trace_event \<Rightarrow> bool" where
  "trace_event_ok e = (size_ok (ev_event e)
     \<and> size_ok (ev_fields e) \<and> om_inv (ev_fields e)
     \<and> list_all (\<lambda>(k, v). size_ok k \<and> size_ok v) (ev_fields e)
     \<and> size_ok (ev_measurements e) \<and> om_inv (ev_measurements e)
     \<and> list_all (\<lambda>(k, v). size_ok k) (ev_measurements e))"

lemma om_inv_norm_measurements [simp]: "om_inv (norm_measurements m) = om_inv m"
  by (simp add: om_inv_def norm_measurements_def comp_def case_prod_unfold)

lemma rlist_fields [codec_simps]:
  "size_ok kvs \<Longrightarrow> list_all (\<lambda>(k, v). size_ok k \<and> size_ok v) kvs \<Longrightarrow>
   rlist (rpair reader_string reader_string) (wlist (wpair writer_string writer_string) kvs @ rest)
     = Inr (kvs, rest)"
  using rlist_roundtrip [of kvs "rpair reader_string reader_string" "wpair writer_string writer_string" "\<lambda>x. x" rest]
  by (force simp: list_all_iff intro!: rpair_roundtrip simp: codec_simps)

lemma rlist_measurements [codec_simps]:
  "size_ok kvs \<Longrightarrow> list_all (\<lambda>(k, v). size_ok k) kvs \<Longrightarrow>
   rlist (rpair reader_string reader_f64) (wlist (wpair writer_string writer_f64) kvs @ rest)
     = Inr (norm_measurements kvs, rest)"
  unfolding norm_measurements_def
  by (rule rlist_roundtrip) (auto simp: list_all_iff case_prod_unfold codec_simps intro!: rpair_roundtrip)

lemma decode_trace_event_encode [codec_simps]:
  "trace_event_ok e \<Longrightarrow> decode_trace_event (encode_trace_event e @ rest) = Inr (norm_trace_event e, rest)"
  by (simp add: decode_trace_event_def encode_trace_event_def norm_trace_event_def trace_event_ok_def
      codec_simps size_ok_small)

lemma encode_trace_event_norm [codec_stable]: "encode_trace_event (norm_trace_event e) = encode_trace_event e"
  by (simp add: encode_trace_event_def norm_trace_event_def norm_measurements_def)
    (auto intro!: wlist_map_cong simp: wpair_def)

interpretation eventc: stable_codec encode_trace_event decode_trace_event norm_trace_event trace_event_ok
  by unfold_locales (simp_all add: codec_simps codec_stable)

definition encode_trace_events :: "trace_event list \<Rightarrow> bytes" where
  "encode_trace_events es = writer_string ''TraceEvents:v1'' @ wlist encode_trace_event es"

definition decode_trace_events :: "trace_event list decoder" where
  "decode_trace_events = rbind (reader_expect_tag ''TraceEvents:v1'') (\<lambda>_. rlist decode_trace_event)"

interpretation eventsc: stable_codec encode_trace_events decode_trace_events "map norm_trace_event"
    "\<lambda>es. size_ok es \<and> list_all trace_event_ok es"
  by unfold_locales
    (simp_all add: decode_trace_events_def encode_trace_events_def codec_simps eventc.list_roundtrip
      eventc.wlist_norm size_ok_small)

end
