(* ===== verification/Codec_Programs.thy ===== *)
theory Codec_Programs
  imports Codec_Values
begin

text \<open>
  Encoders and decoders of law statuses and violations, programs and facts
  (\<open>src/kernel/canonical_codec.cpp\<close>, lines 362 to 672 and 1291 to 1358).
\<close>

section \<open>Law statuses and violations\<close>

definition encode_law_status :: "law_status \<Rightarrow> bytes" where
  "encode_law_status s =
     writer_string (ls_law s) @ writer_bool (ls_passed s) @ encode_severity (ls_severity s)
     @ writer_f64 (ls_magnitude s) @ writer_string (ls_explanation s)"

definition decode_law_status :: "law_status decoder" where
  "decode_law_status =
     rbind reader_string (\<lambda>law. rbind reader_u8 (\<lambda>passed. rbind decode_severity (\<lambda>sev.
     rbind reader_f64 (\<lambda>magnitude. rbind reader_string (\<lambda>explanation.
     rret \<lparr>ls_law = law, ls_passed = (passed \<noteq> 0), ls_severity = sev, ls_magnitude = magnitude,
           ls_explanation = explanation\<rparr>)))))"

definition norm_law_status :: "law_status \<Rightarrow> law_status" where
  "norm_law_status s = s\<lparr>ls_magnitude := canonical_f64 (ls_magnitude s)\<rparr>"

definition law_status_ok :: "law_status \<Rightarrow> bool" where
  "law_status_ok s = (size_ok (ls_law s) \<and> size_ok (ls_explanation s) \<and> severity_wf (ls_severity s))"

lemma decode_law_status_encode [codec_simps]:
  "law_status_ok s \<Longrightarrow> decode_law_status (encode_law_status s @ rest) = Inr (norm_law_status s, rest)"
  by (simp add: decode_law_status_def encode_law_status_def norm_law_status_def law_status_ok_def codec_simps)

lemma encode_law_status_norm [codec_stable]: "encode_law_status (norm_law_status x) = encode_law_status x"
  by (simp add: encode_law_status_def norm_law_status_def)

interpretation lawstatusc: stable_codec encode_law_status decode_law_status norm_law_status law_status_ok
  by unfold_locales (simp_all add: codec_simps codec_stable)

definition encode_law_violation :: "law_violation \<Rightarrow> bytes" where
  "encode_law_violation v =
     writer_string (lv_law v) @ encode_severity (lv_severity v) @ writer_f64 (lv_magnitude v)
     @ writer_string (lv_explanation v) @ wlist writer_hash (lv_evidence v)
     @ wlist encode_object_id (lv_objects v) @ wlist writer_u64 (lv_pointers v)"

definition decode_law_violation :: "law_violation decoder" where
  "decode_law_violation =
     rbind reader_string (\<lambda>law. rbind decode_severity (\<lambda>sev. rbind reader_f64 (\<lambda>magnitude.
     rbind reader_string (\<lambda>explanation. rbind (rlist reader_hash) (\<lambda>evidence.
     rbind (rlist decode_object_id) (\<lambda>objects. rbind (rlist reader_u64) (\<lambda>pointers.
     rret \<lparr>lv_law = law, lv_severity = sev, lv_magnitude = magnitude, lv_explanation = explanation,
           lv_evidence = evidence, lv_objects = objects, lv_pointers = pointers\<rparr>)))))))"

definition norm_law_violation :: "law_violation \<Rightarrow> law_violation" where
  "norm_law_violation v = v\<lparr>lv_magnitude := canonical_f64 (lv_magnitude v)\<rparr>"

definition law_violation_ok :: "law_violation \<Rightarrow> bool" where
  "law_violation_ok v = (size_ok (lv_law v) \<and> severity_wf (lv_severity v) \<and> size_ok (lv_explanation v)
     \<and> size_ok (lv_evidence v) \<and> size_ok (lv_objects v) \<and> size_ok (lv_pointers v))"

lemma rlist_basic [codec_simps]:
  "size_ok hs \<Longrightarrow> rlist reader_hash (wlist writer_hash hs @ rest) = Inr (hs, rest)"
  "size_ok os \<Longrightarrow> rlist decode_object_id (wlist encode_object_id os @ rest) = Inr (os, rest)"
  "size_ok ps \<Longrightarrow> rlist reader_u64 (wlist writer_u64 ps @ rest) = Inr (ps, rest)"
  "size_ok ss \<Longrightarrow> list_all size_ok ss \<Longrightarrow> rlist reader_string (wlist writer_string ss @ rest) = Inr (ss, rest)"
proof -
  show "size_ok hs \<Longrightarrow> rlist reader_hash (wlist writer_hash hs @ rest) = Inr (hs, rest)"
    using hashc.list_roundtrip [of hs rest] by (simp add: list_all_iff)
  show "size_ok os \<Longrightarrow> rlist decode_object_id (wlist encode_object_id os @ rest) = Inr (os, rest)"
    using rlist_roundtrip [of os decode_object_id encode_object_id "\<lambda>x. x" rest] by (simp add: codec_simps)
  show "size_ok ps \<Longrightarrow> rlist reader_u64 (wlist writer_u64 ps @ rest) = Inr (ps, rest)"
    using u64c.list_roundtrip [of ps rest] by (simp add: list_all_iff)
  show "size_ok ss \<Longrightarrow> list_all size_ok ss \<Longrightarrow> rlist reader_string (wlist writer_string ss @ rest) = Inr (ss, rest)"
    using stringc.list_roundtrip [of ss rest] by simp
qed

lemma decode_law_violation_encode [codec_simps]:
  "law_violation_ok v \<Longrightarrow> decode_law_violation (encode_law_violation v @ rest) = Inr (norm_law_violation v, rest)"
  by (simp add: decode_law_violation_def encode_law_violation_def norm_law_violation_def
      law_violation_ok_def codec_simps)

lemma encode_law_violation_norm [codec_stable]: "encode_law_violation (norm_law_violation x) = encode_law_violation x"
  by (simp add: encode_law_violation_def norm_law_violation_def)

interpretation violationc: stable_codec encode_law_violation decode_law_violation norm_law_violation law_violation_ok
  by unfold_locales (simp_all add: codec_simps codec_stable)

definition encode_law_statuses :: "law_status list \<Rightarrow> bytes" where
  "encode_law_statuses ss = writer_string ''LawStatuses:v1'' @ wlist encode_law_status ss"

definition decode_law_statuses :: "law_status list decoder" where
  "decode_law_statuses = rbind (reader_expect_tag ''LawStatuses:v1'') (\<lambda>_. rlist decode_law_status)"

interpretation lawstatusesc: stable_codec encode_law_statuses decode_law_statuses "map norm_law_status"
    "\<lambda>ss. size_ok ss \<and> list_all law_status_ok ss"
  by unfold_locales
    (simp_all add: decode_law_statuses_def encode_law_statuses_def codec_simps lawstatusc.list_roundtrip
      lawstatusc.wlist_norm size_ok_small)

definition encode_law_violations :: "law_violation list \<Rightarrow> bytes" where
  "encode_law_violations vs = writer_string ''LawViolations:v2'' @ wlist encode_law_violation vs"

text \<open>Version 1 of the stream carried no evidence, objects or pointers.\<close>

definition decode_law_violation_v1 :: "law_violation decoder" where
  "decode_law_violation_v1 =
     rbind reader_string (\<lambda>law. rbind decode_severity (\<lambda>sev. rbind reader_f64 (\<lambda>magnitude.
     rbind reader_string (\<lambda>explanation.
     rret \<lparr>lv_law = law, lv_severity = sev, lv_magnitude = magnitude, lv_explanation = explanation,
           lv_evidence = [], lv_objects = [], lv_pointers = []\<rparr>))))"

definition decode_law_violations :: "law_violation list decoder" where
  "decode_law_violations = rbind reader_string (\<lambda>tag.
     if tag \<noteq> ''LawViolations:v1'' \<and> tag \<noteq> ''LawViolations:v2'' then rthrow UnexpectedTag
     else rlist (if tag = ''LawViolations:v2'' then decode_law_violation else decode_law_violation_v1))"

interpretation violationsc: stable_codec encode_law_violations decode_law_violations "map norm_law_violation"
    "\<lambda>vs. size_ok vs \<and> list_all law_violation_ok vs"
  by unfold_locales
    (simp_all add: decode_law_violations_def encode_law_violations_def codec_simps violationc.list_roundtrip
      violationc.wlist_norm size_ok_small)

definition encode_morphism_path :: "string list \<Rightarrow> bytes" where
  "encode_morphism_path path = writer_string ''MorphismPath:v1'' @ wlist writer_string path"

definition decode_morphism_path :: "string list decoder" where
  "decode_morphism_path = rbind (reader_expect_tag ''MorphismPath:v1'') (\<lambda>_. rlist reader_string)"

interpretation morphismc: stable_codec encode_morphism_path decode_morphism_path "\<lambda>x. x"
    "\<lambda>p. size_ok p \<and> list_all size_ok p"
  by unfold_locales
    (simp_all add: decode_morphism_path_def encode_morphism_path_def codec_simps size_ok_small)

section \<open>Programs\<close>

definition encode_instruction :: "instruction \<Rightarrow> bytes" where
  "encode_instruction i = writer_string ''Instruction:v1'' @ writer_u8 (instruction_op_to_byte (in_op i))
     @ wlist encode_value (in_args i)"

definition decode_instruction :: "instruction decoder" where
  "decode_instruction =
     rbind (reader_expect_tag ''Instruction:v1'') (\<lambda>_. rbind reader_u8 (\<lambda>op.
     rbind (rlist decode_value) (\<lambda>args.
     rret \<lparr>in_op = instruction_op_of_byte op, in_args = args\<rparr>)))"

definition norm_instruction :: "instruction \<Rightarrow> instruction" where
  "norm_instruction i = i\<lparr>in_args := map norm_value (in_args i)\<rparr>"

definition instruction_ok :: "instruction \<Rightarrow> bool" where
  "instruction_ok i = (instruction_op_wf (in_op i) \<and> size_ok (in_args i) \<and> list_all value_ok (in_args i))"

lemma decode_instruction_encode [codec_simps]:
  "instruction_ok i \<Longrightarrow> decode_instruction (encode_instruction i @ rest) = Inr (norm_instruction i, rest)"
  by (simp add: decode_instruction_def encode_instruction_def norm_instruction_def instruction_ok_def
      codec_simps valuec.list_roundtrip size_ok_small)

lemma encode_instruction_norm [codec_stable]: "encode_instruction (norm_instruction x) = encode_instruction x"
  by (simp add: encode_instruction_def norm_instruction_def valuec.wlist_norm)

interpretation instructionc: stable_codec encode_instruction decode_instruction norm_instruction instruction_ok
  by unfold_locales (simp_all add: codec_simps codec_stable)

definition encode_symbol_table :: "program_symbol_table \<Rightarrow> bytes" where
  "encode_symbol_table s =
     writer_string ''ProgramSymbolTable:v1'' @ wlist writer_string (sy_strings s)
     @ wlist writer_string (sy_type_names s) @ wlist writer_string (sy_relation_names s)"

definition decode_program_symbol_table :: "program_symbol_table decoder" where
  "decode_program_symbol_table =
     rbind (reader_expect_tag ''ProgramSymbolTable:v1'') (\<lambda>_.
     rbind (rlist reader_string) (\<lambda>strings. rbind (rlist reader_string) (\<lambda>types.
     rbind (rlist reader_string) (\<lambda>relations.
     rret \<lparr>sy_strings = strings, sy_type_names = types, sy_relation_names = relations\<rparr>))))"

definition symbol_table_ok :: "program_symbol_table \<Rightarrow> bool" where
  "symbol_table_ok s = (size_ok (sy_strings s) \<and> list_all size_ok (sy_strings s)
     \<and> size_ok (sy_type_names s) \<and> list_all size_ok (sy_type_names s)
     \<and> size_ok (sy_relation_names s) \<and> list_all size_ok (sy_relation_names s))"

lemma decode_symbol_table_encode [codec_simps]:
  "symbol_table_ok s \<Longrightarrow> decode_program_symbol_table (encode_symbol_table s @ rest) = Inr (s, rest)"
  by (simp add: decode_program_symbol_table_def encode_symbol_table_def symbol_table_ok_def codec_simps size_ok_small)

interpretation symbolsc: stable_codec encode_symbol_table decode_program_symbol_table "\<lambda>x. x" symbol_table_ok
  by unfold_locales (simp_all add: codec_simps codec_stable)

definition encode_program :: "kernel_program \<Rightarrow> bytes" where
  "encode_program p = writer_string ''Program:v1'' @ encode_symbol_table (pr_symbols p)
     @ wlist encode_instruction (pr_instructions p)"

definition decode_program :: "kernel_program decoder" where
  "decode_program =
     rbind (reader_expect_tag ''Program:v1'') (\<lambda>_. rbind decode_program_symbol_table (\<lambda>symbols.
     rbind (rlist decode_instruction) (\<lambda>instructions.
     rret \<lparr>pr_symbols = symbols, pr_instructions = instructions\<rparr>)))"

definition norm_program :: "kernel_program \<Rightarrow> kernel_program" where
  "norm_program p = p\<lparr>pr_instructions := map norm_instruction (pr_instructions p)\<rparr>"

definition program_ok :: "kernel_program \<Rightarrow> bool" where
  "program_ok p = (symbol_table_ok (pr_symbols p) \<and> size_ok (pr_instructions p)
     \<and> list_all instruction_ok (pr_instructions p))"

interpretation programc: stable_codec encode_program decode_program norm_program program_ok
  by unfold_locales
    (simp_all add: decode_program_def encode_program_def norm_program_def program_ok_def codec_simps
      instructionc.list_roundtrip instructionc.wlist_norm size_ok_small)

section \<open>Facts\<close>

definition encode_fact_payload :: "fact_payload \<Rightarrow> bytes" where
  "encode_fact_payload p = (case p of
       ObjectPayload b \<Rightarrow>
         writer_u8 0 @ encode_object_id (ofp_object b) @ writer_string (ofp_name b)
         @ writer_u32 (ofp_type b) @ encode_existence (ofp_existence b)
     | PointerPayload b \<Rightarrow>
         writer_u8 1 @ writer_u64 (pfp_pointer b) @ encode_object_id (pfp_from b) @ encode_object_id (pfp_to b)
         @ writer_u32 (pfp_relation b) @ encode_causal_role (pfp_role b) @ writer_f64 (pfp_weight b)
         @ writer_u64 (pfp_born b) @ encode_optional_epoch (pfp_expires b) @ writer_string (pfp_law_domain b)
     | AttributePayload subject key v \<Rightarrow>
         writer_u8 2
         @ (case subject of ObjectSubject i \<Rightarrow> writer_u8 0 @ encode_object_id i
                          | PointerSubject q \<Rightarrow> writer_u8 1 @ writer_u64 q)
         @ writer_string key @ encode_value v
     | EvidencePayload h label \<Rightarrow> writer_u8 3 @ writer_hash h @ writer_string label
     | LawPayload law passed i out \<Rightarrow>
         writer_u8 4 @ writer_string law @ writer_bool passed @ writer_hash i @ writer_hash out)"

definition decode_attribute_subject :: "attribute_subject decoder" where
  "decode_attribute_subject = rbind reader_u8 (\<lambda>t.
     if t = 0 then rmap ObjectSubject decode_object_id
     else if t = 1 then rmap PointerSubject reader_u64
     else rthrow InvalidSubjectTag)"

definition decode_fact_payload :: "fact_payload decoder" where
  "decode_fact_payload = rbind reader_u8 (\<lambda>tag.
     if tag = 0 then
       rbind decode_object_id (\<lambda>i. rbind reader_string (\<lambda>n. rbind reader_u32 (\<lambda>t. rbind decode_existence (\<lambda>e.
       rret (ObjectPayload \<lparr>ofp_object = i, ofp_name = n, ofp_type = t, ofp_existence = e\<rparr>)))))
     else if tag = 1 then
       rbind reader_u64 (\<lambda>p. rbind decode_object_id (\<lambda>f. rbind decode_object_id (\<lambda>t.
       rbind reader_u32 (\<lambda>r. rbind decode_causal_role (\<lambda>c. rbind reader_f64 (\<lambda>w.
       rbind reader_u64 (\<lambda>b. rbind decode_optional_epoch (\<lambda>x. rbind reader_string (\<lambda>d.
       rret (PointerPayload \<lparr>pfp_pointer = p, pfp_from = f, pfp_to = t, pfp_relation = r, pfp_role = c,
               pfp_weight = w, pfp_born = b, pfp_expires = x, pfp_law_domain = d\<rparr>))))))))))
     else if tag = 2 then
       rbind decode_attribute_subject (\<lambda>subject. rbind reader_string (\<lambda>key. rbind decode_value (\<lambda>v.
       rret (AttributePayload subject key v))))
     else if tag = 3 then
       rbind reader_hash (\<lambda>h. rbind reader_string (\<lambda>l. rret (EvidencePayload h l)))
     else if tag = 4 then
       rbind reader_string (\<lambda>l. rbind reader_u8 (\<lambda>p. rbind reader_hash (\<lambda>i. rbind reader_hash (\<lambda>out.
       rret (LawPayload l (p \<noteq> 0) i out)))))
     else rthrow InvalidPayloadTag)"

definition norm_fact_payload :: "fact_payload \<Rightarrow> fact_payload" where
  "norm_fact_payload p = (case p of
       PointerPayload b \<Rightarrow> PointerPayload (b\<lparr>pfp_weight := canonical_f64 (pfp_weight b)\<rparr>)
     | AttributePayload subject key v \<Rightarrow> AttributePayload subject key (norm_value v)
     | _ \<Rightarrow> p)"

definition fact_payload_ok :: "fact_payload \<Rightarrow> bool" where
  "fact_payload_ok p = (case p of
       ObjectPayload b \<Rightarrow> size_ok (ofp_name b) \<and> existence_wf (ofp_existence b)
     | PointerPayload b \<Rightarrow> role_wf (pfp_role b) \<and> size_ok (pfp_law_domain b)
     | AttributePayload subject key v \<Rightarrow> size_ok key \<and> value_ok v
     | EvidencePayload h label \<Rightarrow> size_ok label
     | LawPayload law passed i out \<Rightarrow> size_ok law)"

lemma decode_fact_payload_encode [codec_simps]:
  "fact_payload_ok p \<Longrightarrow> decode_fact_payload (encode_fact_payload p @ rest) = Inr (norm_fact_payload p, rest)"
  by (cases p)
    (simp_all add: decode_fact_payload_def encode_fact_payload_def norm_fact_payload_def fact_payload_ok_def
      decode_attribute_subject_def codec_simps split: attribute_subject.splits)

definition encode_fact :: "fact \<Rightarrow> bytes" where
  "encode_fact f =
     writer_hash (fact_id_of f) @ writer_u8 (fact_kind_to_byte (fact_kind_of f)) @ writer_u64 (fact_born f)
     @ encode_optional_epoch (fact_expired f) @ writer_hash (fact_payload_hash f)
     @ encode_fact_payload (fact_payload_of f)"

definition decode_fact :: "fact decoder" where
  "decode_fact =
     rbind reader_hash (\<lambda>i. rbind reader_u8 (\<lambda>k. rbind reader_u64 (\<lambda>b. rbind decode_optional_epoch (\<lambda>x.
     rbind reader_hash (\<lambda>h. rbind decode_fact_payload (\<lambda>p.
     rret \<lparr>fact_id_of = i, fact_kind_of = fact_kind_of_byte k, fact_born = b, fact_expired = x,
           fact_payload_hash = h, fact_payload_of = p\<rparr>))))))"

definition norm_fact :: "fact \<Rightarrow> fact" where
  "norm_fact f = f\<lparr>fact_payload_of := norm_fact_payload (fact_payload_of f)\<rparr>"

definition fact_ok :: "fact \<Rightarrow> bool" where
  "fact_ok f = (fact_kind_wf (fact_kind_of f) \<and> fact_payload_ok (fact_payload_of f))"

lemma decode_fact_encode [codec_simps]:
  "fact_ok f \<Longrightarrow> decode_fact (encode_fact f @ rest) = Inr (norm_fact f, rest)"
  by (simp add: decode_fact_def encode_fact_def norm_fact_def fact_ok_def codec_simps)

lemma encode_fact_norm [codec_stable]: "encode_fact (norm_fact x) = encode_fact x"
  by (simp add: encode_fact_def norm_fact_def norm_fact_payload_def encode_fact_payload_def encode_value_norm
      split: fact_payload.splits)

interpretation factc: stable_codec encode_fact decode_fact norm_fact fact_ok
  by unfold_locales (simp_all add: codec_simps codec_stable)

end
