(* ===== verification/Facts.thy ===== *)
theory Facts
  imports Codec_Programs
begin

text \<open>
  Facts derived from a snapshot (\<open>src/core/fact.cpp\<close>) and the fact store
  (\<open>src/kernel/fact_store.cpp\<close>).  SHA-256 is OpenSSL's: every definition that hashes takes the
  digest \<open>H\<close> as a parameter.  The lemmas show that the facts of a snapshot are sorted by identifier
  and do not depend on the order in which the snapshot lists its objects and pointers.
\<close>

type_synonym digest = "bytes \<Rightarrow> hash256"

section \<open>The byte order of identifiers\<close>

fun bytes_lt :: "bytes \<Rightarrow> bytes \<Rightarrow> bool" where
  "bytes_lt (l # ls) (r # rs) = (if l < r then True else if l > r then False else bytes_lt ls rs)"
| "bytes_lt _ _ = False"

definition fact_id_lt :: "fact_id \<Rightarrow> fact_id \<Rightarrow> bool" where
  "fact_id_lt l r = bytes_lt (hash_bytes l) (hash_bytes r)"

definition fact_lt :: "fact \<Rightarrow> fact \<Rightarrow> bool" where
  "fact_lt l r = fact_id_lt (fact_id_of l) (fact_id_of r)"

lemma bytes_lt_lexord: "length ls = length rs \<Longrightarrow> bytes_lt ls rs \<longleftrightarrow> ls < rs"
  by (induction ls rs rule: list_induct2) auto

lemma fact_id_lt_bytes: "fact_id_lt l r \<longleftrightarrow> hash_bytes l < hash_bytes r"
  by (simp add: fact_id_lt_def bytes_lt_lexord)

lemma fact_lt_bytes: "fact_lt l r \<longleftrightarrow> hash_bytes (fact_id_of l) < hash_bytes (fact_id_of r)"
  by (simp add: fact_lt_def fact_id_lt_bytes)

section \<open>Hashing a payload\<close>

definition encode_value_local :: "attr_value \<Rightarrow> bytes" where
  "encode_value_local v = writer_u8 (value_kind v) @ (case v of
       NullValue \<Rightarrow> []
     | BoolValue b \<Rightarrow> writer_bool b
     | Int64Value i \<Rightarrow> writer_i64 i
     | UInt64Value u \<Rightarrow> writer_u64 u
     | Float64Value x \<Rightarrow> writer_f64 x
     | StringValue s \<Rightarrow> writer_string s
     | HashValue h \<Rightarrow> writer_hash h
     | ObjectRefValue i \<Rightarrow> encode_object_id i)"

lemma encode_value_local_eq [simp]: "encode_value_local v = encode_value v"
  by (simp add: encode_value_local_def encode_value_def)

definition encode_payload :: "fact_payload \<Rightarrow> bytes" where
  "encode_payload p = (case p of
       ObjectPayload b \<Rightarrow>
         writer_string ''ObjectFactPayload:v1'' @ encode_object_id (ofp_object b) @ writer_string (ofp_name b)
         @ writer_u32 (ofp_type b) @ writer_u8 (existence_to_byte (ofp_existence b))
     | PointerPayload b \<Rightarrow>
         writer_string ''PointerFactPayload:v1'' @ writer_u64 (pfp_pointer b) @ encode_object_id (pfp_from b)
         @ encode_object_id (pfp_to b) @ writer_u32 (pfp_relation b) @ writer_u8 (role_to_byte (pfp_role b))
         @ writer_f64 (pfp_weight b) @ writer_u64 (pfp_born b) @ encode_optional_epoch (pfp_expires b)
         @ writer_string (pfp_law_domain b)
     | AttributePayload subject key v \<Rightarrow>
         writer_string ''AttributeFactPayload:v1''
         @ (case subject of ObjectSubject i \<Rightarrow> writer_u8 0 @ encode_object_id i
                          | PointerSubject q \<Rightarrow> writer_u8 1 @ writer_u64 q)
         @ writer_string key @ encode_value_local v
     | EvidencePayload h label \<Rightarrow> writer_string ''EvidenceFactPayload:v1'' @ writer_hash h @ writer_string label
     | LawPayload law passed i out \<Rightarrow>
         writer_string ''LawFactPayload:v1'' @ writer_string law @ writer_bool passed @ writer_hash i
         @ writer_hash out)"

definition payload_hash :: "digest \<Rightarrow> fact_payload \<Rightarrow> hash256" where
  "payload_hash H p = H (encode_payload p)"

definition make_fact :: "digest \<Rightarrow> fact_kind \<Rightarrow> epoch \<Rightarrow> epoch option \<Rightarrow> fact_payload \<Rightarrow> fact" where
  "make_fact H kind born expired payload =
     (let hashed = payload_hash H payload
      in \<lparr>fact_id_of = H (writer_string ''FactId:v1'' @ writer_u8 (fact_kind_to_byte kind) @ writer_u64 born
            @ encode_optional_epoch expired @ writer_hash hashed),
          fact_kind_of = kind, fact_born = born, fact_expired = expired, fact_payload_hash = hashed,
          fact_payload_of = payload\<rparr>)"

section \<open>Deriving the facts of a snapshot\<close>

definition sort_objects :: "object_snapshot list \<Rightarrow> object_snapshot list" where
  "sort_objects objects = sort_by (\<lambda>l r. os_id l < os_id r) objects"

definition sort_pointers :: "pointer_snapshot list \<Rightarrow> pointer_snapshot list" where
  "sort_pointers pointers = sort_by (\<lambda>l r. ps_id l < ps_id r) pointers"

definition sort_facts :: "fact list \<Rightarrow> fact list" where
  "sort_facts facts = sort_by fact_lt facts"

definition object_facts :: "digest \<Rightarrow> epoch \<Rightarrow> object_snapshot \<Rightarrow> fact list" where
  "object_facts H e object =
     make_fact H ObjectFact 0 (if os_existence object = Tombstoned then Some e else None)
       (ObjectPayload \<lparr>ofp_object = os_id object, ofp_name = os_name object, ofp_type = os_type object,
          ofp_existence = os_existence object\<rparr>)
     # map (\<lambda>(k, v). make_fact H AttributeFact 0 None (AttributePayload (ObjectSubject (os_id object)) k v))
         (sort_attributes (os_attributes object))"

definition pointer_facts :: "digest \<Rightarrow> pointer_snapshot \<Rightarrow> fact list" where
  "pointer_facts H p =
     make_fact H PointerFact (ps_born p) (ps_expires p)
       (PointerPayload \<lparr>pfp_pointer = ps_id p, pfp_from = ps_from p, pfp_to = ps_to p,
          pfp_relation = ps_relation p, pfp_role = ps_role p, pfp_weight = ps_weight p,
          pfp_born = ps_born p, pfp_expires = ps_expires p, pfp_law_domain = ps_law_domain p\<rparr>)
     # map (\<lambda>(k, v). make_fact H AttributeFact (ps_born p) (ps_expires p)
                (AttributePayload (PointerSubject (ps_id p)) k v))
         (sort_attributes (ps_attributes p))"

definition derive_facts :: "digest \<Rightarrow> world_snapshot \<Rightarrow> fact list" where
  "derive_facts H snapshot = sort_facts
     (concat (map (object_facts H (sn_epoch snapshot)) (sort_objects (sn_objects snapshot)))
      @ concat (map (pointer_facts H) (sort_pointers (sn_pointers snapshot))))"

definition snapshot_facts :: "digest \<Rightarrow> world_snapshot \<Rightarrow> fact list" where
  "snapshot_facts H snapshot = (if sn_facts snapshot = [] then derive_facts H snapshot else sn_facts snapshot)"

definition contains_fact :: "digest \<Rightarrow> world_snapshot \<Rightarrow> fact_id \<Rightarrow> bool" where
  "contains_fact H snapshot i = list_ex (\<lambda>f. fact_id_of f = i) (snapshot_facts H snapshot)"

section \<open>The fact store\<close>

type_synonym fact_store = "fact list"

definition fact_store_from_snapshot :: "digest \<Rightarrow> world_snapshot \<Rightarrow> fact_store" where
  "fact_store_from_snapshot H snapshot = derive_facts H snapshot"

fun fact_store_find :: "fact_store \<Rightarrow> fact_id \<Rightarrow> fact option" where
  "fact_store_find [] i = None"
| "fact_store_find (f # fs) i = (if fact_id_of f = i then Some f else fact_store_find fs i)"

section \<open>Canonicity\<close>

lemma sorted_sort_facts: "sorted_wrt (\<lambda>x y. \<not> fact_lt y x) (sort_facts fs)"
  unfolding sort_facts_def by (rule sorted_sort_by) (auto simp: fact_lt_bytes)

lemma sort_facts_idem [simp]: "sort_facts (sort_facts fs) = sort_facts fs"
  by (metis sort_by_id sort_facts_def sorted_sort_facts)

lemma sort_facts_map:
  assumes "\<And>f. fact_id_of (g f) = fact_id_of f"
  shows "sort_facts (map g fs) = map g (sort_facts fs)"
  unfolding sort_facts_def by (rule sort_by_map) (simp add: fact_lt_def assms)

lemma mset_sort_facts [simp]: "mset (sort_facts fs) = mset fs"
  by (simp add: sort_facts_def)

lemma set_sort_facts [simp]: "set (sort_facts fs) = set fs"
  by (simp add: sort_facts_def)

lemma length_sort_facts [simp]: "length (sort_facts fs) = length fs"
  by (simp add: sort_facts_def)

lemma sorted_sort_objects: "sorted (map os_id (sort_objects xs))"
proof -
  have "sorted_wrt (\<lambda>x y. \<not> os_id y < os_id x) (sort_objects xs)"
    unfolding sort_objects_def by (rule sorted_sort_by) auto
  then show ?thesis by (simp add: sorted_map not_less)
qed

lemma sorted_sort_pointers: "sorted (map ps_id (sort_pointers xs))"
proof -
  have "sorted_wrt (\<lambda>x y. \<not> ps_id y < ps_id x) (sort_pointers xs)"
    unfolding sort_pointers_def by (rule sorted_sort_by) auto
  then show ?thesis by (simp add: sorted_map not_less)
qed

lemma mset_sort_objects [simp]: "mset (sort_objects xs) = mset xs"
  by (simp add: sort_objects_def)

lemma mset_sort_pointers [simp]: "mset (sort_pointers xs) = mset xs"
  by (simp add: sort_pointers_def)

lemma set_sort_snapshots [simp]: "set (sort_objects xs) = set xs" "set (sort_pointers ps) = set ps"
  by (simp_all add: sort_objects_def sort_pointers_def)

lemma length_sort_snapshots [simp]: "length (sort_objects xs) = length xs" "length (sort_pointers ps) = length ps"
  by (simp_all add: sort_objects_def sort_pointers_def)

lemma sort_objects_sorted: "sorted (map os_id xs) \<Longrightarrow> sort_objects xs = xs"
  unfolding sort_objects_def by (rule sort_by_id) (simp add: sorted_map not_less)

lemma sort_pointers_sorted: "sorted (map ps_id xs) \<Longrightarrow> sort_pointers xs = xs"
  unfolding sort_pointers_def by (rule sort_by_id) (simp add: sorted_map not_less)

lemma sort_objects_map:
  "(\<And>x. os_id (f x) = os_id x) \<Longrightarrow> sort_objects (map f xs) = map f (sort_objects xs)"
  unfolding sort_objects_def by (rule sort_by_map) simp

lemma sort_pointers_map:
  "(\<And>x. ps_id (f x) = ps_id x) \<Longrightarrow> sort_pointers (map f xs) = map f (sort_pointers xs)"
  unfolding sort_pointers_def by (rule sort_by_map) simp

text \<open>Two listings of the same entries with distinct keys sort to the same list.\<close>

lemma sorted_key_unique:
  assumes "mset xs = mset ys" and "sorted (map f xs)" and "sorted (map f ys)" and "distinct (map f xs)"
  shows "xs = ys"
proof -
  have eq: "map f xs = map f ys"
    using assms by (metis mset_map properties_for_sort)
  have "inj_on f (set xs)" using assms(4) by (simp add: distinct_map)
  moreover have "set xs = set ys" using assms(1) by (metis set_mset_mset)
  ultimately show ?thesis using eq by (metis map_inj_on inf.idem sup.idem Un_absorb)
qed

lemma distinct_sorted_snapshots [simp]:
  "distinct (map os_id (sort_objects xs)) = distinct (map os_id xs)"
  "distinct (map ps_id (sort_pointers ps)) = distinct (map ps_id ps)"
  by (rule mset_eq_imp_distinct_iff, simp)+

lemma sort_objects_perm:
  assumes "mset xs = mset ys" and "distinct (map os_id xs)"
  shows "sort_objects xs = sort_objects ys"
  by (rule sorted_key_unique [where f = os_id]) (simp_all add: sorted_sort_objects assms)

lemma sort_pointers_perm:
  assumes "mset xs = mset ys" and "distinct (map ps_id xs)"
  shows "sort_pointers xs = sort_pointers ys"
  by (rule sorted_key_unique [where f = ps_id]) (simp_all add: sorted_sort_pointers assms)

lemma derive_facts_perm:
  assumes "mset (sn_objects s) = mset (sn_objects t)" and "mset (sn_pointers s) = mset (sn_pointers t)"
    and "distinct (map os_id (sn_objects s))" and "distinct (map ps_id (sn_pointers s))"
    and "sn_epoch s = sn_epoch t"
  shows "derive_facts H s = derive_facts H t"
  using assms sort_objects_perm [of "sn_objects s" "sn_objects t"]
    sort_pointers_perm [of "sn_pointers s" "sn_pointers t"]
  by (simp add: derive_facts_def)

lemma derive_facts_cong:
  "sn_objects s = sn_objects t \<Longrightarrow> sn_pointers s = sn_pointers t \<Longrightarrow> sn_epoch s = sn_epoch t \<Longrightarrow>
   derive_facts H s = derive_facts H t"
  by (simp add: derive_facts_def)

lemma derive_facts_Nil_iff: "derive_facts H s = [] \<longleftrightarrow> sn_objects s = [] \<and> sn_pointers s = []"
proof -
  have "derive_facts H s = [] \<longleftrightarrow> set (derive_facts H s) = {}" by simp
  then show ?thesis
    by (auto simp: derive_facts_def object_facts_def pointer_facts_def)
qed

lemma fact_store_find_Some:
  "fact_store_find fs i = Some f \<Longrightarrow> f \<in> set fs \<and> fact_id_of f = i"
  by (induction fs) (auto split: if_splits)

lemma fact_store_find_None: "fact_store_find fs i = None \<longleftrightarrow> i \<notin> fact_id_of ` set fs"
  by (induction fs) auto

end
