(* ===== verification/Codec_Snapshot.thy ===== *)
theory Codec_Snapshot
  imports Facts
begin

text \<open>
  The canonical form of a world snapshot and of the pages a chunked snapshot is stored in
  (\<open>src/kernel/canonical_codec.cpp\<close>, lines 674 to 1028) and its hash
  (\<open>canonical_hash\<close>, \<open>structural_hash\<close>).  Objects, pointers, facts and attributes are written in
  the order of their keys, and only the type and relation names that are used are written, a
  missing name as the empty string.
\<close>

section \<open>Objects and pointers\<close>

definition encode_object_snapshot :: "object_snapshot \<Rightarrow> bytes" where
  "encode_object_snapshot ob =
     encode_object_id (os_id ob) @ writer_string (os_name ob) @ writer_u32 (os_type ob)
     @ encode_existence (os_existence ob) @ encode_attributes (os_attributes ob)
     @ writer_u64 (os_incoming ob) @ writer_u64 (os_outgoing ob)"

text \<open>The flag tells whether the stream carries attributes, which version 1 does not.\<close>

definition decode_object_snapshot :: "bool \<Rightarrow> object_snapshot decoder" where
  "decode_object_snapshot with_attributes =
     rbind decode_object_id (\<lambda>i. rbind reader_string (\<lambda>n. rbind reader_u32 (\<lambda>t. rbind decode_existence (\<lambda>e.
     rbind (if with_attributes then decode_attributes else rret []) (\<lambda>as.
     rbind reader_count (\<lambda>inc. rbind reader_count (\<lambda>out.
     rret \<lparr>os_id = i, os_name = n, os_type = t, os_existence = e, os_attributes = as,
           os_incoming = of_nat inc, os_outgoing = of_nat out\<rparr>)))))))"

definition norm_object :: "object_snapshot \<Rightarrow> object_snapshot" where
  "norm_object ob = ob\<lparr>os_attributes := norm_attributes (os_attributes ob)\<rparr>"

definition object_ok :: "object_snapshot \<Rightarrow> bool" where
  "object_ok ob = (size_ok (os_name ob) \<and> existence_wf (os_existence ob) \<and> attributes_ok (os_attributes ob))"

lemma reader_count_u64 [codec_simps]: "reader_count (writer_u64 v @ rest) = Inr (unat v, rest)"
proof -
  have "\<not> unat v > size_max" using unsigned_less [of v, where ?'a = nat] by (simp add: size_max_def)
  then show ?thesis by (simp add: reader_count_def codec_simps checked_count_def)
qed

lemma decode_object_snapshot_encode [codec_simps]:
  "object_ok ob \<Longrightarrow> decode_object_snapshot True (encode_object_snapshot ob @ rest) = Inr (norm_object ob, rest)"
  by (simp add: decode_object_snapshot_def encode_object_snapshot_def norm_object_def object_ok_def codec_simps)

lemma encode_object_snapshot_norm [codec_stable]:
  "encode_object_snapshot (norm_object x) = encode_object_snapshot x"
  by (simp add: encode_object_snapshot_def norm_object_def encode_attributes_norm)

interpretation objectc: stable_codec encode_object_snapshot "decode_object_snapshot True" norm_object object_ok
  by unfold_locales (simp_all add: codec_simps codec_stable)

definition encode_pointer_snapshot :: "pointer_snapshot \<Rightarrow> bytes" where
  "encode_pointer_snapshot p =
     writer_u64 (ps_id p) @ encode_object_id (ps_from p) @ encode_object_id (ps_to p)
     @ writer_u32 (ps_relation p) @ encode_causal_role (ps_role p) @ writer_f64 (ps_weight p)
     @ writer_u64 (ps_born p) @ encode_optional_epoch (ps_expires p) @ writer_string (ps_law_domain p)
     @ encode_attributes (ps_attributes p)"

definition decode_pointer_snapshot :: "bool \<Rightarrow> pointer_snapshot decoder" where
  "decode_pointer_snapshot with_attributes =
     rbind reader_u64 (\<lambda>i. rbind decode_object_id (\<lambda>f. rbind decode_object_id (\<lambda>t. rbind reader_u32 (\<lambda>r.
     rbind decode_causal_role (\<lambda>c. rbind reader_f64 (\<lambda>w. rbind reader_u64 (\<lambda>b.
     rbind decode_optional_epoch (\<lambda>x. rbind reader_string (\<lambda>d.
     rbind (if with_attributes then decode_attributes else rret []) (\<lambda>as.
     rret \<lparr>ps_id = i, ps_from = f, ps_to = t, ps_relation = r, ps_role = c, ps_weight = w, ps_born = b,
           ps_expires = x, ps_law_domain = d, ps_attributes = as\<rparr>))))))))))"

definition norm_pointer :: "pointer_snapshot \<Rightarrow> pointer_snapshot" where
  "norm_pointer p = p\<lparr>ps_weight := canonical_f64 (ps_weight p), ps_attributes := norm_attributes (ps_attributes p)\<rparr>"

definition pointer_ok :: "pointer_snapshot \<Rightarrow> bool" where
  "pointer_ok p = (role_wf (ps_role p) \<and> size_ok (ps_law_domain p) \<and> attributes_ok (ps_attributes p))"

lemma decode_pointer_snapshot_encode [codec_simps]:
  "pointer_ok p \<Longrightarrow> decode_pointer_snapshot True (encode_pointer_snapshot p @ rest) = Inr (norm_pointer p, rest)"
  by (simp add: decode_pointer_snapshot_def encode_pointer_snapshot_def norm_pointer_def pointer_ok_def codec_simps)

lemma encode_pointer_snapshot_norm [codec_stable]:
  "encode_pointer_snapshot (norm_pointer x) = encode_pointer_snapshot x"
  by (simp add: encode_pointer_snapshot_def norm_pointer_def encode_attributes_norm)

interpretation pointerc: stable_codec encode_pointer_snapshot "decode_pointer_snapshot True" norm_pointer pointer_ok
  by unfold_locales (simp_all add: codec_simps codec_stable)

section \<open>Symbol tables\<close>

definition used_ids :: "u32 list \<Rightarrow> u32 list" where
  "used_ids ids = sort (remdups ids)"

definition used_names :: "(u32, string) omap \<Rightarrow> u32 list \<Rightarrow> (u32, string) omap" where
  "used_names names ids = map (\<lambda>i. (i, name_or_empty names i)) (used_ids ids)"

definition encode_names :: "(u32, string) omap \<Rightarrow> bytes" where
  "encode_names names = wlist (wpair writer_u32 writer_string) names"

definition decode_names :: "(u32, string) omap decoder" where
  "decode_names = rmap emplace_all (rlist (rpair reader_u32 reader_string))"

definition names_ok :: "(u32, string) omap \<Rightarrow> bool" where
  "names_ok names = (size_ok names \<and> om_inv names \<and> list_all (\<lambda>(i, n). size_ok n) names)"

lemma decode_names_encode [codec_simps]:
  assumes "names_ok names"
  shows "decode_names (encode_names names @ rest) = Inr (names, rest)"
proof -
  have "rlist (rpair reader_u32 reader_string) (wlist (wpair writer_u32 writer_string) names @ rest)
      = Inr (map (\<lambda>x. x) names, rest)"
    by (rule rlist_roundtrip)
      (use assms in \<open>auto simp: names_ok_def list_all_iff codec_simps intro!: rpair_roundtrip\<close>)
  with assms show ?thesis by (simp add: decode_names_def encode_names_def codec_simps names_ok_def)
qed

lemma used_ids_set: "used_ids ids = sorted_list_of_set (set ids)"
  by (simp add: used_ids_def sorted_list_of_set_sort_remdups)

lemma set_used_ids [simp]: "set (used_ids ids) = set ids"
  by (simp add: used_ids_def)

lemma om_inv_used_names [simp]: "om_inv (used_names names ids)"
  by (simp add: used_names_def om_inv_def comp_def used_ids_set)

lemma find_used_names:
  "om_find (used_names names ids) i = (if i \<in> set ids then Some (name_or_empty names i) else None)"
proof -
  have "om_find (map (\<lambda>i. (i, g i)) xs) i = (if i \<in> set xs then Some (g i) else None)" for g :: "u32 \<Rightarrow> string" and xs
    by (induction xs) auto
  then show ?thesis by (simp add: used_names_def)
qed

text \<open>Only the set of used identifiers and the names at them matter.\<close>

lemma used_names_cong:
  "set ids = set ids' \<Longrightarrow> (\<And>i. i \<in> set ids \<Longrightarrow> name_or_empty names i = name_or_empty names' i) \<Longrightarrow>
   used_names names ids = used_names names' ids'"
  by (simp add: used_names_def used_ids_set)

lemma length_used_ids: "length (used_ids ids) \<le> length ids"
  by (simp add: used_ids_def length_remdups_leq)

section \<open>World snapshots\<close>

definition encode_world_snapshot :: "digest \<Rightarrow> world_snapshot \<Rightarrow> bytes" where
  "encode_world_snapshot H s =
     writer_string ''WorldSnapshot:v2'' @ writer_u64 (sn_world s) @ writer_string (sn_world_name s)
     @ writer_u64 (sn_epoch s)
     @ encode_names (used_names (sn_type_names s) (map os_type (sn_objects s)))
     @ encode_names (used_names (sn_relation_names s) (map ps_relation (sn_pointers s)))
     @ wlist encode_object_snapshot (sort_objects (sn_objects s))
     @ wlist encode_pointer_snapshot (sort_pointers (sn_pointers s))
     @ wlist encode_fact (sort_facts (snapshot_facts H s))"

definition decode_world_snapshot :: "world_snapshot decoder" where
  "decode_world_snapshot = rbind reader_string (\<lambda>tag.
     if tag \<noteq> ''WorldSnapshot:v1'' \<and> tag \<noteq> ''WorldSnapshot:v2'' then rthrow UnexpectedTag
     else
       rbind reader_u64 (\<lambda>world. rbind reader_string (\<lambda>name. rbind reader_u64 (\<lambda>epoch.
       rbind decode_names (\<lambda>types. rbind decode_names (\<lambda>relations.
       rbind (rlist (decode_object_snapshot (tag = ''WorldSnapshot:v2''))) (\<lambda>objects.
       rbind (rlist (decode_pointer_snapshot (tag = ''WorldSnapshot:v2''))) (\<lambda>pointers.
       rbind (if tag = ''WorldSnapshot:v2'' then rlist decode_fact else rret []) (\<lambda>facts.
       rret \<lparr>sn_world = world, sn_world_name = name, sn_epoch = epoch, sn_objects = objects,
             sn_pointers = pointers, sn_facts = facts, sn_type_names = types,
             sn_relation_names = relations\<rparr>)))))))))"

definition norm_snapshot :: "digest \<Rightarrow> world_snapshot \<Rightarrow> world_snapshot" where
  "norm_snapshot H s =
     s\<lparr>sn_objects := map norm_object (sort_objects (sn_objects s)),
       sn_pointers := map norm_pointer (sort_pointers (sn_pointers s)),
       sn_facts := map norm_fact (sort_facts (snapshot_facts H s)),
       sn_type_names := used_names (sn_type_names s) (map os_type (sn_objects s)),
       sn_relation_names := used_names (sn_relation_names s) (map ps_relation (sn_pointers s))\<rparr>"

definition snapshot_ok :: "digest \<Rightarrow> world_snapshot \<Rightarrow> bool" where
  "snapshot_ok H s =
     (size_ok (sn_world_name s)
      \<and> size_ok (sn_objects s) \<and> list_all object_ok (sn_objects s)
      \<and> size_ok (sn_pointers s) \<and> list_all pointer_ok (sn_pointers s)
      \<and> size_ok (snapshot_facts H s) \<and> list_all fact_ok (snapshot_facts H s)
      \<and> list_all (\<lambda>ob. size_ok (name_or_empty (sn_type_names s) (os_type ob))) (sn_objects s)
      \<and> list_all (\<lambda>p. size_ok (name_or_empty (sn_relation_names s) (ps_relation p))) (sn_pointers s))"

lemma names_ok_used:
  assumes "size_ok ids" and "list_all (\<lambda>i. size_ok (name_or_empty names i)) ids"
  shows "names_ok (used_names names ids)"
proof -
  have "length (used_names names ids) \<le> length ids"
    using length_used_ids [of ids] by (simp add: used_names_def)
  moreover have "list_all (\<lambda>(i, n). size_ok n) (used_names names ids)"
    using assms(2) by (auto simp: list_all_iff used_names_def)
  ultimately show ?thesis
    using assms(1) by (simp add: names_ok_def size_ok_def)
qed

lemma decode_world_snapshot_encode [codec_simps]:
  assumes "snapshot_ok H s"
  shows "decode_world_snapshot (encode_world_snapshot H s @ rest) = Inr (norm_snapshot H s, rest)"
proof -
  have names: "names_ok (used_names (sn_type_names s) (map os_type (sn_objects s)))"
    "names_ok (used_names (sn_relation_names s) (map ps_relation (sn_pointers s)))"
    using assms by (auto intro!: names_ok_used simp: snapshot_ok_def list_all_iff)
  have objects: "rlist (decode_object_snapshot True) (wlist encode_object_snapshot (sort_objects (sn_objects s)) @ r)
      = Inr (map norm_object (sort_objects (sn_objects s)), r)" for r
    by (rule objectc.list_roundtrip) (use assms in \<open>auto simp: snapshot_ok_def size_ok_def list_all_iff\<close>)
  have pointers: "rlist (decode_pointer_snapshot True) (wlist encode_pointer_snapshot (sort_pointers (sn_pointers s)) @ r)
      = Inr (map norm_pointer (sort_pointers (sn_pointers s)), r)" for r
    by (rule pointerc.list_roundtrip) (use assms in \<open>auto simp: snapshot_ok_def size_ok_def list_all_iff\<close>)
  have facts: "rlist decode_fact (wlist encode_fact (sort_facts (snapshot_facts H s)) @ r)
      = Inr (map norm_fact (sort_facts (snapshot_facts H s)), r)" for r
    by (rule factc.list_roundtrip) (use assms in \<open>auto simp: snapshot_ok_def size_ok_def list_all_iff\<close>)
  from assms have "size_ok (sn_world_name s)" by (simp add: snapshot_ok_def)
  with names show ?thesis
    by (simp add: decode_world_snapshot_def encode_world_snapshot_def norm_snapshot_def codec_simps
        objects pointers facts size_ok_small)
qed

lemma norm_object_simps [simp]:
  "os_id (norm_object x) = os_id x" "os_type (norm_object x) = os_type x"
  by (simp_all add: norm_object_def)

lemma norm_pointer_simps [simp]:
  "ps_id (norm_pointer x) = ps_id x" "ps_relation (norm_pointer x) = ps_relation x"
  by (simp_all add: norm_pointer_def)

lemma norm_fact_simps [simp]: "fact_id_of (norm_fact x) = fact_id_of x"
  by (simp add: norm_fact_def)

lemma sort_snapshots_idem [simp]:
  "sort_objects (sort_objects xs) = sort_objects xs"
  "sort_pointers (sort_pointers ps) = sort_pointers ps"
  by (simp_all add: sort_objects_sorted sorted_sort_objects sort_pointers_sorted sorted_sort_pointers)

lemma name_or_empty_used: "i \<in> set ids \<Longrightarrow> name_or_empty (used_names names ids) i = name_or_empty names i"
  by (simp add: name_or_empty_def find_used_names)

lemma snapshot_facts_norm:
  "snapshot_facts H (norm_snapshot H s) = map norm_fact (sort_facts (snapshot_facts H s))"
proof (cases "snapshot_facts H s = []")
  case True
  then have "sn_objects s = []" "sn_pointers s = []"
    by (auto simp: snapshot_facts_def derive_facts_Nil_iff split: if_splits)
  with True show ?thesis
    by (simp add: snapshot_facts_def norm_snapshot_def derive_facts_Nil_iff sort_facts_def
        sort_objects_def sort_pointers_def)
next
  case False
  then have "sort_facts (snapshot_facts H s) \<noteq> []" by (metis length_0_conv length_sort_facts)
  then show ?thesis by (simp add: snapshot_facts_def norm_snapshot_def)
qed

lemma encode_world_snapshot_norm [codec_stable]:
  "encode_world_snapshot H (norm_snapshot H s) = encode_world_snapshot H s"
proof -
  have facts: "sort_facts (map norm_fact (sort_facts fs)) = map norm_fact (sort_facts fs)" for fs
    by (simp add: sort_facts_map)
  have types: "used_names (used_names ns ids) (map os_type (sort_objects (sn_objects s))) = used_names ns ids"
    if "ids = map os_type (sn_objects s)" for ns ids
    using that by (intro used_names_cong) (auto simp: name_or_empty_used)
  have relations: "used_names (used_names ns ids) (map ps_relation (sort_pointers (sn_pointers s))) = used_names ns ids"
    if "ids = map ps_relation (sn_pointers s)" for ns ids
    using that by (intro used_names_cong) (auto simp: name_or_empty_used)
  show ?thesis
    unfolding encode_world_snapshot_def snapshot_facts_norm facts factc.wlist_norm
    by (simp add: norm_snapshot_def sort_objects_map sort_pointers_map objectc.wlist_norm
        pointerc.wlist_norm comp_def types relations)
qed

interpretation snapshotc: stable_codec "encode_world_snapshot H" decode_world_snapshot "norm_snapshot H" "snapshot_ok H"
  by unfold_locales (simp_all add: codec_simps codec_stable)

section \<open>Hashes of a snapshot\<close>

definition truncated_u64 :: "hash256 \<Rightarrow> u64" where
  "truncated_u64 h = fold (\<lambda>b out. or (push_bit 8 out) (ucast b)) (take 8 (hash_bytes h)) 0"

definition canonical_hash :: "digest \<Rightarrow> world_snapshot \<Rightarrow> hash256" where
  "canonical_hash H s = H (encode_world_snapshot H s)"

definition structural_hash :: "digest \<Rightarrow> world_snapshot \<Rightarrow> u64" where
  "structural_hash H s = truncated_u64 (canonical_hash H s)"

text \<open>
  Two snapshots are equivalent when they list the same objects and pointers in some order, carry
  the same facts in some order, and agree on the names of the identifiers they use.
\<close>

definition snapshot_equiv :: "world_snapshot \<Rightarrow> world_snapshot \<Rightarrow> bool" where
  "snapshot_equiv s t =
     (sn_world s = sn_world t \<and> sn_world_name s = sn_world_name t \<and> sn_epoch s = sn_epoch t
      \<and> mset (sn_objects s) = mset (sn_objects t) \<and> mset (sn_pointers s) = mset (sn_pointers t)
      \<and> sn_facts s = sn_facts t
      \<and> (\<forall>ob \<in> set (sn_objects s). name_or_empty (sn_type_names s) (os_type ob) = name_or_empty (sn_type_names t) (os_type ob))
      \<and> (\<forall>p \<in> set (sn_pointers s).
           name_or_empty (sn_relation_names s) (ps_relation p) = name_or_empty (sn_relation_names t) (ps_relation p)))"

lemma encode_world_snapshot_equiv:
  assumes equiv: "snapshot_equiv s t" and "distinct (map os_id (sn_objects s))" and "distinct (map ps_id (sn_pointers s))"
  shows "encode_world_snapshot H s = encode_world_snapshot H t"
proof -
  note e = equiv [unfolded snapshot_equiv_def]
  have sets: "set (sn_objects s) = set (sn_objects t)" "set (sn_pointers s) = set (sn_pointers t)"
    using e by (metis set_mset_mset)+
  have "sort_objects (sn_objects s) = sort_objects (sn_objects t)"
    "sort_pointers (sn_pointers s) = sort_pointers (sn_pointers t)"
    using e assms by (auto intro: sort_objects_perm sort_pointers_perm)
  moreover have "snapshot_facts H s = snapshot_facts H t"
    using e assms derive_facts_perm [of s t H] by (simp add: snapshot_facts_def)
  moreover have "used_names (sn_type_names s) (map os_type (sn_objects s))
      = used_names (sn_type_names t) (map os_type (sn_objects t))"
    using e sets by (intro used_names_cong) auto
  moreover have "used_names (sn_relation_names s) (map ps_relation (sn_pointers s))
      = used_names (sn_relation_names t) (map ps_relation (sn_pointers t))"
    using e sets by (intro used_names_cong) auto
  ultimately show ?thesis using e by (simp add: encode_world_snapshot_def)
qed

end
