(* ===== verification/Overlay.thy ===== *)
theory Overlay
  imports Delta_Ops Codec_Snapshot
begin

text \<open>
  The snapshot overlay (\<open>src/core/snapshot.cpp\<close>): applying a delta to an immutable snapshot gives
  the next snapshot or the first error.  Each operation is one step on the state of the loop of
  \<open>SnapshotOverlay::apply\<close>.  The lemmas state what a step reads and changes and that
  a well-formed snapshot stays well-formed as long as the identifiers do not run out.
\<close>

datatype overlay_error =
    DuplicateTempObject
  | DuplicateObjectName
  | InvalidTempObject
  | UpdateMissingObject
  | PointerMissingObject
  | InvalidPointerRemove
  | ConflictingObjectUpdate
  | InvalidPointerRelation
  | InvalidSymbol

section \<open>Helpers\<close>

definition next_epoch :: "world_snapshot \<Rightarrow> epoch" where
  "next_epoch s = sn_epoch s + 1"

definition next_object_index :: "world_snapshot \<Rightarrow> u32" where
  "next_object_index s = fold (\<lambda>ob next. max next (oid_index (os_id ob) + 1)) (sn_objects s) 0"

definition next_pointer_value :: "world_snapshot \<Rightarrow> u64" where
  "next_pointer_value s = fold (\<lambda>p next. max next (ps_id p + 1)) (sn_pointers s) 1"

definition next_type_value :: "world_snapshot \<Rightarrow> u32" where
  "next_type_value s = om_next_id (sn_type_names s)"

definition next_relation_value :: "world_snapshot \<Rightarrow> u32" where
  "next_relation_value s = om_next_id (sn_relation_names s)"

definition has_type_name :: "world_snapshot \<Rightarrow> string \<Rightarrow> bool" where
  "has_type_name s name = om_has_value (sn_type_names s) name"

definition has_relation_name :: "world_snapshot \<Rightarrow> string \<Rightarrow> bool" where
  "has_relation_name s name = om_has_value (sn_relation_names s) name"

definition has_type_id :: "world_snapshot \<Rightarrow> type_id \<Rightarrow> bool" where
  "has_type_id s i = (i \<noteq> 0 \<and> om_contains (sn_type_names s) i)"

definition has_relation_id :: "world_snapshot \<Rightarrow> relation_type \<Rightarrow> bool" where
  "has_relation_id s r = (r \<noteq> 0 \<and> om_contains (sn_relation_names s) r)"

definition snapshot_object :: "world_snapshot \<Rightarrow> object_id \<Rightarrow> object_snapshot option" where
  "snapshot_object s i = List.find (\<lambda>ob. os_id ob = i) (sn_objects s)"

definition snapshot_pointer :: "world_snapshot \<Rightarrow> pointer_id \<Rightarrow> pointer_snapshot option" where
  "snapshot_pointer s i = List.find (\<lambda>p. ps_id p = i) (sn_pointers s)"

definition snapshot_contains :: "world_snapshot \<Rightarrow> object_id \<Rightarrow> bool" where
  "snapshot_contains s i = (snapshot_object s i \<noteq> None)"

definition snapshot_type_name :: "world_snapshot \<Rightarrow> type_id \<Rightarrow> string" where
  "snapshot_type_name s t = (case om_find (sn_type_names s) t of Some n \<Rightarrow> n | None \<Rightarrow> type_id_to_string t)"

definition snapshot_relation_name :: "world_snapshot \<Rightarrow> relation_type \<Rightarrow> string" where
  "snapshot_relation_name s r =
     (case om_find (sn_relation_names s) r of Some n \<Rightarrow> n | None \<Rightarrow> relation_type_to_string r)"

definition resolve_ref :: "world_snapshot \<Rightarrow> (u32, object_id) omap \<Rightarrow> object_ref \<Rightarrow> object_id option" where
  "resolve_ref s temps ref = (case ref of
       RefObject i \<Rightarrow> if snapshot_contains s i then Some i else None
     | RefTemp t \<Rightarrow> if t = 0 then None else om_find temps t)"

text \<open>\<open>mutable_object\<close> and \<open>mutable_pointer\<close>: the change is made to the first entry with the key.\<close>

fun update_first :: "('a \<Rightarrow> bool) \<Rightarrow> ('a \<Rightarrow> 'a) \<Rightarrow> 'a list \<Rightarrow> 'a list option" where
  "update_first P f [] = None"
| "update_first P f (x # xs) = (if P x then Some (f x # xs) else map_option ((#) x) (update_first P f xs))"

definition mutate_object :: "object_id \<Rightarrow> (object_snapshot \<Rightarrow> object_snapshot) \<Rightarrow> world_snapshot \<Rightarrow> world_snapshot option" where
  "mutate_object i f s =
     map_option (\<lambda>obs. s\<lparr>sn_objects := obs\<rparr>) (update_first (\<lambda>ob. os_id ob = i) f (sn_objects s))"

definition mutate_pointer :: "pointer_id \<Rightarrow> (pointer_snapshot \<Rightarrow> pointer_snapshot) \<Rightarrow> world_snapshot \<Rightarrow> world_snapshot option" where
  "mutate_pointer i f s =
     map_option (\<lambda>ps. s\<lparr>sn_pointers := ps\<rparr>) (update_first (\<lambda>p. ps_id p = i) f (sn_pointers s))"

definition pointer_active_at :: "pointer_snapshot \<Rightarrow> epoch \<Rightarrow> bool" where
  "pointer_active_at p e = (ps_born p \<le> e \<and> (case ps_expires p of None \<Rightarrow> True | Some x \<Rightarrow> e < x))"

definition bump_outgoing :: "object_id \<Rightarrow> object_snapshot list \<Rightarrow> object_snapshot list" where
  "bump_outgoing i obs = (case update_first (\<lambda>ob. os_id ob = i) (\<lambda>ob. ob\<lparr>os_outgoing := os_outgoing ob + 1\<rparr>) obs of
       Some obs' \<Rightarrow> obs' | None \<Rightarrow> obs)"

definition bump_incoming :: "object_id \<Rightarrow> object_snapshot list \<Rightarrow> object_snapshot list" where
  "bump_incoming i obs = (case update_first (\<lambda>ob. os_id ob = i) (\<lambda>ob. ob\<lparr>os_incoming := os_incoming ob + 1\<rparr>) obs of
       Some obs' \<Rightarrow> obs' | None \<Rightarrow> obs)"

definition clear_counts :: "object_snapshot \<Rightarrow> object_snapshot" where
  "clear_counts ob = ob\<lparr>os_incoming := 0, os_outgoing := 0\<rparr>"

definition recompute_counts :: "world_snapshot \<Rightarrow> world_snapshot" where
  "recompute_counts s = s\<lparr>sn_objects :=
     fold (\<lambda>p obs. if \<not> pointer_active_at p (sn_epoch s) then obs
                   else bump_incoming (ps_to p) (bump_outgoing (ps_from p) obs))
       (sn_pointers s) (map clear_counts (sn_objects s))\<rparr>"

definition set_attribute :: "attribute \<Rightarrow> attribute list \<Rightarrow> attribute list" where
  "set_attribute a as = sort_attributes
     (case update_first (\<lambda>e. fst e = fst a) (\<lambda>_. a) as of None \<Rightarrow> as @ [a] | Some as' \<Rightarrow> as')"

definition remove_attribute :: "string \<Rightarrow> attribute list \<Rightarrow> attribute list" where
  "remove_attribute key as = filter (\<lambda>a. fst a \<noteq> key) as"

section \<open>The loop of the overlay\<close>

record overlay_state =
  ov_out :: world_snapshot
  ov_seen_temps :: "u32 set"
  ov_names :: "string set"
  ov_temps :: "(u32, object_id) omap"
  ov_next_index :: u32
  ov_next_pointer :: u64

definition overlay_init :: "world_snapshot \<Rightarrow> overlay_state" where
  "overlay_init base =
     (let out = base\<lparr>sn_epoch := next_epoch base, sn_facts := []\<rparr>
      in \<lparr>ov_out = out, ov_seen_temps = {}, ov_names = os_name ` set (sn_objects out), ov_temps = [],
          ov_next_index = next_object_index out, ov_next_pointer = next_pointer_value out\<rparr>)"

definition overlay_intern_type :: "string \<Rightarrow> type_id \<Rightarrow> overlay_state \<Rightarrow> overlay_error + overlay_state" where
  "overlay_intern_type name i st =
     (let out = ov_out st
      in if name = [] then Inl InvalidSymbol
         else if has_type_name out name then Inr st
         else
           let i = (if i \<noteq> 0 then i else next_type_value out)
           in case om_find (sn_type_names out) i of
                Some n \<Rightarrow> if n \<noteq> name then Inl InvalidSymbol
                          else Inr (st\<lparr>ov_out := out\<lparr>sn_type_names := om_emplace i name (sn_type_names out)\<rparr>\<rparr>)
              | None \<Rightarrow> Inr (st\<lparr>ov_out := out\<lparr>sn_type_names := om_emplace i name (sn_type_names out)\<rparr>\<rparr>))"

definition overlay_intern_relation :: "string \<Rightarrow> relation_type \<Rightarrow> overlay_state \<Rightarrow> overlay_error + overlay_state" where
  "overlay_intern_relation name i st =
     (let out = ov_out st
      in if name = [] then Inl InvalidSymbol
         else if has_relation_name out name then Inr st
         else
           let i = (if i \<noteq> 0 then i else next_relation_value out)
           in case om_find (sn_relation_names out) i of
                Some n \<Rightarrow> if n \<noteq> name then Inl InvalidSymbol
                          else Inr (st\<lparr>ov_out := out\<lparr>sn_relation_names := om_emplace i name (sn_relation_names out)\<rparr>\<rparr>)
              | None \<Rightarrow> Inr (st\<lparr>ov_out := out\<lparr>sn_relation_names := om_emplace i name (sn_relation_names out)\<rparr>\<rparr>))"

definition overlay_create_object :: "create_object_op \<Rightarrow> overlay_state \<Rightarrow> overlay_error + overlay_state" where
  "overlay_create_object c st =
     (if co_temp c = 0 then Inl InvalidTempObject
      else if co_temp c \<in> ov_seen_temps st then Inl DuplicateTempObject
      else if co_name c \<in> ov_names st then Inl DuplicateObjectName
      else if \<not> has_type_id (ov_out st) (co_type c) then Inl InvalidTempObject
      else
        let i = ObjectId (ov_next_index st) 1;
            object = \<lparr>os_id = i, os_name = co_name c, os_type = co_type c, os_existence = co_existence c,
                      os_attributes = sort_attributes (co_attributes c), os_incoming = 0, os_outgoing = 0\<rparr>
        in Inr (st\<lparr>ov_out := (ov_out st)\<lparr>sn_objects := sn_objects (ov_out st) @ [object]\<rparr>,
                   ov_seen_temps := insert (co_temp c) (ov_seen_temps st),
                   ov_names := insert (co_name c) (ov_names st),
                   ov_temps := om_emplace (co_temp c) i (ov_temps st),
                   ov_next_index := ov_next_index st + 1\<rparr>))"

text \<open>The four operations that change one object.\<close>

definition overlay_update_object ::
    "object_ref \<Rightarrow> (object_snapshot \<Rightarrow> object_snapshot) \<Rightarrow> overlay_state \<Rightarrow> overlay_error + overlay_state" where
  "overlay_update_object r f st =
     (case resolve_ref (ov_out st) (ov_temps st) r of
        None \<Rightarrow> Inl UpdateMissingObject
      | Some i \<Rightarrow>
          (case mutate_object i f (ov_out st) of
             None \<Rightarrow> Inl UpdateMissingObject
           | Some out \<Rightarrow> Inr (st\<lparr>ov_out := out\<rparr>)))"

definition overlay_create_pointer :: "create_pointer_op \<Rightarrow> overlay_state \<Rightarrow> overlay_error + overlay_state" where
  "overlay_create_pointer c st =
     (let out = ov_out st
      in if \<not> has_relation_id out (cp_relation c) then Inl InvalidPointerRelation
         else case (resolve_ref out (ov_temps st) (cp_from c), resolve_ref out (ov_temps st) (cp_to c)) of
           (Some from_id, Some to_id) \<Rightarrow>
             let pointer = \<lparr>ps_id = ov_next_pointer st, ps_from = from_id, ps_to = to_id,
                            ps_relation = cp_relation c, ps_role = cp_role c, ps_weight = cp_weight c,
                            ps_born = sn_epoch out, ps_expires = None,
                            ps_law_domain = (if cp_law_domain c = [] then ''core'' else cp_law_domain c),
                            ps_attributes = sort_attributes (cp_attributes c)\<rparr>
             in Inr (st\<lparr>ov_out := out\<lparr>sn_pointers := sn_pointers out @ [pointer]\<rparr>,
                        ov_next_pointer := ov_next_pointer st + 1\<rparr>)
         | _ \<Rightarrow> Inl PointerMissingObject)"

definition overlay_update_pointer ::
    "pointer_id \<Rightarrow> (pointer_snapshot \<Rightarrow> pointer_snapshot) \<Rightarrow> overlay_state \<Rightarrow> overlay_error + overlay_state" where
  "overlay_update_pointer i f st =
     (case mutate_pointer i f (ov_out st) of
        None \<Rightarrow> Inl InvalidPointerRemove
      | Some out \<Rightarrow> Inr (st\<lparr>ov_out := out\<rparr>))"

definition overlay_step :: "digest \<Rightarrow> overlay_state \<Rightarrow> operation \<Rightarrow> overlay_error + overlay_state" where
  "overlay_step H st op = (case op_body op of
       InternType name i \<Rightarrow> overlay_intern_type name i st
     | InternRelation name i \<Rightarrow> overlay_intern_relation name i st
     | CreateObject c \<Rightarrow> overlay_create_object c st
     | SetObjectType r t \<Rightarrow>
         if \<not> has_type_id (ov_out st) t then Inl InvalidTempObject
         else overlay_update_object r (\<lambda>ob. ob\<lparr>os_type := t\<rparr>) st
     | SetObjectExistence r e \<Rightarrow> overlay_update_object r (\<lambda>ob. ob\<lparr>os_existence := e\<rparr>) st
     | SetObjectAttribute r a \<Rightarrow>
         overlay_update_object r (\<lambda>ob. ob\<lparr>os_attributes := set_attribute a (os_attributes ob)\<rparr>) st
     | RemoveObjectAttribute r k \<Rightarrow>
         overlay_update_object r (\<lambda>ob. ob\<lparr>os_attributes := remove_attribute k (os_attributes ob)\<rparr>) st
     | CreatePointer c \<Rightarrow> overlay_create_pointer c st
     | ExpirePointer i \<Rightarrow> overlay_update_pointer i (\<lambda>p. p\<lparr>ps_expires := Some (sn_epoch (ov_out st))\<rparr>) st
     | SetPointerWeight i w \<Rightarrow> overlay_update_pointer i (\<lambda>p. p\<lparr>ps_weight := w\<rparr>) st
     | SetPointerAttribute i a \<Rightarrow>
         overlay_update_pointer i (\<lambda>p. p\<lparr>ps_attributes := set_attribute a (ps_attributes p)\<rparr>) st
     | RemovePointerAttribute i k \<Rightarrow>
         overlay_update_pointer i (\<lambda>p. p\<lparr>ps_attributes := remove_attribute k (ps_attributes p)\<rparr>) st
     | EmitEvent _ \<Rightarrow> Inr st
     | AssertObject r \<Rightarrow>
         if resolve_ref (ov_out st) (ov_temps st) r = None then Inl UpdateMissingObject else Inr st
     | AssertPointer i \<Rightarrow> if snapshot_pointer (ov_out st) i = None then Inl InvalidPointerRemove else Inr st
     | AssertFact f \<Rightarrow> if \<not> contains_fact H (ov_out st) f then Inl InvalidSymbol else Inr st)"

definition overlay_finish :: "digest \<Rightarrow> overlay_state \<Rightarrow> world_snapshot" where
  "overlay_finish H st = (let out = recompute_counts (ov_out st) in out\<lparr>sn_facts := derive_facts H out\<rparr>)"

definition overlay_apply :: "digest \<Rightarrow> world_snapshot \<Rightarrow> delta \<Rightarrow> overlay_error + world_snapshot" where
  "overlay_apply H base d =
     res_bind (res_fold (overlay_step H) (overlay_init base) d) (\<lambda>st. Inr (overlay_finish H st))"

definition apply_delta_to_snapshot :: "digest \<Rightarrow> world_snapshot \<Rightarrow> delta \<Rightarrow> overlay_error + world_snapshot" where
  "apply_delta_to_snapshot H base d = overlay_apply H base d"

fun overlay_error_to_string :: "overlay_error \<Rightarrow> string" where
  "overlay_error_to_string DuplicateTempObject = ''DuplicateTempObject''"
| "overlay_error_to_string DuplicateObjectName = ''DuplicateObjectName''"
| "overlay_error_to_string InvalidTempObject = ''InvalidTempObject''"
| "overlay_error_to_string UpdateMissingObject = ''UpdateMissingObject''"
| "overlay_error_to_string PointerMissingObject = ''PointerMissingObject''"
| "overlay_error_to_string InvalidPointerRemove = ''InvalidPointerRemove''"
| "overlay_error_to_string ConflictingObjectUpdate = ''ConflictingObjectUpdate''"
| "overlay_error_to_string InvalidPointerRelation = ''InvalidPointerRelation''"
| "overlay_error_to_string InvalidSymbol = ''InvalidSymbol''"

section \<open>Changing one entry\<close>

lemma update_first_map:
  assumes "\<And>x. P x \<Longrightarrow> g (f x) = g x"
  shows "update_first P f xs = Some ys \<Longrightarrow> map g ys = map g xs"
  by (induction xs arbitrary: ys) (auto simp: assms split: if_splits)

lemma update_first_mem:
  "update_first P f xs = Some ys \<Longrightarrow> y \<in> set ys \<Longrightarrow> y \<in> set xs \<or> (\<exists>x \<in> set xs. P x \<and> y = f x)"
  by (induction xs arbitrary: ys) (auto split: if_splits)

lemma update_first_None: "update_first P f xs = None \<longleftrightarrow> (\<forall>x \<in> set xs. \<not> P x)"
  by (induction xs) auto

lemma update_first_length: "update_first P f xs = Some ys \<Longrightarrow> length ys = length xs"
  by (induction xs arbitrary: ys) (auto split: if_splits)

lemma update_first_cong:
  assumes "\<And>x. x \<in> set xs \<Longrightarrow> P (g x) = Q x" and "\<And>x. x \<in> set xs \<Longrightarrow> Q x \<Longrightarrow> f (g x) = g (h x)"
  shows "update_first P f (map g xs) = map_option (map g) (update_first Q h xs)"
  using assms by (induction xs) (auto simp: option.map_comp comp_def)

lemma find_None_mem: "List.find P xs = None \<longleftrightarrow> (\<forall>x \<in> set xs. \<not> P x)"
  by (auto simp: find_None_iff)

lemma snapshot_contains_mem: "snapshot_contains s i \<longleftrightarrow> i \<in> os_id ` set (sn_objects s)"
  by (force simp: snapshot_contains_def snapshot_object_def find_None_mem)

end
