(* ===== verification/Overlay_Inv.thy ===== *)
theory Overlay_Inv
  imports Overlay
begin

text \<open>
  Well-formed snapshots and the invariant of the overlay's loop.  A snapshot is well formed when
  object and pointer identifiers and object names are unique, every object has a declared type,
  every pointer has a declared relation and connects two of the objects, and every attribute list
  is in canonical order.  An overlay of a well-formed snapshot is well formed, provided the 32-bit
  object indexes and the 64-bit pointer numbers do not run out.
\<close>

definition object_wf :: "world_snapshot \<Rightarrow> object_snapshot \<Rightarrow> bool" where
  "object_wf s ob = (has_type_id s (os_type ob) \<and> sort_attributes (os_attributes ob) = os_attributes ob)"

definition pointer_wf :: "world_snapshot \<Rightarrow> pointer_snapshot \<Rightarrow> bool" where
  "pointer_wf s p = (snapshot_contains s (ps_from p) \<and> snapshot_contains s (ps_to p)
     \<and> has_relation_id s (ps_relation p) \<and> sort_attributes (ps_attributes p) = ps_attributes p)"

definition snapshot_wf :: "world_snapshot \<Rightarrow> bool" where
  "snapshot_wf s =
     (distinct (map os_id (sn_objects s)) \<and> distinct (map os_name (sn_objects s))
      \<and> distinct (map ps_id (sn_pointers s))
      \<and> om_inv (sn_type_names s) \<and> om_inv (sn_relation_names s)
      \<and> list_all (object_wf s) (sn_objects s) \<and> list_all (pointer_wf s) (sn_pointers s))"

text \<open>The identifiers in use are below the next ones, and \<open>n\<close> more do not overflow.\<close>

definition ids_room :: "world_snapshot \<Rightarrow> nat \<Rightarrow> bool" where
  "ids_room s n =
     (list_all (\<lambda>ob. oid_index (os_id ob) < next_object_index s) (sn_objects s)
      \<and> list_all (\<lambda>p. ps_id p < next_pointer_value s) (sn_pointers s)
      \<and> unat (next_object_index s) + n < 2 ^ 32 \<and> unat (next_pointer_value s) + n < 2 ^ 64)"

definition overlay_inv :: "nat \<Rightarrow> overlay_state \<Rightarrow> bool" where
  "overlay_inv n st =
     (snapshot_wf (ov_out st)
      \<and> ov_names st = os_name ` set (sn_objects (ov_out st))
      \<and> (\<forall>ob \<in> set (sn_objects (ov_out st)). oid_index (os_id ob) < ov_next_index st)
      \<and> (\<forall>p \<in> set (sn_pointers (ov_out st)). ps_id p < ov_next_pointer st)
      \<and> (\<forall>t i. om_find (ov_temps st) t = Some i \<longrightarrow> snapshot_contains (ov_out st) i)
      \<and> (\<forall>t. om_find (ov_temps st) t \<noteq> None \<longrightarrow> t \<in> ov_seen_temps st)
      \<and> unat (ov_next_index st) + n < 2 ^ 32 \<and> unat (ov_next_pointer st) + n < 2 ^ 64)"

section \<open>Well-formedness depends on the tables and the object identifiers\<close>

lemma wf_mono:
  assumes "\<And>i. has_type_id s i \<Longrightarrow> has_type_id t i" and "\<And>i. has_relation_id s i \<Longrightarrow> has_relation_id t i"
    and "os_id ` set (sn_objects s) \<subseteq> os_id ` set (sn_objects t)"
  shows "object_wf s ob \<Longrightarrow> object_wf t ob" and "pointer_wf s p \<Longrightarrow> pointer_wf t p"
  using assms by (auto simp: object_wf_def pointer_wf_def snapshot_contains_mem)

lemma has_id_simps [simp]:
  "has_type_id (s\<lparr>sn_objects := obs\<rparr>) i = has_type_id s i"
  "has_type_id (s\<lparr>sn_pointers := ps\<rparr>) i = has_type_id s i"
  "has_type_id (s\<lparr>sn_relation_names := ns\<rparr>) i = has_type_id s i"
  "has_type_id (s\<lparr>sn_facts := fs\<rparr>) i = has_type_id s i"
  "has_type_id (s\<lparr>sn_epoch := e\<rparr>) i = has_type_id s i"
  "has_relation_id (s\<lparr>sn_objects := obs\<rparr>) i = has_relation_id s i"
  "has_relation_id (s\<lparr>sn_pointers := ps\<rparr>) i = has_relation_id s i"
  "has_relation_id (s\<lparr>sn_type_names := ns\<rparr>) i = has_relation_id s i"
  "has_relation_id (s\<lparr>sn_facts := fs\<rparr>) i = has_relation_id s i"
  "has_relation_id (s\<lparr>sn_epoch := e\<rparr>) i = has_relation_id s i"
  by (simp_all add: has_type_id_def has_relation_id_def)

lemma has_id_emplace [simp]:
  "has_type_id (s\<lparr>sn_type_names := om_emplace k n (sn_type_names s)\<rparr>) i \<longleftrightarrow> has_type_id s i \<or> i = k \<and> k \<noteq> 0"
  "has_relation_id (s\<lparr>sn_relation_names := om_emplace k n (sn_relation_names s)\<rparr>) i
     \<longleftrightarrow> has_relation_id s i \<or> i = k \<and> k \<noteq> 0"
  by (auto simp: has_type_id_def has_relation_id_def om_contains_iff keys_om_emplace)

lemma sort_set_attribute [simp]: "sort_attributes (set_attribute a as) = set_attribute a as"
  by (simp add: set_attribute_def)

lemma sort_remove_attribute:
  assumes "sort_attributes as = as"
  shows "sort_attributes (remove_attribute k as) = remove_attribute k as"
proof (rule sort_attributes_sorted)
  have "sorted_wrt (\<lambda>x y. \<not> attribute_lt y x) as" using sorted_sort_attributes [of as] assms by simp
  then show "sorted_wrt (\<lambda>x y. \<not> attribute_lt y x) (remove_attribute k as)"
    by (simp add: remove_attribute_def sorted_wrt_filter)
qed

text \<open>Replacing the objects by objects with the same identifiers and names.\<close>

lemma wf_replace_objects:
  assumes "snapshot_wf s" and "map os_id obs = map os_id (sn_objects s)" and "map os_name obs = map os_name (sn_objects s)"
    and "\<And>ob. ob \<in> set obs \<Longrightarrow> object_wf s ob"
  shows "snapshot_wf (s\<lparr>sn_objects := obs\<rparr>)"
proof -
  have "os_id ` set obs = os_id ` set (sn_objects s)" using assms(2) by (metis list.set_map)
  then have "pointer_wf s p \<Longrightarrow> pointer_wf (s\<lparr>sn_objects := obs\<rparr>) p" for p
    by (auto simp: pointer_wf_def snapshot_contains_mem)
  with assms show ?thesis
    by (simp add: snapshot_wf_def list_all_iff object_wf_def)
qed

lemma wf_replace_pointers:
  assumes "snapshot_wf s" and "map ps_id ps = map ps_id (sn_pointers s)" and "\<And>p. p \<in> set ps \<Longrightarrow> pointer_wf s p"
  shows "snapshot_wf (s\<lparr>sn_pointers := ps\<rparr>)"
  using assms by (auto simp: snapshot_wf_def list_all_iff object_wf_def pointer_wf_def snapshot_contains_mem)

section \<open>The steps\<close>

lemma mutate_object_Some:
  assumes "mutate_object i f s = Some out"
  obtains obs where "out = s\<lparr>sn_objects := obs\<rparr>"
    and "update_first (\<lambda>ob. os_id ob = i) f (sn_objects s) = Some obs"
  using assms by (auto simp: mutate_object_def)

lemma mutate_pointer_Some:
  assumes "mutate_pointer i f s = Some out"
  obtains ps where "out = s\<lparr>sn_pointers := ps\<rparr>"
    and "update_first (\<lambda>p. ps_id p = i) f (sn_pointers s) = Some ps"
  using assms by (auto simp: mutate_pointer_def)

lemma inv_update_object:
  assumes inv: "overlay_inv n st" and res: "overlay_update_object r f st = Inr st'"
    and f: "\<And>ob. os_id (f ob) = os_id ob" "\<And>ob. os_name (f ob) = os_name ob"
    and wf: "\<And>ob. object_wf (ov_out st) ob \<Longrightarrow> object_wf (ov_out st) (f ob)"
  shows "overlay_inv n st'"
proof -
  from res obtain i out where mut: "mutate_object i f (ov_out st) = Some out" and st': "st' = st\<lparr>ov_out := out\<rparr>"
    by (auto simp: overlay_update_object_def split: option.splits)
  from mutate_object_Some [OF mut] obtain obs where out: "out = (ov_out st)\<lparr>sn_objects := obs\<rparr>"
    and upd: "update_first (\<lambda>ob. os_id ob = i) f (sn_objects (ov_out st)) = Some obs" .
  have ids: "map os_id obs = map os_id (sn_objects (ov_out st))"
    "map os_name obs = map os_name (sn_objects (ov_out st))"
    using update_first_map [OF _ upd] f by blast+
  then have sets: "os_id ` set obs = os_id ` set (sn_objects (ov_out st))"
    "os_name ` set obs = os_name ` set (sn_objects (ov_out st))" by (metis list.set_map)+
  have "object_wf (ov_out st) ob" if "ob \<in> set obs" for ob
    using update_first_mem [OF upd that] inv wf by (auto simp: overlay_inv_def snapshot_wf_def list_all_iff)
  then have "snapshot_wf out" unfolding out
    using inv ids by (intro wf_replace_objects) (auto simp: overlay_inv_def)
  moreover have "oid_index (os_id ob) < ov_next_index st" if "ob \<in> set obs" for ob
    using inv update_first_mem [OF upd that] f by (auto simp: overlay_inv_def)
  ultimately show ?thesis using inv sets by (simp add: overlay_inv_def st' out snapshot_contains_mem)
qed

lemma inv_update_pointer:
  assumes inv: "overlay_inv n st" and res: "overlay_update_pointer i f st = Inr st'"
    and f: "\<And>p. ps_id (f p) = ps_id p" and wf: "\<And>p. pointer_wf (ov_out st) p \<Longrightarrow> pointer_wf (ov_out st) (f p)"
  shows "overlay_inv n st'"
proof -
  from res obtain out where mut: "mutate_pointer i f (ov_out st) = Some out" and st': "st' = st\<lparr>ov_out := out\<rparr>"
    by (auto simp: overlay_update_pointer_def split: option.splits)
  from mutate_pointer_Some [OF mut] obtain ps where out: "out = (ov_out st)\<lparr>sn_pointers := ps\<rparr>"
    and upd: "update_first (\<lambda>p. ps_id p = i) f (sn_pointers (ov_out st)) = Some ps" .
  have ids: "map ps_id ps = map ps_id (sn_pointers (ov_out st))"
    using update_first_map [OF _ upd] f by blast
  have "pointer_wf (ov_out st) p" if "p \<in> set ps" for p
    using update_first_mem [OF upd that] inv wf by (auto simp: overlay_inv_def snapshot_wf_def list_all_iff)
  then have "snapshot_wf out" unfolding out
    using inv ids by (intro wf_replace_pointers) (auto simp: overlay_inv_def)
  moreover have "ps_id p < ov_next_pointer st" if "p \<in> set ps" for p
    using inv update_first_mem [OF upd that] f by (auto simp: overlay_inv_def)
  ultimately show ?thesis using inv by (simp add: overlay_inv_def st' out snapshot_contains_mem)
qed

lemma wf_intern:
  assumes "snapshot_wf s"
  shows "snapshot_wf (s\<lparr>sn_type_names := om_emplace i name (sn_type_names s)\<rparr>)"
    and "snapshot_wf (s\<lparr>sn_relation_names := om_emplace i name (sn_relation_names s)\<rparr>)"
  using assms by (auto simp: snapshot_wf_def list_all_iff om_inv_emplace object_wf_def pointer_wf_def snapshot_contains_mem)

lemma inv_intern:
  assumes "overlay_inv n st"
  shows "overlay_intern_type name i st = Inr st' \<Longrightarrow> overlay_inv n st'"
    and "overlay_intern_relation name r st = Inr st' \<Longrightarrow> overlay_inv n st'"
  using assms
  by (auto simp: overlay_intern_type_def overlay_intern_relation_def Let_def overlay_inv_def
      snapshot_contains_mem wf_intern split: if_splits option.splits)

lemma word_next_less:
  fixes x y :: "'a::len word"
  assumes "unat y + 1 < 2 ^ LENGTH('a)"
  shows "y < y + 1" and "x < y \<Longrightarrow> x < y + 1" and "unat (y + 1) = unat y + 1"
proof -
  have "unat (y + 1) = (unat y + 1) mod 2 ^ LENGTH('a)" by (simp add: unat_word_ariths)
  with assms show u: "unat (y + 1) = unat y + 1" by simp
  then show "y < y + 1" "x < y \<Longrightarrow> x < y + 1" by (simp_all add: word_less_nat_alt)
qed

lemma inv_create_object:
  assumes inv: "overlay_inv (Suc n) st" and res: "overlay_create_object c st = Inr st'"
  shows "overlay_inv n st'"
proof -
  let ?i = "ObjectId (ov_next_index st) 1"
  let ?ob = "\<lparr>os_id = ?i, os_name = co_name c, os_type = co_type c, os_existence = co_existence c,
               os_attributes = sort_attributes (co_attributes c), os_incoming = 0, os_outgoing = 0\<rparr>"
  let ?out = "(ov_out st)\<lparr>sn_objects := sn_objects (ov_out st) @ [?ob]\<rparr>"
  from res have new: "co_name c \<notin> ov_names st" and ty: "has_type_id (ov_out st) (co_type c)"
    and fresh: "co_temp c \<notin> ov_seen_temps st"
    and st': "st' = st\<lparr>ov_out := ?out, ov_seen_temps := insert (co_temp c) (ov_seen_temps st),
                ov_names := insert (co_name c) (ov_names st),
                ov_temps := om_emplace (co_temp c) ?i (ov_temps st), ov_next_index := ov_next_index st + 1\<rparr>"
    by (auto simp: overlay_create_object_def Let_def split: if_splits)
  note nxt = word_next_less [of "ov_next_index st"]
  have room: "unat (ov_next_index st) + 1 < 2 ^ LENGTH(32)" using inv by (simp add: overlay_inv_def)
  have below: "\<forall>ob \<in> set (sn_objects (ov_out st)). oid_index (os_id ob) < ov_next_index st"
    using inv by (simp add: overlay_inv_def)
  have idx: "?i \<notin> os_id ` set (sn_objects (ov_out st))"
  proof
    assume "?i \<in> os_id ` set (sn_objects (ov_out st))"
    then obtain ob where "ob \<in> set (sn_objects (ov_out st))" "os_id ob = ?i" by auto
    with below have "oid_index ?i < ov_next_index st" by metis
    then show False by simp
  qed
  have "snapshot_wf ?out"
  proof -
    have mono: "pointer_wf (ov_out st) p \<Longrightarrow> pointer_wf ?out p" "object_wf (ov_out st) ob \<Longrightarrow> object_wf ?out ob" for p ob
      by (auto simp: pointer_wf_def object_wf_def snapshot_contains_mem)
    have "object_wf ?out ?ob" using ty by (simp add: object_wf_def)
    then show ?thesis
      using inv idx new mono by (auto simp: overlay_inv_def snapshot_wf_def list_all_iff)
  qed
  moreover have "\<forall>ob \<in> set (sn_objects ?out). oid_index (os_id ob) < ov_next_index st + 1"
    using inv nxt [OF room] by (auto simp: overlay_inv_def)
  moreover have "\<forall>t i. om_find (om_emplace (co_temp c) ?i (ov_temps st)) t = Some i \<longrightarrow> snapshot_contains ?out i"
    using inv by (auto simp: overlay_inv_def om_find_emplace snapshot_contains_mem split: option.splits)
  ultimately show ?thesis
    using inv nxt [OF room] by (auto simp: overlay_inv_def st' om_find_emplace)
qed

lemma resolve_contains:
  assumes "overlay_inv n st" and "resolve_ref (ov_out st) (ov_temps st) r = Some i"
  shows "snapshot_contains (ov_out st) i"
  using assms by (auto simp: resolve_ref_def overlay_inv_def split: object_ref.splits if_splits)

lemma inv_create_pointer:
  assumes inv: "overlay_inv (Suc n) st" and res: "overlay_create_pointer c st = Inr st'"
  shows "overlay_inv n st'"
proof -
  from res obtain f t where ft: "resolve_ref (ov_out st) (ov_temps st) (cp_from c) = Some f"
      "resolve_ref (ov_out st) (ov_temps st) (cp_to c) = Some t"
    and rel: "has_relation_id (ov_out st) (cp_relation c)"
    by (auto simp: overlay_create_pointer_def Let_def split: if_splits option.splits)
  define p where "p = \<lparr>ps_id = ov_next_pointer st, ps_from = f, ps_to = t, ps_relation = cp_relation c,
      ps_role = cp_role c, ps_weight = cp_weight c, ps_born = sn_epoch (ov_out st), ps_expires = None,
      ps_law_domain = (if cp_law_domain c = [] then ''core'' else cp_law_domain c),
      ps_attributes = sort_attributes (cp_attributes c)\<rparr>"
  have st': "st' = st\<lparr>ov_out := (ov_out st)\<lparr>sn_pointers := sn_pointers (ov_out st) @ [p]\<rparr>,
      ov_next_pointer := ov_next_pointer st + 1\<rparr>"
    using res ft rel by (simp add: overlay_create_pointer_def p_def Let_def)
  have room: "unat (ov_next_pointer st) + 1 < 2 ^ LENGTH(64)" using inv by (simp add: overlay_inv_def)
  have "pointer_wf (ov_out st) p"
    using ft rel resolve_contains [OF inv] by (auto simp: pointer_wf_def p_def)
  moreover have "ps_id p \<notin> ps_id ` set (sn_pointers (ov_out st))"
  proof -
    have "\<forall>q \<in> set (sn_pointers (ov_out st)). ps_id q < ov_next_pointer st"
      using inv by (simp add: overlay_inv_def)
    then show ?thesis by (auto simp: p_def)
  qed
  ultimately have "snapshot_wf ((ov_out st)\<lparr>sn_pointers := sn_pointers (ov_out st) @ [p]\<rparr>)"
    using inv by (auto simp: overlay_inv_def snapshot_wf_def list_all_iff object_wf_def pointer_wf_def snapshot_contains_mem)
  then show ?thesis
    using inv word_next_less [OF room] by (auto simp: overlay_inv_def st' snapshot_contains_mem p_def)
qed

lemma overlay_inv_weaken: "overlay_inv (Suc n) st \<Longrightarrow> overlay_inv n st"
  by (auto simp: overlay_inv_def)

lemma overlay_step_inv:
  assumes inv: "overlay_inv (Suc n) st" and res: "overlay_step H st op = Inr st'"
  shows "overlay_inv n st'"
proof -
  note inv' = overlay_inv_weaken [OF inv]
  show ?thesis
  proof (cases "op_body op")
    case (CreateObject c)
    with res show ?thesis by (intro inv_create_object [OF inv]) (simp add: overlay_step_def)
  next
    case (CreatePointer c)
    with res show ?thesis by (intro inv_create_pointer [OF inv]) (simp add: overlay_step_def)
  qed (use inv' res in \<open>auto simp: overlay_step_def object_wf_def pointer_wf_def sort_remove_attribute
        intro: inv_update_object inv_update_pointer inv_intern split: if_splits\<close>)
qed

lemma overlay_loop_inv:
  "overlay_inv (n + length ops) st \<Longrightarrow> res_fold (overlay_step H) st ops = Inr st' \<Longrightarrow> overlay_inv n st'"
proof (induction ops arbitrary: st)
  case Nil
  then show ?case by simp
next
  case (Cons op ops)
  then obtain st1 where st1: "overlay_step H st op = Inr st1" "res_fold (overlay_step H) st1 ops = Inr st'"
    by (auto simp: res_bind_Inr_iff)
  from Cons.prems(1) have "overlay_inv (Suc (n + length ops)) st" by simp
  from Cons.IH [OF overlay_step_inv [OF this st1(1)] st1(2)] show ?case .
qed

lemma overlay_init_inv:
  assumes "snapshot_wf base" and "ids_room base n"
  shows "overlay_inv n (overlay_init base)"
  using assms
  by (auto simp: overlay_inv_def overlay_init_def Let_def ids_room_def snapshot_wf_def list_all_iff
      object_wf_def pointer_wf_def snapshot_contains_mem next_object_index_def next_pointer_value_def)

section \<open>Counts\<close>

lemma bump_map:
  "map os_id (bump_outgoing i obs) = map os_id obs" "map os_id (bump_incoming i obs) = map os_id obs"
  "map os_name (bump_outgoing i obs) = map os_name obs" "map os_name (bump_incoming i obs) = map os_name obs"
  "map clear_counts (bump_outgoing i obs) = map clear_counts obs"
  "map clear_counts (bump_incoming i obs) = map clear_counts obs"
  unfolding bump_outgoing_def bump_incoming_def
  by (auto split: option.split dest: update_first_map [where g = os_id, rotated]
      update_first_map [where g = os_name, rotated] update_first_map [where g = clear_counts, rotated] simp: clear_counts_def)

definition outgoing_count :: "epoch \<Rightarrow> pointer_snapshot list \<Rightarrow> object_id \<Rightarrow> nat" where
  "outgoing_count e ps i = length (filter (\<lambda>p. pointer_active_at p e \<and> ps_from p = i) ps)"

definition incoming_count :: "epoch \<Rightarrow> pointer_snapshot list \<Rightarrow> object_id \<Rightarrow> nat" where
  "incoming_count e ps i = length (filter (\<lambda>p. pointer_active_at p e \<and> ps_to p = i) ps)"

definition with_counts :: "epoch \<Rightarrow> pointer_snapshot list \<Rightarrow> object_snapshot \<Rightarrow> object_snapshot" where
  "with_counts e ps ob = ob\<lparr>os_incoming := of_nat (incoming_count e ps (os_id ob)),
                           os_outgoing := of_nat (outgoing_count e ps (os_id ob))\<rparr>"

text \<open>With distinct keys, changing the first entry with a key is changing the entry with the key.\<close>

lemma update_first_distinct:
  assumes "distinct (map g xs)"
  shows "(case update_first (\<lambda>x. g x = k) f xs of Some ys \<Rightarrow> ys | None \<Rightarrow> xs) = map (\<lambda>x. if g x = k then f x else x) xs"
  using assms
proof (induction xs)
  case (Cons x xs)
  show ?case
  proof (cases "g x = k")
    case True
    from Cons.prems have "g x \<notin> g ` set xs" by simp
    with True have "g y \<noteq> k" if "y \<in> set xs" for y using imageI [OF that, of g] by metis
    then have "map (\<lambda>x. if g x = k then f x else x) xs = map (\<lambda>x. x) xs" by (intro map_cong) auto
    with True show ?thesis by simp
  next
    case False
    with Cons show ?thesis by (cases "update_first (\<lambda>x. g x = k) f xs") auto
  qed
qed simp

lemma recompute_counts_spec:
  assumes "distinct (map os_id (sn_objects s))"
  shows "recompute_counts s = s\<lparr>sn_objects := map (with_counts (sn_epoch s) (sn_pointers s)) (sn_objects s)\<rparr>"
proof -
  let ?e = "sn_epoch s"
  let ?step = "\<lambda>p obs. if \<not> pointer_active_at p ?e then obs else bump_incoming (ps_to p) (bump_outgoing (ps_from p) obs)"
  have "fold ?step ps (map clear_counts obs) = map (with_counts ?e ps) obs" if "distinct (map os_id obs)" for ps obs
  proof (induction ps rule: rev_induct)
    case Nil
    show ?case by (simp add: with_counts_def clear_counts_def incoming_count_def outgoing_count_def)
  next
    case (snoc p ps)
    have ids: "os_id (with_counts ?e ps ob) = os_id ob" for ob by (simp add: with_counts_def)
    have d: "distinct (map os_id (map (with_counts ?e ps) obs))" using that by (simp add: comp_def ids)
    have bo: "bump_outgoing i xs = map (\<lambda>ob. if os_id ob = i then ob\<lparr>os_outgoing := os_outgoing ob + 1\<rparr> else ob) xs"
      if "distinct (map os_id xs)" for i xs
      unfolding bump_outgoing_def by (rule update_first_distinct [OF that])
    have bi: "bump_incoming i xs = map (\<lambda>ob. if os_id ob = i then ob\<lparr>os_incoming := os_incoming ob + 1\<rparr> else ob) xs"
      if "distinct (map os_id xs)" for i xs
      unfolding bump_incoming_def by (rule update_first_distinct [OF that])
    have d': "distinct (map os_id (bump_outgoing i (map (with_counts ?e ps) obs)))" for i
      using d by (simp only: bump_map)
    have step: "bump_incoming (ps_to p) (bump_outgoing (ps_from p) (map (with_counts ?e ps) obs))
        = map (\<lambda>ob. if os_id ob = ps_to p then ob\<lparr>os_incoming := os_incoming ob + 1\<rparr> else ob)
            (map (\<lambda>ob. if os_id ob = ps_from p then ob\<lparr>os_outgoing := os_outgoing ob + 1\<rparr> else ob)
              (map (with_counts ?e ps) obs))"
      by (subst bi [OF d'], subst bo [OF d]) (rule refl)
    have "fold ?step (ps @ [p]) (map clear_counts obs) = ?step p (map (with_counts ?e ps) obs)"
      by (simp add: snoc.IH)
    also have "\<dots> = map (with_counts ?e (ps @ [p])) obs"
      unfolding step by (auto simp: with_counts_def incoming_count_def outgoing_count_def)
    finally show ?case .
  qed
  with assms show ?thesis by (simp add: recompute_counts_def)
qed

section \<open>The result of an overlay\<close>

lemma overlay_finish_wf:
  assumes "snapshot_wf (ov_out st)"
  shows "snapshot_wf (overlay_finish H st)"
proof -
  let ?s = "ov_out st"
  have "distinct (map os_id (sn_objects ?s))" using assms by (simp add: snapshot_wf_def)
  then have eq: "recompute_counts ?s = ?s\<lparr>sn_objects := map (with_counts (sn_epoch ?s) (sn_pointers ?s)) (sn_objects ?s)\<rparr>"
    by (rule recompute_counts_spec)
  have "snapshot_wf (recompute_counts ?s)" unfolding eq
    using assms by (intro wf_replace_objects)
      (auto simp: with_counts_def snapshot_wf_def list_all_iff object_wf_def)
  then show ?thesis
    by (auto simp: overlay_finish_def Let_def snapshot_wf_def list_all_iff object_wf_def pointer_wf_def snapshot_contains_mem)
qed

lemma overlay_apply_Inr:
  assumes "overlay_apply H base d = Inr s"
  obtains st where "res_fold (overlay_step H) (overlay_init base) d = Inr st" and "s = overlay_finish H st"
  using assms by (auto simp: overlay_apply_def res_bind_Inr_iff)

lemma overlay_apply_wf:
  assumes "snapshot_wf base" and "ids_room base (length d)" and res: "overlay_apply H base d = Inr s"
  shows "snapshot_wf s"
proof -
  from res obtain st where st: "res_fold (overlay_step H) (overlay_init base) d = Inr st" "s = overlay_finish H st"
    by (rule overlay_apply_Inr)
  have "overlay_inv (0 + length d) (overlay_init base)" using overlay_init_inv [OF assms(1,2)] by simp
  from overlay_loop_inv [OF this st(1)] show ?thesis
    unfolding st(2) by (intro overlay_finish_wf) (simp add: overlay_inv_def)
qed

text \<open>The identity of the world and the clock: whatever the delta, and also without the invariant.\<close>

lemma overlay_step_frame:
  assumes "overlay_step H st op = Inr st'"
  shows "sn_world (ov_out st') = sn_world (ov_out st)" and "sn_world_name (ov_out st') = sn_world_name (ov_out st)"
    and "sn_epoch (ov_out st') = sn_epoch (ov_out st)"
proof -
  have frames: "overlay_update_object r f st = Inr st' \<Longrightarrow> \<exists>obs. st' = st\<lparr>ov_out := (ov_out st)\<lparr>sn_objects := obs\<rparr>\<rparr>"
    "overlay_update_pointer i g st = Inr st' \<Longrightarrow> \<exists>ps. st' = st\<lparr>ov_out := (ov_out st)\<lparr>sn_pointers := ps\<rparr>\<rparr>" for r f i g
    by (auto simp: overlay_update_object_def overlay_update_pointer_def mutate_object_def mutate_pointer_def
        split: option.splits)
  have "sn_world (ov_out st') = sn_world (ov_out st) \<and> sn_world_name (ov_out st') = sn_world_name (ov_out st)
    \<and> sn_epoch (ov_out st') = sn_epoch (ov_out st)"
    using assms
    by (cases "op_body op")
      (auto simp: overlay_step_def overlay_create_object_def overlay_create_pointer_def overlay_intern_type_def
        overlay_intern_relation_def Let_def split: if_splits option.splits dest!: frames)
  then show "sn_world (ov_out st') = sn_world (ov_out st)" "sn_world_name (ov_out st') = sn_world_name (ov_out st)"
    "sn_epoch (ov_out st') = sn_epoch (ov_out st)" by simp_all
qed

lemma overlay_apply_frame:
  assumes "overlay_apply H base d = Inr s"
  shows "sn_world s = sn_world base" and "sn_world_name s = sn_world_name base" and "sn_epoch s = sn_epoch base + 1"
proof -
  from assms obtain st where st: "res_fold (overlay_step H) (overlay_init base) d = Inr st" "s = overlay_finish H st"
    by (rule overlay_apply_Inr)
  have "sn_world (ov_out st) = sn_world base \<and> sn_world_name (ov_out st) = sn_world_name base
      \<and> sn_epoch (ov_out st) = sn_epoch base + 1"
    by (rule res_fold_invariant [OF st(1)])
      (simp_all add: overlay_init_def Let_def next_epoch_def overlay_step_frame)
  then show "sn_world s = sn_world base" "sn_world_name s = sn_world_name base" "sn_epoch s = sn_epoch base + 1"
    by (simp_all add: st(2) overlay_finish_def Let_def recompute_counts_def)
qed

text \<open>
  History is append-only: an overlay keeps every object with its identifier and name, and every
  pointer with its identifier, ends, relation, role and birth, in their order.
\<close>

definition object_core :: "object_snapshot \<Rightarrow> object_id \<times> string" where
  "object_core ob = (os_id ob, os_name ob)"

definition pointer_core :: "pointer_snapshot \<Rightarrow> pointer_id \<times> object_id \<times> object_id \<times> relation_type \<times> causal_role \<times> epoch" where
  "pointer_core p = (ps_id p, ps_from p, ps_to p, ps_relation p, ps_role p, ps_born p)"

definition extends :: "world_snapshot \<Rightarrow> world_snapshot \<Rightarrow> bool" where
  "extends s t = (take (length (sn_objects s)) (map object_core (sn_objects t)) = map object_core (sn_objects s)
     \<and> take (length (sn_pointers s)) (map pointer_core (sn_pointers t)) = map pointer_core (sn_pointers s)
     \<and> (\<forall>(i, n) \<in> set (sn_type_names s). om_find (sn_type_names t) i = om_find (sn_type_names s) i)
     \<and> (\<forall>(r, n) \<in> set (sn_relation_names s). om_find (sn_relation_names t) r = om_find (sn_relation_names s) r))"

lemma take_prefix: "take (length xs) ys = xs \<longleftrightarrow> (\<exists>zs. ys = xs @ zs)"
  by (metis append_eq_conv_conj append_take_drop_id)

lemma extends_alt:
  "extends s t \<longleftrightarrow> (\<exists>os. map object_core (sn_objects t) = map object_core (sn_objects s) @ os)
     \<and> (\<exists>ps. map pointer_core (sn_pointers t) = map pointer_core (sn_pointers s) @ ps)
     \<and> (\<forall>i. om_find (sn_type_names s) i \<noteq> None \<longrightarrow> om_find (sn_type_names t) i = om_find (sn_type_names s) i)
     \<and> (\<forall>r. om_find (sn_relation_names s) r \<noteq> None \<longrightarrow> om_find (sn_relation_names t) r = om_find (sn_relation_names s) r)"
proof -
  have keys: "(\<forall>(i, n) \<in> set m. P i) \<longleftrightarrow> (\<forall>i. om_find m i \<noteq> None \<longrightarrow> P i)" for m :: "(u32, string) omap" and P
    by (force simp: om_find_None_iff image_iff)
  show ?thesis
    using take_prefix [of "map object_core (sn_objects s)" "map object_core (sn_objects t)"]
      take_prefix [of "map pointer_core (sn_pointers s)" "map pointer_core (sn_pointers t)"]
    by (simp only: extends_def keys length_map)
qed

lemma extends_refl: "extends s s"
  by (simp add: extends_alt)

lemma extends_trans: "extends s t \<Longrightarrow> extends t u \<Longrightarrow> extends s u"
  unfolding extends_alt by (metis append.assoc)

lemma overlay_step_extends:
  assumes "overlay_step H st op = Inr st'"
  shows "extends (ov_out st) (ov_out st')"
proof -
  have frames: "overlay_update_object r f st = Inr st' \<Longrightarrow> (\<And>ob. object_core (f ob) = object_core ob) \<Longrightarrow>
      extends (ov_out st) (ov_out st')" for r f
    by (auto simp: overlay_update_object_def mutate_object_def extends_alt split: option.splits
        dest: update_first_map [where g = object_core, rotated])
  have framep: "overlay_update_pointer i g st = Inr st' \<Longrightarrow> (\<And>p. pointer_core (g p) = pointer_core p) \<Longrightarrow>
      extends (ov_out st) (ov_out st')" for i g
    by (auto simp: overlay_update_pointer_def mutate_pointer_def extends_alt split: option.splits
        dest: update_first_map [where g = pointer_core, rotated])
  show ?thesis
    using assms
    by (cases "op_body op")
      (auto simp: overlay_step_def overlay_create_object_def overlay_create_pointer_def overlay_intern_type_def
        overlay_intern_relation_def Let_def object_core_def pointer_core_def extends_alt om_find_emplace
        split: if_splits option.splits
        dest!: frames framep)
qed

lemma recompute_counts_cores:
  "map object_core (sn_objects (recompute_counts s)) = map object_core (sn_objects s)"
proof -
  have core: "map object_core xs = map object_core ys" if "map clear_counts xs = map clear_counts ys" for xs ys
  proof -
    have "map (object_core \<circ> clear_counts) zs = map object_core zs" for zs
      by (simp add: object_core_def clear_counts_def)
    then show ?thesis using that by (metis map_map)
  qed
  have "map clear_counts (fold (\<lambda>p obs. if \<not> pointer_active_at p e then obs
          else bump_incoming (ps_to p) (bump_outgoing (ps_from p) obs)) ps obs) = map clear_counts obs" for e ps obs
    by (induction ps arbitrary: obs) (simp_all add: bump_map)
  moreover have "clear_counts \<circ> clear_counts = clear_counts" by (rule ext) (simp add: clear_counts_def)
  ultimately show ?thesis by (intro core) (simp add: recompute_counts_def)
qed

lemma overlay_apply_extends:
  assumes "overlay_apply H base d = Inr s"
  shows "extends base s"
proof -
  from assms obtain st where st: "res_fold (overlay_step H) (overlay_init base) d = Inr st" "s = overlay_finish H st"
    by (rule overlay_apply_Inr)
  have "extends base (ov_out st)"
  proof (rule res_fold_invariant [OF st(1)])
    show "extends base (ov_out (overlay_init base))" by (simp add: overlay_init_def Let_def extends_alt)
  qed (rule extends_trans, assumption, rule overlay_step_extends)
  moreover have "extends (ov_out st) s"
    using recompute_counts_cores [of "ov_out st"]
    by (simp add: st(2) overlay_finish_def Let_def extends_alt) (simp add: recompute_counts_def)
  ultimately show ?thesis by (rule extends_trans)
qed

lemma derive_facts_update [simp]: "derive_facts H (s\<lparr>sn_facts := fs\<rparr>) = derive_facts H s"
  by (rule derive_facts_cong) simp_all

lemma overlay_apply_facts: "overlay_apply H base d = Inr s \<Longrightarrow> sn_facts s = derive_facts H s"
  by (auto simp: overlay_apply_def overlay_finish_def Let_def res_bind_Inr_iff)

end
