(* ===== verification/World_Index.thy ===== *)
theory World_Index
  imports Overlay_Inv
begin

text \<open>
  The index of a world (\<open>src/core/world_index.cpp\<close>): tables from types, names, ends, relations and
  attribute keys to the objects and active pointers of a snapshot.  The lemmas show that each table
  is sound and complete for the snapshot it was built from and that its lists are sorted.
\<close>

record world_index =
  wi_objects_by_type :: "(u32, object_id list) omap"
  wi_object_by_name :: "(string, object_id) omap"
  wi_outgoing :: "(u32 \<times> u32, pointer_id list) omap"
  wi_incoming :: "(u32 \<times> u32, pointer_id list) omap"
  wi_relation :: "(u32, pointer_id list) omap"
  wi_objects_with_attribute :: "(string, object_id list) omap"

definition index_empty :: world_index where
  "index_empty = \<lparr>wi_objects_by_type = [], wi_object_by_name = [], wi_outgoing = [], wi_incoming = [],
     wi_relation = [], wi_objects_with_attribute = []\<rparr>"

definition object_key :: "object_id \<Rightarrow> u32 \<times> u32" where
  "object_key i = (oid_index i, oid_generation i)"

text \<open>\<open>m[k].push_back(x)\<close> and the lookup that returns the empty span for a missing key.\<close>

definition lookup_list :: "('k, 'v list) omap \<Rightarrow> 'k \<Rightarrow> 'v list" where
  "lookup_list m k = (case om_find m k of Some xs \<Rightarrow> xs | None \<Rightarrow> [])"

definition push_back :: "'k::linorder \<Rightarrow> 'v \<Rightarrow> ('k, 'v list) omap \<Rightarrow> ('k, 'v list) omap" where
  "push_back k x m = om_put k (lookup_list m k @ [x]) m"

definition map_values :: "('v \<Rightarrow> 'w) \<Rightarrow> ('k, 'v) omap \<Rightarrow> ('k, 'w) omap" where
  "map_values f m = map (\<lambda>(k, v). (k, f v)) m"

definition sort_ids :: "'a::linorder list \<Rightarrow> 'a list" where
  "sort_ids ids = sort_by (<) ids"

definition index_object :: "object_snapshot \<Rightarrow> world_index \<Rightarrow> world_index" where
  "index_object ob ix = ix\<lparr>
     wi_objects_by_type := push_back (os_type ob) (os_id ob) (wi_objects_by_type ix),
     wi_object_by_name := om_emplace (os_name ob) (os_id ob) (wi_object_by_name ix),
     wi_objects_with_attribute :=
       fold (\<lambda>a. push_back (fst a) (os_id ob)) (os_attributes ob) (wi_objects_with_attribute ix)\<rparr>"

definition index_pointer :: "epoch \<Rightarrow> pointer_snapshot \<Rightarrow> world_index \<Rightarrow> world_index" where
  "index_pointer e p ix =
     (if \<not> pointer_active_at p e then ix
      else ix\<lparr>wi_outgoing := push_back (object_key (ps_from p)) (ps_id p) (wi_outgoing ix),
              wi_incoming := push_back (object_key (ps_to p)) (ps_id p) (wi_incoming ix),
              wi_relation := push_back (ps_relation p) (ps_id p) (wi_relation ix)\<rparr>)"

definition sort_index :: "world_index \<Rightarrow> world_index" where
  "sort_index ix = ix\<lparr>
     wi_objects_by_type := map_values sort_ids (wi_objects_by_type ix),
     wi_outgoing := map_values sort_ids (wi_outgoing ix),
     wi_incoming := map_values sort_ids (wi_incoming ix),
     wi_relation := map_values sort_ids (wi_relation ix),
     wi_objects_with_attribute := map_values (\<lambda>ids. remdups_adj (sort_ids ids)) (wi_objects_with_attribute ix)\<rparr>"

definition index_rebuild :: "world_snapshot \<Rightarrow> world_index" where
  "index_rebuild s =
     sort_index (fold (index_pointer (sn_epoch s)) (sn_pointers s) (fold index_object (sn_objects s) index_empty))"

definition index_objects_by_type :: "world_index \<Rightarrow> type_id \<Rightarrow> object_id list" where
  "index_objects_by_type ix t = lookup_list (wi_objects_by_type ix) t"

definition index_object_by_name :: "world_index \<Rightarrow> string \<Rightarrow> object_id option" where
  "index_object_by_name ix name = om_find (wi_object_by_name ix) name"

definition index_outgoing :: "world_index \<Rightarrow> object_id \<Rightarrow> pointer_id list" where
  "index_outgoing ix i = lookup_list (wi_outgoing ix) (object_key i)"

definition index_incoming :: "world_index \<Rightarrow> object_id \<Rightarrow> pointer_id list" where
  "index_incoming ix i = lookup_list (wi_incoming ix) (object_key i)"

definition index_relation :: "world_index \<Rightarrow> relation_type \<Rightarrow> pointer_id list" where
  "index_relation ix r = lookup_list (wi_relation ix) r"

definition index_objects_with_attribute :: "world_index \<Rightarrow> string \<Rightarrow> object_id list" where
  "index_objects_with_attribute ix k = lookup_list (wi_objects_with_attribute ix) k"

section \<open>What the tables hold\<close>

lemma object_key_inj [simp]: "object_key i = object_key j \<longleftrightarrow> i = j"
  by (auto simp: object_key_def intro: object_id.expand)

lemma lookup_push_back: "lookup_list (push_back k x m) j = (if j = k then lookup_list m k @ [x] else lookup_list m j)"
  by (simp add: lookup_list_def push_back_def om_find_put)

lemma lookup_map_values: "f [] = [] \<Longrightarrow> lookup_list (map_values f m) k = f (lookup_list m k)"
  by (induction m) (auto simp: lookup_list_def map_values_def)

lemma lookup_fold_push:
  "lookup_list (fold (\<lambda>x. push_back (k x) (v x)) xs m) j = lookup_list m j @ map v (filter (\<lambda>x. k x = j) xs)"
  by (induction xs arbitrary: m) (auto simp: lookup_push_back)

lemma set_sort_ids [simp]: "set (sort_ids ids) = set ids" "length (sort_ids ids) = length ids" "sort_ids [] = []"
  by (simp_all add: sort_ids_def)

lemma sorted_sort_ids [simp]: "sorted (sort_ids ids)"
proof -
  have "sorted_wrt (\<lambda>x y. \<not> y < x) (sort_ids ids)" unfolding sort_ids_def by (rule sorted_sort_by) auto
  then show ?thesis by (simp add: not_less)
qed

lemma distinct_remdups_adj: "sorted xs \<Longrightarrow> distinct (remdups_adj xs)"
  by (induction xs rule: remdups_adj.induct) auto

lemma index_pointers_fold:
  "lookup_list (wi_outgoing (fold (index_pointer e) ps ix)) k =
     lookup_list (wi_outgoing ix) k @ map ps_id (filter (\<lambda>p. pointer_active_at p e \<and> object_key (ps_from p) = k) ps)"
  "lookup_list (wi_incoming (fold (index_pointer e) ps ix)) k =
     lookup_list (wi_incoming ix) k @ map ps_id (filter (\<lambda>p. pointer_active_at p e \<and> object_key (ps_to p) = k) ps)"
  "lookup_list (wi_relation (fold (index_pointer e) ps ix)) r =
     lookup_list (wi_relation ix) r @ map ps_id (filter (\<lambda>p. pointer_active_at p e \<and> ps_relation p = r) ps)"
  "wi_objects_by_type (fold (index_pointer e) ps ix) = wi_objects_by_type ix"
  "wi_object_by_name (fold (index_pointer e) ps ix) = wi_object_by_name ix"
  "wi_objects_with_attribute (fold (index_pointer e) ps ix) = wi_objects_with_attribute ix"
  by (induction ps arbitrary: ix) (auto simp: index_pointer_def lookup_push_back)

lemma index_object_fields [simp]:
  "wi_objects_by_type (index_object ob ix) = push_back (os_type ob) (os_id ob) (wi_objects_by_type ix)"
  "wi_object_by_name (index_object ob ix) = om_emplace (os_name ob) (os_id ob) (wi_object_by_name ix)"
  "wi_objects_with_attribute (index_object ob ix) =
     fold (\<lambda>a. push_back (fst a) (os_id ob)) (os_attributes ob) (wi_objects_with_attribute ix)"
  "wi_outgoing (index_object ob ix) = wi_outgoing ix"
  "wi_incoming (index_object ob ix) = wi_incoming ix"
  "wi_relation (index_object ob ix) = wi_relation ix"
  by (simp_all add: index_object_def)

lemma index_objects_fold:
  "lookup_list (wi_objects_by_type (fold index_object obs ix)) t =
     lookup_list (wi_objects_by_type ix) t @ map os_id (filter (\<lambda>ob. os_type ob = t) obs)"
  "om_find (wi_object_by_name (fold index_object obs ix)) n =
     (case om_find (wi_object_by_name ix) n of Some i \<Rightarrow> Some i
      | None \<Rightarrow> map_option os_id (List.find (\<lambda>ob. os_name ob = n) obs))"
  "set (lookup_list (wi_objects_with_attribute (fold index_object obs ix)) key) =
     set (lookup_list (wi_objects_with_attribute ix) key) \<union> os_id ` {ob \<in> set obs. key \<in> fst ` set (os_attributes ob)}"
  "wi_outgoing (fold index_object obs ix) = wi_outgoing ix"
  "wi_incoming (fold index_object obs ix) = wi_incoming ix"
  "wi_relation (fold index_object obs ix) = wi_relation ix"
proof (induction obs arbitrary: ix)
  case (Cons ob obs)
  {
    case 1
    show ?case by (simp add: Cons(1) lookup_push_back)
  next
    case 2
    show ?case by (auto simp: Cons(2) om_find_emplace split: option.split)
  next
    case 3
    show ?case
      by (force simp: Cons(3) lookup_fold_push [where k = fst and v = "\<lambda>_. os_id ob"] image_iff)
  next
    case 4
    show ?case by (simp add: Cons(4))
  next
    case 5
    show ?case by (simp add: Cons(5))
  next
    case 6
    show ?case by (simp add: Cons(6))
  }
qed (simp_all split: option.split)

lemma index_empty_lookup [simp]: "lookup_list [] k = []"
  by (simp add: lookup_list_def)

lemma index_outgoing_rebuild:
  "index_outgoing (index_rebuild s) i =
     sort_ids (map ps_id (filter (\<lambda>p. pointer_active_at p (sn_epoch s) \<and> ps_from p = i) (sn_pointers s)))"
  by (simp add: index_outgoing_def index_rebuild_def sort_index_def lookup_map_values index_pointers_fold
      index_objects_fold index_empty_def)

lemma index_incoming_rebuild:
  "index_incoming (index_rebuild s) i =
     sort_ids (map ps_id (filter (\<lambda>p. pointer_active_at p (sn_epoch s) \<and> ps_to p = i) (sn_pointers s)))"
  by (simp add: index_incoming_def index_rebuild_def sort_index_def lookup_map_values index_pointers_fold
      index_objects_fold index_empty_def)

lemma index_relation_rebuild:
  "index_relation (index_rebuild s) r =
     sort_ids (map ps_id (filter (\<lambda>p. pointer_active_at p (sn_epoch s) \<and> ps_relation p = r) (sn_pointers s)))"
  by (simp add: index_relation_def index_rebuild_def sort_index_def lookup_map_values index_pointers_fold
      index_objects_fold index_empty_def)

lemma index_objects_by_type_rebuild:
  "index_objects_by_type (index_rebuild s) t = sort_ids (map os_id (filter (\<lambda>ob. os_type ob = t) (sn_objects s)))"
  by (simp add: index_objects_by_type_def index_rebuild_def sort_index_def lookup_map_values index_pointers_fold
      index_objects_fold index_empty_def)

lemma index_object_by_name_rebuild:
  "index_object_by_name (index_rebuild s) n = map_option os_id (List.find (\<lambda>ob. os_name ob = n) (sn_objects s))"
  by (simp add: index_object_by_name_def index_rebuild_def sort_index_def index_pointers_fold
      index_objects_fold index_empty_def)

lemma index_objects_with_attribute_rebuild:
  "set (index_objects_with_attribute (index_rebuild s) key) =
     os_id ` {ob \<in> set (sn_objects s). key \<in> fst ` set (os_attributes ob)}"
  "sorted (index_objects_with_attribute (index_rebuild s) key)"
  "distinct (index_objects_with_attribute (index_rebuild s) key)"
proof -
  have eq: "index_objects_with_attribute (index_rebuild s) key =
      remdups_adj (sort_ids (lookup_list (wi_objects_with_attribute (fold index_object (sn_objects s) index_empty)) key))"
    by (simp add: index_objects_with_attribute_def index_rebuild_def sort_index_def lookup_map_values index_pointers_fold)
  show "set (index_objects_with_attribute (index_rebuild s) key) =
     os_id ` {ob \<in> set (sn_objects s). key \<in> fst ` set (os_attributes ob)}"
    by (simp add: eq index_objects_fold index_empty_def)
  show "sorted (index_objects_with_attribute (index_rebuild s) key)"
    by (simp add: eq sorted_remdups_adj)
  show "distinct (index_objects_with_attribute (index_rebuild s) key)"
    by (simp add: eq distinct_remdups_adj)
qed

text \<open>The numbers of active pointers into and out of an object are those the overlay computes.\<close>

lemma index_counts:
  "length (index_incoming (index_rebuild s) i) = incoming_count (sn_epoch s) (sn_pointers s) i"
  "length (index_outgoing (index_rebuild s) i) = outgoing_count (sn_epoch s) (sn_pointers s) i"
  by (simp_all add: index_incoming_rebuild index_outgoing_rebuild incoming_count_def outgoing_count_def)

end
