(* ===== verification/Registry.thy ===== *)
theory Registry
  imports Model_Types
begin

text \<open>
  The registries that give type and relation names their identifiers (\<open>src/core/type.cpp\<close>,
  \<open>src/core/relation.cpp\<close>) and the names of the enums.  The two registries are the same code over
  two identifier types; the operations are written once and named again for relations.  A registry
  is a table from names to identifiers and a vector of names, slot \<open>i - 1\<close> for identifier \<open>i\<close>; a
  slot that was skipped holds the empty string.  The invariant \<open>registry_inv\<close> says the two sides
  are inverse of each other on the slots in use.
\<close>

section \<open>The registry\<close>

record registry =
  rg_ids :: "(string, u32) omap"
  rg_names :: "string list"

datatype registry_error =
    EmptySymbolName
  | NameHasOtherId string u32
  | IdHasOtherName u32 string
  | UnknownSymbol u32

definition registry_empty :: registry where
  "registry_empty = \<lparr>rg_ids = [], rg_names = []\<rparr>"

definition registry_intern :: "string \<Rightarrow> registry \<Rightarrow> registry_error + u32 \<times> registry" where
  "registry_intern name r =
     (if name = [] then Inl EmptySymbolName
      else case om_find (rg_ids r) name of
        Some i \<Rightarrow> Inr (i, r)
      | None \<Rightarrow>
          let i = of_nat (length (rg_names r) + 1)
          in Inr (i, \<lparr>rg_ids = om_emplace name i (rg_ids r), rg_names = rg_names r @ [name]\<rparr>))"

definition registry_find :: "registry \<Rightarrow> string \<Rightarrow> u32 option" where
  "registry_find r name = om_find (rg_ids r) name"

definition resize_names :: "string list \<Rightarrow> nat \<Rightarrow> string list" where
  "resize_names names n = (if length names < n then names @ replicate (n - length names) [] else names)"

definition registry_intern_at :: "u32 \<Rightarrow> string \<Rightarrow> registry \<Rightarrow> registry_error + u32 \<times> registry" where
  "registry_intern_at i name r =
     (if name = [] then Inl EmptySymbolName
      else if i = 0 then registry_intern name r
      else case registry_find r name of
        Some existing \<Rightarrow> if existing \<noteq> i then Inl (NameHasOtherId name existing) else Inr (existing, r)
      | None \<Rightarrow>
          let names = resize_names (rg_names r) (unat i); slot = names ! (unat i - 1)
          in if slot \<noteq> [] \<and> slot \<noteq> name then Inl (IdHasOtherName i slot)
             else Inr (i, \<lparr>rg_ids = om_emplace name i (rg_ids r), rg_names = names[unat i - 1 := name]\<rparr>))"

definition registry_name :: "registry \<Rightarrow> u32 \<Rightarrow> registry_error + string" where
  "registry_name r i =
     (if i = 0 \<or> unat i > length (rg_names r) then Inl (UnknownSymbol i) else Inr (rg_names r ! (unat i - 1)))"

definition restore_slot :: "u32 \<times> string \<Rightarrow> registry \<Rightarrow> registry" where
  "restore_slot entry r =
     (let (i, name) = entry
      in if i = 0 then r
         else \<lparr>rg_ids = (if name \<noteq> [] then om_emplace name i (rg_ids r) else rg_ids r),
               rg_names = (rg_names r)[unat i - 1 := name]\<rparr>)"

definition max_table_id :: "(u32, string) omap \<Rightarrow> u32" where
  "max_table_id names = fold (\<lambda>(i, _) m. max m i) names 0"

definition registry_restore :: "(u32, string) omap \<Rightarrow> registry" where
  "registry_restore names =
     fold restore_slot names \<lparr>rg_ids = [], rg_names = replicate (unat (max_table_id names)) []\<rparr>"

text \<open>The table of names that a snapshot takes: every slot, by identifier.\<close>

definition registry_table :: "registry \<Rightarrow> (u32, string) omap" where
  "registry_table r = fold (\<lambda>n. om_emplace (of_nat (n + 1)) (rg_names r ! n)) [0..<length (rg_names r)] []"

text \<open>The relation registry (\<open>src/core/relation.cpp\<close>) is the same code over \<open>RelationType\<close>.\<close>

definition relation_intern :: "string \<Rightarrow> registry \<Rightarrow> registry_error + relation_type \<times> registry" where
  "relation_intern = registry_intern"

definition relation_intern_at :: "relation_type \<Rightarrow> string \<Rightarrow> registry \<Rightarrow> registry_error + relation_type \<times> registry" where
  "relation_intern_at = registry_intern_at"

definition relation_find :: "registry \<Rightarrow> string \<Rightarrow> relation_type option" where
  "relation_find = registry_find"

definition relation_registry_name :: "registry \<Rightarrow> relation_type \<Rightarrow> registry_error + string" where
  "relation_registry_name = registry_name"

definition relation_restore :: "(u32, string) omap \<Rightarrow> registry" where
  "relation_restore = registry_restore"

lemmas relation_registry_defs [model_defs, simp] =
  relation_intern_def relation_intern_at_def relation_find_def relation_registry_name_def relation_restore_def

section \<open>Names of the enums\<close>

fun existence_to_string :: "existence_state \<Rightarrow> string" where
  "existence_to_string Dormant = ''Dormant''"
| "existence_to_string Collapsed = ''Collapsed''"
| "existence_to_string Tombstoned = ''Tombstoned''"
| "existence_to_string _ = ''Alive''"

definition existence_from_string :: "string \<Rightarrow> existence_state" where
  "existence_from_string s =
     (if s = ''Dormant'' \<or> s = ''dormant'' then Dormant
      else if s = ''Collapsed'' \<or> s = ''collapsed'' then Collapsed
      else if s = ''Tombstoned'' \<or> s = ''tombstoned'' then Tombstoned
      else Alive)"

fun causal_role_to_string :: "causal_role \<Rightarrow> string" where
  "causal_role_to_string Observational = ''Observational''"
| "causal_role_to_string Generative = ''Generative''"
| "causal_role_to_string Inhibitory = ''Inhibitory''"
| "causal_role_to_string Transformative = ''Transformative''"
| "causal_role_to_string Ancestral = ''Ancestral''"
| "causal_role_to_string Symbolic = ''Symbolic''"
| "causal_role_to_string _ = ''Structural''"

text \<open>\<open>std::tolower\<close> in the C locale.\<close>

definition to_lower_char :: "char \<Rightarrow> char" where
  "to_lower_char c = (if CHR ''A'' \<le> c \<and> c \<le> CHR ''Z'' then char_of (of_char c + (32 :: nat)) else c)"

definition normalized :: "string \<Rightarrow> string" where
  "normalized s = map to_lower_char s"

definition causal_role_from_string :: "string \<Rightarrow> causal_role" where
  "causal_role_from_string s =
     (let role = normalized s
      in if role = ''observational'' then Observational
         else if role = ''generative'' then Generative
         else if role = ''inhibitory'' then Inhibitory
         else if role = ''transformative'' then Transformative
         else if role = ''ancestral'' then Ancestral
         else if role = ''symbolic'' then Symbolic
         else Structural)"

lemma enum_strings_roundtrip:
  "r \<in> {Structural, Observational, Generative, Inhibitory, Transformative, Ancestral, Symbolic} \<Longrightarrow>
     causal_role_from_string (causal_role_to_string r) = r"
  "e \<in> {Alive, Dormant, Collapsed, Tombstoned} \<Longrightarrow> existence_from_string (existence_to_string e) = e"
proof -
  have "list_all (\<lambda>r. causal_role_from_string (causal_role_to_string r) = r)
      [Structural, Observational, Generative, Inhibitory, Transformative, Ancestral, Symbolic]" by code_simp
  then show "r \<in> {Structural, Observational, Generative, Inhibitory, Transformative, Ancestral, Symbolic} \<Longrightarrow>
     causal_role_from_string (causal_role_to_string r) = r" by (auto simp: list_all_iff)
  have "list_all (\<lambda>e. existence_from_string (existence_to_string e) = e) [Alive, Dormant, Collapsed, Tombstoned]"
    by code_simp
  then show "e \<in> {Alive, Dormant, Collapsed, Tombstoned} \<Longrightarrow> existence_from_string (existence_to_string e) = e"
    by (auto simp: list_all_iff)
qed

section \<open>The invariant\<close>

definition slot_name :: "registry \<Rightarrow> u32 \<Rightarrow> string" where
  "slot_name r i = (if 0 < unat i \<and> unat i \<le> length (rg_names r) then rg_names r ! (unat i - 1) else [])"

definition registry_inv :: "registry \<Rightarrow> bool" where
  "registry_inv r = (om_inv (rg_ids r) \<and> length (rg_names r) < 2 ^ 32
     \<and> (\<forall>name i. registry_find r name = Some i \<longleftrightarrow> name \<noteq> [] \<and> slot_name r i = name))"

lemma registry_inv_empty: "registry_inv registry_empty"
  by (auto simp: registry_inv_def registry_empty_def registry_find_def slot_name_def)

lemma u32_bound: "unat (i :: u32) < 2 ^ 32"
  using unsigned_less [of i, where ?'a = nat] by simp

lemma unat_pos_iff: "0 < unat (i :: u32) \<longleftrightarrow> i \<noteq> 0"
  by (simp add: unat_gt_0)

lemma unat_of_nat_u32: "n < 2 ^ 32 \<Longrightarrow> unat (of_nat n :: u32) = n"
  by (simp add: unat_of_nat)

lemma registry_find_Some:
  "registry_inv r \<Longrightarrow> registry_find r name = Some i \<longleftrightarrow> name \<noteq> [] \<and> slot_name r i = name"
  by (simp add: registry_inv_def)

lemma registry_find_None:
  "registry_inv r \<Longrightarrow> registry_find r name = None \<longleftrightarrow> name = [] \<or> (\<forall>i. slot_name r i \<noteq> name)"
  using registry_find_Some [of r name] by (cases "registry_find r name") auto

text \<open>Distinct identifiers in use have distinct names.\<close>

lemma registry_names_distinct:
  "registry_inv r \<Longrightarrow> slot_name r i = slot_name r j \<Longrightarrow> slot_name r i \<noteq> [] \<Longrightarrow> i = j"
  by (metis registry_find_Some option.inject)

lemma length_resize [simp]: "length (resize_names names n) = max (length names) n"
  by (simp add: resize_names_def max_def)

lemma nth_resize: "k < max (length names) n \<Longrightarrow> resize_names names n ! k = (if k < length names then names ! k else [])"
  by (auto simp: resize_names_def nth_append)

text \<open>Interning a new name at a free slot: what every later lookup returns.\<close>

lemma slot_name_update:
  assumes "i \<noteq> 0" and "rg_names r' = (resize_names (rg_names r) (unat i))[unat i - 1 := name]"
  shows "slot_name r' j = (if j = i then name else slot_name r j)"
proof -
  have i: "0 < unat i" using assms(1) by (simp add: unat_pos_iff)
  have "unat j \<noteq> unat i" if "j \<noteq> i" using that by (simp add: word_unat_eq_iff)
  then show ?thesis using i assms(2)
    by (auto simp: slot_name_def nth_list_update nth_resize)
qed

lemma registry_inv_bind:
  assumes inv: "registry_inv r" and new: "registry_find r name = None" and "name \<noteq> []" and "i \<noteq> 0"
    and free: "slot_name r i = []"
    and r': "r' = r\<lparr>rg_ids := om_emplace name i (rg_ids r),
                  rg_names := (resize_names (rg_names r) (unat i))[unat i - 1 := name]\<rparr>"
  shows "registry_inv r'" and "slot_name r' j = (if j = i then name else slot_name r j)"
    and "registry_find r' n = (if n = name then Some i else registry_find r n)"
proof -
  show slots: "slot_name r' j = (if j = i then name else slot_name r j)" for j
    by (rule slot_name_update) (use assms in auto)
  show find: "registry_find r' n = (if n = name then Some i else registry_find r n)" for n
    using new by (simp add: r' registry_find_def om_find_emplace)
  have "length (rg_names r') < 2 ^ 32" using inv u32_bound [of i] by (simp add: r' registry_inv_def)
  moreover have "om_inv (rg_ids r')" using inv by (simp add: r' registry_inv_def om_inv_emplace)
  moreover have "registry_find r' n = Some j \<longleftrightarrow> n \<noteq> [] \<and> slot_name r' j = n" for n j
    using registry_find_Some [OF inv, of n] registry_find_None [OF inv, of name] new free \<open>name \<noteq> []\<close>
    by (auto simp: find slots)
  ultimately show "registry_inv r'" by (simp add: registry_inv_def)
qed

lemma slot_free_intern_at:
  assumes "i \<noteq> 0"
  shows "resize_names (rg_names r) (unat i) ! (unat i - 1) = slot_name r i"
proof -
  have "0 < unat i" using assms by (simp add: unat_pos_iff)
  then show ?thesis by (auto simp: nth_resize slot_name_def)
qed

lemma registry_intern_append:
  assumes "length (rg_names r) + 1 < 2 ^ 32"
  shows "rg_names r @ [name] = (resize_names (rg_names r) (unat (of_nat (length (rg_names r) + 1) :: u32)))
           [unat (of_nat (length (rg_names r) + 1) :: u32) - 1 := name]"
  using assms by (simp add: unat_of_nat_u32 [of "length (rg_names r) + 1", simplified] resize_names_def list_update_append)

section \<open>The operations keep the invariant\<close>

lemma registry_intern_at_props:
  assumes inv: "registry_inv r" and room: "length (rg_names r) + 1 < 2 ^ 32"
    and res: "registry_intern_at i name r = Inr (k, r')"
  shows "registry_inv r'" and "k \<noteq> 0" and "i \<noteq> 0 \<Longrightarrow> k = i"
    and "name \<noteq> []" and "slot_name r k = [] \<or> slot_name r k = name"
    and "slot_name r' j = (if j = k then name else slot_name r j)"
    and "registry_find r' n = (if n = name then Some k else registry_find r n)"
    and "length (rg_names r') \<le> max (length (rg_names r) + 1) (unat i)"
proof -
  from res have ne: "name \<noteq> []" by (auto simp: registry_intern_at_def split: if_splits)
  have "registry_inv r' \<and> k \<noteq> 0 \<and> (i \<noteq> 0 \<longrightarrow> k = i) \<and> (slot_name r k = [] \<or> slot_name r k = name)
    \<and> (\<forall>j. slot_name r' j = (if j = k then name else slot_name r j))
    \<and> (\<forall>n. registry_find r' n = (if n = name then Some k else registry_find r n))
    \<and> length (rg_names r') \<le> max (length (rg_names r) + 1) (unat i)"
  proof (cases "registry_find r name")
    case (Some e)
    have "slot_name r e = name" using Some inv registry_find_Some by blast
    then have "e \<noteq> 0" using ne by (auto simp: slot_name_def)
    moreover have "k = e" "r' = r"
      using res ne Some by (auto simp: registry_intern_at_def registry_intern_def registry_find_def split: if_splits)
    moreover have "i \<noteq> 0 \<longrightarrow> e = i"
      using res ne Some by (auto simp: registry_intern_at_def split: if_splits)
    ultimately show ?thesis using inv Some \<open>slot_name r e = name\<close> by auto
  next
    case None
    define names where "names = (resize_names (rg_names r) (unat k))[unat k - 1 := name]"
    have *: "k \<noteq> 0 \<and> (i \<noteq> 0 \<longrightarrow> k = i) \<and> slot_name r k = []
        \<and> r' = r\<lparr>rg_ids := om_emplace name k (rg_ids r), rg_names := names\<rparr>"
    proof (cases "i = 0")
      case True
      with res ne None have k: "k = of_nat (length (rg_names r) + 1)"
        and r': "r' = \<lparr>rg_ids = om_emplace name k (rg_ids r), rg_names = rg_names r @ [name]\<rparr>"
        by (auto simp: registry_intern_at_def registry_intern_def registry_find_def Let_def)
      have "unat k = length (rg_names r) + 1" unfolding k by (rule unat_of_nat_u32 [OF room])
      moreover from this have "k \<noteq> 0" by auto
      moreover have "names = rg_names r @ [name]"
        unfolding names_def k by (rule registry_intern_append [OF room, symmetric])
      ultimately show ?thesis using True r' by (auto simp: slot_name_def)
    next
      case False
      with res ne None show ?thesis
        using registry_find_None [OF inv, of name] slot_free_intern_at [OF False, of r]
        by (auto simp: registry_intern_at_def names_def Let_def split: if_splits)
    qed
    note bind = registry_inv_bind [OF inv None ne, of k r', folded names_def]
    have "length (rg_names r') \<le> max (length (rg_names r) + 1) (unat i)"
    proof (cases "i = 0")
      case True
      with res ne None show ?thesis
        by (auto simp: registry_intern_at_def registry_intern_def registry_find_def Let_def)
    next
      case False
      with * show ?thesis by (auto simp: names_def)
    qed
    with * bind show ?thesis by auto
  qed
  then show "registry_inv r'" "k \<noteq> 0" "i \<noteq> 0 \<Longrightarrow> k = i" "slot_name r k = [] \<or> slot_name r k = name"
    "slot_name r' j = (if j = k then name else slot_name r j)"
    "registry_find r' n = (if n = name then Some k else registry_find r n)"
    "length (rg_names r') \<le> max (length (rg_names r) + 1) (unat i)" by auto
  show "name \<noteq> []" by (rule ne)
qed

lemma registry_intern_as_at: "registry_intern name r = registry_intern_at 0 name r"
  by (simp add: registry_intern_at_def registry_intern_def)

text \<open>Interning an existing name again changes nothing, with identifier 0 or its own.\<close>

lemma registry_intern_known:
  "registry_inv r \<Longrightarrow> registry_find r name = Some k \<Longrightarrow> i = 0 \<or> i = k \<Longrightarrow> registry_intern_at i name r = Inr (k, r)"
  using registry_find_Some [of r name k]
  by (auto simp: registry_intern_at_def registry_intern_def registry_find_def)

lemma registry_name_slot:
  "registry_name r i = (if i = 0 \<or> unat i > length (rg_names r) then Inl (UnknownSymbol i) else Inr (slot_name r i))"
  by (auto simp: registry_name_def slot_name_def unat_pos_iff [symmetric])

section \<open>The table of a registry and the registry of a table\<close>

lemma of_nat_Suc_mono_u32: "m < n \<Longrightarrow> Suc n < 2 ^ 32 \<Longrightarrow> (of_nat (Suc m) :: u32) < of_nat (Suc n)"
  using unat_of_nat_u32 [of "Suc m"] unat_of_nat_u32 [of "Suc n"] by (simp add: word_less_nat_alt del: of_nat_Suc)

lemma registry_table_alt:
  assumes "length (rg_names r) < 2 ^ 32"
  shows "registry_table r = map (\<lambda>n. (of_nat (n + 1), rg_names r ! n)) [0..<length (rg_names r)]"
    and "om_inv (registry_table r)"
proof -
  let ?m = "map (\<lambda>n. (of_nat (n + 1) :: u32, rg_names r ! n)) [0..<length (rg_names r)]"
  have "sorted_wrt (\<lambda>a b. (of_nat (a + 1) :: u32) < of_nat (b + 1)) [0..<length (rg_names r)]"
    using assms by (intro sorted_wrt_mono_rel [OF _ sorted_wrt_upt]) (auto intro!: of_nat_Suc_mono_u32 simp del: of_nat_add of_nat_Suc)
  then have inv: "om_inv ?m" by (simp add: om_inv_def comp_def sorted_wrt_map)
  have "registry_table r = fold (\<lambda>(k, v). om_emplace k v) ?m []"
    by (simp add: registry_table_def fold_map comp_def)
  with inv show "registry_table r = ?m" by simp
  with inv show "om_inv (registry_table r)" by simp
qed

lemma find_registry_table:
  assumes "length (rg_names r) < 2 ^ 32"
  shows "om_find (registry_table r) i =
    (if i \<noteq> 0 \<and> unat i \<le> length (rg_names r) then Some (slot_name r i) else None)"
proof (cases "i \<noteq> 0 \<and> unat i \<le> length (rg_names r)")
  case True
  then have pos: "0 < unat i" by (simp add: unat_pos_iff)
  with True have "(i, slot_name r i) = (of_nat (unat i - 1 + 1), rg_names r ! (unat i - 1))"
    by (simp add: slot_name_def)
  moreover have "unat i - 1 \<in> set [0..<length (rg_names r)]" using True pos by auto
  ultimately have "(i, slot_name r i) \<in> set (registry_table r)"
    unfolding registry_table_alt(1) [OF assms] by (metis (mono_tags, lifting) image_eqI list.set_map)
  with True show ?thesis using om_inv_find [OF registry_table_alt(2) [OF assms]] by simp
next
  case False
  have "i \<notin> fst ` set (registry_table r)"
  proof
    assume "i \<in> fst ` set (registry_table r)"
    then obtain n where n: "n < length (rg_names r)" "i = of_nat (n + 1)"
      unfolding registry_table_alt(1) [OF assms] by auto
    then have "unat i = n + 1" using assms unat_of_nat_u32 [of "n + 1"] by simp
    with n False show False by (auto simp: unat_pos_iff [symmetric])
  qed
  with False show ?thesis by (metis om_find_None_iff)
qed

lemma name_or_empty_table:
  "length (rg_names r) < 2 ^ 32 \<Longrightarrow> name_or_empty (registry_table r) i = slot_name r i"
  by (auto simp: name_or_empty_def find_registry_table slot_name_def unat_pos_iff)

text \<open>A table gives every identifier its name when no two identifiers share one.\<close>

definition table_ok :: "(u32, string) omap \<Rightarrow> bool" where
  "table_ok names = (om_inv names
     \<and> (\<forall>i \<in> fst ` set names. \<forall>j \<in> fst ` set names. i \<noteq> 0 \<longrightarrow> j \<noteq> 0 \<longrightarrow>
          name_or_empty names i \<noteq> [] \<longrightarrow> name_or_empty names i = name_or_empty names j \<longrightarrow> i = j))"

lemma name_or_empty_key: "name_or_empty names i \<noteq> [] \<Longrightarrow> i \<in> fst ` set names"
  using om_find_None_iff [of names i] by (cases "om_find names i") (auto simp: name_or_empty_def)

lemma table_okD:
  assumes "table_ok names" and "i \<noteq> 0" and "j \<noteq> 0"
    and "name_or_empty names i = n" and "name_or_empty names j = n" and "n \<noteq> []"
  shows "i = j"
proof -
  have "i \<in> fst ` set names" "j \<in> fst ` set names" using assms(4-6) by (auto intro!: name_or_empty_key)
  from assms(1) [unfolded table_ok_def, THEN conjunct2, THEN bspec, OF this(1), THEN bspec, OF this(2)] assms(2-6)
  show ?thesis by simp
qed

lemma max_table_id_ge: "(i, n) \<in> set names \<Longrightarrow> unat i \<le> unat (max_table_id names)"
proof -
  have mono: "m \<le> fold (\<lambda>(i, _) m. max m i) names m" for m :: u32 and names :: "(u32, string) omap"
  proof (induction names arbitrary: m)
    case (Cons a names)
    have "m \<le> max m (fst a)" by simp
    also have "\<dots> \<le> fold (\<lambda>(i, _) m. max m i) names (max m (fst a))" by (rule Cons.IH)
    finally show ?case by (simp add: case_prod_unfold)
  qed simp
  have "(i, n) \<in> set names \<Longrightarrow> i \<le> fold (\<lambda>(i, _) m. max m i) names m" for m
  proof (induction names arbitrary: m)
    case (Cons a names)
    show ?case
    proof (cases "a = (i, n)")
      case True
      have "i \<le> max m i" by simp
      also have "\<dots> \<le> fold (\<lambda>(i, _) m. max m i) names (max m i)" by (rule mono)
      finally show ?thesis using True by simp
    next
      case False
      with Cons show ?thesis by (cases a) auto
    qed
  qed simp
  then show "(i, n) \<in> set names \<Longrightarrow> unat i \<le> unat (max_table_id names)"
    by (simp add: max_table_id_def word_le_nat_alt)
qed

lemma om_find_snoc: "om_find (m @ [(k, v)]) j = (case om_find m j of Some w \<Rightarrow> Some w | None \<Rightarrow> if k = j then Some v else None)"
  by (induction m) auto

lemma restore_slots:
  assumes "om_inv names" and "\<And>k. k \<in> fst ` set names \<Longrightarrow> unat k \<le> M"
    and r: "r = fold restore_slot names \<lparr>rg_ids = [], rg_names = replicate M []\<rparr>"
  shows "length (rg_names r) = M \<and> om_inv (rg_ids r)
    \<and> (\<forall>j. slot_name r j = (if j = 0 then [] else name_or_empty names j))
    \<and> (table_ok names \<longrightarrow> (\<forall>n j. registry_find r n = Some j \<longleftrightarrow> n \<noteq> [] \<and> slot_name r j = n))"
  using assms
proof (induction names arbitrary: r rule: rev_induct)
  case Nil
  then show ?case by (auto simp: slot_name_def name_or_empty_def registry_find_def)
next
  case (snoc a names)
  obtain i n where a: "a = (i, n)" by force
  define q where "q = fold restore_slot names \<lparr>rg_ids = [], rg_names = replicate M []\<rparr>"
  have inv: "om_inv names" and less: "\<forall>k \<in> fst ` set names. k < i"
    using snoc.prems(1) by (auto simp: om_inv_def sorted_wrt_append a)
  have IH: "length (rg_names q) = M \<and> om_inv (rg_ids q)
    \<and> (\<forall>j. slot_name q j = (if j = 0 then [] else name_or_empty names j))
    \<and> (table_ok names \<longrightarrow> (\<forall>n j. registry_find q n = Some j \<longleftrightarrow> n \<noteq> [] \<and> slot_name q j = n))"
    using snoc.IH [OF inv _ q_def] snoc.prems(2) by auto
  have r: "r = restore_slot (i, n) q" using snoc.prems(3) by (simp add: q_def a)
  have i_new: "om_find names i = None" using less by (auto simp: om_find_None_iff)
  have app: "name_or_empty (names @ [a]) j = (if j = i then n else name_or_empty names j)" for j
    using i_new by (auto simp: name_or_empty_def om_find_snoc a split: option.splits)
  show ?case
  proof (cases "i = 0")
    case True
    have "names = []" using less True by (cases names) auto
    then show ?thesis using True r IH
      by (auto simp: restore_slot_def a name_or_empty_def q_def registry_find_def table_ok_def)
  next
    case False
    have iM: "unat i \<le> M" using snoc.prems(2) [of i] by (auto simp: a)
    have slots: "slot_name r j = (if j = i then n else slot_name q j)" for j
    proof -
      have "resize_names (rg_names q) (unat i) = rg_names q" using IH iM by (simp add: resize_names_def)
      then show ?thesis
        using slot_name_update [OF False, of r q n j] r False by (simp add: restore_slot_def)
    qed
    have basic: "length (rg_names r) = M \<and> om_inv (rg_ids r)
        \<and> (\<forall>j. slot_name r j = (if j = 0 then [] else name_or_empty (names @ [a]) j))"
      using IH False by (auto simp: slots app) (auto simp: r restore_slot_def om_inv_emplace)
    have "registry_find r m = Some j \<longleftrightarrow> m \<noteq> [] \<and> slot_name r j = m" if ok: "table_ok (names @ [a])" for m j
    proof -
      have old: "name_or_empty names k = name_or_empty (names @ [a]) k" if "k \<in> fst ` set names" for k
        using that less app by auto
      have ok': "table_ok names"
        unfolding table_ok_def
      proof (intro conjI ballI impI)
        fix k l
        assume kl: "k \<in> fst ` set names" "l \<in> fst ` set names" "k \<noteq> 0" "l \<noteq> 0"
          "name_or_empty names k \<noteq> []" "name_or_empty names k = name_or_empty names l"
        then show "k = l"
          using old [OF kl(1)] old [OF kl(2)] by (intro table_okD [OF ok, of k l "name_or_empty names k"]) auto
      qed (rule inv)
      have fresh: "registry_find q n = None" if "n \<noteq> []"
      proof (rule ccontr)
        assume "registry_find q n \<noteq> None"
        then obtain k where "registry_find q n = Some k" by auto
        with IH ok' have k: "slot_name q k = n" by auto
        with IH that have "k \<noteq> 0" "name_or_empty names k = n" by (auto split: if_splits)
        moreover from this that have "k \<in> fst ` set names" by (auto intro!: name_or_empty_key)
        ultimately have "k = i"
          using less False that app [of k] app [of i] by (intro table_okD [OF ok, of k i n]) (auto simp: a)
        with \<open>k \<in> fst ` set names\<close> less show False by auto
      qed
      have other: "slot_name q j \<noteq> n" if "n \<noteq> []"
      proof
        assume "slot_name q j = n"
        moreover have "registry_find q n = Some j \<longleftrightarrow> n \<noteq> [] \<and> slot_name q j = n" using IH ok' by blast
        ultimately show False using fresh [OF that] that by simp
      qed
      have "registry_find r m = (if n \<noteq> [] \<and> m = n then Some i else registry_find q m)"
        using fresh False by (auto simp: r restore_slot_def registry_find_def om_find_emplace)
      moreover have "slot_name q i = []" using IH i_new False by (simp add: name_or_empty_def)
      ultimately show ?thesis using IH ok' other slots [of j] by auto
    qed
    with basic show ?thesis by blast
  qed
qed

lemma registry_restore_props:
  assumes "om_inv names"
  shows "length (rg_names (registry_restore names)) = unat (max_table_id names)"
    and "slot_name (registry_restore names) j = (if j = 0 then [] else name_or_empty names j)"
    and "table_ok names \<Longrightarrow> registry_inv (registry_restore names)"
proof -
  have "\<And>k. k \<in> fst ` set names \<Longrightarrow> unat k \<le> unat (max_table_id names)"
    using max_table_id_ge by force
  note R = restore_slots [OF assms this refl, folded registry_restore_def]
  then show "length (rg_names (registry_restore names)) = unat (max_table_id names)"
    and "slot_name (registry_restore names) j = (if j = 0 then [] else name_or_empty names j)" by auto
  from R u32_bound [of "max_table_id names"]
  show "table_ok names \<Longrightarrow> registry_inv (registry_restore names)" by (simp add: registry_inv_def)
qed

lemma registry_eqI:
  assumes "length (rg_names r) = length (rg_names q)" and "length (rg_names r) < 2 ^ 32"
    and "\<And>j. slot_name r j = slot_name q j"
    and "om_inv (rg_ids r)" and "om_inv (rg_ids q)" and "\<And>n. registry_find r n = registry_find q n"
  shows "r = (q :: registry)"
proof (rule registry.equality)
  show "rg_ids r = rg_ids q" using assms(4-6) by (auto intro: om_ext simp: registry_find_def)
  show "rg_names r = rg_names q"
  proof (rule nth_equalityI)
    fix k
    assume k: "k < length (rg_names r)"
    then have u: "unat (of_nat (Suc k) :: u32) = Suc k" using assms(2) by (intro unat_of_nat_u32) simp
    show "rg_names r ! k = rg_names q ! k"
      using assms(3) [of "of_nat (Suc k)"] k assms(1) u by (simp add: slot_name_def del: of_nat_Suc)
  qed (rule assms(1))
qed simp

lemma max_table_id_cases: "max_table_id names = 0 \<or> max_table_id names \<in> fst ` set names"
proof -
  have "fold (\<lambda>(i, _) m. max m i) names m = m \<or> fold (\<lambda>(i, _) m. max m i) names m \<in> fst ` set names" for m :: u32
  proof (induction names arbitrary: m)
    case (Cons a names)
    then show ?case using Cons [of "max m (fst a)"] by (auto simp: case_prod_unfold max_def)
  qed simp
  then show ?thesis by (simp add: max_table_id_def)
qed

lemma registry_inv_eq_find:
  assumes "registry_inv r" and "registry_inv q" and "\<And>j. slot_name r j = slot_name q j"
  shows "registry_find r n = registry_find q n"
proof (cases "registry_find r n")
  case None
  with assms show ?thesis using registry_find_None [of r n] registry_find_None [of q n] by simp
next
  case (Some i)
  with assms show ?thesis using registry_find_Some [of r n i] registry_find_Some [of q n i] by simp
qed

lemma table_ok_registry:
  assumes "registry_inv r"
  shows "table_ok (registry_table r)"
proof -
  have len: "length (rg_names r) < 2 ^ 32" using assms by (simp add: registry_inv_def)
  show ?thesis
    unfolding table_ok_def name_or_empty_table [OF len]
    using registry_table_alt(2) [OF len] registry_names_distinct [OF assms] by blast
qed

lemma registry_restore_table:
  assumes inv: "registry_inv r"
  shows "registry_restore (registry_table r) = r"
proof -
  let ?q = "registry_restore (registry_table r)"
  have len: "length (rg_names r) < 2 ^ 32" using inv by (simp add: registry_inv_def)
  note R = registry_restore_props [OF registry_table_alt(2) [OF len]]
  have "unat (max_table_id (registry_table r)) \<le> length (rg_names r)"
    using max_table_id_cases [of "registry_table r"] find_registry_table [OF len]
    by (metis le0 om_find_None_iff option.distinct(1) unat_0)
  moreover have "length (rg_names r) \<le> unat (max_table_id (registry_table r))"
  proof (cases "rg_names r = []")
    case False
    let ?i = "of_nat (length (rg_names r)) :: u32"
    have u: "unat ?i = length (rg_names r)" by (rule unat_of_nat_u32 [OF len])
    with False have "?i \<noteq> 0" by (metis length_0_conv unat_0)
    then have "om_find (registry_table r) ?i = Some (slot_name r ?i)" by (simp add: find_registry_table [OF len] u)
    from max_table_id_ge [OF om_find_SomeD [OF this]] u show ?thesis by simp
  qed simp
  ultimately have lens: "length (rg_names ?q) = length (rg_names r)" using R(1) by simp
  have slots: "slot_name ?q j = slot_name r j" for j
    by (simp add: R(2) name_or_empty_table [OF len]) (simp add: slot_name_def)
  have inv': "registry_inv ?q" by (rule R(3) [OF table_ok_registry [OF inv]])
  show ?thesis
    by (rule registry_eqI)
      (use lens len slots inv inv' registry_inv_eq_find [OF inv' inv slots] in \<open>auto simp: registry_inv_def\<close>)
qed

end
