(* ===== verification/Codec_Delta.thy ===== *)
theory Codec_Delta
  imports Delta_Ops Codec_Values
begin

text \<open>
  The canonical form of a delta (\<open>src/kernel/canonical_codec.cpp\<close>, lines 1030 to 1270): the
  writer of version 3, the reader of versions 2 and 3 and the reader of version 1, which rebuilds a
  delta from its creates, updates, links, unlinks and events with the typed appenders.  An
  operation kind that names no enumerator is read as nothing.
\<close>

section \<open>Operations\<close>

definition encode_operation_body :: "operation_body \<Rightarrow> bytes" where
  "encode_operation_body b = (case b of
       InternType name i \<Rightarrow> writer_string name @ writer_u32 i
     | InternRelation name i \<Rightarrow> writer_string name @ writer_u32 i
     | CreateObject c \<Rightarrow>
         writer_u32 (co_temp c) @ writer_string (co_name c) @ writer_u32 (co_type c)
         @ encode_existence (co_existence c) @ encode_attributes (co_attributes c)
     | SetObjectType r t \<Rightarrow> encode_ref r @ writer_u32 t
     | SetObjectExistence r e \<Rightarrow> encode_ref r @ encode_existence e
     | SetObjectAttribute r a \<Rightarrow> encode_ref r @ encode_attribute a
     | RemoveObjectAttribute r k \<Rightarrow> encode_ref r @ writer_string k
     | CreatePointer c \<Rightarrow>
         encode_ref (cp_from c) @ encode_ref (cp_to c) @ writer_u32 (cp_relation c)
         @ encode_causal_role (cp_role c) @ writer_f64 (cp_weight c) @ writer_string (cp_law_domain c)
         @ encode_attributes (cp_attributes c)
     | ExpirePointer p \<Rightarrow> writer_u64 p
     | SetPointerWeight p w \<Rightarrow> writer_u64 p @ writer_f64 w
     | SetPointerAttribute p a \<Rightarrow> writer_u64 p @ encode_attribute a
     | RemovePointerAttribute p k \<Rightarrow> writer_u64 p @ writer_string k
     | EmitEvent e \<Rightarrow> encode_trace_event e
     | AssertObject r \<Rightarrow> encode_ref r
     | AssertPointer p \<Rightarrow> writer_u64 p
     | AssertFact f \<Rightarrow> writer_hash f)"

definition encode_operation :: "operation \<Rightarrow> bytes" where
  "encode_operation op =
     writer_u64 (op_id op) @ writer_u8 (operation_kind (op_body op)) @ encode_operation_body (op_body op)"

definition encode_delta :: "delta \<Rightarrow> bytes" where
  "encode_delta ops = writer_string ''Delta:v3'' @ wlist encode_operation ops"

definition decode_create_object :: "bool \<Rightarrow> create_object_op decoder" where
  "decode_create_object with_attributes =
     rbind reader_u32 (\<lambda>t. rbind reader_string (\<lambda>n. rbind reader_u32 (\<lambda>ty. rbind decode_existence (\<lambda>e.
     rbind (if with_attributes then decode_attributes else rret []) (\<lambda>as.
     rret \<lparr>co_temp = t, co_name = n, co_type = ty, co_existence = e, co_attributes = as\<rparr>)))))"

definition decode_create_pointer :: "bool \<Rightarrow> create_pointer_op decoder" where
  "decode_create_pointer with_attributes =
     rbind decode_ref (\<lambda>f. rbind decode_ref (\<lambda>t. rbind reader_u32 (\<lambda>r. rbind decode_causal_role (\<lambda>c.
     rbind reader_f64 (\<lambda>w. rbind reader_string (\<lambda>d.
     rbind (if with_attributes then decode_attributes else rret []) (\<lambda>as.
     rret \<lparr>cp_from = f, cp_to = t, cp_relation = r, cp_role = c, cp_weight = w, cp_law_domain = d,
           cp_attributes = as\<rparr>)))))))"

text \<open>The body of a known kind; \<open>None\<close> for the other bytes, for which the code reads nothing.\<close>

definition decode_operation_body :: "u8 \<Rightarrow> operation_body option decoder" where
  "decode_operation_body k =
     (if k = 11 then rbind reader_string (\<lambda>n. rmap (\<lambda>i. Some (InternType n i)) reader_u32)
      else if k = 12 then rbind reader_string (\<lambda>n. rmap (\<lambda>i. Some (InternRelation n i)) reader_u32)
      else if k = 0 then rmap (\<lambda>c. Some (CreateObject c)) (decode_create_object True)
      else if k = 1 then rbind decode_ref (\<lambda>r. rmap (\<lambda>t. Some (SetObjectType r t)) reader_u32)
      else if k = 2 then rbind decode_ref (\<lambda>r. rmap (\<lambda>e. Some (SetObjectExistence r e)) decode_existence)
      else if k = 3 then rbind decode_ref (\<lambda>r. rmap (\<lambda>a. Some (SetObjectAttribute r a)) decode_attribute)
      else if k = 4 then rbind decode_ref (\<lambda>r. rmap (\<lambda>a. Some (RemoveObjectAttribute r a)) reader_string)
      else if k = 5 then rmap (\<lambda>c. Some (CreatePointer c)) (decode_create_pointer True)
      else if k = 6 then rmap (\<lambda>p. Some (ExpirePointer p)) reader_u64
      else if k = 7 then rbind reader_u64 (\<lambda>p. rmap (\<lambda>w. Some (SetPointerWeight p w)) reader_f64)
      else if k = 8 then rbind reader_u64 (\<lambda>p. rmap (\<lambda>a. Some (SetPointerAttribute p a)) decode_attribute)
      else if k = 9 then rbind reader_u64 (\<lambda>p. rmap (\<lambda>a. Some (RemovePointerAttribute p a)) reader_string)
      else if k = 10 then rmap (\<lambda>e. Some (EmitEvent e)) decode_trace_event
      else if k = 13 then rmap (\<lambda>r. Some (AssertObject r)) decode_ref
      else if k = 14 then rmap (\<lambda>p. Some (AssertPointer p)) reader_u64
      else if k = 15 then rmap (\<lambda>f. Some (AssertFact f)) reader_hash
      else rret None)"

definition decode_operation :: "operation option decoder" where
  "decode_operation =
     rbind reader_u64 (\<lambda>i. rbind reader_u8 (\<lambda>k. rbind (decode_operation_body k) (\<lambda>b.
     rret (map_option (\<lambda>body. make_operation body i) b))))"

definition append_decoded :: "operation option list \<Rightarrow> delta" where
  "append_decoded ops = fold (\<lambda>op d. case op of None \<Rightarrow> d | Some op \<Rightarrow> delta_append op d) ops []"

section \<open>Version 1\<close>

definition decode_object_update :: "(object_ref \<times> type_id option \<times> existence_state option) decoder" where
  "decode_object_update =
     rbind decode_ref (\<lambda>r. rbind decode_optional_type (\<lambda>t. rbind decode_optional_existence (\<lambda>e. rret (r, t, e))))"

definition decode_delta_v1 :: "delta decoder" where
  "decode_delta_v1 =
     rbind (rlist (decode_create_object False)) (\<lambda>creates.
     rbind (rlist decode_object_update) (\<lambda>updates.
     rbind (rlist (decode_create_pointer False)) (\<lambda>links.
     rbind (rlist reader_u64) (\<lambda>unlinks.
     rbind (rlist decode_trace_event) (\<lambda>events.
     rret (fold (\<lambda>e. append_body (EmitEvent e)) events
           (fold (\<lambda>p. append_body (ExpirePointer p)) unlinks
           (fold (\<lambda>c. append_body (CreatePointer c)) links
           (fold (\<lambda>(r, t, e). append_update r t e) updates
           (fold (\<lambda>c. append_body (CreateObject c)) creates [])))))))))) "

definition decode_delta :: "delta decoder" where
  "decode_delta = rbind reader_string (\<lambda>tag.
     if tag \<noteq> ''Delta:v1'' \<and> tag \<noteq> ''Delta:v2'' \<and> tag \<noteq> ''Delta:v3'' then rthrow UnexpectedTag
     else if tag = ''Delta:v2'' \<or> tag = ''Delta:v3'' then rmap append_decoded (rlist decode_operation)
     else decode_delta_v1)"

section \<open>Round trip\<close>

definition norm_operation_body :: "operation_body \<Rightarrow> operation_body" where
  "norm_operation_body b = (case b of
       CreateObject c \<Rightarrow> CreateObject (c\<lparr>co_attributes := norm_attributes (co_attributes c)\<rparr>)
     | SetObjectAttribute r a \<Rightarrow> SetObjectAttribute r (norm_attribute a)
     | CreatePointer c \<Rightarrow> CreatePointer (c\<lparr>cp_weight := canonical_f64 (cp_weight c),
                                           cp_attributes := norm_attributes (cp_attributes c)\<rparr>)
     | SetPointerWeight p w \<Rightarrow> SetPointerWeight p (canonical_f64 w)
     | SetPointerAttribute p a \<Rightarrow> SetPointerAttribute p (norm_attribute a)
     | EmitEvent e \<Rightarrow> EmitEvent (norm_trace_event e)
     | _ \<Rightarrow> b)"

definition norm_operation :: "operation \<Rightarrow> operation" where
  "norm_operation op = op\<lparr>op_body := norm_operation_body (op_body op)\<rparr>"

definition operation_body_ok :: "operation_body \<Rightarrow> bool" where
  "operation_body_ok b = (case b of
       InternType name _ \<Rightarrow> size_ok name
     | InternRelation name _ \<Rightarrow> size_ok name
     | CreateObject c \<Rightarrow> size_ok (co_name c) \<and> existence_wf (co_existence c) \<and> attributes_ok (co_attributes c)
     | SetObjectExistence _ e \<Rightarrow> existence_wf e
     | SetObjectAttribute _ a \<Rightarrow> attribute_ok a
     | RemoveObjectAttribute _ k \<Rightarrow> size_ok k
     | CreatePointer c \<Rightarrow> role_wf (cp_role c) \<and> size_ok (cp_law_domain c) \<and> attributes_ok (cp_attributes c)
     | SetPointerAttribute _ a \<Rightarrow> attribute_ok a
     | RemovePointerAttribute _ k \<Rightarrow> size_ok k
     | EmitEvent e \<Rightarrow> trace_event_ok e
     | _ \<Rightarrow> True)"

definition operation_ok :: "operation \<Rightarrow> bool" where
  "operation_ok op = (op_id op \<noteq> 0 \<and> operation_body_ok (op_body op))"

definition delta_ok :: "delta \<Rightarrow> bool" where
  "delta_ok ops = (size_ok ops \<and> list_all operation_ok ops)"

lemma decode_operation_body_encode:
  "operation_body_ok b \<Longrightarrow>
   decode_operation_body (operation_kind b) (encode_operation_body b @ rest) = Inr (Some (norm_operation_body b), rest)"
  by (cases b)
    (simp_all add: decode_operation_body_def encode_operation_body_def norm_operation_body_def
      operation_body_ok_def decode_create_object_def decode_create_pointer_def codec_simps)

lemma decode_operation_encode:
  "operation_ok op \<Longrightarrow> decode_operation (encode_operation op @ rest) = Inr (Some (norm_operation op), rest)"
  by (simp add: decode_operation_def encode_operation_def norm_operation_def operation_ok_def
      make_operation_def codec_simps decode_operation_body_encode)

lemma encode_operation_norm: "encode_operation (norm_operation op) = encode_operation op"
proof -
  have "operation_kind (norm_operation_body b) = operation_kind b" for b
    by (cases b) (simp_all add: norm_operation_body_def)
  moreover have "encode_operation_body (norm_operation_body b) = encode_operation_body b" for b
    by (cases b)
      (simp_all add: norm_operation_body_def encode_operation_body_def encode_attributes_norm
        encode_attribute_norm encode_trace_event_norm)
  ultimately show ?thesis by (simp add: encode_operation_def norm_operation_def)
qed

text \<open>Appending operations that have identifiers only lists them.\<close>

lemma append_decoded_Some:
  "list_all (\<lambda>op. op_id op \<noteq> 0) ops \<Longrightarrow> append_decoded (map Some ops) = ops"
proof -
  have "list_all (\<lambda>op. op_id op \<noteq> 0) ops \<Longrightarrow>
        fold (\<lambda>op d. case op of None \<Rightarrow> d | Some op \<Rightarrow> delta_append op d) (map Some ops) acc = acc @ ops" for acc
    by (induction ops arbitrary: acc) (simp_all add: delta_append_def)
  then show "list_all (\<lambda>op. op_id op \<noteq> 0) ops \<Longrightarrow> append_decoded (map Some ops) = ops"
    by (simp add: append_decoded_def)
qed

lemma decode_delta_encode [codec_simps]:
  assumes "delta_ok ops"
  shows "decode_delta (encode_delta ops @ rest) = Inr (map norm_operation ops, rest)"
proof -
  have "rlist decode_operation (wlist encode_operation ops @ rest)
      = Inr (map (\<lambda>op. Some (norm_operation op)) ops, rest)"
    by (rule rlist_roundtrip)
      (use assms in \<open>auto simp: delta_ok_def list_all_iff intro!: decode_operation_encode\<close>)
  moreover have "append_decoded (map (\<lambda>op. Some (norm_operation op)) ops) = map norm_operation ops"
    using append_decoded_Some [of "map norm_operation ops"] assms
    by (auto simp: delta_ok_def operation_ok_def norm_operation_def list_all_iff comp_def)
  ultimately show ?thesis
    by (simp add: decode_delta_def encode_delta_def codec_simps size_ok_small)
qed

lemma encode_delta_norm [codec_stable]: "encode_delta (map norm_operation ops) = encode_delta ops"
  by (simp add: encode_delta_def wlist_def encode_operation_norm comp_def)

interpretation deltac: stable_codec encode_delta decode_delta "map norm_operation" delta_ok
  by unfold_locales (simp_all add: codec_simps codec_stable)

text \<open>A delta that \<open>append_body\<close> builds has no missing identifier, so its stream reads back.\<close>

lemma append_body_ok: "delta_ok ops \<Longrightarrow> operation_body_ok b \<Longrightarrow> Suc (length ops) < 2 ^ 64 \<Longrightarrow> delta_ok (append_body b ops)"
  by (auto simp: delta_ok_def operation_ok_def size_ok_def)

end
