(* ===== verification/Hashing.thy ===== *)
theory Hashing
  imports Facts Codec_Delta Codec_Snapshot
begin

text \<open>
  Hashes as text and the hashes of the canonical streams (\<open>src/hash/canonical.cpp\<close>,
  \<open>src/hash/hasher.cpp\<close>, \<open>src/kernel/program.cpp\<close>).  The hexadecimal form of a hash reads back
  with or without its prefix and in either case, and orders hashes as their bytes do.
\<close>

section \<open>Hexadecimal\<close>

definition hex_value :: "char \<Rightarrow> int" where
  "hex_value ch =
     (if CHR ''0'' \<le> ch \<and> ch \<le> CHR ''9'' then of_char ch - of_char CHR ''0''
      else if CHR ''a'' \<le> ch \<and> ch \<le> CHR ''f'' then of_char ch - of_char CHR ''a'' + 10
      else if CHR ''A'' \<le> ch \<and> ch \<le> CHR ''F'' then of_char ch - of_char CHR ''A'' + 10
      else - 1)"

definition strip_hex_prefix :: "string \<Rightarrow> string" where
  "strip_hex_prefix text =
     (if 2 \<le> length text \<and> text ! 0 = CHR ''0'' \<and> (text ! 1 = CHR ''x'' \<or> text ! 1 = CHR ''X'')
      then drop 2 text else text)"

definition hex_digits :: string where
  "hex_digits = ''0123456789abcdef''"

definition byte_to_hex :: "u8 \<Rightarrow> string" where
  "byte_to_hex b = [hex_digits ! unat (drop_bit 4 b), hex_digits ! unat (b AND 0x0f)]"

definition to_hex :: "hash256 \<Rightarrow> string" where
  "to_hex h = concat (map byte_to_hex (hash_bytes h))"

text \<open>The loop over the pairs of digits; the first bad pair ends it.\<close>

fun parse_hex_pairs :: "string \<Rightarrow> bytes option" where
  "parse_hex_pairs (a # b # rest) =
     (let high = hex_value a; low = hex_value b
      in if high < 0 \<or> low < 0 then None
         else map_option (\<lambda>bs. word_of_int (high * 16 + low) # bs) (parse_hex_pairs rest))"
| "parse_hex_pairs _ = Some []"

definition parse_hash256 :: "string \<Rightarrow> hash256 option" where
  "parse_hash256 text =
     (let stripped = strip_hex_prefix text
      in if length stripped \<noteq> 64 then None else map_option read_big_endian (parse_hex_pairs stripped))"

definition all_bytes :: "u8 list" where
  "all_bytes = map of_nat [0..<256]"

lemma in_all_bytes: "b \<in> set all_bytes"
proof -
  have "b = of_nat (unat b)" by simp
  moreover have "unat b < 256" using unsigned_less [of b, where ?'a = nat] by simp
  ultimately show ?thesis unfolding all_bytes_def by (metis atLeastLessThan_upt atLeastLessThan_iff image_eqI list.set_map zero_le)
qed

lemma byte_hex_table:
  "list_all (\<lambda>b. parse_hex_pairs (byte_to_hex b) = Some [b]) all_bytes"
  by code_simp

lemma parse_byte_to_hex: "parse_hex_pairs (byte_to_hex b) = Some [b]"
  using byte_hex_table in_all_bytes [of b] by (simp add: list_all_iff)

lemma byte_to_hex_shape: "\<exists>c d. byte_to_hex b = [c, d]"
  by (simp add: byte_to_hex_def)

lemma parse_hex_concat: "parse_hex_pairs (concat (map byte_to_hex bs)) = Some bs"
proof (induction bs)
  case Nil
  show ?case by simp
next
  case (Cons b bs)
  obtain c d where cd: "byte_to_hex b = [c, d]" using byte_to_hex_shape by blast
  with parse_byte_to_hex [of b] Cons show ?case
    by (auto simp: Let_def split: if_splits)
qed

lemma length_to_hex: "length (to_hex h) = 64"
  by (simp add: to_hex_def length_concat comp_def byte_to_hex_def sum_list_triv)

lemma hex_digit_no_prefix: "\<not> (to_hex h ! 1 = CHR ''x'' \<or> to_hex h ! 1 = CHR ''X'')"
proof -
  obtain b bs where b: "hash_bytes h = b # bs" by (cases "hash_bytes h") (use length_hash_bytes [of h] in auto)
  have "list_all (\<lambda>b. byte_to_hex b ! 1 \<noteq> CHR ''x'' \<and> byte_to_hex b ! 1 \<noteq> CHR ''X'') all_bytes"
    by code_simp
  with in_all_bytes [of b] have "byte_to_hex b ! 1 \<noteq> CHR ''x'' \<and> byte_to_hex b ! 1 \<noteq> CHR ''X''"
    by (simp add: list_all_iff)
  moreover have "to_hex h ! 1 = byte_to_hex b ! 1"
    by (simp add: to_hex_def b byte_to_hex_def)
  ultimately show ?thesis by simp
qed

lemma parse_to_hex [simp]: "parse_hash256 (to_hex h) = Some h"
proof -
  have "strip_hex_prefix (to_hex h) = to_hex h"
    using hex_digit_no_prefix [of h] by (auto simp: strip_hex_prefix_def)
  then show ?thesis
    by (simp add: parse_hash256_def length_to_hex Let_def) (simp add: to_hex_def parse_hex_concat)
qed

lemma parse_prefixed_hex: "parse_hash256 (''0x'' @ to_hex h) = Some h"
proof -
  have "strip_hex_prefix (''0x'' @ to_hex h) = to_hex h" by (simp add: strip_hex_prefix_def)
  then show ?thesis
    by (simp add: parse_hash256_def length_to_hex Let_def) (simp add: to_hex_def parse_hex_concat)
qed

lemma to_hex_inj [simp]: "to_hex g = to_hex h \<longleftrightarrow> g = h"
  by (metis option.inject parse_to_hex)

text \<open>Only 64 hexadecimal digits, after an optional prefix, are accepted.\<close>

lemma parse_hash256_length: "parse_hash256 text = Some h \<Longrightarrow> length text = 64 \<or> length text = 66"
  by (auto simp: parse_hash256_def strip_hex_prefix_def Let_def split: if_splits)

section \<open>Hashes of the canonical streams\<close>

definition hash_delta :: "digest \<Rightarrow> delta \<Rightarrow> hash256" where
  "hash_delta H d = H (encode_delta d)"

definition hash_trace_event :: "digest \<Rightarrow> trace_event \<Rightarrow> hash256" where
  "hash_trace_event H e = H (encode_trace_event e)"

definition hash_trace_events :: "digest \<Rightarrow> trace_event list \<Rightarrow> hash256" where
  "hash_trace_events H es = H (encode_trace_events es)"

definition hash_law_statuses :: "digest \<Rightarrow> law_status list \<Rightarrow> hash256" where
  "hash_law_statuses H ss = H (encode_law_statuses ss)"

definition hash_law_violations :: "digest \<Rightarrow> law_violation list \<Rightarrow> hash256" where
  "hash_law_violations H vs = H (encode_law_violations vs)"

definition hash_morphism_path :: "digest \<Rightarrow> string list \<Rightarrow> hash256" where
  "hash_morphism_path H p = H (encode_morphism_path p)"

section \<open>Program hashes\<close>

definition instruction_hash :: "digest \<Rightarrow> instruction \<Rightarrow> hash256" where
  "instruction_hash H i = H (encode_instruction i)"

definition symbol_table_hash :: "digest \<Rightarrow> program_symbol_table \<Rightarrow> hash256" where
  "symbol_table_hash H s = H (encode_symbol_table s)"

definition instruction_root :: "digest \<Rightarrow> kernel_program \<Rightarrow> hash256" where
  "instruction_root H p =
     H (writer_string ''InstructionRoot:v1'' @ writer_u64 (of_nat (length (pr_instructions p)))
        @ concat (map (\<lambda>i. writer_hash (instruction_hash H i)) (pr_instructions p)))"

definition program_hash :: "digest \<Rightarrow> kernel_program \<Rightarrow> hash256" where
  "program_hash H p = H (encode_program p)"

end
