(* ===== verification/World.thy ===== *)
theory World
  imports World_Index Registry Hashing
begin

text \<open>
  The mutable world (\<open>src/core/world.cpp\<close>, \<open>src/core/object.cpp\<close>): registries, the object arena,
  the table of names, the pointers and the index; taking a snapshot, restoring a world from one and
  applying a delta operation by operation with the events it emits.  A thrown exception is the
  \<open>Inl\<close> of a step; the half-applied world it leaves behind is not part of the result (the engine
  previews a delta on a copy before it applies it).
\<close>

section \<open>The object arena\<close>

record world_object =
  ob_id :: object_id
  ob_name :: string
  ob_type :: type_id
  ob_existence :: existence_state
  ob_attributes :: "(string, attr_value) omap"

datatype arena_error = EmptyObjectName | InvalidObjectType | UnknownArenaObject object_id

definition arena_create :: "string \<Rightarrow> type_id \<Rightarrow> existence_state \<Rightarrow> world_object list \<Rightarrow>
    arena_error + object_id \<times> world_object list" where
  "arena_create name type existence objects =
     (if name = [] then Inl EmptyObjectName
      else if type = 0 then Inl InvalidObjectType
      else let i = ObjectId (of_nat (length objects)) 1
           in Inr (i, objects @ [\<lparr>ob_id = i, ob_name = name, ob_type = type, ob_existence = existence,
                                 ob_attributes = []\<rparr>]))"

definition arena_contains :: "world_object list \<Rightarrow> object_id \<Rightarrow> bool" where
  "arena_contains objects i =
     (valid_token i \<and> unat (oid_index i) < length objects \<and> ob_id (objects ! unat (oid_index i)) = i)"

definition arena_get :: "world_object list \<Rightarrow> object_id \<Rightarrow> arena_error + world_object" where
  "arena_get objects i =
     (if \<not> arena_contains objects i then Inl (UnknownArenaObject i) else Inr (objects ! unat (oid_index i)))"

definition arena_update :: "object_id \<Rightarrow> (world_object \<Rightarrow> world_object) \<Rightarrow> world_object list \<Rightarrow>
    arena_error + world_object list" where
  "arena_update i f objects =
     (if \<not> arena_contains objects i then Inl (UnknownArenaObject i)
      else Inr (objects[unat (oid_index i) := f (objects ! unat (oid_index i))]))"

definition arena_set_existence :: "object_id \<Rightarrow> existence_state \<Rightarrow> world_object list \<Rightarrow> arena_error + world_object list" where
  "arena_set_existence i e = arena_update i (\<lambda>ob. ob\<lparr>ob_existence := e\<rparr>)"

definition arena_set_type :: "object_id \<Rightarrow> type_id \<Rightarrow> world_object list \<Rightarrow> arena_error + world_object list" where
  "arena_set_type i t objects =
     (if t = 0 then Inl InvalidObjectType else arena_update i (\<lambda>ob. ob\<lparr>ob_type := t\<rparr>) objects)"

section \<open>The world\<close>

record pointer_edge =
  pe_id :: pointer_id
  pe_from :: object_id
  pe_to :: object_id
  pe_relation :: relation_type
  pe_role :: causal_role
  pe_weight :: f64
  pe_born :: epoch
  pe_expires :: "epoch option"
  pe_law_domain :: string
  pe_attributes :: "(string, attr_value) omap"

record world =
  w_id :: world_id
  w_name :: string
  w_epoch :: epoch
  w_types :: registry
  w_relations :: registry
  w_objects :: "world_object list"
  w_object_names :: "(string, object_id) omap"
  w_pointers :: "pointer_edge list"
  w_index :: world_index
  w_trace :: "trace_event list"
  w_next_pointer_id :: u64

definition new_world :: "string \<Rightarrow> world_id \<Rightarrow> world" where
  "new_world name i =
     \<lparr>w_id = i, w_name = (if name = [] then ''world'' else name), w_epoch = 0, w_types = registry_empty,
      w_relations = registry_empty, w_objects = [], w_object_names = [], w_pointers = [],
      w_index = index_empty, w_trace = [], w_next_pointer_id = 1\<rparr>"

definition edge_active_at :: "pointer_edge \<Rightarrow> epoch \<Rightarrow> bool" where
  "edge_active_at p e = (pe_born p \<le> e \<and> (case pe_expires p of None \<Rightarrow> True | Some x \<Rightarrow> e < x))"

definition object_view :: "world_object \<Rightarrow> object_snapshot" where
  "object_view ob = \<lparr>os_id = ob_id ob, os_name = ob_name ob, os_type = ob_type ob,
     os_existence = ob_existence ob, os_attributes = sort_attributes (ob_attributes ob),
     os_incoming = 0, os_outgoing = 0\<rparr>"

definition pointer_view :: "pointer_edge \<Rightarrow> pointer_snapshot" where
  "pointer_view p = \<lparr>ps_id = pe_id p, ps_from = pe_from p, ps_to = pe_to p, ps_relation = pe_relation p,
     ps_role = pe_role p, ps_weight = pe_weight p, ps_born = pe_born p, ps_expires = pe_expires p,
     ps_law_domain = pe_law_domain p, ps_attributes = sort_attributes (pe_attributes p)\<rparr>"

text \<open>The snapshot before counts and facts are filled in.\<close>

definition world_view :: "world \<Rightarrow> world_snapshot" where
  "world_view w = \<lparr>sn_world = w_id w, sn_world_name = w_name w, sn_epoch = w_epoch w,
     sn_objects = map object_view (w_objects w), sn_pointers = map pointer_view (w_pointers w),
     sn_facts = [], sn_type_names = registry_table (w_types w),
     sn_relation_names = registry_table (w_relations w)\<rparr>"

definition world_snapshot_of :: "digest \<Rightarrow> world \<Rightarrow> world_snapshot" where
  "world_snapshot_of H w =
     (let out = world_view w;
          index = index_rebuild out;
          out = out\<lparr>sn_objects := map (\<lambda>ob. ob\<lparr>os_incoming := of_nat (length (index_incoming index (os_id ob))),
                                             os_outgoing := of_nat (length (index_outgoing index (os_id ob)))\<rparr>)
                     (sn_objects out)\<rparr>
      in out\<lparr>sn_facts := derive_facts H out\<rparr>)"

definition rebuild_index :: "digest \<Rightarrow> world \<Rightarrow> world" where
  "rebuild_index H w = w\<lparr>w_index := index_rebuild (world_snapshot_of H w)\<rparr>"

definition object_of_snapshot :: "object_snapshot \<Rightarrow> world_object" where
  "object_of_snapshot ob = \<lparr>ob_id = os_id ob, ob_name = os_name ob, ob_type = os_type ob,
     ob_existence = os_existence ob, ob_attributes = emplace_all (os_attributes ob)\<rparr>"

definition edge_of_snapshot :: "pointer_snapshot \<Rightarrow> pointer_edge" where
  "edge_of_snapshot p = \<lparr>pe_id = ps_id p, pe_from = ps_from p, pe_to = ps_to p, pe_relation = ps_relation p,
     pe_role = ps_role p, pe_weight = ps_weight p, pe_born = ps_born p, pe_expires = ps_expires p,
     pe_law_domain = ps_law_domain p, pe_attributes = emplace_all (ps_attributes p)\<rparr>"

definition from_snapshot :: "digest \<Rightarrow> world_snapshot \<Rightarrow> world" where
  "from_snapshot H s = rebuild_index H
     ((new_world (sn_world_name s) (sn_world s))\<lparr>
        w_epoch := sn_epoch s,
        w_types := registry_restore (sn_type_names s),
        w_relations := relation_restore (sn_relation_names s),
        w_objects := sort_by (\<lambda>l r. ob_id l < ob_id r) (map object_of_snapshot (sn_objects s)),
        w_object_names := fold (\<lambda>ob. om_emplace (os_name ob) (os_id ob)) (sn_objects s) [],
        w_pointers := map edge_of_snapshot (sn_pointers s),
        w_next_pointer_id := fold (\<lambda>p next. max next (ps_id p + 1)) (sn_pointers s) 1\<rparr>)"

definition world_canonical_hash :: "digest \<Rightarrow> world \<Rightarrow> hash256" where
  "world_canonical_hash H w = canonical_hash H (world_snapshot_of H w)"

definition world_hash :: "digest \<Rightarrow> world \<Rightarrow> u64" where
  "world_hash H w = truncated_u64 (world_canonical_hash H w)"

section \<open>Applying a delta\<close>

datatype world_error =
    TypeRegistryError registry_error
  | RelationRegistryError registry_error
  | ArenaError arena_error
  | UnknownObject object_id
  | InvalidTempRef
  | UnknownTempObject temp_object_id
  | InvalidTempCreate
  | DuplicateTemp temp_object_id
  | ObjectExists string
  | InvalidRelation
  | UnknownPointer pointer_id
  | CannotRemovePointer pointer_id
  | CannotUpdatePointer pointer_id
  | UnknownFact fact_id

text \<open>The messages of the exceptions.\<close>

definition registry_error_what :: "string \<Rightarrow> (u32 \<Rightarrow> string) \<Rightarrow> registry_error \<Rightarrow> string" where
  "registry_error_what word id_string e = (case e of
       EmptySymbolName \<Rightarrow> word @ '' name cannot be empty''
     | NameHasOtherId name i \<Rightarrow> word @ '' '' @ [CHR 0x27] @ name @ [CHR 0x27] @ '' already exists as '' @ id_string i
     | IdHasOtherName i name \<Rightarrow> word @ '' id '' @ id_string i @ '' already maps to '' @ [CHR 0x27] @ name @ [CHR 0x27]
     | UnknownSymbol i \<Rightarrow> ''unknown '' @ word @ '' '' @ id_string i)"

definition world_error_what :: "world_error \<Rightarrow> string" where
  "world_error_what e = (case e of
       TypeRegistryError r \<Rightarrow> registry_error_what ''type'' type_id_to_string r
     | RelationRegistryError r \<Rightarrow> registry_error_what ''relation'' relation_type_to_string r
     | ArenaError EmptyObjectName \<Rightarrow> ''object name cannot be empty''
     | ArenaError InvalidObjectType \<Rightarrow> ''object type must be valid''
     | ArenaError (UnknownArenaObject i) \<Rightarrow> ''unknown object '' @ object_id_to_string i
     | UnknownObject i \<Rightarrow> ''unknown object '' @ object_id_to_string i
     | InvalidTempRef \<Rightarrow> ''object reference uses invalid temp id''
     | UnknownTempObject t \<Rightarrow> ''unknown temp object '' @ temp_object_id_to_string t
     | InvalidTempCreate \<Rightarrow> ''object create requires a valid temp id''
     | DuplicateTemp t \<Rightarrow> ''duplicate temp object '' @ temp_object_id_to_string t
     | ObjectExists name \<Rightarrow> ''object '' @ [CHR 0x27] @ name @ [CHR 0x27] @ '' already exists''
     | InvalidRelation \<Rightarrow> ''pointer relation type must be valid''
     | UnknownPointer p \<Rightarrow> ''unknown pointer '' @ pointer_id_to_string p
     | CannotRemovePointer p \<Rightarrow> ''cannot remove unknown pointer '' @ pointer_id_to_string p
     | CannotUpdatePointer p \<Rightarrow> ''cannot update unknown pointer '' @ pointer_id_to_string p
     | UnknownFact f \<Rightarrow> ''unknown fact '' @ to_hex f)"

definition map_error :: "('e \<Rightarrow> 'f) \<Rightarrow> 'e + 'a \<Rightarrow> 'f + 'a" where
  "map_error g m = (case m of Inl e \<Rightarrow> Inl (g e) | Inr x \<Rightarrow> Inr x)"

record apply_state =
  ap_world :: world
  ap_events :: "trace_event list"
  ap_temps :: "(u32, object_id) omap"
  ap_seen :: "u32 set"

definition make_event :: "epoch \<Rightarrow> string \<Rightarrow> (string \<times> string) list \<Rightarrow> (string \<times> f64) list \<Rightarrow> trace_event" where
  "make_event e name fs measurements =
     \<lparr>ev_epoch = e, ev_event = name, ev_fields = emplace_all fs, ev_measurements = emplace_all measurements\<rparr>"

definition push_event :: "trace_event \<Rightarrow> apply_state \<Rightarrow> apply_state" where
  "push_event e st = st\<lparr>ap_events := ap_events st @ [e]\<rparr>"

definition resolve_object :: "apply_state \<Rightarrow> object_ref \<Rightarrow> world_error + object_id" where
  "resolve_object st r = (case r of
       RefObject i \<Rightarrow> if \<not> arena_contains (w_objects (ap_world st)) i then Inl (UnknownObject i) else Inr i
     | RefTemp t \<Rightarrow>
         if t = 0 then Inl InvalidTempRef
         else (case om_find (ap_temps st) t of None \<Rightarrow> Inl (UnknownTempObject t) | Some i \<Rightarrow> Inr i))"

definition world_type_name :: "world \<Rightarrow> type_id \<Rightarrow> world_error + string" where
  "world_type_name w t = map_error TypeRegistryError (registry_name (w_types w) t)"

definition world_relation_name :: "world \<Rightarrow> relation_type \<Rightarrow> world_error + string" where
  "world_relation_name w r = map_error RelationRegistryError (relation_registry_name (w_relations w) r)"

definition apply_create_object :: "create_object_op \<Rightarrow> apply_state \<Rightarrow> world_error + apply_state" where
  "apply_create_object c st =
     (let w = ap_world st
      in if co_temp c = 0 then Inl InvalidTempCreate
         else if co_temp c \<in> ap_seen st then Inl (DuplicateTemp (co_temp c))
         else if om_contains (w_object_names w) (co_name c) then Inl (ObjectExists (co_name c))
         else
           res_bind (map_error ArenaError (arena_create (co_name c) (co_type c) (co_existence c) (w_objects w)))
             (\<lambda>(i, objects).
           res_bind (map_error ArenaError (arena_update i
               (\<lambda>ob. ob\<lparr>ob_attributes := fold (\<lambda>(k, v). om_put k v) (co_attributes c) (ob_attributes ob)\<rparr>) objects))
             (\<lambda>objects.
           res_bind (world_type_name w (co_type c)) (\<lambda>type_name.
             Inr (push_event (make_event (w_epoch w + 1) ''object.create''
                   [(''world'', w_name w), (''object'', co_name c), (''id'', object_id_to_string i),
                    (''type'', type_name), (''existence'', existence_to_string (co_existence c))] [])
               (st\<lparr>ap_world := w\<lparr>w_objects := objects,
                                 w_object_names := om_emplace (co_name c) i (w_object_names w)\<rparr>,
                   ap_temps := om_emplace (co_temp c) i (ap_temps st),
                   ap_seen := insert (co_temp c) (ap_seen st)\<rparr>))))))"

text \<open>\<open>SetObjectType\<close> and \<open>SetObjectExistence\<close>: the change of the arena, then the update event.\<close>

definition apply_update_object ::
    "(object_id \<Rightarrow> world_object list \<Rightarrow> arena_error + world_object list) \<Rightarrow> object_ref \<Rightarrow> apply_state \<Rightarrow>
     world_error + apply_state" where
  "apply_update_object change r st =
     res_bind (resolve_object st r) (\<lambda>i.
       let w = ap_world st
       in res_bind (map_error ArenaError (change i (w_objects w))) (\<lambda>objects.
          res_bind (map_error ArenaError (arena_get objects i)) (\<lambda>ob.
          res_bind (world_type_name w (ob_type ob)) (\<lambda>type_name.
            Inr (push_event (make_event (w_epoch w + 1) ''object.update''
                  [(''world'', w_name w), (''object'', ob_name ob), (''id'', object_id_to_string i),
                   (''type'', type_name), (''existence'', existence_to_string (ob_existence ob))] [])
              (st\<lparr>ap_world := w\<lparr>w_objects := objects\<rparr>\<rparr>))))))"

text \<open>\<open>SetObjectAttribute\<close> and \<open>RemoveObjectAttribute\<close>.\<close>

definition apply_object_attribute ::
    "string \<Rightarrow> string \<Rightarrow> ((string, attr_value) omap \<Rightarrow> (string, attr_value) omap) \<Rightarrow> object_ref \<Rightarrow> apply_state \<Rightarrow>
     world_error + apply_state" where
  "apply_object_attribute event key change r st =
     res_bind (resolve_object st r) (\<lambda>i.
       let w = ap_world st
       in res_bind (map_error ArenaError (arena_get (w_objects w) i)) (\<lambda>ob.
          res_bind (map_error ArenaError
              (arena_update i (\<lambda>ob. ob\<lparr>ob_attributes := change (ob_attributes ob)\<rparr>) (w_objects w))) (\<lambda>objects.
            Inr (push_event (make_event (w_epoch w + 1) event
                  [(''world'', w_name w), (''object'', ob_name ob), (''id'', object_id_to_string i), (''key'', key)] [])
              (st\<lparr>ap_world := w\<lparr>w_objects := objects\<rparr>\<rparr>)))))"

definition apply_create_pointer :: "create_pointer_op \<Rightarrow> apply_state \<Rightarrow> world_error + apply_state" where
  "apply_create_pointer c st =
     res_bind (resolve_object st (cp_from c)) (\<lambda>from_id.
     res_bind (resolve_object st (cp_to c)) (\<lambda>to_id.
       if cp_relation c = 0 then Inl InvalidRelation
       else
         let w = ap_world st;
             edge = \<lparr>pe_id = w_next_pointer_id w, pe_from = from_id, pe_to = to_id, pe_relation = cp_relation c,
                     pe_role = cp_role c, pe_weight = cp_weight c, pe_born = w_epoch w + 1, pe_expires = None,
                     pe_law_domain = (if cp_law_domain c = [] then ''core'' else cp_law_domain c),
                     pe_attributes = fold (\<lambda>(k, v). om_put k v) (cp_attributes c) []\<rparr>
         in res_bind (map_error ArenaError (arena_get (w_objects w) from_id)) (\<lambda>from_ob.
            res_bind (map_error ArenaError (arena_get (w_objects w) to_id)) (\<lambda>to_ob.
            res_bind (world_relation_name w (cp_relation c)) (\<lambda>relation_name.
              Inr (push_event (make_event (w_epoch w + 1) ''pointer.create''
                    [(''world'', w_name w), (''pointer'', pointer_id_to_string (pe_id edge)),
                     (''from'', ob_name from_ob), (''to'', ob_name to_ob), (''relation'', relation_name),
                     (''role'', causal_role_to_string (pe_role edge)), (''law_domain'', pe_law_domain edge)]
                    [(''weight'', pe_weight edge)])
                (st\<lparr>ap_world := w\<lparr>w_pointers := w_pointers w @ [edge],
                                  w_next_pointer_id := w_next_pointer_id w + 1\<rparr>\<rparr>)))))))"

text \<open>The four operations on an existing pointer.\<close>

definition apply_update_pointer ::
    "pointer_id \<Rightarrow> (pointer_edge \<Rightarrow> pointer_edge) \<Rightarrow> string \<Rightarrow> (string \<times> string) list \<Rightarrow> (string \<times> f64) list \<Rightarrow>
     apply_state \<Rightarrow> world_error + apply_state" where
  "apply_update_pointer i f event fs measurements st =
     (let w = ap_world st
      in case update_first (\<lambda>p. pe_id p = i) f (w_pointers w) of
        None \<Rightarrow> Inl (if event = ''pointer.remove'' then CannotRemovePointer i else CannotUpdatePointer i)
      | Some ps \<Rightarrow>
          Inr (push_event (make_event (w_epoch w + 1) event
                ([(''world'', w_name w), (''pointer'', pointer_id_to_string i)] @ fs) measurements)
            (st\<lparr>ap_world := w\<lparr>w_pointers := ps\<rparr>\<rparr>)))"

definition emitted_event :: "world \<Rightarrow> trace_event \<Rightarrow> trace_event" where
  "emitted_event w event =
     (let event = (if ev_epoch event = 0 then event\<lparr>ev_epoch := w_epoch w + 1\<rparr> else event)
      in if \<not> om_contains (ev_fields event) ''world''
         then event\<lparr>ev_fields := om_emplace ''world'' (w_name w) (ev_fields event)\<rparr> else event)"

definition apply_step :: "digest \<Rightarrow> apply_state \<Rightarrow> operation \<Rightarrow> world_error + apply_state" where
  "apply_step H st op = (let w = ap_world st in case op_body op of
       InternType name i \<Rightarrow>
         res_bind (map_error TypeRegistryError (registry_intern_at i name (w_types w)))
           (\<lambda>(_, r). Inr (st\<lparr>ap_world := w\<lparr>w_types := r\<rparr>\<rparr>))
     | InternRelation name i \<Rightarrow>
         res_bind (map_error RelationRegistryError (relation_intern_at i name (w_relations w)))
           (\<lambda>(_, r). Inr (st\<lparr>ap_world := w\<lparr>w_relations := r\<rparr>\<rparr>))
     | CreateObject c \<Rightarrow> apply_create_object c st
     | SetObjectType r t \<Rightarrow> apply_update_object (\<lambda>i. arena_set_type i t) r st
     | SetObjectExistence r e \<Rightarrow> apply_update_object (\<lambda>i. arena_set_existence i e) r st
     | SetObjectAttribute r a \<Rightarrow>
         apply_object_attribute ''object.attribute.set'' (fst a) (om_put (fst a) (snd a)) r st
     | RemoveObjectAttribute r k \<Rightarrow> apply_object_attribute ''object.attribute.remove'' k (om_erase k) r st
     | CreatePointer c \<Rightarrow> apply_create_pointer c st
     | ExpirePointer i \<Rightarrow>
         apply_update_pointer i (\<lambda>p. p\<lparr>pe_expires := Some (w_epoch w + 1)\<rparr>) ''pointer.remove'' [] [] st
     | SetPointerWeight i x \<Rightarrow>
         apply_update_pointer i (\<lambda>p. p\<lparr>pe_weight := x\<rparr>) ''pointer.weight.set'' [] [(''weight'', x)] st
     | SetPointerAttribute i a \<Rightarrow>
         apply_update_pointer i (\<lambda>p. p\<lparr>pe_attributes := om_put (fst a) (snd a) (pe_attributes p)\<rparr>)
           ''pointer.attribute.set'' [(''key'', fst a)] [] st
     | RemovePointerAttribute i k \<Rightarrow>
         apply_update_pointer i (\<lambda>p. p\<lparr>pe_attributes := om_erase k (pe_attributes p)\<rparr>)
           ''pointer.attribute.remove'' [(''key'', k)] [] st
     | EmitEvent e \<Rightarrow> Inr (push_event (emitted_event w e) st)
     | AssertObject r \<Rightarrow> res_bind (resolve_object st r) (\<lambda>_. Inr st)
     | AssertPointer i \<Rightarrow> if \<not> list_ex (\<lambda>p. pe_id p = i) (w_pointers w) then Inl (UnknownPointer i) else Inr st
     | AssertFact f \<Rightarrow> if \<not> contains_fact H (world_snapshot_of H w) f then Inl (UnknownFact f) else Inr st)"

definition apply_init :: "world \<Rightarrow> apply_state" where
  "apply_init w = \<lparr>ap_world = w, ap_events = [], ap_temps = [], ap_seen = {}\<rparr>"

definition apply_delta_unchecked :: "digest \<Rightarrow> delta \<Rightarrow> world \<Rightarrow> world_error + trace_event list \<times> world" where
  "apply_delta_unchecked H d w =
     res_bind (res_fold (apply_step H) (apply_init w) d) (\<lambda>st.
       Inr (ap_events st, rebuild_index H ((ap_world st)\<lparr>w_epoch := w_epoch w + 1\<rparr>)))"

text \<open>A preview runs the same steps on a copy and returns only the events.\<close>

definition preview_delta_unchecked :: "digest \<Rightarrow> delta \<Rightarrow> world \<Rightarrow> world_error + trace_event list" where
  "preview_delta_unchecked H d w = res_bind (apply_delta_unchecked H d w) (\<lambda>(events, _). Inr events)"

section \<open>Lookups and small operations\<close>

definition world_has_object :: "world \<Rightarrow> string \<Rightarrow> bool" where
  "world_has_object w name = om_contains (w_object_names w) name"

definition world_object_by_name :: "world \<Rightarrow> string \<Rightarrow> object_id option" where
  "world_object_by_name w name = om_find (w_object_names w) name"

definition world_pointer :: "world \<Rightarrow> pointer_id \<Rightarrow> world_error + pointer_edge" where
  "world_pointer w i = (case List.find (\<lambda>p. pe_id p = i) (w_pointers w) of None \<Rightarrow> Inl (UnknownPointer i) | Some p \<Rightarrow> Inr p)"

definition world_type_id :: "string \<Rightarrow> world \<Rightarrow> world_error + type_id \<times> world" where
  "world_type_id name w =
     res_bind (map_error TypeRegistryError (registry_intern name (w_types w))) (\<lambda>(i, r). Inr (i, w\<lparr>w_types := r\<rparr>))"

definition world_relation_type :: "string \<Rightarrow> world \<Rightarrow> world_error + relation_type \<times> world" where
  "world_relation_type name w =
     res_bind (map_error RelationRegistryError (relation_intern name (w_relations w))) (\<lambda>(i, r). Inr (i, w\<lparr>w_relations := r\<rparr>))"

definition object_delta :: "string \<Rightarrow> string \<Rightarrow> world \<Rightarrow> world_error + delta \<times> world" where
  "object_delta name type w =
     res_bind (world_type_id type w) (\<lambda>(t, w).
       Inr (append_body (CreateObject \<lparr>co_temp = 1, co_name = name, co_type = t, co_existence = Alive,
              co_attributes = []\<rparr>) [], w))"

definition link_delta :: "object_id \<Rightarrow> object_id \<Rightarrow> string \<Rightarrow> f64 \<Rightarrow> causal_role \<Rightarrow> world \<Rightarrow> world_error + delta \<times> world" where
  "link_delta from_id to_id relation weight role w =
     res_bind (world_relation_type relation w) (\<lambda>(r, w).
       Inr (append_body (CreatePointer \<lparr>cp_from = RefObject from_id, cp_to = RefObject to_id, cp_relation = r,
              cp_role = role, cp_weight = weight, cp_law_domain = ''core'', cp_attributes = []\<rparr>) [], w))"

definition existence_delta :: "object_id \<Rightarrow> existence_state \<Rightarrow> delta" where
  "existence_delta i e = append_update (RefObject i) None (Some e) []"

text \<open>The trace of a rejected transition.\<close>

definition severity_to_string :: "severity \<Rightarrow> string" where
  "severity_to_string s = (case s of Info \<Rightarrow> ''info'' | Warning \<Rightarrow> ''warning'' | Error \<Rightarrow> ''error'' | Fatal \<Rightarrow> ''fatal''
     | Severity_byte _ \<Rightarrow> ''error'')"

definition append_rejection_trace :: "string \<Rightarrow> law_violation list \<Rightarrow> world \<Rightarrow> trace_event list \<times> world" where
  "append_rejection_trace reason violations w =
     (let events =
        make_event (w_epoch w) ''world.transition.rejected'' [(''world'', w_name w), (''reason'', reason)]
          [(''violations'', nat_to_f64 (length violations))]
        # map (\<lambda>v. make_event (w_epoch w) ''law.check''
              [(''world'', w_name w), (''law'', lv_law v), (''status'', severity_to_string (lv_severity v)),
               (''detail'', lv_explanation v)] [(''magnitude'', lv_magnitude v)]) violations
      in (events, w\<lparr>w_trace := w_trace w @ events\<rparr>))"

end
