(* ===== verification/World_Inv.thy ===== *)
theory World_Inv
  imports World
begin

text \<open>
  The invariant of a world: both registries are consistent, object \<open>n\<close> of the arena has index \<open>n\<close>
  and generation 1, the table of names is exact, attribute tables are ordered and the next pointer
  number follows the greatest one.  A fresh world satisfies it and every step of a delta keeps it,
  while the arena and the registries have room.
\<close>

definition arena_dense :: "world_object list \<Rightarrow> bool" where
  "arena_dense objects = (map ob_id objects = map (\<lambda>n. ObjectId (of_nat n) 1) [0..<length objects])"

definition pointer_bound :: "pointer_id list \<Rightarrow> u64" where
  "pointer_bound ids = fold (\<lambda>i next. max next (i + 1)) ids 1"

text \<open>The next pointer identifier is the one after the greatest in use.\<close>

definition pointer_ids_ok :: "pointer_id list \<Rightarrow> u64 \<Rightarrow> bool" where
  "pointer_ids_ok ids n = (list_all (\<lambda>i. i < n) ids \<and> n = pointer_bound ids)"

definition world_ok :: "world \<Rightarrow> bool" where
  "world_ok w = (registry_inv (w_types w) \<and> registry_inv (w_relations w)
     \<and> arena_dense (w_objects w) \<and> length (w_objects w) < 2 ^ 32
     \<and> list_all (\<lambda>ob. om_inv (ob_attributes ob)) (w_objects w)
     \<and> om_inv (w_object_names w) \<and> fst ` set (w_object_names w) = ob_name ` set (w_objects w)
     \<and> list_all (\<lambda>ob. om_find (w_object_names w) (ob_name ob) = Some (ob_id ob)) (w_objects w)
     \<and> list_all (\<lambda>p. om_inv (pe_attributes p)) (w_pointers w)
     \<and> pointer_ids_ok (map pe_id (w_pointers w)) (w_next_pointer_id w))"

lemma world_ok_pointer_ids:
  assumes "world_ok w"
  shows "list_all (\<lambda>i. i < w_next_pointer_id w) (map pe_id (w_pointers w))"
    and "w_next_pointer_id w = pointer_bound (map pe_id (w_pointers w))"
proof -
  have ids: "pointer_ids_ok (map pe_id (w_pointers w)) (w_next_pointer_id w)" using assms by (simp add: world_ok_def)
  show "list_all (\<lambda>i. i < w_next_pointer_id w) (map pe_id (w_pointers w))"
    using ids unfolding pointer_ids_ok_def by (rule conjunct1)
  show "w_next_pointer_id w = pointer_bound (map pe_id (w_pointers w))"
    using ids unfolding pointer_ids_ok_def by (rule conjunct2)
qed

lemma new_world_ok: "world_ok (new_world name i)"
  by (simp add: world_ok_def new_world_def registry_inv_empty arena_dense_def pointer_ids_ok_def pointer_bound_def)

section \<open>Attribute lists and attribute tables\<close>

lemma sort_attributes_mset:
  assumes "mset xs = mset ys" and "distinct (map fst xs)"
  shows "sort_attributes xs = sort_attributes ys"
proof (rule sorted_key_unique [where f = attribute_key])
  show "mset (sort_attributes xs) = mset (sort_attributes ys)" using assms(1) by simp
  show "sorted (map attribute_key (sort_attributes xs))" "sorted (map attribute_key (sort_attributes ys))"
    by (rule sorted_attribute_keys)+
  have "distinct (map fst (sort_attributes xs))"
    using assms(2) mset_eq_imp_distinct_iff [of "map fst (sort_attributes xs)" "map fst xs"] by simp
  then have "distinct (map (fst \<circ> attribute_key) (sort_attributes xs))"
    by (simp add: attribute_key_def comp_def)
  then show "distinct (map attribute_key (sort_attributes xs))"
    by (metis distinct_map list.map_comp)
qed

lemma om_inv_distinct: "om_inv m \<Longrightarrow> distinct (map fst m)"
  by (simp add: om_inv_def strict_sorted_iff)

lemma mset_om_put_new: "om_find m k = None \<Longrightarrow> mset (om_put k v m) = add_mset (k, v) (mset m)"
  by (induction m) (auto split: if_splits)

lemma set_attribute_om_put:
  assumes "om_inv as"
  shows "set_attribute a as = om_put (fst a) (snd a) as"
proof -
  obtain k v where a: "a = (k, v)" by force
  let ?new = "case update_first (\<lambda>e. fst e = k) (\<lambda>_. (k, v)) as of None \<Rightarrow> as @ [(k, v)] | Some as' \<Rightarrow> as'"
  have "mset (om_put k v as) = mset ?new"
    using assms
  proof (induction as)
    case (Cons e as)
    obtain k' v' where e: "e = (k', v')" by force
    show ?case
    proof (cases "k < k'")
      case True
      then have "update_first (\<lambda>e. fst e = k) (\<lambda>_. (k, v)) as = None"
        using Cons.prems e by (force simp: update_first_None)
      with True e show ?thesis by simp
    next
      case False
      with Cons e show ?thesis by (cases "update_first (\<lambda>e. fst e = k) (\<lambda>_. (k, v)) as") auto
    qed
  qed simp
  moreover have "om_inv (om_put k v as)" by (rule om_inv_put [OF assms])
  ultimately have "sort_attributes ?new = om_put k v as"
    using sort_attributes_mset [of "om_put k v as" ?new] sort_attributes_om [of "om_put k v as"]
    by (simp add: om_inv_distinct)
  then show ?thesis by (simp add: set_attribute_def a)
qed

lemma remove_attribute_om_erase: "remove_attribute k as = om_erase k as"
  by (simp add: remove_attribute_def om_erase_def case_prod_unfold)

lemma fold_put_distinct:
  assumes "distinct (map fst kvs)"
  shows "sort_attributes kvs = fold (\<lambda>(k, v). om_put k v) kvs []"
proof -
  have *: "mset (fold (\<lambda>(k, v). om_put k v) kvs m) = mset m + mset kvs"
    if "distinct (map fst kvs)" and "\<forall>k \<in> fst ` set kvs. om_find m k = None" for m :: "(string, attr_value) omap" and kvs
    using that
  proof (induction kvs arbitrary: m)
    case (Cons kv kvs)
    obtain k v where kv: "kv = (k, v)" by force
    have "\<forall>j \<in> fst ` set kvs. om_find (om_put k v m) j = None"
      using Cons.prems by (auto simp: om_find_put kv rev_image_eqI)
    with Cons show ?case by (simp add: kv mset_om_put_new)
  qed simp
  have "mset (fold (\<lambda>(k, v). om_put k v) kvs []) = mset kvs"
    using * [OF assms, of "[]"] by simp
  moreover have "om_inv (fold (\<lambda>(k, v). om_put k v) kvs [])" by (rule om.inv_fold_put) simp
  ultimately show ?thesis
    using sort_attributes_mset [of "fold (\<lambda>(k, v). om_put k v) kvs []" kvs] sort_attributes_om
    by (metis om_inv_distinct)
qed

lemma om_inv_fold_put [simp]: "om_inv m \<Longrightarrow> om_inv (fold (\<lambda>(k, v). om_put k v) kvs m)"
  by (rule om.inv_fold_put)

section \<open>The arena\<close>

lemma arena_dense_nth:
  assumes "arena_dense objects" and "n < length objects"
  shows "ob_id (objects ! n) = ObjectId (of_nat n) 1"
proof -
  have "map ob_id objects ! n = map (\<lambda>n. ObjectId (of_nat n) 1) [0..<length objects] ! n"
    using assms(1) unfolding arena_dense_def by (rule arg_cong)
  with assms(2) show ?thesis by simp
qed

lemma arena_dense_index:
  assumes "arena_dense objects" and "length objects < 2 ^ 32" and "n < length objects" and "m < length objects"
    and "ob_id (objects ! n) = ob_id (objects ! m)"
  shows "n = m"
proof -
  have "(of_nat n :: u32) = of_nat m" using assms arena_dense_nth by fastforce
  then have "unat (of_nat n :: u32) = unat (of_nat m :: u32)" by simp
  with assms show ?thesis by (simp add: unat_of_nat)
qed

lemma arena_dense_distinct:
  "arena_dense objects \<Longrightarrow> length objects < 2 ^ 32 \<Longrightarrow> distinct (map ob_id objects)"
  using arena_dense_index by (auto simp: distinct_conv_nth)

text \<open>In a dense arena an identifier is contained exactly when some object carries it.\<close>

lemma arena_contains_mem:
  assumes "arena_dense objects" and "length objects < 2 ^ 32"
  shows "arena_contains objects i \<longleftrightarrow> i \<in> ob_id ` set objects"
proof
  assume "arena_contains objects i"
  then show "i \<in> ob_id ` set objects"
    by (auto simp: arena_contains_def intro!: image_eqI [where x = "objects ! unat (oid_index i)"])
next
  assume "i \<in> ob_id ` set objects"
  then obtain n where n: "n < length objects" "i = ob_id (objects ! n)" by (auto simp: in_set_conv_nth)
  then have i: "i = ObjectId (of_nat n) 1" using arena_dense_nth [OF assms(1)] by simp
  have u: "unat (of_nat n :: u32) = n" using n assms(2) by (intro unat_of_nat_u32) simp
  have "(of_nat n :: u32) \<noteq> - 1"
  proof
    assume "(of_nat n :: u32) = - 1"
    then have "(of_nat (Suc n) :: u32) = 0" by simp
    moreover have "unat (of_nat (Suc n) :: u32) = Suc n" using n assms(2) by (intro unat_of_nat_u32) simp
    ultimately show False by (simp only: unat_0)
  qed
  moreover have "oid_index i = of_nat n" "oid_generation i = 1" using i by simp_all
  ultimately show "arena_contains objects i"
    using n(1) n(2) [symmetric] u by (simp add: arena_contains_def valid_token_def invalid_index_def)
qed

lemma arena_update_Inr:
  assumes "arena_update i f objects = Inr objects'"
  obtains n where "n = unat (oid_index i)" and "n < length objects" and "ob_id (objects ! n) = i"
    and "objects' = objects[n := f (objects ! n)]"
  using assms that by (auto simp: arena_update_def arena_contains_def split: if_splits)

lemma arena_create_Inr:
  assumes "arena_create name type e objects = Inr (i, objects')"
  shows "name \<noteq> []" and "type \<noteq> 0" and "i = ObjectId (of_nat (length objects)) 1"
    and "objects' = objects @ [\<lparr>ob_id = i, ob_name = name, ob_type = type, ob_existence = e, ob_attributes = []\<rparr>]"
  using assms by (auto simp: arena_create_def Let_def split: if_splits)

lemma arena_dense_append:
  "arena_dense objects \<Longrightarrow> ob_id ob = ObjectId (of_nat (length objects)) 1 \<Longrightarrow> arena_dense (objects @ [ob])"
  by (simp add: arena_dense_def)

lemma arena_dense_update:
  assumes "arena_dense objects" and "ob_id (f (objects ! n)) = ob_id (objects ! n)"
  shows "arena_dense (objects[n := f (objects ! n)])"
proof -
  have "map ob_id (objects[n := f (objects ! n)]) = map ob_id objects"
    by (cases "n < length objects") (simp_all add: map_update assms(2) list_update_same_conv list_update_beyond)
  with assms show ?thesis by (simp add: arena_dense_def)
qed

section \<open>The steps of a delta\<close>

lemma map_error_Inr [simp]: "map_error g m = Inr x \<longleftrightarrow> m = Inr x"
  by (cases m) (simp_all add: map_error_def)

lemma push_event_simps [simp]:
  "ap_world (push_event e st) = ap_world st" "ap_temps (push_event e st) = ap_temps st"
  "ap_seen (push_event e st) = ap_seen st"
  by (simp_all add: push_event_def)

text \<open>The shape of the world after each kind of step.\<close>

lemma apply_create_object_Inr:
  assumes "apply_create_object c st = Inr st'" and room: "length (w_objects (ap_world st)) < 2 ^ 32"
  obtains i ob where
    "i = ObjectId (of_nat (length (w_objects (ap_world st)))) 1" and "co_temp c \<noteq> 0" and "co_temp c \<notin> ap_seen st"
    and "co_name c \<notin> fst ` set (w_object_names (ap_world st))" and "co_name c \<noteq> []" and "co_type c \<noteq> 0"
    and "ob = \<lparr>ob_id = i, ob_name = co_name c, ob_type = co_type c, ob_existence = co_existence c,
               ob_attributes = fold (\<lambda>(k, v). om_put k v) (co_attributes c) []\<rparr>"
    and "ap_world st' = (ap_world st)\<lparr>w_objects := w_objects (ap_world st) @ [ob],
           w_object_names := om_emplace (co_name c) i (w_object_names (ap_world st))\<rparr>"
    and "ap_temps st' = om_emplace (co_temp c) i (ap_temps st)" and "ap_seen st' = insert (co_temp c) (ap_seen st)"
proof -
  let ?w = "ap_world st"
  from assms(1) obtain i objects objects' where
    fresh: "co_temp c \<noteq> 0" "co_temp c \<notin> ap_seen st" "\<not> om_contains (w_object_names ?w) (co_name c)"
    and cr: "arena_create (co_name c) (co_type c) (co_existence c) (w_objects ?w) = Inr (i, objects)"
    and up: "arena_update i (\<lambda>ob. ob\<lparr>ob_attributes := fold (\<lambda>(k, v). om_put k v) (co_attributes c) (ob_attributes ob)\<rparr>) objects
        = Inr objects'"
    and st': "ap_world st' = ?w\<lparr>w_objects := objects', w_object_names := om_emplace (co_name c) i (w_object_names ?w)\<rparr>"
      "ap_temps st' = om_emplace (co_temp c) i (ap_temps st)" "ap_seen st' = insert (co_temp c) (ap_seen st)"
    by (auto simp: apply_create_object_def Let_def res_bind_Inr_iff split: if_splits)
  note c = arena_create_Inr [OF cr]
  from up obtain n where n: "n = unat (oid_index i)"
    and obs: "objects' = objects[n := (objects ! n)\<lparr>ob_attributes := fold (\<lambda>(k, v). om_put k v) (co_attributes c) (ob_attributes (objects ! n))\<rparr>]"
    by (rule arena_update_Inr)
  have "n = length (w_objects ?w)" using n c(3) room by (simp add: unat_of_nat)
  then have "objects' = w_objects ?w @ [\<lparr>ob_id = i, ob_name = co_name c, ob_type = co_type c,
      ob_existence = co_existence c, ob_attributes = fold (\<lambda>(k, v). om_put k v) (co_attributes c) []\<rparr>]"
    using c(4) by (simp add: obs)
  then show ?thesis using that c fresh st' by (simp add: om_contains_iff)
qed

lemma apply_update_object_Inr:
  assumes "apply_update_object change r st = Inr st'"
  obtains i objects where "resolve_object st r = Inr i" and "change i (w_objects (ap_world st)) = Inr objects"
    and "ap_world st' = (ap_world st)\<lparr>w_objects := objects\<rparr>" and "ap_temps st' = ap_temps st" and "ap_seen st' = ap_seen st"
  using assms by (auto simp: apply_update_object_def Let_def res_bind_Inr_iff)

lemma apply_object_attribute_Inr:
  assumes "apply_object_attribute event key change r st = Inr st'"
  obtains i objects where "resolve_object st r = Inr i"
    and "arena_update i (\<lambda>ob. ob\<lparr>ob_attributes := change (ob_attributes ob)\<rparr>) (w_objects (ap_world st)) = Inr objects"
    and "ap_world st' = (ap_world st)\<lparr>w_objects := objects\<rparr>" and "ap_temps st' = ap_temps st" and "ap_seen st' = ap_seen st"
  using assms by (auto simp: apply_object_attribute_def Let_def res_bind_Inr_iff)

lemma apply_create_pointer_Inr:
  assumes "apply_create_pointer c st = Inr st'"
  obtains f t edge where "resolve_object st (cp_from c) = Inr f" and "resolve_object st (cp_to c) = Inr t"
    and "cp_relation c \<noteq> 0"
    and "edge = \<lparr>pe_id = w_next_pointer_id (ap_world st), pe_from = f, pe_to = t, pe_relation = cp_relation c,
       pe_role = cp_role c, pe_weight = cp_weight c, pe_born = w_epoch (ap_world st) + 1, pe_expires = None,
       pe_law_domain = (if cp_law_domain c = [] then ''core'' else cp_law_domain c),
       pe_attributes = fold (\<lambda>(k, v). om_put k v) (cp_attributes c) []\<rparr>"
    and "ap_world st' = (ap_world st)\<lparr>w_pointers := w_pointers (ap_world st) @ [edge],
       w_next_pointer_id := w_next_pointer_id (ap_world st) + 1\<rparr>"
    and "ap_temps st' = ap_temps st" and "ap_seen st' = ap_seen st"
  using assms by (auto simp: apply_create_pointer_def Let_def res_bind_Inr_iff split: if_splits)

lemma apply_update_pointer_Inr:
  assumes "apply_update_pointer i f event fs ms st = Inr st'"
  obtains ps where "update_first (\<lambda>p. pe_id p = i) f (w_pointers (ap_world st)) = Some ps"
    and "ap_world st' = (ap_world st)\<lparr>w_pointers := ps\<rparr>" and "ap_temps st' = ap_temps st" and "ap_seen st' = ap_seen st"
  using assms by (auto simp: apply_update_pointer_def Let_def split: option.splits)

lemma pointer_bound_append: "pointer_bound (ids @ [i]) = max (pointer_bound ids) (i + 1)"
  by (simp add: pointer_bound_def)

section \<open>The steps keep the invariant\<close>

lemma world_ok_replace_object:
  assumes ok: "world_ok w" and upd: "arena_update i f (w_objects w) = Inr objects"
    and f: "\<And>ob. ob_id (f ob) = ob_id ob" "\<And>ob. ob_name (f ob) = ob_name ob"
      "\<And>ob. om_inv (ob_attributes ob) \<Longrightarrow> om_inv (ob_attributes (f ob))"
  shows "world_ok (w\<lparr>w_objects := objects\<rparr>)" and "map ob_id objects = map ob_id (w_objects w)"
    and "length objects = length (w_objects w)"
proof -
  from upd obtain n where n: "n < length (w_objects w)" "objects = (w_objects w)[n := f (w_objects w ! n)]"
    by (rule arena_update_Inr)
  have ids: "map ob_id objects = map ob_id (w_objects w)" and names: "map ob_name objects = map ob_name (w_objects w)"
    using n f by (simp_all add: map_update list_update_same_conv)
  show "map ob_id objects = map ob_id (w_objects w)" by (rule ids)
  show len: "length objects = length (w_objects w)" using n by simp
  have "ob_name ` set objects = ob_name ` set (w_objects w)" using names by (metis list.set_map)
  moreover have "arena_dense objects" using ok ids len by (simp add: world_ok_def arena_dense_def)
  moreover have "list_all (\<lambda>ob. om_inv (ob_attributes ob)) objects"
  proof -
    have "set objects \<subseteq> insert (f (w_objects w ! n)) (set (w_objects w))"
      unfolding n(2) by (rule set_update_subset_insert)
    moreover have "\<forall>ob \<in> set (w_objects w). om_inv (ob_attributes ob)"
      using ok by (simp add: world_ok_def list_all_iff)
    moreover have "w_objects w ! n \<in> set (w_objects w)" using n(1) by simp
    ultimately show ?thesis using f(3) by (auto simp: list_all_iff)
  qed
  moreover have "list_all (\<lambda>ob. om_find (w_object_names w) (ob_name ob) = Some (ob_id ob)) objects"
  proof -
    have "set objects \<subseteq> insert (f (w_objects w ! n)) (set (w_objects w))"
      unfolding n(2) by (rule set_update_subset_insert)
    moreover have "\<forall>ob \<in> set (w_objects w). om_find (w_object_names w) (ob_name ob) = Some (ob_id ob)"
      using ok by (simp add: world_ok_def list_all_iff)
    moreover have "w_objects w ! n \<in> set (w_objects w)" using n(1) by simp
    ultimately show ?thesis using f(1,2) by (auto simp: list_all_iff)
  qed
  ultimately show "world_ok (w\<lparr>w_objects := objects\<rparr>)" using ok len by (simp add: world_ok_def)
qed

lemma world_ok_update_attributes:
  assumes "world_ok w" and "\<And>m. om_inv m \<Longrightarrow> om_inv (change m)"
    and "arena_update i (\<lambda>ob. ob\<lparr>ob_attributes := change (ob_attributes ob)\<rparr>) (w_objects w) = Inr objects"
  shows "world_ok (w\<lparr>w_objects := objects\<rparr>)"
  by (rule world_ok_replace_object(1) [OF assms(1,3)]) (simp_all add: assms(2))

lemma world_ok_replace_pointers:
  assumes ok: "world_ok w" and upd: "update_first (\<lambda>p. pe_id p = i) f (w_pointers w) = Some ps"
    and f: "\<And>p. pe_id (f p) = pe_id p" "\<And>p. om_inv (pe_attributes p) \<Longrightarrow> om_inv (pe_attributes (f p))"
  shows "world_ok (w\<lparr>w_pointers := ps\<rparr>)" and "map pe_id ps = map pe_id (w_pointers w)"
proof -
  show ids: "map pe_id ps = map pe_id (w_pointers w)" using update_first_map [OF _ upd] f(1) by blast
  have "list_all (\<lambda>p. om_inv (pe_attributes p)) ps"
    using ok f(2) by (auto simp: world_ok_def list_all_iff dest!: update_first_mem [OF upd])
  with ok ids show "world_ok (w\<lparr>w_pointers := ps\<rparr>)" by (simp add: world_ok_def)
qed

lemma world_ok_create_object:
  assumes ok: "world_ok w" and room: "length (w_objects w) + 1 < 2 ^ 32"
    and "ob_id ob = ObjectId (of_nat (length (w_objects w))) 1" and "om_inv (ob_attributes ob)"
    and new: "ob_name ob \<notin> fst ` set (w_object_names w)"
  shows "world_ok (w\<lparr>w_objects := w_objects w @ [ob],
           w_object_names := om_emplace (ob_name ob) (ob_id ob) (w_object_names w)\<rparr>)"
proof -
  have none: "om_find (w_object_names w) (ob_name ob) = None" using new by (simp add: om_find_None_iff)
  have "list_all (\<lambda>x. om_find (om_emplace (ob_name ob) (ob_id ob) (w_object_names w)) (ob_name x) = Some (ob_id x)) (w_objects w @ [ob])"
    using ok none by (auto simp: world_ok_def list_all_iff om_find_emplace)
  then show ?thesis using assms by (auto simp: world_ok_def arena_dense_append om_inv_emplace keys_om_emplace)
qed

lemma world_ok_create_pointer:
  assumes ok: "world_ok w" and room: "unat (w_next_pointer_id w) + 1 < 2 ^ 64"
    and "pe_id edge = w_next_pointer_id w" and "om_inv (pe_attributes edge)"
  shows "world_ok (w\<lparr>w_pointers := w_pointers w @ [edge], w_next_pointer_id := w_next_pointer_id w + 1\<rparr>)"
proof -
  have less: "w_next_pointer_id w < w_next_pointer_id w + 1" "i < w_next_pointer_id w \<Longrightarrow> i < w_next_pointer_id w + 1" for i
    using word_next_less [of "w_next_pointer_id w"] room by simp_all
  note old = world_ok_pointer_ids(1) [OF ok] and bound = world_ok_pointer_ids(2) [OF ok]
  have "list_all (\<lambda>i. i < w_next_pointer_id w + 1) (map pe_id (w_pointers w @ [edge]))"
    using old less assms(3) by (auto simp: list_all_iff)
  then have "pointer_ids_ok (map pe_id (w_pointers w @ [edge])) (w_next_pointer_id w + 1)"
    using less(1) assms(3) by (simp add: pointer_ids_ok_def pointer_bound_append bound [symmetric] max_absorb2)
  with assms show ?thesis by (simp add: world_ok_def)
qed

text \<open>The room a step needs.\<close>

definition step_room :: "world \<Rightarrow> bool" where
  "step_room w = (length (w_objects w) + 1 < 2 ^ 32 \<and> unat (w_next_pointer_id w) + 1 < 2 ^ 64
     \<and> length (rg_names (w_types w)) + 1 < 2 ^ 32 \<and> length (rg_names (w_relations w)) + 1 < 2 ^ 32)"

lemma apply_step_ok:
  assumes ok: "world_ok (ap_world st)" and room: "step_room (ap_world st)" and res: "apply_step H st op = Inr st'"
  shows "world_ok (ap_world st')"
proof (cases "op_body op")
  case (InternType name i)
  with res obtain k r where "registry_intern_at i name (w_types (ap_world st)) = Inr (k, r)"
    and st': "ap_world st' = (ap_world st)\<lparr>w_types := r\<rparr>"
    by (auto simp: apply_step_def Let_def res_bind_Inr_iff)
  with ok room registry_intern_at_props(1) show ?thesis by (fastforce simp: world_ok_def step_room_def)
next
  case (InternRelation name i)
  with res obtain k r where "registry_intern_at i name (w_relations (ap_world st)) = Inr (k, r)"
    and st': "ap_world st' = (ap_world st)\<lparr>w_relations := r\<rparr>"
    by (auto simp: apply_step_def Let_def res_bind_Inr_iff)
  with ok room registry_intern_at_props(1) show ?thesis by (fastforce simp: world_ok_def step_room_def)
next
  case (CreateObject c)
  with res have "apply_create_object c st = Inr st'" by (simp add: apply_step_def Let_def)
  moreover have "length (w_objects (ap_world st)) < 2 ^ 32" using ok by (simp add: world_ok_def)
  ultimately obtain i ob where "i = ObjectId (of_nat (length (w_objects (ap_world st)))) 1"
    and "co_name c \<notin> fst ` set (w_object_names (ap_world st))"
    and ob: "ob = \<lparr>ob_id = i, ob_name = co_name c, ob_type = co_type c, ob_existence = co_existence c,
               ob_attributes = fold (\<lambda>(k, v). om_put k v) (co_attributes c) []\<rparr>"
    and st': "ap_world st' = (ap_world st)\<lparr>w_objects := w_objects (ap_world st) @ [ob],
           w_object_names := om_emplace (co_name c) i (w_object_names (ap_world st))\<rparr>"
    by (rule apply_create_object_Inr)
  then show ?thesis using world_ok_create_object [OF ok, of ob] room by (simp add: step_room_def)
next
  case (CreatePointer c)
  with res have "apply_create_pointer c st = Inr st'" by (simp add: apply_step_def Let_def)
  then show ?thesis
    by (rule apply_create_pointer_Inr)
      (use world_ok_create_pointer [OF ok] room in \<open>auto simp: step_room_def\<close>)
next
  case (SetObjectType r t)
  with res have "apply_update_object (\<lambda>i. arena_set_type i t) r st = Inr st'" by (simp add: apply_step_def Let_def)
  then obtain i objects where "arena_set_type i t (w_objects (ap_world st)) = Inr objects"
    and st': "ap_world st' = (ap_world st)\<lparr>w_objects := objects\<rparr>" by (rule apply_update_object_Inr)
  then have "arena_update i (\<lambda>ob. ob\<lparr>ob_type := t\<rparr>) (w_objects (ap_world st)) = Inr objects"
    by (simp add: arena_set_type_def split: if_splits)
  from world_ok_replace_object(1) [OF ok this] st' show ?thesis by simp
next
  case (SetObjectExistence r e)
  with res have "apply_update_object (\<lambda>i. arena_set_existence i e) r st = Inr st'" by (simp add: apply_step_def Let_def)
  then obtain i objects where "arena_set_existence i e (w_objects (ap_world st)) = Inr objects"
    and st': "ap_world st' = (ap_world st)\<lparr>w_objects := objects\<rparr>" by (rule apply_update_object_Inr)
  then have "arena_update i (\<lambda>ob. ob\<lparr>ob_existence := e\<rparr>) (w_objects (ap_world st)) = Inr objects"
    by (simp add: arena_set_existence_def)
  from world_ok_replace_object(1) [OF ok this] st' show ?thesis by simp
next
  case (SetObjectAttribute r a)
  with res have "apply_object_attribute ''object.attribute.set'' (fst a) (om_put (fst a) (snd a)) r st = Inr st'"
    by (simp add: apply_step_def Let_def)
  then obtain i objects where
    "arena_update i (\<lambda>ob. ob\<lparr>ob_attributes := om_put (fst a) (snd a) (ob_attributes ob)\<rparr>) (w_objects (ap_world st)) = Inr objects"
    and st': "ap_world st' = (ap_world st)\<lparr>w_objects := objects\<rparr>" by (rule apply_object_attribute_Inr)
  from world_ok_update_attributes [OF ok om_inv_put this(1)] st' show ?thesis by simp
next
  case (RemoveObjectAttribute r k)
  with res have "apply_object_attribute ''object.attribute.remove'' k (om_erase k) r st = Inr st'"
    by (simp add: apply_step_def Let_def)
  then obtain i objects where
    "arena_update i (\<lambda>ob. ob\<lparr>ob_attributes := om_erase k (ob_attributes ob)\<rparr>) (w_objects (ap_world st)) = Inr objects"
    and st': "ap_world st' = (ap_world st)\<lparr>w_objects := objects\<rparr>" by (rule apply_object_attribute_Inr)
  from world_ok_update_attributes [OF ok om_inv_erase this(1)] st' show ?thesis by simp
next
  case (ExpirePointer i)
  with res show ?thesis
    by (auto simp: apply_step_def Let_def elim!: apply_update_pointer_Inr intro!: world_ok_replace_pointers(1) [OF ok])
next
  case (SetPointerWeight i x)
  with res show ?thesis
    by (auto simp: apply_step_def Let_def elim!: apply_update_pointer_Inr intro!: world_ok_replace_pointers(1) [OF ok])
next
  case (SetPointerAttribute i a)
  with res show ?thesis
    by (auto simp: apply_step_def Let_def om_inv_put elim!: apply_update_pointer_Inr intro!: world_ok_replace_pointers(1) [OF ok])
next
  case (RemovePointerAttribute i k)
  with res show ?thesis
    by (auto simp: apply_step_def Let_def om_inv_erase elim!: apply_update_pointer_Inr intro!: world_ok_replace_pointers(1) [OF ok])
qed (use ok res in \<open>auto simp: apply_step_def Let_def res_bind_Inr_iff split: if_splits\<close>)

end
