(* ===== verification/Merkle.thy ===== *)
theory Merkle
  imports Hashing
begin

text \<open>
  The Merkle roots of a world (\<open>src/kernel/merkle.cpp\<close>): every object, pointer, derived fact and
  used name is hashed by itself, each group is summed up as the root of its sorted hashes and the
  world root covers the five group roots and the epoch.  The lemmas show that no root depends on
  the order of a group.
\<close>

record world_root =
  wr_root :: hash256
  wr_object_root :: hash256
  wr_pointer_root :: hash256
  wr_fact_root :: hash256
  wr_type_root :: hash256
  wr_relation_root :: hash256

definition object_hash :: "digest \<Rightarrow> object_snapshot \<Rightarrow> hash256" where
  "object_hash H ob = H (
     writer_string ''MerkleObject:v1'' @ writer_u32 (oid_index (os_id ob)) @ writer_u32 (oid_generation (os_id ob))
     @ writer_string (os_name ob) @ writer_u32 (os_type ob) @ writer_u8 (existence_to_byte (os_existence ob))
     @ wlist encode_attribute (sort_attributes (os_attributes ob)))"

definition pointer_hash :: "digest \<Rightarrow> pointer_snapshot \<Rightarrow> hash256" where
  "pointer_hash H p = H (
     writer_string ''MerklePointer:v1'' @ writer_u64 (ps_id p)
     @ writer_u32 (oid_index (ps_from p)) @ writer_u32 (oid_generation (ps_from p))
     @ writer_u32 (oid_index (ps_to p)) @ writer_u32 (oid_generation (ps_to p))
     @ writer_u32 (ps_relation p) @ writer_u8 (role_to_byte (ps_role p)) @ writer_f64 (ps_weight p)
     @ writer_u64 (ps_born p) @ writer_bool (ps_expires p \<noteq> None)
     @ (case ps_expires p of None \<Rightarrow> [] | Some e \<Rightarrow> writer_u64 e)
     @ writer_string (ps_law_domain p) @ wlist encode_attribute (sort_attributes (ps_attributes p)))"

definition merkle_fact_hash :: "digest \<Rightarrow> fact \<Rightarrow> hash256" where
  "merkle_fact_hash H f = H (writer_string ''MerkleFact:v1'' @ encode_fact f)"

definition hash_list_stream :: "hash256 list \<Rightarrow> string \<Rightarrow> bytes" where
  "hash_list_stream hashes label =
     (let sorted = sort_by (\<lambda>l r. to_hex l < to_hex r) hashes
      in writer_string label @ writer_u64 (of_nat (length sorted)) @ concat (map writer_hash sorted))"

definition compute_hash_list_root :: "digest \<Rightarrow> hash256 list \<Rightarrow> string \<Rightarrow> hash256" where
  "compute_hash_list_root H hashes label = H (hash_list_stream hashes label)"

definition compute_fact_id_root :: "digest \<Rightarrow> fact_id list \<Rightarrow> hash256" where
  "compute_fact_id_root H facts = compute_hash_list_root H facts ''FactIdRoot:v1''"

definition name_hash :: "digest \<Rightarrow> string \<Rightarrow> (u32, string) omap \<Rightarrow> u32 \<Rightarrow> hash256" where
  "name_hash H label names i = H (writer_string label @ writer_u32 i @ writer_string (name_or_empty names i))"

definition compute_world_root :: "digest \<Rightarrow> world_snapshot \<Rightarrow> world_root" where
  "compute_world_root H s =
     (let object_root = compute_hash_list_root H (map (object_hash H) (sn_objects s)) ''ObjectRoot:v1'';
          pointer_root = compute_hash_list_root H (map (pointer_hash H) (sn_pointers s)) ''PointerRoot:v1'';
          fact_root = compute_hash_list_root H (map (merkle_fact_hash H) (fact_store_from_snapshot H s)) ''FactRoot:v1'';
          type_root = compute_hash_list_root H
            (map (name_hash H ''MerkleType:v1'' (sn_type_names s)) (used_ids (map os_type (sn_objects s)))) ''TypeRoot:v1'';
          relation_root = compute_hash_list_root H
            (map (name_hash H ''MerkleRelation:v1'' (sn_relation_names s)) (used_ids (map ps_relation (sn_pointers s))))
            ''RelationRoot:v1''
      in \<lparr>wr_root = H (writer_string ''WorldRoot:v1'' @ writer_hash object_root @ writer_hash pointer_root
             @ writer_hash fact_root @ writer_hash type_root @ writer_hash relation_root @ writer_u64 (sn_epoch s)),
          wr_object_root = object_root, wr_pointer_root = pointer_root, wr_fact_root = fact_root,
          wr_type_root = type_root, wr_relation_root = relation_root\<rparr>)"

section \<open>Roots do not depend on the order\<close>

lemma sorted_hex: "sorted (map to_hex (sort_by (\<lambda>l r. to_hex l < to_hex r) hs))"
proof -
  have "sorted_wrt (\<lambda>x y. \<not> to_hex y < to_hex x) (sort_by (\<lambda>l r. to_hex l < to_hex r) hs)"
    by (rule sorted_sort_by) auto
  then show ?thesis by (simp add: sorted_map not_less)
qed

lemma sort_hex_perm:
  assumes "mset gs = mset hs"
  shows "sort_by (\<lambda>l r. to_hex l < to_hex r) gs = sort_by (\<lambda>l r. to_hex l < to_hex r) hs"
proof -
  let ?s = "sort_by (\<lambda>l r. to_hex l < to_hex r)"
  have same: "mset (map to_hex (?s gs)) = mset (map to_hex (?s hs))" using assms by simp
  have "map to_hex (?s gs) = map to_hex (?s hs)"
    using properties_for_sort [OF same sorted_hex] properties_for_sort [OF refl sorted_hex, of hs] by simp
  moreover have "inj to_hex" by (rule injI) simp
  ultimately show ?thesis by (simp only: inj_map_eq_map)
qed

lemma compute_hash_list_root_perm:
  "mset gs = mset hs \<Longrightarrow> compute_hash_list_root H gs label = compute_hash_list_root H hs label"
  using sort_hex_perm [of gs hs] by (simp add: compute_hash_list_root_def hash_list_stream_def)

lemma compute_hash_list_root_map_perm:
  "mset xs = mset ys \<Longrightarrow> compute_hash_list_root H (map f xs) label = compute_hash_list_root H (map f ys) label"
  by (rule compute_hash_list_root_perm) simp

text \<open>
  Unless the digest collides on the two streams that are hashed, a root determines the multiset of
  the hashes it sums up.
\<close>

lemma concat_hashes_inj:
  "length gs = length hs \<Longrightarrow> concat (map writer_hash gs) = concat (map writer_hash hs) \<Longrightarrow> gs = hs"
  by (induction gs hs rule: list_induct2) (simp_all add: writer_hash_def)

lemma compute_hash_list_root_inj:
  assumes inj: "inj_on H {hash_list_stream gs label, hash_list_stream hs label}"
    and label: "size_ok label" and "size_ok gs" and "size_ok hs"
    and root: "compute_hash_list_root H gs label = compute_hash_list_root H hs label"
  shows "mset gs = mset hs"
proof -
  let ?s = "sort_by (\<lambda>l r. to_hex l < to_hex r)"
  have eq: "writer_u64 (of_nat (length (?s gs))) @ concat (map writer_hash (?s gs))
      = writer_u64 (of_nat (length (?s hs))) @ concat (map writer_hash (?s hs))"
    using inj_onD [OF inj root [unfolded compute_hash_list_root_def]]
    by (simp add: hash_list_stream_def Let_def)
  have "(of_nat (length (?s gs)) :: u64) = of_nat (length (?s hs))
      \<and> concat (map writer_hash (?s gs)) = concat (map writer_hash (?s hs))"
    using u64c.prefix_free [OF TrueI TrueI eq] by simp
  moreover from this have "unat (of_nat (length gs) :: u64) = unat (of_nat (length hs) :: u64)" by simp
  then have "length gs = length hs" using assms(3,4) by (simp add: size_ok_def unat_of_nat)
  ultimately have "?s gs = ?s hs" by (intro concat_hashes_inj) auto
  then show ?thesis by (metis mset_sort_by)
qed

lemma compute_world_root_equiv:
  assumes equiv: "snapshot_equiv s t" and "distinct (map os_id (sn_objects s))" and "distinct (map ps_id (sn_pointers s))"
  shows "compute_world_root H s = compute_world_root H t"
proof -
  note e = equiv [unfolded snapshot_equiv_def]
  have sets: "set (sn_objects s) = set (sn_objects t)" "set (sn_pointers s) = set (sn_pointers t)"
    using e by (metis set_mset_mset)+
  have roots: "compute_hash_list_root H (map f (sn_objects s)) l = compute_hash_list_root H (map f (sn_objects t)) l"
    "compute_hash_list_root H (map g (sn_pointers s)) l = compute_hash_list_root H (map g (sn_pointers t)) l" for f g l
    using e by (auto intro: compute_hash_list_root_map_perm)
  have facts: "derive_facts H s = derive_facts H t"
    using e assms by (intro derive_facts_perm) auto
  have "used_ids (map os_type (sn_objects s)) = used_ids (map os_type (sn_objects t))"
    "used_ids (map ps_relation (sn_pointers s)) = used_ids (map ps_relation (sn_pointers t))"
    using sets by (simp_all add: used_ids_set)
  moreover have "map (name_hash H l (sn_type_names s)) (used_ids (map os_type (sn_objects t)))
      = map (name_hash H l (sn_type_names t)) (used_ids (map os_type (sn_objects t)))" for l
    using e sets by (auto simp: name_hash_def)
  moreover have "map (name_hash H l (sn_relation_names s)) (used_ids (map ps_relation (sn_pointers t)))
      = map (name_hash H l (sn_relation_names t)) (used_ids (map ps_relation (sn_pointers t)))" for l
    using e sets by (auto simp: name_hash_def)
  ultimately show ?thesis
    using e by (simp only: compute_world_root_def roots facts fact_store_from_snapshot_def)
qed

end
