(* ===== verification/Simulation.thy ===== *)
theory Simulation
  imports World_Inv Merkle
begin

text \<open>
  The overlay predicts the world.  \<open>SnapshotOverlay::apply\<close> and \<open>World::apply_delta_unchecked\<close> are two
  implementations of the same transition, the first on a snapshot, the second on the live world.
  The relation \<open>sim\<close> ties the state of one loop to that of the other; a step that both accept keeps
  it, so the snapshot the overlay returns and the snapshot of the resulting world agree on
  everything a canonical hash or a Merkle root sees.
\<close>

section \<open>Snapshots that agree\<close>

text \<open>
  Two snapshots agree when they list the same objects, pointers and facts and give every identifier
  the same name, an undeclared identifier counting as an empty name.
\<close>

definition agree :: "world_snapshot \<Rightarrow> world_snapshot \<Rightarrow> bool" where
  "agree s t = (sn_world s = sn_world t \<and> sn_world_name s = sn_world_name t \<and> sn_epoch s = sn_epoch t
     \<and> sn_objects s = sn_objects t \<and> sn_pointers s = sn_pointers t \<and> sn_facts s = sn_facts t
     \<and> (\<forall>i. name_or_empty (sn_type_names s) i = name_or_empty (sn_type_names t) i)
     \<and> (\<forall>r. name_or_empty (sn_relation_names s) r = name_or_empty (sn_relation_names t) r))"

lemma agree_encode:
  assumes "agree s t"
  shows "encode_world_snapshot H s = encode_world_snapshot H t"
proof -
  note a = assms [unfolded agree_def]
  have "snapshot_facts H s = snapshot_facts H t"
    using a derive_facts_cong [of s t H] by (simp add: snapshot_facts_def)
  moreover have "used_names (sn_type_names s) ids = used_names (sn_type_names t) ids"
    "used_names (sn_relation_names s) ids = used_names (sn_relation_names t) ids" for ids
    using a by (auto intro: used_names_cong)
  ultimately show ?thesis using a by (simp add: encode_world_snapshot_def)
qed

lemma agree_hash: "agree s t \<Longrightarrow> canonical_hash H s = canonical_hash H t"
  by (simp add: canonical_hash_def agree_encode)

lemma agree_root:
  assumes "agree s t"
  shows "compute_world_root H s = compute_world_root H t"
proof -
  note a = assms [unfolded agree_def]
  have "derive_facts H s = derive_facts H t" using a by (intro derive_facts_cong) simp_all
  moreover have "name_hash H l (sn_type_names s) i = name_hash H l (sn_type_names t) i"
    "name_hash H l (sn_relation_names s) i = name_hash H l (sn_relation_names t) i" for l i
    using a by (simp_all add: name_hash_def)
  ultimately show ?thesis
    using a unfolding compute_world_root_def fact_store_from_snapshot_def by (simp cong: map_cong)
qed

section \<open>The relation between the two loops\<close>

definition registry_matches :: "(u32, string) omap \<Rightarrow> registry \<Rightarrow> bool" where
  "registry_matches names r = (om_inv names
     \<and> (\<forall>i. name_or_empty names i = slot_name r i) \<and> (\<forall>i. om_contains names i \<longrightarrow> i \<noteq> 0 \<and> unat i \<le> length (rg_names r))
     \<and> om_next_id names = of_nat (length (rg_names r) + 1))"

definition sim :: "overlay_state \<Rightarrow> apply_state \<Rightarrow> bool" where
  "sim st ap = (let out = ov_out st; w = ap_world ap in
     world_ok w
     \<and> sn_world out = w_id w \<and> sn_world_name out = w_name w \<and> sn_epoch out = w_epoch w + 1
     \<and> map clear_counts (sn_objects out) = map object_view (w_objects w)
     \<and> sn_pointers out = map pointer_view (w_pointers w)
     \<and> registry_matches (sn_type_names out) (w_types w)
     \<and> registry_matches (sn_relation_names out) (w_relations w)
     \<and> ov_names st = ob_name ` set (w_objects w)
     \<and> ov_temps st = ap_temps ap
     \<and> ov_next_index st = of_nat (length (w_objects w))
     \<and> ov_next_pointer st = w_next_pointer_id w)"

section \<open>The registries\<close>

lemma om_next_id_put:
  assumes "om_find names i = None"
  shows "om_next_id (om_put i n names) = max (om_next_id names) (i + 1)"
proof -
  have start: "fold (\<lambda>(k, v) next. max next (k + 1)) m (max x y) = max y (fold (\<lambda>(k, v) next. max next (k + 1)) m x)"
    for m :: "(u32, 'b) omap" and x y
  proof (induction m arbitrary: x)
    case (Cons a m)
    have "max (max x y) (fst a + 1) = max (max x (fst a + 1)) y"
      by (simp add: max.assoc max.commute max.left_commute)
    then show ?case using Cons by (simp add: case_prod_unfold)
  qed (simp add: max.commute)
  have "fold (\<lambda>(k, v) next. max next (k + 1)) (om_put i n names) x
      = max (fold (\<lambda>(k, v) next. max next (k + 1)) names x) (i + 1)" for x
    using assms
    by (induction names arbitrary: x) (auto simp: start max.commute max.assoc max.left_commute split: if_splits)
  then show ?thesis by (simp add: om_next_id_def)
qed

lemma matches_has_value:
  assumes m: "registry_matches names r" and inv: "registry_inv r" and "name \<noteq> []"
  shows "om_has_value names name \<longleftrightarrow> registry_find r name \<noteq> None"
proof
  assume "om_has_value names name"
  then obtain i where "(i, name) \<in> set names" by (auto simp: om_has_value_iff)
  with m have "om_find names i = Some name" by (simp add: registry_matches_def om_inv_find)
  then have "name_or_empty names i = name" by (simp add: name_or_empty_def)
  with m have "slot_name r i = name" by (simp add: registry_matches_def)
  with inv \<open>name \<noteq> []\<close> show "registry_find r name \<noteq> None" using registry_find_Some [OF inv] by auto
next
  assume "registry_find r name \<noteq> None"
  then obtain i where "slot_name r i = name" using registry_find_Some [OF inv] by auto
  with m have "name_or_empty names i = name" by (simp add: registry_matches_def)
  with \<open>name \<noteq> []\<close> have "om_find names i = Some name"
    by (cases "om_find names i") (auto simp: name_or_empty_def)
  then show "om_has_value names name" by (force simp: om_has_value_iff dest: om_find_SomeD)
qed

lemma registry_intern_at_length:
  assumes "registry_intern_at i name r = Inr (k, r')" and "registry_find r name = None"
  shows "length (rg_names r') = (if i = 0 then length (rg_names r) + 1 else max (length (rg_names r)) (unat i))"
  using assms
  by (auto simp: registry_intern_at_def registry_intern_def registry_find_def Let_def split: if_splits)

lemma of_nat_max_u32:
  assumes "a < 2 ^ 32" and "b < 2 ^ 32"
  shows "max (of_nat a :: u32) (of_nat b) = of_nat (max a b)"
  using assms by (auto simp: max_def word_le_nat_alt unat_of_nat)

text \<open>Interning a new name in both: the same identifier, the same names.\<close>

lemma matches_intern:
  assumes m: "registry_matches names r" and inv: "registry_inv r"
    and len: "length (rg_names r) + 1 < 2 ^ 32" and len': "length (rg_names r') + 1 < 2 ^ 32"
    and reg: "registry_intern_at i name r = Inr (k, r')" and new: "\<not> om_has_value names name"
    and j: "j = (if i \<noteq> 0 then i else om_next_id names)"
    and free: "om_find names j = None \<or> om_find names j = Some name"
  shows "registry_matches (om_emplace j name names) r'"
proof -
  note P = registry_intern_at_props [OF inv len reg]
  have ne: "name \<noteq> []" by (rule P(4))
  have none: "registry_find r name = None" using matches_has_value [OF m inv ne] new by simp
  have jk: "j = k"
  proof (cases "i = 0")
    case True
    with reg none ne have "k = of_nat (length (rg_names r) + 1)"
      by (auto simp: registry_intern_at_def registry_intern_def registry_find_def Let_def)
    with True m j show ?thesis by (simp add: registry_matches_def)
  next
    case False
    with P(3) j show ?thesis by simp
  qed
  have fr: "om_find names j = None"
    using free new by (auto simp: om_has_value_iff dest!: om_find_SomeD intro: rev_image_eqI)
  have put: "om_emplace j name names = om_put j name names"
    using fr by (simp add: om_emplace_def om_contains_def)
  have inv': "om_inv (om_put j name names)" using m by (simp add: registry_matches_def om_inv_put)
  have names': "name_or_empty (om_put j name names) x = slot_name r' x" for x
    using m P(6) [of x] by (simp add: name_or_empty_def om_find_put jk registry_matches_def)
  have lenr: "length (rg_names r') = max (length (rg_names r)) (unat k)"
  proof (cases "i = 0")
    case True
    with registry_intern_at_length [OF reg none] have "length (rg_names r') = length (rg_names r) + 1" by simp
    moreover have "unat k = length (rg_names r) + 1"
      using True jk j m unat_of_nat_u32 [OF len] by (simp add: registry_matches_def)
    ultimately show ?thesis by simp
  next
    case False
    with registry_intern_at_length [OF reg none] P(3) show ?thesis by simp
  qed
  have zero: "x \<noteq> 0 \<and> unat x \<le> length (rg_names r')" if "om_contains (om_put j name names) x" for x
    using that m P(2) jk lenr by (auto simp: om_contains_def om_find_put registry_matches_def split: if_splits)
  have nid: "om_next_id (om_put j name names) = of_nat (length (rg_names r') + 1)"
  proof -
    have "unat k + 1 < 2 ^ 32" using len' lenr by simp
    moreover have "k + 1 = of_nat (unat k + 1)" by simp
    ultimately have "max (of_nat (length (rg_names r) + 1)) (k + 1) = (of_nat (max (length (rg_names r) + 1) (unat k + 1)) :: u32)"
      using of_nat_max_u32 [OF len, of "unat k + 1"] by (simp only:)
    also have "max (length (rg_names r) + 1) (unat k + 1) = length (rg_names r') + 1" using lenr by simp
    finally show ?thesis using m om_next_id_put [OF fr, of name] by (simp only: jk registry_matches_def)
  qed
  show ?thesis unfolding put registry_matches_def using inv' names' zero nid by blast
qed

text \<open>Interning a name both know changes neither.\<close>

lemma matches_intern_known:
  assumes "registry_inv r" and "registry_intern_at i name r = Inr (k, r')" and "registry_find r name \<noteq> None"
  shows "r' = r"
  using assms by (auto simp: registry_intern_at_def registry_intern_def registry_find_def split: if_splits)

lemma fold_max_upt:
  "n < 2 ^ 32 \<Longrightarrow> fold (\<lambda>k m. max m (of_nat (Suc k) :: u32)) [0..<n] (of_nat c) = of_nat (max c n)"
  if "c < 2 ^ 32"
proof (induction n)
  case 0
  then show ?case by simp
next
  case (Suc n)
  then show ?case using that of_nat_max_u32 [of "max c n" "Suc n"] by (simp del: of_nat_Suc) (simp add: max_def)
qed

lemma matches_table:
  assumes inv: "registry_inv r" and len: "length (rg_names r) + 1 < 2 ^ 32"
  shows "registry_matches (registry_table r) r"
proof -
  have len': "length (rg_names r) < 2 ^ 32" using len by simp
  have "om_next_id (registry_table r) = fold (\<lambda>k m. max m (of_nat (Suc (Suc k)) :: u32)) [0..<length (rg_names r)] (of_nat 1)"
    unfolding registry_table_alt(1) [OF len'] om_next_id_def by (simp add: fold_map comp_def ac_simps)
  also have "\<dots> = fold (\<lambda>k m. max m (of_nat (Suc k) :: u32)) (map Suc [0..<length (rg_names r)]) (of_nat 1)"
    by (simp add: fold_map comp_def)
  also have "map Suc [0..<length (rg_names r)] = [1..<Suc (length (rg_names r))]" by (simp add: map_Suc_upt)
  also have "fold (\<lambda>k m. max m (of_nat (Suc k) :: u32)) [1..<Suc (length (rg_names r))] (of_nat 1)
      = fold (\<lambda>k m. max m (of_nat (Suc k))) [0..<Suc (length (rg_names r))] (of_nat 1)"
    by (simp add: upt_conv_Cons del: upt_Suc)
  also have "\<dots> = of_nat (length (rg_names r) + 1)"
    using fold_max_upt [of 1 "Suc (length (rg_names r))"] len by simp
  finally have "om_next_id (registry_table r) = of_nat (length (rg_names r) + 1)" .
  then show ?thesis
    using registry_table_alt(2) [OF len'] name_or_empty_table [OF len'] find_registry_table [OF len']
    by (auto simp: registry_matches_def om_contains_def)
qed

section \<open>Objects and pointers\<close>

lemma sim_ids:
  assumes "sim st ap"
  shows "map os_id (sn_objects (ov_out st)) = map ob_id (w_objects (ap_world ap))"
proof -
  have "map os_id (map clear_counts (sn_objects (ov_out st))) = map os_id (map object_view (w_objects (ap_world ap)))"
    using assms by (simp add: sim_def Let_def)
  then show ?thesis by (simp add: comp_def clear_counts_def object_view_def)
qed

lemma sim_distinct:
  assumes "sim st ap"
  shows "distinct (map os_id (sn_objects (ov_out st)))"
  using assms sim_ids [OF assms] arena_dense_distinct [of "w_objects (ap_world ap)"]
  by (simp add: sim_def Let_def world_ok_def)

lemma sim_resolve:
  assumes sim: "sim st ap" and "resolve_object ap r = Inr i"
  shows "resolve_ref (ov_out st) (ov_temps st) r = Some i"
proof (cases r)
  case (RefObject x)
  have "arena_contains (w_objects (ap_world ap)) x \<longleftrightarrow> x \<in> ob_id ` set (w_objects (ap_world ap))"
    using sim by (intro arena_contains_mem) (simp_all add: sim_def Let_def world_ok_def)
  moreover have "os_id ` set (sn_objects (ov_out st)) = ob_id ` set (w_objects (ap_world ap))"
    using sim_ids [OF sim] by (metis list.set_map)
  ultimately show ?thesis using assms RefObject
    by (auto simp: resolve_object_def resolve_ref_def snapshot_contains_mem split: if_splits)
next
  case (RefTemp t)
  with assms show ?thesis
    by (auto simp: resolve_object_def resolve_ref_def sim_def Let_def split: if_splits option.splits)
qed

text \<open>Changing an object in both: the same change up to the views.\<close>

lemma sim_update_object:
  assumes sim: "sim st ap" and ov: "overlay_update_object r g st = Inr st'"
    and res: "resolve_object ap r = Inr i" and upd: "arena_update i f (w_objects (ap_world ap)) = Inr objects"
    and ap': "ap_world ap' = (ap_world ap)\<lparr>w_objects := objects\<rparr>" "ap_temps ap' = ap_temps ap"
    and g: "\<And>ob. clear_counts (g ob) = g (clear_counts ob)"
    and fg: "\<And>ob. om_inv (ob_attributes ob) \<Longrightarrow> g (object_view ob) = object_view (f ob)"
    and f: "\<And>ob. ob_id (f ob) = ob_id ob" "\<And>ob. ob_name (f ob) = ob_name ob"
      "\<And>ob. om_inv (ob_attributes ob) \<Longrightarrow> om_inv (ob_attributes (f ob))"
  shows "sim st' ap'"
proof -
  let ?w = "ap_world ap" and ?out = "ov_out st"
  have ok: "world_ok ?w" using sim by (simp add: sim_def Let_def)
  from ov sim_resolve [OF sim res] obtain out' where mut: "mutate_object i g ?out = Some out'" and st': "st' = st\<lparr>ov_out := out'\<rparr>"
    by (auto simp: overlay_update_object_def split: option.splits)
  from mutate_object_Some [OF mut] obtain obs where out': "out' = ?out\<lparr>sn_objects := obs\<rparr>"
    and uf: "update_first (\<lambda>ob. os_id ob = i) g (sn_objects ?out) = Some obs" .
  have obs: "obs = map (\<lambda>x. if os_id x = i then g x else x) (sn_objects ?out)"
    using update_first_distinct [OF sim_distinct [OF sim], of i g] uf by simp
  from upd obtain n where n: "n < length (w_objects ?w)" "ob_id (w_objects ?w ! n) = i"
    "objects = (w_objects ?w)[n := f (w_objects ?w ! n)]" by (rule arena_update_Inr)
  have views: "map clear_counts (sn_objects ?out) = map object_view (w_objects ?w)"
    using sim by (simp add: sim_def Let_def)
  have "map clear_counts obs = map (\<lambda>x. if os_id x = i then g x else x) (map clear_counts (sn_objects ?out))"
    unfolding obs by (simp add: g) (simp add: clear_counts_def)
  also have "\<dots> = map object_view objects"
    unfolding views
  proof (rule nth_equalityI)
    show "length (map (\<lambda>x. if os_id x = i then g x else x) (map object_view (w_objects ?w))) = length (map object_view objects)"
      by (simp add: n)
    fix m
    assume "m < length (map (\<lambda>x. if os_id x = i then g x else x) (map object_view (w_objects ?w)))"
    then have m: "m < length (w_objects ?w)" by simp
    have "ob_id (w_objects ?w ! m) = i \<longleftrightarrow> m = n"
      using arena_dense_index [OF _ _ m n(1)] n(2) ok by (auto simp: world_ok_def)
    moreover have "om_inv (ob_attributes (w_objects ?w ! m))"
      using ok m by (simp add: world_ok_def list_all_length)
    moreover have "os_id (object_view ob) = ob_id ob" for ob by (simp add: object_view_def)
    ultimately show "map (\<lambda>x. if os_id x = i then g x else x) (map object_view (w_objects ?w)) ! m = map object_view objects ! m"
      using m fg [of "w_objects ?w ! m"] by (auto simp: n(3) nth_list_update)
  qed
  finally have views': "map clear_counts obs = map object_view objects" .
  have ok': "world_ok (?w\<lparr>w_objects := objects\<rparr>)" by (rule world_ok_replace_object(1) [OF ok upd f])
  have "map ob_name objects = map ob_name (w_objects ?w)"
    using n f(2) by (simp add: map_update list_update_same_conv)
  then have "ob_name ` set objects = ob_name ` set (w_objects ?w)" by (metis list.set_map)
  moreover have "length objects = length (w_objects ?w)" by (simp add: n)
  ultimately show ?thesis
    using sim ok' views' by (simp add: sim_def Let_def st' out' ap')
qed

lemma sim_update_pointer:
  assumes sim: "sim st ap" and ov: "overlay_update_pointer i g st = Inr st'"
    and upd: "update_first (\<lambda>p. pe_id p = i) f (w_pointers (ap_world ap)) = Some ps"
    and ap': "ap_world ap' = (ap_world ap)\<lparr>w_pointers := ps\<rparr>" "ap_temps ap' = ap_temps ap"
    and fg: "\<And>p. om_inv (pe_attributes p) \<Longrightarrow> g (pointer_view p) = pointer_view (f p)"
    and f: "\<And>p. pe_id (f p) = pe_id p" "\<And>p. om_inv (pe_attributes p) \<Longrightarrow> om_inv (pe_attributes (f p))"
  shows "sim st' ap'"
proof -
  let ?w = "ap_world ap"
  have ok: "world_ok ?w" using sim by (simp add: sim_def Let_def)
  have views: "sn_pointers (ov_out st) = map pointer_view (w_pointers ?w)" using sim by (simp add: sim_def Let_def)
  from ov obtain out' where mut: "mutate_pointer i g (ov_out st) = Some out'" and st': "st' = st\<lparr>ov_out := out'\<rparr>"
    by (auto simp: overlay_update_pointer_def split: option.splits)
  from mutate_pointer_Some [OF mut] obtain qs where out': "out' = (ov_out st)\<lparr>sn_pointers := qs\<rparr>"
    and uf: "update_first (\<lambda>p. ps_id p = i) g (sn_pointers (ov_out st)) = Some qs" .
  have inv: "\<And>p. p \<in> set (w_pointers ?w) \<Longrightarrow> om_inv (pe_attributes p)"
    using ok by (simp add: world_ok_def list_all_iff)
  have "update_first (\<lambda>p. ps_id p = i) g (map pointer_view (w_pointers ?w))
      = map_option (map pointer_view) (update_first (\<lambda>p. pe_id p = i) f (w_pointers ?w))"
    by (rule update_first_cong) (simp_all add: pointer_view_def [of _, THEN arg_cong [where f = ps_id]] fg inv)
  with uf upd views have qs: "qs = map pointer_view ps" by simp
  have "world_ok (?w\<lparr>w_pointers := ps\<rparr>)" by (rule world_ok_replace_pointers(1) [OF ok upd f])
  with sim qs show ?thesis by (simp add: sim_def Let_def st' out' ap')
qed

section \<open>The steps\<close>

text \<open>
  What the operations of a delta must not do for the two implementations to coincide: list an
  attribute key twice in a create (the overlay keeps both entries, the world the last) and intern at
  the last 32-bit identifier.
\<close>

definition operation_clean :: "operation \<Rightarrow> bool" where
  "operation_clean op = (case op_body op of
       CreateObject c \<Rightarrow> distinct (map fst (co_attributes c))
     | CreatePointer c \<Rightarrow> distinct (map fst (cp_attributes c))
     | _ \<Rightarrow> True)"

lemma sim_create_object:
  assumes sim: "sim st ap" and room: "step_room (ap_world ap)" and clean: "distinct (map fst (co_attributes c))"
    and ov: "overlay_create_object c st = Inr st'" and ap: "apply_create_object c ap = Inr ap'"
  shows "sim st' ap'"
proof -
  let ?w = "ap_world ap"
  have ok: "world_ok ?w" using sim by (simp add: sim_def Let_def)
  then have "length (w_objects ?w) < 2 ^ 32" by (simp add: world_ok_def)
  with ap obtain i ob where i: "i = ObjectId (of_nat (length (w_objects ?w))) 1"
    and new: "co_name c \<notin> fst ` set (w_object_names ?w)"
    and ob: "ob = \<lparr>ob_id = i, ob_name = co_name c, ob_type = co_type c, ob_existence = co_existence c,
               ob_attributes = fold (\<lambda>(k, v). om_put k v) (co_attributes c) []\<rparr>"
    and w': "ap_world ap' = ?w\<lparr>w_objects := w_objects ?w @ [ob],
           w_object_names := om_emplace (co_name c) i (w_object_names ?w)\<rparr>"
    and ts: "ap_temps ap' = om_emplace (co_temp c) i (ap_temps ap)"
    by (rule apply_create_object_Inr)
  from ov have st': "st' = st\<lparr>ov_out := (ov_out st)\<lparr>sn_objects := sn_objects (ov_out st) @
        [\<lparr>os_id = ObjectId (ov_next_index st) 1, os_name = co_name c, os_type = co_type c, os_existence = co_existence c,
          os_attributes = sort_attributes (co_attributes c), os_incoming = 0, os_outgoing = 0\<rparr>]\<rparr>,
      ov_seen_temps := insert (co_temp c) (ov_seen_temps st), ov_names := insert (co_name c) (ov_names st),
      ov_temps := om_emplace (co_temp c) (ObjectId (ov_next_index st) 1) (ov_temps st),
      ov_next_index := ov_next_index st + 1\<rparr>"
    by (auto simp: overlay_create_object_def Let_def split: if_splits)
  have idx: "ov_next_index st = of_nat (length (w_objects ?w))" using sim by (simp add: sim_def Let_def)
  have inv: "om_inv (ob_attributes ob)" by (simp add: ob)
  have view: "object_view ob = \<lparr>os_id = i, os_name = co_name c, os_type = co_type c, os_existence = co_existence c,
      os_attributes = sort_attributes (co_attributes c), os_incoming = 0, os_outgoing = 0\<rparr>"
    using sort_attributes_om [of "ob_attributes ob"] fold_put_distinct [OF clean] inv
    by (simp add: object_view_def ob)
  have "world_ok (ap_world ap')"
    using world_ok_create_object [OF ok, of ob] room inv new by (simp add: w' ob i step_room_def)
  then show ?thesis
    using sim by (simp add: sim_def Let_def st' w' ts idx i [symmetric] view) (simp add: clear_counts_def ob i)
qed

lemma sim_create_pointer:
  assumes sim: "sim st ap" and room: "step_room (ap_world ap)" and clean: "distinct (map fst (cp_attributes c))"
    and ov: "overlay_create_pointer c st = Inr st'" and ap: "apply_create_pointer c ap = Inr ap'"
  shows "sim st' ap'"
proof -
  let ?w = "ap_world ap"
  have ok: "world_ok ?w" using sim by (simp add: sim_def Let_def)
  from ap obtain f t edge where ft: "resolve_object ap (cp_from c) = Inr f" "resolve_object ap (cp_to c) = Inr t"
    and edge: "edge = \<lparr>pe_id = w_next_pointer_id ?w, pe_from = f, pe_to = t, pe_relation = cp_relation c,
       pe_role = cp_role c, pe_weight = cp_weight c, pe_born = w_epoch ?w + 1, pe_expires = None,
       pe_law_domain = (if cp_law_domain c = [] then ''core'' else cp_law_domain c),
       pe_attributes = fold (\<lambda>(k, v). om_put k v) (cp_attributes c) []\<rparr>"
    and w': "ap_world ap' = ?w\<lparr>w_pointers := w_pointers ?w @ [edge], w_next_pointer_id := w_next_pointer_id ?w + 1\<rparr>"
    and ts: "ap_temps ap' = ap_temps ap"
    by (rule apply_create_pointer_Inr)
  have refs: "resolve_ref (ov_out st) (ov_temps st) (cp_from c) = Some f"
    "resolve_ref (ov_out st) (ov_temps st) (cp_to c) = Some t" using sim_resolve [OF sim] ft by blast+
  have np: "ov_next_pointer st = w_next_pointer_id ?w" and ep: "sn_epoch (ov_out st) = w_epoch ?w + 1"
    using sim by (simp_all add: sim_def Let_def)
  have inv: "om_inv (pe_attributes edge)" by (simp add: edge)
  have "pointer_view edge = \<lparr>ps_id = ov_next_pointer st, ps_from = f, ps_to = t, ps_relation = cp_relation c,
      ps_role = cp_role c, ps_weight = cp_weight c, ps_born = sn_epoch (ov_out st), ps_expires = None,
      ps_law_domain = (if cp_law_domain c = [] then ''core'' else cp_law_domain c),
      ps_attributes = sort_attributes (cp_attributes c)\<rparr>"
    using sort_attributes_om [of "pe_attributes edge"] fold_put_distinct [OF clean] inv
    by (simp add: pointer_view_def edge np ep)
  with ov refs have st': "st' = st\<lparr>ov_out := (ov_out st)\<lparr>sn_pointers := sn_pointers (ov_out st) @ [pointer_view edge]\<rparr>,
      ov_next_pointer := ov_next_pointer st + 1\<rparr>"
    by (simp add: overlay_create_pointer_def Let_def split: if_splits)
  have "world_ok (ap_world ap')"
    using world_ok_create_pointer [OF ok, of edge] room inv by (simp add: w' edge step_room_def)
  then show ?thesis using sim np by (simp add: sim_def Let_def st' w' ts)
qed

lemma sim_intern_type:
  assumes sim: "sim st ap" and room: "step_room (ap_world ap)" and room': "step_room (ap_world ap')"
    and ov: "overlay_intern_type name i st = Inr st'"
    and reg: "registry_intern_at i name (w_types (ap_world ap)) = Inr (k, r)"
    and ap': "ap_world ap' = (ap_world ap)\<lparr>w_types := r\<rparr>" "ap_temps ap' = ap_temps ap"
  shows "sim st' ap'"
proof -
  let ?w = "ap_world ap" and ?out = "ov_out st"
  have inv: "registry_inv (w_types ?w)" and m: "registry_matches (sn_type_names ?out) (w_types ?w)"
    using sim by (simp_all add: sim_def Let_def world_ok_def)
  have len: "length (rg_names (w_types ?w)) + 1 < 2 ^ 32" "length (rg_names r) + 1 < 2 ^ 32"
    using room room' ap' by (simp_all add: step_room_def)
  note P = registry_intern_at_props [OF inv len(1) reg]
  have sim': "sim (st\<lparr>ov_out := ?out\<lparr>sn_type_names := names\<rparr>\<rparr>) ap'" if "registry_matches names r" for names
    using sim that P(1) by (simp add: sim_def Let_def ap' world_ok_def)
  show ?thesis
  proof (cases "has_type_name ?out name")
    case True
    then have "registry_find (w_types ?w) name \<noteq> None"
      using matches_has_value [OF m inv P(4)] by (simp add: has_type_name_def)
    then have "r = w_types ?w" by (rule matches_intern_known [OF inv reg])
    moreover have "st' = st" using True ov P(4) by (simp add: overlay_intern_type_def Let_def)
    ultimately show ?thesis using sim' [of "sn_type_names ?out"] m by simp
  next
    case False
    let ?j = "if i \<noteq> 0 then i else om_next_id (sn_type_names ?out)"
    have free: "om_find (sn_type_names ?out) ?j = None \<or> om_find (sn_type_names ?out) ?j = Some name"
      and st': "st' = st\<lparr>ov_out := ?out\<lparr>sn_type_names := om_emplace ?j name (sn_type_names ?out)\<rparr>\<rparr>"
      using ov False P(4) by (auto simp: overlay_intern_type_def Let_def next_type_value_def split: option.splits if_splits)
    have "registry_matches (om_emplace ?j name (sn_type_names ?out)) r"
      by (rule matches_intern [OF m inv len reg _ refl free]) (use False in \<open>simp add: has_type_name_def\<close>)
    from sim' [OF this] show ?thesis by (simp only: st')
  qed
qed

lemma sim_intern_relation:
  assumes sim: "sim st ap" and room: "step_room (ap_world ap)" and room': "step_room (ap_world ap')"
    and ov: "overlay_intern_relation name i st = Inr st'"
    and reg: "registry_intern_at i name (w_relations (ap_world ap)) = Inr (k, r)"
    and ap': "ap_world ap' = (ap_world ap)\<lparr>w_relations := r\<rparr>" "ap_temps ap' = ap_temps ap"
  shows "sim st' ap'"
proof -
  let ?w = "ap_world ap" and ?out = "ov_out st"
  have inv: "registry_inv (w_relations ?w)" and m: "registry_matches (sn_relation_names ?out) (w_relations ?w)"
    using sim by (simp_all add: sim_def Let_def world_ok_def)
  have len: "length (rg_names (w_relations ?w)) + 1 < 2 ^ 32" "length (rg_names r) + 1 < 2 ^ 32"
    using room room' ap' by (simp_all add: step_room_def)
  note P = registry_intern_at_props [OF inv len(1) reg]
  have sim': "sim (st\<lparr>ov_out := ?out\<lparr>sn_relation_names := names\<rparr>\<rparr>) ap'" if "registry_matches names r" for names
    using sim that P(1) by (simp add: sim_def Let_def ap' world_ok_def)
  show ?thesis
  proof (cases "has_relation_name ?out name")
    case True
    then have "registry_find (w_relations ?w) name \<noteq> None"
      using matches_has_value [OF m inv P(4)] by (simp add: has_relation_name_def)
    then have "r = w_relations ?w" by (rule matches_intern_known [OF inv reg])
    moreover have "st' = st" using True ov P(4) by (simp add: overlay_intern_relation_def Let_def)
    ultimately show ?thesis using sim' [of "sn_relation_names ?out"] m by simp
  next
    case False
    let ?j = "if i \<noteq> 0 then i else om_next_id (sn_relation_names ?out)"
    have free: "om_find (sn_relation_names ?out) ?j = None \<or> om_find (sn_relation_names ?out) ?j = Some name"
      and st': "st' = st\<lparr>ov_out := ?out\<lparr>sn_relation_names := om_emplace ?j name (sn_relation_names ?out)\<rparr>\<rparr>"
      using ov False P(4)
      by (auto simp: overlay_intern_relation_def Let_def next_relation_value_def split: option.splits if_splits)
    have "registry_matches (om_emplace ?j name (sn_relation_names ?out)) r"
      by (rule matches_intern [OF m inv len reg _ refl free]) (use False in \<open>simp add: has_relation_name_def\<close>)
    from sim' [OF this] show ?thesis by (simp only: st')
  qed
qed

lemma view_commutes:
  "om_inv (ob_attributes ob) \<Longrightarrow>
     (object_view ob)\<lparr>os_attributes := set_attribute a (os_attributes (object_view ob))\<rparr>
       = object_view (ob\<lparr>ob_attributes := om_put (fst a) (snd a) (ob_attributes ob)\<rparr>)"
  "om_inv (ob_attributes ob) \<Longrightarrow>
     (object_view ob)\<lparr>os_attributes := remove_attribute k (os_attributes (object_view ob))\<rparr>
       = object_view (ob\<lparr>ob_attributes := om_erase k (ob_attributes ob)\<rparr>)"
  "om_inv (pe_attributes p) \<Longrightarrow>
     (pointer_view p)\<lparr>ps_attributes := set_attribute a (ps_attributes (pointer_view p))\<rparr>
       = pointer_view (p\<lparr>pe_attributes := om_put (fst a) (snd a) (pe_attributes p)\<rparr>)"
  "om_inv (pe_attributes p) \<Longrightarrow>
     (pointer_view p)\<lparr>ps_attributes := remove_attribute k (ps_attributes (pointer_view p))\<rparr>
       = pointer_view (p\<lparr>pe_attributes := om_erase k (pe_attributes p)\<rparr>)"
  by (simp_all add: object_view_def pointer_view_def sort_attributes_om om_inv_put om_inv_erase
      set_attribute_om_put remove_attribute_om_erase)

lemma sim_step:
  assumes sim: "sim st ap" and room: "step_room (ap_world ap)" "step_room (ap_world ap')"
    and clean: "operation_clean op"
    and ov: "overlay_step H st op = Inr st'" and ap: "apply_step H ap op = Inr ap'"
  shows "sim st' ap'"
proof (cases "op_body op")
  case (InternType name i)
  with ap obtain k r where "registry_intern_at i name (w_types (ap_world ap)) = Inr (k, r)"
    "ap' = ap\<lparr>ap_world := (ap_world ap)\<lparr>w_types := r\<rparr>\<rparr>"
    by (auto simp: apply_step_def Let_def res_bind_Inr_iff)
  then show ?thesis using ov InternType by (intro sim_intern_type [OF sim room]) (auto simp: overlay_step_def)
next
  case (InternRelation name i)
  with ap obtain k r where "registry_intern_at i name (w_relations (ap_world ap)) = Inr (k, r)"
    "ap' = ap\<lparr>ap_world := (ap_world ap)\<lparr>w_relations := r\<rparr>\<rparr>"
    by (auto simp: apply_step_def Let_def res_bind_Inr_iff)
  then show ?thesis using ov InternRelation
    by (intro sim_intern_relation [OF sim room]) (auto simp: overlay_step_def)
next
  case (CreateObject c)
  then show ?thesis using sim_create_object [OF sim room(1)] clean ov ap
    by (simp add: operation_clean_def overlay_step_def apply_step_def Let_def)
next
  case (CreatePointer c)
  then show ?thesis using sim_create_pointer [OF sim room(1)] clean ov ap
    by (simp add: operation_clean_def overlay_step_def apply_step_def Let_def)
next
  case (SetObjectType r t)
  with ap have "apply_update_object (\<lambda>i. arena_set_type i t) r ap = Inr ap'" by (simp add: apply_step_def Let_def)
  then obtain i objects where i: "resolve_object ap r = Inr i" "arena_set_type i t (w_objects (ap_world ap)) = Inr objects"
    "ap_world ap' = (ap_world ap)\<lparr>w_objects := objects\<rparr>" "ap_temps ap' = ap_temps ap" by (rule apply_update_object_Inr)
  have ov': "overlay_update_object r (\<lambda>ob. ob\<lparr>os_type := t\<rparr>) st = Inr st'"
    using ov SetObjectType by (simp add: overlay_step_def split: if_splits)
  have "arena_update i (\<lambda>ob. ob\<lparr>ob_type := t\<rparr>) (w_objects (ap_world ap)) = Inr objects"
    using i(2) by (simp add: arena_set_type_def split: if_splits)
  from sim_update_object [OF sim ov' i(1) this i(3,4)] show ?thesis by (simp add: clear_counts_def object_view_def)
next
  case (SetObjectExistence r e)
  with ap have "apply_update_object (\<lambda>i. arena_set_existence i e) r ap = Inr ap'" by (simp add: apply_step_def Let_def)
  then obtain i objects where i: "resolve_object ap r = Inr i" "arena_set_existence i e (w_objects (ap_world ap)) = Inr objects"
    "ap_world ap' = (ap_world ap)\<lparr>w_objects := objects\<rparr>" "ap_temps ap' = ap_temps ap" by (rule apply_update_object_Inr)
  have ov': "overlay_update_object r (\<lambda>ob. ob\<lparr>os_existence := e\<rparr>) st = Inr st'"
    using ov SetObjectExistence by (simp add: overlay_step_def)
  have "arena_update i (\<lambda>ob. ob\<lparr>ob_existence := e\<rparr>) (w_objects (ap_world ap)) = Inr objects"
    using i(2) by (simp add: arena_set_existence_def)
  from sim_update_object [OF sim ov' i(1) this i(3,4)] show ?thesis by (simp add: clear_counts_def object_view_def)
next
  case (SetObjectAttribute r a)
  with ap have "apply_object_attribute ''object.attribute.set'' (fst a) (om_put (fst a) (snd a)) r ap = Inr ap'"
    by (simp add: apply_step_def Let_def)
  then obtain i objects where i: "resolve_object ap r = Inr i"
    "arena_update i (\<lambda>ob. ob\<lparr>ob_attributes := om_put (fst a) (snd a) (ob_attributes ob)\<rparr>) (w_objects (ap_world ap)) = Inr objects"
    "ap_world ap' = (ap_world ap)\<lparr>w_objects := objects\<rparr>" "ap_temps ap' = ap_temps ap" by (rule apply_object_attribute_Inr)
  have ov': "overlay_update_object r (\<lambda>ob. ob\<lparr>os_attributes := set_attribute a (os_attributes ob)\<rparr>) st = Inr st'"
    using ov SetObjectAttribute by (simp add: overlay_step_def)
  show ?thesis
    by (rule sim_update_object [OF sim ov' i]) (simp_all add: view_commutes om_inv_put, simp add: clear_counts_def)
next
  case (RemoveObjectAttribute r k)
  with ap have "apply_object_attribute ''object.attribute.remove'' k (om_erase k) r ap = Inr ap'"
    by (simp add: apply_step_def Let_def)
  then obtain i objects where i: "resolve_object ap r = Inr i"
    "arena_update i (\<lambda>ob. ob\<lparr>ob_attributes := om_erase k (ob_attributes ob)\<rparr>) (w_objects (ap_world ap)) = Inr objects"
    "ap_world ap' = (ap_world ap)\<lparr>w_objects := objects\<rparr>" "ap_temps ap' = ap_temps ap" by (rule apply_object_attribute_Inr)
  have ov': "overlay_update_object r (\<lambda>ob. ob\<lparr>os_attributes := remove_attribute k (os_attributes ob)\<rparr>) st = Inr st'"
    using ov RemoveObjectAttribute by (simp add: overlay_step_def)
  show ?thesis
    by (rule sim_update_object [OF sim ov' i]) (simp_all add: view_commutes om_inv_erase, simp add: clear_counts_def)
next
  case (ExpirePointer i)
  from sim have ep: "sn_epoch (ov_out st) = w_epoch (ap_world ap) + 1" by (simp add: sim_def Let_def)
  from ap ExpirePointer obtain ps where ps: "update_first (\<lambda>p. pe_id p = i)
        (\<lambda>p. p\<lparr>pe_expires := Some (w_epoch (ap_world ap) + 1)\<rparr>) (w_pointers (ap_world ap)) = Some ps"
    "ap_world ap' = (ap_world ap)\<lparr>w_pointers := ps\<rparr>" "ap_temps ap' = ap_temps ap"
    by (auto simp: apply_step_def Let_def elim: apply_update_pointer_Inr)
  have ov': "overlay_update_pointer i (\<lambda>p. p\<lparr>ps_expires := Some (sn_epoch (ov_out st))\<rparr>) st = Inr st'"
    using ov ExpirePointer by (simp add: overlay_step_def)
  show ?thesis by (rule sim_update_pointer [OF sim ov' ps]) (simp_all add: pointer_view_def ep)
next
  case (SetPointerWeight i x)
  from ap SetPointerWeight obtain ps where ps: "update_first (\<lambda>p. pe_id p = i)
        (\<lambda>p. p\<lparr>pe_weight := x\<rparr>) (w_pointers (ap_world ap)) = Some ps"
    "ap_world ap' = (ap_world ap)\<lparr>w_pointers := ps\<rparr>" "ap_temps ap' = ap_temps ap"
    by (auto simp: apply_step_def Let_def elim: apply_update_pointer_Inr)
  have ov': "overlay_update_pointer i (\<lambda>p. p\<lparr>ps_weight := x\<rparr>) st = Inr st'"
    using ov SetPointerWeight by (simp add: overlay_step_def)
  show ?thesis by (rule sim_update_pointer [OF sim ov' ps]) (simp_all add: pointer_view_def)
next
  case (SetPointerAttribute i a)
  from ap SetPointerAttribute obtain ps where ps: "update_first (\<lambda>p. pe_id p = i)
        (\<lambda>p. p\<lparr>pe_attributes := om_put (fst a) (snd a) (pe_attributes p)\<rparr>) (w_pointers (ap_world ap)) = Some ps"
    "ap_world ap' = (ap_world ap)\<lparr>w_pointers := ps\<rparr>" "ap_temps ap' = ap_temps ap"
    by (auto simp: apply_step_def Let_def elim: apply_update_pointer_Inr)
  have ov': "overlay_update_pointer i (\<lambda>p. p\<lparr>ps_attributes := set_attribute a (ps_attributes p)\<rparr>) st = Inr st'"
    using ov SetPointerAttribute by (simp add: overlay_step_def)
  show ?thesis by (rule sim_update_pointer [OF sim ov' ps]) (simp_all add: view_commutes om_inv_put)
next
  case (RemovePointerAttribute i k)
  from ap RemovePointerAttribute obtain ps where ps: "update_first (\<lambda>p. pe_id p = i)
        (\<lambda>p. p\<lparr>pe_attributes := om_erase k (pe_attributes p)\<rparr>) (w_pointers (ap_world ap)) = Some ps"
    "ap_world ap' = (ap_world ap)\<lparr>w_pointers := ps\<rparr>" "ap_temps ap' = ap_temps ap"
    by (auto simp: apply_step_def Let_def elim: apply_update_pointer_Inr)
  have ov': "overlay_update_pointer i (\<lambda>p. p\<lparr>ps_attributes := remove_attribute k (ps_attributes p)\<rparr>) st = Inr st'"
    using ov RemovePointerAttribute by (simp add: overlay_step_def)
  show ?thesis by (rule sim_update_pointer [OF sim ov' ps]) (simp_all add: view_commutes om_inv_erase)
next
  case (EmitEvent e)
  with sim ov ap show ?thesis by (simp add: overlay_step_def apply_step_def Let_def) (auto simp: sim_def Let_def)
qed (use sim ov ap in \<open>auto simp: overlay_step_def apply_step_def Let_def res_bind_Inr_iff split: if_splits\<close>)

section \<open>Room for a delta\<close>

definition world_room :: "nat \<Rightarrow> world \<Rightarrow> bool" where
  "world_room n w = (length (w_objects w) + n + 1 < 2 ^ 32 \<and> unat (w_next_pointer_id w) + n + 1 < 2 ^ 64
     \<and> length (rg_names (w_types w)) + n + 1 < 2 ^ 32 \<and> length (rg_names (w_relations w)) + n + 1 < 2 ^ 32)"

definition operation_room :: "nat \<Rightarrow> operation \<Rightarrow> bool" where
  "operation_room n op = (case op_body op of
       InternType _ i \<Rightarrow> unat i + n + 1 < 2 ^ 32 | InternRelation _ i \<Rightarrow> unat i + n + 1 < 2 ^ 32 | _ \<Rightarrow> True)"

definition delta_room :: "world \<Rightarrow> delta \<Rightarrow> bool" where
  "delta_room w d = (world_room (length d) w \<and> list_all (operation_room (length d)) d)"

lemma world_room_step: "world_room n w \<Longrightarrow> step_room w"
  by (auto simp: world_room_def step_room_def)

lemma apply_step_room:
  assumes ok: "world_ok (ap_world ap)" and room: "world_room (Suc n) (ap_world ap)" and op: "operation_room n op"
    and ap: "apply_step H ap op = Inr ap'"
  shows "world_room n (ap_world ap')"
proof -
  have weak: "world_room n (ap_world ap)" using room by (simp add: world_room_def)
  have upd: "world_room n w'" if "w' = (ap_world ap)\<lparr>w_objects := objects\<rparr>"
      "arena_update i f (w_objects (ap_world ap)) = Inr objects" for w' objects i f
    using weak that by (auto simp: world_room_def elim!: arena_update_Inr)
  show ?thesis
  proof (cases "op_body op")
    case (InternType name i)
    with ap obtain k r where r: "registry_intern_at i name (w_types (ap_world ap)) = Inr (k, r)"
      "ap' = ap\<lparr>ap_world := (ap_world ap)\<lparr>w_types := r\<rparr>\<rparr>"
      by (auto simp: apply_step_def Let_def res_bind_Inr_iff)
    have "length (rg_names r) \<le> max (length (rg_names (w_types (ap_world ap))) + 1) (unat i)"
      by (rule registry_intern_at_props(8) [OF _ _ r(1)]) (use ok room in \<open>simp_all add: world_ok_def world_room_def\<close>)
    with room op InternType r show ?thesis by (auto simp: world_room_def operation_room_def)
  next
    case (InternRelation name i)
    with ap obtain k r where r: "registry_intern_at i name (w_relations (ap_world ap)) = Inr (k, r)"
      "ap' = ap\<lparr>ap_world := (ap_world ap)\<lparr>w_relations := r\<rparr>\<rparr>"
      by (auto simp: apply_step_def Let_def res_bind_Inr_iff)
    have "length (rg_names r) \<le> max (length (rg_names (w_relations (ap_world ap))) + 1) (unat i)"
      by (rule registry_intern_at_props(8) [OF _ _ r(1)]) (use ok room in \<open>simp_all add: world_ok_def world_room_def\<close>)
    with room op InternRelation r show ?thesis by (auto simp: world_room_def operation_room_def)
  next
    case (CreateObject c)
    with ap have "apply_create_object c ap = Inr ap'" by (simp add: apply_step_def Let_def)
    moreover have "length (w_objects (ap_world ap)) < 2 ^ 32" using ok by (simp add: world_ok_def)
    ultimately show ?thesis by (rule apply_create_object_Inr) (use room in \<open>simp add: world_room_def\<close>)
  next
    case (CreatePointer c)
    with ap have "apply_create_pointer c ap = Inr ap'" by (simp add: apply_step_def Let_def)
    then obtain edge where "ap_world ap' = (ap_world ap)\<lparr>w_pointers := w_pointers (ap_world ap) @ [edge],
        w_next_pointer_id := w_next_pointer_id (ap_world ap) + 1\<rparr>" by (rule apply_create_pointer_Inr)
    moreover have "unat (w_next_pointer_id (ap_world ap) + 1) = unat (w_next_pointer_id (ap_world ap)) + 1"
      by (rule word_next_less(3)) (use room in \<open>simp add: world_room_def\<close>)
    ultimately show ?thesis using room by (simp add: world_room_def)
  next
    case (SetObjectType r t)
    with ap have "apply_update_object (\<lambda>i. arena_set_type i t) r ap = Inr ap'" by (simp add: apply_step_def Let_def)
    then show ?thesis
      by (rule apply_update_object_Inr) (auto simp: arena_set_type_def split: if_splits intro: upd)
  next
    case (SetObjectExistence r e)
    with ap have "apply_update_object (\<lambda>i. arena_set_existence i e) r ap = Inr ap'" by (simp add: apply_step_def Let_def)
    then show ?thesis by (rule apply_update_object_Inr) (auto simp: arena_set_existence_def intro: upd)
  next
    case (SetObjectAttribute r a)
    with ap show ?thesis by (auto simp: apply_step_def Let_def elim!: apply_object_attribute_Inr intro: upd)
  next
    case (RemoveObjectAttribute r a)
    with ap show ?thesis by (auto simp: apply_step_def Let_def elim!: apply_object_attribute_Inr intro: upd)
  qed (use weak ap in \<open>auto simp: apply_step_def Let_def res_bind_Inr_iff world_room_def
        elim!: apply_update_pointer_Inr split: if_splits\<close>)
qed

section \<open>The whole delta\<close>

lemma sim_loop:
  assumes "sim st ap" and "world_room (length d) (ap_world ap)" and "list_all (operation_room n) d" and "length d \<le> n"
    and "list_all operation_clean d"
    and "res_fold (overlay_step H) st d = Inr st'" and "res_fold (apply_step H) ap d = Inr ap'"
  shows "sim st' ap' \<and> world_room 0 (ap_world ap')"
  using assms
proof (induction d arbitrary: st ap)
  case Nil
  then show ?case by simp
next
  case (Cons op d)
  from Cons.prems(6,7) obtain st1 ap1 where step: "overlay_step H st op = Inr st1" "apply_step H ap op = Inr ap1"
    and rest: "res_fold (overlay_step H) st1 d = Inr st'" "res_fold (apply_step H) ap1 d = Inr ap'"
    by (auto simp: res_bind_Inr_iff)
  have ok: "world_ok (ap_world ap)" using Cons.prems(1) by (simp add: sim_def Let_def)
  have room: "world_room (Suc (length d)) (ap_world ap)" using Cons.prems(2) by simp
  have op: "operation_room (length d) op"
    using Cons.prems(3,4) by (auto simp: operation_room_def split: operation_body.splits)
  have room1: "world_room (length d) (ap_world ap1)" by (rule apply_step_room [OF ok room op step(2)])
  have sim1: "sim st1 ap1"
    by (rule sim_step [OF Cons.prems(1) world_room_step [OF room] world_room_step [OF room1] _ step])
      (use Cons.prems(5) in simp)
  show ?case
    by (rule Cons.IH [OF sim1 room1 _ _ _ rest]) (use Cons.prems in auto)
qed

text \<open>The two loops start in related states.\<close>

lemma clear_with_counts: "clear_counts (ob\<lparr>os_incoming := x, os_outgoing := y\<rparr>) = clear_counts ob"
  by (simp add: clear_counts_def)

lemma clear_object_view [simp]: "clear_counts (object_view ob) = object_view ob"
  by (simp add: clear_counts_def object_view_def)

lemma next_index_dense:
  assumes "arena_dense objects" and "length objects < 2 ^ 32" and "map os_id obs = map ob_id objects"
  shows "fold (\<lambda>ob next. max next (oid_index (os_id ob) + 1)) obs 0 = of_nat (length objects)"
proof -
  have "fold (\<lambda>ob next. max next (oid_index (os_id ob) + 1)) obs 0
      = fold (\<lambda>i next. max next (oid_index i + 1)) (map os_id obs) 0"
    by (simp add: fold_map comp_def)
  also have "\<dots> = fold (\<lambda>k m. max m (of_nat (Suc k) :: u32)) [0..<length objects] (of_nat 0)"
    using assms(1,3) by (simp add: arena_dense_def fold_map comp_def ac_simps)
  also have "\<dots> = of_nat (length objects)" using fold_max_upt [of 0 "length objects"] assms(2) by simp
  finally show ?thesis .
qed

lemma world_next_ids:
  assumes ok: "world_ok w"
  shows "next_object_index (world_snapshot_of H w) = of_nat (length (w_objects w))"
    and "next_pointer_value (world_snapshot_of H w) = w_next_pointer_id w"
proof -
  let ?s = "world_snapshot_of H w"
  have ids: "map os_id (sn_objects ?s) = map ob_id (w_objects w)"
    by (simp add: world_snapshot_of_def Let_def world_view_def object_view_def comp_def)
  show "next_pointer_value ?s = w_next_pointer_id w"
    using ok by (simp add: next_pointer_value_def world_snapshot_of_def Let_def world_view_def world_ok_def
        pointer_ids_ok_def pointer_bound_def fold_map comp_def pointer_view_def)
  show "next_object_index ?s = of_nat (length (w_objects w))"
    unfolding next_object_index_def by (rule next_index_dense) (use ok ids in \<open>simp_all add: world_ok_def\<close>)
qed

lemma sim_init:
  assumes ok: "world_ok w" and room: "world_room n w"
  shows "sim (overlay_init (world_snapshot_of H w)) (apply_init w)"
proof -
  let ?s = "world_snapshot_of H w"
  have names: "os_name ` set (sn_objects ?s) = ob_name ` set (w_objects w)"
    by (force simp: world_snapshot_of_def Let_def world_view_def object_view_def image_iff)
  note nexti = world_next_ids(1) [OF ok, of H] and nextp = world_next_ids(2) [OF ok, of H]
  have "registry_matches (registry_table (w_types w)) (w_types w)"
    "registry_matches (registry_table (w_relations w)) (w_relations w)"
    using ok room by (auto simp: world_ok_def world_room_def intro!: matches_table)
  then show ?thesis
    using ok names nextp nexti
    by (simp add: sim_def Let_def overlay_init_def apply_init_def next_epoch_def next_object_index_def next_pointer_value_def)
      (simp add: world_snapshot_of_def Let_def world_view_def clear_with_counts)
qed

text \<open>Related final states give agreeing snapshots.\<close>

lemma snapshot_rebuild [simp]:
  "world_snapshot_of H (rebuild_index H w) = world_snapshot_of H w"
  "world_view (rebuild_index H w) = world_view w"
  by (simp_all add: world_snapshot_of_def rebuild_index_def world_view_def)

lemma world_snapshot_counts:
  "sn_objects (world_snapshot_of H w) = map (with_counts (w_epoch w) (map pointer_view (w_pointers w))) (map object_view (w_objects w))"
  by (simp add: world_snapshot_of_def Let_def index_counts with_counts_def world_view_def)

lemma snapshot_of_fields:
  "sn_world (world_snapshot_of H w) = w_id w" "sn_world_name (world_snapshot_of H w) = w_name w"
  "sn_epoch (world_snapshot_of H w) = w_epoch w"
  "sn_pointers (world_snapshot_of H w) = map pointer_view (w_pointers w)"
  "sn_type_names (world_snapshot_of H w) = registry_table (w_types w)"
  "sn_relation_names (world_snapshot_of H w) = registry_table (w_relations w)"
  by (simp_all add: world_snapshot_of_def Let_def world_view_def)

lemma snapshot_of_facts: "sn_facts (world_snapshot_of H w) = derive_facts H (world_snapshot_of H w)"
  by (simp add: world_snapshot_of_def Let_def)

lemma with_counts_clear [simp]: "with_counts e ps (clear_counts ob) = with_counts e ps ob"
  by (simp add: with_counts_def clear_counts_def)

lemma sim_finish:
  assumes sim: "sim st ap" and room: "world_room 0 (ap_world ap)" and e: "e = w_epoch (ap_world ap) + 1"
  shows "agree (overlay_finish H st) (world_snapshot_of H ((ap_world ap)\<lparr>w_epoch := e\<rparr>))"
proof -
  let ?out = "ov_out st" and ?w = "(ap_world ap)\<lparr>w_epoch := e\<rparr>"
  note s = sim [unfolded sim_def Let_def]
  have rc: "recompute_counts ?out = ?out\<lparr>sn_objects := map (with_counts e (sn_pointers ?out)) (sn_objects ?out)\<rparr>"
    using recompute_counts_spec [OF sim_distinct [OF sim]] s e by simp
  have "map (with_counts e (sn_pointers ?out)) (sn_objects ?out)
      = map (with_counts e (sn_pointers ?out)) (map clear_counts (sn_objects ?out))" by simp
  also have "\<dots> = sn_objects (world_snapshot_of H ?w)"
    using s by (simp only: world_snapshot_counts) simp
  finally have objects: "map (with_counts e (sn_pointers ?out)) (sn_objects ?out) = sn_objects (world_snapshot_of H ?w)" .
  have facts: "sn_facts (overlay_finish H st) = sn_facts (world_snapshot_of H ?w)"
  proof -
    have "derive_facts H (recompute_counts ?out) = derive_facts H (world_snapshot_of H ?w)"
      by (rule derive_facts_cong) (use objects s e in \<open>simp_all add: rc snapshot_of_fields\<close>)
    then show ?thesis by (simp add: overlay_finish_def Let_def snapshot_of_facts)
  qed
  have tables: "name_or_empty (registry_table (w_types (ap_world ap))) i = slot_name (w_types (ap_world ap)) i"
    "name_or_empty (registry_table (w_relations (ap_world ap))) i = slot_name (w_relations (ap_world ap)) i" for i
    using s by (simp_all add: world_ok_def registry_inv_def name_or_empty_table)
  show ?thesis
    unfolding agree_def facts
    using s objects e tables
    by (simp add: overlay_finish_def rc Let_def registry_matches_def snapshot_of_fields)
qed

lemma overlay_world_sim:
  assumes ok: "world_ok w" and room: "delta_room w d" and clean: "list_all operation_clean d"
    and ov: "overlay_apply H (world_snapshot_of H w) d = Inr s" and ap: "apply_delta_unchecked H d w = Inr (events, w')"
  obtains st a where "sim st a" and "world_room 0 (ap_world a)" and "w_epoch (ap_world a) = w_epoch w"
    and "s = overlay_finish H st" and "w' = rebuild_index H ((ap_world a)\<lparr>w_epoch := w_epoch w + 1\<rparr>)"
proof -
  from ov obtain st where st: "res_fold (overlay_step H) (overlay_init (world_snapshot_of H w)) d = Inr st" "s = overlay_finish H st"
    by (rule overlay_apply_Inr)
  from ap obtain a where a: "res_fold (apply_step H) (apply_init w) d = Inr a"
    and w': "w' = rebuild_index H ((ap_world a)\<lparr>w_epoch := w_epoch w + 1\<rparr>)"
    by (auto simp: apply_delta_unchecked_def res_bind_Inr_iff)
  have sim: "sim st a \<and> world_room 0 (ap_world a)"
  proof (rule sim_loop [OF _ _ _ _ clean st(1) a])
    show "sim (overlay_init (world_snapshot_of H w)) (apply_init w)"
      using room by (intro sim_init [OF ok, of "length d"]) (simp add: delta_room_def)
    show "world_room (length d) (ap_world (apply_init w))" using room by (simp add: delta_room_def apply_init_def)
    show "list_all (operation_room (length d)) d" using room by (simp add: delta_room_def)
  qed simp
  have "sn_epoch (ov_out st) = sn_epoch (world_snapshot_of H w) + 1"
    using overlay_apply_frame(3) [OF ov] by (simp add: st(2) overlay_finish_def Let_def recompute_counts_def)
  then have "w_epoch (ap_world a) = w_epoch w" using sim by (simp add: sim_def Let_def snapshot_of_fields)
  with sim st(2) w' show ?thesis by (intro that) simp_all
qed

lemma overlay_predicts_world_aux:
  assumes ok: "world_ok w" and room: "delta_room w d" and clean: "list_all operation_clean d"
    and ov: "overlay_apply H (world_snapshot_of H w) d = Inr s" and ap: "apply_delta_unchecked H d w = Inr (events, w')"
  shows "agree s (world_snapshot_of H w')"
  using overlay_world_sim [OF assms] sim_finish by (metis snapshot_rebuild(1))

lemma apply_delta_ok:
  assumes ok: "world_ok w" and room: "delta_room w d" and ap: "apply_delta_unchecked H d w = Inr (events, w')"
  shows "world_ok w'"
proof -
  have loop: "world_ok (ap_world st) \<Longrightarrow> world_room (length ops) (ap_world st) \<Longrightarrow> list_all (operation_room n) ops \<Longrightarrow>
      length ops \<le> n \<Longrightarrow> res_fold (apply_step H) st ops = Inr a \<Longrightarrow> world_ok (ap_world a)" for st ops n a
  proof (induction ops arbitrary: st)
    case (Cons op ops)
    then obtain st1 where st1: "apply_step H st op = Inr st1" "res_fold (apply_step H) st1 ops = Inr a"
      by (auto simp: res_bind_Inr_iff)
    have r: "world_room (Suc (length ops)) (ap_world st)" using Cons.prems(2) by simp
    have op: "operation_room (length ops) op"
      using Cons.prems(3,4) by (auto simp: operation_room_def split: operation_body.splits)
    show ?case
      using Cons.IH [OF apply_step_ok [OF Cons.prems(1) world_room_step [OF r] st1(1)]
          apply_step_room [OF Cons.prems(1) r op st1(1)] _ _ st1(2)] Cons.prems by simp
  qed simp
  from ap obtain a where a: "res_fold (apply_step H) (apply_init w) d = Inr a"
    and w': "w' = rebuild_index H ((ap_world a)\<lparr>w_epoch := w_epoch w + 1\<rparr>)"
    by (auto simp: apply_delta_unchecked_def res_bind_Inr_iff)
  have "world_ok (ap_world a)"
    by (rule loop [OF _ _ _ le_refl a]) (use ok room in \<open>simp_all add: delta_room_def apply_init_def\<close>)
  then show ?thesis by (simp add: w' rebuild_index_def world_ok_def)
qed

end
