(* ===== verification/Progress.thy ===== *)
theory Progress
  imports Simulation
begin

text \<open>
  The live world accepts what the overlay accepts.  The overlay validates a delta on a snapshot; when
  it succeeds, \<open>World::apply_delta_unchecked\<close> throws on none of the operations, provided the delta
  stays away from the three places where the checks of the two differ: an empty object name, a fact
  assertion (checked at another epoch) and an explicit identifier for a symbol that is already known
  under another one.
\<close>

text \<open>What an accepted delta still has to satisfy; \<open>s\<close> is the snapshot the overlay returned.\<close>

definition operation_portable :: "world_snapshot \<Rightarrow> operation \<Rightarrow> bool" where
  "operation_portable s op = (case op_body op of
       CreateObject c \<Rightarrow> co_name c \<noteq> []
     | InternType name i \<Rightarrow> i = 0 \<or> om_find (sn_type_names s) i = Some name
     | InternRelation name i \<Rightarrow> i = 0 \<or> om_find (sn_relation_names s) i = Some name
     | AssertFact _ \<Rightarrow> False
     | _ \<Rightarrow> True)"

section \<open>The two states know the same things\<close>

definition aligned :: "overlay_state \<Rightarrow> apply_state \<Rightarrow> bool" where
  "aligned st ap = (sim st ap \<and> overlay_inv 0 st \<and> ov_seen_temps st = ap_seen ap)"

lemma matches_name:
  assumes "registry_matches names r" and "om_contains names i"
  shows "registry_name r i = Inr (slot_name r i)"
  using assms by (auto simp: registry_name_slot registry_matches_def)

lemma aligned_type:
  assumes "aligned st ap" and "has_type_id (ov_out st) t"
  shows "\<exists>n. world_type_name (ap_world ap) t = Inr n" and "t \<noteq> 0"
  using assms matches_name [of "sn_type_names (ov_out st)" "w_types (ap_world ap)" t]
  by (auto simp: aligned_def sim_def Let_def has_type_id_def world_type_name_def map_error_def)

lemma aligned_relation:
  assumes "aligned st ap" and "has_relation_id (ov_out st) r"
  shows "\<exists>n. world_relation_name (ap_world ap) r = Inr n" and "r \<noteq> 0"
  using assms matches_name [of "sn_relation_names (ov_out st)" "w_relations (ap_world ap)" r]
  by (auto simp: aligned_def sim_def Let_def has_relation_id_def world_relation_name_def
      relation_registry_name_def map_error_def)

lemma aligned_contains:
  assumes "aligned st ap"
  shows "arena_contains (w_objects (ap_world ap)) i \<longleftrightarrow> snapshot_contains (ov_out st) i"
proof -
  have "arena_contains (w_objects (ap_world ap)) i \<longleftrightarrow> i \<in> ob_id ` set (w_objects (ap_world ap))"
    using assms by (intro arena_contains_mem) (simp_all add: aligned_def sim_def Let_def world_ok_def)
  moreover have "os_id ` set (sn_objects (ov_out st)) = ob_id ` set (w_objects (ap_world ap))"
    using assms sim_ids [of st ap] by (metis aligned_def list.set_map)
  ultimately show ?thesis by (simp add: snapshot_contains_mem)
qed

lemma aligned_resolve:
  assumes al: "aligned st ap" and res: "resolve_ref (ov_out st) (ov_temps st) r = Some i"
  shows "resolve_object ap r = Inr i" and "arena_contains (w_objects (ap_world ap)) i"
proof -
  have "snapshot_contains (ov_out st) i"
    using al res by (intro resolve_contains [of 0]) (simp_all add: aligned_def)
  then show "arena_contains (w_objects (ap_world ap)) i" using aligned_contains [OF al] by simp
  show "resolve_object ap r = Inr i"
    using al res aligned_contains [OF al]
    by (auto simp: resolve_object_def resolve_ref_def aligned_def sim_def Let_def split: object_ref.splits if_splits)
qed

text \<open>Every object of the world has a registered type.\<close>

lemma aligned_object_type:
  assumes al: "aligned st ap" and ob: "ob \<in> set (w_objects (ap_world ap))"
  shows "has_type_id (ov_out st) (ob_type ob)"
proof -
  have "object_view ob \<in> set (map clear_counts (sn_objects (ov_out st)))"
    using al ob by (simp add: aligned_def sim_def Let_def)
  then obtain x where "x \<in> set (sn_objects (ov_out st))" "object_view ob = clear_counts x" by auto
  moreover from this have "os_type x = ob_type ob"
    by (metis clear_counts_def object_snapshot.select_convs(3) object_snapshot.simps(3)
        object_view_def object_snapshot.update_convs(6) object_snapshot.update_convs(7) object_snapshot.surjective)
  ultimately show ?thesis using al by (auto simp: aligned_def overlay_inv_def snapshot_wf_def list_all_iff object_wf_def)
qed

section \<open>One step\<close>

lemma arena_update_ok: "arena_contains objects i \<Longrightarrow> arena_update i f objects = Inr (objects[unat (oid_index i) := f (objects ! unat (oid_index i))])"
  by (simp add: arena_update_def)

lemma arena_contains_update:
  "arena_contains objects i \<Longrightarrow> (\<And>ob. ob_id (f ob) = ob_id ob) \<Longrightarrow>
   arena_contains (objects[unat (oid_index j) := f (objects ! unat (oid_index j))]) i"
  by (cases "unat (oid_index j) = unat (oid_index i)") (simp_all add: arena_contains_def)

lemma progress_update:
  assumes al: "aligned st ap" and ov: "overlay_update_object r g st = Inr st'"
  obtains i where "resolve_object ap r = Inr i" and "arena_contains (w_objects (ap_world ap)) i"
  using assms aligned_resolve [OF al] by (auto simp: overlay_update_object_def split: option.splits)

lemma progress_update_object:
  assumes al: "aligned st ap" and ov: "overlay_update_object r g st = Inr st'"
    and change: "\<And>i. change i (w_objects (ap_world ap)) = arena_update i f (w_objects (ap_world ap))"
    and f: "\<And>ob. ob_id (f ob) = ob_id ob"
    and type: "\<And>ob. ob \<in> set (w_objects (ap_world ap)) \<Longrightarrow> has_type_id (ov_out st) (ob_type (f ob))"
  shows "\<exists>ap'. apply_update_object change r ap = Inr ap'"
proof -
  let ?obs = "w_objects (ap_world ap)"
  from progress_update [OF al ov] obtain i where res: "resolve_object ap r = Inr i" and c: "arena_contains ?obs i" .
  let ?n = "unat (oid_index i)"
  have n: "?n < length ?obs" using c by (simp add: arena_contains_def)
  obtain name where "world_type_name (ap_world ap) (ob_type (f (?obs ! ?n))) = Inr name"
    using aligned_type(1) [OF al type [OF nth_mem [OF n]]] by blast
  moreover have "arena_get (?obs[?n := f (?obs ! ?n)]) i = Inr (f (?obs ! ?n))"
    using arena_contains_update [OF c f, of i] n by (simp add: arena_get_def)
  ultimately show ?thesis
    by (simp add: apply_update_object_def res change arena_update_ok [OF c] Let_def map_error_def)
qed

lemma progress_object_attribute:
  assumes al: "aligned st ap" and ov: "overlay_update_object r g st = Inr st'"
  shows "\<exists>ap'. apply_object_attribute event key change r ap = Inr ap'"
proof -
  from progress_update [OF al ov] obtain i
    where "resolve_object ap r = Inr i" "arena_contains (w_objects (ap_world ap)) i" .
  then show ?thesis by (simp add: apply_object_attribute_def arena_get_def arena_update_ok Let_def map_error_def)
qed

lemma progress_update_pointer:
  assumes al: "aligned st ap" and ov: "overlay_update_pointer i g st = Inr st'"
  shows "\<exists>ap'. apply_update_pointer i f event fs ms ap = Inr ap'"
proof -
  have "sn_pointers (ov_out st) = map pointer_view (w_pointers (ap_world ap))"
    using al by (simp add: aligned_def sim_def Let_def)
  moreover have "update_first (\<lambda>p. ps_id p = i) g (sn_pointers (ov_out st)) \<noteq> None"
    using ov by (auto simp: overlay_update_pointer_def mutate_pointer_def split: option.splits)
  ultimately have "update_first (\<lambda>p. pe_id p = i) f (w_pointers (ap_world ap)) \<noteq> None"
    by (auto simp: update_first_None pointer_view_def)
  then show ?thesis by (auto simp: apply_update_pointer_def Let_def)
qed

lemma progress_create_object:
  assumes al: "aligned st ap" and ov: "overlay_create_object c st = Inr st'" and name: "co_name c \<noteq> []"
    and room: "step_room (ap_world ap)"
  shows "\<exists>ap'. apply_create_object c ap = Inr ap'"
proof -
  let ?w = "ap_world ap"
  let ?i = "ObjectId (of_nat (length (w_objects ?w))) 1"
  let ?obs = "w_objects ?w @ [\<lparr>ob_id = ?i, ob_name = co_name c, ob_type = co_type c, ob_existence = co_existence c,
                             ob_attributes = []\<rparr>]"
  from ov have ty: "has_type_id (ov_out st) (co_type c)" and "co_name c \<notin> ov_names st"
    and ts: "co_temp c \<noteq> 0" "co_temp c \<notin> ov_seen_temps st"
    by (auto simp: overlay_create_object_def Let_def split: if_splits)
  then have new: "\<not> om_contains (w_object_names ?w) (co_name c)"
    using al by (simp add: aligned_def sim_def Let_def om_contains_iff world_ok_def)
  have dense: "arena_dense ?obs"
    using al by (intro arena_dense_append) (simp_all add: aligned_def sim_def Let_def world_ok_def)
  have c: "arena_contains ?obs ?i" using arena_contains_mem [OF dense] room by (simp add: step_room_def)
  obtain n where "world_type_name ?w (co_type c) = Inr n" using aligned_type(1) [OF al ty] by blast
  then show ?thesis
    using new ts name aligned_type(2) [OF al ty] al arena_update_ok [OF c]
    by (simp add: apply_create_object_def Let_def arena_create_def map_error_def aligned_def)
qed

lemma progress_create_pointer:
  assumes al: "aligned st ap" and ov: "overlay_create_pointer c st = Inr st'"
  shows "\<exists>ap'. apply_create_pointer c ap = Inr ap'"
proof -
  from ov obtain f t where ft: "resolve_ref (ov_out st) (ov_temps st) (cp_from c) = Some f"
      "resolve_ref (ov_out st) (ov_temps st) (cp_to c) = Some t"
    and rel: "has_relation_id (ov_out st) (cp_relation c)"
    by (auto simp: overlay_create_pointer_def Let_def split: if_splits option.splits)
  obtain n where "world_relation_name (ap_world ap) (cp_relation c) = Inr n" using aligned_relation(1) [OF al rel] by blast
  then show ?thesis
    using aligned_resolve [OF al ft(1)] aligned_resolve [OF al ft(2)] aligned_relation(2) [OF al rel]
    by (simp add: apply_create_pointer_def Let_def arena_get_def map_error_def)
qed

lemma progress_intern:
  assumes m: "registry_matches names r" and inv: "registry_inv r" and "name \<noteq> []"
    and known: "om_has_value names name \<Longrightarrow> i = 0 \<or> registry_find r name = Some i"
    and new: "\<not> om_has_value names name \<Longrightarrow> i = 0 \<or> om_find names i = None \<or> om_find names i = Some name"
  shows "\<exists>k r'. registry_intern_at i name r = Inr (k, r')"
proof (cases "om_has_value names name")
  case True
  with matches_has_value [OF m inv \<open>name \<noteq> []\<close>] obtain k where "registry_find r name = Some k" by auto
  with known [OF True] registry_intern_known [OF inv this, of i] show ?thesis by auto
next
  case False
  then have none: "registry_find r name = None" using matches_has_value [OF m inv \<open>name \<noteq> []\<close>] by simp
  show ?thesis
  proof (cases "i = 0")
    case True
    then show ?thesis using \<open>name \<noteq> []\<close> none
      by (simp add: registry_intern_at_def registry_intern_def registry_find_def Let_def)
  next
    case nz: False
    have "slot_name r i = name_or_empty names i" using m by (simp add: registry_matches_def)
    then have "slot_name r i = [] \<or> slot_name r i = name"
      using new [OF False] nz by (auto simp: name_or_empty_def)
    then show ?thesis
      using nz none \<open>name \<noteq> []\<close> slot_free_intern_at [OF nz, of r] by (auto simp: registry_intern_at_def Let_def)
  qed
qed

text \<open>The temporary objects seen so far are the same on both sides.\<close>

lemma overlay_step_seen:
  assumes "overlay_step H st op = Inr st'"
  shows "ov_seen_temps st' = (case op_body op of CreateObject c \<Rightarrow> insert (co_temp c) (ov_seen_temps st) | _ \<Rightarrow> ov_seen_temps st)"
  using assms
  by (cases "op_body op")
    (auto simp: overlay_step_def overlay_intern_type_def overlay_intern_relation_def overlay_create_object_def
      overlay_update_object_def overlay_create_pointer_def overlay_update_pointer_def Let_def
      split: if_splits option.splits)

lemma apply_step_seen:
  assumes "apply_step H ap op = Inr ap'"
  shows "ap_seen ap' = (case op_body op of CreateObject c \<Rightarrow> insert (co_temp c) (ap_seen ap) | _ \<Rightarrow> ap_seen ap)"
proof (cases "op_body op")
  case (CreateObject c)
  with assms show ?thesis
    by (auto simp: apply_step_def apply_create_object_def Let_def res_bind_Inr_iff split: if_splits)
qed (use assms in \<open>auto simp: apply_step_def Let_def res_bind_Inr_iff split: if_splits
      elim!: apply_update_object_Inr apply_object_attribute_Inr apply_create_pointer_Inr apply_update_pointer_Inr\<close>)

text \<open>No two identifiers of the overlay carry the same name.\<close>

definition names_unique :: "(u32, string) omap \<Rightarrow> bool" where
  "names_unique names = (om_inv names \<and>
     (\<forall>(i, n) \<in> set names. \<forall>(j, m) \<in> set names. n \<noteq> [] \<longrightarrow> n = m \<longrightarrow> i = j))"

lemma names_unique_find:
  "names_unique names \<Longrightarrow> om_find names i = Some n \<Longrightarrow> om_find names j = Some n \<Longrightarrow> n \<noteq> [] \<Longrightarrow> i = j"
  by (force simp: names_unique_def dest: om_find_SomeD)

lemma names_unique_emplace:
  assumes "names_unique names" and "\<not> om_has_value names name"
  shows "names_unique (om_emplace i name names)"
proof (cases "om_contains names i")
  case False
  then have "set (om_put i name names) = insert (i, name) (set names)"
    using mset_om_put_new [of names i name] by (metis om_contains_def option.distinct(1) option.exhaust set_mset_add_mset_insert set_mset_mset)
  moreover have "(j, name) \<notin> set names" for j using assms(2) by (force simp: om_has_value_iff)
  ultimately show ?thesis
    using assms(1) False by (auto simp: names_unique_def om_emplace_def om_inv_put)
qed (use assms in \<open>simp add: om_emplace_def\<close>)

lemma names_unique_matches:
  assumes m: "registry_matches names r" and inv: "registry_inv r"
  shows "names_unique names"
proof -
  have "i = j" if "(i, n) \<in> set names" "(j, n) \<in> set names" "n \<noteq> []" for i j n
  proof -
    have "slot_name r i = n" "slot_name r j = n"
      using m that by (auto simp: registry_matches_def name_or_empty_def om_inv_find)
        (metis name_or_empty_def om_inv_find option.simps(5))+
    then show ?thesis using registry_names_distinct [OF inv, of i j] that(3) by simp
  qed
  then show ?thesis using m by (auto simp: names_unique_def registry_matches_def)
qed

lemma overlay_step_unique:
  assumes "overlay_step H st op = Inr st'"
    and "names_unique (sn_type_names (ov_out st)) \<and> names_unique (sn_relation_names (ov_out st))"
  shows "names_unique (sn_type_names (ov_out st')) \<and> names_unique (sn_relation_names (ov_out st'))"
  using assms
  by (cases "op_body op")
    (auto simp: overlay_step_def overlay_intern_type_def overlay_intern_relation_def overlay_create_object_def
      overlay_update_object_def overlay_create_pointer_def overlay_update_pointer_def mutate_object_def
      mutate_pointer_def has_type_name_def has_relation_name_def Let_def names_unique_emplace
      split: if_splits option.splits)

lemma progress_step:
  assumes al: "aligned st ap" and room: "step_room (ap_world ap)" and ov: "overlay_step H st op = Inr st'"
    and unique: "names_unique (sn_type_names s)" "names_unique (sn_relation_names s)"
    and later: "extends (ov_out st) s" and port: "operation_portable s op"
  shows "\<exists>ap'. apply_step H ap op = Inr ap'"
proof -
  let ?w = "ap_world ap"
  have m: "registry_matches (sn_type_names (ov_out st)) (w_types ?w)"
      "registry_matches (sn_relation_names (ov_out st)) (w_relations ?w)"
    and inv: "registry_inv (w_types ?w)" "registry_inv (w_relations ?w)"
    using al by (simp_all add: aligned_def sim_def Let_def world_ok_def)
  have known: "i = 0 \<or> registry_find r name = Some i"
    if "registry_matches names r" "registry_inv r" "names_unique final" "om_has_value names name" "name \<noteq> []"
      "\<And>k. om_find names k \<noteq> None \<Longrightarrow> om_find final k = om_find names k" "i = 0 \<or> om_find final i = Some name"
    for names r final name i
  proof -
    from that(4) obtain k where "(k, name) \<in> set names" by (auto simp: om_has_value_iff)
    then have k: "om_find names k = Some name" using that(1) by (simp add: registry_matches_def om_inv_find)
    have "slot_name r k = name"
      using that(1) k by (simp add: registry_matches_def name_or_empty_def) (metis option.simps(5))
    moreover have "i = 0 \<or> i = k" using names_unique_find [OF that(3), of i name k] that(5,6,7) k by auto
    ultimately show ?thesis using registry_find_Some [OF that(2), of name k] that(5) by auto
  qed
  show ?thesis
  proof (cases "op_body op")
    case (InternType name i)
    have ne: "name \<noteq> []" and fr: "\<not> om_has_value (sn_type_names (ov_out st)) name \<Longrightarrow> i = 0
        \<or> om_find (sn_type_names (ov_out st)) i = None \<or> om_find (sn_type_names (ov_out st)) i = Some name"
      using ov InternType by (auto simp: overlay_step_def overlay_intern_type_def has_type_name_def Let_def
          split: if_splits option.splits)
    have "i = 0 \<or> om_find (sn_type_names s) i = Some name" using port InternType by (simp add: operation_portable_def)
    moreover have "om_find (sn_type_names (ov_out st)) k \<noteq> None \<Longrightarrow>
        om_find (sn_type_names s) k = om_find (sn_type_names (ov_out st)) k" for k
      using later by (simp add: extends_alt)
    ultimately obtain k r where "registry_intern_at i name (w_types ?w) = Inr (k, r)"
      using progress_intern [OF m(1) inv(1) ne _ fr] known [OF m(1) inv(1) unique(1)] ne by blast
    then show ?thesis using InternType by (simp add: apply_step_def Let_def map_error_def)
  next
    case (InternRelation name i)
    have ne: "name \<noteq> []" and fr: "\<not> om_has_value (sn_relation_names (ov_out st)) name \<Longrightarrow> i = 0
        \<or> om_find (sn_relation_names (ov_out st)) i = None \<or> om_find (sn_relation_names (ov_out st)) i = Some name"
      using ov InternRelation by (auto simp: overlay_step_def overlay_intern_relation_def has_relation_name_def Let_def
          split: if_splits option.splits)
    have "i = 0 \<or> om_find (sn_relation_names s) i = Some name"
      using port InternRelation by (simp add: operation_portable_def)
    moreover have "om_find (sn_relation_names (ov_out st)) k \<noteq> None \<Longrightarrow>
        om_find (sn_relation_names s) k = om_find (sn_relation_names (ov_out st)) k" for k
      using later by (simp add: extends_alt)
    ultimately obtain k r where "registry_intern_at i name (w_relations ?w) = Inr (k, r)"
      using progress_intern [OF m(2) inv(2) ne _ fr] known [OF m(2) inv(2) unique(2)] ne by blast
    then show ?thesis using InternRelation by (simp add: apply_step_def Let_def map_error_def relation_intern_at_def)
  next
    case (CreateObject c)
    then show ?thesis using progress_create_object [OF al _ _ room] ov port
      by (simp add: overlay_step_def apply_step_def Let_def operation_portable_def)
  next
    case (SetObjectType r t)
    with ov have t: "has_type_id (ov_out st) t" and ov': "overlay_update_object r (\<lambda>ob. ob\<lparr>os_type := t\<rparr>) st = Inr st'"
      by (auto simp: overlay_step_def split: if_splits)
    have "\<exists>ap'. apply_update_object (\<lambda>i. arena_set_type i t) r ap = Inr ap'"
      by (rule progress_update_object [OF al ov', where f = "\<lambda>ob. ob\<lparr>ob_type := t\<rparr>"])
        (use t aligned_type(2) [OF al t] in \<open>simp_all add: arena_set_type_def\<close>)
    then show ?thesis using SetObjectType by (simp add: apply_step_def Let_def)
  next
    case (SetObjectExistence r e)
    with ov have ov': "overlay_update_object r (\<lambda>ob. ob\<lparr>os_existence := e\<rparr>) st = Inr st'" by (simp add: overlay_step_def)
    have "\<exists>ap'. apply_update_object (\<lambda>i. arena_set_existence i e) r ap = Inr ap'"
      by (rule progress_update_object [OF al ov', where f = "\<lambda>ob. ob\<lparr>ob_existence := e\<rparr>"])
        (use aligned_object_type [OF al] in \<open>simp_all add: arena_set_existence_def\<close>)
    then show ?thesis using SetObjectExistence by (simp add: apply_step_def Let_def)
  next
    case (AssertObject r)
    with ov obtain i where "resolve_ref (ov_out st) (ov_temps st) r = Some i"
      by (auto simp: overlay_step_def split: if_splits)
    from aligned_resolve(1) [OF al this] AssertObject show ?thesis by (simp add: apply_step_def Let_def)
  next
    case (AssertPointer i)
    have "sn_pointers (ov_out st) = map pointer_view (w_pointers ?w)" using al by (simp add: aligned_def sim_def Let_def)
    then show ?thesis using ov AssertPointer
      by (auto simp: overlay_step_def apply_step_def Let_def snapshot_pointer_def find_None_mem pointer_view_def
          list_ex_iff split: if_splits)
  qed (use al ov port in \<open>auto simp: overlay_step_def apply_step_def Let_def operation_portable_def
        dest: progress_object_attribute progress_create_pointer progress_update_pointer\<close>)
qed

section \<open>The whole delta\<close>

lemma overlay_loop_extends:
  "res_fold (overlay_step H) st d = Inr st' \<Longrightarrow> extends (ov_out st) (ov_out st')"
proof (induction d arbitrary: st)
  case (Cons op d)
  then obtain st1 where st1: "overlay_step H st op = Inr st1" "res_fold (overlay_step H) st1 d = Inr st'"
    by (auto simp: res_bind_Inr_iff)
  from extends_trans [OF overlay_step_extends [OF st1(1)] Cons.IH [OF st1(2)]] show ?case .
qed (simp add: extends_refl)

lemma progress_loop:
  assumes "sim st ap" and "overlay_inv (length d) st" and "ov_seen_temps st = ap_seen ap"
    and "world_room (length d) (ap_world ap)" and "list_all (operation_room n) d" and "length d \<le> n"
    and "list_all operation_clean d" and "res_fold (overlay_step H) st d = Inr st'"
    and unique: "names_unique (sn_type_names (ov_out st'))" "names_unique (sn_relation_names (ov_out st'))"
    and "list_all (operation_portable (ov_out st')) d"
  shows "\<exists>ap'. res_fold (apply_step H) ap d = Inr ap'"
  using assms(1-8,11)
proof (induction d arbitrary: st ap)
  case (Cons op d)
  from Cons.prems(8) obtain st1 where ov: "overlay_step H st op = Inr st1"
    and rest: "res_fold (overlay_step H) st1 d = Inr st'"
    by (auto simp: res_bind_Inr_iff)
  have weaken: "overlay_inv m st \<Longrightarrow> overlay_inv 0 st" for m by (auto simp: overlay_inv_def)
  have al: "aligned st ap" using Cons.prems(1,3) weaken [OF Cons.prems(2)] by (simp add: aligned_def)
  have ok: "world_ok (ap_world ap)" using Cons.prems(1) by (simp add: sim_def Let_def)
  have room: "world_room (Suc (length d)) (ap_world ap)" using Cons.prems(4) by simp
  have op: "operation_room (length d) op"
    using Cons.prems(5,6) by (auto simp: operation_room_def split: operation_body.splits)
  have later: "extends (ov_out st) (ov_out st')"
    using extends_trans [OF overlay_step_extends [OF ov] overlay_loop_extends [OF rest]] .
  from progress_step [OF al world_room_step [OF room] ov unique later] Cons.prems(9)
  obtain ap1 where ap1: "apply_step H ap op = Inr ap1" by auto
  have room1: "world_room (length d) (ap_world ap1)" by (rule apply_step_room [OF ok room op ap1])
  have "sim st1 ap1"
    by (rule sim_step [OF Cons.prems(1) world_room_step [OF room] world_room_step [OF room1] _ ov ap1])
      (use Cons.prems(7) in simp)
  moreover have "overlay_inv (length d) st1" using Cons.prems(2) by (intro overlay_step_inv [OF _ ov]) simp
  moreover have "ov_seen_temps st1 = ap_seen ap1"
    using overlay_step_seen [OF ov] apply_step_seen [OF ap1] Cons.prems(3) by (simp split: operation_body.splits)
  ultimately obtain ap' where "res_fold (apply_step H) ap1 d = Inr ap'"
    using Cons.IH [OF _ _ _ room1 _ _ _ rest] Cons.prems(5,6,7,9) by auto
  with ap1 show ?case by simp
qed simp

text \<open>The snapshot of a world leaves room for as many identifiers as the world does.\<close>

lemma world_ids_room:
  assumes ok: "world_ok w" and room: "world_room n w"
  shows "ids_room (world_snapshot_of H w) n"
proof -
  let ?s = "world_snapshot_of H w"
  note nexti = world_next_ids(1) [OF ok, of H] and nextp = world_next_ids(2) [OF ok, of H]
  have len: "length (w_objects w) + n < 2 ^ 32" using room by (simp add: world_room_def)
  have "oid_index (ob_id ob) < of_nat (length (w_objects w))" if "ob \<in> set (w_objects w)" for ob
  proof -
    from that obtain k where k: "k < length (w_objects w)" "ob = w_objects w ! k" by (metis in_set_conv_nth)
    then have "ob_id ob = ObjectId (of_nat k) 1" using ok arena_dense_nth by (auto simp: world_ok_def)
    then show ?thesis using k(1) len by (simp add: word_less_nat_alt unat_of_nat_u32)
  qed
  then have "list_all (\<lambda>i. oid_index i < next_object_index ?s) (map ob_id (w_objects w))"
    by (simp add: list_all_iff nexti)
  moreover have "map ob_id (w_objects w) = map os_id (sn_objects ?s)"
    by (simp only: world_snapshot_counts) (simp add: with_counts_def object_view_def comp_def)
  ultimately have objects: "list_all (\<lambda>ob. oid_index (os_id ob) < next_object_index ?s) (sn_objects ?s)"
    by (simp add: list_all_iff)
  have "list_all (\<lambda>p. ps_id p < next_pointer_value ?s) (sn_pointers ?s)"
    using world_ok_pointer_ids(1) [OF ok] by (simp only: nextp) (simp add: snapshot_of_fields list_all_iff pointer_view_def)
  then show ?thesis using objects nexti nextp len room
    by (simp add: ids_room_def list_all_iff unat_of_nat_u32 world_room_def)
qed

text \<open>An accepted, portable delta is applied without an error.\<close>

lemma overlay_accept_apply:
  assumes ok: "world_ok w" and wf: "snapshot_wf (world_snapshot_of H w)" and room: "delta_room w d"
    and clean: "list_all operation_clean d"
    and ov: "overlay_apply H (world_snapshot_of H w) d = Inr s" and port: "list_all (operation_portable s) d"
  shows "\<exists>events w'. apply_delta_unchecked H d w = Inr (events, w')"
proof -
  let ?base = "world_snapshot_of H w"
  from ov obtain st where st: "res_fold (overlay_step H) (overlay_init ?base) d = Inr st" "s = overlay_finish H st"
    by (rule overlay_apply_Inr)
  have wr: "world_room (length d) w" "list_all (operation_room (length d)) d" using room by (simp_all add: delta_room_def)
  have sim: "sim (overlay_init ?base) (apply_init w)" by (rule sim_init [OF ok wr(1)])
  have names: "sn_type_names s = sn_type_names (ov_out st)" "sn_relation_names s = sn_relation_names (ov_out st)"
    by (simp_all add: st(2) overlay_finish_def Let_def recompute_counts_def)
  have "names_unique (sn_type_names (ov_out st)) \<and> names_unique (sn_relation_names (ov_out st))"
  proof (rule res_fold_invariant [OF st(1)])
    show "names_unique (sn_type_names (ov_out (overlay_init ?base)))
        \<and> names_unique (sn_relation_names (ov_out (overlay_init ?base)))"
      using sim by (auto simp: sim_def Let_def world_ok_def intro: names_unique_matches)
  qed (rule overlay_step_unique)
  moreover have "list_all (operation_portable (ov_out st)) d"
    using port by (rule list.pred_mono_strong) (simp add: operation_portable_def names split: operation_body.splits)
  ultimately obtain ap where "res_fold (apply_step H) (apply_init w) d = Inr ap"
    using progress_loop [OF sim _ _ _ wr(2) le_refl clean st(1)] overlay_init_inv [OF wf world_ids_room [OF ok wr(1)]] wr(1)
    by (auto simp: apply_init_def overlay_init_def Let_def)
  then show ?thesis by (simp add: apply_delta_unchecked_def)
qed

text \<open>The snapshot of the new world is well formed again, so the next delta can be previewed on it.\<close>

lemma registry_table_contains:
  assumes "registry_matches names r" and "registry_inv r" and "om_contains names i"
  shows "om_contains (registry_table r) i"
  using assms find_registry_table [of r i] by (simp add: registry_matches_def om_contains_def registry_inv_def)

lemma applied_snapshot_wf:
  assumes ok: "world_ok w" and wf: "snapshot_wf (world_snapshot_of H w)" and room: "delta_room w d"
    and clean: "list_all operation_clean d"
    and ov: "overlay_apply H (world_snapshot_of H w) d = Inr s" and ap: "apply_delta_unchecked H d w = Inr (events, w')"
  shows "snapshot_wf (world_snapshot_of H w')"
proof -
  obtain st a where sim: "sim st a" and s: "s = overlay_finish H st"
    and w': "w' = rebuild_index H ((ap_world a)\<lparr>w_epoch := w_epoch w + 1\<rparr>)"
    by (rule overlay_world_sim [OF ok room clean ov ap]) blast
  let ?t = "world_snapshot_of H w'"
  have swf: "snapshot_wf s"
    using overlay_apply_wf [OF wf world_ids_room [OF ok] ov] room by (simp add: delta_room_def)
  have agr: "agree s ?t" by (rule overlay_predicts_world_aux [OF ok room clean ov ap])
  have tables: "sn_type_names ?t = registry_table (w_types (ap_world a))"
    "sn_relation_names ?t = registry_table (w_relations (ap_world a))"
    by (simp_all add: w' snapshot_of_fields)
  have inv: "registry_inv (w_types (ap_world a))" "registry_inv (w_relations (ap_world a))"
    "registry_matches (sn_type_names s) (w_types (ap_world a))"
    "registry_matches (sn_relation_names s) (w_relations (ap_world a))"
    using sim by (simp_all add: sim_def Let_def world_ok_def s overlay_finish_def recompute_counts_def)
  have ids: "has_type_id s i \<Longrightarrow> has_type_id ?t i" "has_relation_id s r \<Longrightarrow> has_relation_id ?t r" for i r
    using registry_table_contains [OF inv(3,1)] registry_table_contains [OF inv(4,2)]
    by (simp_all add: has_type_id_def has_relation_id_def tables)
  have same: "sn_objects ?t = sn_objects s" "sn_pointers ?t = sn_pointers s" using agr by (simp_all add: agree_def)
  have om: "om_inv (sn_type_names ?t)" "om_inv (sn_relation_names ?t)"
    using registry_table_alt(2) inv(1,2) by (simp_all add: tables registry_inv_def)
  have "object_wf s ob \<Longrightarrow> object_wf ?t ob" "pointer_wf s p \<Longrightarrow> pointer_wf ?t p" for ob p
    using wf_mono [of s ?t] ids same by auto
  then show ?thesis using swf om unfolding snapshot_wf_def same by (simp add: list_all_iff)
qed

section \<open>Histories\<close>

text \<open>The worlds that a fresh world reaches by deltas that the overlay accepted first.\<close>

inductive reachable_world :: "digest \<Rightarrow> world \<Rightarrow> bool" for H where
  fresh: "reachable_world H (new_world name i)"
| commit: "reachable_world H w \<Longrightarrow> delta_room w d \<Longrightarrow> list_all operation_clean d \<Longrightarrow>
    overlay_apply H (world_snapshot_of H w) d = Inr s \<Longrightarrow> apply_delta_unchecked H d w = Inr (events, w') \<Longrightarrow>
    reachable_world H w'"

lemma new_world_snapshot_wf: "snapshot_wf (world_snapshot_of H (new_world name i))"
  by (simp add: snapshot_wf_def world_snapshot_of_def Let_def world_view_def new_world_def registry_table_def
      registry_empty_def)

lemma reachable_world_inv: "reachable_world H w \<Longrightarrow> world_ok w \<and> snapshot_wf (world_snapshot_of H w)"
proof (induction rule: reachable_world.induct)
  case (commit w d s events w')
  then show ?case using apply_delta_ok [of w d H events w'] applied_snapshot_wf [of w H d s events w'] by simp
qed (simp add: new_world_ok new_world_snapshot_wf)

end
