(* ===== verification/World_Restore.thy ===== *)
theory World_Restore
  imports World_Inv
begin

text \<open>
  Restoring a world from its snapshot (\<open>World::from_snapshot\<close>).  The snapshot of a consistent world
  holds everything except the trace: restoring it gives the world back, index included.
\<close>

lemma emplace_sorted_attributes: "om_inv m \<Longrightarrow> emplace_all (sort_attributes m) = m"
  by (simp add: sort_attributes_om)

lemma object_of_view [simp]:
  "om_inv (ob_attributes ob) \<Longrightarrow> object_of_snapshot (object_view ob) = ob"
  "object_of_snapshot (ob'\<lparr>os_incoming := x, os_outgoing := y\<rparr>) = object_of_snapshot ob'"
  by (simp_all add: object_of_snapshot_def object_view_def emplace_sorted_attributes)

lemma edge_of_view [simp]: "om_inv (pe_attributes p) \<Longrightarrow> edge_of_snapshot (pointer_view p) = p"
  by (simp add: edge_of_snapshot_def pointer_view_def emplace_sorted_attributes)

lemma sort_dense:
  assumes "arena_dense objects" and "length objects < 2 ^ 32"
  shows "sort_by (\<lambda>l r. ob_id l < ob_id r) objects = objects"
proof (rule sort_by_id)
  show "sorted_wrt (\<lambda>x y. \<not> ob_id y < ob_id x) objects"
    unfolding sorted_wrt_iff_nth_less
  proof (intro allI impI)
    fix i j
    assume ij: "i < j" "j < length objects"
    have "(of_nat i :: u32) < of_nat j"
      using ij assms(2) unat_of_nat_u32 [of i] unat_of_nat_u32 [of j] by (simp add: word_less_nat_alt)
    then show "\<not> ob_id (objects ! j) < ob_id (objects ! i)"
      using ij arena_dense_nth [OF assms(1)] by (auto simp: less_object_id_def)
  qed
qed

lemma object_names_restored:
  assumes ok: "world_ok w"
  shows "fold (\<lambda>ob. om_emplace (ob_name ob) (ob_id ob)) (w_objects w) [] = w_object_names w"
proof (rule om_ext)
  show "om_inv (fold (\<lambda>ob. om_emplace (ob_name ob) (ob_id ob)) (w_objects w) [])"
    by (rule fold_om_emplace_inv) simp
  show "om_inv (w_object_names w)" using ok by (simp add: world_ok_def)
  have find: "om_find (fold (\<lambda>ob. om_emplace (ob_name ob) (ob_id ob)) obs m) n
      = (case om_find m n of Some i \<Rightarrow> Some i | None \<Rightarrow> map_option ob_id (List.find (\<lambda>ob. ob_name ob = n) obs))" for obs m n
    by (induction obs arbitrary: m) (auto simp: om_find_emplace split: option.split)
  fix n
  show "om_find (fold (\<lambda>ob. om_emplace (ob_name ob) (ob_id ob)) (w_objects w) []) n = om_find (w_object_names w) n"
  proof (cases "List.find (\<lambda>ob. ob_name ob = n) (w_objects w)")
    case None
    then have "n \<notin> fst ` set (w_object_names w)" using ok by (auto simp: world_ok_def find_None_mem)
    moreover have "om_inv (w_object_names w)" using ok by (simp add: world_ok_def)
    ultimately have "om_find (w_object_names w) n = None" by (simp add: om_find_None_iff image_iff)
    with None show ?thesis by (simp add: find)
  next
    case (Some ob)
    then have "ob \<in> set (w_objects w)" "ob_name ob = n" by (auto simp: find_Some_iff)
    then have "om_find (w_object_names w) n = Some (ob_id ob)" using ok by (auto simp: world_ok_def list_all_iff)
    with Some show ?thesis by (simp add: find)
  qed
qed

lemma from_snapshot_world:
  assumes ok: "world_ok w" and name: "w_name w \<noteq> []"
  shows "from_snapshot H (world_snapshot_of H w) = rebuild_index H (w\<lparr>w_trace := []\<rparr>)"
proof -
  let ?s = "world_snapshot_of H w"
  have inv: "registry_inv (w_types w)" "registry_inv (w_relations w)" "arena_dense (w_objects w)"
    "length (w_objects w) < 2 ^ 32" and np: "w_next_pointer_id w = pointer_bound (map pe_id (w_pointers w))"
    using ok by (simp_all add: world_ok_def pointer_ids_ok_def)
  have "map object_of_snapshot (sn_objects ?s) = map (object_of_snapshot \<circ> object_view) (w_objects w)"
    by (simp add: world_snapshot_of_def Let_def world_view_def comp_def)
  also have "\<dots> = w_objects w"
    using ok by (intro map_idI) (simp add: world_ok_def list_all_iff)
  finally have objects: "map object_of_snapshot (sn_objects ?s) = w_objects w" .
  have pointers: "map edge_of_snapshot (map pointer_view (w_pointers w)) = w_pointers w"
    using ok by (simp add: comp_def) (intro map_idI, simp add: world_ok_def list_all_iff)
  have names: "fold (\<lambda>ob. om_emplace (os_name ob) (os_id ob)) (sn_objects ?s) [] = w_object_names w"
    using object_names_restored [OF ok]
    by (simp add: world_snapshot_of_def Let_def world_view_def fold_map comp_def object_view_def)
  have bound: "fold (\<lambda>p next. max next (ps_id p + 1)) (map pointer_view (w_pointers w)) 1 = w_next_pointer_id w"
    by (simp add: np pointer_bound_def fold_map comp_def pointer_view_def)
  have parts: "sn_world ?s = w_id w" "sn_world_name ?s = w_name w" "sn_epoch ?s = w_epoch w"
    "sn_pointers ?s = map pointer_view (w_pointers w)" "sn_type_names ?s = registry_table (w_types w)"
    "sn_relation_names ?s = registry_table (w_relations w)"
    by (simp_all add: world_snapshot_of_def Let_def world_view_def)
  have "(new_world (w_name w) (w_id w))\<lparr>w_epoch := w_epoch w, w_types := w_types w, w_relations := w_relations w,
      w_objects := w_objects w, w_object_names := w_object_names w, w_pointers := w_pointers w,
      w_next_pointer_id := w_next_pointer_id w\<rparr> = w\<lparr>w_index := index_empty, w_trace := []\<rparr>"
    using name by (simp add: new_world_def)
  moreover have "rebuild_index H (w\<lparr>w_index := index_empty, w_trace := []\<rparr>) = rebuild_index H (w\<lparr>w_trace := []\<rparr>)"
    by (simp add: rebuild_index_def world_snapshot_of_def world_view_def)
  ultimately show ?thesis
    unfolding from_snapshot_def objects names parts pointers bound sort_dense [OF inv(3,4)]
      relation_restore_def registry_restore_table [OF inv(1)] registry_restore_table [OF inv(2)]
    by (simp only:)
qed

end
