(* ===== verification/Merge_Sequential.thy ===== *)
theory Merge_Sequential
  imports Overlay_Inv
begin

text \<open>
  Merging two deltas into one (\<open>merge_sequential\<close> of \<open>src/core/snapshot.cpp\<close>): both must apply one
  after the other, the temporary objects of the second are renamed away from those of the first,
  references to objects the first creates become temporary again, superseded type updates are
  dropped, and the merged delta must itself apply.
\<close>

datatype delta_merge_error =
    OverlayRejected
  | MergeDuplicateTempObject
  | MergeConflictingObjectUpdate
  | MergeUpdateMissingObject
  | MergePointerMissingObject
  | MergeInvalidPointerRemove
  | MergeInvalidPointerRelation

definition ref_key :: "object_ref \<Rightarrow> string" where
  "ref_key r = object_ref_to_string r"

fun type_updates_conflict :: "object_update list \<Rightarrow> (string, type_id) omap \<Rightarrow> bool" where
  "type_updates_conflict [] seen = False"
| "type_updates_conflict (u # us) seen =
     (case ou_type u of
        None \<Rightarrow> type_updates_conflict us seen
      | Some t \<Rightarrow>
          (case om_find seen (ref_key (ou_object u)) of
             Some t' \<Rightarrow> t' \<noteq> t \<or> type_updates_conflict us seen
           | None \<Rightarrow> type_updates_conflict us (om_emplace (ref_key (ou_object u)) t seen)))"

definition reject_internal_type_conflicts :: "delta \<Rightarrow> bool" where
  "reject_internal_type_conflicts d = type_updates_conflict (updates_view d) []"

definition synthetic_temp_map :: "world_snapshot \<Rightarrow> delta \<Rightarrow> (object_id, temp_object_id) omap" where
  "synthetic_temp_map base d =
     fst (fold (\<lambda>c (m, next). (om_emplace (ObjectId next 1) (co_temp c) m, next + 1)) (creates_view d)
       ([], next_object_index base))"

definition next_temp_id :: "delta \<Rightarrow> delta \<Rightarrow> temp_object_id" where
  "next_temp_id first second =
     fold (\<lambda>c next. max next (co_temp c + 1)) (creates_view second)
       (fold (\<lambda>c next. max next (co_temp c + 1)) (creates_view first) 1)"

text \<open>The reference a type update is about.\<close>

definition type_update_of :: "operation_body \<Rightarrow> object_ref option" where
  "type_update_of b = (case b of SetObjectType r _ \<Rightarrow> Some r | _ \<Rightarrow> None)"

definition last_type_update :: "delta \<Rightarrow> (string, nat) omap" where
  "last_type_update ops =
     fold (\<lambda>(k, op) m. case type_update_of (op_body op) of Some r \<Rightarrow> om_put (ref_key r) k m | None \<Rightarrow> m)
       (enumerate 0 ops) []"

definition compress_updates :: "delta \<Rightarrow> delta" where
  "compress_updates ops =
     map snd (filter (\<lambda>(k, op). case type_update_of (op_body op) of
         Some r \<Rightarrow> om_find (last_type_update ops) (ref_key r) = Some k | None \<Rightarrow> True)
       (enumerate 0 ops))"

text \<open>The loop that renames the temporary objects of the second delta.\<close>

fun remap_temps :: "u32 set \<Rightarrow> create_object_op list \<Rightarrow> temp_object_id \<Rightarrow> (u32, temp_object_id) omap \<Rightarrow>
    delta_merge_error + (u32, temp_object_id) omap" where
  "remap_temps first_temps [] next m = Inr m"
| "remap_temps first_temps (c # cs) next m =
     (if co_temp c = 0 then Inl MergeDuplicateTempObject
      else
        let clash = (co_temp c \<in> first_temps);
            remapped = (if clash then next else co_temp c);
            next' = (if clash then next + 1 else next)
        in if om_contains m (co_temp c) then Inl MergeDuplicateTempObject
           else remap_temps first_temps cs next' (om_emplace (co_temp c) remapped m))"

definition normalize_ref :: "world_snapshot \<Rightarrow> u32 set \<Rightarrow> (u32, temp_object_id) omap \<Rightarrow>
    (object_id, temp_object_id) omap \<Rightarrow> object_ref \<Rightarrow> object_ref option" where
  "normalize_ref base first_temps remap synthetic r = (case r of
       RefTemp t \<Rightarrow>
         if t = 0 then None
         else (case om_find remap t of
             Some t' \<Rightarrow> Some (RefTemp t')
           | None \<Rightarrow> if t \<in> first_temps then Some (RefTemp t) else None)
     | RefObject i \<Rightarrow>
         if snapshot_contains base i then Some (RefObject i)
         else map_option RefTemp (om_find synthetic i))"

definition normalize_body :: "(object_ref \<Rightarrow> object_ref option) \<Rightarrow> (u32, temp_object_id) omap \<Rightarrow>
    operation_body \<Rightarrow> delta_merge_error + operation_body" where
  "normalize_body norm remap body =
     (let object = (\<lambda>r f. case norm r of None \<Rightarrow> Inl MergeUpdateMissingObject | Some r' \<Rightarrow> Inr (f r'))
      in case body of
        CreateObject c \<Rightarrow>
          (case om_find remap (co_temp c) of
             None \<Rightarrow> Inl MergeDuplicateTempObject
           | Some t \<Rightarrow> Inr (CreateObject (c\<lparr>co_temp := t\<rparr>)))
      | SetObjectType r t \<Rightarrow> object r (\<lambda>r. SetObjectType r t)
      | SetObjectExistence r e \<Rightarrow> object r (\<lambda>r. SetObjectExistence r e)
      | SetObjectAttribute r a \<Rightarrow> object r (\<lambda>r. SetObjectAttribute r a)
      | RemoveObjectAttribute r k \<Rightarrow> object r (\<lambda>r. RemoveObjectAttribute r k)
      | CreatePointer c \<Rightarrow>
          (case (norm (cp_from c), norm (cp_to c)) of
             (Some f, Some t) \<Rightarrow> Inr (CreatePointer (c\<lparr>cp_from := f, cp_to := t\<rparr>))
           | _ \<Rightarrow> Inl MergePointerMissingObject)
      | AssertObject r \<Rightarrow> object r AssertObject
      | _ \<Rightarrow> Inr body)"

definition number_operations :: "delta \<Rightarrow> delta" where
  "number_operations ops = map (\<lambda>(k, op). op\<lparr>op_id := of_nat (k + 1)\<rparr>) (enumerate 0 ops)"

definition merge_sequential :: "digest \<Rightarrow> world_snapshot \<Rightarrow> delta \<Rightarrow> delta \<Rightarrow> delta_merge_error + delta" where
  "merge_sequential H base first second =
     (if reject_internal_type_conflicts first \<or> reject_internal_type_conflicts second
      then Inl MergeConflictingObjectUpdate
      else case overlay_apply H base first of
        Inl _ \<Rightarrow> Inl OverlayRejected
      | Inr mid \<Rightarrow>
          (case overlay_apply H mid second of
             Inl _ \<Rightarrow> Inl OverlayRejected
           | Inr _ \<Rightarrow>
               let first_temps = co_temp ` set (creates_view first);
                   synthetic = synthetic_temp_map base first
               in res_bind (remap_temps first_temps (creates_view second) (next_temp_id first second) [])
                 (\<lambda>remap. res_bind
                   (res_fold (\<lambda>d op. res_bind
                        (normalize_body (normalize_ref base first_temps remap synthetic) remap (op_body op))
                        (\<lambda>b. Inr (append_body b d)))
                     [] second)
                   (\<lambda>normalized.
                      let out = number_operations (compress_updates (number_operations (first @ normalized)))
                      in case overlay_apply H base out of Inl _ \<Rightarrow> Inl OverlayRejected | Inr _ \<Rightarrow> Inr out))))"

definition merge_sequential_empty :: "digest \<Rightarrow> delta \<Rightarrow> delta \<Rightarrow> delta_merge_error + delta" where
  "merge_sequential_empty H first second =
     merge_sequential H \<lparr>sn_world = 0, sn_world_name = ''overlay'', sn_epoch = 0, sn_objects = [], sn_pointers = [],
       sn_facts = [], sn_type_names = [], sn_relation_names = []\<rparr> first second"

fun merge_error_to_string :: "delta_merge_error \<Rightarrow> string" where
  "merge_error_to_string OverlayRejected = ''OverlayRejected''"
| "merge_error_to_string MergeDuplicateTempObject = ''DuplicateTempObject''"
| "merge_error_to_string MergeConflictingObjectUpdate = ''ConflictingObjectUpdate''"
| "merge_error_to_string MergeUpdateMissingObject = ''UpdateMissingObject''"
| "merge_error_to_string MergePointerMissingObject = ''PointerMissingObject''"
| "merge_error_to_string MergeInvalidPointerRemove = ''InvalidPointerRemove''"
| "merge_error_to_string MergeInvalidPointerRelation = ''InvalidPointerRelation''"

section \<open>What a merge returns\<close>

lemma merge_sequential_Inr:
  assumes "merge_sequential H base first second = Inr out"
  obtains mid after result normalized where
    "\<not> reject_internal_type_conflicts first" and "\<not> reject_internal_type_conflicts second"
    and "overlay_apply H base first = Inr mid" and "overlay_apply H mid second = Inr after"
    and "out = number_operations (compress_updates (number_operations (first @ normalized)))"
    and "overlay_apply H base out = Inr result" and "length normalized = length second"
proof -
  have len: "length d' = length d + length ops"
    if "res_fold (\<lambda>d op. res_bind (f (op_body op)) (\<lambda>b. Inr (append_body b d))) d ops = Inr d'"
    for f :: "operation_body \<Rightarrow> delta_merge_error + operation_body" and d ops d'
    using that
  proof (induction ops arbitrary: d)
    case (Cons op ops)
    then show ?case by (fastforce simp: res_bind_Inr_iff)
  qed simp
  from assms obtain mid where noconf: "\<not> reject_internal_type_conflicts first" "\<not> reject_internal_type_conflicts second"
    and mid: "overlay_apply H base first = Inr mid"
    by (auto simp: merge_sequential_def split: if_splits sum.splits)
  with assms obtain after where after: "overlay_apply H mid second = Inr after"
    by (auto simp: merge_sequential_def split: if_splits sum.splits)
  from assms obtain remap normalized where fold: "res_fold (\<lambda>d op. res_bind
        (normalize_body (normalize_ref base (co_temp ` set (creates_view first)) remap (synthetic_temp_map base first))
           remap (op_body op)) (\<lambda>b. Inr (append_body b d))) [] second = Inr normalized"
    and last: "(case overlay_apply H base (number_operations (compress_updates (number_operations (first @ normalized)))) of
          Inl _ \<Rightarrow> Inl OverlayRejected
        | Inr _ \<Rightarrow> Inr (number_operations (compress_updates (number_operations (first @ normalized))))) = Inr out"
    using noconf mid after by (auto simp: merge_sequential_def Let_def res_bind_Inr_iff)
  from last obtain result where "overlay_apply H base out = Inr result"
    and "out = number_operations (compress_updates (number_operations (first @ normalized)))"
    by (auto split: sum.splits)
  with that noconf mid after len [OF fold] show ?thesis by simp
qed

lemma length_number [simp]: "length (number_operations ops) = length ops"
  by (simp add: number_operations_def)

lemma bodies_number [simp]: "map op_body (number_operations ops) = map op_body ops"
  by (rule nth_equalityI) (simp_all add: number_operations_def nth_enumerate_eq)

lemma ids_number: "map op_id (number_operations ops) = map (\<lambda>k. of_nat (k + 1)) [0..<length ops]"
  by (rule nth_equalityI) (simp_all add: number_operations_def nth_enumerate_eq)

lemma filter_bodies:
  "map op_body xs = map op_body ys \<Longrightarrow>
   map op_body (filter (\<lambda>op. P (op_body op)) xs) = map op_body (filter (\<lambda>op. P (op_body op)) ys)"
proof -
  have "map op_body (filter (\<lambda>op. P (op_body op)) zs) = filter P (map op_body zs)" for zs
    by (induction zs) auto
  then show "map op_body xs = map op_body ys \<Longrightarrow>
     map op_body (filter (\<lambda>op. P (op_body op)) xs) = map op_body (filter (\<lambda>op. P (op_body op)) ys)" by metis
qed

lemma compress_keeps_others:
  "filter (\<lambda>op. type_update_of (op_body op) = None) (compress_updates ops)
     = filter (\<lambda>op. type_update_of (op_body op) = None) ops"
proof -
  have "filter (\<lambda>op. type_update_of (op_body op) = None) (map snd (filter (\<lambda>(k, op).
         case type_update_of (op_body op) of Some r \<Rightarrow> P r k | None \<Rightarrow> True) (enumerate n ops)))
      = filter (\<lambda>op. type_update_of (op_body op) = None) ops" for P n
    by (induction ops arbitrary: n) (auto split: option.splits)
  then show ?thesis by (simp add: compress_updates_def)
qed

text \<open>The table of last type updates holds the greatest position of each key.\<close>

lemma last_type_update_snoc:
  "last_type_update (ops @ [op]) =
     (case type_update_of (op_body op) of Some r \<Rightarrow> om_put (ref_key r) (length ops) (last_type_update ops)
                                        | None \<Rightarrow> last_type_update ops)"
  by (simp add: last_type_update_def enumerate_append_eq split: option.split)

definition type_key :: "operation \<Rightarrow> string option" where
  "type_key op = map_option ref_key (type_update_of (op_body op))"

lemma find_last_type_update_snoc:
  "om_find (last_type_update (ops @ [op])) key =
     (if type_key op = Some key then Some (length ops) else om_find (last_type_update ops) key)"
  by (auto simp: last_type_update_snoc type_key_def om_find_put split: option.split)

lemma last_type_update_spec:
  "om_find (last_type_update ops) key = Some k \<longleftrightarrow>
     k < length ops \<and> type_key (ops ! k) = Some key
     \<and> (\<forall>j. k < j \<longrightarrow> j < length ops \<longrightarrow> type_key (ops ! j) \<noteq> Some key)"
proof (induction ops arbitrary: k rule: rev_induct)
  case Nil
  show ?case by (simp add: last_type_update_def)
next
  case (snoc op ops)
  show ?case
    by (cases "type_key op = Some key") (auto simp: find_last_type_update_snoc snoc nth_append less_Suc_eq)
qed

text \<open>After compression every reference has at most one type update.\<close>

definition type_update_keys :: "delta \<Rightarrow> string list" where
  "type_update_keys ops = List.map_filter type_key ops"

lemma type_update_keys_simps [simp]:
  "type_update_keys [] = []"
  "type_update_keys (op # ops) = (case type_key op of Some k \<Rightarrow> k # type_update_keys ops | None \<Rightarrow> type_update_keys ops)"
  by (simp_all add: type_update_keys_def List.map_filter_simps split: option.split)

definition kept_updates :: "(string, nat) omap \<Rightarrow> nat \<Rightarrow> delta \<Rightarrow> delta" where
  "kept_updates m n ops = map snd (filter (\<lambda>(k, op). case type_update_of (op_body op) of
     Some r \<Rightarrow> om_find m (ref_key r) = Some k | None \<Rightarrow> True) (enumerate n ops))"

lemma kept_updates_simps [simp]:
  "kept_updates m n [] = []"
  "kept_updates m n (op # ops) =
     (case type_key op of
        Some key \<Rightarrow> if om_find m key = Some n then op # kept_updates m (Suc n) ops else kept_updates m (Suc n) ops
      | None \<Rightarrow> op # kept_updates m (Suc n) ops)"
  by (simp_all add: kept_updates_def type_key_def split: option.split)

lemma kept_updates_keys:
  "key \<in> set (type_update_keys (kept_updates m n ops)) \<Longrightarrow> \<exists>k \<ge> n. om_find m key = Some k"
proof (induction ops arbitrary: n)
  case (Cons op ops)
  show ?case
  proof (cases "key \<in> set (type_update_keys (kept_updates m (Suc n) ops))")
    case True
    from Cons.IH [OF this] obtain k where "Suc n \<le> k" "om_find m key = Some k" by auto
    then have "n \<le> k \<and> om_find m key = Some k" by simp
    then show ?thesis by blast
  next
    case False
    with Cons.prems show ?thesis by (auto split: option.splits if_splits)
  qed
qed simp

lemma kept_updates_distinct: "distinct (type_update_keys (kept_updates m n ops))"
proof (induction ops arbitrary: n)
  case (Cons op ops)
  have "key \<notin> set (type_update_keys (kept_updates m (Suc n) ops))" if "om_find m key = Some n" for key
    using kept_updates_keys [of key m "Suc n" ops] that by auto
  with Cons show ?case by (auto split: option.split)
qed simp

lemma compress_distinct: "distinct (type_update_keys (compress_updates ops))"
  using kept_updates_distinct [of "last_type_update ops" 0 ops]
  by (simp add: compress_updates_def kept_updates_def)

lemma type_update_keys_bodies:
  assumes "map op_body xs = map op_body ys"
  shows "type_update_keys xs = type_update_keys ys"
proof -
  have "type_update_keys zs = List.map_filter (\<lambda>b. map_option ref_key (type_update_of b)) (map op_body zs)" for zs
    by (induction zs) (auto simp: type_key_def List.map_filter_simps split: option.split)
  with assms show ?thesis by metis
qed

end
