(* ===== verification/Codec_Commit.thy ===== *)
theory Codec_Commit
  imports Codec_Snapshot
begin

text \<open>
  Commit records and stored commits: the record bodies of \<open>src/kernel/canonical_codec.cpp\<close>
  (lines 1360 to 1622), the stored commit of \<open>src/storage/object_codec.cpp\<close>, the identity of a
  commit (\<open>src/runtime/commit_record.cpp\<close>) and the hash of its proof
  (\<open>src/kernel/proof.cpp\<close>).  A stored commit is read with the current proof layout first and with
  the legacy one, which has no program root, when that does not consume the stream exactly.
\<close>

section \<open>Proofs\<close>

definition encode_commit_proof :: "commit_proof \<Rightarrow> bytes" where
  "encode_commit_proof p =
     writer_hash (cpf_program_root p) @ writer_hash (cpf_before_root p) @ writer_hash (cpf_operation_root p)
     @ writer_hash (cpf_read_set_root p) @ writer_hash (cpf_write_set_root p)
     @ writer_hash (cpf_law_input_root p) @ writer_hash (cpf_law_output_root p) @ writer_hash (cpf_after_root p)"

definition decode_proof_tail :: "hash256 \<Rightarrow> commit_proof decoder" where
  "decode_proof_tail program =
     rbind reader_hash (\<lambda>b. rbind reader_hash (\<lambda>ops. rbind reader_hash (\<lambda>r. rbind reader_hash (\<lambda>w.
     rbind reader_hash (\<lambda>li. rbind reader_hash (\<lambda>lo. rbind reader_hash (\<lambda>a.
     rret \<lparr>cpf_program_root = program, cpf_before_root = b, cpf_operation_root = ops, cpf_read_set_root = r,
           cpf_write_set_root = w, cpf_law_input_root = li, cpf_law_output_root = lo, cpf_after_root = a\<rparr>)))))))"

definition decode_commit_proof_v1 :: "commit_proof decoder" where
  "decode_commit_proof_v1 = decode_proof_tail 0"

definition decode_commit_proof :: "commit_proof decoder" where
  "decode_commit_proof = rbind reader_hash decode_proof_tail"

definition hash_commit_proof :: "digest \<Rightarrow> commit_proof \<Rightarrow> hash256" where
  "hash_commit_proof H p = H (writer_string ''CommitProof:v2'' @ encode_commit_proof p)"

interpretation proofc: stable_codec encode_commit_proof decode_commit_proof "\<lambda>p. p" "\<lambda>_. True"
  by unfold_locales
    (simp_all add: encode_commit_proof_def decode_commit_proof_def decode_proof_tail_def codec_simps)

section \<open>Record bodies\<close>

definition blank_commit :: commit_record where
  "blank_commit =
     \<lparr>cr_id = 0, cr_parent = None, cr_parents = [], cr_world = 0, cr_branch = 0, cr_branch_name = [],
      cr_transaction = 0, cr_before_epoch = 0, cr_after_epoch = 0, cr_before_snapshot = 0,
      cr_after_snapshot = 0, cr_before_hash = 0, cr_after_hash = 0, cr_delta_hash = 0, cr_program_hash = 0,
      cr_instruction_root = 0, cr_symbol_table_hash = 0, cr_trace_hash = 0, cr_law_hash = 0,
      cr_violation_hash = 0, cr_morphism_path_hash = 0, cr_execution_plan_hash = 0, cr_read_set_hash = 0,
      cr_write_set_hash = 0, cr_proof_hash = 0, cr_proof = None, cr_before_root = 0, cr_after_root = 0,
      cr_checkpoint_snapshot_object = 0, cr_checkpoint_distance = 0, cr_graph_page_roots = [],
      cr_accepted = False, cr_origin = Manual, cr_label = [], cr_law_statuses = [], cr_violations = [],
      cr_events = []\<rparr>"

definition encode_commit_head :: "commit_record \<Rightarrow> bytes" where
  "encode_commit_head r =
     encode_optional_commit_id (cr_parent r) @ wlist writer_hash (cr_parents r) @ writer_u64 (cr_world r)
     @ writer_u64 (cr_branch r) @ writer_string (cr_branch_name r) @ writer_u64 (cr_transaction r)
     @ writer_u64 (cr_before_epoch r) @ writer_u64 (cr_after_epoch r)
     @ writer_hash (cr_before_hash r) @ writer_hash (cr_after_hash r) @ writer_hash (cr_delta_hash r)"

definition encode_commit_hashes :: "commit_record \<Rightarrow> bytes" where
  "encode_commit_hashes r =
     writer_hash (cr_program_hash r) @ writer_hash (cr_instruction_root r) @ writer_hash (cr_symbol_table_hash r)
     @ writer_hash (cr_trace_hash r) @ writer_hash (cr_law_hash r) @ writer_hash (cr_violation_hash r)
     @ writer_hash (cr_morphism_path_hash r) @ writer_hash (cr_execution_plan_hash r)
     @ writer_hash (cr_read_set_hash r) @ writer_hash (cr_write_set_hash r) @ writer_hash (cr_proof_hash r)"

definition encode_optional_proof :: "commit_proof option \<Rightarrow> bytes" where
  "encode_optional_proof p =
     writer_bool (p \<noteq> None) @ (case p of None \<Rightarrow> [] | Some p \<Rightarrow> encode_commit_proof p)"

definition encode_commit_tail :: "commit_record \<Rightarrow> bytes" where
  "encode_commit_tail r =
     writer_bool (cr_accepted r) @ writer_u8 (origin_to_byte (cr_origin r)) @ writer_string (cr_label r)"

definition encode_commit_record_body :: "commit_record \<Rightarrow> bytes" where
  "encode_commit_record_body r =
     encode_commit_head r @ encode_commit_hashes r @ encode_optional_proof (cr_proof r) @ encode_commit_tail r"

definition encode_commit_roots :: "commit_record \<Rightarrow> bytes" where
  "encode_commit_roots r =
     writer_hash (cr_before_root r) @ writer_hash (cr_after_root r)
     @ writer_hash (cr_checkpoint_snapshot_object r) @ writer_u64 (cr_checkpoint_distance r)
     @ wlist writer_hash (cr_graph_page_roots r)"

definition encode_commit_record_body_v4 :: "commit_record \<Rightarrow> bytes" where
  "encode_commit_record_body_v4 r = encode_commit_record_body r @ encode_commit_roots r"

text \<open>Decoders fill a record group by group; a group is a decoder from record to record.\<close>

definition decode_commit_head :: "commit_record \<Rightarrow> commit_record decoder" where
  "decode_commit_head r =
     rbind decode_optional_commit_id (\<lambda>parent. rbind (rlist reader_hash) (\<lambda>parents.
     rbind reader_u64 (\<lambda>world. rbind reader_u64 (\<lambda>branch. rbind reader_string (\<lambda>name.
     rbind reader_u64 (\<lambda>transaction. rbind reader_u64 (\<lambda>before. rbind reader_u64 (\<lambda>after.
     rbind reader_hash (\<lambda>before_hash. rbind reader_hash (\<lambda>after_hash. rbind reader_hash (\<lambda>delta_hash.
     rret (r\<lparr>cr_parent := parent, cr_parents := parents, cr_world := world, cr_branch := branch,
             cr_branch_name := name, cr_transaction := transaction, cr_before_epoch := before,
             cr_after_epoch := after, cr_before_hash := before_hash, cr_after_hash := after_hash,
             cr_delta_hash := delta_hash\<rparr>))))))))))))"

definition decode_commit_program :: "commit_record \<Rightarrow> commit_record decoder" where
  "decode_commit_program r =
     rbind reader_hash (\<lambda>p. rbind reader_hash (\<lambda>i. rbind reader_hash (\<lambda>s.
     rret (r\<lparr>cr_program_hash := p, cr_instruction_root := i, cr_symbol_table_hash := s\<rparr>))))"

definition decode_commit_laws :: "commit_record \<Rightarrow> commit_record decoder" where
  "decode_commit_laws r =
     rbind reader_hash (\<lambda>t. rbind reader_hash (\<lambda>l. rbind reader_hash (\<lambda>v. rbind reader_hash (\<lambda>m.
     rret (r\<lparr>cr_trace_hash := t, cr_law_hash := l, cr_violation_hash := v, cr_morphism_path_hash := m\<rparr>)))))"

definition decode_optional_proof :: "commit_proof decoder \<Rightarrow> commit_proof option decoder" where
  "decode_optional_proof d = rbind reader_u8 (\<lambda>b. if b \<noteq> 0 then rmap Some d else rret None)"

definition decode_commit_plan :: "commit_proof decoder \<Rightarrow> commit_record \<Rightarrow> commit_record decoder" where
  "decode_commit_plan d r =
     rbind reader_hash (\<lambda>e. rbind reader_hash (\<lambda>rs. rbind reader_hash (\<lambda>ws. rbind reader_hash (\<lambda>p.
     rbind (decode_optional_proof d) (\<lambda>proof.
     rret (r\<lparr>cr_execution_plan_hash := e, cr_read_set_hash := rs, cr_write_set_hash := ws,
             cr_proof_hash := p, cr_proof := proof\<rparr>))))))"

definition decode_commit_tail :: "commit_record \<Rightarrow> commit_record decoder" where
  "decode_commit_tail r =
     rbind reader_u8 (\<lambda>a. rbind reader_u8 (\<lambda>g. rbind reader_string (\<lambda>l.
     rret (r\<lparr>cr_accepted := (a \<noteq> 0), cr_origin := origin_of_byte g, cr_label := l\<rparr>))))"

definition decode_commit_roots :: "commit_record \<Rightarrow> commit_record decoder" where
  "decode_commit_roots r =
     rbind reader_hash (\<lambda>b. rbind reader_hash (\<lambda>a. rbind reader_hash (\<lambda>c. rbind reader_u64 (\<lambda>d.
     rbind (rlist reader_hash) (\<lambda>g.
     rret (r\<lparr>cr_before_root := b, cr_after_root := a, cr_checkpoint_snapshot_object := c,
             cr_checkpoint_distance := d, cr_graph_page_roots := g\<rparr>))))))"

definition decode_commit_record_body_v1 :: "commit_record decoder" where
  "decode_commit_record_body_v1 =
     rbind (decode_commit_head blank_commit) (\<lambda>r. rbind (decode_commit_laws r) decode_commit_tail)"

definition decode_commit_record_body_v2 :: "commit_record decoder" where
  "decode_commit_record_body_v2 =
     rbind (decode_commit_head blank_commit) (\<lambda>r. rbind (decode_commit_laws r) (\<lambda>r.
     rbind (decode_commit_plan decode_commit_proof_v1 r) decode_commit_tail))"

definition decode_commit_record_body_with_proof :: "bool \<Rightarrow> commit_record decoder" where
  "decode_commit_record_body_with_proof legacy =
     rbind (decode_commit_head blank_commit) (\<lambda>r. rbind (decode_commit_program r) (\<lambda>r.
     rbind (decode_commit_laws r) (\<lambda>r.
     rbind (decode_commit_plan (if legacy then decode_commit_proof_v1 else decode_commit_proof) r)
       decode_commit_tail)))"

definition decode_commit_record_body :: "commit_record decoder" where
  "decode_commit_record_body = decode_commit_record_body_with_proof False"

definition decode_commit_record_body_legacy_proof :: "commit_record decoder" where
  "decode_commit_record_body_legacy_proof = decode_commit_record_body_with_proof True"

definition decode_commit_record_body_v4 :: "commit_record decoder" where
  "decode_commit_record_body_v4 = rbind decode_commit_record_body decode_commit_roots"

definition decode_commit_record_body_v4_legacy_proof :: "commit_record decoder" where
  "decode_commit_record_body_v4_legacy_proof = rbind decode_commit_record_body_legacy_proof decode_commit_roots"

section \<open>Round trip of the bodies\<close>

definition commit_ok :: "commit_record \<Rightarrow> bool" where
  "commit_ok r = (size_ok (cr_parents r) \<and> size_ok (cr_branch_name r) \<and> origin_wf (cr_origin r)
     \<and> size_ok (cr_label r) \<and> size_ok (cr_graph_page_roots r))"

text \<open>The fields that are kept beside the stream, not in it.\<close>

definition norm_commit :: "commit_record \<Rightarrow> commit_record" where
  "norm_commit r = r\<lparr>cr_id := 0, cr_before_snapshot := 0, cr_after_snapshot := 0, cr_law_statuses := [],
     cr_violations := [], cr_events := []\<rparr>"

definition norm_commit_v3 :: "commit_record \<Rightarrow> commit_record" where
  "norm_commit_v3 r = (norm_commit r)\<lparr>cr_before_root := 0, cr_after_root := 0,
     cr_checkpoint_snapshot_object := 0, cr_checkpoint_distance := 0, cr_graph_page_roots := []\<rparr>"

lemma decode_commit_head_encode [codec_simps]:
  "commit_ok x \<Longrightarrow> decode_commit_head r (encode_commit_head x @ rest) =
     Inr (r\<lparr>cr_parent := cr_parent x, cr_parents := cr_parents x, cr_world := cr_world x,
            cr_branch := cr_branch x, cr_branch_name := cr_branch_name x, cr_transaction := cr_transaction x,
            cr_before_epoch := cr_before_epoch x, cr_after_epoch := cr_after_epoch x,
            cr_before_hash := cr_before_hash x, cr_after_hash := cr_after_hash x,
            cr_delta_hash := cr_delta_hash x\<rparr>, rest)"
  by (simp add: decode_commit_head_def encode_commit_head_def commit_ok_def codec_simps)

lemma decode_optional_proof_encode [codec_simps]:
  "decode_optional_proof decode_commit_proof (encode_optional_proof p @ rest) = Inr (p, rest)"
  using proofc.roundtrip [OF TrueI]
  by (cases p) (simp_all add: decode_optional_proof_def encode_optional_proof_def codec_simps)

lemma decode_commit_tail_encode [codec_simps]:
  "commit_ok x \<Longrightarrow> decode_commit_tail r (encode_commit_tail x @ rest) =
     Inr (r\<lparr>cr_accepted := cr_accepted x, cr_origin := cr_origin x, cr_label := cr_label x\<rparr>, rest)"
  by (simp add: decode_commit_tail_def encode_commit_tail_def commit_ok_def codec_simps)

lemma decode_commit_roots_encode [codec_simps]:
  "commit_ok x \<Longrightarrow> decode_commit_roots r (encode_commit_roots x @ rest) =
     Inr (r\<lparr>cr_before_root := cr_before_root x, cr_after_root := cr_after_root x,
            cr_checkpoint_snapshot_object := cr_checkpoint_snapshot_object x,
            cr_checkpoint_distance := cr_checkpoint_distance x,
            cr_graph_page_roots := cr_graph_page_roots x\<rparr>, rest)"
  by (simp add: decode_commit_roots_def encode_commit_roots_def commit_ok_def codec_simps)

lemma decode_commit_record_body_encode [codec_simps]:
  "commit_ok x \<Longrightarrow>
   decode_commit_record_body (encode_commit_record_body x @ rest) = Inr (norm_commit_v3 x, rest)"
  by (simp add: decode_commit_record_body_def decode_commit_record_body_with_proof_def
      encode_commit_record_body_def encode_commit_hashes_def decode_commit_program_def
      decode_commit_laws_def decode_commit_plan_def codec_simps)
    (simp add: norm_commit_v3_def norm_commit_def blank_commit_def)

lemma decode_commit_record_body_v4_encode [codec_simps]:
  "commit_ok x \<Longrightarrow>
   decode_commit_record_body_v4 (encode_commit_record_body_v4 x @ rest) = Inr (norm_commit x, rest)"
  by (simp add: decode_commit_record_body_v4_def encode_commit_record_body_v4_def codec_simps)
    (simp add: norm_commit_v3_def norm_commit_def)

lemma encode_commit_record_body_norm:
  "encode_commit_record_body (norm_commit x) = encode_commit_record_body x"
  "encode_commit_record_body_v4 (norm_commit x) = encode_commit_record_body_v4 x"
  by (simp_all add: encode_commit_record_body_v4_def encode_commit_record_body_def encode_commit_head_def
      encode_commit_hashes_def encode_commit_tail_def encode_commit_roots_def norm_commit_def)

interpretation commitbodyc: stable_codec encode_commit_record_body_v4 decode_commit_record_body_v4
    norm_commit commit_ok
  by unfold_locales (simp_all add: codec_simps encode_commit_record_body_norm)

section \<open>Stored commits and identities\<close>

definition encode_commit_objects :: "commit_record \<Rightarrow> bytes" where
  "encode_commit_objects r =
     writer_hash (cr_before_hash r) @ writer_hash (cr_after_hash r) @ writer_hash (cr_delta_hash r)
     @ writer_hash (cr_program_hash r) @ writer_hash (cr_trace_hash r) @ writer_hash (cr_law_hash r)
     @ writer_hash (cr_violation_hash r) @ writer_hash (cr_morphism_path_hash r)"

definition encode_commit_identity :: "commit_record \<Rightarrow> bytes" where
  "encode_commit_identity r =
     writer_string ''StoredCommit:v4'' @ encode_commit_record_body_v4 r @ encode_commit_objects r"

definition encode_commit_identity_v3 :: "commit_record \<Rightarrow> bytes" where
  "encode_commit_identity_v3 r =
     writer_string ''StoredCommit:v3'' @ encode_commit_record_body r @ encode_commit_objects r"

definition make_commit_id :: "digest \<Rightarrow> commit_record \<Rightarrow> commit_id" where
  "make_commit_id H r = H (encode_commit_identity r)"

record stored_commit =
  sc_record :: commit_record
  sc_before_snapshot_object :: hash256
  sc_after_snapshot_object :: hash256
  sc_delta_object :: hash256
  sc_program_object :: hash256
  sc_trace_object :: hash256
  sc_law_status_object :: hash256
  sc_violation_object :: hash256
  sc_morphism_path_object :: hash256
  sc_format_version :: u8

definition make_stored_commit :: "commit_record \<Rightarrow> stored_commit" where
  "make_stored_commit r =
     \<lparr>sc_record = r, sc_before_snapshot_object = cr_before_hash r, sc_after_snapshot_object = cr_after_hash r,
      sc_delta_object = cr_delta_hash r, sc_program_object = cr_program_hash r,
      sc_trace_object = cr_trace_hash r, sc_law_status_object = cr_law_hash r,
      sc_violation_object = cr_violation_hash r, sc_morphism_path_object = cr_morphism_path_hash r,
      sc_format_version = 4\<rparr>"

definition stored_commit_identity :: "digest \<Rightarrow> stored_commit \<Rightarrow> commit_id" where
  "stored_commit_identity H c =
     (if sc_format_version c = 4 then H (encode_commit_identity (sc_record c))
      else if sc_format_version c = 3 then H (encode_commit_identity_v3 (sc_record c))
      else 0)"

definition encode_stored_commit :: "stored_commit \<Rightarrow> bytes" where
  "encode_stored_commit c =
     writer_string ''StoredCommit:v4'' @ encode_commit_record_body_v4 (sc_record c)
     @ writer_hash (sc_before_snapshot_object c) @ writer_hash (sc_after_snapshot_object c)
     @ writer_hash (sc_delta_object c) @ writer_hash (sc_program_object c) @ writer_hash (sc_trace_object c)
     @ writer_hash (sc_law_status_object c) @ writer_hash (sc_violation_object c)
     @ writer_hash (sc_morphism_path_object c)"

definition decode_record_for_tag :: "string \<Rightarrow> bool \<Rightarrow> commit_record decoder" where
  "decode_record_for_tag tag legacy =
     (if tag = ''StoredCommit:v1'' then decode_commit_record_body_v1
      else if tag = ''StoredCommit:v2'' then decode_commit_record_body_v2
      else if tag = ''StoredCommit:v3'' then
        (if legacy then decode_commit_record_body_legacy_proof else decode_commit_record_body)
      else (if legacy then decode_commit_record_body_v4_legacy_proof else decode_commit_record_body_v4))"

definition decode_stored_commit_body :: "bool \<Rightarrow> stored_commit decoder" where
  "decode_stored_commit_body legacy = rbind reader_string (\<lambda>tag.
     if tag \<notin> {''StoredCommit:v1'', ''StoredCommit:v2'', ''StoredCommit:v3'', ''StoredCommit:v4''}
     then rthrow UnexpectedTag
     else
       rbind (decode_record_for_tag tag legacy) (\<lambda>r.
       rbind reader_hash (\<lambda>b. rbind reader_hash (\<lambda>a. rbind reader_hash (\<lambda>d.
       rbind (if tag = ''StoredCommit:v3'' \<or> tag = ''StoredCommit:v4'' then reader_hash
              else rret (sc_program_object (make_stored_commit r))) (\<lambda>p.
       rbind reader_hash (\<lambda>t. rbind reader_hash (\<lambda>l. rbind reader_hash (\<lambda>v. rbind reader_hash (\<lambda>m.
       rret \<lparr>sc_record = r, sc_before_snapshot_object = b, sc_after_snapshot_object = a,
             sc_delta_object = d, sc_program_object = p, sc_trace_object = t, sc_law_status_object = l,
             sc_violation_object = v, sc_morphism_path_object = m,
             sc_format_version = (if tag = ''StoredCommit:v4'' then 4 else if tag = ''StoredCommit:v3'' then 3
                                  else if tag = ''StoredCommit:v2'' then 2 else 1)\<rparr>))))))))))"

definition decode_stored_commit :: "stored_commit decoder" where
  "decode_stored_commit s =
     (let legacy = (\<lambda>e. case decode_stored_commit_body True s of
            Inr (c, rest) \<Rightarrow> if reader_eof rest then Inr (c, rest) else Inl e
          | Inl _ \<Rightarrow> Inl e)
      in case decode_stored_commit_body False s of
           Inr (c, rest) \<Rightarrow> if reader_eof rest then Inr (c, rest) else legacy TrailingBytes
         | Inl e \<Rightarrow> legacy e)"

definition norm_stored_commit :: "stored_commit \<Rightarrow> stored_commit" where
  "norm_stored_commit c = c\<lparr>sc_record := norm_commit (sc_record c), sc_format_version := 4\<rparr>"

lemma decode_stored_commit_body_encode:
  "commit_ok (sc_record c) \<Longrightarrow>
   decode_stored_commit_body False (encode_stored_commit c @ rest) = Inr (norm_stored_commit c, rest)"
  by (simp add: decode_stored_commit_body_def encode_stored_commit_def decode_record_for_tag_def
      codec_simps size_ok_small)
    (simp add: norm_stored_commit_def)

lemma decode_stored_commit_encode:
  "commit_ok (sc_record c) \<Longrightarrow> decode_stored_commit (encode_stored_commit c) = Inr (norm_stored_commit c, [])"
  using decode_stored_commit_body_encode [of c "[]"] by (simp add: decode_stored_commit_def reader_eof_def)

lemma encode_stored_commit_norm: "encode_stored_commit (norm_stored_commit c) = encode_stored_commit c"
  by (simp add: encode_stored_commit_def norm_stored_commit_def encode_commit_record_body_norm)

text \<open>A decoded stream was consumed exactly.\<close>

lemma decode_stored_commit_end: "decode_stored_commit s = Inr (c, rest) \<Longrightarrow> rest = []"
  by (auto simp: decode_stored_commit_def Let_def reader_eof_def split: sum.splits prod.splits if_splits)

text \<open>The identity of a commit is the content address of the object it is stored as.\<close>

lemma encode_make_stored_commit: "encode_stored_commit (make_stored_commit r) = encode_commit_identity r"
  by (simp add: encode_stored_commit_def make_stored_commit_def encode_commit_identity_def
      encode_commit_objects_def)

lemma encode_commit_identity_norm: "encode_commit_identity (norm_commit r) = encode_commit_identity r"
  by (simp add: encode_commit_identity_def encode_commit_record_body_norm encode_commit_objects_def)
    (simp add: norm_commit_def)

text \<open>Version 3 of a stored commit, in the current layout of proofs.\<close>

definition norm_stored_v3 :: "commit_record \<Rightarrow> stored_commit" where
  "norm_stored_v3 r = (make_stored_commit (norm_commit_v3 r))\<lparr>sc_format_version := 3\<rparr>"

lemma decode_stored_commit_v3:
  assumes "commit_ok r"
  shows "decode_stored_commit (encode_commit_identity_v3 r) = Inr (norm_stored_v3 r, [])"
proof -
  have body: "decode_stored_commit_body False (encode_commit_identity_v3 r @ rest) = Inr (norm_stored_v3 r, rest)" for rest
    by (simp only: decode_stored_commit_body_def encode_commit_identity_v3_def encode_commit_objects_def append_assoc)
      (simp add: decode_record_for_tag_def codec_simps size_ok_small assms norm_stored_v3_def
        make_stored_commit_def norm_commit_v3_def norm_commit_def)
  show ?thesis using body [of "[]"] by (simp add: decode_stored_commit_def reader_eof_def)
qed

lemma encode_commit_identity_v3_norm:
  "encode_commit_identity_v3 (norm_commit_v3 r) = encode_commit_identity_v3 r"
  by (simp add: encode_commit_identity_v3_def encode_commit_record_body_def encode_commit_head_def
      encode_commit_hashes_def encode_commit_tail_def encode_commit_objects_def norm_commit_v3_def norm_commit_def)

end
