(* ===== verification/Codec_Pages.thy ===== *)
theory Codec_Pages
  imports Codec_Snapshot
begin

text \<open>
  Chunked snapshots: the pages, tables and root object a snapshot is stored as and the plan that
  cuts it up (\<open>src/core/snapshot_page.cpp\<close> and \<open>src/kernel/canonical_codec.cpp\<close>, lines 840 to
  1028).  The lemmas give the round trip of every object, show that the pages of a plan are a
  partition of the snapshot into runs of at most the page size, and that the root hash
  determines the pages when the digest is injective on what is hashed.
\<close>

section \<open>Objects of the page store\<close>

definition encode_object_page :: "object_snapshot list \<Rightarrow> bytes" where
  "encode_object_page objects =
     writer_string ''ObjectPage:v1'' @ wlist encode_object_snapshot (sort_objects objects)"

definition decode_object_page :: "object_snapshot list decoder" where
  "decode_object_page = rbind (reader_expect_tag ''ObjectPage:v1'') (\<lambda>_. rlist (decode_object_snapshot True))"

definition encode_pointer_page :: "pointer_snapshot list \<Rightarrow> bytes" where
  "encode_pointer_page pointers =
     writer_string ''PointerPage:v1'' @ wlist encode_pointer_snapshot (sort_pointers pointers)"

definition decode_pointer_page :: "pointer_snapshot list decoder" where
  "decode_pointer_page = rbind (reader_expect_tag ''PointerPage:v1'') (\<lambda>_. rlist (decode_pointer_snapshot True))"

definition encode_fact_page :: "fact list \<Rightarrow> bytes" where
  "encode_fact_page facts = writer_string ''FactPage:v1'' @ wlist encode_fact (sort_facts facts)"

definition decode_fact_page :: "fact list decoder" where
  "decode_fact_page = rbind (reader_expect_tag ''FactPage:v1'') (\<lambda>_. rlist decode_fact)"

definition encode_symbol_table_object :: "(u32, string) omap \<Rightarrow> bytes" where
  "encode_symbol_table_object names = writer_string ''SymbolTableObject:v1'' @ encode_names names"

definition decode_symbol_table_object :: "(u32, string) omap decoder" where
  "decode_symbol_table_object = rbind (reader_expect_tag ''SymbolTableObject:v1'') (\<lambda>_. decode_names)"

definition encode_page_index :: "hash256 list \<Rightarrow> bytes" where
  "encode_page_index pages = writer_string ''SnapshotPageIndexObject:v1'' @ wlist writer_hash pages"

definition decode_page_index :: "hash256 list decoder" where
  "decode_page_index = rbind (reader_expect_tag ''SnapshotPageIndexObject:v1'') (\<lambda>_. rlist reader_hash)"

record snapshot_root =
  sr_world :: world_id
  sr_world_name :: string
  sr_epoch :: epoch
  sr_object_pages_root :: hash256
  sr_pointer_pages_root :: hash256
  sr_fact_pages_root :: hash256
  sr_type_table_root :: hash256
  sr_relation_table_root :: hash256

definition encode_snapshot_root :: "snapshot_root \<Rightarrow> bytes" where
  "encode_snapshot_root r =
     writer_string ''SnapshotRootObject:v1'' @ writer_u64 (sr_world r) @ writer_string (sr_world_name r)
     @ writer_u64 (sr_epoch r) @ writer_hash (sr_object_pages_root r) @ writer_hash (sr_pointer_pages_root r)
     @ writer_hash (sr_fact_pages_root r) @ writer_hash (sr_type_table_root r)
     @ writer_hash (sr_relation_table_root r)"

definition decode_snapshot_root :: "snapshot_root decoder" where
  "decode_snapshot_root =
     rbind (reader_expect_tag ''SnapshotRootObject:v1'') (\<lambda>_.
     rbind reader_u64 (\<lambda>w. rbind reader_string (\<lambda>n. rbind reader_u64 (\<lambda>e.
     rbind reader_hash (\<lambda>objects. rbind reader_hash (\<lambda>pointers. rbind reader_hash (\<lambda>facts.
     rbind reader_hash (\<lambda>types. rbind reader_hash (\<lambda>relations.
     rret \<lparr>sr_world = w, sr_world_name = n, sr_epoch = e, sr_object_pages_root = objects,
           sr_pointer_pages_root = pointers, sr_fact_pages_root = facts, sr_type_table_root = types,
           sr_relation_table_root = relations\<rparr>)))))))))"

section \<open>Their codecs\<close>

interpretation objectpagec: stable_codec encode_object_page decode_object_page
    "\<lambda>objects. map norm_object (sort_objects objects)" "\<lambda>objects. size_ok objects \<and> list_all object_ok objects"
proof
  fix x :: "object_snapshot list" and rest
  assume ok: "size_ok x \<and> list_all object_ok x"
  have "rlist (decode_object_snapshot True) (wlist encode_object_snapshot (sort_objects x) @ rest)
      = Inr (map norm_object (sort_objects x), rest)"
    by (rule objectc.list_roundtrip) (use ok in \<open>auto simp: size_ok_def list_all_iff\<close>)
  then show "decode_object_page (encode_object_page x @ rest) = Inr (map norm_object (sort_objects x), rest)"
    by (simp add: decode_object_page_def encode_object_page_def codec_simps size_ok_small)
next
  fix x
  show "encode_object_page (map norm_object (sort_objects x)) = encode_object_page x"
    by (simp add: encode_object_page_def sort_objects_map objectc.wlist_norm)
qed

interpretation pointerpagec: stable_codec encode_pointer_page decode_pointer_page
    "\<lambda>pointers. map norm_pointer (sort_pointers pointers)" "\<lambda>pointers. size_ok pointers \<and> list_all pointer_ok pointers"
proof
  fix x :: "pointer_snapshot list" and rest
  assume ok: "size_ok x \<and> list_all pointer_ok x"
  have "rlist (decode_pointer_snapshot True) (wlist encode_pointer_snapshot (sort_pointers x) @ rest)
      = Inr (map norm_pointer (sort_pointers x), rest)"
    by (rule pointerc.list_roundtrip) (use ok in \<open>auto simp: size_ok_def list_all_iff\<close>)
  then show "decode_pointer_page (encode_pointer_page x @ rest) = Inr (map norm_pointer (sort_pointers x), rest)"
    by (simp add: decode_pointer_page_def encode_pointer_page_def codec_simps size_ok_small)
next
  fix x
  show "encode_pointer_page (map norm_pointer (sort_pointers x)) = encode_pointer_page x"
    by (simp add: encode_pointer_page_def sort_pointers_map pointerc.wlist_norm)
qed

interpretation factpagec: stable_codec encode_fact_page decode_fact_page
    "\<lambda>facts. map norm_fact (sort_facts facts)" "\<lambda>facts. size_ok facts \<and> list_all fact_ok facts"
proof
  fix x :: "fact list" and rest
  assume ok: "size_ok x \<and> list_all fact_ok x"
  have "rlist decode_fact (wlist encode_fact (sort_facts x) @ rest) = Inr (map norm_fact (sort_facts x), rest)"
    by (rule factc.list_roundtrip) (use ok in \<open>auto simp: size_ok_def list_all_iff\<close>)
  then show "decode_fact_page (encode_fact_page x @ rest) = Inr (map norm_fact (sort_facts x), rest)"
    by (simp add: decode_fact_page_def encode_fact_page_def codec_simps size_ok_small)
next
  fix x
  show "encode_fact_page (map norm_fact (sort_facts x)) = encode_fact_page x"
    by (simp add: encode_fact_page_def sort_facts_map factc.wlist_norm)
qed

interpretation tablec: stable_codec encode_symbol_table_object decode_symbol_table_object "\<lambda>x. x" names_ok
  by unfold_locales
    (simp_all add: encode_symbol_table_object_def decode_symbol_table_object_def codec_simps size_ok_small)

interpretation pageindexc: stable_codec encode_page_index decode_page_index "\<lambda>x. x" size_ok
  by unfold_locales (simp_all add: encode_page_index_def decode_page_index_def codec_simps size_ok_small)

interpretation rootc: stable_codec encode_snapshot_root decode_snapshot_root "\<lambda>x. x" "\<lambda>r. size_ok (sr_world_name r)"
  by unfold_locales
    (simp_all add: encode_snapshot_root_def decode_snapshot_root_def codec_simps size_ok_small)

section \<open>The plan\<close>

text \<open>The loop of \<open>build_pages\<close>: every page takes the next \<open>page_size\<close> values.\<close>

fun build_pages :: "nat \<Rightarrow> 'a list \<Rightarrow> 'a list list" where
  "build_pages page_size values =
     (if values = [] \<or> page_size = 0 then []
      else take page_size values # build_pages page_size (drop page_size values))"

declare build_pages.simps [simp del]

record chunked_plan =
  plan_object_pages :: "object_snapshot list list"
  plan_object_page_hashes :: "hash256 list"
  plan_pointer_pages :: "pointer_snapshot list list"
  plan_pointer_page_hashes :: "hash256 list"
  plan_fact_pages :: "fact list list"
  plan_fact_page_hashes :: "hash256 list"
  plan_object_page_index :: "hash256 list"
  plan_object_page_index_hash :: hash256
  plan_pointer_page_index :: "hash256 list"
  plan_pointer_page_index_hash :: hash256
  plan_fact_page_index :: "hash256 list"
  plan_fact_page_index_hash :: hash256
  plan_type_table :: "(u32, string) omap"
  plan_type_table_hash :: hash256
  plan_relation_table :: "(u32, string) omap"
  plan_relation_table_hash :: hash256
  plan_root :: snapshot_root
  plan_root_object :: hash256

datatype plan_error = PageSizeZero

definition build_chunked_snapshot_plan :: "digest \<Rightarrow> world_snapshot \<Rightarrow> nat \<Rightarrow> plan_error + chunked_plan" where
  "build_chunked_snapshot_plan H snapshot page_size =
     (if page_size = 0 then Inl PageSizeZero
      else
        let object_pages = build_pages page_size (sn_objects snapshot);
            object_hashes = map (\<lambda>p. H (encode_object_page p)) object_pages;
            pointer_pages = build_pages page_size (sn_pointers snapshot);
            pointer_hashes = map (\<lambda>p. H (encode_pointer_page p)) pointer_pages;
            fact_pages = build_pages page_size (sn_facts snapshot);
            fact_hashes = map (\<lambda>p. H (encode_fact_page p)) fact_pages;
            object_index_hash = H (encode_page_index object_hashes);
            pointer_index_hash = H (encode_page_index pointer_hashes);
            fact_index_hash = H (encode_page_index fact_hashes);
            type_table_hash = H (encode_symbol_table_object (sn_type_names snapshot));
            relation_table_hash = H (encode_symbol_table_object (sn_relation_names snapshot));
            root = \<lparr>sr_world = sn_world snapshot, sr_world_name = sn_world_name snapshot,
                    sr_epoch = sn_epoch snapshot, sr_object_pages_root = object_index_hash,
                    sr_pointer_pages_root = pointer_index_hash, sr_fact_pages_root = fact_index_hash,
                    sr_type_table_root = type_table_hash, sr_relation_table_root = relation_table_hash\<rparr>
        in Inr \<lparr>plan_object_pages = object_pages, plan_object_page_hashes = object_hashes,
                plan_pointer_pages = pointer_pages, plan_pointer_page_hashes = pointer_hashes,
                plan_fact_pages = fact_pages, plan_fact_page_hashes = fact_hashes,
                plan_object_page_index = object_hashes, plan_object_page_index_hash = object_index_hash,
                plan_pointer_page_index = pointer_hashes, plan_pointer_page_index_hash = pointer_index_hash,
                plan_fact_page_index = fact_hashes, plan_fact_page_index_hash = fact_index_hash,
                plan_type_table = sn_type_names snapshot, plan_type_table_hash = type_table_hash,
                plan_relation_table = sn_relation_names snapshot, plan_relation_table_hash = relation_table_hash,
                plan_root = root, plan_root_object = H (encode_snapshot_root root)\<rparr>)"

definition graph_page_roots :: "chunked_plan \<Rightarrow> hash256 list" where
  "graph_page_roots p =
     plan_object_page_hashes p @ plan_pointer_page_hashes p @ plan_fact_page_hashes p
     @ [plan_object_page_index_hash p, plan_pointer_page_index_hash p, plan_fact_page_index_hash p,
        plan_type_table_hash p, plan_relation_table_hash p]"

section \<open>Pages partition the snapshot\<close>

lemma concat_build_pages: "0 < n \<Longrightarrow> concat (build_pages n xs) = xs"
proof (induction n xs rule: build_pages.induct)
  case (1 n xs)
  then show ?case by (subst build_pages.simps) auto
qed

lemma build_pages_sizes: "p \<in> set (build_pages n xs) \<Longrightarrow> p \<noteq> [] \<and> length p \<le> n"
proof (induction n xs rule: build_pages.induct)
  case (1 n xs)
  from "1.prems" have ne: "xs \<noteq> []" "n \<noteq> 0" by (auto simp: build_pages.simps [of n xs] split: if_splits)
  with "1.prems" have "p = take n xs \<or> p \<in> set (build_pages n (drop n xs))"
    by (simp add: build_pages.simps [of n xs])
  with "1.IH" ne show ?case by auto
qed

lemma build_pages_full:
  "i < length (build_pages n xs) \<Longrightarrow> Suc i \<noteq> length (build_pages n xs) \<Longrightarrow> length (build_pages n xs ! i) = n"
proof (induction n xs arbitrary: i rule: build_pages.induct)
  case (1 n xs)
  from "1.prems" have ne: "xs \<noteq> []" "n \<noteq> 0" by (auto simp: build_pages.simps [of n xs] split: if_splits)
  then have eq: "build_pages n xs = take n xs # build_pages n (drop n xs)"
    by (simp add: build_pages.simps [of n xs])
  show ?case
  proof (cases i)
    case 0
    with "1.prems" eq have "build_pages n (drop n xs) \<noteq> []" by auto
    then have "drop n xs \<noteq> []" by (auto simp: build_pages.simps [of n "drop n xs"])
    with 0 eq show ?thesis by simp
  next
    case (Suc j)
    with "1.prems" eq "1.IH" [of j] ne show ?thesis by auto
  qed
qed

section \<open>The root determines the snapshot\<close>

text \<open>
  Everything a plan hashes.  When the digest does not collide on the streams of two plans, equal
  root objects come from snapshots with the same contents, up to the order within a page, the
  order of attributes and the canonical bits of doubles.
\<close>

definition plan_streams :: "chunked_plan \<Rightarrow> bytes set" where
  "plan_streams p = set (
     [encode_snapshot_root (plan_root p), encode_page_index (plan_object_page_index p),
      encode_page_index (plan_pointer_page_index p), encode_page_index (plan_fact_page_index p),
      encode_symbol_table_object (plan_type_table p), encode_symbol_table_object (plan_relation_table p)]
     @ map encode_object_page (plan_object_pages p) @ map encode_pointer_page (plan_pointer_pages p)
     @ map encode_fact_page (plan_fact_pages p))"

definition plan_ok :: "world_snapshot \<Rightarrow> bool" where
  "plan_ok s =
     (size_ok (sn_world_name s) \<and> names_ok (sn_type_names s) \<and> names_ok (sn_relation_names s)
      \<and> size_ok (sn_objects s) \<and> list_all object_ok (sn_objects s)
      \<and> size_ok (sn_pointers s) \<and> list_all pointer_ok (sn_pointers s)
      \<and> size_ok (sn_facts s) \<and> list_all fact_ok (sn_facts s))"

lemma length_build_pages: "length (build_pages n xs) \<le> length xs"
proof (induction n xs rule: build_pages.induct)
  case (1 n xs)
  show ?case
  proof (cases "xs = [] \<or> n = 0")
    case False
    then have "0 < length xs" "0 < n" by auto
    moreover have "length (build_pages n xs) = Suc (length (build_pages n (drop n xs)))"
      using False by (subst build_pages.simps) simp
    moreover have "length (build_pages n (drop n xs)) \<le> length xs - n" using 1 False by simp
    ultimately show ?thesis by linarith
  qed (auto simp: build_pages.simps [of n xs])
qed

lemma pages_elements:
  assumes "size_ok xs" and "list_all P xs" and "p \<in> set (build_pages n xs)"
  shows "size_ok p" and "list_all P p"
proof -
  from assms(3) have n: "0 < n" by (cases n) (auto simp: build_pages.simps)
  have "length p \<le> length (concat (build_pages n xs))"
    using assms(3) by (auto simp: length_concat intro: member_le_sum_list)
  with assms(1) n show "size_ok p" by (simp add: concat_build_pages size_ok_def)
  have "set p \<subseteq> set (concat (build_pages n xs))" using assms(3) by auto
  with assms(2) n show "list_all P p" by (auto simp: concat_build_pages list_all_iff)
qed

lemma size_ok_pages: "size_ok xs \<Longrightarrow> size_ok (build_pages n xs)"
  using length_build_pages [of n xs] by (simp add: size_ok_def)

lemma page_contents_equal:
  assumes "inj_on H (enc ` (set ps \<union> set qs))"
    and "\<And>x y. x \<in> set ps \<Longrightarrow> y \<in> set qs \<Longrightarrow> enc x = enc y \<Longrightarrow> f x = f y"
    and "map (\<lambda>p. H (enc p)) ps = map (\<lambda>p. H (enc p)) qs"
  shows "map f ps = map f qs"
proof (rule nth_equalityI)
  show "length (map f ps) = length (map f qs)" using map_eq_imp_length_eq [OF assms(3)] by simp
  fix i
  assume "i < length (map f ps)"
  then have i: "i < length ps" "i < length qs" using map_eq_imp_length_eq [OF assms(3)] by simp_all
  have "H (enc (ps ! i)) = H (enc (qs ! i))"
    using arg_cong [OF assms(3), of "\<lambda>l. l ! i"] i by simp
  then have "enc (ps ! i) = enc (qs ! i)" using assms(1) i by (auto dest!: inj_onD)
  with assms(2) i show "map f ps ! i = map f qs ! i" by simp
qed

lemma page_contents_mset:
  assumes "map (\<lambda>p. map g (srt p)) ps = map (\<lambda>p. map g (srt p)) qs" and "\<And>p. mset (srt p) = mset p"
  shows "image_mset g (mset (concat ps)) = image_mset g (mset (concat qs))"
proof -
  have "mset (concat (map (\<lambda>p. map g (srt p)) rs)) = image_mset g (mset (concat rs))" for rs
    by (induction rs) (simp_all add: assms(2))
  then show ?thesis using assms(1) by metis
qed

lemma plan_fields:
  assumes "build_chunked_snapshot_plan H s n = Inr p"
  shows "0 < n"
    and "plan_object_pages p = build_pages n (sn_objects s)"
    and "plan_pointer_pages p = build_pages n (sn_pointers s)"
    and "plan_fact_pages p = build_pages n (sn_facts s)"
    and "plan_object_page_index p = map (\<lambda>p. H (encode_object_page p)) (plan_object_pages p)"
    and "plan_pointer_page_index p = map (\<lambda>p. H (encode_pointer_page p)) (plan_pointer_pages p)"
    and "plan_fact_page_index p = map (\<lambda>p. H (encode_fact_page p)) (plan_fact_pages p)"
    and "plan_type_table p = sn_type_names s" and "plan_relation_table p = sn_relation_names s"
    and "plan_root p = \<lparr>sr_world = sn_world s, sr_world_name = sn_world_name s, sr_epoch = sn_epoch s,
          sr_object_pages_root = H (encode_page_index (plan_object_page_index p)),
          sr_pointer_pages_root = H (encode_page_index (plan_pointer_page_index p)),
          sr_fact_pages_root = H (encode_page_index (plan_fact_page_index p)),
          sr_type_table_root = H (encode_symbol_table_object (plan_type_table p)),
          sr_relation_table_root = H (encode_symbol_table_object (plan_relation_table p))\<rparr>"
    and "plan_root_object p = H (encode_snapshot_root (plan_root p))"
  using assms by (auto simp: build_chunked_snapshot_plan_def Let_def split: if_splits)

lemma plan_root_determines:
  assumes s: "build_chunked_snapshot_plan H s m = Inr p" and t: "build_chunked_snapshot_plan H t n = Inr q"
    and ok: "plan_ok s" "plan_ok t" and inj: "inj_on H (plan_streams p \<union> plan_streams q)"
    and root: "plan_root_object p = plan_root_object q"
  shows "sn_world s = sn_world t" and "sn_world_name s = sn_world_name t" and "sn_epoch s = sn_epoch t"
    and "sn_type_names s = sn_type_names t" and "sn_relation_names s = sn_relation_names t"
    and "image_mset norm_object (mset (sn_objects s)) = image_mset norm_object (mset (sn_objects t))"
    and "image_mset norm_pointer (mset (sn_pointers s)) = image_mset norm_pointer (mset (sn_pointers t))"
    and "image_mset norm_fact (mset (sn_facts s)) = image_mset norm_fact (mset (sn_facts t))"
proof -
  note P = plan_fields [OF s] and Q = plan_fields [OF t]
  note mn = P(1) Q(1)
  have roots: "plan_root p = plan_root q"
  proof (rule rootc.encoding_injective)
    show "size_ok (sr_world_name (plan_root p))" "size_ok (sr_world_name (plan_root q))"
      using ok by (simp_all add: P(10) Q(10) plan_ok_def)
    have "H (encode_snapshot_root (plan_root p)) = H (encode_snapshot_root (plan_root q))"
      using root by (simp only: P(11) Q(11))
    then show "encode_snapshot_root (plan_root p) = encode_snapshot_root (plan_root q)"
      by (rule inj_onD [OF inj]) (simp_all add: plan_streams_def)
  qed
  from roots mn show "sn_world s = sn_world t" "sn_world_name s = sn_world_name t" "sn_epoch s = sn_epoch t"
    by (simp_all add: P(10) Q(10))
  have idx: "x = y" if "H (encode_page_index x) = H (encode_page_index y)" "size_ok x" "size_ok y"
      "encode_page_index x \<in> plan_streams p" "encode_page_index y \<in> plan_streams q" for x y
    using that by (intro pageindexc.encoding_injective inj_onD [OF inj]) auto
  have tab: "x = y" if "H (encode_symbol_table_object x) = H (encode_symbol_table_object y)"
      "names_ok x" "names_ok y" "encode_symbol_table_object x \<in> plan_streams p"
      "encode_symbol_table_object y \<in> plan_streams q" for x y
    using that by (intro tablec.encoding_injective inj_onD [OF inj]) auto
  from roots mn ok show "sn_type_names s = sn_type_names t"
    by (intro tab) (simp_all add: P Q plan_ok_def plan_streams_def)
  from roots mn ok show "sn_relation_names s = sn_relation_names t"
    by (intro tab) (simp_all add: P Q plan_ok_def plan_streams_def)
  have oh: "map (\<lambda>x. H (encode_object_page x)) (build_pages m (sn_objects s))
      = map (\<lambda>x. H (encode_object_page x)) (build_pages n (sn_objects t))"
    using roots mn ok by (intro idx) (simp_all add: P Q plan_ok_def plan_streams_def size_ok_pages)
  have ph: "map (\<lambda>x. H (encode_pointer_page x)) (build_pages m (sn_pointers s))
      = map (\<lambda>x. H (encode_pointer_page x)) (build_pages n (sn_pointers t))"
    using roots mn ok by (intro idx) (simp_all add: P Q plan_ok_def plan_streams_def size_ok_pages)
  have fh: "map (\<lambda>x. H (encode_fact_page x)) (build_pages m (sn_facts s))
      = map (\<lambda>x. H (encode_fact_page x)) (build_pages n (sn_facts t))"
    using roots mn ok by (intro idx) (simp_all add: P Q plan_ok_def plan_streams_def size_ok_pages)
  have sub: "encode_object_page ` (set (build_pages m (sn_objects s)) \<union> set (build_pages n (sn_objects t)))
        \<subseteq> plan_streams p \<union> plan_streams q"
      "encode_pointer_page ` (set (build_pages m (sn_pointers s)) \<union> set (build_pages n (sn_pointers t)))
        \<subseteq> plan_streams p \<union> plan_streams q"
      "encode_fact_page ` (set (build_pages m (sn_facts s)) \<union> set (build_pages n (sn_facts t)))
        \<subseteq> plan_streams p \<union> plan_streams q"
    by (auto simp: P Q plan_streams_def)
  have "map (\<lambda>p. map norm_object (sort_objects p)) (build_pages m (sn_objects s))
      = map (\<lambda>p. map norm_object (sort_objects p)) (build_pages n (sn_objects t))"
    by (rule page_contents_equal [OF inj_on_subset [OF inj sub(1)] _ oh], rule objectpagec.encoding_injective)
      (use ok in \<open>auto simp: plan_ok_def dest: pages_elements\<close>)
  from page_contents_mset [OF this] mn
  show "image_mset norm_object (mset (sn_objects s)) = image_mset norm_object (mset (sn_objects t))"
    by (simp add: concat_build_pages)
  have "map (\<lambda>p. map norm_pointer (sort_pointers p)) (build_pages m (sn_pointers s))
      = map (\<lambda>p. map norm_pointer (sort_pointers p)) (build_pages n (sn_pointers t))"
    by (rule page_contents_equal [OF inj_on_subset [OF inj sub(2)] _ ph], rule pointerpagec.encoding_injective)
      (use ok in \<open>auto simp: plan_ok_def dest: pages_elements\<close>)
  from page_contents_mset [OF this] mn
  show "image_mset norm_pointer (mset (sn_pointers s)) = image_mset norm_pointer (mset (sn_pointers t))"
    by (simp add: concat_build_pages)
  have "map (\<lambda>p. map norm_fact (sort_facts p)) (build_pages m (sn_facts s))
      = map (\<lambda>p. map norm_fact (sort_facts p)) (build_pages n (sn_facts t))"
    by (rule page_contents_equal [OF inj_on_subset [OF inj sub(3)] _ fh], rule factpagec.encoding_injective)
      (use ok in \<open>auto simp: plan_ok_def dest: pages_elements\<close>)
  from page_contents_mset [OF this] mn
  show "image_mset norm_fact (mset (sn_facts s)) = image_mset norm_fact (mset (sn_facts t))"
    by (simp add: concat_build_pages)
qed

end
