(* ===== verification/Demo.thy ===== *)
theory Demo
  imports Progress World_Restore Merge_Sequential Codec_Commit Codec_Pages
begin

text \<open>
  Concrete data on which the properties of the development are exercised: a digest (the length of
  the stream), an empty world, a delta that interns two symbols, creates an object with an attribute
  and a self-pointer, and changes it, a snapshot with one object and one pointer, and a commit.
\<close>

definition demo_digest :: digest where
  "demo_digest b = of_nat (length b)"

definition demo_world :: world where
  "demo_world = new_world ''w'' 1"

definition demo_delta :: delta where
  "demo_delta =
     [\<lparr>op_id = 1, op_body = InternType ''T'' 1\<rparr>,
      \<lparr>op_id = 2, op_body = InternRelation ''r'' 0\<rparr>,
      \<lparr>op_id = 3, op_body = CreateObject \<lparr>co_temp = 1, co_name = ''a'', co_type = 1, co_existence = Alive,
         co_attributes = [(''k'', UInt64Value 7)]\<rparr>\<rparr>,
      \<lparr>op_id = 4, op_body = CreatePointer \<lparr>cp_from = RefTemp 1, cp_to = RefTemp 1, cp_relation = 1,
         cp_role = Structural, cp_weight = 0, cp_law_domain = [], cp_attributes = []\<rparr>\<rparr>,
      \<lparr>op_id = 5, op_body = SetObjectAttribute (RefTemp 1) (''j'', BoolValue True)\<rparr>]"

definition demo_object :: object_snapshot where
  "demo_object = \<lparr>os_id = ObjectId 0 1, os_name = ''a'', os_type = 1, os_existence = Alive,
     os_attributes = [(''k'', Float64Value 0x8000000000000000)], os_incoming = 1, os_outgoing = 1\<rparr>"

definition demo_pointer :: pointer_snapshot where
  "demo_pointer = \<lparr>ps_id = 1, ps_from = ObjectId 0 1, ps_to = ObjectId 0 1, ps_relation = 1, ps_role = Structural,
     ps_weight = 0, ps_born = 1, ps_expires = None, ps_law_domain = ''core'', ps_attributes = []\<rparr>"

definition demo_snapshot :: world_snapshot where
  "demo_snapshot = \<lparr>sn_world = 1, sn_world_name = ''w'', sn_epoch = 1, sn_objects = [demo_object],
     sn_pointers = [demo_pointer],
     sn_facts = [\<lparr>fact_id_of = 1, fact_kind_of = ObjectFact, fact_born = 1, fact_expired = None,
        fact_payload_hash = 1, fact_payload_of = ObjectPayload \<lparr>ofp_object = ObjectId 0 1, ofp_name = ''a'',
          ofp_type = 1, ofp_existence = Alive\<rparr>\<rparr>],
     sn_type_names = [(1, ''T'')], sn_relation_names = [(1, ''r'')]\<rparr>"

definition demo_commit :: commit_record where
  "demo_commit = blank_commit\<lparr>cr_id := 5, cr_parents := [3], cr_world := 1, cr_branch_name := ''main'',
     cr_before_hash := 1, cr_after_hash := 2, cr_delta_hash := 3, cr_program_hash := 4, cr_accepted := True,
     cr_label := ''x'', cr_graph_page_roots := [7]\<rparr>"

definition demo_program :: kernel_program where
  "demo_program = \<lparr>pr_symbols = \<lparr>sy_strings = [''a''], sy_type_names = [''T''], sy_relation_names = []\<rparr>,
     pr_instructions = [\<lparr>in_op = IInternType, in_args = [StringValue ''T'', UInt64Value 1]\<rparr>]\<rparr>"

section \<open>The conditions hold of the data\<close>

lemma isl_res_bind: "isl (res_bind m k) = (isl m \<or> isl (k (projr m)))"
  by (cases m) (auto simp: res_bind_def)

lemma not_isl_projr: "\<not> isl m \<Longrightarrow> m = Inr (projr m)"
  by (cases m) simp_all

lemma demo_overlay_accepts: "\<not> isl (overlay_apply demo_digest (world_snapshot_of demo_digest demo_world) demo_delta)"
  unfolding overlay_apply_def isl_res_bind by (simp only: sum.disc) code_simp

lemma demo_world_accepts: "\<not> isl (apply_delta_unchecked demo_digest demo_delta demo_world)"
  unfolding apply_delta_unchecked_def isl_res_bind by (simp only: sum.disc) code_simp

lemma demo_room: "delta_room demo_world demo_delta"
  by (simp add: delta_room_def world_room_def operation_room_def demo_world_def demo_delta_def new_world_def
      registry_empty_def)

lemma demo_portable:
  "list_all (operation_portable (projr (overlay_apply demo_digest (world_snapshot_of demo_digest demo_world) demo_delta))) demo_delta"
proof -
  let ?run = "res_fold (overlay_step demo_digest) (overlay_init (world_snapshot_of demo_digest demo_world)) demo_delta"
  have "om_find (sn_type_names (ov_out (projr ?run))) 1 = Some ''T''" by code_simp
  moreover have "\<not> isl ?run" by code_simp
  then have "projr (overlay_apply demo_digest (world_snapshot_of demo_digest demo_world) demo_delta)
      = overlay_finish demo_digest (projr ?run)"
    by (metis not_isl_projr overlay_apply_def res_bind_simps(2) sum.sel(2))
  ultimately show ?thesis
    by (simp add: operation_portable_def demo_delta_def overlay_finish_def Let_def recompute_counts_def)
qed

lemma demo_clean: "list_all operation_clean demo_delta"
  by code_simp

lemma demo_world_ok: "world_ok demo_world"
  unfolding demo_world_def by (rule new_world_ok)

lemma demo_snapshot_wf: "snapshot_wf demo_snapshot"
  by code_simp

lemma demo_snapshot_room: "ids_room demo_snapshot (Suc 0)"
  by (simp add: ids_room_def next_object_index_def next_pointer_value_def demo_snapshot_def demo_object_def
      demo_pointer_def)

lemmas demo_ok_defs = size_ok_def fact_ok_def fact_payload_ok_def object_ok_def pointer_ok_def attributes_ok_def
  attribute_ok_def names_ok_def om_inv_def operation_ok_def operation_body_ok_def symbol_table_ok_def
  instruction_ok_def

lemma demo_snapshot_ok: "snapshot_ok demo_digest demo_snapshot"
  by (simp add: snapshot_ok_def snapshot_facts_def demo_snapshot_def demo_object_def demo_pointer_def
      name_or_empty_def demo_ok_defs)

lemma demo_plan_ok: "plan_ok demo_snapshot"
  by (simp add: plan_ok_def demo_snapshot_def demo_object_def demo_pointer_def demo_ok_defs)

lemma demo_commit_ok: "commit_ok demo_commit"
  by (simp add: commit_ok_def demo_commit_def blank_commit_def demo_ok_defs)

lemma demo_delta_ok: "delta_ok demo_delta"
  by (simp add: delta_ok_def demo_delta_def demo_ok_defs)

lemma demo_program_ok: "program_ok demo_program"
  by (simp add: program_ok_def demo_program_def demo_ok_defs)

lemma demo_base_wf: "snapshot_wf (world_snapshot_of demo_digest demo_world)"
  unfolding demo_world_def by (rule new_world_snapshot_wf)

lemma demo_intern_accepts:
  "\<not> isl (overlay_apply demo_digest demo_snapshot [\<lparr>op_id = 1, op_body = InternType ''U'' 0\<rparr>])"
  unfolding overlay_apply_def isl_res_bind by (simp only: sum.disc) code_simp

lemma demo_reachable:
  "reachable_world demo_digest (snd (projr (apply_delta_unchecked demo_digest demo_delta demo_world)))"
proof (rule reachable_world.commit)
  show "reachable_world demo_digest demo_world" unfolding demo_world_def by (rule reachable_world.fresh)
  show "overlay_apply demo_digest (world_snapshot_of demo_digest demo_world) demo_delta
      = Inr (projr (overlay_apply demo_digest (world_snapshot_of demo_digest demo_world) demo_delta))"
    by (rule not_isl_projr [OF demo_overlay_accepts])
  show "apply_delta_unchecked demo_digest demo_delta demo_world
      = Inr (fst (projr (apply_delta_unchecked demo_digest demo_delta demo_world)),
             snd (projr (apply_delta_unchecked demo_digest demo_delta demo_world)))"
    using not_isl_projr [OF demo_world_accepts] by simp
qed (rule demo_room demo_clean)+

definition demo_first :: delta where
  "demo_first = [\<lparr>op_id = 1, op_body = InternType ''T'' 0\<rparr>]"

definition demo_second :: delta where
  "demo_second = [\<lparr>op_id = 1, op_body = InternRelation ''r'' 0\<rparr>]"

lemma demo_merge_accepts: "\<not> isl (merge_sequential_empty demo_digest demo_first demo_second)"
  by code_simp

text \<open>A snapshot whose plan hashes streams of pairwise different lengths.\<close>

definition demo_flat :: world_snapshot where
  "demo_flat = demo_snapshot\<lparr>sn_pointers := [], sn_facts := [], sn_relation_names := [(1, ''rel'')]\<rparr>"

lemma demo_plan:
  "build_chunked_snapshot_plan demo_digest demo_flat 1
     = Inr (projr (build_chunked_snapshot_plan demo_digest demo_flat 1))"
  by (simp add: build_chunked_snapshot_plan_def Let_def)

lemma demo_flat_ok: "plan_ok demo_flat"
  by (simp add: plan_ok_def demo_flat_def demo_snapshot_def demo_object_def demo_ok_defs)


lemma demo_digest_inj:
  assumes "distinct (map length xs)" and "list_all (\<lambda>b. length b < 1000) xs"
  shows "inj_on demo_digest (set xs)"
proof (rule inj_onI)
  fix a b
  assume ab: "a \<in> set xs" "b \<in> set xs" "demo_digest a = demo_digest b"
  have "x < 1000 \<Longrightarrow> unat (of_nat x :: hash256) = x" for x
    by (simp add: unat_of_nat)
  then have "length a = length b" using ab assms(2) unfolding demo_digest_def list_all_iff by metis
  then show "a = b" using assms(1) ab by (simp add: distinct_map inj_on_def)
qed

lemma demo_plan_inj:
  "inj_on demo_digest (plan_streams (projr (build_chunked_snapshot_plan demo_digest demo_flat 1)))"
proof -
  let ?p = "projr (build_chunked_snapshot_plan demo_digest demo_flat 1)"
  let ?page = "encode_object_page [demo_object]"
  let ?streams = "[encode_snapshot_root (plan_root ?p), encode_page_index [demo_digest ?page], encode_page_index [],
    encode_symbol_table_object [(1, ''T'')], encode_symbol_table_object [(1, ''rel'')], ?page]"
  have "plan_streams ?p = set ?streams"
    by (simp add: plan_streams_def build_chunked_snapshot_plan_def Let_def demo_flat_def demo_snapshot_def
      build_pages.simps insert_commute)
  moreover have lengths: "map length ?streams = [214, 74, 42, 49, 51, 93]"
  proof -
    have "length (encode_snapshot_root (plan_root ?p)) = 214"
      by (simp add: encode_snapshot_root_def build_chunked_snapshot_plan_def Let_def demo_flat_def demo_snapshot_def
        writer_string_def writer_count_def writer_hash_def writer_u64_def)
    moreover have "length (encode_page_index [h]) = 74" for h
      by (simp add: encode_page_index_def wlist_def writer_string_def writer_count_def writer_hash_def writer_u64_def)
    moreover have "map length (drop 2 ?streams) = [42, 49, 51, 93]" by code_simp
    ultimately show ?thesis by simp
  qed
  moreover have "inj_on demo_digest (set ?streams)"
    by (rule demo_digest_inj) (simp_all only: lengths, use lengths in \<open>simp_all\<close>)
  ultimately show ?thesis by simp
qed
end
