(* ===== verification/Execution_Plan.thy ===== *)
theory Execution_Plan
  imports Overlay_Inv Merkle Codec_Commit
begin

text \<open>
  Execution plans and commit proofs (\<open>src/kernel/execution_plan.cpp\<close>, \<open>src/kernel/executor.cpp\<close>): for
  every operation of a delta, the objects and pointers it touches and the facts it reads (of the
  snapshot before) and writes (of the predicted snapshot after), and the hashes a commit is sealed
  with.  The lemmas show where the reads and writes come from and that they are canonical lists.
\<close>

section \<open>Transactions and plans\<close>

record transaction =
  tx_id :: transaction_id
  tx_origin :: transaction_origin
  tx_label :: string
  tx_program :: "kernel_program option"
  tx_delta :: delta
  tx_morphism_path :: "string list"
  tx_input_snapshot_hash :: "hash256 option"
  tx_expected_base_epoch :: "epoch option"
  tx_allow_empty :: bool

definition default_transaction :: transaction where
  "default_transaction = \<lparr>tx_id = 0, tx_origin = Manual, tx_label = [], tx_program = None, tx_delta = [],
     tx_morphism_path = [], tx_input_snapshot_hash = None, tx_expected_base_epoch = None, tx_allow_empty = False\<rparr>"

record verification_result =
  vr_accepted :: bool
  vr_statuses :: "law_status list"
  vr_violations :: "law_violation list"

definition default_verification :: verification_result where
  "default_verification = \<lparr>vr_accepted = True, vr_statuses = [], vr_violations = []\<rparr>"

record resolved_operation =
  ro_id :: operation_id
  ro_kind :: u8
  ro_objects :: "object_id list"
  ro_pointers :: "pointer_id list"
  ro_reads :: "fact_id list"
  ro_writes :: "fact_id list"

record execution_plan =
  xp_tx :: transaction
  xp_before :: world_snapshot
  xp_resolved :: "resolved_operation list"
  xp_after :: world_snapshot
  xp_verification :: verification_result
  xp_plan_hash :: hash256

section \<open>Sorted lists without duplicates\<close>

definition unique_fact_ids :: "fact_id list \<Rightarrow> fact_id list" where
  "unique_fact_ids ids = remdups_adj (sort_by fact_id_lt ids)"

definition sort_unique_objects :: "object_id list \<Rightarrow> object_id list" where
  "sort_unique_objects objects = remdups_adj (sort_by (<) objects)"

definition sort_unique_pointers :: "pointer_id list \<Rightarrow> pointer_id list" where
  "sort_unique_pointers pointers = remdups_adj (sort_by (<) pointers)"

section \<open>Resolving the operations\<close>

definition object_named :: "world_snapshot \<Rightarrow> string \<Rightarrow> object_id option" where
  "object_named s name = map_option os_id (List.find (\<lambda>ob. os_name ob = name) (sn_objects s))"

definition fact_of_object :: "object_id \<Rightarrow> fact \<Rightarrow> bool" where
  "fact_of_object i f = (case fact_payload_of f of
       ObjectPayload b \<Rightarrow> ofp_object b = i
     | AttributePayload (ObjectSubject j) _ _ \<Rightarrow> j = i
     | _ \<Rightarrow> False)"

definition add_object_facts :: "fact_store \<Rightarrow> object_id \<Rightarrow> fact_id list \<Rightarrow> fact_id list" where
  "add_object_facts store i out = out @ map fact_id_of (filter (fact_of_object i) store)"

definition fact_of_pointer :: "pointer_id \<Rightarrow> fact \<Rightarrow> bool" where
  "fact_of_pointer p f = (case fact_payload_of f of
       PointerPayload b \<Rightarrow> pfp_pointer b = p
     | AttributePayload (PointerSubject q) _ _ \<Rightarrow> q = p
     | _ \<Rightarrow> False)"

definition add_pointer_facts :: "fact_store \<Rightarrow> pointer_id \<Rightarrow> fact_id list \<Rightarrow> fact_id list" where
  "add_pointer_facts store p out = out @ map fact_id_of (filter (fact_of_pointer p) store)"

text \<open>The variables of the loop: the temporary objects seen and the identifier of the next pointer.\<close>

record resolve_state =
  rs_temps :: "(u32, object_id) omap"
  rs_next_pointer :: u64

definition resolve_before_or_after ::
    "world_snapshot \<Rightarrow> world_snapshot \<Rightarrow> resolve_state \<Rightarrow> object_ref \<Rightarrow> object_id option" where
  "resolve_before_or_after before after st ref = (case ref of
       RefObject i \<Rightarrow> if snapshot_contains before i \<or> snapshot_contains after i then Some i else None
     | RefTemp t \<Rightarrow> om_find (rs_temps st) t)"

definition read_object :: "fact_store \<Rightarrow> object_id option \<Rightarrow> resolved_operation \<Rightarrow> resolved_operation" where
  "read_object facts i item = (case i of
       None \<Rightarrow> item
     | Some i \<Rightarrow> item\<lparr>ro_objects := ro_objects item @ [i], ro_reads := add_object_facts facts i (ro_reads item)\<rparr>)"

definition update_object_item ::
    "fact_store \<Rightarrow> fact_store \<Rightarrow> object_id option \<Rightarrow> resolved_operation \<Rightarrow> resolved_operation" where
  "update_object_item before_facts after_facts i item = (case i of
       None \<Rightarrow> item
     | Some i \<Rightarrow> item\<lparr>ro_objects := ro_objects item @ [i],
                     ro_reads := add_object_facts before_facts i (ro_reads item),
                     ro_writes := add_object_facts after_facts i (ro_writes item)\<rparr>)"

definition update_pointer_item ::
    "fact_store \<Rightarrow> fact_store \<Rightarrow> pointer_id \<Rightarrow> resolved_operation \<Rightarrow> resolved_operation" where
  "update_pointer_item before_facts after_facts p item =
     item\<lparr>ro_pointers := ro_pointers item @ [p],
          ro_reads := add_pointer_facts before_facts p (ro_reads item),
          ro_writes := add_pointer_facts after_facts p (ro_writes item)\<rparr>"

text \<open>The body of the switch: the item of one operation and the loop variables after it.\<close>

definition resolve_body ::
    "world_snapshot \<Rightarrow> world_snapshot \<Rightarrow> fact_store \<Rightarrow> fact_store \<Rightarrow> resolve_state \<Rightarrow> operation_body \<Rightarrow>
     resolved_operation \<Rightarrow> resolved_operation \<times> resolve_state" where
  "resolve_body before after before_facts after_facts st body item =
     (let resolve = resolve_before_or_after before after st;
          update = (\<lambda>r. (update_object_item before_facts after_facts (resolve r) item, st));
          change = (\<lambda>p. (update_pointer_item before_facts after_facts p item, st))
      in case body of
        InternType _ _ \<Rightarrow> (item, st)
      | InternRelation _ _ \<Rightarrow> (item, st)
      | AssertFact _ \<Rightarrow> (item, st)
      | AssertObject r \<Rightarrow> (read_object before_facts (resolve r) item, st)
      | AssertPointer p \<Rightarrow>
          (item\<lparr>ro_pointers := ro_pointers item @ [p], ro_reads := add_pointer_facts before_facts p (ro_reads item)\<rparr>, st)
      | CreateObject c \<Rightarrow>
          (case object_named after (co_name c) of
             None \<Rightarrow> (item, st)
           | Some i \<Rightarrow>
               (item\<lparr>ro_objects := ro_objects item @ [i], ro_writes := add_object_facts after_facts i (ro_writes item)\<rparr>,
                st\<lparr>rs_temps := om_emplace (co_temp c) i (rs_temps st)\<rparr>))
      | SetObjectType r _ \<Rightarrow> update r
      | SetObjectExistence r _ \<Rightarrow> update r
      | SetObjectAttribute r _ \<Rightarrow> update r
      | RemoveObjectAttribute r _ \<Rightarrow> update r
      | CreatePointer c \<Rightarrow>
          (let item = read_object before_facts (resolve (cp_to c)) (read_object before_facts (resolve (cp_from c)) item);
               p = rs_next_pointer st
           in (item\<lparr>ro_pointers := ro_pointers item @ [p], ro_writes := add_pointer_facts after_facts p (ro_writes item)\<rparr>,
               st\<lparr>rs_next_pointer := p + 1\<rparr>))
      | ExpirePointer p \<Rightarrow> change p
      | SetPointerWeight p _ \<Rightarrow> change p
      | SetPointerAttribute p _ \<Rightarrow> change p
      | RemovePointerAttribute p _ \<Rightarrow> change p
      | EmitEvent _ \<Rightarrow> (item, st))"

definition finish_item :: "resolved_operation \<Rightarrow> resolved_operation" where
  "finish_item item = item\<lparr>ro_objects := sort_unique_objects (ro_objects item),
     ro_pointers := sort_unique_pointers (ro_pointers item),
     ro_reads := unique_fact_ids (ro_reads item), ro_writes := unique_fact_ids (ro_writes item)\<rparr>"

fun resolve_loop ::
    "world_snapshot \<Rightarrow> world_snapshot \<Rightarrow> fact_store \<Rightarrow> fact_store \<Rightarrow> resolve_state \<Rightarrow> delta \<Rightarrow> resolved_operation list" where
  "resolve_loop before after before_facts after_facts st [] = []"
| "resolve_loop before after before_facts after_facts st (op # ops) =
     (let (item, st') = resolve_body before after before_facts after_facts st (op_body op)
            \<lparr>ro_id = op_id op, ro_kind = operation_kind (op_body op), ro_objects = [], ro_pointers = [],
             ro_reads = [], ro_writes = []\<rparr>
      in finish_item item # resolve_loop before after before_facts after_facts st' ops)"

definition resolve_operations ::
    "delta \<Rightarrow> world_snapshot \<Rightarrow> world_snapshot \<Rightarrow> fact_store \<Rightarrow> fact_store \<Rightarrow> resolved_operation list" where
  "resolve_operations d before after before_facts after_facts =
     resolve_loop before after before_facts after_facts
       \<lparr>rs_temps = [], rs_next_pointer = next_pointer_value before\<rparr> d"

section \<open>Plans, hashes and proofs\<close>

definition make_execution_plan ::
    "digest \<Rightarrow> transaction \<Rightarrow> world_snapshot \<Rightarrow> world_snapshot \<Rightarrow> verification_result \<Rightarrow> execution_plan" where
  "make_execution_plan H tx before after verification =
     (let before_facts = fact_store_from_snapshot H before; after_facts = fact_store_from_snapshot H after
      in \<lparr>xp_tx = tx, xp_before = before,
          xp_resolved = resolve_operations (tx_delta tx) before after before_facts after_facts,
          xp_after = after, xp_verification = verification, xp_plan_hash = 0\<rparr>)"

definition collect_reads :: "execution_plan \<Rightarrow> fact_id list" where
  "collect_reads plan = unique_fact_ids (concat (map ro_reads (xp_resolved plan)))"

definition collect_writes :: "execution_plan \<Rightarrow> fact_id list" where
  "collect_writes plan = unique_fact_ids (concat (map ro_writes (xp_resolved plan)))"

definition tx_program_hash :: "digest \<Rightarrow> transaction \<Rightarrow> hash256" where
  "tx_program_hash H tx = (case tx_program tx of Some p \<Rightarrow> program_hash H p | None \<Rightarrow> 0)"

definition encode_resolved :: "resolved_operation \<Rightarrow> bytes" where
  "encode_resolved op =
     writer_u64 (ro_id op) @ writer_u8 (ro_kind op)
     @ wlist encode_object_id (ro_objects op) @ wlist writer_u64 (ro_pointers op)
     @ wlist writer_hash (unique_fact_ids (ro_reads op)) @ wlist writer_hash (unique_fact_ids (ro_writes op))"

definition execution_plan_stream :: "digest \<Rightarrow> execution_plan \<Rightarrow> bytes" where
  "execution_plan_stream H plan =
     writer_string ''ExecutionPlan:v2'' @ writer_u8 (origin_to_byte (tx_origin (xp_tx plan)))
     @ writer_hash (tx_program_hash H (xp_tx plan)) @ writer_hash (hash_delta H (tx_delta (xp_tx plan)))
     @ writer_hash (wr_root (compute_world_root H (xp_before plan)))
     @ writer_hash (wr_root (compute_world_root H (xp_after plan)))
     @ wlist encode_resolved (xp_resolved plan)
     @ writer_hash (hash_law_statuses H (vr_statuses (xp_verification plan)))
     @ writer_hash (hash_law_violations H (vr_violations (xp_verification plan)))"

definition hash_execution_plan :: "digest \<Rightarrow> execution_plan \<Rightarrow> hash256" where
  "hash_execution_plan H plan = H (execution_plan_stream H plan)"

definition hash_hashes :: "digest \<Rightarrow> string \<Rightarrow> hash256 list \<Rightarrow> hash256" where
  "hash_hashes H label hashes = H (writer_string label @ wlist writer_hash hashes)"

definition make_commit_proof :: "digest \<Rightarrow> execution_plan \<Rightarrow> commit_proof" where
  "make_commit_proof H plan =
     (let program_root = tx_program_hash H (xp_tx plan);
          before_root = wr_root (compute_world_root H (xp_before plan));
          operation_root = hash_delta H (tx_delta (xp_tx plan));
          read_set_root = compute_fact_id_root H (collect_reads plan)
      in \<lparr>cpf_program_root = program_root, cpf_before_root = before_root, cpf_operation_root = operation_root,
          cpf_read_set_root = read_set_root,
          cpf_write_set_root = compute_fact_id_root H (collect_writes plan),
          cpf_law_input_root = hash_hashes H ''LawInputRoot:v1'' [program_root, before_root, operation_root, read_set_root],
          cpf_law_output_root = hash_hashes H ''LawOutputRoot:v1''
            [hash_law_statuses H (vr_statuses (xp_verification plan)),
             hash_law_violations H (vr_violations (xp_verification plan))],
          cpf_after_root = wr_root (compute_world_root H (xp_after plan))\<rparr>)"

record sealed_plan =
  sp_plan :: execution_plan
  sp_proof :: commit_proof
  sp_proof_hash :: hash256

definition seal_execution_plan :: "digest \<Rightarrow> execution_plan \<Rightarrow> sealed_plan" where
  "seal_execution_plan H plan =
     (let plan = plan\<lparr>xp_plan_hash := hash_execution_plan H plan\<rparr>; sealed = make_commit_proof H plan
      in \<lparr>sp_plan = plan, sp_proof = sealed, sp_proof_hash = hash_commit_proof H sealed\<rparr>)"

section \<open>Canonical lists\<close>

lemma sorted_remdups_adj_distinct:
  assumes "sorted xs"
  shows "distinct (remdups_adj xs)"
  using assms by (induction xs rule: remdups_adj.induct) auto

lemma unique_fact_ids_props [simp]:
  "set (unique_fact_ids ids) = set ids" "distinct (unique_fact_ids ids)" "sorted (map hash_bytes (unique_fact_ids ids))"
proof -
  have inj: "inj hash_bytes" by (rule injI) simp
  have "sorted_wrt (\<lambda>x y. \<not> fact_id_lt y x) (sort_by fact_id_lt ids)"
    by (rule sorted_sort_by) (auto simp: fact_id_lt_bytes)
  then have sorted: "sorted (map hash_bytes (sort_by fact_id_lt ids))"
    by (simp add: sorted_map fact_id_lt_bytes not_less)
  have "map hash_bytes (unique_fact_ids ids) = remdups_adj (map hash_bytes (sort_by fact_id_lt ids))"
    by (simp add: unique_fact_ids_def remdups_adj_map_injective inj)
  then show "distinct (unique_fact_ids ids)" "sorted (map hash_bytes (unique_fact_ids ids))"
    using sorted_remdups_adj_distinct [OF sorted] sorted_remdups_adj [OF sorted] by (metis distinct_map, simp)
qed (simp add: unique_fact_ids_def)

lemma unique_fact_ids_cong:
  assumes "set xs = set ys"
  shows "unique_fact_ids xs = unique_fact_ids ys"
proof -
  have "map hash_bytes (unique_fact_ids xs) = map hash_bytes (unique_fact_ids ys)"
    by (rule sorted_distinct_set_unique) (simp_all add: assms distinct_map inj_on_def)
  then show ?thesis by (metis hash_bytes_inj map_injective injI)
qed

lemma unique_fact_ids_idem [simp]: "unique_fact_ids (unique_fact_ids xs) = unique_fact_ids xs"
  by (rule unique_fact_ids_cong) simp

lemma sort_unique_sets [simp]:
  "set (sort_unique_objects os) = set os" "set (sort_unique_pointers ps) = set ps"
  by (simp_all add: sort_unique_objects_def sort_unique_pointers_def)

lemma sorted_sort_by_less: "sorted (sort_by (<) (xs :: 'b::linorder list))"
proof -
  have "sorted_wrt (\<lambda>x y. \<not> y < x) (sort_by (<) xs)" by (rule sorted_sort_by) auto
  then show ?thesis by (simp add: not_less)
qed

lemma sort_unique_distinct [simp]:
  "distinct (sort_unique_objects os)" "distinct (sort_unique_pointers ps)"
  by (simp_all add: sort_unique_objects_def sort_unique_pointers_def sorted_remdups_adj_distinct sorted_sort_by_less)

section \<open>Where reads and writes come from\<close>

lemma add_facts_set [simp]:
  "set (add_object_facts store i out) = set out \<union> fact_id_of ` {f \<in> set store. fact_of_object i f}"
  "set (add_pointer_facts store p out) = set out \<union> fact_id_of ` {f \<in> set store. fact_of_pointer p f}"
  by (auto simp: add_object_facts_def add_pointer_facts_def)

definition sourced :: "fact_store \<Rightarrow> fact_store \<Rightarrow> operation_id \<Rightarrow> u8 \<Rightarrow> resolved_operation \<Rightarrow> bool" where
  "sourced bf af i k item = (set (ro_reads item) \<subseteq> fact_id_of ` set bf \<and> set (ro_writes item) \<subseteq> fact_id_of ` set af
    \<and> ro_id item = i \<and> ro_kind item = k)"

lemma sourced_steps:
  assumes "sourced bf af i k item"
  shows "sourced bf af i k (read_object bf r item)" "sourced bf af i k (update_object_item bf af r item)"
    "sourced bf af i k (update_pointer_item bf af p item)"
    "sourced bf af i k (item\<lparr>ro_pointers := ps, ro_reads := add_pointer_facts bf p (ro_reads item)\<rparr>)"
    "sourced bf af i k (item\<lparr>ro_pointers := ps, ro_writes := add_pointer_facts af p (ro_writes item)\<rparr>)"
    "sourced bf af i k (item\<lparr>ro_objects := os, ro_writes := add_object_facts af j (ro_writes item)\<rparr>)"
  using assms
  by (cases r; force simp: sourced_def read_object_def update_object_item_def update_pointer_item_def)+

lemma resolve_body_sources:
  assumes "resolve_body before after bf af st body item = (item', st')" and "sourced bf af i k item"
  shows "sourced bf af i k item'"
  using assms
  by (cases body) (auto simp: resolve_body_def Let_def intro!: sourced_steps split: option.splits)

lemma resolve_loop_cons:
  obtains item st' where "resolve_body before after bf af st (op_body op)
        \<lparr>ro_id = op_id op, ro_kind = operation_kind (op_body op), ro_objects = [], ro_pointers = [],
         ro_reads = [], ro_writes = []\<rparr> = (item, st')"
    and "resolve_loop before after bf af st (op # ops) = finish_item item # resolve_loop before after bf af st' ops"
  by (cases "resolve_body before after bf af st (op_body op)
        \<lparr>ro_id = op_id op, ro_kind = operation_kind (op_body op), ro_objects = [], ro_pointers = [],
         ro_reads = [], ro_writes = []\<rparr>") simp

lemma resolve_loop_sourced:
  "list_all2 (\<lambda>op. sourced bf af (op_id op) (operation_kind (op_body op))) ops (resolve_loop before after bf af st ops)"
proof (induction ops arbitrary: st)
  case (Cons op ops)
  obtain item0 st' where 1: "resolve_body before after bf af st (op_body op)
        \<lparr>ro_id = op_id op, ro_kind = operation_kind (op_body op), ro_objects = [], ro_pointers = [],
         ro_reads = [], ro_writes = []\<rparr> = (item0, st')"
    and 2: "resolve_loop before after bf af st (op # ops) = finish_item item0 # resolve_loop before after bf af st' ops"
    by (rule resolve_loop_cons)
  have "sourced bf af (op_id op) (operation_kind (op_body op)) item0"
    by (rule resolve_body_sources [OF 1]) (simp add: sourced_def)
  then show ?case using Cons.IH unfolding 2 by (simp add: finish_item_def sourced_def)
qed simp

lemma resolve_loop_sources:
  assumes "item \<in> set (resolve_loop before after bf af st ops)"
  shows "set (ro_reads item) \<subseteq> fact_id_of ` set bf \<and> set (ro_writes item) \<subseteq> fact_id_of ` set af"
  using resolve_loop_sourced [of bf af ops before after st] assms
  by (auto simp: list_all2_conv_all_nth in_set_conv_nth sourced_def)

lemma resolve_loop_ids:
  "map ro_id (resolve_loop before after bf af st ops) = map op_id ops
   \<and> map ro_kind (resolve_loop before after bf af st ops) = map (\<lambda>op. operation_kind (op_body op)) ops"
  using resolve_loop_sourced [of bf af ops before after st]
  by (auto simp: list_all2_conv_all_nth sourced_def intro: nth_equalityI)

lemma resolve_loop_canonical:
  "item \<in> set (resolve_loop before after bf af st ops) \<Longrightarrow>
   distinct (ro_objects item) \<and> distinct (ro_pointers item) \<and> unique_fact_ids (ro_reads item) = ro_reads item
   \<and> unique_fact_ids (ro_writes item) = ro_writes item"
  by (induction ops arbitrary: st) (auto simp: finish_item_def split: prod.splits)

lemma collect_sources:
  assumes "plan = make_execution_plan H tx before after v"
  shows "set (collect_reads plan) \<subseteq> fact_id_of ` set (derive_facts H before)"
    and "set (collect_writes plan) \<subseteq> fact_id_of ` set (derive_facts H after)"
  using resolve_loop_sources
  by (force simp: assms collect_reads_def collect_writes_def make_execution_plan_def resolve_operations_def Let_def
      fact_store_from_snapshot_def)+

end
