(* ===== verification/Plan_Cover.thy ===== *)
theory Plan_Cover
  imports Execution_Plan Progress
begin

text \<open>
  The read and write sets of an execution plan cover what a delta changes: when the overlay accepts the
  delta, a fact that only the predicted snapshot has is in a write set, and a fact that only the snapshot
  before has is in a read set.  The exception is the fact of a tombstoned object, whose expiry is the
  epoch of the snapshot it is derived from, so that it changes at every epoch without being touched.
\<close>

definition reads_object :: "fact_store \<Rightarrow> object_id \<Rightarrow> resolved_operation \<Rightarrow> bool" where
  "reads_object facts i item = (\<forall>f \<in> set facts. fact_of_object i f \<longrightarrow> fact_id_of f \<in> set (ro_reads item))"

definition writes_object :: "fact_store \<Rightarrow> object_id \<Rightarrow> resolved_operation \<Rightarrow> bool" where
  "writes_object facts i item = (\<forall>f \<in> set facts. fact_of_object i f \<longrightarrow> fact_id_of f \<in> set (ro_writes item))"

definition reads_pointer :: "fact_store \<Rightarrow> pointer_id \<Rightarrow> resolved_operation \<Rightarrow> bool" where
  "reads_pointer facts i item = (\<forall>f \<in> set facts. fact_of_pointer i f \<longrightarrow> fact_id_of f \<in> set (ro_reads item))"

definition writes_pointer :: "fact_store \<Rightarrow> pointer_id \<Rightarrow> resolved_operation \<Rightarrow> bool" where
  "writes_pointer facts i item = (\<forall>f \<in> set facts. fact_of_pointer i f \<longrightarrow> fact_id_of f \<in> set (ro_writes item))"

lemmas covers_defs = reads_object_def writes_object_def reads_pointer_def writes_pointer_def

text \<open>What an item covers of the change from one snapshot to another.\<close>

definition item_covers :: "fact_store \<Rightarrow> fact_store \<Rightarrow> world_snapshot \<Rightarrow> world_snapshot \<Rightarrow> resolved_operation list \<Rightarrow> bool" where
  "item_covers bf af s t items =
     ((\<forall>ob \<in> set (sn_objects t). ob \<in> set (sn_objects s) \<or> list_ex (writes_object af (os_id ob)) items)
      \<and> (\<forall>ob \<in> set (sn_objects s). ob \<in> set (sn_objects t) \<or> list_ex (reads_object bf (os_id ob)) items)
      \<and> (\<forall>p \<in> set (sn_pointers t). p \<in> set (sn_pointers s) \<or> list_ex (writes_pointer af (ps_id p)) items)
      \<and> (\<forall>p \<in> set (sn_pointers s). p \<in> set (sn_pointers t) \<or> list_ex (reads_pointer bf (ps_id p)) items))"

lemma item_covers_trans:
  "item_covers bf af s t xs \<Longrightarrow> item_covers bf af t u ys \<Longrightarrow> item_covers bf af s u (xs @ ys)"
  unfolding item_covers_def list_ex_append by blast

lemma item_covers_same:
  "sn_objects t = sn_objects s \<Longrightarrow> sn_pointers t = sn_pointers s \<Longrightarrow> item_covers bf af s t items"
  by (simp add: item_covers_def)

lemma covers_finish [simp]:
  "reads_object bf i (finish_item item) = reads_object bf i item"
  "writes_object bf i (finish_item item) = writes_object bf i item"
  "reads_pointer bf p (finish_item item) = reads_pointer bf p item"
  "writes_pointer bf p (finish_item item) = writes_pointer bf p item"
  by (simp_all add: covers_defs finish_item_def)

lemma item_covers_finish [simp]: "item_covers bf af s t [finish_item item] = item_covers bf af s t [item]"
  by (simp add: item_covers_def)

section \<open>One operation\<close>

definition plan_aligned :: "resolve_state \<Rightarrow> overlay_state \<Rightarrow> bool" where
  "plan_aligned rs st = (rs_temps rs = ov_temps st \<and> rs_next_pointer rs = ov_next_pointer st)"

lemma plan_aligned_resolve:
  assumes "plan_aligned rs st" and "resolve_ref (ov_out st) (ov_temps st) r = Some i"
    and "\<And>i. snapshot_contains (ov_out st) i \<Longrightarrow> snapshot_contains after i"
  shows "resolve_before_or_after before after rs r = Some i"
  using assms by (auto simp: resolve_ref_def resolve_before_or_after_def plan_aligned_def split: object_ref.splits if_splits)

lemma update_first_keeps: "update_first P f xs = Some ys \<Longrightarrow> x \<in> set xs \<Longrightarrow> x \<in> set ys \<or> P x"
  by (induction xs arbitrary: ys) (auto split: if_splits)

lemma update_object_covers:
  assumes "overlay_update_object r f st = Inr st'" and "\<And>ob. os_id (f ob) = os_id ob"
    and "plan_aligned rs st" and "\<And>i. snapshot_contains (ov_out st) i \<Longrightarrow> snapshot_contains after i"
  shows "item_covers bf af (ov_out st) (ov_out st')
      [update_object_item bf af (resolve_before_or_after before after rs r) item] \<and> plan_aligned rs st'"
proof -
  from assms(1) obtain i out where i: "resolve_ref (ov_out st) (ov_temps st) r = Some i"
    and mut: "mutate_object i f (ov_out st) = Some out" and st': "st' = st\<lparr>ov_out := out\<rparr>"
    by (auto simp: overlay_update_object_def split: option.splits)
  from mut obtain obs where out: "out = (ov_out st)\<lparr>sn_objects := obs\<rparr>"
    and upd: "update_first (\<lambda>ob. os_id ob = i) f (sn_objects (ov_out st)) = Some obs"
    by (rule mutate_object_Some)
  have new: "ob \<in> set (sn_objects (ov_out st)) \<or> os_id ob = i" if "ob \<in> set obs" for ob
    using update_first_mem [OF upd that] assms(2) by auto
  have old: "ob \<in> set obs \<or> os_id ob = i" if "ob \<in> set (sn_objects (ov_out st))" for ob
    using update_first_keeps [OF upd that] .
  show ?thesis
    using new old assms(3)
    by (auto simp: st' out item_covers_def covers_defs plan_aligned_def update_object_item_def
        plan_aligned_resolve [OF assms(3) i assms(4)])
qed

lemma update_pointer_covers:
  assumes "overlay_update_pointer i f st = Inr st'" and "\<And>p. ps_id (f p) = ps_id p" and "plan_aligned rs st"
  shows "item_covers bf af (ov_out st) (ov_out st') [update_pointer_item bf af i item] \<and> plan_aligned rs st'"
proof -
  from assms(1) obtain out where mut: "mutate_pointer i f (ov_out st) = Some out" and st': "st' = st\<lparr>ov_out := out\<rparr>"
    by (auto simp: overlay_update_pointer_def split: option.splits)
  from mut obtain ps where out: "out = (ov_out st)\<lparr>sn_pointers := ps\<rparr>"
    and upd: "update_first (\<lambda>p. ps_id p = i) f (sn_pointers (ov_out st)) = Some ps"
    by (rule mutate_pointer_Some)
  have new: "p \<in> set (sn_pointers (ov_out st)) \<or> ps_id p = i" if "p \<in> set ps" for p
    using update_first_mem [OF upd that] assms(2) by auto
  show ?thesis
    using new update_first_keeps [OF upd] assms(3)
    by (fastforce simp: st' out item_covers_def covers_defs plan_aligned_def update_pointer_item_def)
qed

lemma create_object_covers:
  assumes "overlay_create_object c st = Inr st'" and "plan_aligned rs st"
    and "\<And>ob. ob \<in> set (sn_objects (ov_out st')) \<Longrightarrow> object_named after (os_name ob) = Some (os_id ob)"
  shows "object_named after (co_name c) = Some (ObjectId (ov_next_index st) 1)
    \<and> item_covers bf af (ov_out st) (ov_out st')
       [item\<lparr>ro_objects := os, ro_writes := add_object_facts af (ObjectId (ov_next_index st) 1) ws\<rparr>]
    \<and> plan_aligned (rs\<lparr>rs_temps := om_emplace (co_temp c) (ObjectId (ov_next_index st) 1) (rs_temps rs)\<rparr>) st'"
proof -
  let ?ob = "\<lparr>os_id = ObjectId (ov_next_index st) 1, os_name = co_name c, os_type = co_type c,
    os_existence = co_existence c, os_attributes = sort_attributes (co_attributes c), os_incoming = 0, os_outgoing = 0\<rparr>"
  have out: "sn_objects (ov_out st') = sn_objects (ov_out st) @ [?ob]" "sn_pointers (ov_out st') = sn_pointers (ov_out st)"
    and rest: "ov_temps st' = om_emplace (co_temp c) (ObjectId (ov_next_index st) 1) (ov_temps st)"
      "ov_next_pointer st' = ov_next_pointer st"
    using assms(1) by (auto simp: overlay_create_object_def Let_def split: if_splits)
  have "object_named after (co_name c) = Some (ObjectId (ov_next_index st) 1)"
    using assms(3) [of ?ob] by (simp add: out)
  then show ?thesis
    using assms(2) by (auto simp: item_covers_def covers_defs plan_aligned_def out rest)
qed

lemma create_pointer_covers:
  assumes "overlay_create_pointer c st = Inr st'" and "plan_aligned rs st"
  shows "item_covers bf af (ov_out st) (ov_out st')
       [item\<lparr>ro_pointers := ps, ro_writes := add_pointer_facts af (rs_next_pointer rs) ws\<rparr>]
    \<and> plan_aligned (rs\<lparr>rs_next_pointer := rs_next_pointer rs + 1\<rparr>) st'"
proof -
  obtain f t where out: "sn_objects (ov_out st') = sn_objects (ov_out st)"
      "sn_pointers (ov_out st') = sn_pointers (ov_out st) @ [\<lparr>ps_id = ov_next_pointer st, ps_from = f, ps_to = t,
         ps_relation = cp_relation c, ps_role = cp_role c, ps_weight = cp_weight c, ps_born = sn_epoch (ov_out st),
         ps_expires = None, ps_law_domain = (if cp_law_domain c = [] then ''core'' else cp_law_domain c),
         ps_attributes = sort_attributes (cp_attributes c)\<rparr>]"
    and rest: "ov_temps st' = ov_temps st" "ov_next_pointer st' = ov_next_pointer st + 1"
    using assms(1) by (auto simp: overlay_create_pointer_def Let_def split: if_splits option.splits)
  show ?thesis
    using assms(2) by (auto simp: item_covers_def covers_defs plan_aligned_def out rest)
qed

lemma step_covers:
  assumes step: "overlay_step H st op = Inr st'" and al: "plan_aligned rs st"
    and named: "\<And>ob. ob \<in> set (sn_objects (ov_out st')) \<Longrightarrow> object_named after (os_name ob) = Some (os_id ob)"
    and inside: "\<And>i. snapshot_contains (ov_out st) i \<Longrightarrow> snapshot_contains after i"
    and body: "resolve_body before after bf af rs (op_body op) item = (item', rs')"
  shows "item_covers bf af (ov_out st) (ov_out st') [item'] \<and> plan_aligned rs' st'"
proof -
  define goal where "goal = (item_covers bf af (ov_out st) (ov_out st') [item'] \<and> plan_aligned rs' st')"
  have same: goal if "st' = st" "rs' = rs"
    using that al by (simp add: goal_def item_covers_same)
  have intern: goal if "overlay_intern_type n i st = Inr st' \<or> overlay_intern_relation n i st = Inr st'" "rs' = rs" for n i
    using that al
    by (auto simp: goal_def overlay_intern_type_def overlay_intern_relation_def Let_def plan_aligned_def item_covers_same
        split: if_splits option.splits)
  have object: goal if "overlay_update_object r f st = Inr st'" "\<And>ob. os_id (f ob) = os_id ob"
      "item' = update_object_item bf af (resolve_before_or_after before after rs r) item" "rs' = rs" for r f
    using update_object_covers [OF that(1,2) al inside] that(3,4) by (simp add: goal_def)
  have pointer: goal if "overlay_update_pointer i f st = Inr st'" "\<And>p. ps_id (f p) = ps_id p"
      "item' = update_pointer_item bf af i item" "rs' = rs" for i f
    using update_pointer_covers [OF that(1,2) al] that(3,4) by (simp add: goal_def)
  have goal
  proof (cases "op_body op")
    case (CreateObject c)
    with step have "overlay_create_object c st = Inr st'" by (simp add: overlay_step_def)
    from create_object_covers [OF this al named] body CreateObject show ?thesis
      by (auto simp: resolve_body_def Let_def goal_def)
  next
    case (CreatePointer c)
    with step have "overlay_create_pointer c st = Inr st'" by (simp add: overlay_step_def)
    from create_pointer_covers [OF this al] body CreatePointer show ?thesis
      by (auto simp: resolve_body_def Let_def goal_def)
  qed (use step body in \<open>auto simp: overlay_step_def resolve_body_def Let_def split: if_splits
        intro: same intern object pointer\<close>)
  then show ?thesis by (simp add: goal_def)
qed

section \<open>The whole delta\<close>

lemma named_core:
  assumes "distinct (map os_name (sn_objects s))" and "(i, n) \<in> object_core ` set (sn_objects s)"
  shows "object_named s n = Some i"
proof -
  from assms(2) obtain ob where ob: "ob \<in> set (sn_objects s)" "os_id ob = i" "os_name ob = n"
    by (auto simp: object_core_def)
  obtain ob' where find: "List.find (\<lambda>ob. os_name ob = n) (sn_objects s) = Some ob'"
    using ob by (cases "List.find (\<lambda>ob. os_name ob = n) (sn_objects s)") (auto simp: find_None_iff)
  then have "ob' \<in> set (sn_objects s)" "os_name ob' = n" by (auto simp: find_Some_iff in_set_conv_nth)
  then have "ob' = ob" using ob assms(1) by (auto simp: distinct_map inj_on_def)
  then show ?thesis using find ob by (simp add: object_named_def)
qed

lemma extends_core: "extends s t \<Longrightarrow> object_core ` set (sn_objects s) \<subseteq> object_core ` set (sn_objects t)"
  unfolding extends_alt by (metis Un_upper1 list.set_map set_append)

lemma extends_contains:
  assumes "extends s t" and "snapshot_contains s i"
  shows "snapshot_contains t i"
proof -
  have core: "os_id ` set (sn_objects u) = fst ` (object_core ` set (sn_objects u))" for u
    by (auto simp: object_core_def image_image)
  show ?thesis
    using assms(2) image_mono [OF extends_core [OF assms(1)], of fst] unfolding snapshot_contains_mem core by blast
qed

lemma loop_covers:
  assumes "distinct (map os_name (sn_objects after))"
  shows "res_fold (overlay_step H) st ops = Inr st' \<Longrightarrow> extends (ov_out st') after \<Longrightarrow> plan_aligned rs st \<Longrightarrow>
    item_covers bf af (ov_out st) (ov_out st') (resolve_loop before after bf af rs ops)"
proof (induction ops arbitrary: st rs)
  case Nil
  then show ?case by (simp add: item_covers_def)
next
  case (Cons op ops)
  from Cons.prems(1) obtain st1 where step: "overlay_step H st op = Inr st1"
    and rest: "res_fold (overlay_step H) st1 ops = Inr st'"
    by (auto simp: res_bind_Inr_iff)
  have ext1: "extends (ov_out st1) after"
    using extends_trans [OF overlay_loop_extends [OF rest] Cons.prems(2)] .
  then have ext: "extends (ov_out st) after"
    using extends_trans [OF overlay_step_extends [OF step]] by blast
  obtain item rs1 where body: "resolve_body before after bf af rs (op_body op)
        \<lparr>ro_id = op_id op, ro_kind = operation_kind (op_body op), ro_objects = [], ro_pointers = [],
         ro_reads = [], ro_writes = []\<rparr> = (item, rs1)"
    and loop: "resolve_loop before after bf af rs (op # ops) = finish_item item # resolve_loop before after bf af rs1 ops"
    by (rule resolve_loop_cons)
  have "item_covers bf af (ov_out st) (ov_out st1) [item] \<and> plan_aligned rs1 st1"
  proof (rule step_covers [OF step Cons.prems(3) _ _ body])
    fix ob assume "ob \<in> set (sn_objects (ov_out st1))"
    then show "object_named after (os_name ob) = Some (os_id ob)"
      using named_core [OF assms, of "os_id ob" "os_name ob"] extends_core [OF ext1]
      by (auto simp: object_core_def image_subset_iff)
  qed (rule extends_contains [OF ext])
  then have "item_covers bf af (ov_out st) (ov_out st') ([finish_item item] @ resolve_loop before after bf af rs1 ops)"
    by (intro item_covers_trans [where t = "ov_out st1"] Cons.IH rest Cons.prems(2)) simp_all
  then show ?case by (simp only: loop append_Cons append_Nil)
qed

lemma plan_items_cover:
  assumes "snapshot_wf base" and "ids_room base (length d)" and "overlay_apply H base d = Inr s"
  obtains st where "s = overlay_finish H st"
    and "item_covers (derive_facts H base) (derive_facts H s) base (ov_out st)
       (resolve_operations d base s (derive_facts H base) (derive_facts H s))"
    and "extends (ov_out st) s"
proof -
  from assms(3) obtain st where st: "res_fold (overlay_step H) (overlay_init base) d = Inr st" "s = overlay_finish H st"
    by (rule overlay_apply_Inr)
  have ext: "extends (ov_out st) s"
    using recompute_counts_cores [of "ov_out st"]
    by (simp add: st(2) overlay_finish_def Let_def extends_alt) (simp add: recompute_counts_def)
  have "distinct (map os_name (sn_objects s))"
    using overlay_apply_wf [OF assms] by (simp add: snapshot_wf_def)
  from loop_covers [OF this st(1) ext, of "\<lparr>rs_temps = [], rs_next_pointer = next_pointer_value base\<rparr>"]
  have "item_covers (derive_facts H base) (derive_facts H s) (ov_out (overlay_init base)) (ov_out st)
     (resolve_operations d base s (derive_facts H base) (derive_facts H s))"
    by (simp add: resolve_operations_def plan_aligned_def overlay_init_def Let_def next_pointer_value_def)
  then have "item_covers (derive_facts H base) (derive_facts H s) base (ov_out st)
     (resolve_operations d base s (derive_facts H base) (derive_facts H s))"
    by (simp add: item_covers_def overlay_init_def Let_def)
  with st(2) ext that show thesis by blast
qed

section \<open>Facts\<close>

definition tombstone_fact :: "epoch \<Rightarrow> fact \<Rightarrow> bool" where
  "tombstone_fact e f = (fact_kind_of f = ObjectFact \<and> fact_expired f = Some e)"

lemma derive_facts_mem:
  "f \<in> set (derive_facts H s) \<longleftrightarrow>
     (\<exists>ob \<in> set (sn_objects s). f \<in> set (object_facts H (sn_epoch s) ob))
     \<or> (\<exists>p \<in> set (sn_pointers s). f \<in> set (pointer_facts H p))"
  by (auto simp: derive_facts_def)

lemma object_facts_subject: "f \<in> set (object_facts H e ob) \<Longrightarrow> fact_of_object (os_id ob) f"
  by (auto simp: object_facts_def make_fact_def Let_def fact_of_object_def)

lemma pointer_facts_subject: "f \<in> set (pointer_facts H p) \<Longrightarrow> fact_of_pointer (ps_id p) f"
  by (auto simp: pointer_facts_def make_fact_def Let_def fact_of_pointer_def)

lemma object_facts_epoch:
  "f \<in> set (object_facts H e ob) \<Longrightarrow> \<not> tombstone_fact e f \<Longrightarrow> f \<in> set (object_facts H e' ob)"
  by (auto simp: object_facts_def make_fact_def Let_def tombstone_fact_def split: if_splits)

lemma with_counts_facts [simp]: "object_facts H e (with_counts e' ps ob) = object_facts H e ob"
  by (simp add: object_facts_def with_counts_def)

lemma finish_fact_sources:
  assumes "distinct (map os_id (sn_objects (ov_out st)))"
  shows "f \<in> set (derive_facts H (overlay_finish H st)) \<longleftrightarrow>
     (\<exists>ob \<in> set (sn_objects (ov_out st)). f \<in> set (object_facts H (sn_epoch (ov_out st)) ob))
     \<or> (\<exists>p \<in> set (sn_pointers (ov_out st)). f \<in> set (pointer_facts H p))"
  by (auto simp: derive_facts_mem overlay_finish_def Let_def recompute_counts_spec [OF assms])

lemma covered_fact:
  "list_ex (writes_object facts i) items \<Longrightarrow> f \<in> set facts \<Longrightarrow> fact_of_object i f \<Longrightarrow>
     \<exists>item \<in> set items. fact_id_of f \<in> set (ro_writes item)"
  "list_ex (reads_object facts i) items \<Longrightarrow> f \<in> set facts \<Longrightarrow> fact_of_object i f \<Longrightarrow>
     \<exists>item \<in> set items. fact_id_of f \<in> set (ro_reads item)"
  "list_ex (writes_pointer facts p) items \<Longrightarrow> f \<in> set facts \<Longrightarrow> fact_of_pointer p f \<Longrightarrow>
     \<exists>item \<in> set items. fact_id_of f \<in> set (ro_writes item)"
  "list_ex (reads_pointer facts p) items \<Longrightarrow> f \<in> set facts \<Longrightarrow> fact_of_pointer p f \<Longrightarrow>
     \<exists>item \<in> set items. fact_id_of f \<in> set (ro_reads item)"
  by (auto simp: list_ex_iff covers_defs)

text \<open>The write sets hold every new fact, and the read sets every fact that is gone.\<close>

lemma plan_covers_facts:
  assumes "snapshot_wf base" and "ids_room base (length d)" and "overlay_apply H base d = Inr s"
    and plan: "plan = make_execution_plan H tx base s v" and "tx_delta tx = d"
  shows "f \<in> set (derive_facts H s) \<Longrightarrow> f \<notin> set (derive_facts H base) \<Longrightarrow> \<not> tombstone_fact (sn_epoch s) f \<Longrightarrow>
      fact_id_of f \<in> set (collect_writes plan)"
    and "f \<in> set (derive_facts H base) \<Longrightarrow> f \<notin> set (derive_facts H s) \<Longrightarrow> \<not> tombstone_fact (sn_epoch base) f \<Longrightarrow>
      fact_id_of f \<in> set (collect_reads plan)"
proof -
  obtain st where s: "s = overlay_finish H st" and ext: "extends (ov_out st) s"
    and cov: "item_covers (derive_facts H base) (derive_facts H s) base (ov_out st)
       (resolve_operations d base s (derive_facts H base) (derive_facts H s))"
    by (rule plan_items_cover [OF assms(1-3)])
  let ?items = "resolve_operations d base s (derive_facts H base) (derive_facts H s)"
  have dist: "distinct (map os_id (sn_objects (ov_out st)))"
  proof -
    have "distinct (map os_id (sn_objects s))"
      using overlay_apply_wf [OF assms(1-3)] by (simp add: snapshot_wf_def)
    moreover have "map os_id (sn_objects s) = map fst (map object_core (sn_objects s))"
        "map os_id (sn_objects (ov_out st)) = map fst (map object_core (sn_objects (ov_out st)))"
      by (simp_all add: object_core_def)
    moreover obtain os where "map object_core (sn_objects s) = map object_core (sn_objects (ov_out st)) @ os"
      using ext unfolding extends_alt by blast
    ultimately show ?thesis by (metis distinct_append map_append)
  qed
  have sets: "set (collect_writes plan) = (\<Union>item \<in> set ?items. set (ro_writes item))"
    "set (collect_reads plan) = (\<Union>item \<in> set ?items. set (ro_reads item))"
    by (simp_all add: collect_writes_def collect_reads_def plan make_execution_plan_def Let_def
        fact_store_from_snapshot_def assms(5))
  have epoch: "sn_epoch s = sn_epoch (ov_out st)"
    by (simp add: s overlay_finish_def Let_def recompute_counts_def)
  note mem = finish_fact_sources [OF dist, where H = H, folded s]
  show "fact_id_of f \<in> set (collect_writes plan)"
    if f: "f \<in> set (derive_facts H s)" "f \<notin> set (derive_facts H base)" "\<not> tombstone_fact (sn_epoch s) f"
  proof -
    from f(1) [unfolded mem] consider (object) ob where "ob \<in> set (sn_objects (ov_out st))"
        "f \<in> set (object_facts H (sn_epoch (ov_out st)) ob)"
      | (pointer) p where "p \<in> set (sn_pointers (ov_out st))" "f \<in> set (pointer_facts H p)"
      by blast
    then have "\<exists>item \<in> set ?items. fact_id_of f \<in> set (ro_writes item)"
    proof cases
      case (object ob)
      then have "list_ex (writes_object (derive_facts H s) (os_id ob)) ?items"
        using cov f(2) object_facts_epoch [OF object(2), of "sn_epoch base"] f(3)
        by (auto simp: item_covers_def derive_facts_mem epoch)
      from covered_fact(1) [OF this f(1) object_facts_subject [OF object(2)]] show ?thesis .
    next
      case (pointer p)
      then have "list_ex (writes_pointer (derive_facts H s) (ps_id p)) ?items"
        using cov f(2) by (auto simp: item_covers_def derive_facts_mem)
      from covered_fact(3) [OF this f(1) pointer_facts_subject [OF pointer(2)]] show ?thesis .
    qed
    then show ?thesis by (auto simp: sets)
  qed
  show "fact_id_of f \<in> set (collect_reads plan)"
    if f: "f \<in> set (derive_facts H base)" "f \<notin> set (derive_facts H s)" "\<not> tombstone_fact (sn_epoch base) f"
  proof -
    from f(1) [unfolded derive_facts_mem] consider (object) ob where "ob \<in> set (sn_objects base)"
        "f \<in> set (object_facts H (sn_epoch base) ob)"
      | (pointer) p where "p \<in> set (sn_pointers base)" "f \<in> set (pointer_facts H p)"
      by blast
    then have "\<exists>item \<in> set ?items. fact_id_of f \<in> set (ro_reads item)"
    proof cases
      case (object ob)
      then have "list_ex (reads_object (derive_facts H base) (os_id ob)) ?items"
        using cov f(2) object_facts_epoch [OF object(2) f(3), of "sn_epoch (ov_out st)"] mem [of f]
        by (auto simp: item_covers_def)
      from covered_fact(2) [OF this f(1) object_facts_subject [OF object(2)]] show ?thesis .
    next
      case (pointer p)
      then have "list_ex (reads_pointer (derive_facts H base) (ps_id p)) ?items"
        using cov f(2) mem [of f] by (auto simp: item_covers_def)
      from covered_fact(4) [OF this f(1) pointer_facts_subject [OF pointer(2)]] show ?thesis .
    qed
    then show ?thesis by (auto simp: sets)
  qed
qed

end
