(* ===== verification/Floats.thy ===== *)
theory Floats
  imports Values
begin

text \<open>
  The double arithmetic the laws use, on the 64-bit patterns that stand for doubles: comparison, sum and
  difference, rounded to nearest with ties to even.  A finite pattern stands for an integer multiple of
  the smallest positive double; sums are computed on these integers and rounded once.  The lemmas show
  that comparing patterns compares the numbers they stand for and that rounding a number that has
  a pattern gives the pattern.
\<close>

definition f64_magnitude :: "f64 \<Rightarrow> nat" where
  "f64_magnitude x = unat (take_bit 63 x)"

definition f64_negative :: "f64 \<Rightarrow> bool" where
  "f64_negative x = bit x 63"

definition f64_is_finite :: "f64 \<Rightarrow> bool" where
  "f64_is_finite x = (f64_magnitude x < 0x7ff0000000000000)"

definition f64_rank :: "f64 \<Rightarrow> int" where
  "f64_rank x = (if f64_negative x then - int (f64_magnitude x) else int (f64_magnitude x))"

definition f64_lt :: "f64 \<Rightarrow> f64 \<Rightarrow> bool" where
  "f64_lt x y = (\<not> f64_is_nan x \<and> \<not> f64_is_nan y \<and> f64_rank x < f64_rank y)"

text \<open>The number of units of \<open>2 ^ -1074\<close> a magnitude stands for.\<close>

definition magnitude_units :: "nat \<Rightarrow> nat" where
  "magnitude_units m =
     (let e = m div 2 ^ 52; f = m mod 2 ^ 52 in if e = 0 then f else (f + 2 ^ 52) * 2 ^ (e - 1))"

definition f64_units :: "f64 \<Rightarrow> int" where
  "f64_units x = (if f64_negative x then - int (magnitude_units (f64_magnitude x))
     else int (magnitude_units (f64_magnitude x)))"

definition f64_infinity :: f64 where
  "f64_infinity = 0x7ff0000000000000"

definition f64_neg :: "f64 \<Rightarrow> f64" where
  "f64_neg x = x XOR push_bit 63 1"

definition f64_abs :: "f64 \<Rightarrow> f64" where
  "f64_abs x = take_bit 63 x"

definition round_units :: "nat \<Rightarrow> nat" where
  "round_units n =
     (let k = bit_length n - 53
      in if k = 0 then n
         else let q = n div 2 ^ k; r = n mod 2 ^ k; half = 2 ^ (k - 1);
                  q' = (if r > half \<or> (r = half \<and> odd q) then q + 1 else q)
              in min (k * 2 ^ 52 + q') 0x7ff0000000000000)"

definition f64_round :: "int \<Rightarrow> f64" where
  "f64_round z = (if z < 0 then f64_neg (of_nat (round_units (nat (- z)))) else of_nat (round_units (nat z)))"

definition f64_add :: "f64 \<Rightarrow> f64 \<Rightarrow> f64" where
  "f64_add x y =
     (if f64_is_nan x \<or> f64_is_nan y then 0x7ff8000000000000
      else if \<not> f64_is_finite x then
        (if \<not> f64_is_finite y \<and> f64_negative x \<noteq> f64_negative y then 0x7ff8000000000000 else x)
      else if \<not> f64_is_finite y then y
      else if f64_units x + f64_units y = 0 then
        (if f64_negative x \<and> f64_negative y then f64_neg 0 else 0)
      else f64_round (f64_units x + f64_units y))"

definition f64_sub :: "f64 \<Rightarrow> f64 \<Rightarrow> f64" where
  "f64_sub x y = f64_add x (f64_neg y)"

lemma f64_add_commute: "f64_is_finite x \<Longrightarrow> f64_is_finite y \<Longrightarrow> f64_add x y = f64_add y x"
  by (auto simp: f64_add_def add.commute)

section \<open>Comparison\<close>

lemma magnitude_units_split:
  assumes "f < 2 ^ 52"
  shows "magnitude_units (e * 2 ^ 52 + f) = (if e = 0 then f else (f + 2 ^ 52) * 2 ^ (e - 1))"
proof -
  have "(e * 2 ^ 52 + f) div 2 ^ 52 = e" "(e * 2 ^ 52 + f) mod 2 ^ 52 = f" using assms by simp_all
  then show ?thesis by (simp only: magnitude_units_def Let_def)
qed

lemma magnitude_units_Suc: "magnitude_units m < magnitude_units (Suc m)"
proof -
  obtain e f where m: "m = e * 2 ^ 52 + f" "f < (2 :: nat) ^ 52"
    using that [of "m div 2 ^ 52" "m mod 2 ^ 52"] by simp
  show ?thesis
  proof (cases "Suc f < 2 ^ 52")
    case True
    have "Suc m = e * 2 ^ 52 + Suc f" using m by simp
    then show ?thesis using m True by (simp only: magnitude_units_split) simp
  next
    case False
    then have f: "f = 2 ^ 52 - 1" using m by simp
    then have s: "Suc m = Suc e * 2 ^ 52 + 0" using m by simp
    have "magnitude_units (Suc m) = 2 ^ 52 * 2 ^ e" unfolding s by (subst magnitude_units_split) simp_all
    moreover have "magnitude_units m = (if e = 0 then f else (f + 2 ^ 52) * 2 ^ (e - 1))"
      unfolding m(1) by (rule magnitude_units_split [OF m(2)])
    ultimately show ?thesis using f by (cases e) simp_all
  qed
qed

lemma magnitude_units_less_iff: "magnitude_units m < magnitude_units n \<longleftrightarrow> m < n"
proof -
  have "strict_mono magnitude_units" by (simp add: strict_mono_Suc_iff magnitude_units_Suc)
  then show ?thesis by (rule strict_mono_less)
qed

lemma magnitude_units_0 [simp]: "magnitude_units 0 = 0"
  by (simp add: magnitude_units_def)

text \<open>Ranks compare as the numbers do, and so does the comparison of doubles.\<close>

lemma f64_rank_units: "f64_rank x < f64_rank y \<longleftrightarrow> f64_units x < f64_units y"
proof -
  have pos: "0 < magnitude_units m \<longleftrightarrow> 0 < m" for m
    using magnitude_units_less_iff [of 0 m] by simp
  have mixed: "- int a < int b \<longleftrightarrow> 0 < a \<or> 0 < b" "\<not> int a < - int b" for a b by auto
  show ?thesis
    by (cases "f64_negative x"; cases "f64_negative y")
      (simp_all add: f64_rank_def f64_units_def magnitude_units_less_iff mixed pos)
qed

lemma f64_lt_units:
  "f64_lt x y \<longleftrightarrow> \<not> f64_is_nan x \<and> \<not> f64_is_nan y \<and> f64_units x < f64_units y"
  by (simp add: f64_lt_def f64_rank_units)

section \<open>Rounding\<close>

lemma bit_length_pos: "0 < n \<Longrightarrow> bit_length n = Suc (bit_length (n div 2))"
  by (subst bit_length.simps) simp

lemma bit_length_bounds: "0 < n \<Longrightarrow> 2 ^ (bit_length n - 1) \<le> n \<and> n < 2 ^ bit_length n"
proof (induction n rule: bit_length.induct)
  case (1 n)
  show ?case
  proof (cases "n div 2 = 0")
    case True
    then have "n = 1" using 1 by simp
    then show ?thesis by (simp add: bit_length_pos bit_length.simps [of 0])
  next
    case False
    then have ih: "2 ^ (bit_length (n div 2) - 1) \<le> n div 2 \<and> n div 2 < 2 ^ bit_length (n div 2)"
      using 1 by simp
    moreover obtain k where "bit_length (n div 2) = Suc k" using bit_length_pos [of "n div 2"] False by auto
    moreover have "n = 2 * (n div 2) + n mod 2" "n mod 2 < 2" "bit_length n = Suc (bit_length (n div 2))"
      using bit_length_pos [of n] 1(2) by simp_all
    ultimately show ?thesis by (simp del: bit_length.simps) linarith
  qed
qed

lemma bit_length_eqI:
  assumes "2 ^ k \<le> n" and "n < 2 ^ Suc k"
  shows "bit_length n = Suc k"
proof -
  have "0 < n" using assms(1) by (metis less_le_trans zero_less_numeral zero_less_power)
  then obtain j where j: "bit_length n = Suc j" using bit_length_pos by blast
  have "2 ^ j \<le> n" "n < 2 ^ Suc j" using bit_length_bounds [OF \<open>0 < n\<close>] by (simp_all add: j)
  then have "(2::nat) ^ j < 2 ^ Suc k" "(2::nat) ^ k < 2 ^ Suc j"
    using assms by (blast intro: le_less_trans)+
  then have "j < Suc k" "k < Suc j" by (simp_all only: power_strict_increasing_iff one_less_numeral_iff semiring_norm)
  then show ?thesis using j by linarith
qed

text \<open>A number that has a pattern is rounded to it.\<close>

lemma round_units_exact:
  assumes "m < 0x7ff0000000000000"
  shows "round_units (magnitude_units m) = m"
proof -
  obtain e f where m: "m = e * 2 ^ 52 + f" and f: "f < (2 :: nat) ^ 52"
    using that [of "m div 2 ^ 52" "m mod 2 ^ 52"] by simp
  show ?thesis
  proof (cases "e \<le> 1")
    case True
    then have u: "magnitude_units m = m" using magnitude_units_split [OF f, of e] m by (cases e) auto
    have "m < 2 ^ 53" using True m f by (cases e) auto
    then have "bit_length m \<le> 53"
    proof (cases "m = 0")
      case False
      then have "2 ^ (bit_length m - 1) < (2::nat) ^ 53" using bit_length_bounds [of m] \<open>m < 2 ^ 53\<close> by simp
      then have "bit_length m - 1 < 53" by (simp only: power_strict_increasing_iff one_less_numeral_iff semiring_norm)
      then show ?thesis by simp
    qed (simp add: bit_length.simps)
    then show ?thesis by (simp add: u round_units_def)
  next
    case False
    then obtain k where e: "e = Suc (Suc k)" using that [of "e - 2"] by simp
    let ?n = "(f + 2 ^ 52) * 2 ^ Suc k"
    have u: "magnitude_units m = ?n" using magnitude_units_split [OF f, of e] m by (simp add: e)
    have lo: "2 ^ (53 + k) \<le> ?n" by (simp add: power_add)
    have hi: "?n < 2 ^ Suc (53 + k)" using f by (simp add: power_add)
    have len: "bit_length ?n - 53 = Suc k" by (simp only: bit_length_eqI [OF lo hi])
    have "?n div 2 ^ Suc k = f + 2 ^ 52" "?n mod 2 ^ Suc k = 0"
      by (simp_all only: nonzero_mult_div_cancel_right mod_mult_self2_is_0 power_not_zero zero_neq_numeral not_False_eq_True)
    then show ?thesis using assms unfolding u round_units_def len Let_def
      by (simp add: m e)
  qed
qed

end
