(* ===== verification/Verifier.thy ===== *)
theory Verifier
  imports Execution_Plan World_Index Floats
begin

text \<open>
  Laws and the verifier (\<open>src/law/verifier.cpp\<close>, \<open>src/law/invariant.cpp\<close>): the verifier runs its laws on
  a transition in order and, in strict mode, rejects on a violation that is an error or worse.  A
  \<open>Law\<close> is its name and its check, which may throw; the five built-in laws are the \<open>builtin_check\<close>
  of their name.  The number format \<open>{:.12g}\<close> of the fmt library is the parameter \<open>fmt12\<close>.  The lemmas
  give the result of the verifier in closed form and show which built-in laws hold by construction.
\<close>

record law_context =
  lc_before :: world_snapshot
  lc_delta :: delta
  lc_after :: world_snapshot
  lc_plan :: "execution_plan option"
  lc_before_index :: "world_index option"
  lc_after_index :: "world_index option"
  lc_before_facts :: "fact_store option"
  lc_after_facts :: "fact_store option"

datatype law_error =
    NullLaw
  | EmptyLawName
  | UnimplementedBuiltin string
  | UnknownBuiltin string
  | LawThrew string

record law =
  lw_name :: string
  lw_check :: "law_context \<Rightarrow> law_error + law_violation list"

section \<open>The built-in laws\<close>

definition f64_one :: f64 where
  "f64_one = 0x3ff0000000000000"

definition pointer_evidence :: "law_context \<Rightarrow> pointer_id \<Rightarrow> fact_id list" where
  "pointer_evidence ctx p = (case lc_after_facts ctx of
       None \<Rightarrow> []
     | Some facts \<Rightarrow> map fact_id_of
         (filter (\<lambda>f. case fact_payload_of f of PointerPayload b \<Rightarrow> pfp_pointer b = p | _ \<Rightarrow> False) facts))"

definition object_evidence :: "law_context \<Rightarrow> object_id \<Rightarrow> fact_id list" where
  "object_evidence ctx i = (case lc_before_facts ctx of
       None \<Rightarrow> []
     | Some facts \<Rightarrow> map fact_id_of
         (filter (\<lambda>f. case fact_payload_of f of ObjectPayload b \<Rightarrow> ofp_object b = i | _ \<Rightarrow> False) facts))"

definition pointer_violation ::
    "law_context \<Rightarrow> string \<Rightarrow> severity \<Rightarrow> f64 \<Rightarrow> string \<Rightarrow> pointer_snapshot \<Rightarrow> law_violation" where
  "pointer_violation ctx law severity magnitude explanation p =
     \<lparr>lv_law = law, lv_severity = severity, lv_magnitude = magnitude, lv_explanation = explanation,
      lv_evidence = pointer_evidence ctx (ps_id p), lv_objects = [ps_from p, ps_to p], lv_pointers = [ps_id p]\<rparr>"

definition reject_dangling_pointer :: "string \<Rightarrow> law_context \<Rightarrow> law_violation list" where
  "reject_dangling_pointer name ctx = concat (map (\<lambda>p.
     let after = lc_after ctx
     in if \<not> snapshot_contains after (ps_from p) \<or> \<not> snapshot_contains after (ps_to p)
        then
          let missing = 0;
              missing = (if \<not> snapshot_contains after (ps_from p) then f64_add missing f64_one else missing);
              missing = (if \<not> snapshot_contains after (ps_to p) then f64_add missing f64_one else missing)
          in [pointer_violation ctx name Error missing
                (''pointer '' @ pointer_id_to_string (ps_id p) @ '' references an object outside the snapshot'') p]
        else []) (sn_pointers (lc_after ctx)))"

definition out_of_bounds :: "f64 \<Rightarrow> f64 \<Rightarrow> bool" where
  "out_of_bounds tolerance w = (\<not> f64_is_finite w \<or> f64_lt w 0 \<or> f64_lt (f64_add f64_one tolerance) w)"

definition bounded_weight :: "(f64 \<Rightarrow> string) \<Rightarrow> string \<Rightarrow> f64 \<Rightarrow> law_context \<Rightarrow> law_violation list" where
  "bounded_weight fmt12 name tolerance ctx = concat (map (\<lambda>p.
     let w = ps_weight p
     in if out_of_bounds tolerance w
        then
          let distance = (if f64_is_finite w
                then (if f64_lt w 0 then f64_abs w
                      else if f64_lt (f64_add f64_one tolerance) w then f64_sub w f64_one else f64_one)
                else f64_one)
          in [pointer_violation ctx name Error distance
                (''pointer '' @ pointer_id_to_string (ps_id p) @ '' has out-of-bound weight '' @ fmt12 w) p]
        else []) (sn_pointers (lc_after ctx)))"

definition preserve_relation_type :: "string \<Rightarrow> law_context \<Rightarrow> law_violation list" where
  "preserve_relation_type name ctx = concat (map (\<lambda>p.
     if ps_relation p = 0 \<or> \<not> om_contains (sn_relation_names (lc_after ctx)) (ps_relation p)
     then [pointer_violation ctx name Error f64_one
             (''pointer '' @ pointer_id_to_string (ps_id p) @ '' has no registered relation type'') p]
     else []) (sn_pointers (lc_after ctx)))"

definition no_invalid_epoch_reference :: "string \<Rightarrow> law_context \<Rightarrow> law_violation list" where
  "no_invalid_epoch_reference name ctx = concat (map (\<lambda>p.
     (if sn_epoch (lc_after ctx) < ps_born p
      then [pointer_violation ctx name Error (u64_to_f64 (ps_born p - sn_epoch (lc_after ctx)))
              (''pointer '' @ pointer_id_to_string (ps_id p) @ '' is born after the snapshot epoch'') p]
      else [])
     @ (case ps_expires p of
          None \<Rightarrow> []
        | Some e \<Rightarrow>
            if e < ps_born p
            then [pointer_violation ctx name Error (u64_to_f64 (ps_born p - e))
                    (''pointer '' @ pointer_id_to_string (ps_id p) @ '' expires before it is born'') p]
            else [])) (sn_pointers (lc_after ctx)))"

definition preserve_existing_identity :: "string \<Rightarrow> law_context \<Rightarrow> law_violation list" where
  "preserve_existing_identity name ctx = concat (map (\<lambda>ob.
     case snapshot_object (lc_after ctx) (os_id ob) of
       None \<Rightarrow>
         [\<lparr>lv_law = name, lv_severity = Fatal, lv_magnitude = f64_one,
           lv_explanation = ''object '' @ object_id_to_string (os_id ob)
             @ '' disappeared instead of changing existence state'',
           lv_evidence = object_evidence ctx (os_id ob), lv_objects = [os_id ob], lv_pointers = []\<rparr>]
     | Some _ \<Rightarrow> []) (sn_objects (lc_before ctx)))"

definition builtin_check ::
    "(f64 \<Rightarrow> string) \<Rightarrow> string \<Rightarrow> f64 \<Rightarrow> law_context \<Rightarrow> law_error + law_violation list" where
  "builtin_check fmt12 name tolerance ctx =
     (if name = ''reject_dangling_pointer'' then Inr (reject_dangling_pointer name ctx)
      else if name = ''bounded_weight'' then Inr (bounded_weight fmt12 name tolerance ctx)
      else if name = ''preserve_relation_type'' then Inr (preserve_relation_type name ctx)
      else if name = ''no_invalid_epoch_reference'' then Inr (no_invalid_epoch_reference name ctx)
      else if name = ''preserve_existing_identity'' then Inr (preserve_existing_identity name ctx)
      else Inl (UnimplementedBuiltin name))"

definition make_builtin_law :: "(f64 \<Rightarrow> string) \<Rightarrow> string \<Rightarrow> f64 \<Rightarrow> law_error + law" where
  "make_builtin_law fmt12 name tolerance =
     (if name = ''reject_dangling_pointer'' \<or> name = ''bounded_weight'' \<or> name = ''preserve_relation_type''
         \<or> name = ''no_invalid_epoch_reference'' \<or> name = ''preserve_existing_identity''
      then Inr \<lparr>lw_name = name, lw_check = builtin_check fmt12 name tolerance\<rparr>
      else Inl (UnknownBuiltin name))"

section \<open>The verifier\<close>

datatype verification_mode = Strict | Observe

record verifier =
  vf_mode :: verification_mode
  vf_laws :: "law list"

definition rejects_transition :: "severity \<Rightarrow> bool" where
  "rejects_transition s = (s = Error \<or> s = Fatal)"

definition new_verifier :: "verification_mode \<Rightarrow> verifier" where
  "new_verifier mode = \<lparr>vf_mode = mode, vf_laws = []\<rparr>"

definition verifier_add :: "law option \<Rightarrow> verifier \<Rightarrow> law_error + verifier" where
  "verifier_add law v = (case law of
       None \<Rightarrow> Inl NullLaw
     | Some l \<Rightarrow> if lw_name l = [] then Inl EmptyLawName else Inr (v\<lparr>vf_laws := vf_laws v @ [l]\<rparr>))"

definition verifier_add_builtin :: "(f64 \<Rightarrow> string) \<Rightarrow> string \<Rightarrow> f64 \<Rightarrow> verifier \<Rightarrow> law_error + verifier" where
  "verifier_add_builtin fmt12 name tolerance v =
     res_bind (make_builtin_law fmt12 name tolerance) (\<lambda>l. verifier_add (Some l) v)"

definition verifier_set_mode :: "verification_mode \<Rightarrow> verifier \<Rightarrow> verifier" where
  "verifier_set_mode mode v = v\<lparr>vf_mode := mode\<rparr>"

text \<open>The bodies of the two loops of \<open>Verifier::check\<close>.\<close>

definition check_violation ::
    "verification_mode \<Rightarrow> string \<Rightarrow> law_violation \<Rightarrow> verification_result \<Rightarrow> verification_result" where
  "check_violation mode name violation r =
     (let violation = (if lv_law violation = [] then violation\<lparr>lv_law := name\<rparr> else violation)
      in \<lparr>vr_accepted = (if mode = Strict \<and> rejects_transition (lv_severity violation) then False else vr_accepted r),
          vr_statuses = vr_statuses r @ [\<lparr>ls_law = lv_law violation, ls_passed = False,
             ls_severity = lv_severity violation, ls_magnitude = lv_magnitude violation,
             ls_explanation = lv_explanation violation\<rparr>],
          vr_violations = vr_violations r @ [violation]\<rparr>)"

definition check_law ::
    "verification_mode \<Rightarrow> law_context \<Rightarrow> verification_result \<Rightarrow> law \<Rightarrow> law_error + verification_result" where
  "check_law mode ctx r l =
     res_bind (lw_check l ctx) (\<lambda>violations.
       if violations = [] then
         Inr (r\<lparr>vr_statuses := vr_statuses r @ [\<lparr>ls_law = lw_name l, ls_passed = True, ls_severity = Info,
                ls_magnitude = 0, ls_explanation = ''stable''\<rparr>]\<rparr>)
       else Inr (fold (check_violation mode (lw_name l)) violations r))"

definition verifier_check :: "verifier \<Rightarrow> law_context \<Rightarrow> law_error + verification_result" where
  "verifier_check v ctx = res_fold (check_law (vf_mode v) ctx) default_verification (vf_laws v)"

section \<open>The result of the verifier\<close>

definition named_violation :: "string \<Rightarrow> law_violation \<Rightarrow> law_violation" where
  "named_violation name v = (if lv_law v = [] then v\<lparr>lv_law := name\<rparr> else v)"

definition violation_status :: "law_violation \<Rightarrow> law_status" where
  "violation_status v = \<lparr>ls_law = lv_law v, ls_passed = False, ls_severity = lv_severity v,
     ls_magnitude = lv_magnitude v, ls_explanation = lv_explanation v\<rparr>"

definition stable_status :: "string \<Rightarrow> law_status" where
  "stable_status name = \<lparr>ls_law = name, ls_passed = True, ls_severity = Info, ls_magnitude = 0, ls_explanation = ''stable''\<rparr>"

text \<open>What one law reports on a transition, and the report of all of them.\<close>

definition law_report :: "law_context \<Rightarrow> law \<Rightarrow> law_violation list" where
  "law_report ctx l = map (named_violation (lw_name l)) (projr (lw_check l ctx))"

definition law_statuses_of :: "law_context \<Rightarrow> law \<Rightarrow> law_status list" where
  "law_statuses_of ctx l = (if law_report ctx l = [] then [stable_status (lw_name l)] else map violation_status (law_report ctx l))"

definition verdict :: "verifier \<Rightarrow> law_context \<Rightarrow> verification_result" where
  "verdict v ctx = \<lparr>
     vr_accepted = (vf_mode v = Observe \<or> \<not> (\<exists>l \<in> set (vf_laws v). \<exists>x \<in> set (law_report ctx l). rejects_transition (lv_severity x))),
     vr_statuses = concat (map (law_statuses_of ctx) (vf_laws v)),
     vr_violations = concat (map (law_report ctx) (vf_laws v))\<rparr>"

lemma fold_check_violation:
  "fold (check_violation mode name) vs r = \<lparr>
     vr_accepted = (vr_accepted r \<and> (mode = Observe \<or> \<not> (\<exists>x \<in> set vs. rejects_transition (lv_severity x)))),
     vr_statuses = vr_statuses r @ map (violation_status \<circ> named_violation name) vs,
     vr_violations = vr_violations r @ map (named_violation name) vs\<rparr>"
proof (induction vs arbitrary: r)
  case (Cons v vs)
  then show ?case
    by (cases mode) (auto simp: check_violation_def named_violation_def violation_status_def Let_def)
qed simp

lemma severity_named [simp]: "lv_severity (named_violation name v) = lv_severity v"
  by (simp add: named_violation_def)

lemma check_law_verdict:
  assumes "lw_check l ctx = Inr vs"
  shows "check_law mode ctx r l = Inr \<lparr>
     vr_accepted = (vr_accepted r \<and> (mode = Observe \<or> \<not> (\<exists>x \<in> set (law_report ctx l). rejects_transition (lv_severity x)))),
     vr_statuses = vr_statuses r @ law_statuses_of ctx l,
     vr_violations = vr_violations r @ law_report ctx l\<rparr>"
  using assms
  by (simp add: check_law_def fold_check_violation law_report_def law_statuses_of_def stable_status_def)

lemma verifier_check_verdict:
  assumes "\<And>l. l \<in> set (vf_laws v) \<Longrightarrow> \<not> isl (lw_check l ctx)"
  shows "verifier_check v ctx = Inr (verdict v ctx)"
proof -
  have "res_fold (check_law mode ctx) r ls = Inr \<lparr>
     vr_accepted = (vr_accepted r \<and> (mode = Observe
        \<or> \<not> (\<exists>l \<in> set ls. \<exists>x \<in> set (law_report ctx l). rejects_transition (lv_severity x)))),
     vr_statuses = vr_statuses r @ concat (map (law_statuses_of ctx) ls),
     vr_violations = vr_violations r @ concat (map (law_report ctx) ls)\<rparr>"
    if "\<And>l. l \<in> set ls \<Longrightarrow> \<not> isl (lw_check l ctx)" for mode r ls
    using that
  proof (induction ls arbitrary: r)
    case (Cons l ls)
    then obtain vs where "lw_check l ctx = Inr vs" by (cases "lw_check l ctx") force+
    then show ?case using Cons by (auto simp: check_law_verdict)
  qed simp
  from this [of "vf_laws v" "vf_mode v" default_verification] show ?thesis
    using assms by (simp add: verifier_check_def default_verification_def verdict_def)
qed

text \<open>A law that throws makes the check throw.\<close>

lemma verifier_check_throws:
  "l \<in> set (vf_laws v) \<Longrightarrow> isl (lw_check l ctx) \<Longrightarrow> isl (verifier_check v ctx)"
proof -
  have "l \<in> set ls \<Longrightarrow> isl (lw_check l ctx) \<Longrightarrow> isl (res_fold (check_law mode ctx) r ls)" for ls mode r
  proof (induction ls arbitrary: r)
    case (Cons k ks)
    show ?case
    proof (cases "check_law mode ctx r k")
      case (Inr r')
      then have "l \<noteq> k" using Cons.prems(2) by (cases "lw_check l ctx") (auto simp: check_law_def)
      then show ?thesis using Inr Cons by simp
    qed simp
  qed simp
  then show "l \<in> set (vf_laws v) \<Longrightarrow> isl (lw_check l ctx) \<Longrightarrow> isl (verifier_check v ctx)"
    by (simp add: verifier_check_def)
qed

text \<open>The laws built by \<open>make_builtin_law\<close> never throw.\<close>

lemma builtin_law_total:
  assumes "make_builtin_law fmt12 name tolerance = Inr l"
  shows "\<not> isl (lw_check l ctx)" and "lw_name l = name"
  using assms by (auto simp: make_builtin_law_def builtin_check_def split: if_splits)

section \<open>Laws that hold by construction\<close>

lemma dangling_none:
  assumes "snapshot_wf (lc_after ctx)"
  shows "reject_dangling_pointer name ctx = []" and "preserve_relation_type name ctx = []"
  using assms
  by (auto simp: reject_dangling_pointer_def preserve_relation_type_def snapshot_wf_def list_all_iff
      pointer_wf_def has_relation_id_def Let_def)

lemma identity_none:
  assumes "extends (lc_before ctx) (lc_after ctx)"
  shows "preserve_existing_identity name ctx = []"
proof -
  have "snapshot_object (lc_after ctx) (os_id ob) \<noteq> None" if "ob \<in> set (sn_objects (lc_before ctx))" for ob
  proof -
    obtain os where "map object_core (sn_objects (lc_after ctx)) = map object_core (sn_objects (lc_before ctx)) @ os"
      using assms unfolding extends_alt by blast
    then have "object_core ob \<in> set (map object_core (sn_objects (lc_after ctx)))" using that by simp
    then show ?thesis by (auto simp: object_core_def snapshot_object_def find_None_mem)
  qed
  then show ?thesis by (fastforce simp: preserve_existing_identity_def split: option.splits)
qed

lemma bounded_weight_nil:
  "bounded_weight fmt12 name tolerance ctx = []
     \<longleftrightarrow> (\<forall>p \<in> set (sn_pointers (lc_after ctx)). \<not> out_of_bounds tolerance (ps_weight p))"
  by (auto simp: bounded_weight_def Let_def split: if_splits)

end
