(* ===== verification/Vm.thy ===== *)
theory Vm
  imports Execution_Plan Merge_Sequential
begin

text \<open>
  The kernel virtual machine (\<open>src/kernel/vm.cpp\<close>, \<open>src/kernel/instruction.cpp\<close>): a program of
  instructions over symbol tables becomes a delta, one operation per instruction, or a list of
  diagnostics; the delta is then tried on the snapshot with the overlay.  A helper that looks at an operand
  returns its value and the diagnostics it adds, in order.  The number format \<open>{:.17g}\<close> of the fmt
  library is the parameter \<open>fmt17\<close>.
\<close>

section \<open>Diagnostics and results\<close>

datatype diagnostic_severity = DiagNote | DiagWarning | DiagError | DiagFatal

record vm_diagnostic =
  vd_severity :: diagnostic_severity
  vd_instruction :: nat
  vd_code :: string
  vd_message :: string

fun instruction_op_to_string :: "instruction_op \<Rightarrow> string" where
  "instruction_op_to_string IInternType = ''InternType''"
| "instruction_op_to_string IInternRelation = ''InternRelation''"
| "instruction_op_to_string ICreateObject = ''CreateObject''"
| "instruction_op_to_string ISetObjectType = ''SetObjectType''"
| "instruction_op_to_string ISetObjectExistence = ''SetObjectExistence''"
| "instruction_op_to_string ISetObjectAttribute = ''SetObjectAttribute''"
| "instruction_op_to_string IRemoveObjectAttribute = ''RemoveObjectAttribute''"
| "instruction_op_to_string ICreatePointer = ''CreatePointer''"
| "instruction_op_to_string ISetPointerWeight = ''SetPointerWeight''"
| "instruction_op_to_string ISetPointerAttribute = ''SetPointerAttribute''"
| "instruction_op_to_string IRemovePointerAttribute = ''RemovePointerAttribute''"
| "instruction_op_to_string IExpirePointer = ''ExpirePointer''"
| "instruction_op_to_string IAssertObject = ''AssertObject''"
| "instruction_op_to_string IAssertPointer = ''AssertPointer''"
| "instruction_op_to_string IAssertFact = ''AssertFact''"
| "instruction_op_to_string IEmitEvent = ''EmitEvent''"
| "instruction_op_to_string (Instruction_op_byte _) = ''EmitEvent''"

fun diagnostic_severity_to_string :: "diagnostic_severity \<Rightarrow> string" where
  "diagnostic_severity_to_string DiagNote = ''note''"
| "diagnostic_severity_to_string DiagWarning = ''warning''"
| "diagnostic_severity_to_string DiagError = ''error''"
| "diagnostic_severity_to_string DiagFatal = ''fatal''"

definition value_to_string :: "(f64 \<Rightarrow> string) \<Rightarrow> attr_value \<Rightarrow> string" where
  "value_to_string fmt17 v = (case v of
       NullValue \<Rightarrow> ''null''
     | BoolValue b \<Rightarrow> (if b then ''true'' else ''false'')
     | Int64Value i \<Rightarrow> (if sint i < 0 then ''-'' @ dec_string (nat (- sint i)) else dec_string (nat (sint i)))
     | UInt64Value u \<Rightarrow> dec_string (unat u)
     | Float64Value x \<Rightarrow> fmt17 x
     | StringValue s \<Rightarrow> s
     | HashValue h \<Rightarrow> to_hex h
     | ObjectRefValue i \<Rightarrow> object_id_to_string i)"

section \<open>Looking at the snapshot and at operands\<close>

definition type_named :: "world_snapshot \<Rightarrow> string \<Rightarrow> type_id option" where
  "type_named s name = om_key_of (sn_type_names s) name"

definition relation_named :: "world_snapshot \<Rightarrow> string \<Rightarrow> relation_type option" where
  "relation_named s name = om_key_of (sn_relation_names s) name"

definition is_object_ref :: "attr_value \<Rightarrow> bool" where
  "is_object_ref v = (value_kind v = 7)"

definition has_object_ref_arg :: "instruction \<Rightarrow> bool" where
  "has_object_ref_arg i = list_ex is_object_ref (in_args i)"

definition as_u64 :: "attr_value \<Rightarrow> u64 option" where
  "as_u64 v = (case v of
       UInt64Value u \<Rightarrow> Some u
     | Int64Value i \<Rightarrow> if sint i \<ge> 0 then Some i else None
     | _ \<Rightarrow> None)"

definition as_f64 :: "attr_value \<Rightarrow> f64 option" where
  "as_f64 v = (case v of
       Float64Value x \<Rightarrow> Some x
     | UInt64Value u \<Rightarrow> Some (u64_to_f64 u)
     | Int64Value i \<Rightarrow> Some (i64_to_f64 i)
     | _ \<Rightarrow> None)"

definition as_hash :: "attr_value \<Rightarrow> hash256 option" where
  "as_hash v = (case v of HashValue h \<Rightarrow> Some h | _ \<Rightarrow> None)"

record vm_frame =
  fr_before :: world_snapshot
  fr_program :: kernel_program
  fr_delta :: delta
  fr_diagnostics :: "vm_diagnostic list"
  fr_type_symbols :: "(u64, type_id) omap"
  fr_relation_symbols :: "(u64, relation_type) omap"
  fr_temp_objects :: "(u64, temp_object_id) omap"
  fr_created_names :: "(string, temp_object_id) omap"
  fr_temp_pointers :: "(u64, pointer_id) omap"
  fr_next_type :: u32
  fr_next_relation :: u32
  fr_next_pointer :: u64

definition initial_frame :: "world_snapshot \<Rightarrow> kernel_program \<Rightarrow> vm_frame" where
  "initial_frame before program = \<lparr>fr_before = before, fr_program = program, fr_delta = [], fr_diagnostics = [],
     fr_type_symbols = [], fr_relation_symbols = [], fr_temp_objects = [], fr_created_names = [],
     fr_temp_pointers = [], fr_next_type = next_type_value before, fr_next_relation = next_relation_value before,
     fr_next_pointer = next_pointer_value before\<rparr>"

text \<open>The value of an operand, if it has one, and the diagnostics that looking at it adds.\<close>

type_synonym 'a operand = "'a option \<times> vm_diagnostic list"

definition diag :: "nat \<Rightarrow> string \<Rightarrow> string \<Rightarrow> vm_diagnostic" where
  "diag index code message = \<lparr>vd_severity = DiagError, vd_instruction = index, vd_code = code, vd_message = message\<rparr>"

definition u64_arg :: "nat \<Rightarrow> instruction \<Rightarrow> nat \<Rightarrow> u64 operand" where
  "u64_arg index instr arg =
     (if length (in_args instr) \<le> arg then (None, [])
      else case as_u64 (in_args instr ! arg) of
        None \<Rightarrow> (None, [diag index ''E_INVALID_ARG''
          (instruction_op_to_string (in_op instr) @ '' argument '' @ dec_string arg @ '' must be UInt64'')])
      | Some v \<Rightarrow> (Some v, []))"

definition f64_arg :: "nat \<Rightarrow> instruction \<Rightarrow> nat \<Rightarrow> f64 operand" where
  "f64_arg index instr arg =
     (if length (in_args instr) \<le> arg then (None, [])
      else case as_f64 (in_args instr ! arg) of
        None \<Rightarrow> (None, [diag index ''E_INVALID_ARG''
          (instruction_op_to_string (in_op instr) @ '' argument '' @ dec_string arg @ '' must be numeric'')])
      | Some v \<Rightarrow> (Some v, []))"

text \<open>The three symbol lookups differ in the table and the word of the message.\<close>

definition table_symbol :: "string \<Rightarrow> string list \<Rightarrow> nat \<Rightarrow> instruction \<Rightarrow> nat \<Rightarrow> string operand" where
  "table_symbol word table index instr arg =
     (case u64_arg index instr arg of
        (None, ds) \<Rightarrow> (None, ds)
      | (Some symbol, ds) \<Rightarrow>
          if length table \<le> unat symbol
          then (None, ds @ [diag index ''E_BAD_SYMBOL'' (word @ '' symbol '' @ dec_string (unat symbol) @ '' is out of range'')])
          else (Some (table ! unat symbol), ds))"

definition string_symbol :: "vm_frame \<Rightarrow> nat \<Rightarrow> instruction \<Rightarrow> nat \<Rightarrow> string operand" where
  "string_symbol frame = table_symbol ''string'' (sy_strings (pr_symbols (fr_program frame)))"

definition type_symbol_name :: "vm_frame \<Rightarrow> nat \<Rightarrow> instruction \<Rightarrow> nat \<Rightarrow> string operand" where
  "type_symbol_name frame = table_symbol ''type'' (sy_type_names (pr_symbols (fr_program frame)))"

definition relation_symbol_name :: "vm_frame \<Rightarrow> nat \<Rightarrow> instruction \<Rightarrow> nat \<Rightarrow> string operand" where
  "relation_symbol_name frame = table_symbol ''relation'' (sy_relation_names (pr_symbols (fr_program frame)))"

definition type_id_arg :: "vm_frame \<Rightarrow> nat \<Rightarrow> instruction \<Rightarrow> nat \<Rightarrow> type_id operand" where
  "type_id_arg frame index instr arg =
     (case u64_arg index instr arg of
        (None, ds) \<Rightarrow> (None, ds)
      | (Some symbol, ds) \<Rightarrow>
          (case om_find (fr_type_symbols frame) symbol of
             None \<Rightarrow> (None, ds @ [diag index ''E_UNRESOLVED_TYPE''
               (''type symbol '' @ dec_string (unat symbol) @ '' was used before InternType'')])
           | Some t \<Rightarrow> (Some t, ds)))"

definition relation_id_arg :: "vm_frame \<Rightarrow> nat \<Rightarrow> instruction \<Rightarrow> nat \<Rightarrow> relation_type operand" where
  "relation_id_arg frame index instr arg =
     (case u64_arg index instr arg of
        (None, ds) \<Rightarrow> (None, ds)
      | (Some symbol, ds) \<Rightarrow>
          (case om_find (fr_relation_symbols frame) symbol of
             None \<Rightarrow> (None, ds @ [diag index ''E_UNRESOLVED_RELATION''
               (''relation symbol '' @ dec_string (unat symbol) @ '' was used before InternRelation'')])
           | Some t \<Rightarrow> (Some t, ds)))"

definition object_ref_arg :: "vm_frame \<Rightarrow> nat \<Rightarrow> instruction \<Rightarrow> nat \<Rightarrow> nat \<Rightarrow> object_ref operand" where
  "object_ref_arg frame index instr tag_arg value_arg =
     (case (u64_arg index instr tag_arg, u64_arg index instr value_arg) of
        ((Some tag, ds), (Some v, ds')) \<Rightarrow>
          let ds = ds @ ds'; strings = sy_strings (pr_symbols (fr_program frame))
          in if tag = 0 then
               (case om_find (fr_temp_objects frame) v of
                  None \<Rightarrow> (None, ds @ [diag index ''E_UNRESOLVED_OBJECT'' (''temp object '' @ dec_string (unat v) @ '' was not created'')])
                | Some t \<Rightarrow> (Some (RefTemp t), ds))
             else if tag = 1 then
               (if length strings \<le> unat v
                then (None, ds @ [diag index ''E_BAD_SYMBOL'' (''object name symbol '' @ dec_string (unat v) @ '' is out of range'')])
                else
                  let name = strings ! unat v
                  in case om_find (fr_created_names frame) name of
                       Some t \<Rightarrow> (Some (RefTemp t), ds)
                     | None \<Rightarrow>
                         (case object_named (fr_before frame) name of
                            Some i \<Rightarrow> (Some (RefObject i), ds)
                          | None \<Rightarrow> (None, ds @ [diag index ''E_UNRESOLVED_OBJECT''
                              (''object \"'' @ name @ ''\" was referenced before being created or imported'')])))
             else (None, ds @ [diag index ''E_INVALID_REF'' (''unknown object ref tag '' @ dec_string (unat tag))])
      | ((_, ds), (_, ds')) \<Rightarrow> (None, ds @ ds'))"

definition pointer_ref_arg :: "vm_frame \<Rightarrow> nat \<Rightarrow> instruction \<Rightarrow> nat \<Rightarrow> nat \<Rightarrow> pointer_id operand" where
  "pointer_ref_arg frame index instr tag_arg value_arg =
     (case (u64_arg index instr tag_arg, u64_arg index instr value_arg) of
        ((Some tag, ds), (Some v, ds')) \<Rightarrow>
          let ds = ds @ ds'
          in if tag = 0 then
               (case om_find (fr_temp_pointers frame) v of
                  None \<Rightarrow> (None, ds @ [diag index ''E_UNRESOLVED_POINTER'' (''temp pointer '' @ dec_string (unat v) @ '' was not created'')])
                | Some p \<Rightarrow> (Some p, ds))
             else if tag = 1 then
               (if snapshot_pointer (fr_before frame) v = None
                then (None, ds @ [diag index ''E_UNRESOLVED_POINTER'' (''pointer '' @ pointer_id_to_string v @ '' does not exist'')])
                else (Some v, ds))
             else (None, ds @ [diag index ''E_INVALID_REF'' (''unknown pointer ref tag '' @ dec_string (unat tag))])
      | ((_, ds), (_, ds')) \<Rightarrow> (None, ds @ ds'))"

definition value_arg :: "nat \<Rightarrow> instruction \<Rightarrow> nat \<Rightarrow> attr_value operand" where
  "value_arg index instr arg =
     (if length (in_args instr) \<le> arg then (None, [])
      else if is_object_ref (in_args instr ! arg)
        then (None, [diag index ''E_RAW_OBJECT_REF'' ''attribute values cannot contain branch-local ObjectId values''])
      else (Some (in_args instr ! arg), []))"

section \<open>Instructions\<close>

text \<open>An instruction ends by returning false, or by returning true after appending one operation.\<close>

definition vm_fail :: "vm_diagnostic list \<Rightarrow> vm_frame \<Rightarrow> bool \<times> vm_frame" where
  "vm_fail ds frame = (False, frame\<lparr>fr_diagnostics := fr_diagnostics frame @ ds\<rparr>)"

definition vm_emit :: "vm_diagnostic list \<Rightarrow> operation_body \<Rightarrow> vm_frame \<Rightarrow> bool \<times> vm_frame" where
  "vm_emit ds body frame = (True, frame\<lparr>fr_diagnostics := fr_diagnostics frame @ ds,
     fr_delta := append_body body (fr_delta frame)\<rparr>)"

definition with_arity ::
    "nat \<Rightarrow> vm_frame \<Rightarrow> nat \<Rightarrow> instruction \<Rightarrow> bool \<times> vm_frame \<Rightarrow> bool \<times> vm_frame" where
  "with_arity expected frame index instr result =
     (if length (in_args instr) = expected then result
      else vm_fail [diag index ''E_INVALID_ARITY''
             (instruction_op_to_string (in_op instr) @ '' expects '' @ dec_string expected
              @ '' argument(s), got '' @ dec_string (length (in_args instr)))] frame)"

definition vm_intern_type :: "vm_frame \<Rightarrow> nat \<Rightarrow> instruction \<Rightarrow> bool \<times> vm_frame" where
  "vm_intern_type frame index instr =
     (case (u64_arg index instr 0, type_symbol_name frame index instr 0) of
        ((Some symbol, ds), (Some name, ds')) \<Rightarrow>
          (case type_named (fr_before frame) name of
             Some i \<Rightarrow> vm_emit (ds @ ds') (InternType name i)
               (frame\<lparr>fr_type_symbols := om_put symbol i (fr_type_symbols frame)\<rparr>)
           | None \<Rightarrow>
               let desired = ucast (symbol + 1)
               in if (case om_find (sn_type_names (fr_before frame)) desired of Some n \<Rightarrow> n \<noteq> name | None \<Rightarrow> False)
                  then vm_fail (ds @ ds' @ [diag index ''E_TYPE_ID_CONFLICT''
                         (''type symbol '' @ dec_string (unat symbol) @ '' conflicts with existing type id ''
                          @ dec_string (unat desired))]) frame
                  else vm_emit (ds @ ds') (InternType name desired)
                    (frame\<lparr>fr_next_type := max (fr_next_type frame) (desired + 1),
                           fr_type_symbols := om_put symbol desired (fr_type_symbols frame)\<rparr>))
      | ((_, ds), (_, ds')) \<Rightarrow> vm_fail (ds @ ds') frame)"

definition vm_intern_relation :: "vm_frame \<Rightarrow> nat \<Rightarrow> instruction \<Rightarrow> bool \<times> vm_frame" where
  "vm_intern_relation frame index instr =
     (case (u64_arg index instr 0, relation_symbol_name frame index instr 0) of
        ((Some symbol, ds), (Some name, ds')) \<Rightarrow>
          (case relation_named (fr_before frame) name of
             Some i \<Rightarrow> vm_emit (ds @ ds') (InternRelation name i)
               (frame\<lparr>fr_relation_symbols := om_put symbol i (fr_relation_symbols frame)\<rparr>)
           | None \<Rightarrow>
               let desired = ucast (symbol + 1)
               in if (case om_find (sn_relation_names (fr_before frame)) desired of Some n \<Rightarrow> n \<noteq> name | None \<Rightarrow> False)
                  then vm_fail (ds @ ds' @ [diag index ''E_RELATION_ID_CONFLICT''
                         (''relation symbol '' @ dec_string (unat symbol) @ '' conflicts with existing relation id ''
                          @ dec_string (unat desired))]) frame
                  else vm_emit (ds @ ds') (InternRelation name desired)
                    (frame\<lparr>fr_next_relation := max (fr_next_relation frame) (desired + 1),
                           fr_relation_symbols := om_put symbol desired (fr_relation_symbols frame)\<rparr>))
      | ((_, ds), (_, ds')) \<Rightarrow> vm_fail (ds @ ds') frame)"

definition vm_create_object :: "vm_frame \<Rightarrow> nat \<Rightarrow> instruction \<Rightarrow> bool \<times> vm_frame" where
  "vm_create_object frame index instr =
     (case (u64_arg index instr 0, string_symbol frame index instr 1, type_id_arg frame index instr 2) of
        ((Some temp, d1), (Some name, d2), (Some type, d3)) \<Rightarrow>
          let ds = d1 @ d2 @ d3
          in if temp = 0 \<or> unat temp > 2 ^ 32 - 1 then
               vm_fail (ds @ [diag index ''E_INVALID_TEMP'' ''object temp id must fit in uint32 and be non-zero'']) frame
             else if om_contains (fr_temp_objects frame) temp \<or> om_contains (fr_created_names frame) name
                 \<or> object_named (fr_before frame) name \<noteq> None then
               vm_fail (ds @ [diag index ''E_DUPLICATE_OBJECT'' (''object \"'' @ name @ ''\" already exists'')]) frame
             else
               let t = ucast temp
               in vm_emit ds (CreateObject \<lparr>co_temp = t, co_name = name, co_type = type, co_existence = Alive,
                      co_attributes = []\<rparr>)
                    (frame\<lparr>fr_temp_objects := om_emplace temp t (fr_temp_objects frame),
                           fr_created_names := om_emplace name t (fr_created_names frame)\<rparr>)
      | ((_, d1), (_, d2), (_, d3)) \<Rightarrow> vm_fail (d1 @ d2 @ d3) frame)"

text \<open>Two operands and one operation: the handlers that only append.\<close>

definition vm_pair :: "'a operand \<Rightarrow> 'b operand \<Rightarrow> ('a \<Rightarrow> 'b \<Rightarrow> operation_body) \<Rightarrow> vm_frame \<Rightarrow> bool \<times> vm_frame" where
  "vm_pair a b f frame = (case (a, b) of
       ((Some x, ds), (Some y, ds')) \<Rightarrow> vm_emit (ds @ ds') (f x y) frame
     | ((_, ds), (_, ds')) \<Rightarrow> vm_fail (ds @ ds') frame)"

definition vm_triple ::
    "'a operand \<Rightarrow> 'b operand \<Rightarrow> 'c operand \<Rightarrow> ('a \<Rightarrow> 'b \<Rightarrow> 'c \<Rightarrow> operation_body) \<Rightarrow> vm_frame \<Rightarrow> bool \<times> vm_frame" where
  "vm_triple a b c f frame = (case (a, b, c) of
       ((Some x, d1), (Some y, d2), (Some z, d3)) \<Rightarrow> vm_emit (d1 @ d2 @ d3) (f x y z) frame
     | ((_, d1), (_, d2), (_, d3)) \<Rightarrow> vm_fail (d1 @ d2 @ d3) frame)"

definition vm_set_existence :: "vm_frame \<Rightarrow> nat \<Rightarrow> instruction \<Rightarrow> bool \<times> vm_frame" where
  "vm_set_existence frame index instr =
     (case (object_ref_arg frame index instr 0 1, u64_arg index instr 2) of
        ((Some object, ds), (Some raw, ds')) \<Rightarrow>
          if unat raw > unat (existence_to_byte Tombstoned)
          then vm_fail (ds @ ds' @ [diag index ''E_INVALID_ENUM'' ''existence state is out of range'']) frame
          else vm_emit (ds @ ds') (SetObjectExistence object (existence_of_byte (ucast raw))) frame
      | ((_, ds), (_, ds')) \<Rightarrow> vm_fail (ds @ ds') frame)"

definition vm_create_pointer :: "vm_frame \<Rightarrow> nat \<Rightarrow> instruction \<Rightarrow> bool \<times> vm_frame" where
  "vm_create_pointer frame index instr =
     (let (temp, d1) = u64_arg index instr 0;
          (from_ref, d2) = object_ref_arg frame index instr 1 2;
          (to_ref, d3) = object_ref_arg frame index instr 3 4;
          (relation, d4) = relation_id_arg frame index instr 5;
          (weight, d5) = f64_arg index instr 6;
          (role_raw, d6) = u64_arg index instr 7;
          (law_domain, d7) = string_symbol frame index instr 8;
          ds = d1 @ d2 @ d3 @ d4 @ d5 @ d6 @ d7
      in case (temp, from_ref, to_ref, relation, weight, role_raw, law_domain) of
           (Some temp, Some from_ref, Some to_ref, Some relation, Some weight, Some role_raw, Some law_domain) \<Rightarrow>
             if temp = 0 then
               vm_fail (ds @ [diag index ''E_INVALID_TEMP'' ''pointer temp id must be non-zero'']) frame
             else if unat role_raw > unat (role_to_byte Symbolic) then
               vm_fail (ds @ [diag index ''E_INVALID_ENUM'' ''causal role is out of range'']) frame
             else if om_contains (fr_temp_pointers frame) temp then
               vm_fail (ds @ [diag index ''E_DUPLICATE_POINTER''
                 (''temp pointer '' @ dec_string (unat temp) @ '' already exists'')]) frame
             else
               vm_emit ds (CreatePointer \<lparr>cp_from = from_ref, cp_to = to_ref, cp_relation = relation,
                   cp_role = role_of_byte (ucast role_raw), cp_weight = weight,
                   cp_law_domain = (if law_domain = [] then ''core'' else law_domain), cp_attributes = []\<rparr>)
                 (frame\<lparr>fr_temp_pointers := om_emplace temp (fr_next_pointer frame) (fr_temp_pointers frame),
                        fr_next_pointer := fr_next_pointer frame + 1\<rparr>)
         | _ \<Rightarrow> vm_fail ds frame)"

definition vm_assert_fact :: "digest \<Rightarrow> vm_frame \<Rightarrow> nat \<Rightarrow> instruction \<Rightarrow> bool \<times> vm_frame" where
  "vm_assert_fact H frame index instr =
     (case as_hash (in_args instr ! 0) of
        None \<Rightarrow> vm_fail [diag index ''E_INVALID_ARG'' ''AssertFact argument 0 must be Hash''] frame
      | Some f \<Rightarrow>
          if \<not> contains_fact H (fr_before frame) f
          then vm_fail [diag index ''E_ASSERT_FACT'' (''fact '' @ to_hex f @ '' does not exist'')] frame
          else vm_emit [] (AssertFact f) frame)"

text \<open>
  The two loops of \<open>EmitEvent\<close> over key and value operands: the diagnostics of an early return, or the
  cursor, the event and the diagnostics at the end of the loop.
\<close>

fun emit_fields ::
    "(f64 \<Rightarrow> string) \<Rightarrow> vm_frame \<Rightarrow> nat \<Rightarrow> instruction \<Rightarrow> nat \<Rightarrow> nat \<Rightarrow> trace_event \<Rightarrow> vm_diagnostic list \<Rightarrow>
     vm_diagnostic list + nat \<times> trace_event \<times> vm_diagnostic list" where
  "emit_fields fmt17 frame index instr 0 cursor event ds = Inr (cursor, event, ds)"
| "emit_fields fmt17 frame index instr (Suc n) cursor event ds =
     (if length (in_args instr) \<le> cursor + 1
      then Inl (ds @ [diag index ''E_INVALID_ARITY'' ''EmitEvent field list is truncated''])
      else case (string_symbol frame index instr cursor, value_arg index instr (cursor + 1)) of
        ((Some key, d1), (Some v, d2)) \<Rightarrow>
          emit_fields fmt17 frame index instr n (cursor + 2)
            (event\<lparr>ev_fields := om_emplace key (value_to_string fmt17 v) (ev_fields event)\<rparr>) (ds @ d1 @ d2)
      | ((_, d1), (_, d2)) \<Rightarrow> Inl (ds @ d1 @ d2))"

fun emit_measurements ::
    "vm_frame \<Rightarrow> nat \<Rightarrow> instruction \<Rightarrow> nat \<Rightarrow> nat \<Rightarrow> trace_event \<Rightarrow> vm_diagnostic list \<Rightarrow>
     vm_diagnostic list + nat \<times> trace_event \<times> vm_diagnostic list" where
  "emit_measurements frame index instr 0 cursor event ds = Inr (cursor, event, ds)"
| "emit_measurements frame index instr (Suc n) cursor event ds =
     (if length (in_args instr) \<le> cursor + 1
      then Inl (ds @ [diag index ''E_INVALID_ARITY'' ''EmitEvent measurement list is truncated''])
      else case (string_symbol frame index instr cursor, value_arg index instr (cursor + 1)) of
        ((Some key, d1), (Some v, d2)) \<Rightarrow>
          (case as_f64 v of
             None \<Rightarrow> Inl (ds @ d1 @ d2 @ [diag index ''E_INVALID_ARG'' ''EmitEvent measurement values must be numeric''])
           | Some x \<Rightarrow>
               emit_measurements frame index instr n (cursor + 2)
                 (event\<lparr>ev_measurements := om_emplace key x (ev_measurements event)\<rparr>) (ds @ d1 @ d2))
      | ((_, d1), (_, d2)) \<Rightarrow> Inl (ds @ d1 @ d2))"

definition emit_event_args ::
    "(f64 \<Rightarrow> string) \<Rightarrow> vm_frame \<Rightarrow> nat \<Rightarrow> instruction \<Rightarrow> vm_diagnostic list + trace_event \<times> vm_diagnostic list" where
  "emit_event_args fmt17 frame index instr =
     (if length (in_args instr) < 3
      then Inl [diag index ''E_INVALID_ARITY'' ''EmitEvent requires at least event, field count, and measurement count'']
      else case (string_symbol frame index instr 0, u64_arg index instr 1) of
        ((Some name, d1), (Some field_count, d2)) \<Rightarrow>
          res_bind (emit_fields fmt17 frame index instr (unat field_count) 2
              \<lparr>ev_epoch = 0, ev_event = name, ev_fields = [], ev_measurements = []\<rparr> (d1 @ d2))
            (\<lambda>(cursor, event, ds).
              if length (in_args instr) \<le> cursor
              then Inl (ds @ [diag index ''E_INVALID_ARITY'' ''EmitEvent missing measurement count''])
              else case as_u64 (in_args instr ! cursor) of
                None \<Rightarrow> Inl (ds @ [diag index ''E_INVALID_ARG'' ''EmitEvent measurement count must be UInt64''])
              | Some measurement_count \<Rightarrow>
                  res_bind (emit_measurements frame index instr (unat measurement_count) (cursor + 1) event ds)
                    (\<lambda>(cursor, event, ds).
                      if cursor \<noteq> length (in_args instr)
                      then Inl (ds @ [diag index ''E_INVALID_ARITY'' ''EmitEvent has trailing operands''])
                      else Inr (event, ds)))
      | ((_, d1), (_, d2)) \<Rightarrow> Inl (d1 @ d2))"

definition vm_emit_event :: "(f64 \<Rightarrow> string) \<Rightarrow> vm_frame \<Rightarrow> nat \<Rightarrow> instruction \<Rightarrow> bool \<times> vm_frame" where
  "vm_emit_event fmt17 frame index instr =
     (case emit_event_args fmt17 frame index instr of
        Inl ds \<Rightarrow> vm_fail ds frame
      | Inr (event, ds) \<Rightarrow> vm_emit ds (EmitEvent event) frame)"

definition execute_instruction ::
    "digest \<Rightarrow> (f64 \<Rightarrow> string) \<Rightarrow> vm_frame \<Rightarrow> nat \<Rightarrow> instruction \<Rightarrow> bool \<times> vm_frame" where
  "execute_instruction H fmt17 frame index instr =
     (let arity = (\<lambda>n. with_arity n frame index instr);
          u64 = u64_arg index instr; num = f64_arg index instr; obj = object_ref_arg frame index instr;
          ptr = pointer_ref_arg frame index instr; str = string_symbol frame index instr;
          val = value_arg index instr; typ = type_id_arg frame index instr
      in if has_object_ref_arg instr
         then vm_fail [diag index ''E_RAW_OBJECT_REF'' ''program operands cannot contain branch-local ObjectId values''] frame
         else case in_op instr of
           IInternType \<Rightarrow> arity 1 (vm_intern_type frame index instr)
         | IInternRelation \<Rightarrow> arity 1 (vm_intern_relation frame index instr)
         | ICreateObject \<Rightarrow> arity 3 (vm_create_object frame index instr)
         | ISetObjectType \<Rightarrow> arity 3 (vm_pair (obj 0 1) (typ 2) SetObjectType frame)
         | ISetObjectExistence \<Rightarrow> arity 3 (vm_set_existence frame index instr)
         | ISetObjectAttribute \<Rightarrow>
             arity 4 (vm_triple (obj 0 1) (str 2) (val 3) (\<lambda>r k v. SetObjectAttribute r (k, v)) frame)
         | IRemoveObjectAttribute \<Rightarrow> arity 3 (vm_pair (obj 0 1) (str 2) RemoveObjectAttribute frame)
         | ICreatePointer \<Rightarrow> arity 9 (vm_create_pointer frame index instr)
         | ISetPointerWeight \<Rightarrow> arity 3 (vm_pair (ptr 0 1) (num 2) SetPointerWeight frame)
         | ISetPointerAttribute \<Rightarrow>
             arity 4 (vm_triple (ptr 0 1) (str 2) (val 3) (\<lambda>p k v. SetPointerAttribute p (k, v)) frame)
         | IRemovePointerAttribute \<Rightarrow> arity 3 (vm_pair (ptr 0 1) (str 2) RemovePointerAttribute frame)
         | IExpirePointer \<Rightarrow> arity 2 (vm_pair (ptr 0 1) (Some (), []) (\<lambda>p _. ExpirePointer p) frame)
         | IAssertObject \<Rightarrow> arity 2 (vm_pair (obj 0 1) (Some (), []) (\<lambda>r _. AssertObject r) frame)
         | IAssertPointer \<Rightarrow> arity 2 (vm_pair (ptr 0 1) (Some (), []) (\<lambda>p _. AssertPointer p) frame)
         | IAssertFact \<Rightarrow> arity 1 (vm_assert_fact H frame index instr)
         | IEmitEvent \<Rightarrow> vm_emit_event fmt17 frame index instr
         | Instruction_op_byte _ \<Rightarrow> vm_fail [diag index ''E_UNKNOWN_OP'' ''unknown instruction opcode''] frame)"

section \<open>Programs\<close>

text \<open>The loop over the instructions stops at the first that returns false.\<close>

fun execute_loop ::
    "digest \<Rightarrow> (f64 \<Rightarrow> string) \<Rightarrow> vm_frame \<Rightarrow> nat \<Rightarrow> instruction list \<Rightarrow> bool \<times> vm_frame" where
  "execute_loop H fmt17 frame index [] = (True, frame)"
| "execute_loop H fmt17 frame index (i # is) =
     (case execute_instruction H fmt17 frame index i of
        (False, frame') \<Rightarrow> (False, frame')
      | (True, frame') \<Rightarrow> execute_loop H fmt17 frame' (index + 1) is)"

definition blank_snapshot :: world_snapshot where
  "blank_snapshot = \<lparr>sn_world = 0, sn_world_name = [], sn_epoch = 0, sn_objects = [], sn_pointers = [], sn_facts = [],
     sn_type_names = [], sn_relation_names = []\<rparr>"

definition blank_plan :: execution_plan where
  "blank_plan = \<lparr>xp_tx = default_transaction, xp_before = blank_snapshot, xp_resolved = [],
     xp_after = blank_snapshot, xp_verification = default_verification, xp_plan_hash = 0\<rparr>"

record vm_result =
  vm_ok :: bool
  vm_delta :: delta
  vm_plan :: execution_plan
  vm_proof :: "commit_proof option"
  vm_diagnostics :: "vm_diagnostic list"

definition vm_execute :: "digest \<Rightarrow> (f64 \<Rightarrow> string) \<Rightarrow> world_snapshot \<Rightarrow> kernel_program \<Rightarrow> vm_result" where
  "vm_execute H fmt17 before program =
     (let instructions = pr_instructions program;
          rejected = (\<lambda>frame. \<lparr>vm_ok = False, vm_delta = fr_delta frame, vm_plan = blank_plan, vm_proof = None,
             vm_diagnostics = fr_diagnostics frame\<rparr>)
      in case execute_loop H fmt17 (initial_frame before program) 0 instructions of
        (False, frame) \<Rightarrow> rejected frame
      | (True, frame) \<Rightarrow>
          (case overlay_apply H before (fr_delta frame) of
             Inl e \<Rightarrow>
               rejected (frame\<lparr>fr_diagnostics := fr_diagnostics frame @
                 [\<lparr>vd_severity = DiagFatal,
                   vd_instruction = (if instructions = [] then 0 else length instructions - 1),
                   vd_code = ''E_OVERLAY_REJECTED'',
                   vd_message = ''overlay rejected program: '' @ overlay_error_to_string e\<rparr>]\<rparr>)
           | Inr after \<Rightarrow>
               let tx = default_transaction\<lparr>tx_origin := Internal, tx_label := ''kernel vm'',
                          tx_program := Some program, tx_delta := fr_delta frame, tx_allow_empty := True\<rparr>;
                   sealed = seal_execution_plan H (make_execution_plan H tx before after default_verification)
               in \<lparr>vm_ok = True, vm_delta = fr_delta frame, vm_plan = sp_plan sealed,
                   vm_proof = Some (sp_proof sealed), vm_diagnostics = []\<rparr>))"

definition format_vm_diagnostics :: "vm_diagnostic list \<Rightarrow> string" where
  "format_vm_diagnostics ds = ''program rejected'' @ concat (map (\<lambda>d.
     CHR '':'' # CHR 0x0A # ''  instruction '' @ dec_string (vd_instruction d)
     @ (if vd_code d = [] then [] else '' '' @ vd_code d)
     @ '' ['' @ diagnostic_severity_to_string (vd_severity d) @ '']''
     @ (if vd_message d = [] then [] else '': '' @ vd_message d)) ds)"

end
