(* ===== verification/Vm_Sound.thy ===== *)
theory Vm_Sound
  imports Vm
begin

text \<open>
  What the virtual machine guarantees: an instruction either appends exactly one operation or leaves at
  least one diagnostic, and the operations of the instructions that succeed resolve on the snapshot, so
  that the overlay can only refuse a symbol.
\<close>

section \<open>One operation or a diagnostic\<close>

definition operand_ok :: "'a operand \<Rightarrow> bool" where
  "operand_ok a = (fst a = None \<longleftrightarrow> snd a \<noteq> [])"

definition outcome_ok :: "vm_frame \<Rightarrow> bool \<times> vm_frame \<Rightarrow> bool" where
  "outcome_ok frame r =
     (fr_before (snd r) = fr_before frame \<and> fr_program (snd r) = fr_program frame
      \<and> (if fst r then fr_diagnostics (snd r) = fr_diagnostics frame
              \<and> (\<exists>body. fr_delta (snd r) = append_body body (fr_delta frame))
         else fr_delta (snd r) = fr_delta frame
              \<and> (\<exists>ds. ds \<noteq> [] \<and> fr_diagnostics (snd r) = fr_diagnostics frame @ ds)))"

lemma outcome_fail: "ds \<noteq> [] \<Longrightarrow> outcome_ok frame (vm_fail ds frame)"
  by (simp add: outcome_ok_def vm_fail_def)

lemma outcome_emit:
  "ds = [] \<Longrightarrow> fr_before frame' = fr_before frame \<Longrightarrow> fr_program frame' = fr_program frame \<Longrightarrow>
   fr_diagnostics frame' = fr_diagnostics frame \<Longrightarrow> fr_delta frame' = fr_delta frame \<Longrightarrow>
   outcome_ok frame (vm_emit ds body frame')"
  by (auto simp: outcome_ok_def vm_emit_def)

lemma operand_basic:
  assumes "arg < length (in_args instr)"
  shows "operand_ok (u64_arg index instr arg)" "operand_ok (f64_arg index instr arg)"
    "operand_ok (value_arg index instr arg)"
  using assms by (auto simp: operand_ok_def u64_arg_def f64_arg_def value_arg_def split: option.splits)

lemma operand_lookup:
  assumes "arg < length (in_args instr)"
  shows "operand_ok (table_symbol word table index instr arg)" "operand_ok (type_id_arg frame index instr arg)"
    "operand_ok (relation_id_arg frame index instr arg)"
  using operand_basic(1) [OF assms, of index]
  by (auto simp: operand_ok_def table_symbol_def type_id_arg_def relation_id_arg_def split: prod.splits option.splits)

lemma operand_symbols:
  assumes "arg < length (in_args instr)"
  shows "operand_ok (string_symbol frame index instr arg)" "operand_ok (type_symbol_name frame index instr arg)"
    "operand_ok (relation_symbol_name frame index instr arg)"
  using assms by (simp_all add: string_symbol_def type_symbol_name_def relation_symbol_name_def operand_lookup)

lemma operand_refs:
  assumes "a < length (in_args instr)" and "b < length (in_args instr)"
  shows "operand_ok (object_ref_arg frame index instr a b)" "operand_ok (pointer_ref_arg frame index instr a b)"
  using operand_basic(1) [OF assms(1), of index] operand_basic(1) [OF assms(2), of index]
  by (auto simp: operand_ok_def object_ref_arg_def pointer_ref_arg_def Let_def split: prod.splits option.splits)

lemmas operand_lemmas = operand_basic operand_lookup operand_symbols operand_refs

lemma operand_unit [simp]: "operand_ok (Some x, [])"
  by (simp add: operand_ok_def)

lemma outcome_pair:
  assumes "operand_ok a" and "operand_ok b"
  shows "outcome_ok frame (vm_pair a b f frame)"
  using assms by (cases a; cases b)
    (auto simp: vm_pair_def operand_ok_def split: option.splits intro!: outcome_fail outcome_emit)

lemma outcome_triple:
  assumes "operand_ok a" and "operand_ok b" and "operand_ok c"
  shows "outcome_ok frame (vm_triple a b c f frame)"
  using assms by (cases a; cases b; cases c)
    (auto simp: vm_triple_def operand_ok_def split: option.splits intro!: outcome_fail outcome_emit)

lemma outcome_arity:
  "(length (in_args instr) = n \<Longrightarrow> outcome_ok frame r) \<Longrightarrow> outcome_ok frame (with_arity n frame index instr r)"
  by (simp add: with_arity_def outcome_fail)

lemma outcome_intern:
  assumes "length (in_args instr) = 1"
  shows "outcome_ok frame (vm_intern_type frame index instr)"
    and "outcome_ok frame (vm_intern_relation frame index instr)"
  using operand_basic(1) [of 0 instr index] operand_symbols(2,3) [of 0 instr frame index] assms
  by (auto simp: vm_intern_type_def vm_intern_relation_def Let_def operand_ok_def split: prod.splits option.splits
      intro!: outcome_fail outcome_emit)

lemma outcome_create_object:
  assumes "length (in_args instr) = 3"
  shows "outcome_ok frame (vm_create_object frame index instr)"
  using operand_basic(1) [of 0 instr index] operand_symbols(1) [of 1 instr frame index]
    operand_lookup(2) [of 2 instr frame index] assms
  by (auto simp: vm_create_object_def Let_def operand_ok_def split: prod.splits option.splits
      intro!: outcome_fail outcome_emit)

lemma outcome_set_existence:
  assumes "length (in_args instr) = 3"
  shows "outcome_ok frame (vm_set_existence frame index instr)"
  using operand_basic(1) [of 2 instr index] operand_refs(1) [of 0 instr 1 frame index] assms
  by (auto simp: vm_set_existence_def operand_ok_def split: prod.splits option.splits
      intro!: outcome_fail outcome_emit)

lemma outcome_create_pointer:
  assumes "length (in_args instr) = 9"
  shows "outcome_ok frame (vm_create_pointer frame index instr)"
proof -
  have ok: "operand_ok (u64_arg index instr 0)" "operand_ok (object_ref_arg frame index instr 1 2)"
      "operand_ok (object_ref_arg frame index instr 3 4)" "operand_ok (relation_id_arg frame index instr 5)"
      "operand_ok (f64_arg index instr 6)" "operand_ok (u64_arg index instr 7)" "operand_ok (string_symbol frame index instr 8)"
    using assms by (simp_all add: operand_lemmas)
  obtain t d1 f d2 g d3 r d4 w d5 q d6 l d7 where eqs: "u64_arg index instr 0 = (t, d1)"
      "object_ref_arg frame index instr 1 2 = (f, d2)" "object_ref_arg frame index instr 3 4 = (g, d3)"
      "relation_id_arg frame index instr 5 = (r, d4)" "f64_arg index instr 6 = (w, d5)"
      "u64_arg index instr 7 = (q, d6)" "string_symbol frame index instr 8 = (l, d7)"
    by (meson surj_pair)
  show ?thesis
    using ok unfolding vm_create_pointer_def Let_def eqs prod.case
    by (auto simp: operand_ok_def split: option.split intro!: outcome_fail outcome_emit)
qed

lemma emit_loops_ok:
  "ds = [] \<Longrightarrow> (case emit_fields fmt17 frame index instr n cursor event ds of
     Inl ds' \<Rightarrow> ds' \<noteq> [] | Inr (c, e, ds') \<Rightarrow> ds' = [])"
  "ds = [] \<Longrightarrow> (case emit_measurements frame index instr n cursor event ds of
     Inl ds' \<Rightarrow> ds' \<noteq> [] | Inr (c, e, ds') \<Rightarrow> ds' = [])"
proof -
  have ops: "operand_ok (string_symbol frame index instr cursor)" "operand_ok (value_arg index instr (cursor + 1))"
    if "\<not> length (in_args instr) \<le> cursor + 1" for cursor
    using that by (simp_all add: operand_lemmas)
  show "ds = [] \<Longrightarrow> (case emit_fields fmt17 frame index instr n cursor event ds of
     Inl ds' \<Rightarrow> ds' \<noteq> [] | Inr (c, e, ds') \<Rightarrow> ds' = [])"
  proof (induction n arbitrary: cursor event ds)
    case (Suc n)
    show ?case
    proof (cases "length (in_args instr) \<le> cursor + 1")
      case False
      obtain k d1 v d2 where eqs: "string_symbol frame index instr cursor = (k, d1)"
          "value_arg index instr (cursor + 1) = (v, d2)" by (meson surj_pair)
      show ?thesis
        using ops [OF False] Suc False by (auto simp: eqs [simplified] operand_ok_def split: option.split)
    qed simp
  qed simp
  show "ds = [] \<Longrightarrow> (case emit_measurements frame index instr n cursor event ds of
     Inl ds' \<Rightarrow> ds' \<noteq> [] | Inr (c, e, ds') \<Rightarrow> ds' = [])"
  proof (induction n arbitrary: cursor event ds)
    case (Suc n)
    show ?case
    proof (cases "length (in_args instr) \<le> cursor + 1")
      case False
      obtain k d1 v d2 where eqs: "string_symbol frame index instr cursor = (k, d1)"
          "value_arg index instr (cursor + 1) = (v, d2)" by (meson surj_pair)
      show ?thesis
        using ops [OF False] Suc False by (auto simp: eqs [simplified] operand_ok_def split: option.split)
    qed simp
  qed simp
qed

lemma emit_event_args_ok:
  "case emit_event_args fmt17 frame index instr of Inl ds \<Rightarrow> ds \<noteq> [] | Inr (e, ds) \<Rightarrow> ds = []"
proof (cases "length (in_args instr) < 3")
  case False
  obtain k d1 v d2 where eqs: "string_symbol frame index instr 0 = (k, d1)" "u64_arg index instr 1 = (v, d2)"
    by (meson surj_pair)
  have ok: "operand_ok (k, d1)" "operand_ok (v, d2)"
    using operand_symbols(1) [of 0 instr frame index] operand_basic(1) [of 1 instr index] False
    unfolding eqs by linarith+
  show ?thesis
  proof (cases "k = None \<or> v = None")
    case True
    then show ?thesis using ok False by (auto simp: emit_event_args_def eqs [simplified] operand_ok_def split: option.split)
  next
    case some: False
    then obtain name n where kv: "k = Some name" "v = Some n" "d1 = []" "d2 = []"
      using ok by (auto simp: operand_ok_def)
    let ?e = "\<lparr>ev_epoch = 0, ev_event = name, ev_fields = [], ev_measurements = []\<rparr>"
    have f: "case emit_fields fmt17 frame index instr (unat n) 2 ?e [] of Inl ds' \<Rightarrow> ds' \<noteq> [] | Inr (c, e, ds') \<Rightarrow> ds' = []"
      by (rule emit_loops_ok(1)) simp
    have m: "case emit_measurements frame index instr k c e [] of Inl ds' \<Rightarrow> ds' \<noteq> [] | Inr (c, e, ds') \<Rightarrow> ds' = []" for k c e
      by (rule emit_loops_ok(2)) simp
    show ?thesis
    proof (cases "emit_fields fmt17 frame index instr (unat n) 2 ?e []")
      case (Inr r)
      then obtain c e where r: "emit_fields fmt17 frame index instr (unat n) 2 ?e [] = Inr (c, e, [])"
        using f by (cases r) auto
      show ?thesis
      proof (cases "length (in_args instr) \<le> c \<or> as_u64 (in_args instr ! c) = None")
        case outside: False
        then obtain k where k: "as_u64 (in_args instr ! c) = Some k" "\<not> length (in_args instr) \<le> c" by auto
        show ?thesis
          using m [of "unat k" "c + 1" e] False k
          by (cases "emit_measurements frame index instr (unat k) (c + 1) e []")
            (auto simp: emit_event_args_def eqs [simplified] kv r split: prod.splits)
      qed (use False in \<open>auto simp: emit_event_args_def eqs [simplified] kv r\<close>)
    qed (use False f in \<open>auto simp: emit_event_args_def eqs [simplified] kv\<close>)
  qed
qed (simp add: emit_event_args_def)

lemma execute_instruction_outcome: "outcome_ok frame (execute_instruction H fmt17 frame index instr)"
proof (cases "has_object_ref_arg instr")
  case False
  have event: "outcome_ok frame (vm_emit_event fmt17 frame index instr)"
    using emit_event_args_ok [of fmt17 frame index instr]
    by (auto simp: vm_emit_event_def split: sum.splits prod.splits intro!: outcome_fail outcome_emit)
  have assert_fact: "outcome_ok frame (vm_assert_fact H frame index instr)"
    by (auto simp: vm_assert_fact_def split: option.split intro!: outcome_fail outcome_emit)
  note ops = outcome_intern outcome_create_object outcome_set_existence outcome_create_pointer
    outcome_pair outcome_triple event assert_fact
  show ?thesis
    using False
    by (cases "in_op instr")
      (simp_all add: execute_instruction_def Let_def outcome_fail,
       (rule outcome_arity ops | simp add: operand_lemmas)+)
qed (simp add: execute_instruction_def Let_def outcome_fail)

lemma execute_loop_outcome:
  "execute_loop H fmt17 frame index is = (b, frame') \<Longrightarrow>
     fr_before frame' = fr_before frame \<and> fr_program frame' = fr_program frame
     \<and> (if b then fr_diagnostics frame' = fr_diagnostics frame \<and> length (fr_delta frame') = length (fr_delta frame) + length is
        else fr_diagnostics frame' \<noteq> [])"
proof (induction "is" arbitrary: frame index)
  case (Cons i "is")
  obtain b1 frame1 where e: "execute_instruction H fmt17 frame index i = (b1, frame1)" by (meson surj_pair)
  have o: "outcome_ok frame (b1, frame1)" using execute_instruction_outcome [of frame H fmt17 index i] by (simp add: e)
  show ?case
  proof (cases b1)
    case True
    then show ?thesis
      using Cons.prems Cons.IH [of frame1 "index + 1"] o by (auto simp: e outcome_ok_def split: if_splits)
  qed (use Cons.prems o in \<open>auto simp: e outcome_ok_def\<close>)
qed simp

section \<open>The operations resolve on the snapshot\<close>

text \<open>What the frame has promised of the state that the overlay has after the delta so far.\<close>

definition temp_known :: "overlay_state \<Rightarrow> temp_object_id \<Rightarrow> bool" where
  "temp_known st t = (t \<noteq> 0 \<and> (\<exists>i. om_find (ov_temps st) t = Some i \<and> i \<in> os_id ` set (sn_objects (ov_out st))))"

definition vm_aligned :: "vm_frame \<Rightarrow> overlay_state \<Rightarrow> bool" where
  "vm_aligned frame st =
     (ov_next_pointer st = fr_next_pointer frame
      \<and> (\<forall>v t. om_find (fr_temp_objects frame) v = Some t \<longrightarrow> temp_known st t)
      \<and> (\<forall>n t. om_find (fr_created_names frame) n = Some t \<longrightarrow> temp_known st t)
      \<and> (\<forall>t \<in> ov_seen_temps st. om_contains (fr_temp_objects frame) (ucast t))
      \<and> (\<forall>t. om_find (ov_temps st) t \<noteq> None \<longrightarrow> t \<in> ov_seen_temps st)
      \<and> (\<forall>n \<in> ov_names st. om_contains (fr_created_names frame) n \<or> object_named (fr_before frame) n \<noteq> None)
      \<and> (\<forall>v p. om_find (fr_temp_pointers frame) v = Some p \<longrightarrow> p \<in> ps_id ` set (sn_pointers (ov_out st)))
      \<and> ps_id ` set (sn_pointers (fr_before frame)) \<subseteq> ps_id ` set (sn_pointers (ov_out st))
      \<and> os_id ` set (sn_objects (fr_before frame)) \<subseteq> os_id ` set (sn_objects (ov_out st)))"

text \<open>States that resolve the same references.\<close>

definition same_ids :: "overlay_state \<Rightarrow> overlay_state \<Rightarrow> bool" where
  "same_ids st st' =
     (ov_next_pointer st' = ov_next_pointer st \<and> ov_temps st' = ov_temps st \<and> ov_seen_temps st' = ov_seen_temps st
      \<and> ov_names st' = ov_names st
      \<and> os_id ` set (sn_objects (ov_out st')) = os_id ` set (sn_objects (ov_out st))
      \<and> ps_id ` set (sn_pointers (ov_out st')) = ps_id ` set (sn_pointers (ov_out st)))"

lemma aligned_same_ids: "vm_aligned frame st \<Longrightarrow> same_ids st st' \<Longrightarrow> vm_aligned frame st'"
  by (simp add: vm_aligned_def same_ids_def temp_known_def)

lemma aligned_frame [simp]:
  "vm_aligned (frame\<lparr>fr_delta := d\<rparr>) st = vm_aligned frame st"
  "vm_aligned (frame\<lparr>fr_diagnostics := ds\<rparr>) st = vm_aligned frame st"
  "vm_aligned (frame\<lparr>fr_type_symbols := ts\<rparr>) st = vm_aligned frame st"
  "vm_aligned (frame\<lparr>fr_relation_symbols := rs\<rparr>) st = vm_aligned frame st"
  "vm_aligned (frame\<lparr>fr_next_type := t\<rparr>) st = vm_aligned frame st"
  "vm_aligned (frame\<lparr>fr_next_relation := r\<rparr>) st = vm_aligned frame st"
  by (simp_all add: vm_aligned_def)

definition ref_ok :: "overlay_state \<Rightarrow> object_ref \<Rightarrow> bool" where
  "ref_ok st r = (\<exists>i. resolve_ref (ov_out st) (ov_temps st) r = Some i \<and> i \<in> os_id ` set (sn_objects (ov_out st)))"

lemma object_ref_arg_ok:
  assumes "vm_aligned frame st" and "object_ref_arg frame index instr a b = (Some r, ds)"
  shows "ref_ok st r"
proof -
  have temp: "ref_ok st (RefTemp t)" if "temp_known st t" for t
    using that by (auto simp: ref_ok_def resolve_ref_def temp_known_def)
  have base: "ref_ok st (RefObject i)" if "object_named (fr_before frame) n = Some i" for n i
  proof -
    have "i \<in> os_id ` set (sn_objects (fr_before frame))"
      using that by (auto simp: object_named_def find_Some_iff)
    then have "i \<in> os_id ` set (sn_objects (ov_out st))" using assms(1) by (auto simp: vm_aligned_def)
    then show ?thesis by (simp add: ref_ok_def resolve_ref_def snapshot_contains_mem)
  qed
  show ?thesis
    using assms(2) assms(1) [unfolded vm_aligned_def]
    by (auto simp: object_ref_arg_def Let_def split: prod.splits option.splits if_splits intro: temp base)
qed

lemma pointer_ref_arg_ok:
  assumes "vm_aligned frame st" and "pointer_ref_arg frame index instr a b = (Some p, ds)"
  shows "p \<in> ps_id ` set (sn_pointers (ov_out st))"
proof -
  have "p \<in> ps_id ` set (sn_pointers (fr_before frame))" if "snapshot_pointer (fr_before frame) p \<noteq> None"
    using that by (auto simp: snapshot_pointer_def find_None_mem)
  then show ?thesis
    using assms(2) assms(1) [unfolded vm_aligned_def]
    by (auto simp: pointer_ref_arg_def Let_def split: prod.splits option.splits if_splits)
qed

text \<open>The errors the overlay can still raise.\<close>

definition symbol_error :: "overlay_error \<Rightarrow> bool" where
  "symbol_error e = (e = InvalidSymbol \<or> e = InvalidTempObject \<or> e = InvalidPointerRelation)"

definition step_ok :: "vm_frame \<Rightarrow> overlay_error + overlay_state \<Rightarrow> bool" where
  "step_ok frame r = (case r of Inl e \<Rightarrow> symbol_error e | Inr st \<Rightarrow> vm_aligned frame st)"

lemma step_ok_update_object:
  assumes "vm_aligned frame st" and "ref_ok st r" and "\<And>ob. os_id (f ob) = os_id ob"
  shows "step_ok frame (overlay_update_object r f st)"
proof -
  from assms(2) obtain i where i: "resolve_ref (ov_out st) (ov_temps st) r = Some i"
      "i \<in> os_id ` set (sn_objects (ov_out st))"
    by (auto simp: ref_ok_def)
  then obtain obs where obs: "update_first (\<lambda>ob. os_id ob = i) f (sn_objects (ov_out st)) = Some obs"
    by (cases "update_first (\<lambda>ob. os_id ob = i) f (sn_objects (ov_out st))") (auto simp: update_first_None)
  have "map os_id obs = map os_id (sn_objects (ov_out st))" by (rule update_first_map [where g = os_id, OF _ obs]) (rule assms(3))
  then have "os_id ` set obs = os_id ` set (sn_objects (ov_out st))" by (metis list.set_map)
  then have "same_ids st (st\<lparr>ov_out := (ov_out st)\<lparr>sn_objects := obs\<rparr>\<rparr>)" by (simp add: same_ids_def)
  then show ?thesis
    using aligned_same_ids [OF assms(1)] i obs by (simp add: step_ok_def overlay_update_object_def mutate_object_def)
qed

lemma step_ok_update_pointer:
  assumes "vm_aligned frame st" and "p \<in> ps_id ` set (sn_pointers (ov_out st))" and "\<And>q. ps_id (f q) = ps_id q"
  shows "step_ok frame (overlay_update_pointer p f st)"
proof -
  obtain ps where ps: "update_first (\<lambda>q. ps_id q = p) f (sn_pointers (ov_out st)) = Some ps"
    using assms(2) by (cases "update_first (\<lambda>q. ps_id q = p) f (sn_pointers (ov_out st))") (auto simp: update_first_None)
  have "map ps_id ps = map ps_id (sn_pointers (ov_out st))" by (rule update_first_map [where g = ps_id, OF _ ps]) (rule assms(3))
  then have "ps_id ` set ps = ps_id ` set (sn_pointers (ov_out st))" by (metis list.set_map)
  then have "same_ids st (st\<lparr>ov_out := (ov_out st)\<lparr>sn_pointers := ps\<rparr>\<rparr>)" by (simp add: same_ids_def)
  then show ?thesis
    using aligned_same_ids [OF assms(1)] ps by (simp add: step_ok_def overlay_update_pointer_def mutate_pointer_def)
qed

lemma step_ok_intern:
  assumes "vm_aligned frame st"
  shows "step_ok frame (overlay_intern_type n i st)" and "step_ok frame (overlay_intern_relation n r st)"
  using assms
  by (auto simp: step_ok_def symbol_error_def overlay_intern_type_def overlay_intern_relation_def Let_def same_ids_def
      intro!: aligned_same_ids [OF assms] split: option.splits)

lemma step_ok_create_object:
  assumes al: "vm_aligned frame st" and t: "t \<noteq> 0" "t = ucast temp" "unat temp \<le> 2 ^ 32 - 1"
    and fresh: "\<not> om_contains (fr_temp_objects frame) temp" "\<not> om_contains (fr_created_names frame) name"
      "object_named (fr_before frame) name = None"
    and frame': "frame' = frame\<lparr>fr_temp_objects := om_emplace temp t (fr_temp_objects frame),
                               fr_created_names := om_emplace name t (fr_created_names frame)\<rparr>"
  shows "step_ok frame' (overlay_create_object \<lparr>co_temp = t, co_name = name, co_type = ty, co_existence = Alive,
    co_attributes = []\<rparr> st)"
proof -
  have cast_back: "ucast t = temp"
  proof (rule word_unat_eq_iff [THEN iffD2])
    have small: "unat temp < 2 ^ 32" using t(3) by simp
    then have "take_bit 32 (unat temp) = unat temp" by (rule take_bit_nat_eq_self)
    moreover have "take_bit 64 (unat temp) = unat temp"
      using small by (intro take_bit_nat_eq_self) simp
    ultimately show "unat (ucast t :: u64) = unat temp" by (simp add: t(2) unsigned_ucast_eq unsigned_take_bit_eq)
  qed
  have seen: "t \<notin> ov_seen_temps st" using al fresh(1) cast_back by (auto simp: vm_aligned_def)
  then have new: "om_find (ov_temps st) t = None" using al by (auto simp: vm_aligned_def)
  have name: "name \<notin> ov_names st" using al fresh(2,3) by (auto simp: vm_aligned_def)
  let ?i = "ObjectId (ov_next_index st) 1"
  let ?ob = "\<lparr>os_id = ?i, os_name = name, os_type = ty, os_existence = Alive, os_attributes = sort_attributes [],
    os_incoming = 0, os_outgoing = 0\<rparr>"
  let ?st = "st\<lparr>ov_out := (ov_out st)\<lparr>sn_objects := sn_objects (ov_out st) @ [?ob]\<rparr>,
       ov_seen_temps := insert t (ov_seen_temps st), ov_names := insert name (ov_names st),
       ov_temps := om_emplace t ?i (ov_temps st), ov_next_index := ov_next_index st + 1\<rparr>"
  have known: "temp_known ?st u" if "temp_known st u \<or> u = t" for u
    using that new t(1) by (auto simp: temp_known_def om_find_emplace)
  have "vm_aligned frame' ?st"
    using al fresh known unfolding vm_aligned_def frame'
    by (auto simp: om_find_emplace om_contains_iff keys_om_emplace cast_back new split: if_splits option.splits)
  then show ?thesis
    using seen name t(1)
    by (simp add: step_ok_def overlay_create_object_def symbol_error_def Let_def)
qed

lemma step_ok_create_pointer:
  assumes al: "vm_aligned frame st" and refs: "ref_ok st f" "ref_ok st t"
    and fresh: "\<not> om_contains (fr_temp_pointers frame) temp"
    and frame': "frame' = frame\<lparr>fr_temp_pointers := om_emplace temp (fr_next_pointer frame) (fr_temp_pointers frame),
                               fr_next_pointer := fr_next_pointer frame + 1\<rparr>"
    and c: "cp_from c = f" "cp_to c = t"
  shows "step_ok frame' (overlay_create_pointer c st)"
proof -
  obtain i j where ij: "resolve_ref (ov_out st) (ov_temps st) f = Some i" "resolve_ref (ov_out st) (ov_temps st) t = Some j"
    using refs by (auto simp: ref_ok_def)
  show ?thesis
    using al fresh unfolding frame'
    by (auto simp: step_ok_def overlay_create_pointer_def c ij Let_def symbol_error_def vm_aligned_def temp_known_def
        om_find_emplace om_contains_iff split: if_splits option.splits)
qed

section \<open>Instructions and programs\<close>

definition emits :: "digest \<Rightarrow> overlay_state \<Rightarrow> vm_frame \<Rightarrow> bool \<times> vm_frame \<Rightarrow> bool" where
  "emits H st frame r = (fst r \<longrightarrow> (\<exists>body. fr_delta (snd r) = append_body body (fr_delta frame)
     \<and> (\<forall>i. step_ok (snd r) (overlay_step H st \<lparr>op_id = i, op_body = body\<rparr>))))"

lemma step_ok_frame [simp]:
  "step_ok (frame\<lparr>fr_delta := d\<rparr>) r = step_ok frame r"
  "step_ok (frame\<lparr>fr_diagnostics := ds\<rparr>) r = step_ok frame r"
  "step_ok (frame\<lparr>fr_type_symbols := ts\<rparr>) r = step_ok frame r"
  "step_ok (frame\<lparr>fr_relation_symbols := rs\<rparr>) r = step_ok frame r"
  "step_ok (frame\<lparr>fr_next_type := t\<rparr>) r = step_ok frame r"
  "step_ok (frame\<lparr>fr_next_relation := q\<rparr>) r = step_ok frame r"
  by (simp_all add: step_ok_def split: sum.split)

lemma emits_fail [simp]: "emits H st frame (vm_fail ds frame')"
  by (simp add: emits_def vm_fail_def)

lemma emits_emit:
  "fr_delta frame' = fr_delta frame \<Longrightarrow> (\<And>i. step_ok frame' (overlay_step H st \<lparr>op_id = i, op_body = body\<rparr>)) \<Longrightarrow>
   emits H st frame (vm_emit ds body frame')"
  by (auto simp: emits_def vm_emit_def)

lemma emits_arity: "emits H st frame r \<Longrightarrow> emits H st frame (with_arity n frame index instr r)"
  by (simp add: with_arity_def)

lemma emits_pair:
  assumes "\<And>x y i. fst a = Some x \<Longrightarrow> fst b = Some y \<Longrightarrow> step_ok frame (overlay_step H st \<lparr>op_id = i, op_body = f x y\<rparr>)"
  shows "emits H st frame (vm_pair a b f frame)"
  using assms by (cases a; cases b) (auto simp: vm_pair_def split: option.splits intro!: emits_emit)

lemma emits_triple:
  assumes "\<And>x y z i. fst a = Some x \<Longrightarrow> fst b = Some y \<Longrightarrow> fst c = Some z \<Longrightarrow>
    step_ok frame (overlay_step H st \<lparr>op_id = i, op_body = f x y z\<rparr>)"
  shows "emits H st frame (vm_triple a b c f frame)"
  using assms by (cases a; cases b; cases c) (auto simp: vm_triple_def split: option.splits intro!: emits_emit)

lemma step_ok_same: "vm_aligned frame st \<Longrightarrow> step_ok frame (Inr st)"
  by (simp add: step_ok_def)

lemma step_ok_object:
  assumes "vm_aligned frame st" and "ref_ok st r"
  shows "step_ok frame (overlay_step H st \<lparr>op_id = i, op_body = SetObjectType r t\<rparr>)"
    "step_ok frame (overlay_step H st \<lparr>op_id = i, op_body = SetObjectExistence r e\<rparr>)"
    "step_ok frame (overlay_step H st \<lparr>op_id = i, op_body = SetObjectAttribute r a\<rparr>)"
    "step_ok frame (overlay_step H st \<lparr>op_id = i, op_body = RemoveObjectAttribute r k\<rparr>)"
    "step_ok frame (overlay_step H st \<lparr>op_id = i, op_body = AssertObject r\<rparr>)"
proof -
  have "resolve_ref (ov_out st) (ov_temps st) r \<noteq> None" using assms(2) by (auto simp: ref_ok_def)
  then show "step_ok frame (overlay_step H st \<lparr>op_id = i, op_body = AssertObject r\<rparr>)"
    by (auto simp: overlay_step_def step_ok_same [OF assms(1)])
  show "step_ok frame (overlay_step H st \<lparr>op_id = i, op_body = SetObjectType r t\<rparr>)"
    using step_ok_update_object [OF assms, of "\<lambda>ob. ob\<lparr>os_type := t\<rparr>"]
    by (simp add: overlay_step_def) (simp add: step_ok_def symbol_error_def)
qed (simp_all add: overlay_step_def step_ok_update_object [OF assms])

lemma step_ok_pointer:
  assumes "vm_aligned frame st" and "p \<in> ps_id ` set (sn_pointers (ov_out st))"
  shows "step_ok frame (overlay_step H st \<lparr>op_id = i, op_body = ExpirePointer p\<rparr>)"
    "step_ok frame (overlay_step H st \<lparr>op_id = i, op_body = SetPointerWeight p w\<rparr>)"
    "step_ok frame (overlay_step H st \<lparr>op_id = i, op_body = SetPointerAttribute p a\<rparr>)"
    "step_ok frame (overlay_step H st \<lparr>op_id = i, op_body = RemovePointerAttribute p k\<rparr>)"
    "step_ok frame (overlay_step H st \<lparr>op_id = i, op_body = AssertPointer p\<rparr>)"
proof -
  have "snapshot_pointer (ov_out st) p \<noteq> None" using assms(2) by (auto simp: snapshot_pointer_def find_None_mem)
  then show "step_ok frame (overlay_step H st \<lparr>op_id = i, op_body = AssertPointer p\<rparr>)"
    by (auto simp: overlay_step_def step_ok_same [OF assms(1)])
qed (simp_all add: overlay_step_def step_ok_update_pointer [OF assms])

lemma emits_create_object:
  assumes al: "vm_aligned frame st"
  shows "emits H st frame (vm_create_object frame index instr)"
proof -
  have zero: "(ucast temp :: u32) \<noteq> 0" if "temp \<noteq> 0" "unat temp \<le> 2 ^ 32 - 1" for temp :: u64
  proof
    assume z: "(ucast temp :: u32) = 0"
    have "take_bit 32 (unat temp) = unat temp" using that(2) by (intro take_bit_nat_eq_self) simp
    then have "unat temp = 0"
      using arg_cong [OF z, of unat] by (simp add: unsigned_ucast_eq unsigned_take_bit_eq)
    then show False using that(1) by (simp add: unat_eq_zero)
  qed
  show ?thesis
    unfolding vm_create_object_def Let_def
    by (auto simp: overlay_step_def zero not_less intro!: emits_emit step_ok_create_object [OF al] split: prod.splits option.splits)
qed

lemma emits_create_pointer:
  assumes al: "vm_aligned frame st"
  shows "emits H st frame (vm_create_pointer frame index instr)"
proof -
  obtain t d1 f d2 g d3 r d4 w d5 q d6 l d7 where eqs: "u64_arg index instr 0 = (t, d1)"
      "object_ref_arg frame index instr 1 2 = (f, d2)" "object_ref_arg frame index instr 3 4 = (g, d3)"
      "relation_id_arg frame index instr 5 = (r, d4)" "f64_arg index instr 6 = (w, d5)"
      "u64_arg index instr 7 = (q, d6)" "string_symbol frame index instr 8 = (l, d7)"
    by (meson surj_pair)
  have f: "ref_ok st x" if "f = Some x" for x using object_ref_arg_ok [OF al] eqs(2) that by blast
  have g: "ref_ok st x" if "g = Some x" for x using object_ref_arg_ok [OF al] eqs(3) that by blast
  show ?thesis
    using f g unfolding vm_create_pointer_def Let_def eqs prod.case
    by (auto simp: overlay_step_def intro!: emits_emit step_ok_create_pointer [OF al] split: option.splits)
qed

lemma execute_instruction_emits:
  assumes al: "vm_aligned frame st"
  shows "emits H st frame (execute_instruction H fmt17 frame index instr)"
proof (cases "has_object_ref_arg instr")
  case False
  have obj: "ref_ok st r" if "fst (object_ref_arg frame index instr a b) = Some r" for r a b
    using object_ref_arg_ok [OF al] that by (metis prod.collapse)
  have ptr: "p \<in> ps_id ` set (sn_pointers (ov_out st))" if "fst (pointer_ref_arg frame index instr a b) = Some p" for p a b
    using pointer_ref_arg_ok [OF al] that by (metis prod.collapse)
  have existence: "emits H st frame (vm_set_existence frame index instr)"
    using object_ref_arg_ok [OF al]
    by (auto simp: vm_set_existence_def intro!: emits_emit step_ok_object [OF al] split: prod.splits option.splits)
  have event: "emits H st frame (vm_emit_event fmt17 frame index instr)"
    using step_ok_same [OF al]
    by (auto simp: vm_emit_event_def overlay_step_def intro!: emits_emit split: sum.splits)
  have intern: "emits H st frame (vm_intern_type frame index instr)" "emits H st frame (vm_intern_relation frame index instr)"
    using step_ok_intern [OF al]
    by (auto simp: vm_intern_type_def vm_intern_relation_def Let_def overlay_step_def intro!: emits_emit
        split: prod.splits option.splits)
  have assert_fact: "emits H st frame (vm_assert_fact H frame index instr)"
    using step_ok_same [OF al]
    by (auto simp: vm_assert_fact_def overlay_step_def step_ok_def symbol_error_def intro!: emits_emit split: option.splits)
  show ?thesis
    using False
    by (cases "in_op instr")
      (simp_all add: execute_instruction_def Let_def emits_arity existence event intern assert_fact
        emits_create_object [OF al] emits_create_pointer [OF al],
       auto intro!: emits_arity emits_pair emits_triple step_ok_object [OF al] step_ok_pointer [OF al] intro: obj ptr)
qed (simp add: execute_instruction_def Let_def)

text \<open>The overlay runs the delta of a program that the machine accepted until a symbol stops it.\<close>

definition runs_to :: "digest \<Rightarrow> world_snapshot \<Rightarrow> vm_frame \<Rightarrow> bool" where
  "runs_to H before frame = step_ok frame (res_fold (overlay_step H) (overlay_init before) (fr_delta frame))"

lemma execute_loop_runs:
  "execute_loop H fmt17 frame index is = (True, frame') \<Longrightarrow> runs_to H before frame \<Longrightarrow> runs_to H before frame'"
proof (induction "is" arbitrary: frame index)
  case (Cons i "is")
  obtain frame1 where e: "execute_instruction H fmt17 frame index i = (True, frame1)"
    and rest: "execute_loop H fmt17 frame1 (index + 1) is = (True, frame')"
    using Cons.prems(1) by (auto split: prod.splits bool.splits)
  have "runs_to H before frame1"
  proof (cases "res_fold (overlay_step H) (overlay_init before) (fr_delta frame)")
    case (Inl err)
    have "outcome_ok frame (True, frame1)" using execute_instruction_outcome [of frame H fmt17 index i] by (simp add: e)
    then obtain body where "fr_delta frame1 = append_body body (fr_delta frame)" by (auto simp: outcome_ok_def)
    then show ?thesis using Cons.prems(2) Inl by (simp add: runs_to_def res_fold_append step_ok_def)
  next
    case (Inr st)
    then have "vm_aligned frame st" using Cons.prems(2) by (simp add: runs_to_def step_ok_def)
    from execute_instruction_emits [OF this, of H fmt17 index i] obtain body where
        "fr_delta frame1 = append_body body (fr_delta frame)"
        "\<And>j. step_ok frame1 (overlay_step H st \<lparr>op_id = j, op_body = body\<rparr>)"
      by (auto simp: emits_def e)
    then show ?thesis
      by (cases "overlay_step H st \<lparr>op_id = next_operation_id (fr_delta frame), op_body = body\<rparr>")
        (use Inr in \<open>simp_all add: runs_to_def res_fold_append\<close>, metis+)
  qed
  then show ?case using Cons.IH rest by blast
qed simp

lemma initial_runs: "runs_to H before (initial_frame before program)"
  by (auto simp: runs_to_def step_ok_def vm_aligned_def initial_frame_def overlay_init_def Let_def
      next_pointer_value_def object_named_def find_None_mem)

section \<open>The result of a program\<close>

lemma vm_execute_cases:
  obtains (instruction) frame where "execute_loop H fmt17 (initial_frame before program) 0 (pr_instructions program) = (False, frame)"
      "\<not> vm_ok (vm_execute H fmt17 before program)"
      "vm_diagnostics (vm_execute H fmt17 before program) = fr_diagnostics frame"
    | (overlay) frame e where "execute_loop H fmt17 (initial_frame before program) 0 (pr_instructions program) = (True, frame)"
      "overlay_apply H before (fr_delta frame) = Inl e" "\<not> vm_ok (vm_execute H fmt17 before program)"
      "map vd_code (vm_diagnostics (vm_execute H fmt17 before program)) = [''E_OVERLAY_REJECTED'']"
    | (accepted) frame after where "execute_loop H fmt17 (initial_frame before program) 0 (pr_instructions program) = (True, frame)"
      "overlay_apply H before (fr_delta frame) = Inr after" "vm_ok (vm_execute H fmt17 before program)"
      "vm_delta (vm_execute H fmt17 before program) = fr_delta frame"
      "xp_after (vm_plan (vm_execute H fmt17 before program)) = after"
      "vm_proof (vm_execute H fmt17 before program) = Some (make_commit_proof H (vm_plan (vm_execute H fmt17 before program)))"
proof -
  obtain b frame where loop: "execute_loop H fmt17 (initial_frame before program) 0 (pr_instructions program) = (b, frame)"
    by (meson surj_pair)
  have diags: "b \<Longrightarrow> fr_diagnostics frame = []"
    using execute_loop_outcome [OF loop] by (simp add: initial_frame_def)
  show thesis
  proof (cases b)
    case False
    then show thesis using instruction [of frame] loop by (simp add: vm_execute_def Let_def)
  next
    case True
    show thesis
    proof (cases "overlay_apply H before (fr_delta frame)")
      case (Inl e)
      then show thesis using overlay [of frame e] loop True diags by (simp add: vm_execute_def Let_def)
    next
      case (Inr after)
      then show thesis
        using accepted [of frame after] loop True
        by (simp add: vm_execute_def Let_def seal_execution_plan_def make_execution_plan_def)
    qed
  qed
qed

text \<open>A program either runs or says why it does not.\<close>

lemma vm_execute_diagnosed: "vm_ok (vm_execute H fmt17 before program) \<longleftrightarrow> vm_diagnostics (vm_execute H fmt17 before program) = []"
proof (cases rule: vm_execute_cases [of H fmt17 before program])
  case (instruction frame)
  then show ?thesis using execute_loop_outcome [OF instruction(1)] by simp
next
  case (overlay frame e)
  then show ?thesis by auto
next
  case (accepted frame after)
  then show ?thesis by (simp add: vm_execute_def Let_def)
qed

text \<open>When every instruction succeeds, the overlay can only refuse a symbol.\<close>

lemma vm_execute_overlay_errors:
  assumes "execute_loop H fmt17 (initial_frame before program) 0 (pr_instructions program) = (True, frame)"
    and "overlay_apply H before (fr_delta frame) = Inl e"
  shows "symbol_error e"
  using execute_loop_runs [OF assms(1) initial_runs] assms(2)
  by (cases "res_fold (overlay_step H) (overlay_init before) (fr_delta frame)")
    (auto simp: runs_to_def step_ok_def overlay_apply_def)

end
