(* ===== verification/Transactions.thy ===== *)
theory Transactions
  imports Verifier Vm_Sound Progress
begin

text \<open>
  Transactions (\<open>src/runtime/transaction.cpp\<close>): \<open>prepare_transaction\<close> tries a transaction on a snapshot
  of the world, checks its program, the overlay, the expected base and the laws, and previews the delta;
  \<open>commit_prepared\<close> applies a prepared transaction to the world it was prepared on, or leaves
  a rejection in the trace.  The lemmas show when a transaction is committable, that
  committing one never throws and gives the predicted world, and that a rejection changes nothing but
  the trace.
\<close>

record prepared_transaction =
  pt_tx :: transaction
  pt_before :: world_snapshot
  pt_predicted :: "overlay_error + world_snapshot"
  pt_plan :: execution_plan
  pt_verification :: verification_result
  pt_events :: "trace_event list"
  pt_proof :: "commit_proof option"
  pt_committable :: bool
  pt_reason :: string

definition fresh_prepared :: "transaction \<Rightarrow> world_snapshot \<Rightarrow> prepared_transaction" where
  "fresh_prepared tx before = \<lparr>pt_tx = tx, pt_before = before, pt_predicted = Inr blank_snapshot, pt_plan = blank_plan,
     pt_verification = default_verification, pt_events = [], pt_proof = None, pt_committable = False, pt_reason = []\<rparr>"

definition overlay_reason :: "overlay_error \<Rightarrow> string" where
  "overlay_reason e = ''overlay rejected transaction: '' @ overlay_error_to_string e"

text \<open>The reason to reject a transaction for its program, if it has one.\<close>

definition program_rejection :: "digest \<Rightarrow> (f64 \<Rightarrow> string) \<Rightarrow> world_snapshot \<Rightarrow> transaction \<Rightarrow> string option" where
  "program_rejection H fmt17 before tx = (case tx_program tx of
       None \<Rightarrow> None
     | Some program \<Rightarrow>
         (let vm = vm_execute H fmt17 before program
          in if \<not> vm_ok vm then Some (format_vm_diagnostics (vm_diagnostics vm))
             else if hash_delta H (vm_delta vm) \<noteq> hash_delta H (tx_delta tx)
                  then Some ''transaction delta does not match VM(program).delta''
             else None))"

definition epoch_mismatch :: "transaction \<Rightarrow> epoch \<Rightarrow> string option" where
  "epoch_mismatch tx current = (case tx_expected_base_epoch tx of
       None \<Rightarrow> None
     | Some e \<Rightarrow> if e \<noteq> current then
           Some (''transaction expected base epoch '' @ dec_string (unat e) @ '', got '' @ dec_string (unat current))
         else None)"

text \<open>The plan a transaction is checked with, and the context of the laws.\<close>

definition transaction_plan :: "digest \<Rightarrow> transaction \<Rightarrow> world_snapshot \<Rightarrow> world_snapshot \<Rightarrow> execution_plan" where
  "transaction_plan H tx before after = make_execution_plan H tx before after default_verification"

definition transaction_context :: "digest \<Rightarrow> transaction \<Rightarrow> world_snapshot \<Rightarrow> world_snapshot \<Rightarrow> law_context" where
  "transaction_context H tx before after =
     \<lparr>lc_before = before, lc_delta = tx_delta tx, lc_after = after,
      lc_plan = Some (transaction_plan H tx before after),
      lc_before_index = Some (index_rebuild before), lc_after_index = Some (index_rebuild after),
      lc_before_facts = Some (fact_store_from_snapshot H before),
      lc_after_facts = Some (fact_store_from_snapshot H after)\<rparr>"

text \<open>An exception of a law is the only one that leaves \<open>prepare_transaction\<close>.\<close>

definition prepare_transaction ::
    "digest \<Rightarrow> (f64 \<Rightarrow> string) \<Rightarrow> world \<Rightarrow> transaction \<Rightarrow> verifier \<Rightarrow> law_error + prepared_transaction" where
  "prepare_transaction H fmt17 w tx v =
     (let before = world_snapshot_of H w;
          prepared = fresh_prepared tx before
      in case program_rejection H fmt17 before tx of
        Some reason \<Rightarrow> Inr (prepared\<lparr>pt_reason := reason\<rparr>)
      | None \<Rightarrow>
          let prepared = prepared\<lparr>pt_predicted := overlay_apply H before (tx_delta tx)\<rparr>
          in if delta_empty (tx_delta tx) \<and> \<not> tx_allow_empty tx
             then Inr (prepared\<lparr>pt_reason := ''empty transaction rejected''\<rparr>)
             else case epoch_mismatch tx (sn_epoch before) of
               Some reason \<Rightarrow> Inr (prepared\<lparr>pt_reason := reason\<rparr>)
             | None \<Rightarrow>
                 if (case tx_input_snapshot_hash tx of None \<Rightarrow> False | Some h \<Rightarrow> h \<noteq> canonical_hash H before)
                 then Inr (prepared\<lparr>pt_reason := ''transaction input snapshot hash does not match current world''\<rparr>)
                 else case pt_predicted prepared of
                   Inl e \<Rightarrow> Inr (prepared\<lparr>pt_reason := overlay_reason e\<rparr>)
                 | Inr after \<Rightarrow>
                     res_bind (verifier_check v (transaction_context H tx before after)) (\<lambda>verification.
                       let sealed = seal_execution_plan H
                             ((transaction_plan H tx before after)\<lparr>xp_verification := verification\<rparr>);
                           prepared = prepared\<lparr>pt_verification := verification, pt_plan := sp_plan sealed,
                             pt_proof := Some (sp_proof sealed)\<rparr>
                       in if \<not> vr_accepted verification
                          then Inr (prepared\<lparr>pt_reason := ''transition rejected by active laws''\<rparr>)
                          else case preview_delta_unchecked H (tx_delta tx) w of
                            Inl e \<Rightarrow> Inr (prepared\<lparr>pt_reason := world_error_what e\<rparr>)
                          | Inr events \<Rightarrow> Inr (prepared\<lparr>pt_events := events, pt_committable := True\<rparr>)))"

section \<open>Committing\<close>

record commit_result =
  cm_accepted :: bool
  cm_before_epoch :: epoch
  cm_after_epoch :: epoch
  cm_law_statuses :: "law_status list"
  cm_violations :: "law_violation list"
  cm_events :: "trace_event list"
  cm_world_hash :: u64
  cm_plan_hash :: hash256
  cm_read_set_hash :: hash256
  cm_write_set_hash :: hash256
  cm_proof_hash :: hash256
  cm_proof :: "commit_proof option"

definition law_trace :: "world \<Rightarrow> verification_result \<Rightarrow> trace_event list" where
  "law_trace w verification = map (\<lambda>s. make_event (w_epoch w) ''law.check''
     [(''world'', w_name w), (''law'', ls_law s),
      (''status'', if ls_passed s then ''ok'' else severity_to_string (ls_severity s)),
      (''detail'', ls_explanation s)] [(''magnitude'', ls_magnitude s)]) (vr_statuses verification)"

definition append_trace :: "trace_event list \<Rightarrow> world \<Rightarrow> world" where
  "append_trace events w = w\<lparr>w_trace := w_trace w @ events\<rparr>"

definition rejected_commit ::
    "digest \<Rightarrow> string \<Rightarrow> law_violation list \<Rightarrow> commit_result \<Rightarrow> world \<Rightarrow> commit_result \<times> world" where
  "rejected_commit H reason violations result w =
     (let (events, w') = append_rejection_trace reason violations w
      in (result\<lparr>cm_events := events, cm_after_epoch := w_epoch w', cm_accepted := False,
                 cm_world_hash := world_hash H w'\<rparr>, w'))"

definition commit_prepared :: "digest \<Rightarrow> world \<Rightarrow> prepared_transaction \<Rightarrow> world_error + commit_result \<times> world" where
  "commit_prepared H w prepared =
     (let result = \<lparr>cm_accepted = False, cm_before_epoch = w_epoch w, cm_after_epoch = 0,
            cm_law_statuses = vr_statuses (pt_verification prepared),
            cm_violations = vr_violations (pt_verification prepared), cm_events = [], cm_world_hash = 0,
            cm_plan_hash = 0, cm_read_set_hash = 0, cm_write_set_hash = 0, cm_proof_hash = 0, cm_proof = None\<rparr>
      in if w_epoch w \<noteq> sn_epoch (pt_before prepared)
            \<or> world_canonical_hash H w \<noteq> canonical_hash H (pt_before prepared)
         then Inr (rejected_commit H ''prepared transaction does not match current world'' [] result w)
         else if \<not> pt_committable prepared
         then Inr (rejected_commit H (if pt_reason prepared = [] then ''transaction rejected'' else pt_reason prepared)
                (vr_violations (pt_verification prepared)) result w)
         else
           res_bind (apply_delta_unchecked H (tx_delta (pt_tx prepared)) w) (\<lambda>(events, w).
             let events = events @ law_trace w (pt_verification prepared);
                 w = append_trace events w
             in Inr (result\<lparr>cm_accepted := True, cm_after_epoch := w_epoch w, cm_events := events,
                  cm_world_hash := world_hash H w, cm_plan_hash := xp_plan_hash (pt_plan prepared),
                  cm_proof := pt_proof prepared,
                  cm_read_set_hash := (case pt_proof prepared of Some p \<Rightarrow> cpf_read_set_root p | None \<Rightarrow> 0),
                  cm_write_set_hash := (case pt_proof prepared of Some p \<Rightarrow> cpf_write_set_root p | None \<Rightarrow> 0),
                  cm_proof_hash := (case pt_proof prepared of Some p \<Rightarrow> hash_commit_proof H p | None \<Rightarrow> 0)\<rparr>, w)))"

fun origin_to_string :: "transaction_origin \<Rightarrow> string" where
  "origin_to_string Script = ''Script''"
| "origin_to_string Morphism = ''Morphism''"
| "origin_to_string Evolution = ''Evolution''"
| "origin_to_string Replay = ''Replay''"
| "origin_to_string ForkMerge = ''ForkMerge''"
| "origin_to_string Internal = ''Internal''"
| "origin_to_string Ingestion = ''Ingestion''"
| "origin_to_string _ = ''Manual''"

section \<open>The trace is not part of the state\<close>

lemma append_trace_snapshot [simp]:
  "world_snapshot_of H (append_trace es w) = world_snapshot_of H w"
  "world_canonical_hash H (append_trace es w) = world_canonical_hash H w"
  "world_hash H (append_trace es w) = world_hash H w"
  "w_epoch (append_trace es w) = w_epoch w" "w_id (append_trace es w) = w_id w"
  "w_name (append_trace es w) = w_name w"
  by (simp_all add: append_trace_def world_snapshot_of_def world_view_def world_canonical_hash_def world_hash_def Let_def)

lemma append_rejection_append:
  "append_rejection_trace reason vs w = (fst (append_rejection_trace reason vs w), append_trace (fst (append_rejection_trace reason vs w)) w)"
  by (simp add: append_rejection_trace_def append_trace_def Let_def)

lemma rejected_commit_props:
  assumes "rejected_commit H reason vs result w = (r, w')"
  shows "w' = append_trace (cm_events r) w" and "\<not> cm_accepted r" and "cm_after_epoch r = w_epoch w"
    and "cm_world_hash r = world_hash H w" and "cm_before_epoch r = cm_before_epoch result"
proof -
  obtain events where e: "append_rejection_trace reason vs w = (events, append_trace events w)"
    using append_rejection_append by blast
  show "w' = append_trace (cm_events r) w" "\<not> cm_accepted r" "cm_after_epoch r = w_epoch w"
    "cm_world_hash r = world_hash H w" "cm_before_epoch r = cm_before_epoch result"
    using assms by (auto simp: rejected_commit_def e)
qed

section \<open>Committable transactions\<close>

text \<open>What a transaction must satisfy on a world, in the order it is checked.\<close>

definition admissible :: "digest \<Rightarrow> (f64 \<Rightarrow> string) \<Rightarrow> world \<Rightarrow> transaction \<Rightarrow> verifier \<Rightarrow> world_snapshot \<Rightarrow> bool" where
  "admissible H fmt17 w tx v after =
     (let before = world_snapshot_of H w
      in program_rejection H fmt17 before tx = None
         \<and> (tx_delta tx \<noteq> [] \<or> tx_allow_empty tx)
         \<and> (\<forall>e. tx_expected_base_epoch tx = Some e \<longrightarrow> e = sn_epoch before)
         \<and> (\<forall>h. tx_input_snapshot_hash tx = Some h \<longrightarrow> h = canonical_hash H before)
         \<and> overlay_apply H before (tx_delta tx) = Inr after
         \<and> (\<exists>r. verifier_check v (transaction_context H tx before after) = Inr r \<and> vr_accepted r)
         \<and> \<not> isl (preview_delta_unchecked H (tx_delta tx) w))"

lemma epoch_mismatch_None: "epoch_mismatch tx e = None \<longleftrightarrow> (\<forall>x. tx_expected_base_epoch tx = Some x \<longrightarrow> x = e)"
  by (auto simp: epoch_mismatch_def split: option.splits)

lemma what_nonempty [simp]: "world_error_what e \<noteq> []" "overlay_reason x \<noteq> []" "format_vm_diagnostics ds \<noteq> []"
  by (simp_all add: world_error_what_def registry_error_what_def overlay_reason_def format_vm_diagnostics_def
      split: world_error.split registry_error.split arena_error.split)

lemma rejections_nonempty:
  "program_rejection H fmt17 before tx = Some r \<Longrightarrow> r \<noteq> []" "epoch_mismatch tx e = Some r \<Longrightarrow> r \<noteq> []"
  by (auto simp: program_rejection_def epoch_mismatch_def Let_def split: option.splits if_splits)

text \<open>A prepared transaction: its fields by the point where preparation stopped.\<close>

lemma prepare_cases:
  assumes "prepare_transaction H fmt17 w tx v = Inr p"
  obtains (rejected) "\<not> pt_committable p" "pt_reason p \<noteq> []" "pt_tx p = tx" "pt_before p = world_snapshot_of H w"
      "\<And>after. \<not> admissible H fmt17 w tx v after"
    | (committable) after r events where "pt_committable p" "pt_reason p = []" "pt_tx p = tx"
      "pt_before p = world_snapshot_of H w" "pt_predicted p = Inr after" "admissible H fmt17 w tx v after"
      "verifier_check v (transaction_context H tx (world_snapshot_of H w) after) = Inr r" "pt_verification p = r"
      "preview_delta_unchecked H (tx_delta tx) w = Inr events" "pt_events p = events"
      "pt_plan p = sp_plan (seal_execution_plan H ((transaction_plan H tx (world_snapshot_of H w) after)\<lparr>xp_verification := r\<rparr>))"
      "pt_proof p = Some (sp_proof (seal_execution_plan H ((transaction_plan H tx (world_snapshot_of H w) after)\<lparr>xp_verification := r\<rparr>)))"
proof -
  let ?before = "world_snapshot_of H w"
  show thesis
  proof (cases "program_rejection H fmt17 ?before tx = None \<and> (tx_delta tx \<noteq> [] \<or> tx_allow_empty tx)
      \<and> epoch_mismatch tx (sn_epoch ?before) = None
      \<and> (\<forall>h. tx_input_snapshot_hash tx = Some h \<longrightarrow> h = canonical_hash H ?before)")
    case False
    then show thesis
      using assms rejections_nonempty
      by (intro rejected)
        (auto simp: prepare_transaction_def fresh_prepared_def Let_def admissible_def delta_empty_def epoch_mismatch_None
          split: option.splits if_splits)
  next
    case early: True
    then have hash: "(case tx_input_snapshot_hash tx of None \<Rightarrow> False | Some h \<Rightarrow> h \<noteq> canonical_hash H ?before) = False"
      and empty: "(delta_empty (tx_delta tx) \<and> \<not> tx_allow_empty tx) = False"
      by (auto simp: delta_empty_def split: option.splits)
    note prep = assms [unfolded prepare_transaction_def Let_def, simplified early empty hash, simplified]
    show thesis
    proof (cases "overlay_apply H ?before (tx_delta tx)")
      case (Inl e)
      then show thesis
        using prep early by (intro rejected) (auto simp: fresh_prepared_def admissible_def Let_def)
    next
      case (Inr after)
      then obtain r where r: "verifier_check v (transaction_context H tx ?before after) = Inr r"
        using prep early by (auto simp: res_bind_Inr_iff)
      show thesis
      proof (cases "vr_accepted r \<and> \<not> isl (preview_delta_unchecked H (tx_delta tx) w)")
        case False
        then show thesis
          using prep early Inr r
          by (intro rejected)
            (auto simp: fresh_prepared_def admissible_def Let_def split: if_splits sum.splits)
      next
        case True
        then obtain events where "preview_delta_unchecked H (tx_delta tx) w = Inr events"
          by (cases "preview_delta_unchecked H (tx_delta tx) w") auto
        moreover have "admissible H fmt17 w tx v after"
          using True early Inr r by (auto simp: admissible_def Let_def epoch_mismatch_None)
        ultimately show thesis
          using prep early Inr r True
          by (intro committable [of after r events])
            (auto simp: fresh_prepared_def split: if_splits sum.splits)
      qed
    qed
  qed
qed

section \<open>Commits\<close>

lemma not_isl_iff: "\<not> isl m \<longleftrightarrow> (\<exists>y. m = Inr y)"
  by (cases m) simp_all

lemma admissible_prepares:
  assumes "admissible H fmt17 w tx v after"
  shows "\<exists>p. prepare_transaction H fmt17 w tx v = Inr p \<and> pt_committable p \<and> pt_predicted p = Inr after"
proof -
  let ?before = "world_snapshot_of H w"
  obtain r events where a: "program_rejection H fmt17 ?before tx = None" "tx_delta tx \<noteq> [] \<or> tx_allow_empty tx"
      "epoch_mismatch tx (sn_epoch ?before) = None" "overlay_apply H ?before (tx_delta tx) = Inr after"
      "verifier_check v (transaction_context H tx ?before after) = Inr r" "vr_accepted r"
      "preview_delta_unchecked H (tx_delta tx) w = Inr events"
    and h: "\<forall>h. tx_input_snapshot_hash tx = Some h \<longrightarrow> h = canonical_hash H ?before"
    using assms by (auto simp: admissible_def Let_def epoch_mismatch_None not_isl_iff)
  have "(case tx_input_snapshot_hash tx of None \<Rightarrow> False | Some h \<Rightarrow> h \<noteq> canonical_hash H ?before) = False"
    using h by (auto split: option.splits)
  then show ?thesis
    using a by (auto simp: prepare_transaction_def fresh_prepared_def Let_def delta_empty_def)
qed

lemma preview_apply:
  "preview_delta_unchecked H d w = Inr events \<longleftrightarrow> (\<exists>w'. apply_delta_unchecked H d w = Inr (events, w'))"
  by (auto simp: preview_delta_unchecked_def res_bind_Inr_iff)

lemma sealed_fields:
  "sp_proof (seal_execution_plan H plan) = make_commit_proof H (sp_plan (seal_execution_plan H plan))"
  "xp_plan_hash (sp_plan (seal_execution_plan H plan)) = hash_execution_plan H plan"
  "sp_plan (seal_execution_plan H plan) = plan\<lparr>xp_plan_hash := hash_execution_plan H plan\<rparr>"
  by (simp_all add: seal_execution_plan_def Let_def)

lemma plan_hash_update [simp]: "make_commit_proof H (plan\<lparr>xp_plan_hash := h\<rparr>) = make_commit_proof H plan"
  by (simp add: make_commit_proof_def Let_def collect_reads_def collect_writes_def)

text \<open>Committing what was prepared on the same world does not throw.\<close>

lemma commit_committable:
  assumes prep: "prepare_transaction H fmt17 w tx v = Inr p" and "pt_committable p"
  shows "\<exists>r w1 w'. commit_prepared H w p = Inr (r, w')
    \<and> apply_delta_unchecked H (tx_delta tx) w = Inr (pt_events p, w1) \<and> w' = append_trace (cm_events r) w1
    \<and> cm_accepted r \<and> cm_events r = pt_events p @ law_trace w1 (pt_verification p)
    \<and> cm_after_epoch r = w_epoch w1 \<and> cm_world_hash r = world_hash H w'
    \<and> cm_proof r = pt_proof p \<and> cm_plan_hash r = xp_plan_hash (pt_plan p)
    \<and> cm_law_statuses r = vr_statuses (pt_verification p) \<and> cm_violations r = vr_violations (pt_verification p)"
proof (cases rule: prepare_cases [OF prep])
  case 1
  then show ?thesis using assms(2) by simp
next
  case (2 after r events)
  then obtain w1 where ap: "apply_delta_unchecked H (tx_delta tx) w = Inr (pt_events p, w1)"
    by (auto simp: preview_apply)
  have "w_epoch w = sn_epoch (pt_before p)" "world_canonical_hash H w = canonical_hash H (pt_before p)"
    by (simp_all add: 2 snapshot_of_fields world_canonical_hash_def)
  then show ?thesis
    using 2 ap by (auto simp: commit_prepared_def Let_def)
qed

text \<open>A commit that is not accepted changes nothing but the trace.\<close>

lemma commit_rejected:
  assumes "commit_prepared H w p = Inr (r, w')" and "\<not> cm_accepted r"
  shows "w' = append_trace (cm_events r) w" and "cm_after_epoch r = w_epoch w" and "cm_world_hash r = world_hash H w"
proof -
  have "w' = append_trace (cm_events r) w \<and> cm_after_epoch r = w_epoch w \<and> cm_world_hash r = world_hash H w"
    using assms rejected_commit_props
    by (auto simp: commit_prepared_def Let_def res_bind_Inr_iff split: if_splits prod.splits)
  then show "w' = append_trace (cm_events r) w" "cm_after_epoch r = w_epoch w" "cm_world_hash r = world_hash H w"
    by blast+
qed

text \<open>A transaction is committed exactly when it was prepared as committable on this state.\<close>

lemma commit_accepted_iff:
  assumes "commit_prepared H w p = Inr (r, w')"
  shows "cm_accepted r \<longleftrightarrow> pt_committable p \<and> w_epoch w = sn_epoch (pt_before p)
    \<and> world_canonical_hash H w = canonical_hash H (pt_before p)"
  using assms rejected_commit_props
  by (auto simp: commit_prepared_def Let_def res_bind_Inr_iff split: if_splits prod.splits)

lemma committable_facts:
  assumes prep: "prepare_transaction H fmt17 w tx v = Inr p" and "pt_committable p" and "pt_predicted p = Inr after"
  shows "overlay_apply H (world_snapshot_of H w) (tx_delta tx) = Inr after"
    and "pt_proof p = Some (make_commit_proof H
      ((transaction_plan H tx (world_snapshot_of H w) after)\<lparr>xp_verification := pt_verification p\<rparr>))"
proof -
  have "overlay_apply H (world_snapshot_of H w) (tx_delta tx) = Inr after
    \<and> pt_proof p = Some (make_commit_proof H
      ((transaction_plan H tx (world_snapshot_of H w) after)\<lparr>xp_verification := pt_verification p\<rparr>))"
  proof (cases rule: prepare_cases [OF prep])
    case (2 after' r events)
    then show ?thesis using assms(3) by (simp add: admissible_def Let_def sealed_fields)
  qed (use assms(2) in simp)
  then show "overlay_apply H (world_snapshot_of H w) (tx_delta tx) = Inr after"
    "pt_proof p = Some (make_commit_proof H
      ((transaction_plan H tx (world_snapshot_of H w) after)\<lparr>xp_verification := pt_verification p\<rparr>))"
    by blast+
qed

lemma commit_predicted:
  assumes "world_ok w" and "delta_room w (tx_delta tx)" and "list_all operation_clean (tx_delta tx)"
    and prep: "prepare_transaction H fmt17 w tx v = Inr p" and "pt_predicted p = Inr after" and "pt_committable p"
    and com: "commit_prepared H w p = Inr (r, w')"
  shows "world_canonical_hash H w' = canonical_hash H after"
    and "cm_proof r = Some proof \<Longrightarrow> cpf_before_root proof = wr_root (compute_world_root H (world_snapshot_of H w))
      \<and> cpf_after_root proof = wr_root (compute_world_root H (world_snapshot_of H w'))
      \<and> cpf_operation_root proof = hash_delta H (tx_delta tx)"
proof -
  obtain w1 where ap: "apply_delta_unchecked H (tx_delta tx) w = Inr (pt_events p, w1)"
    and w': "w' = append_trace (cm_events r) w1" and pr: "cm_proof r = pt_proof p"
    using commit_committable [OF prep assms(6)] com by auto
  note facts = committable_facts [OF prep assms(6,5)]
  have agr: "agree after (world_snapshot_of H w1)"
    by (rule overlay_predicts_world_aux [OF assms(1,2,3) facts(1) ap])
  show "world_canonical_hash H w' = canonical_hash H after"
    using agree_hash [OF agr, of H] by (simp add: w') (simp add: world_canonical_hash_def)
  show "cm_proof r = Some proof \<Longrightarrow> cpf_before_root proof = wr_root (compute_world_root H (world_snapshot_of H w))
      \<and> cpf_after_root proof = wr_root (compute_world_root H (world_snapshot_of H w'))
      \<and> cpf_operation_root proof = hash_delta H (tx_delta tx)"
    using facts(2) pr agree_root [OF agr, of H]
    by (auto simp: make_commit_proof_def Let_def transaction_plan_def make_execution_plan_def w')
qed

text \<open>Accepted commits lead from consistent worlds to consistent worlds.\<close>

inductive committed_world :: "digest \<Rightarrow> (f64 \<Rightarrow> string) \<Rightarrow> world \<Rightarrow> bool" for H fmt17 where
  fresh: "committed_world H fmt17 (new_world name i)"
| step: "committed_world H fmt17 w \<Longrightarrow> prepare_transaction H fmt17 w tx v = Inr p \<Longrightarrow>
    delta_room w (tx_delta tx) \<Longrightarrow> list_all operation_clean (tx_delta tx) \<Longrightarrow>
    commit_prepared H w p = Inr (r, w') \<Longrightarrow> committed_world H fmt17 w'"

lemma world_ok_trace [simp]: "world_ok (append_trace es w) = world_ok w"
  by (simp add: world_ok_def append_trace_def)

lemma committed_world_inv:
  "committed_world H fmt17 w \<Longrightarrow> world_ok w \<and> snapshot_wf (world_snapshot_of H w)"
proof (induction rule: committed_world.induct)
  case (step w tx v p r w')
  show ?case
  proof (cases "cm_accepted r")
    case False
    then show ?thesis using commit_rejected(1) [OF step.hyps(5)] step.IH by simp
  next
    case True
    then have com: "pt_committable p" using commit_accepted_iff [OF step.hyps(5)] by simp
    from step.hyps(2) show ?thesis
    proof (cases rule: prepare_cases)
      case (committable after res events)
      then have ov: "overlay_apply H (world_snapshot_of H w) (tx_delta tx) = Inr after"
        by (simp add: admissible_def Let_def)
      obtain w1 where ap: "apply_delta_unchecked H (tx_delta tx) w = Inr (pt_events p, w1)"
          and w': "w' = append_trace (cm_events r) w1"
        using commit_committable [OF step.hyps(2) com] step.hyps(5) by auto
      show ?thesis
        using apply_delta_ok [OF _ step.hyps(3) ap] applied_snapshot_wf [OF _ _ step.hyps(3,4) ov ap] step.IH
        by (simp add: w')
    qed (use com in simp)
  qed
qed (simp_all add: new_world_ok new_world_snapshot_wf)

end
