(* ===== verification/World_Store.thy ===== *)
theory World_Store
  imports Transactions Commit_Graph Codec_Pages
begin

text \<open>
  The store of worlds (\<open>src/runtime/world_store.cpp\<close>, \<open>src/runtime/snapshot_store.cpp\<close>): branches with
  their world and history, the snapshots and the graph of commits; creating, restoring and forking a branch
  and committing a transaction on one.  A thrown exception is the \<open>Inl\<close> of an operation.
  \<open>mutable_world\<close>, which hands out a reference to a world of the store, is not an operation of the model.
\<close>

section \<open>Snapshots\<close>

record snapshot_store =
  ss_snapshots :: "world_snapshot list"
  ss_commits :: "(commit_id \<times> snapshot_id) list"

definition snapshot_put :: "world_snapshot \<Rightarrow> snapshot_store \<Rightarrow> snapshot_id \<times> snapshot_store" where
  "snapshot_put s store =
     (let snapshots = ss_snapshots store @ [s] in (of_nat (length snapshots), store\<lparr>ss_snapshots := snapshots\<rparr>))"

definition snapshot_get :: "snapshot_store \<Rightarrow> snapshot_id \<Rightarrow> world_snapshot option" where
  "snapshot_get store i =
     (if i = 0 \<or> length (ss_snapshots store) < unat i then None else Some (ss_snapshots store ! (unat i - 1)))"

definition snapshot_materialize :: "snapshot_store \<Rightarrow> commit_id \<Rightarrow> snapshot_id option" where
  "snapshot_materialize store c = map_option snd (List.find (\<lambda>(commit, _). commit = c) (ss_commits store))"

definition snapshot_bind :: "commit_id \<Rightarrow> snapshot_id \<Rightarrow> snapshot_store \<Rightarrow> snapshot_store" where
  "snapshot_bind c i store = store\<lparr>ss_commits :=
     (case update_first (\<lambda>(commit, _). commit = c) (\<lambda>(commit, _). (commit, i)) (ss_commits store) of
        Some commits \<Rightarrow> commits | None \<Rightarrow> ss_commits store @ [(c, i)])\<rparr>"

section \<open>The store\<close>

record branch =
  br_id :: branch_id
  br_name :: string
  br_world :: world_id
  br_epoch :: epoch
  br_head :: "commit_id option"
  br_head_snapshot :: snapshot_id

record branch_state =
  bs_branch :: branch
  bs_world :: world
  bs_history :: "commit_record list"
  bs_checkpoint_on_next :: bool

record checkpoint_policy =
  ck_every_n_commits :: u64
  ck_max_delta_chain :: u64
  ck_force_on_fork :: bool

definition default_checkpoint_policy :: checkpoint_policy where
  "default_checkpoint_policy = \<lparr>ck_every_n_commits = 64, ck_max_delta_chain = 256, ck_force_on_fork = True\<rparr>"

record world_store =
  st_branches :: "branch_state list"
  st_snapshots :: snapshot_store
  st_graph :: commit_graph
  st_policy :: checkpoint_policy
  st_next_branch :: u64
  st_next_transaction :: u64

definition new_store :: "checkpoint_policy \<Rightarrow> world_store" where
  "new_store policy = \<lparr>st_branches = [], st_snapshots = \<lparr>ss_snapshots = [], ss_commits = []\<rparr>, st_graph = [],
     st_policy = policy, st_next_branch = 1, st_next_transaction = 1\<rparr>"

definition set_checkpoint_policy :: "checkpoint_policy \<Rightarrow> world_store \<Rightarrow> world_store" where
  "set_checkpoint_policy policy store = store\<lparr>st_policy := policy\<rparr>"

datatype store_error =
    EmptyBranchName
  | BranchExists string
  | InvalidBranchId
  | InvalidForkId
  | UnknownBranch branch_id
  | ForkWithoutHead
  | UnknownSnapshot snapshot_id
  | StoreWorld world_error
  | StoreLaw law_error

definition find_branch :: "world_store \<Rightarrow> string \<Rightarrow> branch_id option" where
  "find_branch store name =
     map_option (br_id \<circ> bs_branch) (List.find (\<lambda>b. br_name (bs_branch b) = name) (st_branches store))"

definition branch_state_of :: "world_store \<Rightarrow> branch_id \<Rightarrow> store_error + branch_state" where
  "branch_state_of store i = (case List.find (\<lambda>b. br_id (bs_branch b) = i) (st_branches store) of
       None \<Rightarrow> Inl (UnknownBranch i) | Some b \<Rightarrow> Inr b)"

definition commit_record_of :: "world_store \<Rightarrow> commit_id \<Rightarrow> commit_record option" where
  "commit_record_of store i = List.find (\<lambda>r. cr_id r = i) (concat (map bs_history (st_branches store)))"

definition parent_vector :: "commit_id option \<Rightarrow> commit_id list" where
  "parent_vector parent = (case parent of None \<Rightarrow> [] | Some p \<Rightarrow> [p])"

definition snapshot_page_size :: nat where
  "snapshot_page_size = 256"

definition chunked_plan_of :: "digest \<Rightarrow> world_snapshot \<Rightarrow> chunked_plan" where
  "chunked_plan_of H s = projr (build_chunked_snapshot_plan H s snapshot_page_size)"

definition make_genesis_record ::
    "digest \<Rightarrow> branch_id \<Rightarrow> string \<Rightarrow> world \<Rightarrow> world_snapshot \<Rightarrow> snapshot_id \<Rightarrow> hash256 \<Rightarrow> commit_record" where
  "make_genesis_record H branch name w snapshot_value snapshot hashed =
     (let root = wr_root (compute_world_root H snapshot_value);
          chunked = chunked_plan_of H snapshot_value;
          r = blank_commit\<lparr>cr_world := w_id w, cr_branch := branch, cr_branch_name := name,
            cr_before_epoch := w_epoch w, cr_after_epoch := w_epoch w,
            cr_before_snapshot := snapshot, cr_after_snapshot := snapshot,
            cr_before_hash := hashed, cr_after_hash := hashed,
            cr_delta_hash := hash_delta H [], cr_trace_hash := hash_trace_events H [],
            cr_law_hash := hash_law_statuses H [], cr_violation_hash := hash_law_violations H [],
            cr_morphism_path_hash := hash_morphism_path H [],
            cr_before_root := root, cr_after_root := root,
            cr_checkpoint_snapshot_object := plan_root_object chunked, cr_checkpoint_distance := 0,
            cr_graph_page_roots := graph_page_roots chunked,
            cr_accepted := True, cr_origin := Internal, cr_label := ''genesis''\<rparr>
      in r\<lparr>cr_id := make_commit_id H r\<rparr>)"

definition should_checkpoint :: "u64 \<Rightarrow> bool \<Rightarrow> checkpoint_policy \<Rightarrow> bool" where
  "should_checkpoint distance forced policy =
     (if forced then True
      else if ck_every_n_commits policy > 0 \<and> ck_every_n_commits policy \<le> distance then True
      else ck_max_delta_chain policy > 0 \<and> ck_max_delta_chain policy \<le> distance)"

section \<open>Interning the symbols a delta needs\<close>

definition referenced_types :: "delta \<Rightarrow> u32 set" where
  "referenced_types d = set (List.map_filter (\<lambda>op. case op_body op of
       CreateObject c \<Rightarrow> Some (co_type c) | SetObjectType _ t \<Rightarrow> Some t | _ \<Rightarrow> None) d)"

definition referenced_relations :: "delta \<Rightarrow> u32 set" where
  "referenced_relations d = set (List.map_filter (\<lambda>op. case op_body op of
       CreatePointer c \<Rightarrow> Some (cp_relation c) | _ \<Rightarrow> None) d)"

definition interned_types :: "delta \<Rightarrow> u32 set" where
  "interned_types d = set (List.map_filter (\<lambda>op. case op_body op of InternType _ i \<Rightarrow> Some i | _ \<Rightarrow> None) d)"

definition interned_relations :: "delta \<Rightarrow> u32 set" where
  "interned_relations d = set (List.map_filter (\<lambda>op. case op_body op of InternRelation _ i \<Rightarrow> Some i | _ \<Rightarrow> None) d)"

text \<open>The loops over the ordered sets of identifiers.\<close>

definition required_interns ::
    "u32 set \<Rightarrow> u32 set \<Rightarrow> (u32, string) omap \<Rightarrow> (string \<Rightarrow> u32 \<Rightarrow> operation_body) \<Rightarrow> operation_body list" where
  "required_interns referenced interned names body =
     List.map_filter (\<lambda>i. if i = 0 \<or> i \<in> interned then None else map_option (\<lambda>n. body n i) (om_find names i))
       (sorted_list_of_set referenced)"

definition with_required_symbol_interns :: "world_snapshot \<Rightarrow> delta \<Rightarrow> delta" where
  "with_required_symbol_interns before d =
     fold append_body
       (required_interns (referenced_types d) (interned_types d) (sn_type_names before) InternType
        @ required_interns (referenced_relations d) (interned_relations d) (sn_relation_names before) InternRelation
        @ map op_body d) []"

definition normalize_delta :: "digest \<Rightarrow> world_store \<Rightarrow> branch_id \<Rightarrow> delta \<Rightarrow> store_error + delta" where
  "normalize_delta H store i d =
     res_bind (branch_state_of store i) (\<lambda>b. Inr (with_required_symbol_interns (world_snapshot_of H (bs_world b)) d))"

section \<open>Creating and restoring branches\<close>

definition create_branch :: "digest \<Rightarrow> string \<Rightarrow> world \<Rightarrow> world_store \<Rightarrow> store_error + branch_id \<times> world_store" where
  "create_branch H name initial store =
     (if name = [] then Inl EmptyBranchName
      else if find_branch store name \<noteq> None then Inl (BranchExists name)
      else
        let i = st_next_branch store;
            snapshot_value = world_snapshot_of H initial;
            (snapshot, snapshots) = snapshot_put snapshot_value (st_snapshots store);
            genesis = make_genesis_record H i name initial snapshot_value snapshot (world_canonical_hash H initial);
            snapshots = snapshot_bind (cr_id genesis) snapshot snapshots;
            graph = graph_add_node \<lparr>cn_id = cr_id genesis, cn_parents = [], cn_children = [], cn_branch = i,
                      cn_snapshot = snapshot\<rparr> (st_graph store);
            state = \<lparr>bs_branch = \<lparr>br_id = i, br_name = name, br_world = w_id initial, br_epoch = w_epoch initial,
                       br_head = Some (cr_id genesis), br_head_snapshot = snapshot\<rparr>,
                     bs_world = initial, bs_history = [genesis], bs_checkpoint_on_next = False\<rparr>
        in Inr (i, store\<lparr>st_branches := st_branches store @ [state], st_snapshots := snapshots, st_graph := graph,
                        st_next_branch := i + 1\<rparr>))"

record restore_state =
  rt_graph :: commit_graph
  rt_head :: "commit_id option"
  rt_head_snapshot :: snapshot_id
  rt_epoch :: epoch
  rt_next_transaction :: u64

definition snapshot_for_hash :: "(hash256 \<times> snapshot_id) list \<Rightarrow> hash256 \<Rightarrow> snapshot_id" where
  "snapshot_for_hash ids h = (case List.find (\<lambda>(candidate, _). candidate = h) ids of None \<Rightarrow> 0 | Some (_, i) \<Rightarrow> i)"

definition restore_record :: "(hash256 \<times> snapshot_id) list \<Rightarrow> commit_record \<Rightarrow> commit_record" where
  "restore_record ids r =
     (let before = snapshot_for_hash ids (cr_before_hash r); after = snapshot_for_hash ids (cr_after_hash r);
          r = (if before \<noteq> 0 then r\<lparr>cr_before_snapshot := before\<rparr> else r)
      in if after \<noteq> 0 then r\<lparr>cr_after_snapshot := after\<rparr> else r)"

definition restore_step :: "branch_id \<Rightarrow> commit_record \<Rightarrow> restore_state \<Rightarrow> restore_state" where
  "restore_step i r rt =
     (let rt = (if cr_accepted r
            then rt\<lparr>rt_graph := graph_add_node \<lparr>cn_id = cr_id r, cn_parents = cr_parents r, cn_children = [],
                       cn_branch = i, cn_snapshot = cr_after_snapshot r\<rparr> (rt_graph rt),
                    rt_head := Some (cr_id r), rt_head_snapshot := cr_after_snapshot r,
                    rt_epoch := cr_after_epoch r\<rparr>
            else rt)
      in rt\<lparr>rt_next_transaction := max (rt_next_transaction rt) (cr_transaction r + 1)\<rparr>)"

definition restore_snapshot_value ::
    "digest \<Rightarrow> commit_id \<times> world_snapshot \<Rightarrow> snapshot_store \<times> (hash256 \<times> snapshot_id) list \<Rightarrow>
     snapshot_store \<times> (hash256 \<times> snapshot_id) list" where
  "restore_snapshot_value H entry acc =
     (let (commit, snapshot) = entry; (store, ids) = acc; (i, store) = snapshot_put snapshot store
      in (snapshot_bind commit i store, ids @ [(canonical_hash H snapshot, i)]))"

definition restore_branch ::
    "digest \<Rightarrow> branch_id \<Rightarrow> string \<Rightarrow> world \<Rightarrow> commit_record list \<Rightarrow> (commit_id \<times> world_snapshot) list \<Rightarrow> world_store \<Rightarrow>
     store_error + branch_id \<times> world_store" where
  "restore_branch H i name head_world history snapshot_values store =
     (if i = 0 then Inl InvalidBranchId
      else if name = [] then Inl EmptyBranchName
      else if find_branch store name \<noteq> None then Inl (BranchExists name)
      else
        let (snapshots, ids) = fold (restore_snapshot_value H) snapshot_values (st_snapshots store, []);
            history = map (restore_record ids) history;
            rt = fold (restore_step i) history
              \<lparr>rt_graph = st_graph store, rt_head = None, rt_head_snapshot = 0, rt_epoch = w_epoch head_world,
               rt_next_transaction = st_next_transaction store\<rparr>;
            state = \<lparr>bs_branch = \<lparr>br_id = i, br_name = name, br_world = w_id head_world, br_epoch = rt_epoch rt,
                       br_head = rt_head rt, br_head_snapshot = rt_head_snapshot rt\<rparr>,
                     bs_world = head_world, bs_history = history, bs_checkpoint_on_next = False\<rparr>
        in Inr (i, store\<lparr>st_branches := st_branches store @ [state], st_snapshots := snapshots,
                        st_graph := rt_graph rt, st_next_branch := max (st_next_branch store) (i + 1),
                        st_next_transaction := rt_next_transaction rt\<rparr>))"

section \<open>Forking\<close>

record fork_result =
  fk_source :: branch_id
  fk_forked :: branch_id
  fk_base_commit :: commit_id
  fk_base_snapshot :: snapshot_id
  fk_base_hash :: hash256
  fk_events :: "trace_event list"

definition commit_id_to_string :: "commit_id \<Rightarrow> string" where
  "commit_id_to_string i = (if \<not> hash_empty i then to_hex i else ''C<invalid>'')"

definition make_fork_event :: "branch \<Rightarrow> branch \<Rightarrow> commit_id \<Rightarrow> hash256 \<Rightarrow> trace_event" where
  "make_fork_event source forked base_commit base_hash =
     make_event (br_epoch source) ''branch.fork''
       [(''from'', br_name source), (''to'', br_name forked), (''base_commit'', commit_id_to_string base_commit),
        (''base_hash'', to_hex base_hash)] []"

definition fork_with_id ::
    "digest \<Rightarrow> branch_id \<Rightarrow> branch_id \<Rightarrow> string \<Rightarrow> world_store \<Rightarrow> store_error + fork_result \<times> world_store" where
  "fork_with_id H source forked_id new_name store =
     res_bind (branch_state_of store source) (\<lambda>src.
       if forked_id = 0 then Inl InvalidForkId
       else case br_head (bs_branch src) of
         None \<Rightarrow> Inl ForkWithoutHead
       | Some head \<Rightarrow>
           if find_branch store new_name \<noteq> None then Inl (BranchExists new_name)
           else
             let forked = (bs_branch src)\<lparr>br_id := forked_id, br_name := new_name\<rparr>;
                 base_snapshot = br_head_snapshot (bs_branch src)
             in case snapshot_get (st_snapshots store) base_snapshot of
                  None \<Rightarrow> Inl (UnknownSnapshot base_snapshot)
                | Some s \<Rightarrow>
                    let base_hash = canonical_hash H s;
                        events = [make_fork_event (bs_branch src) forked head base_hash];
                        state = \<lparr>bs_branch = forked, bs_world = append_trace events (bs_world src),
                                 bs_history = bs_history src,
                                 bs_checkpoint_on_next = ck_force_on_fork (st_policy store)\<rparr>
                    in Inr (\<lparr>fk_source = source, fk_forked = forked_id, fk_base_commit = head,
                             fk_base_snapshot = base_snapshot, fk_base_hash = base_hash, fk_events = events\<rparr>,
                            store\<lparr>st_branches := st_branches store @ [state],
                                  st_next_branch := max (st_next_branch store) (forked_id + 1)\<rparr>))"

definition fork_branch :: "digest \<Rightarrow> branch_id \<Rightarrow> string \<Rightarrow> world_store \<Rightarrow> store_error + fork_result \<times> world_store" where
  "fork_branch H source new_name store =
     (let i = st_next_branch store
      in fork_with_id H source i new_name (store\<lparr>st_next_branch := i + 1\<rparr>))"

section \<open>Committing\<close>

text \<open>The fields of a commit record that describe its program.\<close>

definition record_program :: "digest \<Rightarrow> kernel_program option \<Rightarrow> commit_record \<Rightarrow> commit_record" where
  "record_program H program r = (case program of
       None \<Rightarrow> r
     | Some p \<Rightarrow> r\<lparr>cr_program_hash := program_hash H p, cr_instruction_root := instruction_root H p,
                   cr_symbol_table_hash := symbol_table_hash H (pr_symbols p)\<rparr>)"

text \<open>The checkpoint fields: the distance to the last checkpoint, or a checkpoint.\<close>

definition record_checkpoint ::
    "digest \<Rightarrow> checkpoint_policy \<Rightarrow> bool \<Rightarrow> bool \<Rightarrow> commit_record option \<Rightarrow> world_snapshot \<Rightarrow> commit_record \<Rightarrow> commit_record" where
  "record_checkpoint H policy forced accepted parent_record after r =
     (let distance = (case parent_record of None \<Rightarrow> 0 | Some p \<Rightarrow> cr_checkpoint_distance p + 1)
      in if accepted \<and> should_checkpoint distance forced policy then
           (let chunked = chunked_plan_of H after
            in r\<lparr>cr_checkpoint_snapshot_object := plan_root_object chunked, cr_checkpoint_distance := 0,
                 cr_graph_page_roots := graph_page_roots chunked\<rparr>)
         else r\<lparr>cr_checkpoint_distance := (case parent_record of
                  Some p \<Rightarrow> if accepted then distance else cr_checkpoint_distance p
                | None \<Rightarrow> distance)\<rparr>)"

definition commit_record_for ::
    "digest \<Rightarrow> checkpoint_policy \<Rightarrow> branch_state \<Rightarrow> transaction \<Rightarrow> commit_record option \<Rightarrow> prepared_transaction \<Rightarrow>
     commit_result \<Rightarrow> world \<Rightarrow> world_snapshot \<Rightarrow> snapshot_id \<Rightarrow> commit_record" where
  "commit_record_for H policy b tx parent_record prepared result w' after after_snapshot =
     (let br = bs_branch b;
          r = blank_commit\<lparr>cr_parent := br_head br, cr_parents := parent_vector (br_head br), cr_world := w_id w',
            cr_branch := br_id br, cr_branch_name := br_name br, cr_transaction := tx_id tx,
            cr_before_epoch := sn_epoch (pt_before prepared), cr_after_epoch := w_epoch w',
            cr_before_snapshot := br_head_snapshot br, cr_after_snapshot := after_snapshot,
            cr_before_hash := world_canonical_hash H (bs_world b), cr_after_hash := world_canonical_hash H w',
            cr_delta_hash := hash_delta H (tx_delta tx)\<rparr>;
          r = record_program H (tx_program tx) r;
          r = r\<lparr>cr_trace_hash := hash_trace_events H (cm_events result),
            cr_law_hash := hash_law_statuses H (cm_law_statuses result),
            cr_violation_hash := hash_law_violations H (cm_violations result),
            cr_morphism_path_hash := hash_morphism_path H (tx_morphism_path tx),
            cr_execution_plan_hash := cm_plan_hash result, cr_read_set_hash := cm_read_set_hash result,
            cr_write_set_hash := cm_write_set_hash result, cr_proof_hash := cm_proof_hash result,
            cr_proof := cm_proof result,
            cr_before_root := wr_root (compute_world_root H (pt_before prepared)),
            cr_after_root := wr_root (compute_world_root H after)\<rparr>;
          r = record_checkpoint H policy (bs_checkpoint_on_next b \<or> br_head br = None) (cm_accepted result)
                parent_record after r;
          r = r\<lparr>cr_accepted := cm_accepted result, cr_origin := tx_origin tx, cr_label := tx_label tx,
            cr_law_statuses := cm_law_statuses result, cr_violations := cm_violations result,
            cr_events := cm_events result\<rparr>
      in r\<lparr>cr_id := make_commit_id H r\<rparr>)"

definition update_branch :: "branch_id \<Rightarrow> (branch_state \<Rightarrow> branch_state) \<Rightarrow> branch_state list \<Rightarrow> branch_state list" where
  "update_branch i f bs = (case update_first (\<lambda>b. br_id (bs_branch b) = i) f bs of Some bs' \<Rightarrow> bs' | None \<Rightarrow> bs)"

text \<open>What \<open>commit\<close> does with the result of \<open>commit_prepared\<close>.\<close>

definition finish_commit ::
    "digest \<Rightarrow> branch_state \<Rightarrow> transaction \<Rightarrow> commit_record option \<Rightarrow> prepared_transaction \<Rightarrow> commit_result \<Rightarrow>
     world \<Rightarrow> world_store \<Rightarrow> commit_record \<times> world_store" where
  "finish_commit H b tx parent_record prepared result w' store =
     (let br = bs_branch b;
          (after, after_snapshot, snapshots) =
             (if cm_accepted result
              then (let s = world_snapshot_of H w'; (k, snapshots) = snapshot_put s (st_snapshots store)
                    in (s, k, snapshots))
              else (pt_before prepared, br_head_snapshot br, st_snapshots store));
          r = commit_record_for H (st_policy store) b tx parent_record prepared result w' after after_snapshot;
          b' = b\<lparr>bs_world := w', bs_history := bs_history b @ [r]\<rparr>
      in if cm_accepted result
         then (r, store\<lparr>
             st_branches := update_branch (br_id br) (\<lambda>_. b'\<lparr>bs_branch := br\<lparr>br_head := Some (cr_id r),
                 br_head_snapshot := after_snapshot, br_epoch := w_epoch w'\<rparr>,
                 bs_checkpoint_on_next := False\<rparr>) (st_branches store),
             st_snapshots := snapshot_bind (cr_id r) after_snapshot snapshots,
             st_graph := graph_add_node \<lparr>cn_id = cr_id r, cn_parents = cr_parents r, cn_children = [],
                 cn_branch = br_id br, cn_snapshot = after_snapshot\<rparr> (st_graph store)\<rparr>)
         else (r, store\<lparr>st_branches := update_branch (br_id br) (\<lambda>_. b') (st_branches store)\<rparr>))"

definition store_commit ::
    "digest \<Rightarrow> (f64 \<Rightarrow> string) \<Rightarrow> branch_id \<Rightarrow> transaction \<Rightarrow> verifier \<Rightarrow> world_store \<Rightarrow>
     store_error + commit_record \<times> world_store" where
  "store_commit H fmt17 i tx v store =
     res_bind (branch_state_of store i) (\<lambda>b.
       let (tx, store) = (if tx_id tx \<noteq> 0 then (tx, store)
             else (tx\<lparr>tx_id := st_next_transaction store\<rparr>,
                   store\<lparr>st_next_transaction := st_next_transaction store + 1\<rparr>));
           parent_record = Option.bind (br_head (bs_branch b)) (commit_record_of store)
       in res_bind (map_error StoreLaw (prepare_transaction H fmt17 (bs_world b) tx v)) (\<lambda>prepared.
          res_bind (map_error StoreWorld (commit_prepared H (bs_world b) prepared)) (\<lambda>(result, w').
            Inr (finish_commit H b tx parent_record prepared result w' store))))"

end
