(* ===== verification/World_Store_Inv.thy ===== *)
theory World_Store_Inv
  imports World_Store
begin

text \<open>
  The invariant of the store: branches have their own identifiers and names, the head of a branch is a
  commit of the graph whose stored snapshot has the hash of the branch's world, and the history of a branch
  is a chain of hashes from its first commit to its world.  Every store built by creating and forking
  branches and committing transactions satisfies it.
\<close>

section \<open>Chains of commits\<close>

text \<open>
  \<open>linked head h rs head' h'\<close>: from the head and the hash before them, the records lead to the head and the
  hash after them; a record that was not accepted leads nowhere.
\<close>

fun linked :: "commit_id option \<Rightarrow> hash256 \<Rightarrow> commit_record list \<Rightarrow> commit_id option \<Rightarrow> hash256 \<Rightarrow> bool" where
  "linked head h [] head' h' = (head' = head \<and> h' = h)"
| "linked head h (r # rs) head' h' =
     (cr_parent r = head \<and> cr_before_hash r = h
      \<and> (if cr_accepted r then linked (Some (cr_id r)) (cr_after_hash r) rs head' h'
         else cr_after_hash r = h \<and> linked head h rs head' h'))"

lemma linked_append:
  "linked head h (rs @ [r]) head' h' \<longleftrightarrow>
     (\<exists>k g. linked head h rs k g \<and> cr_parent r = k \<and> cr_before_hash r = g
       \<and> (if cr_accepted r then head' = Some (cr_id r) \<and> h' = cr_after_hash r
          else cr_after_hash r = g \<and> head' = k \<and> h' = g))"
  by (induction rs arbitrary: head h) auto

text \<open>A chain that ends at a head contains it as an accepted record with the hash it ends at.\<close>

lemma linked_head:
  "linked head h rs (Some i) h' \<Longrightarrow> head \<noteq> Some i \<Longrightarrow>
     \<exists>r \<in> set rs. cr_accepted r \<and> cr_id r = i \<and> cr_after_hash r = h'"
proof (induction rs arbitrary: head h rule: rev_induct)
  case (snoc r rs)
  from snoc.prems(1) obtain k g where l: "linked head h rs k g" and r: "cr_before_hash r = g"
      "if cr_accepted r then Some i = Some (cr_id r) \<and> h' = cr_after_hash r
       else cr_after_hash r = g \<and> Some i = k \<and> h' = g"
    unfolding linked_append by blast
  show ?case
  proof (cases "cr_accepted r")
    case False
    then have "linked head h rs (Some i) h'" using l r by simp
    then show ?thesis using snoc.IH snoc.prems(2) by auto
  qed (use r in auto)
qed simp

section \<open>The invariant\<close>

definition state_ok :: "digest \<Rightarrow> world_store \<Rightarrow> branch_state \<Rightarrow> bool" where
  "state_ok H store b =
     (\<exists>h i s. br_head (bs_branch b) = Some i \<and> graph_contains (st_graph store) i
        \<and> snapshot_get (st_snapshots store) (br_head_snapshot (bs_branch b)) = Some s
        \<and> canonical_hash H s = world_canonical_hash H (bs_world b)
        \<and> br_epoch (bs_branch b) = w_epoch (bs_world b)
        \<and> linked None h (bs_history b) (Some i) (world_canonical_hash H (bs_world b)))"

definition store_ok :: "digest \<Rightarrow> world_store \<Rightarrow> bool" where
  "store_ok H store =
     (graph_ok (st_graph store)
      \<and> distinct (map (br_id \<circ> bs_branch) (st_branches store))
      \<and> distinct (map (br_name \<circ> bs_branch) (st_branches store))
      \<and> (\<forall>b \<in> set (st_branches store). br_id (bs_branch b) < st_next_branch store \<and> state_ok H store b))"

definition store_room :: "world_store \<Rightarrow> bool" where
  "store_room store = (unat (st_next_branch store) + 1 < 2 ^ 64
     \<and> length (ss_snapshots (st_snapshots store)) + 1 < 2 ^ 64)"

lemma new_store_ok: "store_ok H (new_store policy)"
  by (simp add: store_ok_def new_store_def graph_ok_def parents_first_def)

section \<open>Snapshots and the graph only grow\<close>

lemma snapshot_put_get:
  assumes "snapshot_put s store = (i, store')" and "length (ss_snapshots store) + 1 < 2 ^ 64"
  shows "snapshot_get store' i = Some s" and "snapshot_get store j = Some t \<Longrightarrow> snapshot_get store' j = Some t"
proof -
  have i: "i = of_nat (Suc (length (ss_snapshots store)))" and store': "store' = store\<lparr>ss_snapshots := ss_snapshots store @ [s]\<rparr>"
    using assms(1) by (simp_all add: snapshot_put_def Let_def)
  have u: "unat i = Suc (length (ss_snapshots store))" unfolding i using assms(2) by (simp add: unat_of_nat del: of_nat_Suc)
  then have "i \<noteq> 0" by auto
  then show "snapshot_get store' i = Some s" by (simp add: snapshot_get_def u store' nth_append)
  show "snapshot_get store j = Some t \<Longrightarrow> snapshot_get store' j = Some t"
    using unat_gt_0 [of j] by (auto simp: snapshot_get_def store' nth_append split: if_splits)
qed

lemma snapshot_bind_get [simp]: "snapshot_get (snapshot_bind c i store) j = snapshot_get store j"
  by (simp add: snapshot_get_def snapshot_bind_def)

lemma state_ok_grow:
  assumes "state_ok H store b"
    and "\<And>i. graph_contains (st_graph store) i \<Longrightarrow> graph_contains (st_graph store') i"
    and "\<And>j t. snapshot_get (st_snapshots store) j = Some t \<Longrightarrow> snapshot_get (st_snapshots store') j = Some t"
  shows "state_ok H store' b"
  using assms unfolding state_ok_def by blast

lemma find_branch_None: "find_branch store name = None \<longleftrightarrow> name \<notin> set (map (br_name \<circ> bs_branch) (st_branches store))"
  by (auto simp: find_branch_def find_None_mem)

text \<open>A store with one more branch.\<close>

lemma store_ok_append:
  assumes ok: "store_ok H store" and branches: "st_branches store' = st_branches store @ [b]"
    and graph: "graph_ok (st_graph store')"
    and nodes: "\<And>i. graph_contains (st_graph store) i \<Longrightarrow> graph_contains (st_graph store') i"
    and snaps: "\<And>j t. snapshot_get (st_snapshots store) j = Some t \<Longrightarrow> snapshot_get (st_snapshots store') j = Some t"
    and b: "state_ok H store' b" and fresh: "find_branch store (br_name (bs_branch b)) = None"
    and id: "st_next_branch store \<le> br_id (bs_branch b)" "br_id (bs_branch b) < st_next_branch store'"
  shows "store_ok H store'"
proof -
  have old: "br_id (bs_branch c) < st_next_branch store" "state_ok H store c" if "c \<in> set (st_branches store)" for c
    using ok that by (simp_all add: store_ok_def)
  have "state_ok H store' c" if "c \<in> set (st_branches store)" for c
    by (rule state_ok_grow [OF old(2) [OF that] nodes snaps])
  moreover have "br_id (bs_branch b) \<notin> (\<lambda>c. br_id (bs_branch c)) ` set (st_branches store)"
    using old(1) id(1) by force
  moreover have "br_id (bs_branch c) < st_next_branch store'" if "c \<in> set (st_branches store)" for c
    using old(1) [OF that] id by (meson order.strict_trans1 order.strict_trans order.strict_implies_order order_trans order.strict_trans2)
  moreover have "br_name (bs_branch b) \<notin> (\<lambda>c. br_name (bs_branch c)) ` set (st_branches store)"
    using fresh unfolding find_branch_None by (simp add: comp_def)
  ultimately show ?thesis
    using ok graph b id(2) unfolding store_ok_def branches by (auto simp: comp_def)
qed

section \<open>The operations keep it\<close>

lemma create_branch_ok:
  assumes ok: "store_ok H store" and room: "store_room store" and res: "create_branch H name w store = Inr (i, store')"
  shows "store_ok H store'"
proof -
  let ?s = "world_snapshot_of H w"
  obtain k snapshots where put: "snapshot_put ?s (st_snapshots store) = (k, snapshots)" by (meson surj_pair)
  let ?g = "make_genesis_record H (st_next_branch store) name w ?s k (world_canonical_hash H w)"
  let ?node = "\<lparr>cn_id = cr_id ?g, cn_parents = [], cn_children = [], cn_branch = st_next_branch store, cn_snapshot = k\<rparr>"
  let ?b = "\<lparr>bs_branch = \<lparr>br_id = st_next_branch store, br_name = name, br_world = w_id w, br_epoch = w_epoch w,
      br_head = Some (cr_id ?g), br_head_snapshot = k\<rparr>, bs_world = w, bs_history = [?g], bs_checkpoint_on_next = False\<rparr>"
  have fresh: "find_branch store name = None" and store': "store' = store\<lparr>st_branches := st_branches store @ [?b],
      st_snapshots := snapshot_bind (cr_id ?g) k snapshots, st_graph := graph_add_node ?node (st_graph store),
      st_next_branch := st_next_branch store + 1\<rparr>"
    using res by (auto simp: create_branch_def put Let_def split: if_splits)
  have len: "length (ss_snapshots (st_snapshots store)) + 1 < 2 ^ 64" using room by (simp add: store_room_def)
  note get = snapshot_put_get [OF put len]
  have graph: "graph_ok (graph_add_node ?node (st_graph store))"
    using ok by (intro graph_ok_add) (simp_all add: store_ok_def)
  have "state_ok H store' ?b"
    using get
    by (auto simp: state_ok_def store' graph_add_contains make_genesis_record_def Let_def world_canonical_hash_def
        blank_commit_def)
  moreover have "st_next_branch store < st_next_branch store + 1"
    using word_next_less(1) [of "st_next_branch store"] room by (simp add: store_room_def)
  ultimately show ?thesis
    using graph fresh get(2) by (intro store_ok_append [OF ok, of store' ?b]) (simp_all add: store' graph_add_contains)
qed

lemma branch_state_of_mem:
  assumes "branch_state_of store i = Inr b"
  shows "b \<in> set (st_branches store)" and "br_id (bs_branch b) = i"
  using assms by (auto simp: branch_state_of_def find_Some_iff split: option.splits)

text \<open>What a fork adds to the store; nothing else changes.\<close>

lemma fork_with_id_props:
  assumes "fork_with_id H source i name store = Inr (result, store')"
  obtains src events where "branch_state_of store source = Inr src" and "i \<noteq> 0" and "find_branch store name = None"
    and "store' = store\<lparr>st_branches := st_branches store @ [\<lparr>bs_branch = (bs_branch src)\<lparr>br_id := i, br_name := name\<rparr>,
          bs_world = append_trace events (bs_world src), bs_history = bs_history src,
          bs_checkpoint_on_next = ck_force_on_fork (st_policy store)\<rparr>],
        st_next_branch := max (st_next_branch store) (i + 1)\<rparr>"
    and "br_head (bs_branch src) = Some (fk_base_commit result)" and "fk_forked result = i"
    and "\<exists>s. snapshot_get (st_snapshots store) (br_head_snapshot (bs_branch src)) = Some s
        \<and> fk_base_hash result = canonical_hash H s"
  using assms
  by (auto simp: fork_with_id_def Let_def res_bind_Inr_iff split: if_splits option.splits)

lemma fork_branch_ok:
  assumes ok: "store_ok H store" and room: "store_room store"
    and res: "fork_branch H source name store = Inr (result, store')"
  shows "store_ok H store'"
proof -
  let ?i = "st_next_branch store"
  let ?store = "store\<lparr>st_next_branch := ?i + 1\<rparr>"
  obtain src events where src: "branch_state_of ?store source = Inr src" and fresh: "find_branch ?store name = None"
    and store': "store' = ?store\<lparr>st_branches := st_branches ?store @ [\<lparr>bs_branch = (bs_branch src)\<lparr>br_id := ?i, br_name := name\<rparr>,
          bs_world = append_trace events (bs_world src), bs_history = bs_history src,
          bs_checkpoint_on_next = ck_force_on_fork (st_policy ?store)\<rparr>],
        st_next_branch := max (st_next_branch ?store) (?i + 1)\<rparr>"
    by (rule fork_with_id_props [OF res [unfolded fork_branch_def Let_def]])
  let ?b = "\<lparr>bs_branch = (bs_branch src)\<lparr>br_id := ?i, br_name := name\<rparr>,
          bs_world = append_trace events (bs_world src), bs_history = bs_history src,
          bs_checkpoint_on_next = ck_force_on_fork (st_policy ?store)\<rparr>"
  have mem: "src \<in> set (st_branches store)" using branch_state_of_mem(1) [OF src] by simp
  then have "state_ok H store src" using ok by (simp add: store_ok_def)
  then have "state_ok H store' ?b" by (simp add: state_ok_def store')
  moreover have "?i < ?i + 1"
    using word_next_less(1) [of ?i] room by (simp add: store_room_def)
  moreover have "graph_ok (st_graph store)" using ok by (simp add: store_ok_def)
  moreover have "find_branch store name = None" using fresh by (simp add: find_branch_def)
  ultimately show ?thesis
    by (intro store_ok_append [OF ok, of store' ?b]) (simp_all add: store')
qed

lemma commit_record_for_fields:
  "cr_parent (commit_record_for H policy b tx pr p res w' after k) = br_head (bs_branch b)"
  "cr_parents (commit_record_for H policy b tx pr p res w' after k) = parent_vector (br_head (bs_branch b))"
  "cr_before_hash (commit_record_for H policy b tx pr p res w' after k) = world_canonical_hash H (bs_world b)"
  "cr_after_hash (commit_record_for H policy b tx pr p res w' after k) = world_canonical_hash H w'"
  "cr_accepted (commit_record_for H policy b tx pr p res w' after k) = cm_accepted res"
  "cr_proof (commit_record_for H policy b tx pr p res w' after k) = cm_proof res"
  "cr_delta_hash (commit_record_for H policy b tx pr p res w' after k) = hash_delta H (tx_delta tx)"
  "cr_before_root (commit_record_for H policy b tx pr p res w' after k) = wr_root (compute_world_root H (pt_before p))"
  "cr_after_root (commit_record_for H policy b tx pr p res w' after k) = wr_root (compute_world_root H after)"
  by (simp_all add: commit_record_for_def Let_def record_program_def record_checkpoint_def split: option.split)

lemma update_branch_map:
  assumes "distinct (map (br_id \<circ> bs_branch) bs)"
  shows "update_branch i f bs = map (\<lambda>b. if br_id (bs_branch b) = i then f b else b) bs"
  using update_first_distinct [OF assms, of i f] by (simp add: update_branch_def)

text \<open>Checkpoints: no recorded distance reaches the limits of the policy.\<close>

definition distance_ok :: "checkpoint_policy \<Rightarrow> commit_record \<Rightarrow> bool" where
  "distance_ok policy r =
     ((ck_every_n_commits policy > 0 \<longrightarrow> cr_checkpoint_distance r < ck_every_n_commits policy)
      \<and> (ck_max_delta_chain policy > 0 \<longrightarrow> cr_checkpoint_distance r < ck_max_delta_chain policy))"

definition distances_ok :: "world_store \<Rightarrow> bool" where
  "distances_ok store = (\<forall>b \<in> set (st_branches store). list_all (distance_ok (st_policy store)) (bs_history b))"

lemma record_checkpoint_distance:
  assumes "\<And>p. parent = Some p \<Longrightarrow> distance_ok policy p"
  shows "distance_ok policy (record_checkpoint H policy forced accepted parent after r)"
proof -
  let ?d = "case parent of None \<Rightarrow> 0 | Some p \<Rightarrow> cr_checkpoint_distance p + 1"
  have "distance_ok policy (r\<lparr>cr_checkpoint_distance := ?d\<rparr>)" if "\<not> should_checkpoint ?d forced policy"
    using that by (auto simp: should_checkpoint_def distance_ok_def not_le split: if_splits)
  moreover have "distance_ok policy (r\<lparr>cr_checkpoint_distance := 0\<rparr>)" by (simp add: distance_ok_def)
  ultimately show ?thesis
    using assms by (auto simp: record_checkpoint_def Let_def distance_ok_def split: option.splits)
qed

lemma commit_record_for_distance:
  assumes "\<And>q. parent = Some q \<Longrightarrow> distance_ok policy q"
  shows "distance_ok policy (commit_record_for H policy b tx parent pr res w' after k)"
proof -
  have "distance_ok policy (r\<lparr>cr_accepted := a1, cr_origin := a2, cr_label := a3, cr_law_statuses := a4,
      cr_violations := a5, cr_events := a6, cr_id := a7\<rparr>) = distance_ok policy r" for r a1 a2 a3 a4 a5 a6 a7
    by (simp add: distance_ok_def)
  then show ?thesis
    unfolding commit_record_for_def Let_def using record_checkpoint_distance [OF assms] by (simp add: distance_ok_def)
qed

lemma commit_record_of_mem:
  assumes "Option.bind head (commit_record_of store) = Some q"
  shows "\<exists>b \<in> set (st_branches store). q \<in> set (bs_history b)"
proof -
  obtain i where "commit_record_of store i = Some q" using assms by (cases head) auto
  then have "q \<in> set (concat (map bs_history (st_branches store)))"
    unfolding commit_record_of_def find_Some_iff by (metis nth_mem)
  then show ?thesis by auto
qed

lemma finish_commit_distance:
  assumes "finish_commit H b tx parent pr result w' store = (r, store')"
    and "\<And>q. parent = Some q \<Longrightarrow> distance_ok (st_policy store) q"
  shows "distance_ok (st_policy store) r" and "st_policy store' = st_policy store"
proof -
  have "distance_ok (st_policy store) (commit_record_for H (st_policy store) b tx parent pr result w' after k)" for after k
    by (rule commit_record_for_distance) (rule assms(2))
  then show "distance_ok (st_policy store) r" "st_policy store' = st_policy store"
    using assms(1) by (auto simp: finish_commit_def Let_def split: if_splits prod.splits)
qed

text \<open>What a commit does to the store: \<open>b'\<close> is the branch after it.\<close>

definition commit_effect ::
    "digest \<Rightarrow> branch_state \<Rightarrow> transaction \<Rightarrow> commit_result \<Rightarrow> world \<Rightarrow> commit_record \<Rightarrow> branch_state \<Rightarrow>
     world_store \<Rightarrow> world_store \<Rightarrow> bool" where
  "commit_effect H b tx result w' r b' store store' =
     (cr_accepted r = cm_accepted result \<and> cr_parent r = br_head (bs_branch b)
      \<and> cr_parents r = parent_vector (br_head (bs_branch b))
      \<and> cr_before_hash r = world_canonical_hash H (bs_world b) \<and> cr_after_hash r = world_canonical_hash H w'
      \<and> cr_proof r = cm_proof result \<and> cr_delta_hash r = hash_delta H (tx_delta tx)
      \<and> st_branches store' = map (\<lambda>c. if br_id (bs_branch c) = br_id (bs_branch b) then b' else c) (st_branches store)
      \<and> bs_world b' = w' \<and> bs_history b' = bs_history b @ [r] \<and> br_id (bs_branch b') = br_id (bs_branch b)
      \<and> br_name (bs_branch b') = br_name (bs_branch b) \<and> st_next_branch store' = st_next_branch store
      \<and> (if cm_accepted result
         then br_head (bs_branch b') = Some (cr_id r) \<and> br_epoch (bs_branch b') = w_epoch w'
           \<and> (\<exists>snapshots. snapshot_put (world_snapshot_of H w') (st_snapshots store) = (br_head_snapshot (bs_branch b'), snapshots)
               \<and> st_snapshots store' = snapshot_bind (cr_id r) (br_head_snapshot (bs_branch b')) snapshots)
           \<and> (\<exists>node. cn_id node = cr_id r \<and> cn_parents node = cr_parents r
               \<and> st_graph store' = graph_add_node node (st_graph store))
         else bs_branch b' = bs_branch b \<and> st_snapshots store' = st_snapshots store \<and> st_graph store' = st_graph store))"

lemma finish_commit_effect:
  assumes "finish_commit H b tx pr p result w' store = (r, store')"
    and "distinct (map (br_id \<circ> bs_branch) (st_branches store))"
  shows "\<exists>b'. commit_effect H b tx result w' r b' store store'"
proof -
  obtain k snaps where put: "snapshot_put (world_snapshot_of H w') (st_snapshots store) = (k, snaps)" by (meson surj_pair)
  show ?thesis
  proof (cases "cm_accepted result")
    case True
    let ?b = "b\<lparr>bs_world := w', bs_history := bs_history b @ [r],
       bs_branch := (bs_branch b)\<lparr>br_head := Some (cr_id r), br_head_snapshot := k, br_epoch := w_epoch w'\<rparr>,
       bs_checkpoint_on_next := False\<rparr>"
    have "commit_effect H b tx result w' r ?b store store'"
      using assms(1) True
      by (auto simp: finish_commit_def Let_def put commit_effect_def commit_record_for_fields
          update_branch_map [OF assms(2)] intro!: exI [of _ "\<lparr>cn_id = cr_id r, cn_parents = cr_parents r,
            cn_children = [], cn_branch = br_id (bs_branch b), cn_snapshot = k\<rparr>"])
    then show ?thesis by blast
  next
    case False
    have "commit_effect H b tx result w' r (b\<lparr>bs_world := w', bs_history := bs_history b @ [r]\<rparr>) store store'"
      using assms(1) False
      by (auto simp: finish_commit_def Let_def commit_effect_def commit_record_for_fields update_branch_map [OF assms(2)])
    then show ?thesis by blast
  qed
qed

lemma store_commit_props:
  assumes "store_commit H fmt17 i tx v store = Inr (r, store')" and "distinct (map (br_id \<circ> bs_branch) (st_branches store))"
  obtains b p result w' b' k where "branch_state_of store i = Inr b"
    and "prepare_transaction H fmt17 (bs_world b) (tx\<lparr>tx_id := k\<rparr>) v = Inr p"
    and "commit_prepared H (bs_world b) p = Inr (result, w')" and "commit_effect H b tx result w' r b' store store'"
    and "st_policy store' = st_policy store" and "distances_ok store \<Longrightarrow> distance_ok (st_policy store) r"
proof -
  obtain tx' k st where tx': "(if tx_id tx \<noteq> 0 then (tx, store)
      else (tx\<lparr>tx_id := st_next_transaction store\<rparr>, store\<lparr>st_next_transaction := st_next_transaction store + 1\<rparr>)) = (tx', st)"
    and same: "tx' = tx\<lparr>tx_id := k\<rparr>" and st: "st_branches st = st_branches store" "st_snapshots st = st_snapshots store"
      "st_graph st = st_graph store" "st_next_branch st = st_next_branch store" "st_policy st = st_policy store"
  proof (cases "tx_id tx \<noteq> 0")
    case True
    then show thesis using that [of tx store "tx_id tx"] by simp
  next
    case False
    then show thesis
      using that [of "tx\<lparr>tx_id := st_next_transaction store\<rparr>"
          "store\<lparr>st_next_transaction := st_next_transaction store + 1\<rparr>" "st_next_transaction store"] by simp
  qed
  from assms(1) obtain b where b: "branch_state_of store i = Inr b"
    by (auto simp: store_commit_def res_bind_Inr_iff)
  have "res_bind (map_error StoreLaw (prepare_transaction H fmt17 (bs_world b) tx' v)) (\<lambda>prepared.
      res_bind (map_error StoreWorld (commit_prepared H (bs_world b) prepared)) (\<lambda>(result, w').
        Inr (finish_commit H b tx' (Option.bind (br_head (bs_branch b)) (commit_record_of st)) prepared result w' st)))
      = Inr (r, store')"
    using assms(1) unfolding store_commit_def b res_bind_simps tx' Let_def prod.case .
  then obtain p result w' where p: "map_error StoreLaw (prepare_transaction H fmt17 (bs_world b) tx' v) = Inr p"
      "map_error StoreWorld (commit_prepared H (bs_world b) p) = Inr (result, w')"
    and fin: "finish_commit H b tx' (Option.bind (br_head (bs_branch b)) (commit_record_of st)) p result w' st = (r, store')"
    unfolding res_bind_Inr_iff by auto
  have p': "prepare_transaction H fmt17 (bs_world b) (tx\<lparr>tx_id := k\<rparr>) v = Inr p" "commit_prepared H (bs_world b) p = Inr (result, w')"
    using p by (auto simp: map_error_def same split: sum.splits)
  from finish_commit_effect [OF fin] obtain b' where "commit_effect H b tx' result w' r b' st store'"
    using assms(2) st by auto
  moreover have delta: "tx_delta (tx\<lparr>tx_id := k\<rparr>) = tx_delta tx" by simp
  have "commit_effect H b tx' result w' r b' st store' = commit_effect H b tx result w' r b' store store'"
    unfolding commit_effect_def same st delta ..
  ultimately have "commit_effect H b tx result w' r b' store store'" by simp
  moreover have "st_policy store' = st_policy store \<and> (distances_ok store \<longrightarrow> distance_ok (st_policy store) r)"
  proof -
    have "commit_record_of st = commit_record_of store" by (simp add: commit_record_of_def st fun_eq_iff)
    then have "distance_ok (st_policy st) q"
      if "distances_ok store" "Option.bind (br_head (bs_branch b)) (commit_record_of st) = Some q" for q
      using commit_record_of_mem [of "br_head (bs_branch b)" store q] that
      by (auto simp: distances_ok_def st list_all_iff)
    moreover have "st_policy store' = st_policy st" using fin by (auto simp: finish_commit_def Let_def split: if_splits prod.splits)
    ultimately show ?thesis using finish_commit_distance(1) [OF fin] st by auto
  qed
  ultimately show thesis using that b p' by blast
qed


lemma commit_effect_rejected:
  assumes "commit_prepared H (bs_world b) p = Inr (result, w')" and "\<not> cm_accepted result"
  shows "world_canonical_hash H w' = world_canonical_hash H (bs_world b)" and "w_epoch w' = w_epoch (bs_world b)"
  using commit_rejected(1) [OF assms] by simp_all

text \<open>The branch after a commit, and the parts of the store it is looked up in.\<close>

lemma commit_state_ok:
  assumes state: "state_ok H store b" and room: "store_room store"
    and com: "commit_prepared H (bs_world b) p = Inr (result, w')"
    and eff: "commit_effect H b tx result w' r b' store store'"
  shows "state_ok H store' b'"
proof -
  obtain h i s where old: "br_head (bs_branch b) = Some i" "graph_contains (st_graph store) i"
      "snapshot_get (st_snapshots store) (br_head_snapshot (bs_branch b)) = Some s"
      "canonical_hash H s = world_canonical_hash H (bs_world b)" "br_epoch (bs_branch b) = w_epoch (bs_world b)"
      "linked None h (bs_history b) (Some i) (world_canonical_hash H (bs_world b))"
    using state unfolding state_ok_def by blast
  show ?thesis
  proof (cases "cm_accepted result")
    case True
    from eff True obtain snaps node where new: "bs_world b' = w'" "bs_history b' = bs_history b @ [r]"
        "br_head (bs_branch b') = Some (cr_id r)" "br_epoch (bs_branch b') = w_epoch w'"
        "snapshot_put (world_snapshot_of H w') (st_snapshots store) = (br_head_snapshot (bs_branch b'), snaps)"
        "st_snapshots store' = snapshot_bind (cr_id r) (br_head_snapshot (bs_branch b')) snaps"
        "cn_id node = cr_id r" "st_graph store' = graph_add_node node (st_graph store)"
        "cr_accepted r" "cr_parent r = Some i" "cr_before_hash r = world_canonical_hash H (bs_world b)"
        "cr_after_hash r = world_canonical_hash H w'"
      unfolding commit_effect_def using old(1) by auto
    have "linked None h (bs_history b') (Some (cr_id r)) (world_canonical_hash H w')"
      unfolding new linked_append using old(6) new by auto
    moreover have "snapshot_get (st_snapshots store') (br_head_snapshot (bs_branch b')) = Some (world_snapshot_of H w')"
      using snapshot_put_get(1) [OF new(5)] room by (simp add: new(6) store_room_def)
    ultimately show ?thesis
      unfolding state_ok_def using new by (auto simp: graph_add_contains world_canonical_hash_def)
  next
    case False
    from eff False have new: "bs_world b' = w'" "bs_history b' = bs_history b @ [r]" "bs_branch b' = bs_branch b"
        "st_snapshots store' = st_snapshots store" "st_graph store' = st_graph store"
        "\<not> cr_accepted r" "cr_parent r = Some i" "cr_before_hash r = world_canonical_hash H (bs_world b)"
        "cr_after_hash r = world_canonical_hash H w'"
      unfolding commit_effect_def using old(1) by auto
    note same = commit_effect_rejected [OF com False]
    have "linked None h (bs_history b') (Some i) (world_canonical_hash H w')"
      unfolding new(2) linked_append using old(6) new(6-9) same by auto
    then show ?thesis unfolding state_ok_def using new old same by auto
  qed
qed

lemma commit_effect_grow:
  assumes eff: "commit_effect H b tx result w' r b' store store'" and room: "store_room store"
  shows "graph_contains (st_graph store) i \<Longrightarrow> graph_contains (st_graph store') i"
    and "snapshot_get (st_snapshots store) j = Some t \<Longrightarrow> snapshot_get (st_snapshots store') j = Some t"
proof -
  show "graph_contains (st_graph store') i" if "graph_contains (st_graph store) i"
    using eff that by (auto simp: commit_effect_def graph_add_contains split: if_splits)
  show "snapshot_get (st_snapshots store') j = Some t" if "snapshot_get (st_snapshots store) j = Some t"
    using eff that room snapshot_put_get(2) [of _ "st_snapshots store"]
    by (auto simp: commit_effect_def store_room_def split: if_splits)
qed

lemma commit_effect_graph:
  assumes "commit_effect H b tx result w' r b' store store'" and "graph_ok (st_graph store)" and "state_ok H store b"
  shows "graph_ok (st_graph store')"
proof (cases "cm_accepted result")
  case True
  then obtain node where "cn_parents node = parent_vector (br_head (bs_branch b))"
      "st_graph store' = graph_add_node node (st_graph store)"
    using assms(1) unfolding commit_effect_def by auto
  then show ?thesis
    using assms(2,3) by (auto intro!: graph_ok_add simp: parent_vector_def state_ok_def)
qed (use assms in \<open>simp add: commit_effect_def\<close>)

lemma store_commit_ok:
  assumes ok: "store_ok H store" and room: "store_room store"
    and res: "store_commit H fmt17 i tx v store = Inr (r, store')"
  shows "store_ok H store'"
proof -
  have dist: "distinct (map (br_id \<circ> bs_branch) (st_branches store))" using ok by (simp add: store_ok_def)
  obtain b p result w' b' k where b: "branch_state_of store i = Inr b"
    and com: "commit_prepared H (bs_world b) p = Inr (result, w')"
    and eff: "commit_effect H b tx result w' r b' store store'"
    by (rule store_commit_props [OF res dist])
  have mem: "b \<in> set (st_branches store)" by (rule branch_state_of_mem [OF b])
  then have state: "state_ok H store b" using ok by (simp add: store_ok_def)
  let ?f = "\<lambda>c. if br_id (bs_branch c) = br_id (bs_branch b) then b' else c"
  have eff': "st_branches store' = map ?f (st_branches store)" "br_id (bs_branch b') = br_id (bs_branch b)"
      "br_name (bs_branch b') = br_name (bs_branch b)" "st_next_branch store' = st_next_branch store"
    using eff by (simp_all add: commit_effect_def)
  have only: "c = b" if "c \<in> set (st_branches store)" "br_id (bs_branch c) = br_id (bs_branch b)" for c
    using dist mem that unfolding distinct_map by (metis comp_apply inj_onD)
  have same: "map (br_id \<circ> bs_branch) (st_branches store') = map (br_id \<circ> bs_branch) (st_branches store)"
      "map (br_name \<circ> bs_branch) (st_branches store') = map (br_name \<circ> bs_branch) (st_branches store)"
    using eff' only by auto
  have "state_ok H store' c" if "c \<in> set (st_branches store)" for c
  proof -
    have "state_ok H store c" using ok that by (simp add: store_ok_def)
    then show ?thesis by (rule state_ok_grow) (rule commit_effect_grow [OF eff room], assumption)+
  qed
  then have "state_ok H store' c" if "c \<in> set (st_branches store')" for c
    using that commit_state_ok [OF state room com eff] unfolding eff' by auto
  moreover have "br_id (bs_branch c) < st_next_branch store'" if "c \<in> set (st_branches store')" for c
    using that ok mem unfolding eff' store_ok_def by (auto simp: eff')
  moreover have "graph_ok (st_graph store')" using commit_effect_graph [OF eff _ state] ok by (simp add: store_ok_def)
  ultimately show ?thesis using ok unfolding store_ok_def same by blast
qed

section \<open>The other branches\<close>

lemma find_append_Some: "List.find P xs = Some x \<Longrightarrow> List.find P (xs @ ys) = Some x"
  by (induction xs) auto

lemma branch_state_of_append:
  "branch_state_of store i = Inr b \<Longrightarrow> st_branches store' = st_branches store @ bs \<Longrightarrow> branch_state_of store' i = Inr b"
  by (auto simp: branch_state_of_def find_append_Some split: option.splits)

lemma find_map_other:
  "(\<And>x. x \<in> set xs \<Longrightarrow> P (f x) = P x) \<Longrightarrow> (\<And>x. P x \<Longrightarrow> f x = x) \<Longrightarrow> List.find P (map f xs) = List.find P xs"
  by (induction xs) auto

lemma store_commit_others:
  assumes ok: "store_ok H store" and res: "store_commit H fmt17 i tx v store = Inr (r, store')" and "j \<noteq> i"
  shows "branch_state_of store' j = branch_state_of store j"
proof -
  have dist: "distinct (map (br_id \<circ> bs_branch) (st_branches store))" using ok by (simp add: store_ok_def)
  obtain b p result w' b' k where b: "branch_state_of store i = Inr b"
    and eff: "commit_effect H b tx result w' r b' store store'"
    by (rule store_commit_props [OF res dist])
  let ?f = "\<lambda>c. if br_id (bs_branch c) = br_id (bs_branch b) then b' else c"
  have "br_id (bs_branch b) = i" by (rule branch_state_of_mem(2) [OF b])
  moreover have "st_branches store' = map ?f (st_branches store)" "br_id (bs_branch b') = br_id (bs_branch b)"
    using eff by (simp_all add: commit_effect_def)
  ultimately show ?thesis
    using \<open>j \<noteq> i\<close> find_map_other [of "st_branches store" "\<lambda>c. br_id (bs_branch c) = j" ?f]
    by (simp add: branch_state_of_def)
qed

text \<open>What is found after creating or forking a branch.\<close>

lemma create_branch_props:
  assumes "create_branch H name w store = Inr (i, store')"
  obtains b where "st_branches store' = st_branches store @ [b]" and "br_id (bs_branch b) = i" and "br_name (bs_branch b) = name"
    and "bs_world b = w" and "i = st_next_branch store" and "name \<noteq> []" and "find_branch store name = None"
    and "st_policy store' = st_policy store" and "\<And>r. r \<in> set (bs_history b) \<Longrightarrow> cr_checkpoint_distance r = 0"
    and "st_next_branch store' = i + 1"
proof -
  obtain k snapshots where put: "snapshot_put (world_snapshot_of H w) (st_snapshots store) = (k, snapshots)" by (meson surj_pair)
  let ?g = "make_genesis_record H (st_next_branch store) name w (world_snapshot_of H w) k (world_canonical_hash H w)"
  let ?b = "\<lparr>bs_branch = \<lparr>br_id = st_next_branch store, br_name = name, br_world = w_id w, br_epoch = w_epoch w,
      br_head = Some (cr_id ?g), br_head_snapshot = k\<rparr>, bs_world = w, bs_history = [?g], bs_checkpoint_on_next = False\<rparr>"
  have "cr_checkpoint_distance ?g = 0" by (simp add: make_genesis_record_def Let_def)
  moreover have "i = st_next_branch store" "name \<noteq> []" "find_branch store name = None"
      "st_branches store' = st_branches store @ [?b]" "st_policy store' = st_policy store"
      "st_next_branch store' = i + 1"
    using assms by (auto simp: create_branch_def put Let_def split: if_splits)
  ultimately show thesis by (intro that [of ?b]) auto
qed

lemma create_branch_keeps:
  assumes "create_branch H name w store = Inr (i, store')" and "branch_state_of store j = Inr b"
  shows "branch_state_of store' j = Inr b"
proof -
  obtain c where "st_branches store' = st_branches store @ [c]" by (rule create_branch_props [OF assms(1)])
  then show ?thesis by (rule branch_state_of_append [OF assms(2)])
qed

lemma fork_branch_props:
  assumes res: "fork_branch H source name store = Inr (result, store')"
  obtains src b events where "branch_state_of store source = Inr src" and "st_branches store' = st_branches store @ [b]"
    and "bs_branch b = (bs_branch src)\<lparr>br_id := st_next_branch store, br_name := name\<rparr>"
    and "bs_world b = append_trace events (bs_world src)" and "bs_history b = bs_history src"
    and "st_policy store' = st_policy store" and "find_branch store name = None"
    and "fk_forked result = st_next_branch store" and "br_head (bs_branch src) = Some (fk_base_commit result)"
    and "bs_checkpoint_on_next b = ck_force_on_fork (st_policy store)"
proof -
  let ?i = "st_next_branch store"
  let ?store = "store\<lparr>st_next_branch := ?i + 1\<rparr>"
  obtain src events where src: "branch_state_of ?store source = Inr src" and fresh: "find_branch ?store name = None"
    and store': "store' = ?store\<lparr>st_branches := st_branches ?store @ [\<lparr>bs_branch = (bs_branch src)\<lparr>br_id := ?i, br_name := name\<rparr>,
          bs_world = append_trace events (bs_world src), bs_history = bs_history src,
          bs_checkpoint_on_next = ck_force_on_fork (st_policy ?store)\<rparr>],
        st_next_branch := max (st_next_branch ?store) (?i + 1)\<rparr>"
    and head: "br_head (bs_branch src) = Some (fk_base_commit result)" "fk_forked result = ?i"
    by (rule fork_with_id_props [OF res [unfolded fork_branch_def Let_def]])
  have "branch_state_of store source = Inr src" using src by (simp add: branch_state_of_def)
  moreover have "find_branch store name = None" using fresh by (simp add: find_branch_def)
  ultimately show thesis
    by (intro that [of src "\<lparr>bs_branch = (bs_branch src)\<lparr>br_id := ?i, br_name := name\<rparr>,
          bs_world = append_trace events (bs_world src), bs_history = bs_history src,
          bs_checkpoint_on_next = ck_force_on_fork (st_policy ?store)\<rparr>" events]) (simp_all add: store' head)
qed

lemma fork_branch_keeps:
  assumes "fork_branch H source name store = Inr (result, store')" and "branch_state_of store j = Inr b"
  shows "branch_state_of store' j = Inr b"
proof -
  obtain c where "st_branches store' = st_branches store @ [c]" by (rule fork_branch_props [OF assms(1)])
  then show ?thesis by (rule branch_state_of_append [OF assms(2)])
qed

lemma find_last: "(\<And>x. x \<in> set xs \<Longrightarrow> \<not> P x) \<Longrightarrow> P y \<Longrightarrow> List.find P (xs @ [y]) = Some y"
  by (induction xs) auto

lemma branch_state_of_last:
  assumes "st_branches store' = bs @ [b]" and "br_id (bs_branch b) \<notin> (br_id \<circ> bs_branch) ` set bs"
  shows "branch_state_of store' (br_id (bs_branch b)) = Inr b"
proof -
  have "br_id (bs_branch c) \<noteq> br_id (bs_branch b)" if "c \<in> set bs" for c
    using assms(2) that by (metis comp_apply imageI)
  then show ?thesis by (simp add: branch_state_of_def assms(1) find_last)
qed

section \<open>The stores of a program\<close>

inductive reachable_store :: "digest \<Rightarrow> (f64 \<Rightarrow> string) \<Rightarrow> world_store \<Rightarrow> bool" for H fmt17 where
  empty: "reachable_store H fmt17 (new_store policy)"
| create: "reachable_store H fmt17 store \<Longrightarrow> store_room store \<Longrightarrow> create_branch H name w store = Inr (i, store') \<Longrightarrow>
    reachable_store H fmt17 store'"
| fork: "reachable_store H fmt17 store \<Longrightarrow> store_room store \<Longrightarrow> fork_branch H source name store = Inr (f, store') \<Longrightarrow>
    reachable_store H fmt17 store'"
| commit: "reachable_store H fmt17 store \<Longrightarrow> store_room store \<Longrightarrow> store_commit H fmt17 i tx v store = Inr (r, store') \<Longrightarrow>
    reachable_store H fmt17 store'"

lemma distances_append:
  assumes "distances_ok store" and "st_branches store' = st_branches store @ [b]" and "st_policy store' = st_policy store"
    and "list_all (distance_ok (st_policy store)) (bs_history b)"
  shows "distances_ok store'"
  using assms by (auto simp: distances_ok_def)

lemma create_branch_distances:
  assumes "create_branch H name w store = Inr (i, store')" and "distances_ok store"
  shows "distances_ok store'"
proof -
  obtain b where b: "st_branches store' = st_branches store @ [b]" "st_policy store' = st_policy store"
      "\<And>r. r \<in> set (bs_history b) \<Longrightarrow> cr_checkpoint_distance r = 0"
    by (rule create_branch_props [OF assms(1)]) blast
  then have "list_all (distance_ok (st_policy store)) (bs_history b)"
    by (auto simp: list_all_iff distance_ok_def)
  then show ?thesis by (rule distances_append [OF assms(2) b(1,2)])
qed

lemma fork_branch_distances:
  assumes "fork_branch H source name store = Inr (f, store')" and "distances_ok store"
  shows "distances_ok store'"
proof -
  obtain src b where b: "st_branches store' = st_branches store @ [b]" "st_policy store' = st_policy store"
      "bs_history b = bs_history src" and src: "branch_state_of store source = Inr src"
    by (rule fork_branch_props [OF assms(1)]) blast
  have "list_all (distance_ok (st_policy store)) (bs_history b)"
    using assms(2) branch_state_of_mem(1) [OF src] b(3) by (simp add: distances_ok_def)
  then show ?thesis by (rule distances_append [OF assms(2) b(1,2)])
qed

lemma store_commit_distances:
  assumes res: "store_commit H fmt17 i tx v store = Inr (r, store')" and ok: "store_ok H store" and dist: "distances_ok store"
  shows "distances_ok store'"
proof -
  have ids: "distinct (map (br_id \<circ> bs_branch) (st_branches store))" using ok by (simp add: store_ok_def)
  obtain b result w' b' where b: "branch_state_of store i = Inr b"
    and eff: "commit_effect H b tx result w' r b' store store'"
    and policy: "st_policy store' = st_policy store" and r: "distance_ok (st_policy store) r"
    by (rule store_commit_props [OF res ids]) (use dist in blast)
  have "list_all (distance_ok (st_policy store)) (bs_history b)"
    using dist branch_state_of_mem(1) [OF b] by (simp add: distances_ok_def)
  then have "list_all (distance_ok (st_policy store)) (bs_history b')" using eff r by (simp add: commit_effect_def)
  moreover have "st_branches store' = map (\<lambda>c. if br_id (bs_branch c) = br_id (bs_branch b) then b' else c) (st_branches store)"
    using eff by (simp add: commit_effect_def)
  ultimately show ?thesis using dist by (auto simp: distances_ok_def policy)
qed

lemma reachable_store_inv: "reachable_store H fmt17 store \<Longrightarrow> store_ok H store \<and> distances_ok store"
proof (induction rule: reachable_store.induct)
  case (empty policy)
  have "distances_ok (new_store policy)" by (simp add: distances_ok_def new_store_def)
  then show ?case using new_store_ok by blast
next
  case (create store name w i store')
  then show ?case using create_branch_ok [of H store name w i store'] create_branch_distances [of H name w store i store'] by blast
next
  case (fork store source name f store')
  then show ?case using fork_branch_ok [of H store source name f store'] fork_branch_distances [of H source name store f store'] by blast
next
  case (commit store i tx v r store')
  then show ?case
    using store_commit_ok [of H store fmt17 i tx v r store'] store_commit_distances [of H fmt17 i tx v store r store'] by blast
qed

end
