(* ===== verification/Demo_Runtime.thy ===== *)
theory Demo_Runtime
  imports Demo Plan_Cover World_Store_Inv
begin

text \<open>
  Concrete data for the runtime: a transaction with the delta of \<open>Demo\<close> under no laws, programs for the
  virtual machine, and a store with a branch, a commit and a fork.
\<close>

definition demo_fmt :: "f64 \<Rightarrow> string" where
  "demo_fmt _ = ''0''"

definition demo_tx :: transaction where
  "demo_tx = default_transaction\<lparr>tx_id := 1, tx_delta := demo_delta\<rparr>"

definition demo_verifier :: verifier where
  "demo_verifier = new_verifier Strict"

definition demo_base :: world_snapshot where
  "demo_base = world_snapshot_of demo_digest demo_world"

definition demo_after :: world_snapshot where
  "demo_after = projr (overlay_apply demo_digest demo_base demo_delta)"

lemma demo_after: "overlay_apply demo_digest demo_base demo_delta = Inr demo_after"
  unfolding demo_after_def demo_base_def by (rule not_isl_projr [OF demo_overlay_accepts])

lemma demo_base_empty: "sn_objects demo_base = []" "sn_pointers demo_base = []"
  by code_simp+

lemma demo_base_room: "ids_room demo_base (length demo_delta)"
  by (simp add: ids_room_def next_object_index_def next_pointer_value_def demo_base_empty demo_delta_def)

lemma demo_admissible: "admissible demo_digest demo_fmt demo_world demo_tx demo_verifier demo_after"
proof -
  obtain events w' where "apply_delta_unchecked demo_digest demo_delta demo_world = Inr (events, w')"
    using not_isl_projr [OF demo_world_accepts] by (metis surj_pair)
  then have "preview_delta_unchecked demo_digest demo_delta demo_world = Inr events"
    using preview_apply by blast
  moreover have "demo_delta \<noteq> []" by (simp add: demo_delta_def)
  ultimately show ?thesis
    using demo_after
    by (simp add: admissible_def Let_def demo_tx_def default_transaction_def program_rejection_def demo_base_def
        verifier_check_def demo_verifier_def new_verifier_def default_verification_def)
qed

definition demo_prepared :: prepared_transaction where
  "demo_prepared = projr (prepare_transaction demo_digest demo_fmt demo_world demo_tx demo_verifier)"

lemma demo_prepared:
  "prepare_transaction demo_digest demo_fmt demo_world demo_tx demo_verifier = Inr demo_prepared"
  "pt_committable demo_prepared" "pt_predicted demo_prepared = Inr demo_after"
  using admissible_prepares [OF demo_admissible] by (auto simp: demo_prepared_def)

lemma demo_tx_delta [simp]: "tx_delta demo_tx = demo_delta"
  by (simp add: demo_tx_def)

definition demo_commits :: "commit_result \<times> world" where
  "demo_commits = projr (commit_prepared demo_digest demo_world demo_prepared)"

lemma demo_commits: "commit_prepared demo_digest demo_world demo_prepared = Inr (fst demo_commits, snd demo_commits)"
  using commit_committable [OF demo_prepared(1,2)] by (auto simp: demo_commits_def)

text \<open>The same transaction prepared before another commit is stale.\<close>

lemma demo_stale:
  "commit_prepared demo_digest (demo_world\<lparr>w_epoch := 7\<rparr>) demo_prepared
     = Inr (fst (projr (commit_prepared demo_digest (demo_world\<lparr>w_epoch := 7\<rparr>) demo_prepared)),
            snd (projr (commit_prepared demo_digest (demo_world\<lparr>w_epoch := 7\<rparr>) demo_prepared)))"
  and demo_stale_epoch: "w_epoch (demo_world\<lparr>w_epoch := 7\<rparr>) \<noteq> sn_epoch (pt_before demo_prepared)"
proof -
  have "pt_before demo_prepared = demo_base"
    using demo_prepared(1,2) unfolding demo_base_def by (cases rule: prepare_cases) auto
  moreover have "sn_epoch demo_base \<noteq> 7" by code_simp
  ultimately show epoch: "w_epoch (demo_world\<lparr>w_epoch := 7\<rparr>) \<noteq> sn_epoch (pt_before demo_prepared)" by simp
  then show "commit_prepared demo_digest (demo_world\<lparr>w_epoch := 7\<rparr>) demo_prepared
     = Inr (fst (projr (commit_prepared demo_digest (demo_world\<lparr>w_epoch := 7\<rparr>) demo_prepared)),
            snd (projr (commit_prepared demo_digest (demo_world\<lparr>w_epoch := 7\<rparr>) demo_prepared)))"
    by (simp add: commit_prepared_def Let_def)
qed

section \<open>Programs\<close>

definition demo_run :: kernel_program where
  "demo_run = \<lparr>pr_symbols = \<lparr>sy_strings = [], sy_type_names = [''T''], sy_relation_names = []\<rparr>,
     pr_instructions = [\<lparr>in_op = IInternType, in_args = [UInt64Value 0]\<rparr>]\<rparr>"

text \<open>A program whose type has no name.\<close>

definition demo_unnamed :: kernel_program where
  "demo_unnamed = demo_run\<lparr>pr_symbols := \<lparr>sy_strings = [], sy_type_names = [[]], sy_relation_names = []\<rparr>\<rparr>"

lemma demo_run_runs:
  "fst (execute_loop demo_digest demo_fmt (initial_frame demo_base demo_run) 0 (pr_instructions demo_run))"
  by code_simp

lemma demo_run_accepted:
  "\<not> isl (overlay_apply demo_digest demo_base
     (fr_delta (snd (execute_loop demo_digest demo_fmt (initial_frame demo_base demo_run) 0 (pr_instructions demo_run)))))"
  unfolding overlay_apply_def isl_res_bind by (simp only: sum.disc) code_simp

lemma demo_vm_ok: "vm_ok (vm_execute demo_digest demo_fmt demo_base demo_run)"
proof (cases rule: vm_execute_cases [of demo_digest demo_fmt demo_base demo_run])
  case (instruction frame)
  then show ?thesis using demo_run_runs by simp
next
  case (overlay frame e)
  then show ?thesis using demo_run_accepted by simp
qed

lemma demo_unnamed_runs:
  "fst (execute_loop demo_digest demo_fmt (initial_frame demo_base demo_unnamed) 0 (pr_instructions demo_unnamed))"
  by code_simp

lemma demo_unnamed_rejected:
  "isl (overlay_apply demo_digest demo_base
     (fr_delta (snd (execute_loop demo_digest demo_fmt (initial_frame demo_base demo_unnamed) 0 (pr_instructions demo_unnamed)))))"
  unfolding overlay_apply_def isl_res_bind by (rule disjI1) code_simp

section \<open>A store\<close>

definition demo_store :: world_store where
  "demo_store = snd (projr (create_branch demo_digest ''main'' demo_world (new_store default_checkpoint_policy)))"

lemma demo_create:
  "create_branch demo_digest ''main'' demo_world (new_store default_checkpoint_policy) = Inr (1, demo_store)"
  by (simp add: demo_store_def create_branch_def find_branch_def new_store_def Let_def split: prod.splits)

lemma demo_store_room: "store_room (new_store policy)" "store_room demo_store"
  by (simp_all add: store_room_def demo_store_def create_branch_def find_branch_def new_store_def Let_def
      snapshot_put_def snapshot_bind_def)

lemma demo_store_reachable: "reachable_store demo_digest demo_fmt demo_store"
  by (rule reachable_store.create [OF reachable_store.empty demo_store_room(1) demo_create])

lemma demo_store_branch: "\<exists>b. branch_state_of demo_store 1 = Inr b \<and> bs_world b = demo_world
    \<and> br_head (bs_branch b) \<noteq> None"
  by (simp add: branch_state_of_def demo_store_def create_branch_def find_branch_def new_store_def Let_def
      snapshot_put_def)

definition demo_fork :: "fork_result \<times> world_store" where
  "demo_fork = projr (fork_branch demo_digest 1 ''side'' demo_store)"

lemma demo_fork: "fork_branch demo_digest 1 ''side'' demo_store = Inr (fst demo_fork, snd demo_fork)"
  by (simp add: demo_fork_def fork_branch_def fork_with_id_def demo_store_def create_branch_def find_branch_def
      branch_state_of_def new_store_def Let_def snapshot_put_def snapshot_bind_def snapshot_get_def)

definition demo_commit_store :: "commit_record \<times> world_store" where
  "demo_commit_store = projr (store_commit demo_digest demo_fmt 1 demo_tx demo_verifier demo_store)"

lemma demo_commit_store:
  "store_commit demo_digest demo_fmt 1 demo_tx demo_verifier demo_store = Inr (fst demo_commit_store, snd demo_commit_store)"
proof -
  obtain b where b: "branch_state_of demo_store 1 = Inr b" "bs_world b = demo_world" using demo_store_branch by blast
  have i: "tx_id demo_tx \<noteq> 0" by (simp add: demo_tx_def)
  have "store_commit demo_digest demo_fmt 1 demo_tx demo_verifier demo_store =
      Inr (finish_commit demo_digest b demo_tx (Option.bind (br_head (bs_branch b)) (commit_record_of demo_store))
        demo_prepared (fst demo_commits) (snd demo_commits) demo_store)"
    unfolding store_commit_def b Let_def if_P [OF i] res_bind_simps prod.case
    by (simp only: map_error_def demo_prepared demo_commits sum.case res_bind_simps prod.case)
  then show ?thesis by (simp add: demo_commit_store_def)
qed

lemma demo_commit_reachable: "reachable_store demo_digest demo_fmt (snd demo_commit_store)"
  by (rule reachable_store.commit [OF demo_store_reachable demo_store_room(2) demo_commit_store])

end
