(* ===== verification/Text_Lines.thy ===== *)
theory Text_Lines
  imports Prelude
begin

text \<open>
  The text of rules, derivations and logs: what \<open>std::getline\<close>, \<open>operator>>\<close> on strings, \<open>isspace\<close> in the C
  locale and the trimming helpers of \<open>src/rule/rule.cpp\<close> and \<open>src/rule/derivation.cpp\<close> do on a string.
\<close>

definition is_space :: "char \<Rightarrow> bool" where
  "is_space c = (of_char c \<in> {9, 10, 11, 12, 13, 32 :: nat})"

text \<open>The characters a comment, a reason and a line use.\<close>

definition newline :: char where
  "newline = char_of (10 :: nat)"

definition quote_mark :: char where
  "quote_mark = char_of (34 :: nat)"

fun text_lines_from :: "string \<Rightarrow> string \<Rightarrow> string list" where
  "text_lines_from acc [] = (if acc = [] then [] else [rev acc])"
| "text_lines_from acc (c # cs) =
     (if c = newline then rev acc # text_lines_from [] cs else text_lines_from (c # acc) cs)"

definition text_lines :: "string \<Rightarrow> string list" where
  "text_lines = text_lines_from []"

fun text_words_from :: "string \<Rightarrow> string \<Rightarrow> string list" where
  "text_words_from acc [] = (if acc = [] then [] else [rev acc])"
| "text_words_from acc (c # cs) =
     (if is_space c then (if acc = [] then text_words_from [] cs else rev acc # text_words_from [] cs)
      else text_words_from (c # acc) cs)"

definition text_words :: "string \<Rightarrow> string list" where
  "text_words = text_words_from []"

text \<open>Extraction at the end of a stream leaves the string empty.\<close>

definition word_at :: "string list \<Rightarrow> nat \<Rightarrow> string" where
  "word_at ws k = (if k < length ws then ws ! k else [])"

definition trim :: "string \<Rightarrow> string" where
  "trim s = rev (dropWhile is_space (rev (dropWhile is_space s)))"

definition strip_comment :: "string \<Rightarrow> string" where
  "strip_comment line = trim (takeWhile (\<lambda>c. c \<noteq> CHR ''#'') line)"

definition starts_with :: "string \<Rightarrow> string \<Rightarrow> bool" where
  "starts_with value prefix = (length prefix \<le> length value \<and> take (length prefix) value = prefix)"

section \<open>Words\<close>

definition plain_word :: "string \<Rightarrow> bool" where
  "plain_word w = (w \<noteq> [] \<and> list_all (\<lambda>c. \<not> is_space c) w)"

lemma is_space_blank [simp]: "is_space (CHR '' '')" "is_space newline"
  by (simp_all add: is_space_def newline_def)

lemma text_words_from_plain:
  "list_all (\<lambda>c. \<not> is_space c) w \<Longrightarrow> text_words_from acc (w @ rest) = text_words_from (rev w @ acc) rest"
  by (induction w arbitrary: acc) auto

lemma text_words_plain_end: "plain_word w \<Longrightarrow> text_words w = [w]"
  using text_words_from_plain [of w "[]" "[]"] by (simp add: plain_word_def text_words_def)

lemma text_words_plain: "plain_word w \<Longrightarrow> is_space c \<Longrightarrow> text_words (w @ c # rest) = w # text_words rest"
  using text_words_from_plain [of w "[]" "c # rest"] by (simp add: plain_word_def text_words_def)

lemma text_lines_from_line:
  "newline \<notin> set l \<Longrightarrow> text_lines_from acc (l @ newline # rest) = rev (rev l @ acc) # text_lines_from [] rest"
  by (induction l arbitrary: acc) auto

lemma text_lines_line: "newline \<notin> set l \<Longrightarrow> text_lines (l @ newline # rest) = l # text_lines rest"
  using text_lines_from_line [of l "[]" rest] by (simp add: text_lines_def)

lemma text_lines_Nil [simp]: "text_lines [] = []"
  by (simp add: text_lines_def)

lemma text_lines_append:
  "text_lines (concat (map (\<lambda>l. l @ [newline]) ls) @ rest) = ls @ text_lines rest"
  if "list_all (\<lambda>l. newline \<notin> set l) ls"
  using that by (induction ls) (simp_all add: text_lines_line)

lemma trim_id: "s \<noteq> [] \<Longrightarrow> \<not> is_space (hd s) \<Longrightarrow> \<not> is_space (last s) \<Longrightarrow> trim s = s"
proof -
  assume a: "s \<noteq> []" "\<not> is_space (hd s)" "\<not> is_space (last s)"
  have keep: "xs \<noteq> [] \<Longrightarrow> \<not> is_space (hd xs) \<Longrightarrow> dropWhile is_space xs = xs" for xs :: string by (cases xs) auto
  have "dropWhile is_space s = s" by (rule keep) (use a in simp_all)
  moreover have "dropWhile is_space (rev s) = rev s" by (rule keep) (use a in \<open>simp_all add: hd_rev\<close>)
  ultimately show "trim s = s" by (simp add: trim_def)
qed

lemma strip_comment_id:
  assumes "CHR ''#'' \<notin> set s" and "s \<noteq> []" and "\<not> is_space (hd s)" and "\<not> is_space (last s)"
  shows "strip_comment s = s"
proof -
  have "takeWhile (\<lambda>c. c \<noteq> CHR ''#'') s = s" using assms(1) by (intro takeWhile_eq_all_conv [THEN iffD2]) auto
  then show ?thesis unfolding strip_comment_def by (simp only: trim_id [OF assms(2-4)])
qed

end
