(* ===== verification/Derivation.thy ===== *)
theory Derivation
  imports Text_Lines Registry World
begin

text \<open>
  Derivations (\<open>src/rule/derivation.cpp\<close>): clauses that join edges of the graph on shared variables, the
  parser of their lines, and the evolution step that clears the derived edges and derives them again,
  round by round, up to a bound.  \<open>std::stod\<close>, which reads the weight of a head, is the parameter \<open>stod\<close>.
\<close>

record derive_atom =
  da_from :: string
  da_relation :: string
  da_to :: string

record derive_head =
  dh_from :: string
  dh_relation :: string
  dh_to :: string
  dh_role :: causal_role
  dh_weight :: f64

record derivation =
  dv_name :: string
  dv_body :: "derive_atom list"
  dv_head :: derive_head

definition blank_head :: derive_head where
  "blank_head = \<lparr>dh_from = [], dh_relation = [], dh_to = [], dh_role = Structural, dh_weight = 0x3ff0000000000000\<rparr>"

definition blank_derivation :: derivation where
  "blank_derivation = \<lparr>dv_name = [], dv_body = [], dv_head = blank_head\<rparr>"

section \<open>The parser\<close>

datatype derive_error =
    DeriveIncomplete string
  | DeriveUsage
  | DeriveAtomUsage
  | DeriveClauseFirst
  | DeriveNeedsFrom string
  | DeriveUnbound string string
  | DeriveUnknownClause string
  | DeriveNumber string

record derivation_builder =
  db_draft :: derivation
  db_active :: bool

definition new_derivation_builder :: derivation_builder where
  "new_derivation_builder = \<lparr>db_draft = blank_derivation, db_active = False\<rparr>"

text \<open>The words \<open>link FROM -> TO : RELATION\<close>, and the words after them.\<close>

definition parse_atom :: "string list \<Rightarrow> derive_error + (string \<times> string \<times> string) \<times> string list" where
  "parse_atom ws =
     (if word_at ws 0 \<noteq> ''link'' \<or> word_at ws 1 = [] \<or> word_at ws 2 \<noteq> ''->'' \<or> word_at ws 3 = []
         \<or> word_at ws 4 \<noteq> '':'' \<or> word_at ws 5 = []
      then Inl DeriveAtomUsage
      else Inr ((word_at ws 1, word_at ws 5, word_at ws 3), drop 6 ws))"

definition body_binds :: "derivation \<Rightarrow> string \<Rightarrow> bool" where
  "body_binds d var = list_ex (\<lambda>a. da_from a = var \<or> da_to a = var) (dv_body d)"

definition head_option :: "(string \<Rightarrow> f64 option) \<Rightarrow> derive_head \<Rightarrow> string \<Rightarrow> derive_error + derive_head" where
  "head_option stod head option =
     (if CHR ''='' \<notin> set option then Inr head
      else let key = takeWhile (\<lambda>c. c \<noteq> CHR ''='') option; value = drop (length key + 1) option
           in if key = ''weight'' then
                (case stod value of None \<Rightarrow> Inl (DeriveNumber value) | Some x \<Rightarrow> Inr (head\<lparr>dh_weight := x\<rparr>))
              else if key = ''role'' \<or> key = ''causal_role'' then Inr (head\<lparr>dh_role := causal_role_from_string value\<rparr>)
              else Inr head)"

definition consume_make ::
    "(string \<Rightarrow> f64 option) \<Rightarrow> string list \<Rightarrow> derivation_builder \<Rightarrow> derive_error + derivation option \<times> derivation_builder" where
  "consume_make stod ws b =
     (let draft = db_draft b
      in if dv_body draft = [] then Inl (DeriveNeedsFrom (dv_name draft))
         else res_bind (parse_atom ws) (\<lambda>((from, relation, to), options).
           res_bind (res_fold (head_option stod) (blank_head\<lparr>dh_from := from, dh_relation := relation, dh_to := to\<rparr>) options)
             (\<lambda>head.
               if \<not> body_binds draft (dh_from head) then Inl (DeriveUnbound (dv_name draft) (dh_from head))
               else if \<not> body_binds draft (dh_to head) then Inl (DeriveUnbound (dv_name draft) (dh_to head))
               else Inr (Some (draft\<lparr>dv_head := head\<rparr>), new_derivation_builder))))"

definition consume_derivation_line ::
    "(string \<Rightarrow> f64 option) \<Rightarrow> string \<Rightarrow> derivation_builder \<Rightarrow> derive_error + derivation option \<times> derivation_builder" where
  "consume_derivation_line stod raw b =
     (let line = strip_comment raw; ws = text_words line; command = word_at ws 0; ws = drop 1 ws
      in if line = [] then Inr (None, b)
         else if command = ''derive'' then
           (if db_active b then Inl (DeriveIncomplete (dv_name (db_draft b)))
            else if word_at ws 0 = [] then Inl DeriveUsage
            else Inr (None, \<lparr>db_draft = blank_derivation\<lparr>dv_name := word_at ws 0\<rparr>, db_active = True\<rparr>))
         else if \<not> db_active b then Inl DeriveClauseFirst
         else if command = ''from'' then
           res_bind (parse_atom ws) (\<lambda>((from, relation, to), _).
             let draft = db_draft b; atom = \<lparr>da_from = from, da_relation = relation, da_to = to\<rparr>
             in Inr (None, b\<lparr>db_draft := draft\<lparr>dv_body := dv_body draft @ [atom]\<rparr>\<rparr>))
         else if command = ''make'' then consume_make stod ws b
         else Inl (DeriveUnknownClause command))"

definition parse_derivations_step ::
    "(string \<Rightarrow> f64 option) \<Rightarrow> derivation list \<times> derivation_builder \<Rightarrow> string \<Rightarrow>
     derive_error + derivation list \<times> derivation_builder" where
  "parse_derivations_step stod acc line =
     (let (out, b) = acc
      in res_bind (consume_derivation_line stod line b) (\<lambda>(d, b).
           Inr (case d of None \<Rightarrow> out | Some d \<Rightarrow> out @ [d], b)))"

definition parse_derivations :: "(string \<Rightarrow> f64 option) \<Rightarrow> string \<Rightarrow> derive_error + derivation list" where
  "parse_derivations stod text =
     res_bind (res_fold (parse_derivations_step stod) ([], new_derivation_builder) (text_lines text)) (\<lambda>(out, b).
       if db_active b then Inl (DeriveIncomplete (dv_name (db_draft b))) else Inr out)"

section \<open>Joining the body\<close>

type_synonym fact_index = "string \<Rightarrow> (object_id \<times> object_id) set"
type_synonym bindings = "string \<Rightarrow> object_id option"

definition try_bind :: "string \<Rightarrow> object_id \<Rightarrow> bindings \<Rightarrow> bindings option" where
  "try_bind var i b = (case b var of None \<Rightarrow> Some (b(var \<mapsto> i)) | Some j \<Rightarrow> if j = i then Some b else None)"

text \<open>The pairs the visitor sees, in the order of the ordered sets.\<close>

fun evaluate_body :: "derive_head \<Rightarrow> fact_index \<Rightarrow> derive_atom list \<Rightarrow> bindings \<Rightarrow> (object_id \<times> object_id) list" where
  "evaluate_body head facts [] b =
     (case (b (dh_from head), b (dh_to head)) of (Some f, Some t) \<Rightarrow> [(f, t)] | _ \<Rightarrow> [])"
| "evaluate_body head facts (atom # atoms) b =
     concat (map (\<lambda>(from, to).
       case Option.bind (try_bind (da_from atom) from b) (try_bind (da_to atom) to) of
         None \<Rightarrow> []
       | Some b' \<Rightarrow> evaluate_body head facts atoms b') (sorted_list_of_set (facts (da_relation atom))))"

record derived_edge =
  de_from :: object_id
  de_to :: object_id
  de_relation :: string
  de_role :: causal_role
  de_weight :: f64

definition derived_edge_lt :: "derived_edge \<Rightarrow> derived_edge \<Rightarrow> bool" where
  "derived_edge_lt l r =
     (if de_from l \<noteq> de_from r then de_from l < de_from r
      else if de_to l \<noteq> de_to r then de_to l < de_to r
      else de_relation l < de_relation r)"

definition derive_round :: "derivation list \<Rightarrow> fact_index \<Rightarrow> derived_edge list" where
  "derive_round ds facts = concat (map (\<lambda>d.
     map (\<lambda>(f, t). \<lparr>de_from = f, de_to = t, de_relation = dh_relation (dv_head d), de_role = dh_role (dv_head d),
                    de_weight = dh_weight (dv_head d)\<rparr>)
       (filter (\<lambda>pair. pair \<notin> facts (dh_relation (dv_head d)))
         (evaluate_body (dv_head d) facts (dv_body d) (\<lambda>_. None)))) ds)"

definition insert_edge :: "derived_edge \<Rightarrow> fact_index \<times> derived_edge list \<times> bool \<Rightarrow> fact_index \<times> derived_edge list \<times> bool" where
  "insert_edge edge acc =
     (let (facts, created, changed) = acc; pair = (de_from edge, de_to edge); known = facts (de_relation edge)
      in if pair \<in> known then acc
         else (facts(de_relation edge := insert pair known), created @ [edge], True))"

text \<open>The first argument counts the rounds that are left.\<close>

fun derive_loop :: "nat \<Rightarrow> derivation list \<Rightarrow> fact_index \<Rightarrow> derived_edge list \<Rightarrow> fact_index \<times> derived_edge list" where
  "derive_loop 0 ds facts created = (facts, created)"
| "derive_loop (Suc n) ds facts created =
     (case fold insert_edge (derive_round ds facts) (facts, created, False) of
        (facts, created, changed) \<Rightarrow> if changed then derive_loop n ds facts created else (facts, created))"

section \<open>The evolution step\<close>

definition derived_pointer :: "epoch \<Rightarrow> pointer_snapshot \<Rightarrow> bool" where
  "derived_pointer e p = (ps_law_domain p = ''derivation'' \<and> pointer_active_at p e)"

definition clear_derived :: "world_snapshot \<Rightarrow> delta \<Rightarrow> delta" where
  "clear_derived s d =
     fold (\<lambda>p d. append_body (ExpirePointer (ps_id p)) d) (filter (derived_pointer (sn_epoch s)) (sn_pointers s)) d"

definition seed_facts :: "world_snapshot \<Rightarrow> fact_index" where
  "seed_facts s =
     fold (\<lambda>p facts. let r = snapshot_relation_name s (ps_relation p)
                     in facts(r := insert (ps_from p, ps_to p) (facts r)))
       (filter (\<lambda>p. pointer_active_at p (sn_epoch s) \<and> ps_law_domain p \<noteq> ''derivation'') (sn_pointers s))
       (\<lambda>_. {})"

definition derive_cap :: "world_snapshot \<Rightarrow> nat" where
  "derive_cap s = 64 + length (sn_objects s)"

definition derived_edges :: "derivation list \<Rightarrow> world_snapshot \<Rightarrow> derived_edge list" where
  "derived_edges ds s = sort_by derived_edge_lt (snd (derive_loop (derive_cap s) ds (seed_facts s) []))"

record relation_interner =
  ri_cache :: "(string, relation_type) omap"
  ri_next :: u32
  ri_delta :: delta

definition new_interner :: "world_snapshot \<Rightarrow> delta \<Rightarrow> relation_interner" where
  "new_interner s d = \<lparr>ri_cache = [], ri_next = fold (\<lambda>(i, _) n. max n (i + 1)) (sn_relation_names s) 1, ri_delta = d\<rparr>"

definition intern_name :: "world_snapshot \<Rightarrow> string \<Rightarrow> relation_interner \<Rightarrow> relation_type \<times> relation_interner" where
  "intern_name s name ri =
     (case om_key_of (sn_relation_names s) name of
        Some i \<Rightarrow> (i, ri)
      | None \<Rightarrow>
          (case om_find (ri_cache ri) name of
             Some i \<Rightarrow> (i, ri)
           | None \<Rightarrow>
               let i = ri_next ri
               in (i, \<lparr>ri_cache = om_put name i (ri_cache ri), ri_next = i + 1,
                       ri_delta = append_body (InternRelation name i) (ri_delta ri)\<rparr>)))"

definition link_edge :: "world_snapshot \<Rightarrow> derived_edge \<Rightarrow> relation_interner \<Rightarrow> relation_interner" where
  "link_edge s edge ri =
     (let (relation, ri) = intern_name s (de_relation edge) ri
      in ri\<lparr>ri_delta := append_body (CreatePointer \<lparr>cp_from = RefObject (de_from edge), cp_to = RefObject (de_to edge),
             cp_relation = relation, cp_role = de_role edge, cp_weight = de_weight edge, cp_law_domain = ''derivation'',
             cp_attributes = []\<rparr>) (ri_delta ri)\<rparr>)"

definition derive_step :: "derivation list \<Rightarrow> world_snapshot \<Rightarrow> epoch \<Rightarrow> delta" where
  "derive_step ds s following =
     (if ds = [] then []
      else let created = derived_edges ds s;
               cleared = length (filter (derived_pointer (sn_epoch s)) (sn_pointers s));
               ri = fold (link_edge s) created (new_interner s (clear_derived s []))
           in append_body (EmitEvent (make_event 0 ''world.derive'' [(''step_epoch'', dec_string (unat following))]
                [(''derived'', nat_to_f64 (length created)), (''cleared'', nat_to_f64 cleared)])) (ri_delta ri))"

end
