(* ===== verification/Derivation_Model.thy ===== *)
theory Derivation_Model
  imports Derivation
begin

text \<open>
  The reference meaning of derivations: the least set of edges that contains the authored graph and is
  closed under the clauses.  The edges of the evolution step are sound for it, and complete when the loop
  stops before its bound, which it does whenever it created fewer edges than it had rounds.
\<close>

section \<open>Bodies under a valuation\<close>

definition atom_vars :: "derive_atom list \<Rightarrow> string set" where
  "atom_vars atoms = (\<Union>a \<in> set atoms. {da_from a, da_to a})"

definition satisfies :: "fact_index \<Rightarrow> (string \<Rightarrow> object_id) \<Rightarrow> derive_atom list \<Rightarrow> bool" where
  "satisfies facts v atoms = (\<forall>a \<in> set atoms. (v (da_from a), v (da_to a)) \<in> facts (da_relation a))"

definition extends_bindings :: "(string \<Rightarrow> object_id) \<Rightarrow> bindings \<Rightarrow> bool" where
  "extends_bindings v b = (\<forall>x i. b x = Some i \<longrightarrow> v x = i)"

lemma try_bind_Some: "try_bind x i b = Some b' \<longleftrightarrow> (b x = None \<or> b x = Some i) \<and> b' = b(x \<mapsto> i)"
  by (auto simp: try_bind_def split: option.splits)

lemma extends_bindings_upd:
  "b x = None \<or> b x = Some i \<Longrightarrow> extends_bindings v (b(x \<mapsto> i)) \<longleftrightarrow> v x = i \<and> extends_bindings v b"
  by (auto simp: extends_bindings_def)

lemma extends_compatible: "extends_bindings v b \<Longrightarrow> b x = None \<or> b x = Some (v x)"
  by (cases "b x") (auto simp: extends_bindings_def)

lemma evaluate_body_iff:
  assumes "\<forall>r. finite (facts r)"
  shows "(f, t) \<in> set (evaluate_body head facts atoms b) \<longleftrightarrow>
    (\<exists>v. extends_bindings v b \<and> satisfies facts v atoms \<and> {dh_from head, dh_to head} \<subseteq> dom b \<union> atom_vars atoms
       \<and> f = v (dh_from head) \<and> t = v (dh_to head))"
proof (induction atoms arbitrary: b)
  case Nil
  have "\<exists>v. (\<forall>z k. b z = Some k \<longrightarrow> v z = k) \<and> {x, y} \<subseteq> dom b \<and> i = v x \<and> j = v y"
    if "b x = Some i" "b y = Some j" for x y i j
    using that by (intro exI [of _ "\<lambda>z. the (b z)"]) auto
  then show ?case
    by (force simp: satisfies_def atom_vars_def extends_bindings_def split: option.splits)
next
  case (Cons atom atoms)
  let ?x = "da_from atom" and ?y = "da_to atom"
  let ?b = "\<lambda>p q. b(?x \<mapsto> p, ?y \<mapsto> q)"
  let ?Q = "\<lambda>v. satisfies facts v atoms \<and> {dh_from head, dh_to head} \<subseteq> dom b \<union> atom_vars (atom # atoms)
      \<and> f = v (dh_from head) \<and> t = v (dh_to head)"
  have bind: "Option.bind (try_bind ?x p b) (try_bind ?y q) = Some b' \<longleftrightarrow>
      (b ?x = None \<or> b ?x = Some p) \<and> ((b(?x \<mapsto> p)) ?y = None \<or> (b(?x \<mapsto> p)) ?y = Some q) \<and> b' = ?b p q" for p q b'
    by (auto simp: bind_eq_Some_conv try_bind_Some)
  have "(f, t) \<in> set (evaluate_body head facts (atom # atoms) b) \<longleftrightarrow>
      (\<exists>p q b'. (p, q) \<in> facts (da_relation atom) \<and> Option.bind (try_bind ?x p b) (try_bind ?y q) = Some b'
        \<and> (f, t) \<in> set (evaluate_body head facts atoms b'))"
    using assms by (force split: option.splits)
  then have mem: "(f, t) \<in> set (evaluate_body head facts (atom # atoms) b) \<longleftrightarrow>
      (\<exists>p q. (p, q) \<in> facts (da_relation atom) \<and> (b ?x = None \<or> b ?x = Some p)
        \<and> ((b(?x \<mapsto> p)) ?y = None \<or> (b(?x \<mapsto> p)) ?y = Some q)
        \<and> (f, t) \<in> set (evaluate_body head facts atoms (?b p q)))"
    unfolding bind by blast
  have dom: "dom (?b p q) \<union> atom_vars atoms = dom b \<union> atom_vars (atom # atoms)" for p q
    by (auto simp: atom_vars_def)
  show ?case
  proof
    assume "(f, t) \<in> set (evaluate_body head facts (atom # atoms) b)"
    then obtain p q v where pq: "(p, q) \<in> facts (da_relation atom)" "b ?x = None \<or> b ?x = Some p"
        "(b(?x \<mapsto> p)) ?y = None \<or> (b(?x \<mapsto> p)) ?y = Some q" and v: "extends_bindings v (?b p q)" "?Q v"
      unfolding mem Cons.IH dom by blast
    have "v ?y = q \<and> v ?x = p \<and> extends_bindings v b"
      using v(1) pq(2,3) extends_bindings_upd [of "b(?x \<mapsto> p)" ?y q v] extends_bindings_upd [of b ?x p v] by blast
    then show "\<exists>v. extends_bindings v b \<and> satisfies facts v (atom # atoms)
        \<and> {dh_from head, dh_to head} \<subseteq> dom b \<union> atom_vars (atom # atoms) \<and> f = v (dh_from head) \<and> t = v (dh_to head)"
      using v(2) pq(1) by (auto simp: satisfies_def)
  next
    assume "\<exists>v. extends_bindings v b \<and> satisfies facts v (atom # atoms)
        \<and> {dh_from head, dh_to head} \<subseteq> dom b \<union> atom_vars (atom # atoms) \<and> f = v (dh_from head) \<and> t = v (dh_to head)"
    then obtain v where v: "extends_bindings v b" "?Q v" "(v ?x, v ?y) \<in> facts (da_relation atom)"
      by (auto simp: satisfies_def)
    have x: "b ?x = None \<or> b ?x = Some (v ?x)" by (rule extends_compatible [OF v(1)])
    have vx: "extends_bindings v (b(?x \<mapsto> v ?x))" using extends_bindings_upd [of b ?x "v ?x" v] x v(1) by blast
    have y: "(b(?x \<mapsto> v ?x)) ?y = None \<or> (b(?x \<mapsto> v ?x)) ?y = Some (v ?y)" by (rule extends_compatible [OF vx])
    have "extends_bindings v (?b (v ?x) (v ?y))" using extends_bindings_upd [of "b(?x \<mapsto> v ?x)" ?y "v ?y" v] y vx by blast
    then show "(f, t) \<in> set (evaluate_body head facts (atom # atoms) b)"
      unfolding mem Cons.IH dom using v x y by blast
  qed
qed

section \<open>The least closed graph\<close>

definition head_bound :: "derivation \<Rightarrow> bool" where
  "head_bound d = ({dh_from (dv_head d), dh_to (dv_head d)} \<subseteq> atom_vars (dv_body d))"

inductive derivable :: "derivation list \<Rightarrow> fact_index \<Rightarrow> string \<Rightarrow> object_id \<Rightarrow> object_id \<Rightarrow> bool" for ds base where
  authored: "(f, t) \<in> base r \<Longrightarrow> derivable ds base r f t"
| clause: "d \<in> set ds \<Longrightarrow> head_bound d \<Longrightarrow>
    (\<forall>a \<in> set (dv_body d). derivable ds base (da_relation a) (v (da_from a)) (v (da_to a))) \<Longrightarrow>
    derivable ds base (dh_relation (dv_head d)) (v (dh_from (dv_head d))) (v (dh_to (dv_head d)))"

definition edge_pairs :: "string \<Rightarrow> derived_edge list \<Rightarrow> (object_id \<times> object_id) set" where
  "edge_pairs r es = {(de_from e, de_to e) |e. e \<in> set es \<and> de_relation e = r}"

definition edge_key :: "derived_edge \<Rightarrow> object_id \<times> object_id \<times> string" where
  "edge_key e = (de_from e, de_to e, de_relation e)"

lemma edge_pairs_simps [simp]:
  "edge_pairs r [] = {}" "edge_pairs r (es @ es') = edge_pairs r es \<union> edge_pairs r es'"
  "edge_pairs r (e # es) = (if de_relation e = r then insert (de_from e, de_to e) (edge_pairs r es) else edge_pairs r es)"
  by (auto simp: edge_pairs_def)

lemma edge_pairs_iff: "(f, t) \<in> edge_pairs r es \<longleftrightarrow> (f, t, r) \<in> edge_key ` set es"
  by (auto simp: edge_pairs_def edge_key_def image_def)

lemma derive_round_iff:
  assumes "\<forall>r. finite (facts r)"
  shows "(f, t) \<in> edge_pairs r (derive_round ds facts) \<longleftrightarrow> (f, t) \<notin> facts r \<and>
    (\<exists>d \<in> set ds. \<exists>v. head_bound d \<and> satisfies facts v (dv_body d) \<and> r = dh_relation (dv_head d)
       \<and> f = v (dh_from (dv_head d)) \<and> t = v (dh_to (dv_head d)))"
proof -
  have "(f, t) \<in> set (evaluate_body (dv_head d) facts (dv_body d) (\<lambda>_. None)) \<longleftrightarrow>
      (\<exists>v. head_bound d \<and> satisfies facts v (dv_body d) \<and> f = v (dh_from (dv_head d)) \<and> t = v (dh_to (dv_head d)))" for d
    unfolding evaluate_body_iff [OF assms] by (auto simp: head_bound_def extends_bindings_def)
  moreover have "(f, t) \<in> edge_pairs r (derive_round ds facts) \<longleftrightarrow>
      (\<exists>d \<in> set ds. r = dh_relation (dv_head d) \<and> (f, t) \<notin> facts r
        \<and> (f, t) \<in> set (evaluate_body (dv_head d) facts (dv_body d) (\<lambda>_. None)))"
    by (force simp: edge_pairs_def derive_round_def)
  ultimately show ?thesis by blast
qed

lemma derive_round_Nil: "derive_round ds facts = [] \<longleftrightarrow> (\<forall>r. edge_pairs r (derive_round ds facts) = {})"
  by (cases "derive_round ds facts") auto

section \<open>Inserting a round\<close>

lemma fold_insert_edge:
  "fold insert_edge es (facts, created, changed) = (facts', created', changed') \<Longrightarrow>
     facts' = (\<lambda>r. facts r \<union> edge_pairs r es)
     \<and> (\<exists>new. created' = created @ new \<and> (\<forall>r. edge_pairs r new = edge_pairs r es - facts r)
          \<and> distinct (map edge_key new) \<and> (changed' \<longleftrightarrow> changed \<or> new \<noteq> []))"
proof (induction es arbitrary: facts created changed)
  case Nil
  then show ?case by auto
next
  case (Cons e es)
  let ?k = "(de_from e, de_to e)" and ?r = "de_relation e"
  show ?case
  proof (cases "?k \<in> facts ?r")
    case True
    then have step: "insert_edge e (facts, created, changed) = (facts, created, changed)"
      by (simp add: insert_edge_def)
    then have "fold insert_edge es (facts, created, changed) = (facts', created', changed')"
      using Cons.prems by simp
    from Cons.IH [OF this] True show ?thesis by (auto simp: fun_eq_iff)
  next
    case False
    let ?facts = "facts(?r := insert ?k (facts ?r))"
    have "insert_edge e (facts, created, changed) = (?facts, created @ [e], True)"
      using False by (simp add: insert_edge_def Let_def)
    then have "fold insert_edge es (?facts, created @ [e], True) = (facts', created', changed')"
      using Cons.prems by simp
    from Cons.IH [OF this] obtain new where new: "facts' = (\<lambda>r. ?facts r \<union> edge_pairs r es)"
        "created' = created @ e # new" "\<And>r. edge_pairs r new = edge_pairs r es - ?facts r"
        "distinct (map edge_key new)" "changed'"
      by auto
    have "edge_key e \<notin> edge_key ` set new"
    proof
      assume "edge_key e \<in> edge_key ` set new"
      then have "?k \<in> edge_pairs ?r new" by (simp add: edge_pairs_iff edge_key_def)
      then show False by (simp add: new(3))
    qed
    then have "distinct (map edge_key (e # new))" using new(4) by simp
    moreover have "edge_pairs r (e # new) = edge_pairs r (e # es) - facts r" for r
      using False new(3) [of r] by auto
    moreover have "facts' = (\<lambda>r. facts r \<union> edge_pairs r (e # es))"
      by (auto simp: new(1) fun_eq_iff)
    ultimately show ?thesis using new(2,5) by (intro conjI exI [of _ "e # new"]) simp_all
  qed
qed

text \<open>What the loop keeps: the facts are the authored ones and the created edges, each created once.\<close>

definition loop_inv :: "derivation list \<Rightarrow> fact_index \<Rightarrow> fact_index \<Rightarrow> derived_edge list \<Rightarrow> bool" where
  "loop_inv ds base facts created =
     ((\<forall>r. finite (base r)) \<and> facts = (\<lambda>r. base r \<union> edge_pairs r created)
      \<and> (\<forall>r. edge_pairs r created \<inter> base r = {}) \<and> distinct (map edge_key created)
      \<and> (\<forall>r f t. (f, t) \<in> facts r \<longrightarrow> derivable ds base r f t))"

lemma finite_edge_pairs [simp]: "finite (edge_pairs r es)"
proof -
  have "edge_pairs r es \<subseteq> (\<lambda>e. (de_from e, de_to e)) ` set es" by (auto simp: edge_pairs_def)
  then show ?thesis by (rule finite_subset) simp
qed

lemma loop_inv_round:
  assumes inv: "loop_inv ds base facts created"
    and step: "fold insert_edge (derive_round ds facts) (facts, created, False) = (facts', created', changed)"
  shows "loop_inv ds base facts' created'" and "changed \<Longrightarrow> length created < length created'"
    and "\<not> changed \<Longrightarrow> facts' = facts \<and> created' = created \<and> derive_round ds facts = []"
proof -
  let ?es = "derive_round ds facts"
  have fin: "\<forall>r. finite (facts r)" using inv by (simp add: loop_inv_def)
  obtain new where new: "facts' = (\<lambda>r. facts r \<union> edge_pairs r ?es)" "created' = created @ new"
      "\<And>r. edge_pairs r new = edge_pairs r ?es - facts r" "distinct (map edge_key new)" "changed \<longleftrightarrow> new \<noteq> []"
    using fold_insert_edge [OF step] by auto
  have fresh: "edge_pairs r ?es \<inter> facts r = {}" for r using derive_round_iff [OF fin] by auto
  then have same: "edge_pairs r new = edge_pairs r ?es" for r using new(3) by auto
  have deriv: "derivable ds base r f t" if pair: "(f, t) \<in> edge_pairs r ?es" for r f t
  proof -
    obtain d v where "d \<in> set ds" "head_bound d" "satisfies facts v (dv_body d)" "r = dh_relation (dv_head d)"
        "f = v (dh_from (dv_head d))" "t = v (dh_to (dv_head d))"
      using pair unfolding derive_round_iff [OF fin] by blast
    then show ?thesis using inv by (auto intro!: derivable.clause simp: loop_inv_def satisfies_def)
  qed
  have parts: "\<forall>r. finite (base r)" "\<And>r. facts r = base r \<union> edge_pairs r created"
      "\<And>r. edge_pairs r created \<inter> base r = {}" "distinct (map edge_key created)"
      "\<And>r f t. (f, t) \<in> facts r \<Longrightarrow> derivable ds base r f t"
    using inv by (auto simp: loop_inv_def)
  have "(f, t, r) \<notin> edge_key ` set created \<inter> edge_key ` set new" for f t r
    using fresh [of r] same [of r] parts(2) [of r] by (auto simp flip: edge_pairs_iff)
  then have "edge_key ` set created \<inter> edge_key ` set new = {}" by (metis disjoint_iff prod_cases3 IntI)
  then have 1: "distinct (map edge_key created')" using parts(4) new(4) by (simp add: new(2))
  have 2: "facts' = (\<lambda>r. base r \<union> edge_pairs r created')"
    by (simp add: new(1,2) same parts(2) fun_eq_iff Un_assoc)
  have 3: "\<forall>r. edge_pairs r created' \<inter> base r = {}"
    using fresh parts(2,3) by (fastforce simp: new(2) same)
  have "\<forall>r f t. (f, t) \<in> facts' r \<longrightarrow> derivable ds base r f t"
    using parts(5) deriv by (auto simp: new(1))
  then show "loop_inv ds base facts' created'" using parts(1) 1 2 3 unfolding loop_inv_def by blast
  show "changed \<Longrightarrow> length created < length created'" using new(2,5) by simp
  show "\<not> changed \<Longrightarrow> facts' = facts \<and> created' = created \<and> ?es = []"
    using new same derive_round_Nil [of ds facts] by auto
qed

lemma derive_loop_props:
  assumes "loop_inv ds base facts created" and "derive_loop n ds facts created = (facts', created')"
  shows "loop_inv ds base facts' created' \<and> (derive_round ds facts' = [] \<or> length created + n \<le> length created')"
  using assms
proof (induction n arbitrary: facts created)
  case 0
  then show ?case by simp
next
  case (Suc n)
  obtain facts1 created1 changed
    where step: "fold insert_edge (derive_round ds facts) (facts, created, False) = (facts1, created1, changed)"
    by (metis prod_cases3)
  note inv = loop_inv_round [OF Suc.prems(1) step]
  show ?case
  proof (cases changed)
    case True
    then show ?thesis using Suc.IH [OF inv(1)] Suc.prems(2) inv(2) by (auto simp: step)
  next
    case False
    then show ?thesis using inv(1,3) Suc.prems(2) by (simp add: step)
  qed
qed

lemma closed_complete:
  assumes "\<forall>r. finite (facts r)" and "\<And>r. base r \<subseteq> facts r" and "derive_round ds facts = []"
  shows "derivable ds base r f t \<Longrightarrow> (f, t) \<in> facts r"
proof (induction rule: derivable.induct)
  case (clause d v)
  then have "satisfies facts v (dv_body d)" by (auto simp: satisfies_def)
  moreover have "(v (dh_from (dv_head d)), v (dh_to (dv_head d))) \<notin> edge_pairs (dh_relation (dv_head d)) (derive_round ds facts)"
    using assms(3) by simp
  ultimately show ?case using clause.hyps unfolding derive_round_iff [OF assms(1)] by blast
qed (use assms(2) in blast)

section \<open>The edges of the step\<close>

lemma fold_seed:
  "fold (\<lambda>p facts. let r = n p in facts(r := insert (ps_from p, ps_to p) (facts r))) ps facts r
     = facts r \<union> {(ps_from p, ps_to p) |p. p \<in> set ps \<and> n p = r}"
  for facts :: fact_index
  by (induction ps arbitrary: facts) (auto simp: Let_def)

lemma seed_facts_iff:
  "(f, t) \<in> seed_facts s r \<longleftrightarrow> (\<exists>p \<in> set (sn_pointers s). pointer_active_at p (sn_epoch s)
     \<and> ps_law_domain p \<noteq> ''derivation'' \<and> snapshot_relation_name s (ps_relation p) = r \<and> ps_from p = f \<and> ps_to p = t)"
  unfolding seed_facts_def fold_seed by auto

lemma finite_seed: "finite (seed_facts s r)"
proof -
  have "seed_facts s r \<subseteq> (\<lambda>p. (ps_from p, ps_to p)) ` set (sn_pointers s)" by (auto simp: seed_facts_iff)
  then show ?thesis by (rule finite_subset) simp
qed

lemma derived_edges_props:
  shows "e \<in> set (derived_edges ds s) \<Longrightarrow> derivable ds (seed_facts s) (de_relation e) (de_from e) (de_to e)
      \<and> (de_from e, de_to e) \<notin> seed_facts s (de_relation e)"
    and "distinct (map edge_key (derived_edges ds s))"
    and "length (derived_edges ds s) < derive_cap s \<Longrightarrow> derivable ds (seed_facts s) r f t \<Longrightarrow>
      (f, t) \<in> seed_facts s r \<or> (f, t) \<in> edge_pairs r (derived_edges ds s)"
proof -
  obtain facts created where loop: "derive_loop (derive_cap s) ds (seed_facts s) [] = (facts, created)" by (meson surj_pair)
  have "loop_inv ds (seed_facts s) (seed_facts s) []"
    by (auto simp: loop_inv_def finite_seed intro: derivable.authored)
  from derive_loop_props [OF this loop] have inv: "loop_inv ds (seed_facts s) facts created"
    and stop: "derive_round ds facts = [] \<or> derive_cap s \<le> length created" by simp_all
  have edges: "set (derived_edges ds s) = set created" "mset (derived_edges ds s) = mset created"
      "length (derived_edges ds s) = length created"
    by (simp_all add: derived_edges_def loop)
  have pairs: "edge_pairs r (derived_edges ds s) = edge_pairs r created" for r
    by (simp add: edge_pairs_def edges)
  show "derivable ds (seed_facts s) (de_relation e) (de_from e) (de_to e)
      \<and> (de_from e, de_to e) \<notin> seed_facts s (de_relation e)" if "e \<in> set (derived_edges ds s)" for e
  proof -
    have "(de_from e, de_to e) \<in> edge_pairs (de_relation e) created" using that by (auto simp: edge_pairs_def edges)
    then show ?thesis using inv by (auto simp: loop_inv_def)
  qed
  have "mset (map edge_key (derived_edges ds s)) = mset (map edge_key created)" by (simp add: edges)
  then show "distinct (map edge_key (derived_edges ds s))" using inv mset_eq_imp_distinct_iff unfolding loop_inv_def by blast
  assume "length (derived_edges ds s) < derive_cap s" and d: "derivable ds (seed_facts s) r f t"
  then have "derive_round ds facts = []" using stop by (simp add: edges)
  then have "(f, t) \<in> facts r"
    using inv by (intro closed_complete [OF _ _ _ d]) (auto simp: loop_inv_def)
  then show "(f, t) \<in> seed_facts s r \<or> (f, t) \<in> edge_pairs r (derived_edges ds s)"
    using inv by (auto simp: loop_inv_def pairs)
qed

end
