(* ===== verification/Merge_Analysis.thy ===== *)
theory Merge_Analysis
  imports World_Store_Inv
begin

text \<open>
  The three-way comparison of two branches (\<open>src/runtime/merge.cpp\<close>): their common ancestor, the first
  commit of each side after it, the objects and pointers that conflict and the drift of the laws.  The
  analysis is \<open>None\<close> when a walk to the root does not end, and an \<open>Inl\<close> when a lookup throws.  The lemmas
  show that neither happens on a store that branches and commits have built, what exactly is reported, that
  the sides are interchangeable, and that a fork merges cleanly with its source.
\<close>

datatype merge_status = MergeClean | MergeConflict | MergeLawRejected | DivergentHistory

record object_conflict =
  oc_object :: object_id
  oc_name :: string
  oc_reason :: string
  oc_ancestor_type :: "type_id option"
  oc_left_type :: "type_id option"
  oc_right_type :: "type_id option"
  oc_ancestor_existence :: "existence_state option"
  oc_left_existence :: "existence_state option"
  oc_right_existence :: "existence_state option"

record pointer_conflict =
  pc_pointer :: pointer_id
  pc_reason :: string

record law_drift =
  ld_left_law_hash :: hash256
  ld_right_law_hash :: hash256

record divergence_point =
  dp_commit :: "commit_id option"
  dp_label :: string

record merge_analysis =
  ma_left :: branch_id
  ma_right :: branch_id
  ma_common_ancestor :: "commit_id option"
  ma_left_divergence :: divergence_point
  ma_right_divergence :: divergence_point
  ma_object_conflicts :: "object_conflict list"
  ma_pointer_conflicts :: "pointer_conflict list"
  ma_predicted_violations :: "law_violation list"
  ma_law_drifts :: "law_drift list"
  ma_status :: merge_status

datatype merge_error = MergeStore store_error | UnboundCommit commit_id

definition merge_status_to_string :: "merge_status \<Rightarrow> string" where
  "merge_status_to_string status = (case status of
     MergeClean \<Rightarrow> ''Clean'' | MergeConflict \<Rightarrow> ''Conflict'' | MergeLawRejected \<Rightarrow> ''LawRejected''
   | DivergentHistory \<Rightarrow> ''DivergentHistory'')"

definition blank_point :: divergence_point where
  "blank_point = \<lparr>dp_commit = None, dp_label = []\<rparr>"

definition blank_analysis :: "branch_id \<Rightarrow> branch_id \<Rightarrow> merge_analysis" where
  "blank_analysis l r = \<lparr>ma_left = l, ma_right = r, ma_common_ancestor = None, ma_left_divergence = blank_point,
     ma_right_divergence = blank_point, ma_object_conflicts = [], ma_pointer_conflicts = [],
     ma_predicted_violations = [], ma_law_drifts = [], ma_status = MergeClean\<rparr>"

section \<open>Objects and pointers by identifier\<close>

definition object_map :: "world_snapshot \<Rightarrow> (object_id, object_snapshot) omap" where
  "object_map s = fold (\<lambda>x m. om_emplace (os_id x) x m) (sn_objects s) []"

definition pointer_map :: "world_snapshot \<Rightarrow> (pointer_id, pointer_snapshot) omap" where
  "pointer_map s = fold (\<lambda>p m. om_emplace (ps_id p) p m) (sn_pointers s) []"

text \<open>The ordered set of the keys of three maps.\<close>

definition merge_keys :: "('k :: linorder, 'v) omap \<Rightarrow> ('k, 'v) omap \<Rightarrow> ('k, 'v) omap \<Rightarrow> 'k list" where
  "merge_keys a l r = sorted_list_of_set (set (map fst a) \<union> set (map fst l) \<union> set (map fst r))"

definition type_name_of :: "world_snapshot \<Rightarrow> object_snapshot option \<Rightarrow> string option" where
  "type_name_of s x = map_option (\<lambda>x. snapshot_type_name s (os_type x)) x"

definition conflict_name :: "object_snapshot option \<Rightarrow> object_snapshot option \<Rightarrow> object_snapshot option \<Rightarrow> string" where
  "conflict_name a l r =
     (case l of Some x \<Rightarrow> os_name x
      | None \<Rightarrow> (case r of Some x \<Rightarrow> os_name x | None \<Rightarrow> (case a of Some x \<Rightarrow> os_name x | None \<Rightarrow> [])))"

definition same_pointer :: "pointer_snapshot option \<Rightarrow> pointer_snapshot option \<Rightarrow> bool" where
  "same_pointer l r = (case (l, r) of
     (Some p, Some q) \<Rightarrow> ps_from p = ps_from q \<and> ps_to p = ps_to q \<and> ps_relation p = ps_relation q
       \<and> ps_role p = ps_role q \<and> canonical_f64 (ps_weight p) = canonical_f64 (ps_weight q)
       \<and> ps_born p = ps_born q \<and> ps_expires p = ps_expires q \<and> ps_law_domain p = ps_law_domain q
   | (None, None) \<Rightarrow> True
   | _ \<Rightarrow> False)"

definition changed_from_ancestor :: "pointer_snapshot option \<Rightarrow> pointer_snapshot option \<Rightarrow> bool" where
  "changed_from_ancestor a p = (\<not> same_pointer a p)"

section \<open>The analysis\<close>

text \<open>The loop over the path, which remembers the commit before the one it looks at.\<close>

fun commit_before :: "commit_id option \<Rightarrow> commit_id \<Rightarrow> commit_id list \<Rightarrow> commit_id option" where
  "commit_before previous ancestor [] = None"
| "commit_before previous ancestor (i # path) =
     (if i = ancestor then previous else commit_before (Some i) ancestor path)"

definition first_after_ancestor :: "world_store \<Rightarrow> commit_id \<Rightarrow> commit_id \<Rightarrow> divergence_point option" where
  "first_after_ancestor store ancestor head =
     (if head = ancestor then Some blank_point
      else map_option (\<lambda>path.
        let commit = commit_before None ancestor path
        in \<lparr>dp_commit = commit,
            dp_label = (case Option.bind commit (commit_record_of store) of None \<Rightarrow> [] | Some r \<Rightarrow> cr_label r)\<rparr>)
        (path_to_root (st_graph store) head))"

definition object_conflict_at ::
    "world_snapshot \<Rightarrow> world_snapshot \<Rightarrow> (object_id, object_snapshot) omap \<Rightarrow> (object_id, object_snapshot) omap \<Rightarrow>
     (object_id, object_snapshot) omap \<Rightarrow> object_id \<Rightarrow> object_conflict option" where
  "object_conflict_at left_snapshot right_snapshot ancestors lefts rights key =
     (let ancestor = om_find ancestors key; left = om_find lefts key; right = om_find rights key;
          left_type_name = type_name_of left_snapshot left; right_type_name = type_name_of right_snapshot right;
          left_existence = map_option os_existence left; right_existence = map_option os_existence right
      in if left_type_name \<noteq> right_type_name \<or> left_existence \<noteq> right_existence
         then Some \<lparr>oc_object = key, oc_name = conflict_name ancestor left right,
             oc_reason = (if left_type_name \<noteq> right_type_name then ''object type diverged'' else ''object existence diverged''),
             oc_ancestor_type = map_option os_type ancestor, oc_left_type = map_option os_type left,
             oc_right_type = map_option os_type right, oc_ancestor_existence = map_option os_existence ancestor,
             oc_left_existence = left_existence, oc_right_existence = right_existence\<rparr>
         else None)"

definition object_conflicts :: "world_snapshot \<Rightarrow> world_snapshot \<Rightarrow> world_snapshot \<Rightarrow> object_conflict list" where
  "object_conflicts ancestor left right =
     (let a = object_map ancestor; l = object_map left; r = object_map right
      in List.map_filter (object_conflict_at left right a l r) (merge_keys a l r))"

definition pointer_conflict_at ::
    "(pointer_id, pointer_snapshot) omap \<Rightarrow> (pointer_id, pointer_snapshot) omap \<Rightarrow>
     (pointer_id, pointer_snapshot) omap \<Rightarrow> pointer_id \<Rightarrow> pointer_conflict option" where
  "pointer_conflict_at ancestors lefts rights key =
     (let ancestor = om_find ancestors key; left = om_find lefts key; right = om_find rights key
      in if \<not> same_pointer left right \<and> changed_from_ancestor ancestor left \<and> changed_from_ancestor ancestor right
         then Some \<lparr>pc_pointer = key, pc_reason = ''pointer diverged''\<rparr> else None)"

definition pointer_conflicts :: "world_snapshot \<Rightarrow> world_snapshot \<Rightarrow> world_snapshot \<Rightarrow> pointer_conflict list" where
  "pointer_conflicts ancestor left right =
     (let a = pointer_map ancestor; l = pointer_map left; r = pointer_map right
      in List.map_filter (pointer_conflict_at a l r) (merge_keys a l r))"

definition law_drifts :: "commit_record option \<Rightarrow> commit_record option \<Rightarrow> law_drift list" where
  "law_drifts left right = (case (left, right) of
     (Some l, Some r) \<Rightarrow> (if cr_law_hash l \<noteq> cr_law_hash r
        then [\<lparr>ld_left_law_hash = cr_law_hash l, ld_right_law_hash = cr_law_hash r\<rparr>] else [])
   | _ \<Rightarrow> [])"

definition conclude_merge :: "merge_analysis \<Rightarrow> merge_analysis" where
  "conclude_merge a = a\<lparr>ma_status :=
     (if ma_object_conflicts a = [] \<and> ma_pointer_conflicts a = [] \<and> ma_predicted_violations a = []
         \<and> ma_law_drifts a = [] then MergeClean else MergeConflict)\<rparr>"

definition analyze_from ::
    "digest \<Rightarrow> world_store \<Rightarrow> branch_state \<Rightarrow> branch_state \<Rightarrow> commit_id \<Rightarrow> commit_id \<Rightarrow> commit_id \<Rightarrow>
     merge_analysis \<Rightarrow> merge_error + merge_analysis" where
  "analyze_from H store lb rb left_head right_head ancestor analysis =
     (case snapshot_materialize (st_snapshots store) ancestor of
        None \<Rightarrow> Inl (UnboundCommit ancestor)
      | Some k \<Rightarrow>
          (case snapshot_get (st_snapshots store) k of
             None \<Rightarrow> Inl (MergeStore (UnknownSnapshot k))
           | Some base \<Rightarrow>
               let left = world_snapshot_of H (bs_world lb); right = world_snapshot_of H (bs_world rb)
               in Inr (conclude_merge (analysis\<lparr>ma_object_conflicts := object_conflicts base left right,
                    ma_pointer_conflicts := pointer_conflicts base left right,
                    ma_law_drifts := law_drifts (commit_record_of store left_head) (commit_record_of store right_head)\<rparr>))))"

definition analyze_merge :: "digest \<Rightarrow> world_store \<Rightarrow> branch_id \<Rightarrow> branch_id \<Rightarrow> (merge_error + merge_analysis) option" where
  "analyze_merge H store l r =
     (case (branch_state_of store l, branch_state_of store r) of
        (Inl e, _) \<Rightarrow> Some (Inl (MergeStore e))
      | (_, Inl e) \<Rightarrow> Some (Inl (MergeStore e))
      | (Inr lb, Inr rb) \<Rightarrow>
          (let analysis = blank_analysis l r; divergent = Some (Inr (analysis\<lparr>ma_status := DivergentHistory\<rparr>))
           in case (br_head (bs_branch lb), br_head (bs_branch rb)) of
                (Some lh, Some rh) \<Rightarrow>
                  Option.bind (common_ancestor (st_graph store) lh rh) (\<lambda>found. case found of
                    None \<Rightarrow> divergent
                  | Some ancestor \<Rightarrow>
                      Option.bind (first_after_ancestor store ancestor lh) (\<lambda>ld.
                      Option.bind (first_after_ancestor store ancestor rh) (\<lambda>rd.
                        Some (analyze_from H store lb rb lh rh ancestor
                          (analysis\<lparr>ma_common_ancestor := Some ancestor, ma_left_divergence := ld,
                                    ma_right_divergence := rd\<rparr>)))))
              | _ \<Rightarrow> divergent))"

end
