(* ===== verification/Merge_Props.thy ===== *)
theory Merge_Props
  imports Merge_Analysis
begin

text \<open>
  What a merge analysis reports: the identifiers in conflict are exactly those on which the two worlds
  disagree, the two sides are interchangeable, and on the stores of a program the analysis has a result.
\<close>

section \<open>The maps and their keys\<close>

lemma find_fold_emplace:
  "om_find (fold (\<lambda>x m. om_emplace (f x) x m) xs m) k =
     (case om_find m k of Some v \<Rightarrow> Some v | None \<Rightarrow> List.find (\<lambda>x. f x = k) xs)"
  by (induction xs arbitrary: m) (auto simp: om_find_emplace split: option.split)

lemma find_object_map [simp]: "om_find (object_map s) i = snapshot_object s i"
  by (simp add: object_map_def snapshot_object_def find_fold_emplace)

lemma find_pointer_map [simp]: "om_find (pointer_map s) i = snapshot_pointer s i"
  by (simp add: pointer_map_def snapshot_pointer_def find_fold_emplace)

lemma set_merge_keys:
  "set (merge_keys a l r) = {k. om_find a k \<noteq> None \<or> om_find l k \<noteq> None \<or> om_find r k \<noteq> None}"
  by (auto simp: merge_keys_def om_find_None_iff)

lemma map_filter_tagged:
  assumes "\<And>k x. f k = Some x \<Longrightarrow> tag x = k" and "\<And>k. k \<notin> set ks \<Longrightarrow> f k = None"
  shows "tag ` set (List.map_filter f ks) = {k. f k \<noteq> None}"
  using assms by (force simp: List.map_filter_def image_iff)

section \<open>What conflicts\<close>

definition objects_agree :: "world_snapshot \<Rightarrow> world_snapshot \<Rightarrow> object_id \<Rightarrow> bool" where
  "objects_agree left right i =
     (type_name_of left (snapshot_object left i) = type_name_of right (snapshot_object right i)
      \<and> map_option os_existence (snapshot_object left i) = map_option os_existence (snapshot_object right i))"

definition pointers_agree :: "world_snapshot \<Rightarrow> world_snapshot \<Rightarrow> world_snapshot \<Rightarrow> pointer_id \<Rightarrow> bool" where
  "pointers_agree base left right i =
     (same_pointer (snapshot_pointer left i) (snapshot_pointer right i)
      \<or> same_pointer (snapshot_pointer base i) (snapshot_pointer left i)
      \<or> same_pointer (snapshot_pointer base i) (snapshot_pointer right i))"

lemma same_pointer_refl [simp]: "same_pointer p p"
  by (auto simp: same_pointer_def split: option.split)

lemma same_pointer_sym: "same_pointer p q = same_pointer q p"
  by (auto simp: same_pointer_def split: option.split)

lemma objects_agree_refl [simp]: "objects_agree s s i"
  by (simp add: objects_agree_def)

lemma object_conflicts_ids: "oc_object ` set (object_conflicts base left right) = {i. \<not> objects_agree left right i}"
proof -
  let ?f = "object_conflict_at left right (object_map base) (object_map left) (object_map right)"
  have None: "?f i = None \<longleftrightarrow> objects_agree left right i" for i
    by (simp add: object_conflict_at_def objects_agree_def Let_def)
  have tag: "oc_object x = i" if "?f i = Some x" for i x
    using that by (auto simp: object_conflict_at_def Let_def split: if_splits)
  have "?f i = None" if "i \<notin> set (merge_keys (object_map base) (object_map left) (object_map right))" for i
    unfolding None objects_agree_def using that by (simp add: set_merge_keys type_name_of_def)
  then show ?thesis
    using map_filter_tagged [of ?f oc_object, OF tag] None by (simp add: object_conflicts_def Let_def)
qed

lemma pointer_conflicts_ids: "pc_pointer ` set (pointer_conflicts base left right) = {i. \<not> pointers_agree base left right i}"
proof -
  let ?f = "pointer_conflict_at (pointer_map base) (pointer_map left) (pointer_map right)"
  have None: "?f i = None \<longleftrightarrow> pointers_agree base left right i" for i
    by (auto simp: pointer_conflict_at_def pointers_agree_def changed_from_ancestor_def Let_def)
  have tag: "pc_pointer x = i" if "?f i = Some x" for i x
    using that by (auto simp: pointer_conflict_at_def Let_def split: if_splits)
  have "?f i = None" if "i \<notin> set (merge_keys (pointer_map base) (pointer_map left) (pointer_map right))" for i
    unfolding None pointers_agree_def using that by (simp add: set_merge_keys same_pointer_def)
  then show ?thesis
    using map_filter_tagged [of ?f pc_pointer, OF tag] None by (simp add: pointer_conflicts_def Let_def)
qed

lemma no_object_conflicts: "object_conflicts base left right = [] \<longleftrightarrow> (\<forall>i. objects_agree left right i)"
  using object_conflicts_ids [of base left right] by auto

lemma no_pointer_conflicts: "pointer_conflicts base left right = [] \<longleftrightarrow> (\<forall>i. pointers_agree base left right i)"
  using pointer_conflicts_ids [of base left right] by auto

lemma merge_keys_swap: "merge_keys a r l = merge_keys a l r"
  by (simp add: merge_keys_def Un_ac)

lemma pointer_conflicts_swap: "pointer_conflicts base right left = pointer_conflicts base left right"
proof -
  have "pointer_conflict_at (pointer_map base) (pointer_map right) (pointer_map left)
      = pointer_conflict_at (pointer_map base) (pointer_map left) (pointer_map right)"
    by (rule ext) (auto simp: pointer_conflict_at_def Let_def same_pointer_sym)
  then show ?thesis by (simp add: pointer_conflicts_def Let_def merge_keys_swap [of _ "pointer_map left"])
qed

lemma objects_agree_swap: "objects_agree right left i = objects_agree left right i"
  by (auto simp: objects_agree_def)

lemma law_drifts_swap: "law_drifts r l = [] \<longleftrightarrow> law_drifts l r = []"
  by (auto simp: law_drifts_def split: option.split)

lemma law_drifts_same [simp]: "law_drifts r r = []"
  by (simp add: law_drifts_def split: option.split)

section \<open>Every commit of the graph has its snapshot\<close>

definition commits_bound :: "world_store \<Rightarrow> bool" where
  "commits_bound store = (\<forall>i. graph_contains (st_graph store) i \<longrightarrow>
     (\<exists>k s. snapshot_materialize (st_snapshots store) i = Some k \<and> snapshot_get (st_snapshots store) k = Some s))"

lemma materialize_bind:
  "snapshot_materialize (snapshot_bind c k store) i = (if i = c then Some k else snapshot_materialize store i)"
proof -
  have found: "update_first P f xs = Some ys \<Longrightarrow> P = (\<lambda>(x, _). x = c) \<Longrightarrow> f = (\<lambda>(x, _). (x, k)) \<Longrightarrow>
      map_option snd (List.find (\<lambda>(x, _). x = i) ys) =
        (if i = c then Some k else map_option snd (List.find (\<lambda>(x, _). x = i) xs))" for P f xs ys
    by (induction P f xs arbitrary: ys rule: update_first.induct) (auto split: option.splits if_splits)
  have "List.find (\<lambda>(x, _). x = c) xs = None \<Longrightarrow> map_option snd (List.find (\<lambda>(x, _). x = i) (xs @ [(c, k)])) =
        (if i = c then Some k else map_option snd (List.find (\<lambda>(x, _). x = i) xs))"
    for xs :: "(commit_id \<times> snapshot_id) list"
    by (induction xs) (auto split: if_splits)
  note new = this
  have missing: "update_first P f xs = None \<Longrightarrow> List.find P xs = None" for P f and xs :: "(commit_id \<times> snapshot_id) list"
    by (simp add: update_first_None find_None_iff)
  show ?thesis
  proof (cases "update_first (\<lambda>(commit, _). commit = c) (\<lambda>(commit, _). (commit, k)) (ss_commits store)")
    case None
    then show ?thesis using new [OF missing [OF None]] by (simp add: snapshot_materialize_def snapshot_bind_def)
  next
    case (Some ys)
    then show ?thesis using found [OF Some refl refl] by (simp add: snapshot_materialize_def snapshot_bind_def)
  qed
qed

lemma commits_bound_add:
  assumes bound: "commits_bound store" and put: "snapshot_put s (st_snapshots store) = (k, snapshots)"
    and room: "store_room store"
    and store': "st_graph store' = graph_add_node node (st_graph store)"
      "st_snapshots store' = snapshot_bind (cn_id node) k snapshots"
  shows "commits_bound store'"
proof -
  have len: "length (ss_snapshots (st_snapshots store)) + 1 < 2 ^ 64" using room by (simp add: store_room_def)
  note get = snapshot_put_get [OF put len]
  have "snapshot_materialize snapshots i = snapshot_materialize (st_snapshots store) i" for i
    using put by (auto simp: snapshot_put_def Let_def snapshot_materialize_def)
  then show ?thesis
    using bound get by (auto simp: commits_bound_def store' graph_add_contains materialize_bind)
qed

lemma create_branch_bound:
  assumes "create_branch H name w store = Inr (i, store')" and "commits_bound store" and "store_room store"
  shows "commits_bound store'"
proof -
  obtain k snapshots where put: "snapshot_put (world_snapshot_of H w) (st_snapshots store) = (k, snapshots)" by (meson surj_pair)
  then obtain node where "st_graph store' = graph_add_node node (st_graph store)"
      "st_snapshots store' = snapshot_bind (cn_id node) k snapshots"
    using assms(1) by (force simp: create_branch_def Let_def split: if_splits)
  with assms(2) put assms(3) show ?thesis by (rule commits_bound_add)
qed

lemma fork_branch_bound:
  assumes "fork_branch H source name store = Inr (f, store')" and "commits_bound store"
  shows "commits_bound store'"
proof -
  have "st_graph store' = st_graph store \<and> st_snapshots store' = st_snapshots store"
    by (rule fork_with_id_props [OF assms(1) [unfolded fork_branch_def Let_def]]) simp
  then show ?thesis using assms(2) by (simp add: commits_bound_def)
qed

lemma store_commit_bound:
  assumes res: "store_commit H fmt17 i tx v store = Inr (r, store')" and ok: "store_ok H store"
    and bound: "commits_bound store" and room: "store_room store"
  shows "commits_bound store'"
proof -
  have ids: "distinct (map (br_id \<circ> bs_branch) (st_branches store))" using ok by (simp add: store_ok_def)
  obtain b result w' b' where eff: "commit_effect H b tx result w' r b' store store'"
    by (rule store_commit_props [OF res ids]) blast
  show ?thesis
  proof (cases "cm_accepted result")
    case True
    then obtain snapshots node where
        put: "snapshot_put (world_snapshot_of H w') (st_snapshots store) = (br_head_snapshot (bs_branch b'), snapshots)"
      and node: "cn_id node = cr_id r" "st_graph store' = graph_add_node node (st_graph store)"
        "st_snapshots store' = snapshot_bind (cr_id r) (br_head_snapshot (bs_branch b')) snapshots"
      using eff unfolding commit_effect_def by auto
    show ?thesis by (rule commits_bound_add [OF bound put room node(2)]) (simp add: node)
  next
    case False
    then show ?thesis using eff bound by (simp add: commit_effect_def commits_bound_def)
  qed
qed

lemma reachable_store_bound: "reachable_store H fmt17 store \<Longrightarrow> commits_bound store"
proof (induction rule: reachable_store.induct)
  case (empty policy)
  show ?case by (simp add: commits_bound_def new_store_def graph_contains_def graph_node_def)
next
  case (create store name w i store')
  show ?case by (rule create_branch_bound [OF create.hyps(3) create.IH create.hyps(2)])
next
  case (fork store source name f store')
  show ?case by (rule fork_branch_bound [OF fork.hyps(3) fork.IH])
next
  case (commit store i tx v r store')
  then show ?case using store_commit_bound reachable_store_inv by blast
qed

section \<open>The analysis on the stores of a program\<close>

text \<open>What the analysis says about two branches with heads.\<close>

definition analysis_spec :: "digest \<Rightarrow> world_store \<Rightarrow> branch_state \<Rightarrow> branch_state \<Rightarrow> merge_analysis \<Rightarrow> bool" where
  "analysis_spec H store lb rb a =
     (\<exists>lh rh. br_head (bs_branch lb) = Some lh \<and> br_head (bs_branch rb) = Some rh
       \<and> common_ancestor (st_graph store) lh rh = Some (ma_common_ancestor a)
       \<and> (case ma_common_ancestor a of
            None \<Rightarrow> ma_status a = DivergentHistory
          | Some ancestor \<Rightarrow>
              (\<exists>k base. snapshot_materialize (st_snapshots store) ancestor = Some k
                \<and> snapshot_get (st_snapshots store) k = Some base
                \<and> first_after_ancestor store ancestor lh = Some (ma_left_divergence a)
                \<and> first_after_ancestor store ancestor rh = Some (ma_right_divergence a)
                \<and> ma_object_conflicts a = object_conflicts base (world_snapshot_of H (bs_world lb)) (world_snapshot_of H (bs_world rb))
                \<and> ma_pointer_conflicts a = pointer_conflicts base (world_snapshot_of H (bs_world lb)) (world_snapshot_of H (bs_world rb))
                \<and> ma_law_drifts a = law_drifts (commit_record_of store lh) (commit_record_of store rh)
                \<and> ma_status a = (if ma_object_conflicts a = [] \<and> ma_pointer_conflicts a = [] \<and> ma_law_drifts a = []
                                 then MergeClean else MergeConflict))))"

lemma analyze_merge_total:
  assumes ok: "store_ok H store" and bound: "commits_bound store"
    and l: "branch_state_of store l = Inr lb" and r: "branch_state_of store r = Inr rb"
  shows "\<exists>a. analyze_merge H store l r = Some (Inr a) \<and> analysis_spec H store lb rb a"
proof -
  have graph: "graph_ok (st_graph store)" using ok by (simp add: store_ok_def)
  have "state_ok H store lb" "state_ok H store rb"
    using ok branch_state_of_mem(1) [OF l] branch_state_of_mem(1) [OF r] by (simp_all add: store_ok_def)
  then obtain lh rh where heads: "br_head (bs_branch lb) = Some lh" "br_head (bs_branch rb) = Some rh"
    by (auto simp: state_ok_def)
  obtain lp rp where paths: "path_to_root (st_graph store) lh = Some lp" "path_to_root (st_graph store) rh = Some rp"
    using path_ends [OF graph, of lh] path_ends [OF graph, of rh] by auto
  obtain found where found: "common_ancestor (st_graph store) lh rh = Some found"
    using paths by (simp add: common_ancestor_def)
  show ?thesis
  proof (cases found)
    case None
    then show ?thesis
      using l r heads found by (simp add: analyze_merge_def analysis_spec_def blank_analysis_def)
  next
    case (Some ancestor)
    have "first_after_ancestor store ancestor i \<noteq> None" for i
      using path_ends [OF graph, of i] by (simp add: first_after_ancestor_def)
    then obtain ld rd where points: "first_after_ancestor store ancestor lh = Some ld" "first_after_ancestor store ancestor rh = Some rd"
      by (metis option.exhaust)
    have "graph_contains (st_graph store) ancestor"
      using found Some path_contained by (auto elim!: common_ancestor_Some)
    then obtain k base where "snapshot_materialize (st_snapshots store) ancestor = Some k"
        "snapshot_get (st_snapshots store) k = Some base"
      using bound by (auto simp: commits_bound_def)
    then show ?thesis
      using l r heads found Some points
      by (simp add: analyze_merge_def analyze_from_def analysis_spec_def conclude_merge_def blank_analysis_def Let_def)
  qed
qed

lemma analyze_merge_spec:
  assumes "reachable_store H fmt17 store" and "branch_state_of store l = Inr lb" and "branch_state_of store r = Inr rb"
  shows "\<exists>a. analyze_merge H store l r = Some (Inr a) \<and> analysis_spec H store lb rb a"
  using analyze_merge_total reachable_store_inv reachable_store_bound assms by blast

lemma analysis_spec_swap:
  assumes "analysis_spec H store lb rb a" and "analysis_spec H store rb lb b" and "graph_ok (st_graph store)"
  shows "ma_common_ancestor b = ma_common_ancestor a" and "ma_status b = ma_status a"
    and "ma_common_ancestor a \<noteq> None \<Longrightarrow> ma_left_divergence b = ma_right_divergence a
      \<and> ma_right_divergence b = ma_left_divergence a \<and> ma_pointer_conflicts b = ma_pointer_conflicts a
      \<and> oc_object ` set (ma_object_conflicts b) = oc_object ` set (ma_object_conflicts a)"
proof -
  have "common_ancestor (st_graph store) i j = common_ancestor (st_graph store) j i" for i j
    by (rule common_ancestor_sym) (rule path_ends [OF assms(3)])+
  note swap = this
  show same: "ma_common_ancestor b = ma_common_ancestor a"
    using assms(1,2) swap unfolding analysis_spec_def by auto
  show "ma_status b = ma_status a"
    using assms(1,2) same unfolding analysis_spec_def
    by (auto simp: pointer_conflicts_swap no_object_conflicts objects_agree_swap law_drifts_swap split: option.splits)
  assume "ma_common_ancestor a \<noteq> None"
  then obtain base left right where
      "ma_object_conflicts a = object_conflicts base left right" "ma_object_conflicts b = object_conflicts base right left"
      "ma_pointer_conflicts a = pointer_conflicts base left right" "ma_pointer_conflicts b = pointer_conflicts base right left"
      "ma_left_divergence b = ma_right_divergence a" "ma_right_divergence b = ma_left_divergence a"
    using assms(1,2) same unfolding analysis_spec_def by (auto split: option.splits)
  then show "ma_left_divergence b = ma_right_divergence a
      \<and> ma_right_divergence b = ma_left_divergence a \<and> ma_pointer_conflicts b = ma_pointer_conflicts a
      \<and> oc_object ` set (ma_object_conflicts b) = oc_object ` set (ma_object_conflicts a)"
    by (simp add: pointer_conflicts_swap object_conflicts_ids objects_agree_swap)
qed

text \<open>Two branches with the same head and the same world.\<close>

lemma analysis_spec_same:
  assumes "analysis_spec H store lb rb a" and "br_head (bs_branch lb) = br_head (bs_branch rb)"
    and "world_snapshot_of H (bs_world lb) = world_snapshot_of H (bs_world rb)"
    and "state_ok H store lb" and "graph_ok (st_graph store)"
  shows "ma_status a = MergeClean" and "ma_common_ancestor a = br_head (bs_branch lb)"
    and "ma_left_divergence a = blank_point" and "ma_right_divergence a = blank_point"
proof -
  obtain h where h: "br_head (bs_branch lb) = Some h" "graph_contains (st_graph store) h"
    using assms(4) by (auto simp: state_ok_def)
  obtain path where path: "path_to_root (st_graph store) h = Some path" using path_ends [OF assms(5)] by auto
  have "path \<noteq> []"
    using h(2) path by (subst (asm) path_to_root.simps) (auto simp: graph_contains_def split: option.splits list.splits bind_splits)
  then obtain rest where "path = h # rest" using path_head path by (cases path) auto
  then have self: "common_ancestor (st_graph store) h h = Some (Some h)" using path by (simp add: common_ancestor_def)
  then show "ma_common_ancestor a = br_head (bs_branch lb)" using assms(1,2) h by (auto simp: analysis_spec_def)
  then show "ma_status a = MergeClean" "ma_left_divergence a = blank_point" "ma_right_divergence a = blank_point"
    using assms(1,2,3) h
    by (auto simp: analysis_spec_def no_object_conflicts no_pointer_conflicts pointers_agree_def first_after_ancestor_def)
qed

end
