(* ===== verification/Rules.thy ===== *)
theory Rules
  imports Text_Lines Verifier
begin

text \<open>
  Rules (\<open>src/rule/rule.cpp\<close>, \<open>src/rule/pattern.cpp\<close>, \<open>src/rule/rule_engine.cpp\<close>): the parser of their lines,
  the matches of a trigger in a transition, the requirements of a match, the engine that keeps rules by
  name and the law of a rule.  A thrown exception is the \<open>Inl\<close> of an operation; \<open>RuleLine\<close> is the
  \<open>std::out_of_range\<close> of \<open>substr\<close> on the line \<open>when\<close>.
\<close>

datatype endpoint_binding = AnyObject | TriggerFrom | TriggerTo

datatype requirement_search = SearchBefore | SearchAfter | SearchBeforeOrAfter

record relation_pattern =
  rp_from_type :: string
  rp_relation :: string
  rp_to_type :: string

record requirement_pattern =
  rq_pattern :: relation_pattern
  rq_from :: endpoint_binding
  rq_to :: endpoint_binding
  rq_search :: requirement_search
  rq_forbidden :: bool

record pattern_match =
  pm_from :: object_id
  pm_to :: object_id
  pm_from_name :: string
  pm_to_name :: string
  pm_relation :: string

record rule =
  rl_name :: string
  rl_trigger :: relation_pattern
  rl_requirements :: "requirement_pattern list"
  rl_severity :: severity
  rl_reason :: string

definition blank_pattern :: relation_pattern where
  "blank_pattern = \<lparr>rp_from_type = [], rp_relation = [], rp_to_type = []\<rparr>"

definition blank_rule :: rule where
  "blank_rule = \<lparr>rl_name = [], rl_trigger = blank_pattern, rl_requirements = [], rl_severity = Error, rl_reason = []\<rparr>"

section \<open>The parser\<close>

datatype rule_error =
    PatternUsage
  | RequirementUsage
  | RuleUsage
  | RuleClauseFirst
  | RequireUsage
  | ForbidUsage
  | DenyUsage
  | DenyBeforeWhen
  | ReasonUnquoted
  | RuleLine
  | UnknownRuleClause string
  | RuleIncomplete string
  | EmptyRuleName
  | EmptyRuleLawName
  | UnknownRule string

record rule_builder =
  rb_draft :: rule
  rb_active :: bool
  rb_has_trigger :: bool

definition new_rule_builder :: rule_builder where
  "new_rule_builder = \<lparr>rb_draft = blank_rule, rb_active = False, rb_has_trigger = False\<rparr>"

definition is_link_clause :: "string list \<Rightarrow> bool" where
  "is_link_clause ws = (word_at ws 0 = ''link'' \<and> word_at ws 1 \<noteq> [] \<and> word_at ws 2 = ''->'' \<and> word_at ws 3 \<noteq> []
     \<and> word_at ws 4 = '':'' \<and> word_at ws 5 \<noteq> [])"

definition parse_relation_pattern :: "string \<Rightarrow> rule_error + relation_pattern" where
  "parse_relation_pattern text =
     (let ws = text_words text
      in if is_link_clause ws
         then Inr \<lparr>rp_from_type = word_at ws 1, rp_relation = word_at ws 5, rp_to_type = word_at ws 3\<rparr>
         else Inl PatternUsage)"

definition parse_endpoint :: "string \<Rightarrow> bool \<Rightarrow> string \<times> endpoint_binding" where
  "parse_endpoint token from_side =
     (if token \<noteq> [] \<and> hd token = CHR ''~''
      then let type = tl token in (if type = ''*'' then [] else type, AnyObject)
      else (token, if from_side then TriggerFrom else TriggerTo))"

definition parse_requirement_pattern :: "string \<Rightarrow> rule_error + requirement_pattern" where
  "parse_requirement_pattern text =
     (let ws = text_words text
      in if is_link_clause ws then
           (let (from_type, from_binding) = parse_endpoint (word_at ws 1) True;
                (to_type, to_binding) = parse_endpoint (word_at ws 3) False
            in Inr \<lparr>rq_pattern = \<lparr>rp_from_type = from_type, rp_relation = word_at ws 5, rp_to_type = to_type\<rparr>,
                    rq_from = from_binding, rq_to = to_binding, rq_search = SearchBeforeOrAfter, rq_forbidden = False\<rparr>)
         else Inl RequirementUsage)"

text \<open>What is between the first and the last quote.\<close>

definition quoted_reason :: "string \<Rightarrow> rule_error + string" where
  "quoted_reason line =
     (let inner = drop 1 (dropWhile (\<lambda>c. c \<noteq> quote_mark) line)
      in if quote_mark \<notin> set inner then Inl ReasonUnquoted
         else Inr (rev (drop 1 (dropWhile (\<lambda>c. c \<noteq> quote_mark) (rev inner)))))"

text \<open>A clause \<open>WORD before|after|exists PATTERN\<close>.\<close>

definition clause_search :: "string \<Rightarrow> string \<Rightarrow> (requirement_search \<times> string) option" where
  "clause_search word line =
     (if starts_with line (word @ '' before '') then Some (SearchBefore, word @ '' before '')
      else if starts_with line (word @ '' after '') then Some (SearchAfter, word @ '' after '')
      else if starts_with line (word @ '' exists '') then Some (SearchBeforeOrAfter, word @ '' exists '')
      else None)"

definition add_requirement ::
    "string \<Rightarrow> rule_error \<Rightarrow> bool \<Rightarrow> string \<Rightarrow> rule_builder \<Rightarrow> rule_error + rule_builder" where
  "add_requirement word usage forbidden line b =
     (case clause_search word line of
        None \<Rightarrow> Inl usage
      | Some (search, prefix) \<Rightarrow>
          res_bind (parse_requirement_pattern (drop (length prefix) line)) (\<lambda>requirement.
            let draft = rb_draft b
            in Inr (b\<lparr>rb_draft := draft\<lparr>rl_requirements := rl_requirements draft
                  @ [requirement\<lparr>rq_search := search, rq_forbidden := forbidden\<rparr>]\<rparr>\<rparr>)))"

definition consume_rule_name :: "string \<Rightarrow> rule_builder \<Rightarrow> rule_error + rule option \<times> rule_builder" where
  "consume_rule_name name b =
     (if name = [] then Inl RuleUsage
      else Inr (if rb_active b \<and> rb_has_trigger b then Some (rb_draft b) else None,
                \<lparr>rb_draft = blank_rule\<lparr>rl_name := name\<rparr>, rb_active = True, rb_has_trigger = False\<rparr>))"

definition consume_deny :: "string \<Rightarrow> rule_builder \<Rightarrow> rule_error + rule option \<times> rule_builder" where
  "consume_deny line b =
     (if \<not> starts_with line ''deny reason '' then Inl DenyUsage
      else if \<not> rb_has_trigger b then Inl DenyBeforeWhen
      else res_bind (quoted_reason line) (\<lambda>reason. Inr (Some ((rb_draft b)\<lparr>rl_reason := reason\<rparr>), new_rule_builder)))"

definition consume_rule_line :: "string \<Rightarrow> rule_builder \<Rightarrow> rule_error + rule option \<times> rule_builder" where
  "consume_rule_line raw_line b =
     (let line = strip_comment raw_line; ws = text_words line; command = word_at ws 0
      in if line = [] then Inr (None, b)
         else if command = ''rule'' then consume_rule_name (word_at ws 1) b
         else if \<not> rb_active b then Inl RuleClauseFirst
         else if command = ''when'' then
           (if length line < length ''when '' then Inl RuleLine
            else res_bind (parse_relation_pattern (drop (length ''when '') line)) (\<lambda>trigger.
              Inr (None, b\<lparr>rb_draft := (rb_draft b)\<lparr>rl_trigger := trigger\<rparr>, rb_has_trigger := True\<rparr>)))
         else if command = ''require'' then
           res_bind (add_requirement ''require'' RequireUsage False line b) (\<lambda>b. Inr (None, b))
         else if command = ''forbid'' then
           res_bind (add_requirement ''forbid'' ForbidUsage True line b) (\<lambda>b. Inr (None, b))
         else if command = ''deny'' then consume_deny line b
         else Inl (UnknownRuleClause command))"

definition parse_rules_step :: "rule list \<times> rule_builder \<Rightarrow> string \<Rightarrow> rule_error + rule list \<times> rule_builder" where
  "parse_rules_step acc line =
     (let (out, b) = acc; clean = strip_comment line
      in if clean = [] then Inr (out, b)
         else res_bind (consume_rule_line clean b) (\<lambda>(r, b). Inr (case r of None \<Rightarrow> out | Some r \<Rightarrow> out @ [r], b)))"

definition parse_rules :: "string \<Rightarrow> rule_error + rule list" where
  "parse_rules text =
     res_bind (res_fold parse_rules_step ([], new_rule_builder) (text_lines text)) (\<lambda>(out, b).
       if rb_active b then Inl (RuleIncomplete (rl_name (rb_draft b))) else Inr out)"

section \<open>Matching\<close>

definition wildcard_or_equal :: "string \<Rightarrow> string \<Rightarrow> bool" where
  "wildcard_or_equal pat value = (pat = [] \<or> pat = ''*'' \<or> pat = value)"

definition resolve_ref_after :: "law_context \<Rightarrow> object_ref \<Rightarrow> object_id option" where
  "resolve_ref_after ctx r = (case r of
     RefObject i \<Rightarrow> (if snapshot_contains (lc_after ctx) i then Some i else None)
   | RefTemp t \<Rightarrow>
       (case List.find (\<lambda>c. co_temp c = t) (creates_view (lc_delta ctx)) of
          None \<Rightarrow> None
        | Some c \<Rightarrow> object_named (lc_after ctx) (co_name c)))"

definition endpoint_allowed :: "endpoint_binding \<Rightarrow> object_id \<Rightarrow> pattern_match \<Rightarrow> bool" where
  "endpoint_allowed binding candidate trigger = (case binding of
     AnyObject \<Rightarrow> True | TriggerFrom \<Rightarrow> candidate = pm_from trigger | TriggerTo \<Rightarrow> candidate = pm_to trigger)"

definition matches_relation_pattern ::
    "world_snapshot \<Rightarrow> relation_pattern \<Rightarrow> object_id \<Rightarrow> object_id \<Rightarrow> relation_type \<Rightarrow> bool" where
  "matches_relation_pattern s pat from to relation =
     (case (snapshot_object s from, snapshot_object s to) of
        (Some f, Some t) \<Rightarrow>
          wildcard_or_equal (rp_from_type pat) (snapshot_type_name s (os_type f))
          \<and> wildcard_or_equal (rp_to_type pat) (snapshot_type_name s (os_type t))
          \<and> wildcard_or_equal (rp_relation pat) (snapshot_relation_name s relation)
      | _ \<Rightarrow> False)"

definition relation_exists_in_snapshot :: "world_snapshot \<Rightarrow> pattern_match \<Rightarrow> requirement_pattern \<Rightarrow> bool" where
  "relation_exists_in_snapshot s trigger requirement =
     list_ex (\<lambda>p. pointer_active_at p (sn_epoch s)
         \<and> endpoint_allowed (rq_from requirement) (ps_from p) trigger
         \<and> endpoint_allowed (rq_to requirement) (ps_to p) trigger
         \<and> matches_relation_pattern s (rq_pattern requirement) (ps_from p) (ps_to p) (ps_relation p))
       (sn_pointers s)"

definition match_name :: "world_snapshot \<Rightarrow> object_id \<Rightarrow> string" where
  "match_name s i = (case snapshot_object s i of Some x \<Rightarrow> os_name x | None \<Rightarrow> object_id_to_string i)"

definition make_match :: "world_snapshot \<Rightarrow> object_id \<Rightarrow> object_id \<Rightarrow> relation_type \<Rightarrow> pattern_match" where
  "make_match s from to relation = \<lparr>pm_from = from, pm_to = to, pm_from_name = match_name s from,
     pm_to_name = match_name s to, pm_relation = snapshot_relation_name s relation\<rparr>"

definition link_match :: "law_context \<Rightarrow> relation_pattern \<Rightarrow> create_pointer_op \<Rightarrow> pattern_match option" where
  "link_match ctx trigger link =
     (case (resolve_ref_after ctx (cp_from link), resolve_ref_after ctx (cp_to link)) of
        (Some from, Some to) \<Rightarrow>
          (if matches_relation_pattern (lc_after ctx) trigger from to (cp_relation link)
           then Some (make_match (lc_after ctx) from to (cp_relation link)) else None)
      | _ \<Rightarrow> None)"

definition pointer_match :: "world_snapshot \<Rightarrow> relation_pattern \<Rightarrow> pointer_snapshot \<Rightarrow> pattern_match option" where
  "pointer_match s trigger p =
     (if pointer_active_at p (sn_epoch s) \<and> matches_relation_pattern s trigger (ps_from p) (ps_to p) (ps_relation p)
      then Some (make_match s (ps_from p) (ps_to p) (ps_relation p)) else None)"

definition trigger_matches :: "law_context \<Rightarrow> relation_pattern \<Rightarrow> pattern_match list" where
  "trigger_matches ctx trigger =
     (let links = links_view (lc_delta ctx)
      in if links \<noteq> [] then List.map_filter (link_match ctx trigger) links
         else List.map_filter (pointer_match (lc_after ctx) trigger) (sn_pointers (lc_after ctx)))"

definition requirement_exists :: "law_context \<Rightarrow> pattern_match \<Rightarrow> requirement_pattern \<Rightarrow> bool" where
  "requirement_exists ctx trigger requirement =
     (if (rq_search requirement = SearchBefore \<or> rq_search requirement = SearchBeforeOrAfter)
         \<and> relation_exists_in_snapshot (lc_before ctx) trigger requirement then True
      else if rq_search requirement = SearchAfter \<or> rq_search requirement = SearchBeforeOrAfter
      then relation_exists_in_snapshot (lc_after ctx) trigger requirement
      else False)"

section \<open>The law of a rule\<close>

text \<open>Only used with patterns that are not empty.\<close>

function replace_all :: "string \<Rightarrow> string \<Rightarrow> string \<Rightarrow> string" where
  "replace_all from to [] = []"
| "replace_all from to (c # cs) =
     (if starts_with (c # cs) from then to @ replace_all from to (drop (length from - 1) cs)
      else c # replace_all from to cs)"
  by pat_completeness auto
termination by (relation "measure (\<lambda>(_, _, s). length s)") auto

definition expand_reason :: "string \<Rightarrow> pattern_match \<Rightarrow> string" where
  "expand_reason reason m =
     replace_all ''{relation}'' (pm_relation m)
       (replace_all ''{to}'' (pm_to_name m) (replace_all ''{from}'' (pm_from_name m) reason))"

text \<open>The loop over the requirements, which stops at the first that fails.\<close>

definition requirements_satisfied :: "law_context \<Rightarrow> pattern_match \<Rightarrow> requirement_pattern list \<Rightarrow> bool" where
  "requirements_satisfied ctx m requirements =
     list_all (\<lambda>r. if rq_forbidden r then \<not> requirement_exists ctx m r else requirement_exists ctx m r) requirements"

definition rule_violation :: "rule \<Rightarrow> pattern_match \<Rightarrow> law_violation" where
  "rule_violation r m = \<lparr>lv_law = rl_name r, lv_severity = rl_severity r, lv_magnitude = f64_one,
     lv_explanation =
       (if rl_reason r = []
        then pm_from_name m @ '' '' @ pm_relation m @ '' '' @ pm_to_name m @ '' violates '' @ rl_name r
        else expand_reason (rl_reason r) m),
     lv_evidence = [], lv_objects = [pm_from m, pm_to m], lv_pointers = []\<rparr>"

definition pattern_law_check :: "rule \<Rightarrow> law_context \<Rightarrow> law_error + law_violation list" where
  "pattern_law_check r ctx = Inr (List.map_filter (\<lambda>m.
     if requirements_satisfied ctx m (rl_requirements r) \<and> rl_requirements r \<noteq> [] then None
     else Some (rule_violation r m)) (trigger_matches ctx (rl_trigger r)))"

definition make_pattern_law :: "rule \<Rightarrow> rule_error + law" where
  "make_pattern_law r =
     (if rl_name r = [] then Inl EmptyRuleLawName else Inr \<lparr>lw_name = rl_name r, lw_check = pattern_law_check r\<rparr>)"

section \<open>The engine\<close>

type_synonym rule_engine = "rule list"

definition engine_add :: "rule \<Rightarrow> rule_engine \<Rightarrow> rule_error + rule_engine" where
  "engine_add r engine =
     (if rl_name r = [] then Inl EmptyRuleName
      else Inr (case update_first (\<lambda>x. rl_name x = rl_name r) (\<lambda>_. r) engine of
                  Some engine' \<Rightarrow> engine' | None \<Rightarrow> engine @ [r]))"

definition engine_add_all :: "rule list \<Rightarrow> rule_engine \<Rightarrow> rule_error + rule_engine" where
  "engine_add_all rules engine = res_fold (\<lambda>engine r. engine_add r engine) engine rules"

definition engine_find :: "rule_engine \<Rightarrow> string \<Rightarrow> rule option" where
  "engine_find engine name = List.find (\<lambda>r. rl_name r = name) engine"

definition engine_contains :: "rule_engine \<Rightarrow> string \<Rightarrow> bool" where
  "engine_contains engine name = (engine_find engine name \<noteq> None)"

definition engine_make_law :: "rule_engine \<Rightarrow> string \<Rightarrow> rule_error + law" where
  "engine_make_law engine name =
     (case engine_find engine name of None \<Rightarrow> Inl (UnknownRule name) | Some r \<Rightarrow> make_pattern_law r)"

end
