(* ===== verification/Rules_Props.thy ===== *)
theory Rules_Props
  imports Rules Overlay_Inv
begin

text \<open>
  What a rule says of a transition.  When the delta creates pointers, the matches of a trigger are exactly
  the pointers the overlay appended, temporary endpoints included; the law of the rule is silent when every
  match has what the rule requires.  The engine keeps one rule for a name.
\<close>

section \<open>Links and the pointers they become\<close>

text \<open>What a reference of the delta stands for, after the operations \<open>ops\<close> made \<open>s\<close>.\<close>

definition stands_for :: "delta \<Rightarrow> world_snapshot \<Rightarrow> object_ref \<Rightarrow> object_id \<Rightarrow> bool" where
  "stands_for ops s r i = (case r of
     RefObject j \<Rightarrow> i = j \<and> j \<in> fst ` object_core ` set (sn_objects s)
   | RefTemp t \<Rightarrow> (\<exists>c. List.find (\<lambda>c. co_temp c = t) (creates_view ops) = Some c
                     \<and> (i, co_name c) \<in> object_core ` set (sn_objects s)))"

definition link_becomes :: "delta \<Rightarrow> world_snapshot \<Rightarrow> create_pointer_op \<Rightarrow> pointer_snapshot \<Rightarrow> bool" where
  "link_becomes ops s l p = (stands_for ops s (cp_from l) (ps_from p) \<and> stands_for ops s (cp_to l) (ps_to p)
     \<and> ps_relation p = cp_relation l)"

lemma extends_cores: "extends s t \<Longrightarrow> object_core ` set (sn_objects s) \<subseteq> object_core ` set (sn_objects t)"
  unfolding extends_alt by (metis list.set_map set_append Un_upper1)

lemma find_append_some: "List.find P xs = Some x \<Longrightarrow> List.find P (xs @ ys) = Some x"
  by (induction xs) auto

lemma stands_for_mono:
  assumes "stands_for ops s r i" and "object_core ` set (sn_objects s) \<subseteq> object_core ` set (sn_objects t)"
  shows "stands_for (ops @ later) t r i"
proof (cases r)
  case (RefObject j)
  then show ?thesis using assms by (auto simp: stands_for_def)
next
  case (RefTemp k)
  then show ?thesis
    using assms find_append_some [of _ "creates_view ops"] by (auto simp: stands_for_def views_append)
qed

lemma link_becomes_mono:
  assumes "link_becomes ops s l p" and "object_core ` set (sn_objects s) \<subseteq> object_core ` set (sn_objects t)"
    and "pointer_core q = pointer_core p"
  shows "link_becomes (ops @ later) t l q"
  using assms stands_for_mono by (auto simp: link_becomes_def pointer_core_def)

lemma list_all2_links_mono:
  assumes "list_all2 (link_becomes ops s) ls ps" and "object_core ` set (sn_objects s) \<subseteq> object_core ` set (sn_objects t)"
    and "map pointer_core qs = map pointer_core ps"
  shows "list_all2 (link_becomes (ops @ later) t) ls qs"
proof -
  have len: "length qs = length ps" by (metis assms(3) length_map)
  have core: "pointer_core (qs ! k) = pointer_core (ps ! k)" if "k < length ps" for k
    using assms(3) that len by (metis nth_map)
  then show ?thesis
    using assms(1) link_becomes_mono [OF _ assms(2) core] len by (auto simp: list_all2_conv_all_nth)
qed

text \<open>The invariant of the loop, after the operations \<open>ops\<close> of a delta on a snapshot with \<open>n\<close> pointers.\<close>

definition links_inv :: "nat \<Rightarrow> delta \<Rightarrow> overlay_state \<Rightarrow> bool" where
  "links_inv n ops st =
     (ov_seen_temps st = co_temp ` set (creates_view ops) \<and> n \<le> length (sn_pointers (ov_out st))
      \<and> (\<forall>t i. om_find (ov_temps st) t = Some i \<longrightarrow> stands_for ops (ov_out st) (RefTemp t) i)
      \<and> list_all2 (link_becomes ops (ov_out st)) (links_view ops) (drop n (sn_pointers (ov_out st))))"

lemma resolve_stands_for:
  assumes "links_inv n ops st" and "resolve_ref (ov_out st) (ov_temps st) r = Some i"
  shows "stands_for ops (ov_out st) r i"
  using assms
  by (cases r) (auto simp: resolve_ref_def links_inv_def stands_for_def snapshot_contains_mem object_core_def image_iff
      split: if_splits)

text \<open>What one step does to the pointers, the temporaries and the names it has seen.\<close>

lemma step_pointers:
  assumes "overlay_step H st op = Inr st'"
  shows "(case op_body op of
       CreatePointer c \<Rightarrow> \<exists>p. sn_pointers (ov_out st') = sn_pointers (ov_out st) @ [p]
         \<and> resolve_ref (ov_out st) (ov_temps st) (cp_from c) = Some (ps_from p)
         \<and> resolve_ref (ov_out st) (ov_temps st) (cp_to c) = Some (ps_to p) \<and> ps_relation p = cp_relation c
     | _ \<Rightarrow> map pointer_core (sn_pointers (ov_out st')) = map pointer_core (sn_pointers (ov_out st)))"
proof -
  have frames: "overlay_update_object r f st = Inr st' \<Longrightarrow> sn_pointers (ov_out st') = sn_pointers (ov_out st)" for r f
    by (auto simp: overlay_update_object_def mutate_object_def split: option.splits)
  have framep: "overlay_update_pointer i g st = Inr st' \<Longrightarrow> (\<And>p. pointer_core (g p) = pointer_core p) \<Longrightarrow>
      map pointer_core (sn_pointers (ov_out st')) = map pointer_core (sn_pointers (ov_out st))" for i g
    by (auto simp: overlay_update_pointer_def mutate_pointer_def split: option.splits
        dest: update_first_map [where g = pointer_core, rotated])
  show ?thesis
    using assms
    by (cases "op_body op")
      (auto simp: overlay_step_def overlay_create_object_def overlay_create_pointer_def overlay_intern_type_def
        overlay_intern_relation_def Let_def pointer_core_def split: if_splits option.splits dest!: frames framep)
qed

lemma step_temps:
  assumes "overlay_step H st op = Inr st'"
  shows "(case op_body op of
       CreateObject c \<Rightarrow> co_temp c \<notin> ov_seen_temps st \<and> ov_seen_temps st' = insert (co_temp c) (ov_seen_temps st)
         \<and> (\<exists>i. ov_temps st' = om_emplace (co_temp c) i (ov_temps st)
              \<and> (i, co_name c) \<in> object_core ` set (sn_objects (ov_out st')))
     | _ \<Rightarrow> ov_seen_temps st' = ov_seen_temps st \<and> ov_temps st' = ov_temps st)"
proof -
  have frames: "overlay_update_object r f st = Inr st' \<Longrightarrow> ov_seen_temps st' = ov_seen_temps st \<and> ov_temps st' = ov_temps st" for r f
    by (auto simp: overlay_update_object_def split: option.splits)
  have framep: "overlay_update_pointer i g st = Inr st' \<Longrightarrow> ov_seen_temps st' = ov_seen_temps st \<and> ov_temps st' = ov_temps st" for i g
    by (auto simp: overlay_update_pointer_def split: option.splits)
  show ?thesis
    using assms
    by (cases "op_body op")
      (auto simp: overlay_step_def overlay_create_object_def overlay_create_pointer_def overlay_intern_type_def
        overlay_intern_relation_def Let_def object_core_def split: if_splits option.splits dest!: frames framep)
qed

lemma views_single:
  "links_view [op] = (case op_body op of CreatePointer c \<Rightarrow> [c] | _ \<Rightarrow> [])"
  "creates_view [op] = (case op_body op of CreateObject c \<Rightarrow> [c] | _ \<Rightarrow> [])"
  by (auto simp: links_view_def creates_view_def List.map_filter_def split: operation_body.split)

lemma find_none_append: "x \<notin> f ` set xs \<Longrightarrow> List.find (\<lambda>c. f c = x) (xs @ ys) = List.find (\<lambda>c. f c = x) ys"
  by (induction xs) auto

lemma links_inv_step:
  assumes inv: "links_inv n ops st" and step: "overlay_step H st op = Inr st'"
  shows "links_inv n (ops @ [op]) st'"
proof -
  note cores = extends_cores [OF overlay_step_extends [OF step]]
  have grow: "stands_for ops (ov_out st) r i \<Longrightarrow> stands_for (ops @ [op]) (ov_out st') r i" for r i
    by (rule stands_for_mono [OF _ cores])
  have n: "n \<le> length (sn_pointers (ov_out st))" using inv by (simp add: links_inv_def)
  have temps: "ov_seen_temps st' = co_temp ` set (creates_view (ops @ [op]))
      \<and> (\<forall>t i. om_find (ov_temps st') t = Some i \<longrightarrow> stands_for (ops @ [op]) (ov_out st') (RefTemp t) i)"
  proof (cases "\<exists>c. op_body op = CreateObject c")
    case True
    then obtain c where c: "op_body op = CreateObject c" ..
    then obtain i where i: "co_temp c \<notin> ov_seen_temps st" "ov_seen_temps st' = insert (co_temp c) (ov_seen_temps st)"
        "ov_temps st' = om_emplace (co_temp c) i (ov_temps st)" "(i, co_name c) \<in> object_core ` set (sn_objects (ov_out st'))"
      using step_temps [OF step] by auto
    have seen: "ov_seen_temps st = co_temp ` set (creates_view ops)" using inv by (simp add: links_inv_def)
    have "List.find (\<lambda>d. co_temp d = co_temp c) (creates_view (ops @ [op])) = Some c"
      using i(1) seen by (simp add: views_append views_single c find_none_append)
    then have new: "stands_for (ops @ [op]) (ov_out st') (RefTemp (co_temp c)) i" using i(4) by (simp add: stands_for_def)
    have "om_find (ov_temps st) (co_temp c) = None"
    proof (rule ccontr)
      assume "om_find (ov_temps st) (co_temp c) \<noteq> None"
      then obtain j where "om_find (ov_temps st) (co_temp c) = Some j" by auto
      then have "stands_for ops (ov_out st) (RefTemp (co_temp c)) j" using inv by (simp add: links_inv_def)
      then show False using i(1) by (auto simp: stands_for_def seen find_Some_iff image_iff set_conv_nth)
    qed
    then show ?thesis
      using inv new grow by (auto simp: links_inv_def i views_append views_single c om_find_emplace)
  next
    case False
    then have "ov_seen_temps st' = ov_seen_temps st \<and> ov_temps st' = ov_temps st \<and> creates_view [op] = []"
      using step_temps [OF step] by (cases "op_body op") (simp_all add: views_single)
    then show ?thesis using inv grow by (auto simp: links_inv_def views_append)
  qed
  have "list_all2 (link_becomes (ops @ [op]) (ov_out st')) (links_view (ops @ [op])) (drop n (sn_pointers (ov_out st')))
      \<and> n \<le> length (sn_pointers (ov_out st'))"
  proof (cases "\<exists>c. op_body op = CreatePointer c")
    case True
    then obtain c where c: "op_body op = CreatePointer c" ..
    then obtain p where p: "sn_pointers (ov_out st') = sn_pointers (ov_out st) @ [p]"
        "resolve_ref (ov_out st) (ov_temps st) (cp_from c) = Some (ps_from p)"
        "resolve_ref (ov_out st) (ov_temps st) (cp_to c) = Some (ps_to p)" "ps_relation p = cp_relation c"
      using step_pointers [OF step] by auto
    have "link_becomes (ops @ [op]) (ov_out st') c p"
      using grow [OF resolve_stands_for [OF inv p(2)]] grow [OF resolve_stands_for [OF inv p(3)]] p(4)
      by (simp add: link_becomes_def)
    moreover have "list_all2 (link_becomes (ops @ [op]) (ov_out st')) (links_view ops) (drop n (sn_pointers (ov_out st)))"
      using inv by (intro list_all2_links_mono [OF _ cores refl]) (simp add: links_inv_def)
    ultimately show ?thesis
      using n by (simp add: views_append views_single c p(1) list_all2_appendI)
  next
    case False
    then have same: "map pointer_core (sn_pointers (ov_out st')) = map pointer_core (sn_pointers (ov_out st))"
        "links_view [op] = []"
      using step_pointers [OF step] by (cases "op_body op"; simp add: views_single)+
    have "map pointer_core (drop n (sn_pointers (ov_out st'))) = map pointer_core (drop n (sn_pointers (ov_out st)))"
      using same(1) by (simp add: drop_map [symmetric])
    then have "list_all2 (link_becomes (ops @ [op]) (ov_out st')) (links_view ops) (drop n (sn_pointers (ov_out st')))"
      using inv by (intro list_all2_links_mono [OF _ cores]) (simp_all add: links_inv_def)
    moreover have "length (sn_pointers (ov_out st')) = length (sn_pointers (ov_out st))" using same(1) by (metis length_map)
    ultimately show ?thesis using n by (simp add: views_append same(2))
  qed
  then show ?thesis using temps by (simp add: links_inv_def)
qed

lemma links_inv_loop:
  "links_inv n ops0 st \<Longrightarrow> res_fold (overlay_step H) st ops = Inr st' \<Longrightarrow> links_inv n (ops0 @ ops) st'"
proof (induction ops arbitrary: st ops0)
  case (Cons op ops)
  then obtain st1 where "overlay_step H st op = Inr st1" "res_fold (overlay_step H) st1 ops = Inr st'"
    by (auto simp: res_bind_Inr_iff)
  then show ?case using Cons.IH [OF links_inv_step [OF Cons.prems(1)]] by fastforce
qed simp

text \<open>The pointers a transition appends.\<close>

definition new_pointers :: "world_snapshot \<Rightarrow> world_snapshot \<Rightarrow> pointer_snapshot list" where
  "new_pointers before after = drop (length (sn_pointers before)) (sn_pointers after)"

lemma overlay_links:
  assumes "overlay_apply H before d = Inr after"
  shows "list_all2 (link_becomes d after) (links_view d) (new_pointers before after)"
proof -
  obtain st where st: "res_fold (overlay_step H) (overlay_init before) d = Inr st" "after = overlay_finish H st"
    by (rule overlay_apply_Inr [OF assms])
  have "links_inv (length (sn_pointers before)) [] (overlay_init before)"
    by (simp add: links_inv_def overlay_init_def Let_def creates_view_def links_view_def List.map_filter_def)
  from links_inv_loop [OF this st(1)]
  have "list_all2 (link_becomes d (ov_out st)) (links_view d) (drop (length (sn_pointers before)) (sn_pointers (ov_out st)))"
    by (simp add: links_inv_def)
  moreover have "object_core ` set (sn_objects (ov_out st)) = object_core ` set (sn_objects after)"
    using recompute_counts_cores [of "ov_out st"] by (simp add: st(2) overlay_finish_def Let_def flip: set_map)
  moreover have "sn_pointers after = sn_pointers (ov_out st)"
    by (simp add: st(2) overlay_finish_def Let_def recompute_counts_def)
  ultimately show ?thesis
    using list_all2_links_mono [of d "ov_out st" "links_view d" _ after _ "[]"] by (simp add: new_pointers_def)
qed

lemma object_named_unique:
  assumes "distinct (map os_name (sn_objects s))" and "(i, name) \<in> object_core ` set (sn_objects s)"
  shows "object_named s name = Some i"
proof -
  have "List.find (\<lambda>x. os_name x = name) xs = Some x" if "distinct (map os_name xs)" "x \<in> set xs" "os_name x = name" for xs and x :: object_snapshot
    using that by (induction xs) force+
  then show ?thesis using assms by (auto simp: object_named_def object_core_def)
qed

lemma stands_for_resolves:
  assumes "stands_for (lc_delta ctx) (lc_after ctx) r i" and "distinct (map os_name (sn_objects (lc_after ctx)))"
  shows "resolve_ref_after ctx r = Some i"
  using assms(1) object_named_unique [OF assms(2)]
  by (cases r) (auto simp: stands_for_def resolve_ref_after_def snapshot_contains_mem object_core_def)

section \<open>The matches of a transition\<close>

definition pointer_triggers :: "world_snapshot \<Rightarrow> relation_pattern \<Rightarrow> pointer_snapshot \<Rightarrow> bool" where
  "pointer_triggers s trigger p = matches_relation_pattern s trigger (ps_from p) (ps_to p) (ps_relation p)"

definition match_of :: "world_snapshot \<Rightarrow> pointer_snapshot \<Rightarrow> pattern_match" where
  "match_of s p = make_match s (ps_from p) (ps_to p) (ps_relation p)"

lemma map_filter_if: "List.map_filter (\<lambda>x. if P x then Some (f x) else None) xs = map f (filter P xs)"
  by (induction xs) (simp_all add: List.map_filter_def)

lemma map_filter_list_all2:
  "list_all2 R xs ys \<Longrightarrow> (\<And>x y. R x y \<Longrightarrow> f x = g y) \<Longrightarrow> List.map_filter f xs = List.map_filter g ys"
  by (induction rule: list_all2_induct) (simp_all add: List.map_filter_def)

text \<open>The pointers a rule looks at: those the delta created, or all that are active if it created none.\<close>

definition watched_pointers :: "law_context \<Rightarrow> pointer_snapshot list" where
  "watched_pointers ctx =
     (if links_view (lc_delta ctx) \<noteq> [] then new_pointers (lc_before ctx) (lc_after ctx)
      else filter (\<lambda>p. pointer_active_at p (sn_epoch (lc_after ctx))) (sn_pointers (lc_after ctx)))"

lemma trigger_matches_watched:
  assumes res: "overlay_apply H (lc_before ctx) (lc_delta ctx) = Inr (lc_after ctx)"
    and names: "distinct (map os_name (sn_objects (lc_after ctx)))"
  shows "trigger_matches ctx trigger =
    map (match_of (lc_after ctx)) (filter (pointer_triggers (lc_after ctx) trigger) (watched_pointers ctx))"
proof (cases "links_view (lc_delta ctx) = []")
  case True
  have "pointer_match (lc_after ctx) trigger =
      (\<lambda>p. if pointer_triggers (lc_after ctx) trigger p \<and> pointer_active_at p (sn_epoch (lc_after ctx))
           then Some (match_of (lc_after ctx) p) else None)"
    by (auto simp: fun_eq_iff pointer_match_def pointer_triggers_def match_of_def)
  then show ?thesis using True by (simp add: trigger_matches_def watched_pointers_def map_filter_if conj_commute)
next
  case False
  have "link_match ctx trigger l = (if pointer_triggers (lc_after ctx) trigger p then Some (match_of (lc_after ctx) p) else None)"
    if "link_becomes (lc_delta ctx) (lc_after ctx) l p" for l p
  proof -
    have "resolve_ref_after ctx (cp_from l) = Some (ps_from p)" "resolve_ref_after ctx (cp_to l) = Some (ps_to p)"
      using that stands_for_resolves [OF _ names] by (simp_all add: link_becomes_def)
    then show ?thesis using that by (simp add: link_match_def link_becomes_def pointer_triggers_def match_of_def)
  qed
  from map_filter_list_all2 [OF overlay_links [OF res] this]
  show ?thesis using False by (simp add: trigger_matches_def watched_pointers_def map_filter_if)
qed

section \<open>What a rule requires\<close>

text \<open>An edge of the pattern, at ends the match allows, that is active in the snapshot.\<close>

definition edge_present :: "world_snapshot \<Rightarrow> pattern_match \<Rightarrow> requirement_pattern \<Rightarrow> bool" where
  "edge_present s m q = (\<exists>p \<in> set (sn_pointers s). pointer_active_at p (sn_epoch s)
     \<and> (rq_from q = TriggerFrom \<longrightarrow> ps_from p = pm_from m) \<and> (rq_from q = TriggerTo \<longrightarrow> ps_from p = pm_to m)
     \<and> (rq_to q = TriggerFrom \<longrightarrow> ps_to p = pm_from m) \<and> (rq_to q = TriggerTo \<longrightarrow> ps_to p = pm_to m)
     \<and> pointer_triggers s (rq_pattern q) p)"

definition requirement_met :: "law_context \<Rightarrow> pattern_match \<Rightarrow> requirement_pattern \<Rightarrow> bool" where
  "requirement_met ctx m q = ((rq_search q \<noteq> SearchAfter \<and> edge_present (lc_before ctx) m q
      \<or> rq_search q \<noteq> SearchBefore \<and> edge_present (lc_after ctx) m q) \<noteq> rq_forbidden q)"

lemma relation_exists_iff: "relation_exists_in_snapshot s m q \<longleftrightarrow> edge_present s m q"
  by (cases "rq_from q"; cases "rq_to q")
    (auto simp: relation_exists_in_snapshot_def edge_present_def list_ex_iff endpoint_allowed_def pointer_triggers_def)

lemma requirements_satisfied_iff: "requirements_satisfied ctx m qs \<longleftrightarrow> (\<forall>q \<in> set qs. requirement_met ctx m q)"
proof -
  have "(if rq_forbidden q then \<not> requirement_exists ctx m q else requirement_exists ctx m q) \<longleftrightarrow> requirement_met ctx m q" for q
    by (cases "rq_search q") (auto simp: requirement_exists_def requirement_met_def relation_exists_iff)
  then show ?thesis by (simp add: requirements_satisfied_def list_all_iff)
qed

lemma pattern_law_violations:
  assumes "overlay_apply H (lc_before ctx) (lc_delta ctx) = Inr (lc_after ctx)"
    and "distinct (map os_name (sn_objects (lc_after ctx)))"
  shows "pattern_law_check r ctx = Inr (map (rule_violation r \<circ> match_of (lc_after ctx))
     (filter (\<lambda>p. pointer_triggers (lc_after ctx) (rl_trigger r) p
        \<and> \<not> (rl_requirements r \<noteq> [] \<and> (\<forall>q \<in> set (rl_requirements r). requirement_met ctx (match_of (lc_after ctx) p) q)))
      (watched_pointers ctx)))"
proof -
  have swap: "(\<lambda>m. if P m then None else Some (f m)) = (\<lambda>m. if \<not> P m then Some (f m) else None)" for P and f :: "pattern_match \<Rightarrow> law_violation"
    by auto
  show ?thesis
    unfolding pattern_law_check_def trigger_matches_watched [OF assms] requirements_satisfied_iff swap map_filter_if
    by (simp add: filter_map comp_def conj_commute)
qed

section \<open>The engine\<close>

definition engine_ok :: "rule_engine \<Rightarrow> bool" where
  "engine_ok engine = (distinct (map rl_name engine) \<and> list_all (\<lambda>r. rl_name r \<noteq> []) engine)"

lemma engine_add_find:
  assumes "engine_add r engine = Inr engine'"
  shows "engine_find engine' name = (if name = rl_name r then Some r else engine_find engine name)"
proof -
  have "update_first (\<lambda>x. rl_name x = rl_name r) (\<lambda>_. r) xs = Some ys \<Longrightarrow>
      List.find (\<lambda>x. rl_name x = name) ys = (if name = rl_name r then Some r else List.find (\<lambda>x. rl_name x = name) xs)" for xs ys
    by (induction xs arbitrary: ys) (auto split: if_splits)
  moreover have "update_first (\<lambda>x. rl_name x = rl_name r) (\<lambda>_. r) xs = None \<Longrightarrow>
      List.find (\<lambda>x. rl_name x = name) (xs @ [r]) = (if name = rl_name r then Some r else List.find (\<lambda>x. rl_name x = name) xs)" for xs
    by (induction xs) (auto split: if_splits)
  ultimately show ?thesis
    using assms by (auto simp: engine_add_def engine_find_def split: if_splits option.splits)
qed

lemma engine_add_ok:
  assumes "engine_ok engine" and "engine_add r engine = Inr engine'"
  shows "engine_ok engine'"
proof (cases "update_first (\<lambda>x. rl_name x = rl_name r) (\<lambda>_. r) engine")
  case None
  then have "engine' = engine @ [r]" "rl_name r \<noteq> []" using assms(2) by (auto simp: engine_add_def split: if_splits)
  then show ?thesis using assms(1) None by (auto simp: engine_ok_def update_first_None list_all_iff)
next
  case (Some xs)
  have "map rl_name xs = map rl_name engine"
    using Some by (induction engine arbitrary: xs) (auto split: if_splits)
  moreover have "list_all (\<lambda>r. rl_name r \<noteq> []) xs"
    using calculation assms(1) by (metis (no_types, lifting) engine_ok_def list_all_iff list_all_length length_map nth_map)
  ultimately show ?thesis using assms Some by (auto simp: engine_add_def engine_ok_def split: if_splits)
qed

end
