(* ===== verification/Rules_Text.thy ===== *)
theory Rules_Text
  imports Rules
begin

text \<open>
  The text of rules: the lines of a rule as the documentation of the format writes them, and that the
  parser reads the rules back from their lines.
\<close>

definition token :: "string \<Rightarrow> bool" where
  "token w = (plain_word w \<and> CHR ''#'' \<notin> set w)"

definition link_text :: "string \<Rightarrow> string \<Rightarrow> string \<Rightarrow> string" where
  "link_text from to relation = ''link '' @ from @ '' -> '' @ to @ '' : '' @ relation"

definition endpoint_text :: "endpoint_binding \<Rightarrow> string \<Rightarrow> string" where
  "endpoint_text binding type = (if binding = AnyObject then CHR ''~'' # type else type)"

definition search_text :: "requirement_search \<Rightarrow> string" where
  "search_text search = (case search of
     SearchBefore \<Rightarrow> '' before '' | SearchAfter \<Rightarrow> '' after '' | SearchBeforeOrAfter \<Rightarrow> '' exists '')"

definition requirement_link :: "requirement_pattern \<Rightarrow> string" where
  "requirement_link q = link_text (endpoint_text (rq_from q) (rp_from_type (rq_pattern q)))
     (endpoint_text (rq_to q) (rp_to_type (rq_pattern q))) (rp_relation (rq_pattern q))"

definition requirement_line :: "requirement_pattern \<Rightarrow> string" where
  "requirement_line q = (if rq_forbidden q then ''forbid'' else ''require'') @ search_text (rq_search q) @ requirement_link q"

definition rule_lines :: "rule \<Rightarrow> string list" where
  "rule_lines r =
     [''rule '' @ rl_name r,
      ''when '' @ link_text (rp_from_type (rl_trigger r)) (rp_to_type (rl_trigger r)) (rp_relation (rl_trigger r))]
     @ map requirement_line (rl_requirements r)
     @ [''deny reason '' @ [quote_mark] @ rl_reason r @ [quote_mark]]"

definition rules_text :: "rule list \<Rightarrow> string" where
  "rules_text rules = concat (map (\<lambda>l. l @ [newline]) (concat (map rule_lines rules)))"

text \<open>What the lines can say.\<close>

definition endpoint_writable :: "endpoint_binding \<Rightarrow> endpoint_binding \<Rightarrow> string \<Rightarrow> bool" where
  "endpoint_writable pinned binding type =
     (if binding = AnyObject then type = [] \<or> token type \<and> type \<noteq> ''*''
      else binding = pinned \<and> token type \<and> hd type \<noteq> CHR ''~'')"

definition requirement_writable :: "requirement_pattern \<Rightarrow> bool" where
  "requirement_writable q =
     (endpoint_writable TriggerFrom (rq_from q) (rp_from_type (rq_pattern q))
      \<and> endpoint_writable TriggerTo (rq_to q) (rp_to_type (rq_pattern q)) \<and> token (rp_relation (rq_pattern q)))"

definition rule_writable :: "rule \<Rightarrow> bool" where
  "rule_writable r =
     (token (rl_name r) \<and> token (rp_from_type (rl_trigger r)) \<and> token (rp_to_type (rl_trigger r))
      \<and> token (rp_relation (rl_trigger r)) \<and> list_all requirement_writable (rl_requirements r)
      \<and> rl_severity r = Error \<and> newline \<notin> set (rl_reason r) \<and> CHR ''#'' \<notin> set (rl_reason r))"

section \<open>Words and lines\<close>

lemma marks: "newline = CHR 0x0A" "quote_mark = CHR 0x22"
  by code_simp+

lemma word_at_six:
  "word_at [a, b, c, d, e, g] (Suc 0) = b" "word_at [a, b, c, d, e, g] 3 = d" "word_at [a, b, c, d, e, g] 5 = g"
  by (simp_all add: word_at_def)

lemma tokenD:
  assumes "token w"
  shows "w \<noteq> []" and "\<not> is_space (hd w)" and "\<not> is_space (last w)" and "newline \<notin> set w" and "CHR ''#'' \<notin> set w"
    and "list_all (\<lambda>c. \<not> is_space c) w"
proof -
  show w: "w \<noteq> []" "CHR ''#'' \<notin> set w" "list_all (\<lambda>c. \<not> is_space c) w"
    using assms by (simp_all add: token_def plain_word_def)
  then show "\<not> is_space (hd w)" "\<not> is_space (last w)" by (auto simp: list_all_iff)
  show "newline \<notin> set w" using w(3) is_space_blank(2) by (auto simp: list_all_iff)
qed

lemma words_token: "token w \<Longrightarrow> text_words_from [] (w @ CHR '' '' # rest) = w # text_words_from [] rest"
  using text_words_plain [of w "CHR '' ''" rest] by (simp add: token_def text_words_def)

lemma words_token_end: "token w \<Longrightarrow> text_words_from [] w = [w]"
  using text_words_plain_end [of w] by (simp add: token_def text_words_def)

lemma token_literals:
  "token ''link''" "token ''->''" "token '':''" "token ''rule''" "token ''when''" "token ''require''" "token ''forbid''"
  "token ''deny''"
  by (simp_all add: token_def plain_word_def is_space_def)

lemma words_link:
  assumes "token f" and "token t" and "token r"
  shows "text_words (link_text f t r) = [''link'', f, ''->'', t, '':'', r]"
  using words_token [OF token_literals(1), of "f @ '' -> '' @ t @ '' : '' @ r"] words_token [OF assms(1), of "''-> '' @ t @ '' : '' @ r"]
    words_token [OF token_literals(2), of "t @ '' : '' @ r"] words_token [OF assms(2), of "'': '' @ r"]
    words_token [OF token_literals(3), of r] words_token_end [OF assms(3)]
  by (simp add: text_words_def link_text_def)

lemma is_link_words:
  assumes "token f" and "token t" and "token r"
  shows "is_link_clause [''link'', f, ''->'', t, '':'', r]"
  using tokenD(1) [OF assms(1)] tokenD(1) [OF assms(2)] tokenD(1) [OF assms(3)] by (simp add: is_link_clause_def word_at_def)

lemma parse_trigger_text:
  assumes "token (rp_from_type p)" and "token (rp_to_type p)" and "token (rp_relation p)"
  shows "parse_relation_pattern (link_text (rp_from_type p) (rp_to_type p) (rp_relation p)) = Inr p"
  using is_link_words [OF assms]
  by (simp add: parse_relation_pattern_def words_link [OF assms] word_at_six)

lemma parse_endpoint_text:
  assumes "endpoint_writable (if side then TriggerFrom else TriggerTo) binding type"
  shows "parse_endpoint (endpoint_text binding type) side = (type, binding)" and "token (endpoint_text binding type)"
proof -
  show "parse_endpoint (endpoint_text binding type) side = (type, binding)"
    using assms tokenD(1) [of type]
    by (auto simp: parse_endpoint_def endpoint_text_def endpoint_writable_def Let_def split: if_splits)
  show "token (endpoint_text binding type)"
    using assms by (auto simp: endpoint_text_def endpoint_writable_def token_def plain_word_def is_space_def split: if_splits)
qed

lemma parse_requirement_text:
  assumes "requirement_writable q"
  shows "parse_requirement_pattern (requirement_link q) = Inr (q\<lparr>rq_search := SearchBeforeOrAfter, rq_forbidden := False\<rparr>)"
proof -
  let ?p = "rq_pattern q"
  have ends: "endpoint_writable (if True then TriggerFrom else TriggerTo) (rq_from q) (rp_from_type ?p)"
      "endpoint_writable (if False then TriggerFrom else TriggerTo) (rq_to q) (rp_to_type ?p)" "token (rp_relation ?p)"
    using assms by (simp_all add: requirement_writable_def)
  note f = parse_endpoint_text [OF ends(1)] and t = parse_endpoint_text [OF ends(2)]
  note words = words_link [OF f(2) t(2) ends(3)] and clause = is_link_words [OF f(2) t(2) ends(3)]
  show ?thesis
    by (simp add: parse_requirement_pattern_def requirement_link_def words clause word_at_six f(1) t(1) Let_def)
qed

text \<open>A line that starts with a command and ends in something visible is read as it is.\<close>

lemma strip_command:
  assumes "token w" and "CHR ''#'' \<notin> set rest" and "rest \<noteq> []" and "\<not> is_space (last rest)"
  shows "strip_comment (w @ rest) = w @ rest"
  using assms tokenD [OF assms(1)] by (intro strip_comment_id) auto

lemma link_text_chars:
  assumes "token f" and "token t" and "token r"
  shows "CHR ''#'' \<notin> set (link_text f t r)" and "newline \<notin> set (link_text f t r)" and "link_text f t r \<noteq> []"
    and "\<not> is_space (last (link_text f t r))"
  using tokenD [OF assms(1)] tokenD [OF assms(2)] tokenD [OF assms(3)] by (auto simp: link_text_def marks)

section \<open>The clauses\<close>

text \<open>A line without a comment goes to its clause.\<close>

lemma step_line:
  assumes "strip_comment line = line" and "line \<noteq> []"
  shows "parse_rules_step (out, b) line
      = res_bind (consume_rule_line line b) (\<lambda>(r, b). Inr (case r of None \<Rightarrow> out | Some r \<Rightarrow> out @ [r], b))"
    and "text_words line = ''rule'' # name # ws \<Longrightarrow> consume_rule_line line b = consume_rule_name name b"
    and "text_words line = ''when'' # ws \<Longrightarrow> rb_active b \<Longrightarrow> line = ''when '' @ l \<Longrightarrow>
      parse_relation_pattern l = Inr p \<Longrightarrow>
      consume_rule_line line b = Inr (None, b\<lparr>rb_draft := (rb_draft b)\<lparr>rl_trigger := p\<rparr>, rb_has_trigger := True\<rparr>)"
    and "text_words line = ''require'' # ws \<Longrightarrow> rb_active b \<Longrightarrow>
      consume_rule_line line b = res_bind (add_requirement ''require'' RequireUsage False line b) (\<lambda>b. Inr (None, b))"
    and "text_words line = ''forbid'' # ws \<Longrightarrow> rb_active b \<Longrightarrow>
      consume_rule_line line b = res_bind (add_requirement ''forbid'' ForbidUsage True line b) (\<lambda>b. Inr (None, b))"
    and "text_words line = ''deny'' # ws \<Longrightarrow> rb_active b \<Longrightarrow> consume_rule_line line b = consume_deny line b"
  using assms by (simp_all add: parse_rules_step_def consume_rule_line_def word_at_def Let_def)

lemma consume_name_line:
  assumes "token name" and "\<not> rb_active b"
  shows "parse_rules_step (out, b) (''rule '' @ name)
    = Inr (out, \<lparr>rb_draft = blank_rule\<lparr>rl_name := name\<rparr>, rb_active = True, rb_has_trigger = False\<rparr>)"
proof -
  define line where "line = ''rule '' @ name"
  have strip: "strip_comment line = line" "line \<noteq> []"
    using strip_command [OF token_literals(4), of "CHR '' '' # name"] tokenD [OF assms(1)] by (auto simp: line_def)
  have "text_words line = [''rule'', name]"
    using words_token [OF token_literals(4), of name] words_token_end [OF assms(1)] by (simp add: text_words_def line_def)
  then show ?thesis
    using step_line(1,2) [OF strip] assms tokenD(1) [OF assms(1)]
    unfolding line_def [symmetric] by (simp add: consume_rule_name_def)
qed

lemma consume_when_line:
  assumes "token (rp_from_type p)" and "token (rp_to_type p)" and "token (rp_relation p)" and "rb_active b"
  shows "parse_rules_step (out, b) (''when '' @ link_text (rp_from_type p) (rp_to_type p) (rp_relation p))
    = Inr (out, b\<lparr>rb_draft := (rb_draft b)\<lparr>rl_trigger := p\<rparr>, rb_has_trigger := True\<rparr>)"
proof -
  let ?l = "link_text (rp_from_type p) (rp_to_type p) (rp_relation p)"
  define line where "line = ''when '' @ ?l"
  have strip: "strip_comment line = line" "line \<noteq> []"
    using strip_command [OF token_literals(5), of "CHR '' '' # ?l"] link_text_chars [OF assms(1-3)] by (auto simp: line_def)
  have "text_words line = ''when'' # text_words ?l"
    using words_token [OF token_literals(5), of ?l] by (simp add: text_words_def line_def)
  from step_line(3) [OF strip this assms(4) line_def parse_trigger_text [OF assms(1-3)]]
  show ?thesis using step_line(1) [OF strip] unfolding line_def [symmetric] by simp
qed

lemma clause_search_text:
  "clause_search ''require'' (''require'' @ search_text s @ rest) = Some (s, ''require'' @ search_text s)"
  "clause_search ''forbid'' (''forbid'' @ search_text s @ rest) = Some (s, ''forbid'' @ search_text s)"
  by (cases s; simp add: clause_search_def search_text_def starts_with_def)+

lemma consume_requirement_line:
  assumes "requirement_writable q" and "rb_active b"
  shows "parse_rules_step (out, b) (requirement_line q)
    = Inr (out, b\<lparr>rb_draft := (rb_draft b)\<lparr>rl_requirements := rl_requirements (rb_draft b) @ [q]\<rparr>\<rparr>)"
proof -
  define word where "word = (if rq_forbidden q then ''forbid'' else ''require'')"
  let ?rest = "search_text (rq_search q) @ requirement_link q"
  have tok: "token word" by (simp add: word_def token_literals)
  have ends: "token (endpoint_text (rq_from q) (rp_from_type (rq_pattern q)))"
      "token (endpoint_text (rq_to q) (rp_to_type (rq_pattern q)))" "token (rp_relation (rq_pattern q))"
    using assms(1) parse_endpoint_text(2) [of True "rq_from q"] parse_endpoint_text(2) [of False "rq_to q"]
    by (simp_all add: requirement_writable_def)
  have search: "CHR ''#'' \<notin> set (search_text (rq_search q))" "\<exists>rest. search_text (rq_search q) = CHR '' '' # rest"
    by (simp_all add: search_text_def split: requirement_search.split)
  have line: "requirement_line q = word @ ?rest" by (simp add: requirement_line_def word_def)
  have strip: "strip_comment (requirement_line q) = requirement_line q" "requirement_line q \<noteq> []"
    using strip_command [OF tok, of ?rest] link_text_chars [OF ends] search tokenD(1) [OF tok]
    by (simp_all add: requirement_link_def line)
  obtain rest where "search_text (rq_search q) = CHR '' '' # rest" using search(2) ..
  then have words: "text_words (requirement_line q) = word # text_words_from [] (rest @ requirement_link q)"
    using words_token [OF tok, of "rest @ requirement_link q"] by (simp add: text_words_def line)
  have clause: "add_requirement word usage (rq_forbidden q) (requirement_line q) b
      = Inr (b\<lparr>rb_draft := (rb_draft b)\<lparr>rl_requirements := rl_requirements (rb_draft b) @ [q]\<rparr>\<rparr>)" for usage
    using parse_requirement_text [OF assms(1)] clause_search_text [of "rq_search q" "requirement_link q"]
    by (simp add: add_requirement_def line word_def Let_def)
  show ?thesis
    using clause step_line(1) [OF strip] step_line(4,5) [OF strip, of _ b] words assms(2)
    by (cases "rq_forbidden q") (simp_all add: word_def)
qed

lemma quoted_reason_text:
  assumes "quote_mark \<notin> set before"
  shows "quoted_reason (before @ [quote_mark] @ reason @ [quote_mark]) = Inr reason"
proof -
  have "dropWhile (\<lambda>c. c \<noteq> quote_mark) (before @ rest) = dropWhile (\<lambda>c. c \<noteq> quote_mark) rest" for rest
    using assms by (intro dropWhile_append2) auto
  then show ?thesis by (simp add: quoted_reason_def)
qed

lemma consume_deny_line:
  assumes "CHR ''#'' \<notin> set reason" and "rb_active b" and "rb_has_trigger b"
  shows "parse_rules_step (out, b) (''deny reason '' @ [quote_mark] @ reason @ [quote_mark])
    = Inr (out @ [(rb_draft b)\<lparr>rl_reason := reason\<rparr>], new_rule_builder)"
proof -
  let ?tail = "[quote_mark] @ reason @ [quote_mark]"
  define line where "line = ''deny reason '' @ ?tail"
  have tail: "CHR ''#'' \<notin> set ('' reason '' @ ?tail)" "'' reason '' @ ?tail \<noteq> []" "\<not> is_space (last ('' reason '' @ ?tail))"
    using assms(1) by (simp_all add: marks is_space_def)
  have strip: "strip_comment line = line" "line \<noteq> []"
    using strip_command [OF token_literals(8) tail] by (simp_all add: line_def)
  have words: "text_words line = ''deny'' # text_words_from [] (''reason '' @ ?tail)"
    using words_token [OF token_literals(8), of "''reason '' @ ?tail"] by (simp add: text_words_def line_def)
  have "quoted_reason line = Inr reason"
    unfolding line_def by (rule quoted_reason_text) (simp add: marks)
  moreover have "starts_with line ''deny reason ''" by (simp add: line_def starts_with_def)
  ultimately have "consume_deny line b = Inr (Some ((rb_draft b)\<lparr>rl_reason := reason\<rparr>), new_rule_builder)"
    using assms(3) by (simp add: consume_deny_def)
  then show ?thesis
    using step_line(1,6) [OF strip, of _ b] words assms(2) unfolding line_def [symmetric] by simp
qed

section \<open>The round trip\<close>

lemma consume_requirement_lines:
  assumes "list_all requirement_writable qs" and "rb_active b"
  shows "res_fold parse_rules_step (out, b) (map requirement_line qs)
    = Inr (out, b\<lparr>rb_draft := (rb_draft b)\<lparr>rl_requirements := rl_requirements (rb_draft b) @ qs\<rparr>\<rparr>)"
  using assms by (induction qs arbitrary: b) (simp_all add: consume_requirement_line)

lemma consume_rule_lines:
  assumes "rule_writable r"
  shows "res_fold parse_rules_step (out, new_rule_builder) (rule_lines r) = Inr (out @ [r], new_rule_builder)"
proof -
  have r: "token (rl_name r)" "token (rp_from_type (rl_trigger r))" "token (rp_to_type (rl_trigger r))"
      "token (rp_relation (rl_trigger r))" "list_all requirement_writable (rl_requirements r)"
      "rl_severity r = Error" "CHR ''#'' \<notin> set (rl_reason r)"
    using assms by (simp_all add: rule_writable_def)
  have new: "\<not> rb_active new_rule_builder" by (simp add: new_rule_builder_def)
  show ?thesis
    unfolding rule_lines_def res_fold_append
    by (simp only: res_fold.simps res_bind_simps consume_name_line [OF r(1) new] rule_builder.simps
        consume_when_line [OF r(2-4)] consume_requirement_lines [OF r(5)] consume_deny_line [OF r(7)])
      (simp add: r(6) blank_rule_def)
qed

lemma rule_lines_clean:
  assumes "rule_writable r"
  shows "list_all (\<lambda>l. newline \<notin> set l) (rule_lines r)"
proof -
  have q: "newline \<notin> set (requirement_line q)" if q: "requirement_writable q" for q
  proof -
    have "token (endpoint_text (rq_from q) (rp_from_type (rq_pattern q)))"
        "token (endpoint_text (rq_to q) (rp_to_type (rq_pattern q)))" "token (rp_relation (rq_pattern q))"
      using q parse_endpoint_text(2) [of True "rq_from q"] parse_endpoint_text(2) [of False "rq_to q"]
      by (simp_all add: requirement_writable_def)
    from link_text_chars(2) [OF this] show ?thesis
      by (simp add: requirement_line_def requirement_link_def search_text_def marks split: requirement_search.split)
  qed
  have "newline \<notin> set (link_text (rp_from_type (rl_trigger r)) (rp_to_type (rl_trigger r)) (rp_relation (rl_trigger r)))"
    using assms by (intro link_text_chars(2)) (simp_all add: rule_writable_def)
  then show ?thesis
    using assms q tokenD(4) [of "rl_name r"]
    by (auto simp: rule_lines_def rule_writable_def list_all_iff marks)
qed

lemma parse_rules_text:
  assumes "list_all rule_writable rules"
  shows "parse_rules (rules_text rules) = Inr rules"
proof -
  have "res_fold parse_rules_step (out, new_rule_builder) (concat (map rule_lines rules)) = Inr (out @ rules, new_rule_builder)" for out
    using assms by (induction rules arbitrary: out) (simp_all add: res_fold_append consume_rule_lines)
  moreover have "list_all (\<lambda>l. newline \<notin> set l) (concat (map rule_lines rules))"
    using assms rule_lines_clean by (auto simp: list_all_iff)
  from text_lines_append [OF this, of "[]"] have "text_lines (rules_text rules) = concat (map rule_lines rules)"
    by (simp add: rules_text_def)
  ultimately show ?thesis by (simp add: parse_rules_def new_rule_builder_def)
qed

end
