(* ===== verification/Program_Builder.thy ===== *)
theory Program_Builder
  imports Vm
begin

text \<open>
  The builder of programs (\<open>src/compiler/program_builder.cpp\<close>, \<open>src/compiler/script_compiler.cpp\<close>): symbol
  tables with their indexes, and an instruction for every operation.  An operation returns the new builder,
  some also a symbol or a reference; \<open>ref_for\<close> throws on an object the snapshot does not have.  Where two
  arguments of a call both allocate symbols, C++ leaves the order of their evaluation open; it is the
  parameter \<open>ltr\<close> (left to right).
\<close>

type_synonym program_ref = "u64 \<times> u64"

record program_builder =
  pb_program :: kernel_program
  pb_string_symbols :: "(string, u64) omap"
  pb_type_symbols :: "(string, u64) omap"
  pb_relation_symbols :: "(string, u64) omap"
  pb_temp_objects :: "(u32, program_ref) omap"
  pb_created_names :: "(string, program_ref) omap"
  pb_next_temp_object :: u32
  pb_next_temp_pointer :: u64

definition new_builder :: program_builder where
  "new_builder = \<lparr>pb_program = \<lparr>pr_symbols = \<lparr>sy_strings = [], sy_type_names = [], sy_relation_names = []\<rparr>, pr_instructions = []\<rparr>,
     pb_string_symbols = [], pb_type_symbols = [], pb_relation_symbols = [], pb_temp_objects = [], pb_created_names = [],
     pb_next_temp_object = 1, pb_next_temp_pointer = 1\<rparr>"

abbreviation pb_symbols :: "program_builder \<Rightarrow> program_symbol_table" where
  "pb_symbols b \<equiv> pr_symbols (pb_program b)"

definition set_symbols :: "program_symbol_table \<Rightarrow> program_builder \<Rightarrow> program_builder" where
  "set_symbols s b = b\<lparr>pb_program := (pb_program b)\<lparr>pr_symbols := s\<rparr>\<rparr>"

definition pb_emit :: "instruction_op \<Rightarrow> attr_value list \<Rightarrow> program_builder \<Rightarrow> program_builder" where
  "pb_emit op args b = b\<lparr>pb_program := (pb_program b)\<lparr>pr_instructions :=
     pr_instructions (pb_program b) @ [\<lparr>in_op = op, in_args = args\<rparr>]\<rparr>\<rparr>"

section \<open>Symbols\<close>

text \<open>A table and its index; a name of the snapshot goes to the place its identifier gives.\<close>

definition import_name :: "u32 \<times> string \<Rightarrow> string list \<times> (string, u64) omap \<Rightarrow> string list \<times> (string, u64) omap" where
  "import_name entry acc =
     (let (i, name) = entry; (table, symbols) = acc
      in if i = 0 \<or> name = [] \<or> om_contains symbols name then acc
         else
           let table = (if length table < unat i then table @ replicate (unat i - length table) [] else table)
           in (table[unat (i - 1) := name], om_emplace name (ucast (i - 1)) symbols))"

definition import_symbols :: "world_snapshot \<Rightarrow> program_builder \<Rightarrow> program_builder" where
  "import_symbols s b =
     (let (types, type_symbols) = fold import_name (sn_type_names s) (sy_type_names (pb_symbols b), pb_type_symbols b);
          (relations, relation_symbols) =
            fold import_name (sn_relation_names s) (sy_relation_names (pb_symbols b), pb_relation_symbols b)
      in (set_symbols ((pb_symbols b)\<lparr>sy_type_names := types, sy_relation_names := relations\<rparr>) b)
           \<lparr>pb_type_symbols := type_symbols, pb_relation_symbols := relation_symbols\<rparr>)"

text \<open>The index of a name, and what becomes of the table and its index.\<close>

definition allot_symbol :: "string \<Rightarrow> string list \<Rightarrow> (string, u64) omap \<Rightarrow> u64 \<times> string list \<times> (string, u64) omap" where
  "allot_symbol key table symbols =
     (case om_find symbols key of
        Some i \<Rightarrow> (i, table, symbols)
      | None \<Rightarrow> let i = of_nat (length table) in (i, table @ [key], om_emplace key i symbols))"

definition pb_string_symbol :: "string \<Rightarrow> program_builder \<Rightarrow> u64 \<times> program_builder" where
  "pb_string_symbol key b =
     (let (i, table, symbols) = allot_symbol key (sy_strings (pb_symbols b)) (pb_string_symbols b)
      in (i, (set_symbols ((pb_symbols b)\<lparr>sy_strings := table\<rparr>) b)\<lparr>pb_string_symbols := symbols\<rparr>))"

definition pb_type_symbol :: "string \<Rightarrow> program_builder \<Rightarrow> u64 \<times> program_builder" where
  "pb_type_symbol key b =
     (let (i, table, symbols) = allot_symbol key (sy_type_names (pb_symbols b)) (pb_type_symbols b)
      in (i, (set_symbols ((pb_symbols b)\<lparr>sy_type_names := table\<rparr>) b)\<lparr>pb_type_symbols := symbols\<rparr>))"

definition pb_relation_symbol :: "string \<Rightarrow> program_builder \<Rightarrow> u64 \<times> program_builder" where
  "pb_relation_symbol key b =
     (let (i, table, symbols) = allot_symbol key (sy_relation_names (pb_symbols b)) (pb_relation_symbols b)
      in (i, (set_symbols ((pb_symbols b)\<lparr>sy_relation_names := table\<rparr>) b)\<lparr>pb_relation_symbols := symbols\<rparr>))"

section \<open>Instructions\<close>

definition pb_intern_type :: "string \<Rightarrow> program_builder \<Rightarrow> program_builder" where
  "pb_intern_type name b = (let (i, b) = pb_type_symbol name b in pb_emit IInternType [UInt64Value i] b)"

definition pb_intern_relation :: "string \<Rightarrow> program_builder \<Rightarrow> program_builder" where
  "pb_intern_relation name b = (let (i, b) = pb_relation_symbol name b in pb_emit IInternRelation [UInt64Value i] b)"

definition pb_object_by_name :: "string \<Rightarrow> program_builder \<Rightarrow> program_ref \<times> program_builder" where
  "pb_object_by_name name b = (let (i, b) = pb_string_symbol name b in ((1, i), b))"

definition pb_temp_object :: "u32 \<Rightarrow> program_ref" where
  "pb_temp_object temp = (0, ucast temp)"

definition pb_pointer_by_id :: "pointer_id \<Rightarrow> program_ref" where
  "pb_pointer_by_id i = (1, i)"

definition pb_temp_pointer :: "u64 \<Rightarrow> program_ref" where
  "pb_temp_pointer temp = (0, temp)"

definition ref_args :: "program_ref \<Rightarrow> attr_value list" where
  "ref_args r = [UInt64Value (fst r), UInt64Value (snd r)]"

text \<open>What \<open>create_object\<close> and the compilation of a creating operation share.\<close>

definition emit_create_object :: "u32 \<Rightarrow> string \<Rightarrow> string \<Rightarrow> program_builder \<Rightarrow> program_builder" where
  "emit_create_object temp name type b =
     (let ref = pb_temp_object temp;
          b = b\<lparr>pb_temp_objects := om_emplace temp ref (pb_temp_objects b),
                pb_created_names := om_emplace name ref (pb_created_names b)\<rparr>;
          (name_symbol, b) = pb_string_symbol name b; (type_symbol, b) = pb_type_symbol type b
      in pb_emit ICreateObject [UInt64Value (ucast temp), UInt64Value name_symbol, UInt64Value type_symbol] b)"

definition pb_create_object :: "string \<Rightarrow> string \<Rightarrow> program_builder \<Rightarrow> program_ref \<times> program_builder" where
  "pb_create_object name type b =
     (let b = pb_intern_type type b; temp = pb_next_temp_object b
      in (pb_temp_object temp, emit_create_object temp name type (b\<lparr>pb_next_temp_object := temp + 1\<rparr>)))"

definition pb_assert_object :: "program_ref \<Rightarrow> program_builder \<Rightarrow> program_builder" where
  "pb_assert_object r b = pb_emit IAssertObject (ref_args r) b"

definition pb_ensure_object :: "world_snapshot \<Rightarrow> string \<Rightarrow> string \<Rightarrow> program_builder \<Rightarrow> program_ref \<times> program_builder" where
  "pb_ensure_object s name type b =
     (case om_find (pb_created_names b) name of
        Some ref \<Rightarrow> (ref, b)
      | None \<Rightarrow>
          if object_named s name \<noteq> None
          then (let (ref, b) = pb_object_by_name name b in (ref, pb_assert_object ref b))
          else pb_create_object name type b)"

definition pb_create_pointer ::
    "program_ref \<Rightarrow> program_ref \<Rightarrow> string \<Rightarrow> f64 \<Rightarrow> causal_role \<Rightarrow> string \<Rightarrow> program_builder \<Rightarrow> program_ref \<times> program_builder" where
  "pb_create_pointer from to relation weight role law_domain b =
     (let b = pb_intern_relation relation b; temp = pb_next_temp_pointer b;
          b = b\<lparr>pb_next_temp_pointer := temp + 1\<rparr>;
          (relation_symbol, b) = pb_relation_symbol relation b; (domain_symbol, b) = pb_string_symbol law_domain b
      in (pb_temp_pointer temp,
          pb_emit ICreatePointer ([UInt64Value temp] @ ref_args from @ ref_args to
            @ [UInt64Value relation_symbol, Float64Value weight, UInt64Value (ucast (role_to_byte role)),
               UInt64Value domain_symbol]) b))"

definition pb_set_object_type :: "program_ref \<Rightarrow> string \<Rightarrow> program_builder \<Rightarrow> program_builder" where
  "pb_set_object_type r type b =
     (let b = pb_intern_type type b; (i, b) = pb_type_symbol type b
      in pb_emit ISetObjectType (ref_args r @ [UInt64Value i]) b)"

definition pb_set_object_existence :: "program_ref \<Rightarrow> existence_state \<Rightarrow> program_builder \<Rightarrow> program_builder" where
  "pb_set_object_existence r e b =
     pb_emit ISetObjectExistence (ref_args r @ [UInt64Value (ucast (existence_to_byte e))]) b"

definition pb_set_object_attribute :: "program_ref \<Rightarrow> string \<Rightarrow> attr_value \<Rightarrow> program_builder \<Rightarrow> program_builder" where
  "pb_set_object_attribute r key v b =
     (let (i, b) = pb_string_symbol key b in pb_emit ISetObjectAttribute (ref_args r @ [UInt64Value i, v]) b)"

definition pb_remove_object_attribute :: "program_ref \<Rightarrow> string \<Rightarrow> program_builder \<Rightarrow> program_builder" where
  "pb_remove_object_attribute r key b =
     (let (i, b) = pb_string_symbol key b in pb_emit IRemoveObjectAttribute (ref_args r @ [UInt64Value i]) b)"

definition pb_set_pointer_weight :: "program_ref \<Rightarrow> f64 \<Rightarrow> program_builder \<Rightarrow> program_builder" where
  "pb_set_pointer_weight r w b = pb_emit ISetPointerWeight (ref_args r @ [Float64Value w]) b"

definition pb_set_pointer_attribute :: "program_ref \<Rightarrow> string \<Rightarrow> attr_value \<Rightarrow> program_builder \<Rightarrow> program_builder" where
  "pb_set_pointer_attribute r key v b =
     (let (i, b) = pb_string_symbol key b in pb_emit ISetPointerAttribute (ref_args r @ [UInt64Value i, v]) b)"

definition pb_remove_pointer_attribute :: "program_ref \<Rightarrow> string \<Rightarrow> program_builder \<Rightarrow> program_builder" where
  "pb_remove_pointer_attribute r key b =
     (let (i, b) = pb_string_symbol key b in pb_emit IRemovePointerAttribute (ref_args r @ [UInt64Value i]) b)"

definition pb_expire_pointer :: "program_ref \<Rightarrow> program_builder \<Rightarrow> program_builder" where
  "pb_expire_pointer r b = pb_emit IExpirePointer (ref_args r) b"

definition pb_assert_pointer :: "program_ref \<Rightarrow> program_builder \<Rightarrow> program_builder" where
  "pb_assert_pointer r b = pb_emit IAssertPointer (ref_args r) b"

definition pb_assert_fact :: "fact_id \<Rightarrow> program_builder \<Rightarrow> program_builder" where
  "pb_assert_fact f b = pb_emit IAssertFact [HashValue f] b"

definition event_entries :: "('v \<Rightarrow> attr_value) \<Rightarrow> (string \<times> 'v) list \<Rightarrow> attr_value list \<times> program_builder \<Rightarrow> attr_value list \<times> program_builder" where
  "event_entries value entries acc =
     fold (\<lambda>(key, v) (args, b). let (i, b) = pb_string_symbol key b in (args @ [UInt64Value i, value v], b)) entries acc"

definition pb_emit_event :: "trace_event \<Rightarrow> program_builder \<Rightarrow> program_builder" where
  "pb_emit_event event b =
     (let (i, b) = pb_string_symbol (ev_event event) b;
          (args, b) = event_entries StringValue (ev_fields event)
            ([UInt64Value i, UInt64Value (of_nat (length (ev_fields event)))], b);
          (args, b) = event_entries Float64Value (ev_measurements event)
            (args @ [UInt64Value (of_nat (length (ev_measurements event)))], b)
      in pb_emit IEmitEvent args b)"

section \<open>Deltas\<close>

datatype builder_error = CannotCompileObject object_id

definition pb_ref_for :: "world_snapshot \<Rightarrow> object_ref \<Rightarrow> program_builder \<Rightarrow> builder_error + program_ref \<times> program_builder" where
  "pb_ref_for s ref b = (case ref of
     RefTemp t \<Rightarrow> Inr ((0, ucast t), b)
   | RefObject i \<Rightarrow>
       (case snapshot_object s i of
          None \<Rightarrow> Inl (CannotCompileObject i)
        | Some x \<Rightarrow>
            (case om_find (pb_string_symbols b) (os_name x) of
               Some k \<Rightarrow> Inr ((1, k), b)
             | None \<Rightarrow> (let (k, b) = pb_string_symbol (os_name x) b in Inr ((1, k), b)))))"

text \<open>Two references that are the arguments of one call.\<close>

definition both_refs ::
    "bool \<Rightarrow> world_snapshot \<Rightarrow> object_ref \<Rightarrow> object_ref \<Rightarrow> program_builder \<Rightarrow>
     builder_error + (program_ref \<times> program_ref) \<times> program_builder" where
  "both_refs ltr s x y b =
     (if ltr then res_bind (pb_ref_for s x b) (\<lambda>(p, b). res_bind (pb_ref_for s y b) (\<lambda>(q, b). Inr ((p, q), b)))
      else res_bind (pb_ref_for s y b) (\<lambda>(q, b). res_bind (pb_ref_for s x b) (\<lambda>(p, b). Inr ((p, q), b))))"

text \<open>The names the delta has interned so far.\<close>

type_synonym delta_names = "(u32, string) omap \<times> (u32, string) omap"

definition type_name_for :: "world_snapshot \<Rightarrow> delta_names \<Rightarrow> type_id \<Rightarrow> string" where
  "type_name_for s names t = (case om_find (fst names) t of Some n \<Rightarrow> n | None \<Rightarrow> snapshot_type_name s t)"

definition relation_name_for :: "world_snapshot \<Rightarrow> delta_names \<Rightarrow> relation_type \<Rightarrow> string" where
  "relation_name_for s names r = (case om_find (snd names) r of Some n \<Rightarrow> n | None \<Rightarrow> snapshot_relation_name s r)"

definition remember_name :: "u32 \<Rightarrow> string \<Rightarrow> (u32, string) omap \<Rightarrow> (u32, string) omap" where
  "remember_name i name names = (if i \<noteq> 0 then om_emplace i name names else names)"

definition append_create_object :: "create_object_op \<Rightarrow> string \<Rightarrow> program_builder \<Rightarrow> program_builder" where
  "append_create_object c type b =
     (let b = emit_create_object (co_temp c) (co_name c) type (pb_intern_type type b);
          b = b\<lparr>pb_next_temp_object := max (pb_next_temp_object b) (co_temp c + 1)\<rparr>
      in fold (\<lambda>(key, v). pb_set_object_attribute (pb_temp_object (co_temp c)) key v) (co_attributes c) b)"

definition append_create_pointer ::
    "bool \<Rightarrow> world_snapshot \<Rightarrow> create_pointer_op \<Rightarrow> string \<Rightarrow> program_builder \<Rightarrow> builder_error + program_builder" where
  "append_create_pointer ltr s c relation b =
     res_bind (both_refs ltr s (cp_from c) (cp_to c) b) (\<lambda>((from, to), b).
       let (pointer, b) = pb_create_pointer from to relation (cp_weight c) (cp_role c) (cp_law_domain c) b
       in Inr (fold (\<lambda>(key, v). pb_set_pointer_attribute pointer key v) (cp_attributes c) b))"

definition append_operation ::
    "bool \<Rightarrow> world_snapshot \<Rightarrow> delta_names \<times> program_builder \<Rightarrow> operation \<Rightarrow> builder_error + delta_names \<times> program_builder" where
  "append_operation ltr s acc op =
     (let (names, b) = acc;
          keep = (\<lambda>b. Inr (names, b)); on_object = (\<lambda>r f. res_bind (pb_ref_for s r b) (\<lambda>(ref, b). keep (f ref b)))
      in case op_body op of
           InternType name i \<Rightarrow> Inr ((remember_name i name (fst names), snd names), pb_intern_type name b)
         | InternRelation name i \<Rightarrow> Inr ((fst names, remember_name i name (snd names)), pb_intern_relation name b)
         | CreateObject c \<Rightarrow> keep (append_create_object c (type_name_for s names (co_type c)) b)
         | SetObjectType r t \<Rightarrow> on_object r (\<lambda>ref. pb_set_object_type ref (type_name_for s names t))
         | SetObjectExistence r e \<Rightarrow> on_object r (\<lambda>ref. pb_set_object_existence ref e)
         | SetObjectAttribute r a \<Rightarrow> on_object r (\<lambda>ref. pb_set_object_attribute ref (fst a) (snd a))
         | RemoveObjectAttribute r k \<Rightarrow> on_object r (\<lambda>ref. pb_remove_object_attribute ref k)
         | CreatePointer c \<Rightarrow>
             res_bind (append_create_pointer ltr s c (relation_name_for s names (cp_relation c)) b) keep
         | ExpirePointer i \<Rightarrow> keep (pb_expire_pointer (pb_pointer_by_id i) b)
         | SetPointerWeight i w \<Rightarrow> keep (pb_set_pointer_weight (pb_pointer_by_id i) w b)
         | SetPointerAttribute i a \<Rightarrow> keep (pb_set_pointer_attribute (pb_pointer_by_id i) (fst a) (snd a) b)
         | RemovePointerAttribute i k \<Rightarrow> keep (pb_remove_pointer_attribute (pb_pointer_by_id i) k b)
         | EmitEvent e \<Rightarrow> keep (pb_emit_event e b)
         | AssertObject r \<Rightarrow> on_object r pb_assert_object
         | AssertPointer i \<Rightarrow> keep (pb_assert_pointer (pb_pointer_by_id i) b)
         | AssertFact f \<Rightarrow> keep (pb_assert_fact f b))"

definition pb_append_delta :: "bool \<Rightarrow> world_snapshot \<Rightarrow> delta \<Rightarrow> program_builder \<Rightarrow> builder_error + program_builder" where
  "pb_append_delta ltr s d b = res_bind (res_fold (append_operation ltr s) (([], []), b) d) (\<lambda>(_, b). Inr b)"

section \<open>The script compiler\<close>

definition compile_object :: "world_snapshot \<Rightarrow> string \<Rightarrow> string \<Rightarrow> attribute list \<Rightarrow> kernel_program" where
  "compile_object s name type attributes =
     (let (object, b) = pb_create_object name type (import_symbols s new_builder)
      in pb_program (fold (\<lambda>(key, v). pb_set_object_attribute object key v) attributes b))"

definition compile_link ::
    "bool \<Rightarrow> world_snapshot \<Rightarrow> string \<Rightarrow> string \<Rightarrow> string \<Rightarrow> f64 \<Rightarrow> causal_role \<Rightarrow> attribute list \<Rightarrow> kernel_program" where
  "compile_link ltr s from to relation weight role attributes =
     (let b = import_symbols s new_builder;
          (from_ref, to_ref, b) =
            (if ltr then (let (p, b) = pb_object_by_name from b; (q, b) = pb_object_by_name to b in (p, q, b))
             else (let (q, b) = pb_object_by_name to b; (p, b) = pb_object_by_name from b in (p, q, b)));
          (pointer, b) = pb_create_pointer from_ref to_ref relation weight role ''core'' b
      in pb_program (fold (\<lambda>(key, v). pb_set_pointer_attribute pointer key v) attributes b))"

definition compile_delta :: "bool \<Rightarrow> world_snapshot \<Rightarrow> delta \<Rightarrow> builder_error + kernel_program" where
  "compile_delta ltr s d =
     res_bind (pb_append_delta ltr s d (import_symbols s new_builder)) (\<lambda>b. Inr (pb_program b))"

end
