(* ===== verification/Compile_Tables.thy ===== *)
theory Compile_Tables
  imports Program_Builder Progress
begin

text \<open>
  The symbol tables of the builder: a symbol always names its place in the table, tables only grow, and the
  names imported from a snapshot keep their identifiers, so that a new name gets an identifier that the
  snapshot does not use.
\<close>

definition table_ok :: "nat \<Rightarrow> string list \<Rightarrow> (string, u64) omap \<Rightarrow> bool" where
  "table_ok n table symbols = (length table + n < 2 ^ 64
     \<and> (\<forall>name k. om_find symbols name = Some k \<longrightarrow> unat k < length table \<and> table ! unat k = name))"

definition table_has :: "string list \<Rightarrow> u64 \<Rightarrow> string \<Rightarrow> bool" where
  "table_has table k name = (unat k < length table \<and> table ! unat k = name)"

lemma table_has_append: "table_has table k name \<Longrightarrow> table_has (table @ later) k name"
  by (simp add: table_has_def nth_append)

lemma allot_symbol_ok:
  assumes "table_ok (Suc n) table symbols" and "allot_symbol key table symbols = (i, table', symbols')"
  shows "table_ok n table' symbols'" and "table_has table' i key" and "\<exists>later. table' = table @ later"
    and "om_find symbols' key = Some i" and "om_find symbols name \<noteq> None \<Longrightarrow> om_find symbols' name = om_find symbols name"
proof -
  have "table_ok n table' symbols' \<and> table_has table' i key \<and> (\<exists>later. table' = table @ later)
      \<and> om_find symbols' key = Some i \<and> (om_find symbols name \<noteq> None \<longrightarrow> om_find symbols' name = om_find symbols name)"
  proof (cases "om_find symbols key")
    case None
    have u: "unat (of_nat (length table) :: u64) = length table"
      using assms(1) by (simp add: unat_of_nat table_ok_def)
    have old: "unat k < Suc (length table)" if "om_find symbols m = Some k" for m k
      using assms(1) that by (auto simp: table_ok_def intro: less_SucI)
    show ?thesis
      using assms None u
      by (auto simp: allot_symbol_def Let_def table_ok_def table_has_def om_find_emplace nth_append old
          split: option.splits if_splits)
  next
    case (Some k)
    then show ?thesis using assms by (auto simp: allot_symbol_def table_ok_def table_has_def)
  qed
  then show "table_ok n table' symbols'" "table_has table' i key" "\<exists>later. table' = table @ later"
    "om_find symbols' key = Some i" "om_find symbols name \<noteq> None \<Longrightarrow> om_find symbols' name = om_find symbols name"
    by blast+
qed

section \<open>Importing the names of a snapshot\<close>

lemma unat_pred:
  fixes i :: u32
  assumes "i \<noteq> 0"
  shows "unat (i - 1) = unat i - 1" and "unat (ucast (i - 1) :: u64) = unat i - 1"
proof -
  have "1 \<le> i" using assms by (simp add: word_le_nat_alt unat_gt_0 Suc_leI)
  then show u: "unat (i - 1) = unat i - 1" by (simp add: unat_sub)
  have "unat (i - 1) < 2 ^ 32" using unsigned_less [of "i - 1", where 'a = nat] by simp
  then have "take_bit 64 (unat (i - 1)) = unat (i - 1)" by (intro take_bit_nat_eq_self) simp
  then show "unat (ucast (i - 1) :: u64) = unat i - 1" by (simp add: unsigned_ucast_eq unsigned_take_bit_eq u)
qed

definition names_proper :: "(u32, string) omap \<Rightarrow> bool" where
  "names_proper names = (names_unique names \<and> list_all (\<lambda>(i, n). i \<noteq> 0 \<and> n \<noteq> [] \<and> unat i + 1 < 2 ^ 32) names)"

definition imported :: "(u32 \<times> string) list \<Rightarrow> string list \<Rightarrow> (string, u64) omap \<Rightarrow> bool" where
  "imported entries table symbols =
     ((\<forall>n k. om_find symbols n = Some k \<longleftrightarrow> (\<exists>i. (i, n) \<in> set entries \<and> k = ucast (i - 1)))
      \<and> (\<forall>(i, n) \<in> set entries. unat i \<le> length table \<and> table ! (unat i - 1) = n)
      \<and> (\<forall>m. (\<forall>(i, n) \<in> set entries. unat i \<le> m) \<longrightarrow> length table \<le> m))"

lemma import_name_imported:
  assumes inv: "imported entries table symbols" and new: "i \<noteq> 0" "n \<noteq> []" "\<forall>(j, m) \<in> set entries. j \<noteq> 0 \<and> j \<noteq> i \<and> m \<noteq> n"
    and res: "import_name (i, n) (table, symbols) = (table', symbols')"
  shows "imported (entries @ [(i, n)]) table' symbols'"
proof -
  let ?t = "if length table < unat i then table @ replicate (unat i - length table) [] else table"
  have absent: "om_find symbols n = None"
  proof (rule ccontr)
    assume "om_find symbols n \<noteq> None"
    then obtain k where "om_find symbols n = Some k" by auto
    then obtain j where "(j, n) \<in> set entries" using inv by (auto simp: imported_def)
    then show False using new(3) by auto
  qed
  then have t': "table' = ?t[unat i - 1 := n]" and s': "symbols' = om_emplace n (ucast (i - 1)) symbols"
    using res new by (simp_all add: import_name_def Let_def om_contains_def unat_pred)
  have pos: "0 < unat i" using new(1) by (simp add: unat_gt_0)
  have len: "length table' = max (length table) (unat i)" by (simp add: t')
  have keys: "om_find symbols' m = Some k \<longleftrightarrow> (\<exists>j. (j, m) \<in> set (entries @ [(i, n)]) \<and> k = ucast (j - 1))" for m k
    using inv absent new(3) by (auto simp: s' om_find_emplace imported_def)
  have places: "unat j \<le> length table' \<and> table' ! (unat j - 1) = m" if jm: "(j, m) \<in> set (entries @ [(i, n)])" for j m
  proof (cases "j = i")
    case True
    then have "m = n" using jm new(3) by auto
    then show ?thesis using True pos len by (simp add: t' nth_list_update)
  next
    case False
    then have old: "(j, m) \<in> set entries" using jm by auto
    then have j: "unat j \<le> length table" "table ! (unat j - 1) = m" "j \<noteq> 0" using inv new(3) by (auto simp: imported_def)
    then have "0 < unat j" by (simp add: unat_gt_0)
    moreover have "unat j \<noteq> unat i" using False by (simp add: word_unat_eq_iff)
    ultimately have "unat i - 1 \<noteq> unat j - 1" "unat j - 1 < length table" using pos j(1) by arith+
    then show ?thesis using j len by (simp add: t' nth_append)
  qed
  have bound: "length table' \<le> m" if "\<forall>(j, n') \<in> set (entries @ [(i, n)]). unat j \<le> m" for m
    using that inv by (auto simp: len imported_def)
  show ?thesis using keys places bound by (auto simp: imported_def)
qed

lemma fold_import_imported:
  assumes "imported entries table symbols" and "distinct (map fst (entries @ later))" and "distinct (map snd (entries @ later))"
    and "\<forall>(i, n) \<in> set (entries @ later). i \<noteq> 0 \<and> n \<noteq> []"
  shows "imported (entries @ later) (fst (fold import_name later (table, symbols))) (snd (fold import_name later (table, symbols)))"
  using assms
proof (induction later arbitrary: entries table symbols)
  case (Cons e later)
  obtain i n where e: "e = (i, n)" by (cases e)
  obtain table' symbols' where step: "import_name (i, n) (table, symbols) = (table', symbols')" by (meson surj_pair)
  have new: "i \<noteq> 0" "n \<noteq> []" using Cons.prems(4) by (auto simp: e)
  have "\<forall>(j, m) \<in> set entries. j \<noteq> 0 \<and> j \<noteq> i \<and> m \<noteq> n"
  proof (intro ballI, clarify)
    fix j m
    assume jm: "(j, m) \<in> set entries"
    then have "j \<in> fst ` set entries" "m \<in> snd ` set entries" by force+
    moreover have "i \<notin> fst ` set entries" "n \<notin> snd ` set entries" using Cons.prems(2,3) by (auto simp: e)
    ultimately show "j \<noteq> 0 \<and> j \<noteq> i \<and> m \<noteq> n" using Cons.prems(4) jm by auto
  qed
  from import_name_imported [OF Cons.prems(1) new this step]
  have "imported (entries @ [e]) table' symbols'" by (simp add: e)
  from Cons.IH [OF this] Cons.prems(2-4)
  have "imported ((entries @ [e]) @ later) (fst (fold import_name later (table', symbols')))
      (snd (fold import_name later (table', symbols')))" by simp
  then show ?case using step by (simp add: e)
qed simp

lemma names_proper_distinct:
  assumes "names_proper names"
  shows "distinct (map fst names)" and "distinct (map snd names)"
proof -
  have inv: "om_inv names" using assms by (simp add: names_proper_def names_unique_def)
  then show ids: "distinct (map fst names)" by (rule om_inv_distinct)
  have "inj_on snd (set names)"
    using assms by (force simp: inj_on_def names_proper_def names_unique_def list_all_iff)
  moreover have "distinct names" using ids by (simp add: distinct_map)
  ultimately show "distinct (map snd names)" by (simp add: distinct_map)
qed

lemma import_names:
  assumes proper: "names_proper names" and res: "fold import_name names ([], []) = (table, symbols)"
  shows "imported names table symbols" and "table_ok n table symbols \<longleftrightarrow> length table + n < 2 ^ 64"
    and "length table + 1 < 2 ^ 32"
proof -
  have "imported [] [] []" by (simp add: imported_def)
  then show imp: "imported names table symbols"
    using fold_import_imported [of "[]" "[]" "[]" names] names_proper_distinct [OF proper] proper res
    by (auto simp: names_proper_def list_all_iff)
  have ids: "i \<noteq> 0" if "(i, m) \<in> set names" for i m using proper that by (auto simp: names_proper_def list_all_iff)
  have "unat k < length table \<and> table ! unat k = m" if find: "om_find symbols m = Some k" for m k
  proof -
    obtain i where i: "(i, m) \<in> set names" "k = ucast (i - 1)" using imp find by (auto simp: imported_def)
    then have "unat i \<le> length table" "table ! (unat i - 1) = m" using imp by (auto simp: imported_def)
    moreover have "unat k = unat i - 1" "0 < unat i" using ids [OF i(1)] i(2) unat_pred(2) by (simp_all add: unat_gt_0)
    ultimately show ?thesis by simp
  qed
  then show "table_ok n table symbols \<longleftrightarrow> length table + n < 2 ^ 64" by (auto simp: table_ok_def)
  have "\<forall>(i, m) \<in> set names. unat i \<le> 2 ^ 32 - 2" using proper by (force simp: names_proper_def list_all_iff)
  then have "length table \<le> 2 ^ 32 - 2" using imp unfolding imported_def by blast
  then show "length table + 1 < 2 ^ 32" by simp
qed

text \<open>
  The identifier the virtual machine gives the symbol of a name: the snapshot's, or the next place of the
  table, which no name of the snapshot has.
\<close>

definition symbol_id :: "(u32, string) omap \<Rightarrow> string \<Rightarrow> u64 \<Rightarrow> u32" where
  "symbol_id names name k = (case om_key_of names name of Some i \<Rightarrow> i | None \<Rightarrow> ucast (k + 1))"

lemma symbol_id_fresh:
  assumes proper: "names_proper names" and res: "fold import_name names ([], []) = (table, symbols)"
    and sym: "allot_symbol name table symbols = (k, table', symbols')" and new: "om_key_of names name = None"
  shows "om_find names (symbol_id names name k) = None" and "symbol_id names name k \<noteq> 0"
proof -
  have imp: "imported names table symbols" by (rule import_names(1) [OF proper res])
  have len: "length table + 1 < 2 ^ 32" by (rule import_names(3) [OF proper res])
  have "om_find symbols name = None"
  proof (rule ccontr)
    assume "om_find symbols name \<noteq> None"
    then obtain j where "om_find symbols name = Some j" by auto
    then obtain i where "(i, name) \<in> set names" using imp by (auto simp: imported_def)
    then show False using new by (force simp: om_key_of_None_iff image_iff)
  qed
  then have "k + 1 = of_nat (Suc (length table))" using sym by (simp add: allot_symbol_def Let_def)
  then have "unat (k + 1) = Suc (length table)" using len by (simp add: unat_of_nat del: of_nat_Suc)
  then have u: "unat (symbol_id names name k) = Suc (length table)"
    using new len by (simp add: symbol_id_def unsigned_ucast_eq unsigned_take_bit_eq take_bit_nat_eq_self)
  then show "symbol_id names name k \<noteq> 0" by auto
  show "om_find names (symbol_id names name k) = None"
  proof (rule ccontr)
    assume "om_find names (symbol_id names name k) \<noteq> None"
    then obtain m where "(symbol_id names name k, m) \<in> set names" using om_find_SomeD by fastforce
    then have "unat (symbol_id names name k) \<le> length table" using imp by (auto simp: imported_def)
    then show False using u by simp
  qed
qed

end
