(* ===== verification/Compile_Correct.thy ===== *)
theory Compile_Correct
  imports Compile_Tables Vm_Sound
begin

text \<open>
  The commands of the script compiler do what they say: the program they build runs on the virtual machine
  without a diagnostic, and the delta it leaves makes the object or the pointer with its attributes.
\<close>

section \<open>Instructions whose operands are in the tables\<close>

lemma vm_emit_nil: "vm_emit [] body frame = (True, frame\<lparr>fr_delta := append_body body (fr_delta frame)\<rparr>)"
  by (cases frame) (simp add: vm_emit_def)

lemma u64_arg_value: "arg < length (in_args instr) \<Longrightarrow> in_args instr ! arg = UInt64Value v \<Longrightarrow> u64_arg index instr arg = (Some v, [])"
  by (simp add: u64_arg_def as_u64_def)

lemma table_symbol_value:
  "arg < length (in_args instr) \<Longrightarrow> in_args instr ! arg = UInt64Value v \<Longrightarrow> table_has table v name \<Longrightarrow>
   table_symbol word table index instr arg = (Some name, [])"
  by (auto simp: table_symbol_def u64_arg_value table_has_def)

lemmas symbol_values = string_symbol_def type_symbol_name_def relation_symbol_name_def table_symbol_value u64_arg_value

lemma exec_intern_type:
  assumes "table_has (sy_type_names (pr_symbols (fr_program frame))) k name"
    and "om_key_of (sn_type_names (fr_before frame)) name = None \<Longrightarrow>
      om_find (sn_type_names (fr_before frame)) (symbol_id (sn_type_names (fr_before frame)) name k) = None"
  shows "\<exists>n. execute_instruction H fmt17 frame index \<lparr>in_op = IInternType, in_args = [UInt64Value k]\<rparr>
    = (True, frame\<lparr>fr_next_type := n,
         fr_type_symbols := om_put k (symbol_id (sn_type_names (fr_before frame)) name k) (fr_type_symbols frame),
         fr_delta := append_body (InternType name (symbol_id (sn_type_names (fr_before frame)) name k)) (fr_delta frame)\<rparr>)"
  using assms
  by (cases "om_key_of (sn_type_names (fr_before frame)) name"; cases frame)
    (auto simp: execute_instruction_def has_object_ref_arg_def is_object_ref_def with_arity_def vm_intern_type_def symbol_values
      type_named_def symbol_id_def vm_emit_nil Let_def simp del: append_body_simp)

lemma exec_intern_relation:
  assumes "table_has (sy_relation_names (pr_symbols (fr_program frame))) k name"
    and "om_key_of (sn_relation_names (fr_before frame)) name = None \<Longrightarrow>
      om_find (sn_relation_names (fr_before frame)) (symbol_id (sn_relation_names (fr_before frame)) name k) = None"
  shows "\<exists>n. execute_instruction H fmt17 frame index \<lparr>in_op = IInternRelation, in_args = [UInt64Value k]\<rparr>
    = (True, frame\<lparr>fr_next_relation := n,
         fr_relation_symbols := om_put k (symbol_id (sn_relation_names (fr_before frame)) name k) (fr_relation_symbols frame),
         fr_delta := append_body (InternRelation name (symbol_id (sn_relation_names (fr_before frame)) name k)) (fr_delta frame)\<rparr>)"
  using assms
  by (cases "om_key_of (sn_relation_names (fr_before frame)) name"; cases frame)
    (auto simp: execute_instruction_def has_object_ref_arg_def is_object_ref_def with_arity_def vm_intern_relation_def
      symbol_values relation_named_def symbol_id_def vm_emit_nil Let_def simp del: append_body_simp)

lemma ucast_u32: "unat (ucast (t :: u32) :: u64) = unat t" "(ucast (ucast t :: u64) :: u32) = t"
proof -
  have "unat t < 2 ^ 32" using unsigned_less [of t, where 'a = nat] by simp
  then have "take_bit 64 (unat t) = unat t" "take_bit 32 (unat t) = unat t" by (intro take_bit_nat_eq_self; simp)+
  then show u: "unat (ucast t :: u64) = unat t" by (simp add: unsigned_ucast_eq unsigned_take_bit_eq)
  show "(ucast (ucast t :: u64) :: u32) = t"
    using u \<open>take_bit 32 (unat t) = unat t\<close>
    by (intro word_unat_eq_iff [THEN iffD2]) (simp add: unsigned_ucast_eq unsigned_take_bit_eq)
qed

lemma exec_create_object:
  assumes "t \<noteq> 0" and "table_has (sy_strings (pr_symbols (fr_program frame))) n name"
    and "om_find (fr_type_symbols frame) k = Some type" and "om_find (fr_temp_objects frame) (ucast t) = None"
    and "om_find (fr_created_names frame) name = None" and "object_named (fr_before frame) name = None"
  shows "execute_instruction H fmt17 frame index
      \<lparr>in_op = ICreateObject, in_args = [UInt64Value (ucast t), UInt64Value n, UInt64Value k]\<rparr>
    = (True, frame\<lparr>fr_temp_objects := om_emplace (ucast t) t (fr_temp_objects frame),
         fr_created_names := om_emplace name t (fr_created_names frame),
         fr_delta := append_body (CreateObject \<lparr>co_temp = t, co_name = name, co_type = type, co_existence = Alive,
           co_attributes = []\<rparr>) (fr_delta frame)\<rparr>)"
proof -
  have "(ucast t :: u64) \<noteq> 0" using assms(1) ucast_u32 by (metis ucast_0)
  moreover have "unat (ucast t :: u64) \<le> 2 ^ 32 - 1"
    using unsigned_less [of t, where 'a = nat] by (simp add: ucast_u32)
  ultimately show ?thesis
    using assms(2-)
    by (simp add: execute_instruction_def has_object_ref_arg_def is_object_ref_def with_arity_def vm_create_object_def
        symbol_values type_id_arg_def om_contains_def vm_emit_nil ucast_u32 Let_def del: append_body_simp)
qed

lemma exec_set_object_attribute:
  assumes "om_find (fr_temp_objects frame) v = Some t" and "table_has (sy_strings (pr_symbols (fr_program frame))) k key"
    and "\<not> is_object_ref x"
  shows "execute_instruction H fmt17 frame index
      \<lparr>in_op = ISetObjectAttribute, in_args = ref_args (0, v) @ [UInt64Value k, x]\<rparr>
    = (True, frame\<lparr>fr_delta := append_body (SetObjectAttribute (RefTemp t) (key, x)) (fr_delta frame)\<rparr>)"
proof -
  let ?i = "\<lparr>in_op = ISetObjectAttribute, in_args = [UInt64Value 0, UInt64Value v, UInt64Value k, x]\<rparr>"
  have "\<not> is_object_ref (UInt64Value u)" for u by (simp add: is_object_ref_def)
  then have "\<not> has_object_ref_arg ?i" using assms(3) by (simp add: has_object_ref_arg_def)
  moreover have "object_ref_arg frame index ?i 0 1 = (Some (RefTemp t), [])"
    using assms(1) by (simp add: object_ref_arg_def u64_arg_value)
  moreover have "string_symbol frame index ?i 2 = (Some key, [])" using assms(2) by (simp add: symbol_values)
  moreover have "value_arg index ?i 3 = (Some x, [])" using assms(3) by (simp add: value_arg_def)
  ultimately show ?thesis
    by (simp add: execute_instruction_def ref_args_def with_arity_def vm_triple_def vm_emit_nil Let_def del: append_body_simp)
qed

lemma exec_set_pointer_attribute:
  assumes "om_find (fr_temp_pointers frame) v = Some p" and "table_has (sy_strings (pr_symbols (fr_program frame))) k key"
    and "\<not> is_object_ref x"
  shows "execute_instruction H fmt17 frame index
      \<lparr>in_op = ISetPointerAttribute, in_args = ref_args (0, v) @ [UInt64Value k, x]\<rparr>
    = (True, frame\<lparr>fr_delta := append_body (SetPointerAttribute p (key, x)) (fr_delta frame)\<rparr>)"
proof -
  let ?i = "\<lparr>in_op = ISetPointerAttribute, in_args = [UInt64Value 0, UInt64Value v, UInt64Value k, x]\<rparr>"
  have "\<not> is_object_ref (UInt64Value u)" for u by (simp add: is_object_ref_def)
  then have "\<not> has_object_ref_arg ?i" using assms(3) by (simp add: has_object_ref_arg_def)
  moreover have "pointer_ref_arg frame index ?i 0 1 = (Some p, [])"
    using assms(1) by (simp add: pointer_ref_arg_def u64_arg_value)
  moreover have "string_symbol frame index ?i 2 = (Some key, [])" using assms(2) by (simp add: symbol_values)
  moreover have "value_arg index ?i 3 = (Some x, [])" using assms(3) by (simp add: value_arg_def)
  ultimately show ?thesis
    by (simp add: execute_instruction_def ref_args_def with_arity_def vm_triple_def vm_emit_nil Let_def del: append_body_simp)
qed

lemma object_ref_named:
  assumes "table_has (sy_strings (pr_symbols (fr_program frame))) k name" and "om_find (fr_created_names frame) name = None"
    and "object_named (fr_before frame) name = Some i" and "a < length (in_args instr)" and "b < length (in_args instr)"
    and "in_args instr ! a = UInt64Value 1" and "in_args instr ! b = UInt64Value k"
  shows "object_ref_arg frame index instr a b = (Some (RefObject i), [])"
  using assms by (auto simp: object_ref_arg_def u64_arg_value table_has_def Let_def)

text \<open>A role with a name, not one that a cast has made.\<close>

fun role_named :: "causal_role \<Rightarrow> bool" where
  "role_named (Role_byte b) = False"
| "role_named _ = True"

lemma exec_create_pointer:
  assumes temp: "temp \<noteq> 0" "om_find (fr_temp_pointers frame) temp = None"
    and ends: "table_has (sy_strings (pr_symbols (fr_program frame))) a from" "table_has (sy_strings (pr_symbols (fr_program frame))) b to"
      "om_find (fr_created_names frame) from = None" "om_find (fr_created_names frame) to = None"
      "object_named (fr_before frame) from = Some i" "object_named (fr_before frame) to = Some j"
    and rel: "om_find (fr_relation_symbols frame) k = Some relation"
    and dom: "table_has (sy_strings (pr_symbols (fr_program frame))) m ''core''" and role: "role_named role"
  shows "execute_instruction H fmt17 frame index
      \<lparr>in_op = ICreatePointer, in_args = [UInt64Value temp] @ ref_args (1, a) @ ref_args (1, b)
        @ [UInt64Value k, Float64Value weight, UInt64Value (ucast (role_to_byte role)), UInt64Value m]\<rparr>
    = (True, frame\<lparr>fr_temp_pointers := om_emplace temp (fr_next_pointer frame) (fr_temp_pointers frame),
         fr_next_pointer := fr_next_pointer frame + 1,
         fr_delta := append_body (CreatePointer \<lparr>cp_from = RefObject i, cp_to = RefObject j, cp_relation = relation,
           cp_role = role, cp_weight = weight, cp_law_domain = ''core'', cp_attributes = []\<rparr>) (fr_delta frame)\<rparr>)"
proof -
  let ?i = "\<lparr>in_op = ICreatePointer, in_args = [UInt64Value temp, UInt64Value 1, UInt64Value a, UInt64Value 1, UInt64Value b,
    UInt64Value k, Float64Value weight, UInt64Value (ucast (role_to_byte role)), UInt64Value m]\<rparr>"
  have r: "role_of_byte (ucast (ucast (role_to_byte role) :: u64)) = role"
      "unat (ucast (role_to_byte role) :: u64) \<le> unat (role_to_byte Symbolic)"
    using role by (cases role; simp add: role_of_byte_def enum_of_byte_def)+
  have args: "u64_arg index ?i 0 = (Some temp, [])" "object_ref_arg frame index ?i 1 2 = (Some (RefObject i), [])"
      "object_ref_arg frame index ?i 3 4 = (Some (RefObject j), [])" "relation_id_arg frame index ?i 5 = (Some relation, [])"
      "f64_arg index ?i 6 = (Some weight, [])" "u64_arg index ?i 7 = (Some (ucast (role_to_byte role)), [])"
      "string_symbol frame index ?i 8 = (Some ''core'', [])"
    using ends rel dom
    by (simp_all add: object_ref_named relation_id_arg_def f64_arg_def as_f64_def symbol_values)
  have "\<not> has_object_ref_arg ?i" by (simp add: has_object_ref_arg_def is_object_ref_def)
  then have "execute_instruction H fmt17 frame index ?i = vm_create_pointer frame index ?i"
    by (simp add: execute_instruction_def with_arity_def Let_def)
  also have "\<dots> = (True, frame\<lparr>fr_temp_pointers := om_emplace temp (fr_next_pointer frame) (fr_temp_pointers frame),
         fr_next_pointer := fr_next_pointer frame + 1,
         fr_delta := append_body (CreatePointer \<lparr>cp_from = RefObject i, cp_to = RefObject j, cp_relation = relation,
           cp_role = role, cp_weight = weight, cp_law_domain = ''core'', cp_attributes = []\<rparr>) (fr_delta frame)\<rparr>)"
    unfolding vm_create_pointer_def args Let_def prod.case
    using temp r by (simp add: om_contains_def vm_emit_nil del: append_body_simp)
  finally show ?thesis by (simp add: ref_args_def)
qed

end
