(* ===== verification/Compile_Commands.thy ===== *)
theory Compile_Commands
  imports Compile_Correct
begin

text \<open>
  The two commands of the script compiler: the instructions of their programs, the run of the virtual machine
  and what the overlay makes of the delta.
\<close>

section \<open>A list of attributes\<close>

definition attribute_instruction ::
    "instruction_op \<Rightarrow> program_ref \<Rightarrow> string list \<Rightarrow> attribute \<Rightarrow> instruction \<Rightarrow> bool" where
  "attribute_instruction op r strings a i =
     (\<exists>k. i = \<lparr>in_op = op, in_args = ref_args r @ [UInt64Value k, snd a]\<rparr> \<and> table_has strings k (fst a))"

lemma attribute_instruction_append:
  "attribute_instruction op r strings a i \<Longrightarrow> attribute_instruction op r (strings @ later) a i"
  by (auto simp: attribute_instruction_def table_has_append)

definition attribute_setter :: "instruction_op \<Rightarrow> program_ref \<Rightarrow> attribute \<Rightarrow> program_builder \<Rightarrow> program_builder" where
  "attribute_setter op r a b =
     (let (i, b) = pb_string_symbol (fst a) b in pb_emit op (ref_args r @ [UInt64Value i, snd a]) b)"

lemma attribute_setters:
  "(\<lambda>(key, v). pb_set_object_attribute r key v) = attribute_setter ISetObjectAttribute r"
  "(\<lambda>(key, v). pb_set_pointer_attribute r key v) = attribute_setter ISetPointerAttribute r"
  by (auto simp: fun_eq_iff attribute_setter_def pb_set_object_attribute_def pb_set_pointer_attribute_def)

text \<open>What a builder has emitted since another.\<close>

definition builds :: "program_builder \<Rightarrow> string list \<Rightarrow> instruction list \<Rightarrow> program_builder \<Rightarrow> bool" where
  "builds b strings is b' =
     (sy_strings (pb_symbols b') = sy_strings (pb_symbols b) @ strings
      \<and> sy_type_names (pb_symbols b') = sy_type_names (pb_symbols b)
      \<and> sy_relation_names (pb_symbols b') = sy_relation_names (pb_symbols b)
      \<and> pr_instructions (pb_program b') = pr_instructions (pb_program b) @ is)"

lemma builds_trans: "builds b s is b' \<Longrightarrow> builds b' t js b'' \<Longrightarrow> builds b (s @ t) (is @ js) b''"
  by (auto simp: builds_def)

definition strings_ok :: "nat \<Rightarrow> program_builder \<Rightarrow> bool" where
  "strings_ok n b = table_ok n (sy_strings (pb_symbols b)) (pb_string_symbols b)"

lemma string_symbol_builds:
  assumes "strings_ok (Suc n) b" and "pb_string_symbol key b = (k, b')"
  shows "strings_ok n b'" and "table_has (sy_strings (pb_symbols b')) k key" and "\<exists>strings. builds b strings [] b'"
proof -
  obtain table symbols where a: "allot_symbol key (sy_strings (pb_symbols b)) (pb_string_symbols b) = (k, table, symbols)"
      "b' = (set_symbols ((pb_symbols b)\<lparr>sy_strings := table\<rparr>) b)\<lparr>pb_string_symbols := symbols\<rparr>"
    using assms(2) by (auto simp: pb_string_symbol_def split: prod.splits)
  note ok = allot_symbol_ok [OF assms(1) [unfolded strings_ok_def] a(1)]
  show "strings_ok n b'" "table_has (sy_strings (pb_symbols b')) k key" "\<exists>strings. builds b strings [] b'"
    using ok(1-3) by (auto simp: strings_ok_def a(2) set_symbols_def builds_def)
qed

lemma fold_attributes_builds:
  assumes "strings_ok (n + length as) b"
  shows "\<exists>strings is. builds b strings is (fold (attribute_setter op r) as b) \<and> strings_ok n (fold (attribute_setter op r) as b)
    \<and> list_all2 (attribute_instruction op r (sy_strings (pb_symbols b) @ strings)) as is"
  using assms
proof (induction as arbitrary: b)
  case Nil
  then show ?case by (auto simp: builds_def intro!: exI [of _ "[]"])
next
  case (Cons a as)
  obtain k b1 where k: "pb_string_symbol (fst a) b = (k, b1)" by (meson surj_pair)
  let ?i = "\<lparr>in_op = op, in_args = ref_args r @ [UInt64Value k, snd a]\<rparr>"
  let ?b2 = "pb_emit op (ref_args r @ [UInt64Value k, snd a]) b1"
  have room: "strings_ok (Suc (n + length as)) b" using Cons.prems by simp
  note sym = string_symbol_builds [OF room k]
  obtain s1 where s1: "builds b s1 [] b1" using sym(3) ..
  have b2: "builds b s1 [?i] ?b2" "strings_ok (n + length as) ?b2" "sy_strings (pb_symbols ?b2) = sy_strings (pb_symbols b) @ s1"
    using s1 sym(1) by (simp_all add: builds_def pb_emit_def strings_ok_def)
  have has: "attribute_instruction op r (sy_strings (pb_symbols b) @ s1) a ?i"
    using sym(2) s1 by (auto simp: attribute_instruction_def builds_def)
  obtain s2 "is" where tail: "builds ?b2 s2 is (fold (attribute_setter op r) as ?b2)"
      "strings_ok n (fold (attribute_setter op r) as ?b2)"
      "list_all2 (attribute_instruction op r (sy_strings (pb_symbols ?b2) @ s2)) as is"
    using Cons.IH [OF b2(2)] by blast
  have "fold (attribute_setter op r) (a # as) b = fold (attribute_setter op r) as ?b2"
    by (simp add: attribute_setter_def k)
  moreover have "builds b (s1 @ s2) (?i # is) (fold (attribute_setter op r) as ?b2)"
    using builds_trans [OF b2(1) tail(1)] by simp
  moreover have "list_all2 (attribute_instruction op r (sy_strings (pb_symbols b) @ s1 @ s2)) (a # as) (?i # is)"
    using attribute_instruction_append [OF has, of s2] tail(3) by (simp add: b2(3))
  ultimately show ?case using tail(2) by (intro exI [of _ "s1 @ s2"] exI [of _ "?i # is"]) simp
qed

text \<open>Running them.\<close>

lemma run_object_attributes:
  assumes "list_all2 (attribute_instruction ISetObjectAttribute (0, v) (sy_strings (pr_symbols (fr_program frame)))) as is"
    and "om_find (fr_temp_objects frame) v = Some t" and "list_all (\<lambda>a. \<not> is_object_ref (snd a)) as"
  shows "execute_loop H fmt17 frame index is
    = (True, frame\<lparr>fr_delta := fold append_body (map (SetObjectAttribute (RefTemp t)) as) (fr_delta frame)\<rparr>)"
  using assms
proof (induction as "is" arbitrary: frame index rule: list_induct2')
  case 1
  then show ?case by (cases frame) simp
next
  case (4 a as i "is")
  then obtain k where i: "i = \<lparr>in_op = ISetObjectAttribute, in_args = ref_args (0, v) @ [UInt64Value k, snd a]\<rparr>"
      "table_has (sy_strings (pr_symbols (fr_program frame))) k (fst a)"
    by (auto simp: attribute_instruction_def)
  let ?f = "frame\<lparr>fr_delta := append_body (SetObjectAttribute (RefTemp t) a) (fr_delta frame)\<rparr>"
  have "execute_instruction H fmt17 frame index i = (True, ?f)"
    using exec_set_object_attribute [OF 4(3) i(2), of "snd a"] 4(4) unfolding i(1) by simp
  moreover have "execute_loop H fmt17 ?f (index + 1) is
      = (True, ?f\<lparr>fr_delta := fold append_body (map (SetObjectAttribute (RefTemp t)) as) (fr_delta ?f)\<rparr>)"
    using 4(2-4) by (intro 4(1)) simp_all
  ultimately show ?case by (simp del: append_body_simp)
qed simp_all

lemma run_pointer_attributes:
  assumes "list_all2 (attribute_instruction ISetPointerAttribute (0, v) (sy_strings (pr_symbols (fr_program frame)))) as is"
    and "om_find (fr_temp_pointers frame) v = Some p" and "list_all (\<lambda>a. \<not> is_object_ref (snd a)) as"
  shows "execute_loop H fmt17 frame index is
    = (True, frame\<lparr>fr_delta := fold append_body (map (SetPointerAttribute p) as) (fr_delta frame)\<rparr>)"
  using assms
proof (induction as "is" arbitrary: frame index rule: list_induct2')
  case 1
  then show ?case by (cases frame) simp
next
  case (4 a as i "is")
  then obtain k where i: "i = \<lparr>in_op = ISetPointerAttribute, in_args = ref_args (0, v) @ [UInt64Value k, snd a]\<rparr>"
      "table_has (sy_strings (pr_symbols (fr_program frame))) k (fst a)"
    by (auto simp: attribute_instruction_def)
  let ?f = "frame\<lparr>fr_delta := append_body (SetPointerAttribute p a) (fr_delta frame)\<rparr>"
  have "execute_instruction H fmt17 frame index i = (True, ?f)"
    using exec_set_pointer_attribute [OF 4(3) i(2), of "snd a"] 4(4) unfolding i(1) by simp
  moreover have "execute_loop H fmt17 ?f (index + 1) is
      = (True, ?f\<lparr>fr_delta := fold append_body (map (SetPointerAttribute p) as) (fr_delta ?f)\<rparr>)"
    using 4(2-4) by (intro 4(1)) simp_all
  ultimately show ?case by (simp del: append_body_simp)
qed simp_all

section \<open>The programs\<close>

lemma symbol_id_nonzero:
  assumes "names_proper names" and "fold import_name names ([], []) = (table, symbols)"
    and "allot_symbol name table symbols = (k, table', symbols')"
  shows "symbol_id names name k \<noteq> 0"
proof (cases "om_key_of names name")
  case (Some i)
  then have "(i, name) \<in> set names" by (rule om_key_of_SomeD)
  then show ?thesis using assms(1) Some by (auto simp: names_proper_def list_all_iff symbol_id_def)
qed (use symbol_id_fresh(2) [OF assms] in simp)

lemma import_fields:
  assumes "fold import_name (sn_type_names s) ([], []) = (types, type_symbols)"
    and "fold import_name (sn_relation_names s) ([], []) = (relations, relation_symbols)"
  shows "import_symbols s new_builder = \<lparr>
      pb_program = \<lparr>pr_symbols = \<lparr>sy_strings = [], sy_type_names = types, sy_relation_names = relations\<rparr>, pr_instructions = []\<rparr>,
      pb_string_symbols = [], pb_type_symbols = type_symbols, pb_relation_symbols = relation_symbols, pb_temp_objects = [],
      pb_created_names = [], pb_next_temp_object = 1, pb_next_temp_pointer = 1\<rparr>"
  using assms by (simp add: import_symbols_def set_symbols_def new_builder_def)

text \<open>The program of \<open>object NAME : TYPE\<close>.\<close>

lemma compile_object_program:
  assumes proper: "names_proper (sn_type_names s)" and len: "length attributes + 1 < 2 ^ 64"
  obtains k n "is" P where "compile_object s name type attributes = P"
    and "pr_instructions P = \<lparr>in_op = IInternType, in_args = [UInt64Value k]\<rparr>
        # \<lparr>in_op = ICreateObject, in_args = [UInt64Value (ucast (1 :: u32)), UInt64Value n, UInt64Value k]\<rparr> # is"
    and "table_has (sy_type_names (pr_symbols P)) k type" and "table_has (sy_strings (pr_symbols P)) n name"
    and "list_all2 (attribute_instruction ISetObjectAttribute (0, 1) (sy_strings (pr_symbols P))) attributes is"
    and "om_key_of (sn_type_names s) type = None \<longrightarrow> om_find (sn_type_names s) (symbol_id (sn_type_names s) type k) = None"
    and "symbol_id (sn_type_names s) type k \<noteq> 0"
proof -
  obtain types type_symbols where ty: "fold import_name (sn_type_names s) ([], []) = (types, type_symbols)" by (meson surj_pair)
  obtain rels rel_symbols where rel: "fold import_name (sn_relation_names s) ([], []) = (rels, rel_symbols)" by (meson surj_pair)
  note b0 = import_fields [OF ty rel]
  have "length types + 1 < 2 ^ 32" by (rule import_names(3) [OF proper ty])
  then have "table_ok (Suc 0) types type_symbols" using import_names(2) [OF proper ty] by simp
  then obtain k types' type_symbols' where k: "allot_symbol type types type_symbols = (k, types', type_symbols')"
      "table_has types' k type" "om_find type_symbols' type = Some k"
    using allot_symbol_ok by (metis surj_pair)
  obtain n strings symbols where n: "allot_symbol name [] [] = (n, strings, symbols)" by (metis prod_cases3)
  have again: "allot_symbol type types' type_symbols' = (k, types', type_symbols')" using k(3) by (simp add: allot_symbol_def)
  have str: "table_ok (length attributes) strings symbols" "table_has strings n name"
    using allot_symbol_ok [OF _ n, of "length attributes"] len by (simp_all add: table_ok_def)
  define b where "b = snd (pb_create_object name type (import_symbols s new_builder))"
  have shape: "fst (pb_create_object name type (import_symbols s new_builder)) = (0, 1)"
      "pb_program b = \<lparr>pr_symbols = \<lparr>sy_strings = strings, sy_type_names = types', sy_relation_names = rels\<rparr>,
         pr_instructions = [\<lparr>in_op = IInternType, in_args = [UInt64Value k]\<rparr>,
           \<lparr>in_op = ICreateObject, in_args = [UInt64Value (ucast (1 :: u32)), UInt64Value n, UInt64Value k]\<rparr>]\<rparr>"
      "pb_string_symbols b = symbols"
    by (simp_all add: b_def pb_create_object_def emit_create_object_def pb_intern_type_def pb_type_symbol_def pb_string_symbol_def
        b0 k(1) again n pb_emit_def set_symbols_def pb_temp_object_def Let_def)
  obtain later "is" where tail: "builds b later is (fold (attribute_setter ISetObjectAttribute (0, 1)) attributes b)"
      "list_all2 (attribute_instruction ISetObjectAttribute (0, 1) (sy_strings (pb_symbols b) @ later)) attributes is"
    using fold_attributes_builds [of 0 attributes b ISetObjectAttribute "(0, 1)"] str(1) by (auto simp: strings_ok_def shape)
  have "compile_object s name type attributes = pb_program (fold (attribute_setter ISetObjectAttribute (0, 1)) attributes b)"
    using shape(1) by (auto simp: compile_object_def attribute_setters b_def split: prod.split)
  then show thesis
    using tail k(2) table_has_append [OF str(2)] symbol_id_fresh(1) [OF proper ty k(1)]
      symbol_id_nonzero [OF proper ty k(1)]
    by (intro that [of _ k n "is"]) (auto simp: builds_def shape)
qed

text \<open>The program of \<open>link FROM -> TO : RELATION\<close>, whichever argument the compiler evaluates first.\<close>

lemma compile_link_program:
  assumes proper: "names_proper (sn_relation_names s)" and len: "length attributes + 3 < 2 ^ 64"
  obtains k x y m "is" P where "compile_link ltr s from to relation weight role attributes = P"
    and "pr_instructions P = \<lparr>in_op = IInternRelation, in_args = [UInt64Value k]\<rparr>
        # \<lparr>in_op = ICreatePointer, in_args = [UInt64Value 1] @ ref_args (1, x) @ ref_args (1, y)
            @ [UInt64Value k, Float64Value weight, UInt64Value (ucast (role_to_byte role)), UInt64Value m]\<rparr> # is"
    and "table_has (sy_relation_names (pr_symbols P)) k relation" and "table_has (sy_strings (pr_symbols P)) x from"
    and "table_has (sy_strings (pr_symbols P)) y to" and "table_has (sy_strings (pr_symbols P)) m ''core''"
    and "list_all2 (attribute_instruction ISetPointerAttribute (0, 1) (sy_strings (pr_symbols P))) attributes is"
    and "om_key_of (sn_relation_names s) relation = None \<longrightarrow>
      om_find (sn_relation_names s) (symbol_id (sn_relation_names s) relation k) = None"
    and "symbol_id (sn_relation_names s) relation k \<noteq> 0"
proof -
  obtain types type_symbols where ty: "fold import_name (sn_type_names s) ([], []) = (types, type_symbols)" by (meson surj_pair)
  obtain rels rel_symbols where rel: "fold import_name (sn_relation_names s) ([], []) = (rels, rel_symbols)" by (meson surj_pair)
  note b0 = import_fields [OF ty rel]
  have "length rels + 1 < 2 ^ 32" by (rule import_names(3) [OF proper rel])
  then have "table_ok (Suc 0) rels rel_symbols" using import_names(2) [OF proper rel] by simp
  then obtain k rels' rel_symbols' where k: "allot_symbol relation rels rel_symbols = (k, rels', rel_symbols')"
      "table_has rels' k relation" "om_find rel_symbols' relation = Some k"
    using allot_symbol_ok by (metis surj_pair)
  have again: "allot_symbol relation rels' rel_symbols' = (k, rels', rel_symbols')" using k(3) by (simp add: allot_symbol_def)
  let ?n = "length attributes"
  let ?p = "if ltr then from else to" and ?q = "if ltr then to else from"
  obtain x t1 s1 where x: "allot_symbol ?p [] [] = (x, t1, s1)" by (metis prod_cases3)
  obtain y t2 s2 where y: "allot_symbol ?q t1 s1 = (y, t2, s2)" by (metis prod_cases3)
  obtain m t3 s3 where m: "allot_symbol ''core'' t2 s2 = (m, t3, s3)" by (metis prod_cases3)
  have "table_ok (Suc (Suc (Suc ?n))) [] []" using len by (simp add: table_ok_def)
  note one = allot_symbol_ok [OF this x]
  note two = allot_symbol_ok [OF one(1) y]
  note three = allot_symbol_ok [OF two(1) m]
  have has: "table_has t3 x ?p" "table_has t3 y ?q" "table_has t3 m ''core''"
    using one(2) two(2,3) three(2,3) by (auto intro: table_has_append)
  define refs where "refs = (if ltr then (x, y) else (y, x))"
  define b1 where "b1 = \<lparr>pb_program = \<lparr>pr_symbols = \<lparr>sy_strings = t2, sy_type_names = types, sy_relation_names = rels\<rparr>, pr_instructions = []\<rparr>,
      pb_string_symbols = s2, pb_type_symbols = type_symbols, pb_relation_symbols = rel_symbols, pb_temp_objects = [],
      pb_created_names = [], pb_next_temp_object = 1, pb_next_temp_pointer = 1\<rparr>"
  define b where "b = snd (pb_create_pointer (1, fst refs) (1, snd refs) relation weight role ''core'' b1)"
  have shape: "fst (pb_create_pointer (1, fst refs) (1, snd refs) relation weight role ''core'' b1) = (0, 1)"
      "pb_program b = \<lparr>pr_symbols = \<lparr>sy_strings = t3, sy_type_names = types, sy_relation_names = rels'\<rparr>,
         pr_instructions = [\<lparr>in_op = IInternRelation, in_args = [UInt64Value k]\<rparr>,
           \<lparr>in_op = ICreatePointer, in_args = [UInt64Value 1] @ ref_args (1, fst refs) @ ref_args (1, snd refs)
            @ [UInt64Value k, Float64Value weight, UInt64Value (ucast (role_to_byte role)), UInt64Value m]\<rparr>]\<rparr>"
      "pb_string_symbols b = s3"
    by (simp_all add: b_def b1_def pb_create_pointer_def pb_intern_relation_def pb_relation_symbol_def pb_string_symbol_def
        k(1) again m pb_emit_def set_symbols_def pb_temp_pointer_def Let_def)
  obtain later "is" where tail: "builds b later is (fold (attribute_setter ISetPointerAttribute (0, 1)) attributes b)"
      "list_all2 (attribute_instruction ISetPointerAttribute (0, 1) (sy_strings (pb_symbols b) @ later)) attributes is"
    using fold_attributes_builds [of 0 attributes b ISetPointerAttribute "(0, 1)"] three(1) by (auto simp: strings_ok_def shape)
  have "compile_link ltr s from to relation weight role attributes
      = (let (pointer, b) = pb_create_pointer (1, fst refs) (1, snd refs) relation weight role ''core'' b1
         in pb_program (fold (attribute_setter ISetPointerAttribute pointer) attributes b))"
    using x y by (cases ltr) (simp_all add: compile_link_def attribute_setters b0 pb_object_by_name_def pb_string_symbol_def
        set_symbols_def refs_def b1_def Let_def)
  then have "compile_link ltr s from to relation weight role attributes
      = pb_program (fold (attribute_setter ISetPointerAttribute (0, 1)) attributes b)"
    using shape(1) by (auto simp: b_def split: prod.split)
  moreover have "table_has (t3 @ later) (fst refs) from" "table_has (t3 @ later) (snd refs) to" "table_has (t3 @ later) m ''core''"
    using has table_has_append by (cases ltr; auto simp: refs_def)+
  ultimately show thesis
    using tail k(2) symbol_id_fresh(1) [OF proper rel k(1)] symbol_id_nonzero [OF proper rel k(1)]
    by (intro that [of _ k "fst refs" "snd refs" m "is"]) (auto simp: builds_def shape)
qed

section \<open>The runs\<close>

lemma loop_Cons:
  "execute_instruction H fmt17 frame index i = (True, frame') \<Longrightarrow>
   execute_loop H fmt17 frame index (i # is) = execute_loop H fmt17 frame' (index + 1) is"
  by simp

definition object_bodies :: "type_id \<Rightarrow> string \<Rightarrow> string \<Rightarrow> attribute list \<Rightarrow> operation_body list" where
  "object_bodies t name type attributes =
     [InternType type t, CreateObject \<lparr>co_temp = 1, co_name = name, co_type = t, co_existence = Alive, co_attributes = []\<rparr>]
     @ map (SetObjectAttribute (RefTemp 1)) attributes"

definition link_bodies ::
    "relation_type \<Rightarrow> object_id \<Rightarrow> object_id \<Rightarrow> string \<Rightarrow> f64 \<Rightarrow> causal_role \<Rightarrow> pointer_id \<Rightarrow> attribute list \<Rightarrow> operation_body list" where
  "link_bodies r i j relation weight role p attributes =
     [InternRelation relation r, CreatePointer \<lparr>cp_from = RefObject i, cp_to = RefObject j, cp_relation = r, cp_role = role,
        cp_weight = weight, cp_law_domain = ''core'', cp_attributes = []\<rparr>]
     @ map (SetPointerAttribute p) attributes"

lemma compile_object_runs:
  assumes proper: "names_proper (sn_type_names s)" and len: "length attributes + 1 < 2 ^ 64"
    and name: "object_named s name = None" and plain: "list_all (\<lambda>a. \<not> is_object_ref (snd a)) attributes"
  obtains t frame where "t \<noteq> 0" and "(case om_key_of (sn_type_names s) type of Some i \<Rightarrow> t = i | None \<Rightarrow> om_find (sn_type_names s) t = None)"
    and "execute_loop H fmt17 (initial_frame s (compile_object s name type attributes)) 0
        (pr_instructions (compile_object s name type attributes)) = (True, frame)"
    and "fr_delta frame = fold append_body (object_bodies t name type attributes) []"
proof -
  obtain k n "is" P where P: "compile_object s name type attributes = P"
      "pr_instructions P = \<lparr>in_op = IInternType, in_args = [UInt64Value k]\<rparr>
        # \<lparr>in_op = ICreateObject, in_args = [UInt64Value (ucast (1 :: u32)), UInt64Value n, UInt64Value k]\<rparr> # is"
      "table_has (sy_type_names (pr_symbols P)) k type" "table_has (sy_strings (pr_symbols P)) n name"
      "list_all2 (attribute_instruction ISetObjectAttribute (0, 1) (sy_strings (pr_symbols P))) attributes is"
      "om_key_of (sn_type_names s) type = None \<longrightarrow> om_find (sn_type_names s) (symbol_id (sn_type_names s) type k) = None"
      "symbol_id (sn_type_names s) type k \<noteq> 0"
    by (rule compile_object_program [OF proper len, of name type])
  let ?t = "symbol_id (sn_type_names s) type k"
  let ?f0 = "initial_frame s P"
  have init: "fr_program ?f0 = P" "fr_before ?f0 = s" "fr_temp_objects ?f0 = []" "fr_created_names ?f0 = []" "fr_delta ?f0 = []"
    by (simp_all add: initial_frame_def)
  obtain n1 where n1: "execute_instruction H fmt17 ?f0 0 \<lparr>in_op = IInternType, in_args = [UInt64Value k]\<rparr>
      = (True, ?f0\<lparr>fr_next_type := n1, fr_type_symbols := om_put k ?t (fr_type_symbols ?f0),
           fr_delta := append_body (InternType type ?t) []\<rparr>)"
    using exec_intern_type [of ?f0 k type H fmt17 0] P(3,6) unfolding init by blast
  let ?f1 = "?f0\<lparr>fr_next_type := n1, fr_type_symbols := om_put k ?t (fr_type_symbols ?f0), fr_delta := append_body (InternType type ?t) []\<rparr>"
  let ?c = "\<lparr>co_temp = 1, co_name = name, co_type = ?t, co_existence = Alive, co_attributes = []\<rparr>"
  let ?f2 = "?f1\<lparr>fr_temp_objects := om_emplace (ucast (1 :: u32)) 1 (fr_temp_objects ?f1),
      fr_created_names := om_emplace name 1 (fr_created_names ?f1), fr_delta := append_body (CreateObject ?c) (fr_delta ?f1)\<rparr>"
  have n2: "execute_instruction H fmt17 ?f1 (0 + 1)
      \<lparr>in_op = ICreateObject, in_args = [UInt64Value (ucast (1 :: u32)), UInt64Value n, UInt64Value k]\<rparr> = (True, ?f2)"
    by (rule exec_create_object) (simp_all add: init P(4) name om_find_put)
  have n3: "execute_loop H fmt17 ?f2 (0 + 1 + 1) is
      = (True, ?f2\<lparr>fr_delta := fold append_body (map (SetObjectAttribute (RefTemp 1)) attributes) (fr_delta ?f2)\<rparr>)"
    using P(5) plain by (intro run_object_attributes) (simp_all add: init om_find_emplace)
  have "execute_loop H fmt17 ?f0 0 (pr_instructions P)
      = (True, ?f2\<lparr>fr_delta := fold append_body (map (SetObjectAttribute (RefTemp 1)) attributes) (fr_delta ?f2)\<rparr>)"
    unfolding P(2) by (subst loop_Cons [OF n1], subst loop_Cons [OF n2], rule n3)
  then show thesis
    using P(6,7) by (intro that [of ?t]) (auto simp: P(1) symbol_id_def object_bodies_def split: option.splits)
qed

lemma compile_link_runs:
  assumes proper: "names_proper (sn_relation_names s)" and len: "length attributes + 3 < 2 ^ 64"
    and ends: "object_named s from = Some i" "object_named s to = Some j" and role: "role_named role"
    and plain: "list_all (\<lambda>a. \<not> is_object_ref (snd a)) attributes"
  obtains r frame where "r \<noteq> 0"
    and "(case om_key_of (sn_relation_names s) relation of Some q \<Rightarrow> r = q | None \<Rightarrow> om_find (sn_relation_names s) r = None)"
    and "execute_loop H fmt17 (initial_frame s (compile_link ltr s from to relation weight role attributes)) 0
        (pr_instructions (compile_link ltr s from to relation weight role attributes)) = (True, frame)"
    and "fr_delta frame = fold append_body (link_bodies r i j relation weight role (next_pointer_value s) attributes) []"
proof -
  obtain k x y m "is" P where P: "compile_link ltr s from to relation weight role attributes = P"
      "pr_instructions P = \<lparr>in_op = IInternRelation, in_args = [UInt64Value k]\<rparr>
        # \<lparr>in_op = ICreatePointer, in_args = [UInt64Value 1] @ ref_args (1, x) @ ref_args (1, y)
            @ [UInt64Value k, Float64Value weight, UInt64Value (ucast (role_to_byte role)), UInt64Value m]\<rparr> # is"
      "table_has (sy_relation_names (pr_symbols P)) k relation" "table_has (sy_strings (pr_symbols P)) x from"
      "table_has (sy_strings (pr_symbols P)) y to" "table_has (sy_strings (pr_symbols P)) m ''core''"
      "list_all2 (attribute_instruction ISetPointerAttribute (0, 1) (sy_strings (pr_symbols P))) attributes is"
      "om_key_of (sn_relation_names s) relation = None \<longrightarrow>
        om_find (sn_relation_names s) (symbol_id (sn_relation_names s) relation k) = None"
      "symbol_id (sn_relation_names s) relation k \<noteq> 0"
    by (rule compile_link_program [OF proper len, of ltr "from" to relation weight role])
  let ?r = "symbol_id (sn_relation_names s) relation k"
  let ?f0 = "initial_frame s P"
  have init: "fr_program ?f0 = P" "fr_before ?f0 = s" "fr_temp_pointers ?f0 = []" "fr_created_names ?f0 = []" "fr_delta ?f0 = []"
      "fr_next_pointer ?f0 = next_pointer_value s"
    by (simp_all add: initial_frame_def)
  obtain n1 where n1: "execute_instruction H fmt17 ?f0 0 \<lparr>in_op = IInternRelation, in_args = [UInt64Value k]\<rparr>
      = (True, ?f0\<lparr>fr_next_relation := n1, fr_relation_symbols := om_put k ?r (fr_relation_symbols ?f0),
           fr_delta := append_body (InternRelation relation ?r) []\<rparr>)"
    using exec_intern_relation [of ?f0 k relation H fmt17 0] P(3,8) unfolding init by blast
  let ?f1 = "?f0\<lparr>fr_next_relation := n1, fr_relation_symbols := om_put k ?r (fr_relation_symbols ?f0),
      fr_delta := append_body (InternRelation relation ?r) []\<rparr>"
  let ?c = "\<lparr>cp_from = RefObject i, cp_to = RefObject j, cp_relation = ?r, cp_role = role, cp_weight = weight,
      cp_law_domain = ''core'', cp_attributes = []\<rparr>"
  let ?f2 = "?f1\<lparr>fr_temp_pointers := om_emplace 1 (fr_next_pointer ?f1) (fr_temp_pointers ?f1),
      fr_next_pointer := fr_next_pointer ?f1 + 1, fr_delta := append_body (CreatePointer ?c) (fr_delta ?f1)\<rparr>"
  have named: "object_named (fr_before ?f1) from = Some i" "object_named (fr_before ?f1) to = Some j"
    by (simp_all add: init ends)
  have n2: "execute_instruction H fmt17 ?f1 (0 + 1)
      \<lparr>in_op = ICreatePointer, in_args = [UInt64Value 1] @ ref_args (1, x) @ ref_args (1, y)
            @ [UInt64Value k, Float64Value weight, UInt64Value (ucast (role_to_byte role)), UInt64Value m]\<rparr> = (True, ?f2)"
    by (rule exec_create_pointer [OF _ _ _ _ _ _ named]) (simp_all add: init P(4-6) om_find_put role)
  have n3: "execute_loop H fmt17 ?f2 (0 + 1 + 1) is
      = (True, ?f2\<lparr>fr_delta := fold append_body (map (SetPointerAttribute (next_pointer_value s)) attributes) (fr_delta ?f2)\<rparr>)"
    using P(7) plain by (intro run_pointer_attributes) (simp_all add: init om_find_emplace)
  have "execute_loop H fmt17 ?f0 0 (pr_instructions P)
      = (True, ?f2\<lparr>fr_delta := fold append_body (map (SetPointerAttribute (next_pointer_value s)) attributes) (fr_delta ?f2)\<rparr>)"
    unfolding P(2) by (subst loop_Cons [OF n1], subst loop_Cons [OF n2], rule n3)
  then show thesis
    using P(8,9) by (intro that [of ?r]) (auto simp: P(1) symbol_id_def link_bodies_def split: option.splits)
qed

end
