(* ===== verification/Compile_Effect.thy ===== *)
theory Compile_Effect
  imports Compile_Commands
begin

text \<open>What the deltas of the two commands do to the snapshot, and the commands from end to end.\<close>

section \<open>Bodies\<close>

definition overlay_body :: "digest \<Rightarrow> overlay_state \<Rightarrow> operation_body \<Rightarrow> overlay_error + overlay_state" where
  "overlay_body H st b = overlay_step H st \<lparr>op_id = 0, op_body = b\<rparr>"

lemma overlay_bodies: "res_fold (overlay_step H) st ops = res_fold (overlay_body H) st (map op_body ops)"
proof (induction ops arbitrary: st)
  case (Cons op ops)
  have "overlay_step H st op = overlay_body H st (op_body op)" by (simp add: overlay_body_def overlay_step_def)
  then show ?case using Cons.IH by (cases "overlay_body H st (op_body op)") simp_all
qed simp

lemma bodies_appended: "map op_body (fold append_body bodies d) = map op_body d @ bodies"
  by (induction bodies arbitrary: d) simp_all

lemma body_simps:
  "overlay_body H st (InternType n i) = overlay_intern_type n i st"
  "overlay_body H st (InternRelation n k) = overlay_intern_relation n k st"
  "overlay_body H st (CreateObject c) = overlay_create_object c st"
  "overlay_body H st (CreatePointer l) = overlay_create_pointer l st"
  "overlay_body H st (SetObjectAttribute r a) =
     overlay_update_object r (\<lambda>ob. ob\<lparr>os_attributes := set_attribute a (os_attributes ob)\<rparr>) st"
  "overlay_body H st (SetPointerAttribute q a) =
     overlay_update_pointer q (\<lambda>p. p\<lparr>ps_attributes := set_attribute a (ps_attributes p)\<rparr>) st"
  by (simp_all add: overlay_body_def overlay_step_def)

text \<open>Interning a name under the identifier the virtual machine gave it.\<close>

lemma intern_effect:
  assumes "om_inv names" and "name \<noteq> []" and "i \<noteq> 0"
    and "case om_key_of names name of Some j \<Rightarrow> i = j | None \<Rightarrow> om_find names i = None"
  shows "sn_type_names (ov_out st) = names \<Longrightarrow> \<exists>names'. om_find names' i = Some name
      \<and> overlay_intern_type name i st = Inr (st\<lparr>ov_out := (ov_out st)\<lparr>sn_type_names := names'\<rparr>\<rparr>)"
    and "sn_relation_names (ov_out st) = names \<Longrightarrow> \<exists>names'. om_find names' i = Some name
      \<and> overlay_intern_relation name i st = Inr (st\<lparr>ov_out := (ov_out st)\<lparr>sn_relation_names := names'\<rparr>\<rparr>)"
proof -
  have known: "om_find names i = Some name" if has: "om_has_value names name"
  proof -
    obtain j where "om_key_of names name = Some j"
      using has om_key_of_None_iff [of names name] by (auto simp: om_has_value_iff)
    then show ?thesis using assms(1,4) om_key_of_SomeD om_inv_find by fastforce
  qed
  have new: "om_find names i = None" if "\<not> om_has_value names name"
    using that assms(4) om_key_of_None_iff [of names name] by (simp add: om_has_value_iff)
  have same: "st\<lparr>ov_out := (ov_out st)\<lparr>sn_type_names := sn_type_names (ov_out st)\<rparr>\<rparr> = st"
      "st\<lparr>ov_out := (ov_out st)\<lparr>sn_relation_names := sn_relation_names (ov_out st)\<rparr>\<rparr> = st"
    by (cases st, cases "ov_out st", simp)+
  show "\<exists>names'. om_find names' i = Some name
      \<and> overlay_intern_type name i st = Inr (st\<lparr>ov_out := (ov_out st)\<lparr>sn_type_names := names'\<rparr>\<rparr>)"
    if out: "sn_type_names (ov_out st) = names"
  proof (cases "om_has_value names name")
    case True
    then show ?thesis using known same(1) out assms(2) by (auto simp: overlay_intern_type_def has_type_name_def Let_def)
  next
    case False
    then show ?thesis using new out assms(2,3)
      by (intro exI [of _ "om_emplace i name names"]) (auto simp: overlay_intern_type_def has_type_name_def Let_def om_find_emplace)
  qed
  show "\<exists>names'. om_find names' i = Some name
      \<and> overlay_intern_relation name i st = Inr (st\<lparr>ov_out := (ov_out st)\<lparr>sn_relation_names := names'\<rparr>\<rparr>)"
    if out: "sn_relation_names (ov_out st) = names"
  proof (cases "om_has_value names name")
    case True
    then show ?thesis using known same(2) out assms(2) by (auto simp: overlay_intern_relation_def has_relation_name_def Let_def)
  next
    case False
    then show ?thesis using new out assms(2,3)
      by (intro exI [of _ "om_emplace i name names"]) (auto simp: overlay_intern_relation_def has_relation_name_def Let_def om_find_emplace)
  qed
qed

lemma update_first_last:
  "(\<forall>x \<in> set xs. \<not> P x) \<Longrightarrow> P y \<Longrightarrow> update_first P f (xs @ [y]) = Some (xs @ [f y])"
  by (induction xs) auto

lemma object_attributes_effect:
  assumes "t \<noteq> 0" and "om_find (ov_temps st) t = Some i" and "\<forall>x \<in> set xs. os_id x \<noteq> i" and "os_id ob = i"
    and "sn_objects (ov_out st) = xs @ [ob]"
  shows "res_fold (overlay_body H) st (map (SetObjectAttribute (RefTemp t)) as) = Inr (st\<lparr>ov_out := (ov_out st)\<lparr>sn_objects :=
      xs @ [ob\<lparr>os_attributes := fold set_attribute as (os_attributes ob)\<rparr>]\<rparr>\<rparr>)"
  using assms(2,4,5)
proof (induction as arbitrary: st ob)
  case Nil
  then have "st\<lparr>ov_out := (ov_out st)\<lparr>sn_objects := xs @ [ob]\<rparr>\<rparr> = st" by (cases st, cases "ov_out st") simp
  moreover have "ob\<lparr>os_attributes := os_attributes ob\<rparr> = ob" by (cases ob) simp
  ultimately show ?case by simp
next
  case (Cons a as)
  let ?ob = "ob\<lparr>os_attributes := set_attribute a (os_attributes ob)\<rparr>"
  let ?st = "st\<lparr>ov_out := (ov_out st)\<lparr>sn_objects := xs @ [?ob]\<rparr>\<rparr>"
  have "overlay_body H st (SetObjectAttribute (RefTemp t) a) = Inr ?st"
    using Cons.prems assms(1,3) by (simp add: body_simps overlay_update_object_def resolve_ref_def mutate_object_def update_first_last)
  then show ?case using Cons.IH [of ?st ?ob] Cons.prems by simp
qed

lemma pointer_attributes_effect:
  assumes "\<forall>x \<in> set xs. ps_id x \<noteq> q" and "ps_id p = q" and "sn_pointers (ov_out st) = xs @ [p]"
  shows "res_fold (overlay_body H) st (map (SetPointerAttribute q) as) = Inr (st\<lparr>ov_out := (ov_out st)\<lparr>sn_pointers :=
      xs @ [p\<lparr>ps_attributes := fold set_attribute as (ps_attributes p)\<rparr>]\<rparr>\<rparr>)"
  using assms(2,3)
proof (induction as arbitrary: st p)
  case Nil
  then have "st\<lparr>ov_out := (ov_out st)\<lparr>sn_pointers := xs @ [p]\<rparr>\<rparr> = st" by (cases st, cases "ov_out st") simp
  moreover have "p\<lparr>ps_attributes := ps_attributes p\<rparr> = p" by (cases p) simp
  ultimately show ?case by simp
next
  case (Cons a as)
  let ?p = "p\<lparr>ps_attributes := set_attribute a (ps_attributes p)\<rparr>"
  let ?st = "st\<lparr>ov_out := (ov_out st)\<lparr>sn_pointers := xs @ [?p]\<rparr>\<rparr>"
  have "overlay_body H st (SetPointerAttribute q a) = Inr ?st"
    using Cons.prems assms(1) by (simp add: body_simps overlay_update_pointer_def mutate_pointer_def update_first_last)
  then show ?case using Cons.IH [of ?p ?st] Cons.prems by simp
qed

section \<open>The deltas\<close>

lemma sort_attributes_Nil [simp]: "sort_attributes [] = []"
  by (rule sort_attributes_sorted) simp

lemma object_bodies_effect:
  assumes wf: "snapshot_wf s" and room: "ids_room s 1" and name: "object_named s name = None" and type: "type \<noteq> []"
    and t: "t \<noteq> 0" "case om_key_of (sn_type_names s) type of Some i \<Rightarrow> t = i | None \<Rightarrow> om_find (sn_type_names s) t = None"
    and d: "map op_body d = object_bodies t name type attributes"
  shows "\<exists>after ob. overlay_apply H s d = Inr after \<and> map os_id (sn_objects after) = map os_id (sn_objects s) @ [os_id ob]
    \<and> ob \<in> set (sn_objects after) \<and> os_name ob = name \<and> snapshot_type_name after (os_type ob) = type
    \<and> os_existence ob = Alive \<and> os_attributes ob = fold set_attribute attributes []"
proof -
  let ?st0 = "overlay_init s"
  let ?i = "ObjectId (next_object_index s) 1"
  have init: "sn_objects (ov_out ?st0) = sn_objects s" "sn_type_names (ov_out ?st0) = sn_type_names s" "ov_seen_temps ?st0 = {}"
      "ov_names ?st0 = os_name ` set (sn_objects s)" "ov_temps ?st0 = []" "ov_next_index ?st0 = next_object_index s"
    by (simp_all add: overlay_init_def Let_def next_object_index_def)
  have "om_inv (sn_type_names s)" using wf by (simp add: snapshot_wf_def)
  then obtain names where n: "om_find names t = Some type"
      "overlay_intern_type type t ?st0 = Inr (?st0\<lparr>ov_out := (ov_out ?st0)\<lparr>sn_type_names := names\<rparr>\<rparr>)"
    using intern_effect(1) [OF _ type t, of ?st0] init(2) by blast
  let ?st1 = "?st0\<lparr>ov_out := (ov_out ?st0)\<lparr>sn_type_names := names\<rparr>\<rparr>"
  let ?c = "\<lparr>co_temp = 1, co_name = name, co_type = t, co_existence = Alive, co_attributes = []\<rparr>"
  let ?ob = "\<lparr>os_id = ?i, os_name = name, os_type = t, os_existence = Alive, os_attributes = [], os_incoming = 0, os_outgoing = 0\<rparr>"
  have fresh: "name \<notin> os_name ` set (sn_objects s)" using name by (auto simp: object_named_def find_None_mem)
  have ids: "\<forall>x \<in> set (sn_objects s). os_id x \<noteq> ?i"
    using room by (force simp: ids_room_def list_all_iff)
  obtain st2 where st2: "overlay_create_object ?c ?st1 = Inr st2" "sn_objects (ov_out st2) = sn_objects s @ [?ob]"
      "om_find (ov_temps st2) 1 = Some ?i" "sn_type_names (ov_out st2) = names"
    using fresh n(1) t(1) by (auto simp: overlay_create_object_def init has_type_id_def om_contains_def om_find_emplace Let_def)
  let ?obf = "?ob\<lparr>os_attributes := fold set_attribute attributes []\<rparr>"
  let ?st3 = "st2\<lparr>ov_out := (ov_out st2)\<lparr>sn_objects := sn_objects s @ [?obf]\<rparr>\<rparr>"
  have st3: "res_fold (overlay_body H) st2 (map (SetObjectAttribute (RefTemp 1)) attributes) = Inr ?st3"
    using object_attributes_effect [of 1 st2 ?i "sn_objects s" ?ob H attributes] st2 ids by simp
  have "res_fold (overlay_step H) ?st0 d = Inr ?st3"
    unfolding overlay_bodies d object_bodies_def by (simp add: body_simps n(2) st2(1) st3)
  then have after: "overlay_apply H s d = Inr (overlay_finish H ?st3)" by (simp add: overlay_apply_def)
  let ?e = "sn_epoch (ov_out st2)" and ?ps = "sn_pointers (ov_out st2)"
  have "distinct (map os_id (sn_objects (ov_out ?st3)))" using wf ids by (auto simp: snapshot_wf_def)
  then have objects: "sn_objects (overlay_finish H ?st3) = map (with_counts ?e ?ps) (sn_objects s @ [?obf])"
      "sn_type_names (overlay_finish H ?st3) = names"
    by (simp_all add: overlay_finish_def Let_def recompute_counts_spec st2(4))
  obtain after where a: "overlay_apply H s d = Inr after" "sn_objects after = map (with_counts ?e ?ps) (sn_objects s @ [?obf])"
      "sn_type_names after = names"
    by (rule that [OF after objects])
  show ?thesis
    by (intro exI [of _ after] exI [of _ "with_counts ?e ?ps ?obf"] conjI a)
      (simp_all add: a with_counts_def snapshot_type_name_def n(1) comp_def)
qed

lemma object_named_contained:
  assumes "object_named s name = Some i"
  shows "snapshot_contains s i"
  using assms by (auto simp: object_named_def find_Some_iff snapshot_contains_mem)

lemma link_bodies_effect:
  assumes wf: "snapshot_wf s" and room: "ids_room s 1" and ends: "object_named s from = Some i" "object_named s to = Some j"
    and relation: "relation \<noteq> []"
    and r: "r \<noteq> 0" "case om_key_of (sn_relation_names s) relation of Some q \<Rightarrow> r = q | None \<Rightarrow> om_find (sn_relation_names s) r = None"
    and d: "map op_body d = link_bodies r i j relation weight role (next_pointer_value s) attributes"
  shows "\<exists>after p. overlay_apply H s d = Inr after \<and> sn_pointers after = sn_pointers s @ [p]
    \<and> ps_from p = i \<and> ps_to p = j \<and> snapshot_relation_name after (ps_relation p) = relation \<and> ps_role p = role
    \<and> ps_weight p = weight \<and> ps_born p = sn_epoch after \<and> ps_expires p = None \<and> ps_law_domain p = ''core''
    \<and> ps_attributes p = fold set_attribute attributes []"
proof -
  let ?st0 = "overlay_init s"
  have init: "sn_objects (ov_out ?st0) = sn_objects s" "sn_relation_names (ov_out ?st0) = sn_relation_names s"
      "sn_pointers (ov_out ?st0) = sn_pointers s" "ov_next_pointer ?st0 = next_pointer_value s"
    by (simp_all add: overlay_init_def Let_def next_pointer_value_def)
  have "om_inv (sn_relation_names s)" using wf by (simp add: snapshot_wf_def)
  then obtain names where n: "om_find names r = Some relation"
      "overlay_intern_relation relation r ?st0 = Inr (?st0\<lparr>ov_out := (ov_out ?st0)\<lparr>sn_relation_names := names\<rparr>\<rparr>)"
    using intern_effect(2) [OF _ relation r, of ?st0] init(2) by blast
  let ?st1 = "?st0\<lparr>ov_out := (ov_out ?st0)\<lparr>sn_relation_names := names\<rparr>\<rparr>"
  let ?c = "\<lparr>cp_from = RefObject i, cp_to = RefObject j, cp_relation = r, cp_role = role, cp_weight = weight,
      cp_law_domain = ''core'', cp_attributes = []\<rparr>"
  let ?p = "\<lparr>ps_id = next_pointer_value s, ps_from = i, ps_to = j, ps_relation = r, ps_role = role, ps_weight = weight,
      ps_born = sn_epoch (ov_out ?st0), ps_expires = None, ps_law_domain = ''core'', ps_attributes = []\<rparr>"
  have present: "snapshot_contains (ov_out ?st1) i" "snapshot_contains (ov_out ?st1) j"
    using ends object_named_contained [of s] by (auto simp: snapshot_contains_mem init)
  have ids: "\<forall>q \<in> set (sn_pointers s). ps_id q \<noteq> next_pointer_value s"
    using room by (force simp: ids_room_def list_all_iff)
  obtain st2 where st2: "overlay_create_pointer ?c ?st1 = Inr st2" "sn_pointers (ov_out st2) = sn_pointers s @ [?p]"
      "sn_relation_names (ov_out st2) = names" "sn_epoch (ov_out st2) = sn_epoch (ov_out ?st0)"
    using present n(1) r(1) by (auto simp: overlay_create_pointer_def init has_relation_id_def om_contains_def resolve_ref_def Let_def)
  let ?pf = "?p\<lparr>ps_attributes := fold set_attribute attributes []\<rparr>"
  let ?st3 = "st2\<lparr>ov_out := (ov_out st2)\<lparr>sn_pointers := sn_pointers s @ [?pf]\<rparr>\<rparr>"
  have st3: "res_fold (overlay_body H) st2 (map (SetPointerAttribute (next_pointer_value s)) attributes) = Inr ?st3"
    using pointer_attributes_effect [of "sn_pointers s" "next_pointer_value s" ?p st2 H attributes] st2 ids by simp
  have "res_fold (overlay_step H) ?st0 d = Inr ?st3"
    unfolding overlay_bodies d link_bodies_def by (simp add: body_simps n(2) st2(1) st3)
  then have after: "overlay_apply H s d = Inr (overlay_finish H ?st3)" by (simp add: overlay_apply_def)
  have parts: "sn_pointers (overlay_finish H ?st3) = sn_pointers s @ [?pf]" "sn_relation_names (overlay_finish H ?st3) = names"
      "sn_epoch (overlay_finish H ?st3) = sn_epoch (ov_out ?st0)"
    by (simp_all add: overlay_finish_def Let_def recompute_counts_def st2(3,4))
  obtain after where a: "overlay_apply H s d = Inr after" "sn_pointers after = sn_pointers s @ [?pf]"
      "sn_relation_names after = names" "sn_epoch after = sn_epoch (ov_out ?st0)"
    by (rule that [OF after parts])
  show ?thesis
    by (intro exI [of _ after] exI [of _ ?pf] conjI a) (simp_all add: a snapshot_relation_name_def n(1))
qed

section \<open>The commands\<close>

lemma vm_execute_accepted:
  assumes "execute_loop H fmt17 (initial_frame before program) 0 (pr_instructions program) = (True, frame)"
    and "overlay_apply H before (fr_delta frame) = Inr after"
  shows "vm_ok (vm_execute H fmt17 before program) \<and> vm_delta (vm_execute H fmt17 before program) = fr_delta frame"
  using assms by (simp add: vm_execute_def Let_def)

lemma compile_object_effect:
  fixes H :: digest and fmt17 :: "f64 \<Rightarrow> string"
  assumes wf: "snapshot_wf s" "ids_room s 1" "names_proper (sn_type_names s)" and len: "length attributes + 1 < 2 ^ 64"
    and name: "object_named s name = None" and type: "type \<noteq> []" and plain: "list_all (\<lambda>a. \<not> is_object_ref (snd a)) attributes"
  defines "result \<equiv> vm_execute H fmt17 s (compile_object s name type attributes)"
  shows "vm_ok result \<and> (\<exists>after ob. overlay_apply H s (vm_delta result) = Inr after
    \<and> map os_id (sn_objects after) = map os_id (sn_objects s) @ [os_id ob] \<and> ob \<in> set (sn_objects after)
    \<and> os_name ob = name \<and> snapshot_type_name after (os_type ob) = type
    \<and> os_existence ob = Alive \<and> os_attributes ob = fold set_attribute attributes [])"
proof -
  obtain t frame where t: "t \<noteq> 0" "case om_key_of (sn_type_names s) type of Some i \<Rightarrow> t = i | None \<Rightarrow> om_find (sn_type_names s) t = None"
    and loop: "execute_loop H fmt17 (initial_frame s (compile_object s name type attributes)) 0
        (pr_instructions (compile_object s name type attributes)) = (True, frame)"
    and d: "fr_delta frame = fold append_body (object_bodies t name type attributes) []"
    by (rule compile_object_runs [OF wf(3) len name plain])
  have "map op_body (fr_delta frame) = object_bodies t name type attributes" by (simp add: d bodies_appended)
  from object_bodies_effect [OF wf(1,2) name type t this, of H] show ?thesis
    using vm_execute_accepted [OF loop] unfolding result_def by auto
qed

lemma compile_link_effect:
  fixes H :: digest and fmt17 :: "f64 \<Rightarrow> string" and weight :: f64 and ltr :: bool
  assumes wf: "snapshot_wf s" "ids_room s 1" "names_proper (sn_relation_names s)" and len: "length attributes + 3 < 2 ^ 64"
    and ends: "object_named s from = Some i" "object_named s to = Some j" and relation: "relation \<noteq> []"
    and role: "role_named role" and plain: "list_all (\<lambda>a. \<not> is_object_ref (snd a)) attributes"
  defines "result \<equiv> vm_execute H fmt17 s (compile_link ltr s from to relation weight role attributes)"
  shows "vm_ok result \<and> (\<exists>after p. overlay_apply H s (vm_delta result) = Inr after \<and> sn_pointers after = sn_pointers s @ [p]
    \<and> ps_from p = i \<and> ps_to p = j \<and> snapshot_relation_name after (ps_relation p) = relation \<and> ps_role p = role
    \<and> ps_weight p = weight \<and> ps_born p = sn_epoch after \<and> ps_expires p = None \<and> ps_law_domain p = ''core''
    \<and> ps_attributes p = fold set_attribute attributes [])"
proof -
  obtain r frame where r: "r \<noteq> 0"
      "case om_key_of (sn_relation_names s) relation of Some q \<Rightarrow> r = q | None \<Rightarrow> om_find (sn_relation_names s) r = None"
    and loop: "execute_loop H fmt17 (initial_frame s (compile_link ltr s from to relation weight role attributes)) 0
        (pr_instructions (compile_link ltr s from to relation weight role attributes)) = (True, frame)"
    and d: "fr_delta frame = fold append_body (link_bodies r i j relation weight role (next_pointer_value s) attributes) []"
    by (rule compile_link_runs [OF wf(3) len ends role plain])
  have "map op_body (fr_delta frame) = link_bodies r i j relation weight role (next_pointer_value s) attributes"
    by (simp add: d bodies_appended)
  from link_bodies_effect [OF wf(1,2) ends relation r this, of H] show ?thesis
    using vm_execute_accepted [OF loop] unfolding result_def by auto
qed

end
