(* ===== verification/Demo_Layers.thy ===== *)
theory Demo_Layers
  imports Demo_Runtime Derivation_Model Merge_Props Rules_Props Rules_Text Compile_Effect
begin

text \<open>
  Concrete data for the layers above the runtime: a chain of two edges with the derivation that closes it,
  a rule, and the conditions of compiled commands on the snapshots of \<open>Demo\<close>.
\<close>

definition demo_chain :: world_snapshot where
  "demo_chain = demo_snapshot\<lparr>sn_pointers :=
     [demo_pointer\<lparr>ps_to := ObjectId 1 1\<rparr>, demo_pointer\<lparr>ps_id := 2, ps_from := ObjectId 1 1, ps_to := ObjectId 2 1\<rparr>]\<rparr>"

definition demo_closure :: derivation where
  "demo_closure = \<lparr>dv_name = ''reach'',
     dv_body = [\<lparr>da_from = ''X'', da_relation = ''r'', da_to = ''Y''\<rparr>, \<lparr>da_from = ''Y'', da_relation = ''r'', da_to = ''Z''\<rparr>],
     dv_head = blank_head\<lparr>dh_from := ''X'', dh_relation := ''r'', dh_to := ''Z''\<rparr>\<rparr>"

lemma demo_chain_derives:
  "map edge_key (derived_edges [demo_closure] demo_chain) = [(ObjectId 0 1, ObjectId 2 1, ''r'')]"
  by code_simp

definition demo_rule :: rule where
  "demo_rule = blank_rule\<lparr>rl_name := ''acyclic'', rl_trigger := \<lparr>rp_from_type = ''T'', rp_relation = ''r'', rp_to_type = ''T''\<rparr>,
     rl_requirements := [\<lparr>rq_pattern = \<lparr>rp_from_type = ''T'', rp_relation = ''r'', rp_to_type = ''T''\<rparr>,
        rq_from = TriggerFrom, rq_to = TriggerTo, rq_search = SearchBefore, rq_forbidden = False\<rparr>],
     rl_reason := ''no {from}''\<rparr>"

lemma demo_base_program:
  "snapshot_wf demo_base" "ids_room demo_base (Suc 0)" "object_named demo_base x = None" "names_proper (sn_type_names demo_base)"
proof -
  show "snapshot_wf demo_base" unfolding demo_base_def by (rule demo_base_wf)
  show "ids_room demo_base (Suc 0)" by (simp add: ids_room_def next_object_index_def next_pointer_value_def demo_base_empty)
  show "object_named demo_base x = None" by (simp add: object_named_def demo_base_empty)
  show "names_proper (sn_type_names demo_base)" by code_simp
qed

lemma demo_snapshot_program:
  "object_named demo_snapshot ''a'' = Some (ObjectId 0 1)" "names_proper (sn_relation_names demo_snapshot)"
  by (simp_all add: object_named_def names_proper_def names_unique_def demo_snapshot_def demo_object_def)

end
