(* ===== verification/Text_Stream.thy ===== *)
theory Text_Stream
  imports Text_Lines Hashing
begin

text \<open>
  Input streams over a text: \<open>operator>>\<close> on strings and on 64-bit unsigned integers.  A stream is the text
  that is left, or \<open>None\<close> once an extraction has failed.  Extracting skips white space first; a number may have
  a sign, and one that does not fit leaves the largest value and a failed stream.
\<close>

type_synonym istream = "string option"

definition read_word :: "istream \<Rightarrow> string \<times> istream" where
  "read_word st = (case st of
     None \<Rightarrow> ([], None)
   | Some s \<Rightarrow>
       let s = dropWhile is_space s
       in if s = [] then ([], None)
          else (takeWhile (\<lambda>c. \<not> is_space c) s, Some (dropWhile (\<lambda>c. \<not> is_space c) s)))"

definition is_digit :: "char \<Rightarrow> bool" where
  "is_digit c = (48 \<le> (of_char c :: nat) \<and> (of_char c :: nat) < 58)"

definition digits_value :: "string \<Rightarrow> nat" where
  "digits_value ds = foldl (\<lambda>n c. n * 10 + (of_char c - 48)) 0 ds"

text \<open>The first argument is the value the variable has before: it stays when nothing is left to read.\<close>

definition read_u64 :: "64 word \<Rightarrow> istream \<Rightarrow> 64 word \<times> istream" where
  "read_u64 old st = (case st of
     None \<Rightarrow> (old, None)
   | Some s \<Rightarrow>
       let s = dropWhile is_space s
       in if s = [] then (old, None)
          else
            let negative = (hd s = CHR ''-'');
                s = (if negative \<or> hd s = CHR ''+'' then tl s else s);
                ds = takeWhile is_digit s;
                n = digits_value ds
            in if ds = [] then (0, None)
               else if 2 ^ 64 \<le> n then (- 1, None)
               else (if negative then - of_nat n else of_nat n, Some (dropWhile is_digit s)))"

section \<open>Reading back what was written\<close>

lemma digit_char_is_digit: "d < 10 \<Longrightarrow> is_digit (digit_char d)"
  by (simp add: is_digit_def of_char_digit_char)

lemma dec_string_digits: "list_all is_digit (dec_string n)"
proof (induction n rule: dec_string.induct)
  case (1 n)
  then show ?case by (subst dec_string.simps) (auto simp: digit_char_is_digit)
qed

lemma digits_value_snoc: "digits_value (ds @ [c]) = digits_value ds * 10 + (of_char c - 48)"
  by (simp add: digits_value_def)

lemma digits_value_dec_string [simp]: "digits_value (dec_string n) = n"
proof (induction n rule: dec_string.induct)
  case (1 n)
  show ?case
  proof (cases "n < 10")
    case True
    then show ?thesis by (subst dec_string.simps) (simp add: digits_value_def of_char_digit_char)
  next
    case False
    from 1 [OF False] False show ?thesis
      by (subst dec_string.simps) (simp add: digits_value_snoc of_char_digit_char)
  qed
qed

lemma is_digit_not_space: "is_digit c \<Longrightarrow> \<not> is_space c"
  by (auto simp: is_digit_def is_space_def)

lemma is_digit_no_sign: "is_digit c \<Longrightarrow> c \<noteq> CHR ''-'' \<and> c \<noteq> CHR ''+''"
  by (auto simp: is_digit_def)

lemma dec_string_plain: "plain_word (dec_string n)"
  using dec_string_digits [of n] is_digit_not_space by (auto simp: plain_word_def list_all_iff)

lemma takeWhile_until: "list_all P xs \<Longrightarrow> ys = [] \<or> \<not> P (hd ys) \<Longrightarrow> takeWhile P (xs @ ys) = xs"
  by (induction xs) (cases ys; auto)+

lemma dropWhile_until: "list_all P xs \<Longrightarrow> ys = [] \<or> \<not> P (hd ys) \<Longrightarrow> dropWhile P (xs @ ys) = ys"
  by (induction xs) (cases ys; auto)+

lemma skip_blanks: "list_all is_space sp \<Longrightarrow> plain_word w \<Longrightarrow> dropWhile is_space (sp @ w @ rest) = w @ rest"
  by (rule dropWhile_until) (auto simp: plain_word_def list_all_iff)

lemma read_word_word:
  assumes "list_all is_space sp" and "plain_word w" and "rest = [] \<or> is_space (hd rest)"
  shows "read_word (Some (sp @ w @ rest)) = (w, Some rest)"
proof -
  have "w \<noteq> []" "list_all (\<lambda>c. \<not> is_space c) w" using assms(2) by (simp_all add: plain_word_def)
  then show ?thesis
    using takeWhile_until [of "\<lambda>c. \<not> is_space c" w rest] dropWhile_until [of "\<lambda>c. \<not> is_space c" w rest] assms(3)
    by (simp add: read_word_def skip_blanks [OF assms(1,2)] Let_def)
qed

lemma read_word_blank: "list_all is_space sp \<Longrightarrow> read_word (Some sp) = ([], None)"
  using dropWhile_until [of is_space sp "[]"] by (simp add: read_word_def Let_def)

lemma read_word_failed [simp]: "read_word None = ([], None)"
  by (simp add: read_word_def)

lemma read_u64_number:
  assumes "list_all is_space sp" and "rest = [] \<or> \<not> is_digit (hd rest)"
  shows "read_u64 old (Some (sp @ dec_string (unat v) @ rest)) = (v, Some rest)"
proof -
  let ?d = "dec_string (unat v)"
  have digits: "list_all is_digit ?d" by (rule dec_string_digits)
  then have "is_digit (hd (?d @ rest))" by (cases ?d) simp_all
  then have sign: "hd (?d @ rest) \<noteq> CHR ''-''" "hd (?d @ rest) \<noteq> CHR ''+''" using is_digit_no_sign by blast+
  have "unat v < 2 ^ 64" using unsigned_less [of v, where 'a = nat] by simp
  then have fits: "\<not> 2 ^ 64 \<le> unat v" by simp
  have nz: "?d @ rest \<noteq> []" by simp
  show ?thesis
    unfolding read_u64_def option.case skip_blanks [OF assms(1) dec_string_plain] Let_def if_not_P [OF nz]
    using sign nz takeWhile_until [OF digits assms(2)] dropWhile_until [OF digits assms(2)] fits by simp
qed

lemma read_u64_failed [simp]: "read_u64 old None = (old, None)"
  by (simp add: read_u64_def)

section \<open>Hexadecimal words\<close>

definition bytes_to_hex :: "bytes \<Rightarrow> string" where
  "bytes_to_hex bs = concat (map byte_to_hex bs)"

lemma byte_to_hex_length [simp]: "length (byte_to_hex b) = 2"
  by (simp add: byte_to_hex_def)

lemma bytes_to_hex_length [simp]: "length (bytes_to_hex bs) = 2 * length bs"
  by (induction bs) (simp_all add: bytes_to_hex_def)

lemma byte_hex_no_space: "list_all (\<lambda>c. \<not> is_space c) (byte_to_hex b)"
proof -
  have "list_all (\<lambda>b. unat (drop_bit 4 b) < 16 \<and> unat (b AND 0x0f) < 16) all_bytes" by code_simp
  then have "unat (drop_bit 4 b) < 16" "unat (b AND 0x0f) < 16" using in_all_bytes [of b] by (simp_all add: list_all_iff)
  moreover have "length hex_digits = 16" "list_all (\<lambda>c. \<not> is_space c) hex_digits" by (simp_all add: hex_digits_def is_space_def)
  ultimately show ?thesis unfolding byte_to_hex_def by (simp add: list_all_iff)
qed

lemma bytes_hex_no_space: "list_all (\<lambda>c. \<not> is_space c) (bytes_to_hex bs)"
  using byte_hex_no_space by (induction bs) (simp_all add: bytes_to_hex_def)

lemma to_hex_bytes: "to_hex h = bytes_to_hex (hash_bytes h)"
  by (simp add: to_hex_def bytes_to_hex_def)

lemma to_hex_plain: "plain_word (to_hex h)"
proof -
  have "to_hex h \<noteq> []" using length_to_hex [of h] by auto
  then show ?thesis using bytes_hex_no_space [of "hash_bytes h"] by (simp add: plain_word_def to_hex_bytes)
qed

end
