(* ===== verification/Content_Store.thy ===== *)
theory Content_Store
  imports Text_Stream
begin

text \<open>
  The content-addressed store (\<open>src/storage/content_store.cpp\<close>, \<open>src/storage/pack_store.cpp\<close>).  A loose object
  is a file named by its hash; the directory of packs is a list of packs in the order the file system lists
  them, each the text of its index and the bytes of its data.
\<close>

record pack =
  pk_number :: u64
  pk_index :: string
  pk_data :: bytes

record content_store =
  cs_loose :: "(hash256, bytes) omap"
  cs_packs :: "pack list"

datatype content_error =
    ObjectHashMismatch hash256
  | ObjectNotFound hash256
  | InvalidPackIndexHash
  | TruncatedPackObject
  | PackedHashMismatch hash256
  | LooseHashMismatch hash256
  | ObjectDecode codec_error

record pack_entry =
  px_id :: hash256
  px_data :: bytes
  px_offset :: u64
  px_size :: u64

definition empty_store :: content_store where
  "empty_store = \<lparr>cs_loose = [], cs_packs = []\<rparr>"

section \<open>Packs\<close>

text \<open>The loop over the lines of an index, which ends when an extraction fails.\<close>

lemma read_word_shorter: "read_word (Some s) = (w, Some s') \<Longrightarrow> length s' < length s"
proof -
  assume r: "read_word (Some s) = (w, Some s')"
  let ?t = "dropWhile is_space s"
  have ne: "?t \<noteq> []" and s': "s' = dropWhile (\<lambda>c. \<not> is_space c) ?t"
    using r by (auto simp: read_word_def Let_def split: if_splits)
  from ne obtain c cs where t: "?t = c # cs" by (cases ?t) auto
  then have "\<not> is_space c" by (metis hd_dropWhile list.sel(1) list.distinct(1))
  then have "length s' \<le> length cs" using s' t by (simp add: length_dropWhile_le)
  moreover have "length (c # cs) \<le> length s" using length_dropWhile_le [of is_space s] t by metis
  ultimately show ?thesis by simp
qed

lemma read_u64_shorter: "read_u64 old (Some s) = (v, Some s') \<Longrightarrow> length s' \<le> length s"
proof -
  assume r: "read_u64 old (Some s) = (v, Some s')"
  let ?t = "dropWhile is_space s"
  have "s' = dropWhile is_digit ?t \<or> s' = dropWhile is_digit (tl ?t)"
    using r by (auto simp: read_u64_def Let_def split: if_splits)
  moreover have "length (dropWhile is_digit xs) \<le> length xs" for xs by (rule length_dropWhile_le)
  moreover have "length ?t \<le> length s" by (rule length_dropWhile_le)
  ultimately show ?thesis by (metis diff_le_self le_trans length_tl)
qed

function read_index_entries :: "bytes \<Rightarrow> istream \<Rightarrow> content_error + pack_entry list" where
  "read_index_entries data st =
     (let (hash_text, st1) = read_word st; (offset, st2) = read_u64 0 st1; (size, st3) = read_u64 0 st2
      in if st3 = None then Inr []
         else case parse_hash256 hash_text of
                None \<Rightarrow> Inl InvalidPackIndexHash
              | Some h \<Rightarrow> res_bind (read_index_entries data st3) (\<lambda>es.
                  Inr (\<lparr>px_id = h, px_data = data, px_offset = offset, px_size = size\<rparr> # es)))"
  by pat_completeness auto
termination
proof (relation "measure (\<lambda>(_, st). case st of None \<Rightarrow> 0 | Some s \<Rightarrow> Suc (length s))")
  show "wf (measure (\<lambda>(_, st). case st of None \<Rightarrow> 0 | Some s \<Rightarrow> Suc (length s)))" by simp
next
  fix data :: bytes and st st1 st2 st3 :: istream and x hash_text y offset z size h
  assume w: "x = read_word st" "(hash_text, st1) = x" and u: "y = read_u64 0 st1" "(offset, st2) = y"
    and v: "z = read_u64 0 st2" "(size, st3) = z" and some: "st3 \<noteq> None"
  from some obtain s3 where s3: "st3 = Some s3" by auto
  with v obtain s2 where s2: "st2 = Some s2" by (cases st2) auto
  with u obtain s1 where s1: "st1 = Some s1" by (cases st1) auto
  with w obtain s where s: "st = Some s" by (cases st) auto
  have "length s3 \<le> length s2" using v s2 s3 read_u64_shorter by metis
  also have "length s2 \<le> length s1" using u s1 s2 read_u64_shorter by metis
  also have "length s1 < length s" using w s s1 read_word_shorter by metis
  finally show "((data, st3), data, st) \<in> measure (\<lambda>(_, st). case st of None \<Rightarrow> 0 | Some s \<Rightarrow> Suc (length s))"
    by (simp add: s s3)
qed

declare read_index_entries.simps [simp del]

definition pack_entries :: "pack \<Rightarrow> content_error + pack_entry list" where
  "pack_entries p =
     (let (magic, st) = read_word (Some (pk_index p))
      in if magic \<noteq> ''PVIDX1'' then Inr [] else read_index_entries (pk_data p) st)"

definition index_entries :: "content_store \<Rightarrow> content_error + pack_entry list" where
  "index_entries s = res_fold (\<lambda>es p. res_bind (pack_entries p) (\<lambda>more. Inr (es @ more))) [] (cs_packs s)"

definition find_packed :: "content_store \<Rightarrow> hash256 \<Rightarrow> content_error + pack_entry option" where
  "find_packed s i = res_bind (index_entries s) (\<lambda>es. Inr (List.find (\<lambda>e. px_id e = i) es))"

definition packed_bytes :: "digest \<Rightarrow> content_store \<Rightarrow> hash256 \<Rightarrow> content_error + bytes" where
  "packed_bytes H s i =
     res_bind (find_packed s i) (\<lambda>found. case found of
       None \<Rightarrow> Inl (ObjectNotFound i)
     | Some e \<Rightarrow>
         let bs = take (unat (px_size e)) (drop (unat (px_offset e)) (px_data e))
         in if length bs < unat (px_size e) then Inl TruncatedPackObject
            else if H bs \<noteq> i then Inl (PackedHashMismatch i) else Inr bs)"

section \<open>Objects\<close>

definition get_bytes :: "digest \<Rightarrow> content_store \<Rightarrow> hash256 \<Rightarrow> content_error + bytes" where
  "get_bytes H s i =
     (case om_find (cs_loose s) i of
        None \<Rightarrow> packed_bytes H s i
      | Some bs \<Rightarrow> if H bs \<noteq> i then Inl (ObjectHashMismatch i) else Inr bs)"

definition put_bytes :: "digest \<Rightarrow> bytes \<Rightarrow> content_store \<Rightarrow> content_error + hash256 \<times> content_store" where
  "put_bytes H bs s =
     (let i = H bs
      in if om_contains (cs_loose s) i then res_bind (get_bytes H s i) (\<lambda>_. Inr (i, s))
         else Inr (i, s\<lparr>cs_loose := om_put i bs (cs_loose s)\<rparr>))"

definition store_contains :: "content_store \<Rightarrow> hash256 \<Rightarrow> content_error + bool" where
  "store_contains s i =
     (if om_contains (cs_loose s) i then Inr True else res_bind (find_packed s i) (\<lambda>e. Inr (e \<noteq> None)))"

definition decode_canonical :: "'a decoder \<Rightarrow> bytes \<Rightarrow> codec_error + 'a" where
  "decode_canonical d bs = res_bind (d bs) (\<lambda>(x, rest). if reader_eof rest then Inr x else Inl TrailingBytes)"

definition get_canonical :: "digest \<Rightarrow> 'a decoder \<Rightarrow> content_store \<Rightarrow> hash256 \<Rightarrow> content_error + 'a" where
  "get_canonical H d s i = res_bind (get_bytes H s i) (\<lambda>bs.
     case decode_canonical d bs of Inl e \<Rightarrow> Inl (ObjectDecode e) | Inr x \<Rightarrow> Inr x)"

definition put_canonical :: "digest \<Rightarrow> ('a \<Rightarrow> bytes) \<Rightarrow> 'a \<Rightarrow> content_store \<Rightarrow> content_error + hash256 \<times> content_store" where
  "put_canonical H enc x = put_bytes H (enc x)"

section \<open>Compaction\<close>

record pack_report =
  pr_packed_objects :: nat
  pr_packed_bytes :: nat

definition next_pack_number :: "content_store \<Rightarrow> u64" where
  "next_pack_number s = fold (\<lambda>p n. max n (pk_number p + 1)) (cs_packs s) 1"

definition index_line :: "hash256 \<Rightarrow> u64 \<Rightarrow> nat \<Rightarrow> string" where
  "index_line h offset n = to_hex h @ '' '' @ dec_string (unat offset) @ '' '' @ dec_string n @ [newline]"

definition pack_magic :: bytes where
  "pack_magic = map char_to_byte (''PVPACK1'' @ [newline])"

definition pack_step :: "digest \<Rightarrow> u64 \<times> string \<times> bytes \<Rightarrow> hash256 \<times> bytes \<Rightarrow> content_error + u64 \<times> string \<times> bytes" where
  "pack_step H acc obj =
     (let (offset, index, data) = acc; (h, bs) = obj
      in if H bs \<noteq> h then Inl (LooseHashMismatch h)
         else Inr (offset + of_nat (length bs), index @ index_line h offset (length bs), data @ bs))"

definition compact_loose :: "digest \<Rightarrow> content_store \<Rightarrow> content_error + pack_report \<times> content_store" where
  "compact_loose H s =
     (if cs_loose s = [] then Inr (\<lparr>pr_packed_objects = 0, pr_packed_bytes = 0\<rparr>, s)
      else res_bind (res_fold (pack_step H) (of_nat (length pack_magic), ''PVIDX1'' @ [newline], pack_magic) (cs_loose s))
        (\<lambda>(offset, index, data).
          Inr (\<lparr>pr_packed_objects = length (cs_loose s), pr_packed_bytes = sum_list (map (length \<circ> snd) (cs_loose s))\<rparr>,
               \<lparr>cs_loose = [],
                cs_packs = cs_packs s @ [\<lparr>pk_number = next_pack_number s, pk_index = index, pk_data = data\<rparr>]\<rparr>)))"

section \<open>What a pack holds\<close>

fun index_text :: "u64 \<Rightarrow> (hash256 \<times> bytes) list \<Rightarrow> string" where
  "index_text offset [] = []"
| "index_text offset ((h, bs) # objs) = index_line h offset (length bs) @ index_text (offset + of_nat (length bs)) objs"

fun entries_text :: "bytes \<Rightarrow> u64 \<Rightarrow> (hash256 \<times> bytes) list \<Rightarrow> pack_entry list" where
  "entries_text data offset [] = []"
| "entries_text data offset ((h, bs) # objs) =
     \<lparr>px_id = h, px_data = data, px_offset = offset, px_size = of_nat (length bs)\<rparr>
     # entries_text data (offset + of_nat (length bs)) objs"

definition blobs_of :: "(hash256 \<times> bytes) list \<Rightarrow> bytes" where
  "blobs_of objs = concat (map snd objs)"

definition pack_of :: "u64 \<Rightarrow> (hash256 \<times> bytes) list \<Rightarrow> pack" where
  "pack_of n objs = \<lparr>pk_number = n, pk_index = ''PVIDX1'' @ newline # index_text (of_nat (length pack_magic)) objs,
     pk_data = pack_magic @ blobs_of objs\<rparr>"

definition named :: "digest \<Rightarrow> hash256 \<times> bytes \<Rightarrow> bool" where
  "named H obj = (H (snd obj) = fst obj)"

lemma pack_steps:
  "list_all (named H) objs \<Longrightarrow> res_fold (pack_step H) (offset, index, data) objs
     = Inr (offset + of_nat (length (blobs_of objs)), index @ index_text offset objs, data @ blobs_of objs)"
  by (induction objs arbitrary: offset index data) (auto simp: pack_step_def named_def blobs_of_def add.assoc)

lemma read_entries_text:
  assumes "list_all (\<lambda>(h, bs). length bs < 2 ^ 64) objs"
  shows "read_index_entries data (Some (newline # index_text offset objs)) = Inr (entries_text data offset objs)"
  using assms
proof (induction objs arbitrary: offset)
  case Nil
  show ?case using read_word_blank [of "[newline]"] by (subst read_index_entries.simps) simp
next
  case (Cons obj objs)
  obtain h bs where obj: "obj = (h, bs)" by (cases obj)
  let ?n = "of_nat (length bs) :: u64"
  have n: "unat ?n = length bs" using Cons.prems by (simp add: obj unat_of_nat)
  let ?rest = "newline # index_text (offset + ?n) objs"
  have w: "read_word (Some (newline # to_hex h @ CHR '' '' # s)) = (to_hex h, Some (CHR '' '' # s))" for s
    using read_word_word [of "[newline]" "to_hex h" "CHR '' '' # s"] to_hex_plain by simp
  have u: "read_u64 0 (Some (CHR '' '' # dec_string (unat offset) @ CHR '' '' # s)) = (offset, Some (CHR '' '' # s))" for s
    using read_u64_number [of "'' ''" "CHR '' '' # s" 0 offset] by (simp add: is_digit_def)
  have v: "read_u64 0 (Some (CHR '' '' # dec_string (length bs) @ ?rest)) = (?n, Some ?rest)"
    using read_u64_number [of "'' ''" ?rest 0 ?n] n by (simp add: is_digit_def newline_def)
  show ?case
    using Cons.IH [of "offset + ?n"] Cons.prems
    by (subst read_index_entries.simps) (simp add: obj index_line_def w u v)
qed

lemma pack_entries_of:
  assumes "list_all (\<lambda>(h, bs). length bs < 2 ^ 64) objs"
  shows "pack_entries (pack_of n objs) = Inr (entries_text (pack_magic @ blobs_of objs) (of_nat (length pack_magic)) objs)"
proof -
  have "read_word (Some (''PVIDX1'' @ newline # s)) = (''PVIDX1'', Some (newline # s))" for s
    by (rule read_word_word [of "[]", simplified]) (simp_all add: plain_word_def, simp_all add: is_space_def)
  then show ?thesis using read_entries_text [OF assms] by (simp add: pack_entries_def pack_of_def)
qed

text \<open>Every entry of a pack cuts its object out of the data.\<close>

lemma entries_cut:
  assumes "length (before @ blobs_of objs @ after) < 2 ^ 64" and "data = before @ blobs_of objs @ after"
  shows "map (\<lambda>e. (px_id e, take (unat (px_size e)) (drop (unat (px_offset e)) (px_data e))))
      (entries_text data (of_nat (length before)) objs) = objs
    \<and> list_all (\<lambda>e. unat (px_offset e) + unat (px_size e) \<le> length (px_data e)) (entries_text data (of_nat (length before)) objs)"
  using assms
proof (induction objs arbitrary: before)
  case (Cons obj objs)
  obtain h bs where obj: "obj = (h, bs)" by (cases obj)
  have small: "unat (of_nat (length before) :: u64) = length before" "unat (of_nat (length bs) :: u64) = length bs"
    using Cons.prems(1) by (simp_all add: obj blobs_of_def unat_of_nat)
  have further: "length ((before @ bs) @ blobs_of objs @ after) < 2 ^ 64" "data = (before @ bs) @ blobs_of objs @ after"
    using Cons.prems by (simp_all add: obj blobs_of_def)
  have step: "of_nat (length before) + of_nat (length bs) = (of_nat (length (before @ bs)) :: u64)" by simp
  have entry: "take (length bs) (drop (length before) data) = bs" "length before + length bs \<le> length data"
    by (simp_all add: further(2))
  show ?case
    using Cons.IH [OF further] small entry unfolding obj entries_text.simps step by simp
qed simp

section \<open>Stores whose objects are named by their hash\<close>

definition packs_hold :: "digest \<Rightarrow> pack list \<Rightarrow> (hash256 \<times> bytes) list \<Rightarrow> bool" where
  "packs_hold H packs objs = (\<exists>parts. objs = concat parts \<and> list_all2 (\<lambda>p part. \<exists>n. p = pack_of n part
     \<and> list_all (named H) part \<and> length (pack_magic @ blobs_of part) < 2 ^ 64) packs parts)"

definition store_holds :: "digest \<Rightarrow> content_store \<Rightarrow> (hash256 \<times> bytes) list \<Rightarrow> bool" where
  "store_holds H s objs = (om_inv (cs_loose s) \<and> list_all (named H) (cs_loose s) \<and> packs_hold H (cs_packs s) objs)"

lemma length_blob: "(h, bs) \<in> set objs \<Longrightarrow> length bs \<le> length (blobs_of objs)"
  unfolding blobs_of_def length_concat by (rule member_le_sum_list) force+

lemma packed_entries:
  assumes "packs_hold H packs objs"
  obtains es where "res_fold (\<lambda>es p. res_bind (pack_entries p) (\<lambda>new. Inr (es @ new))) acc packs = Inr (acc @ es)"
    and "map (\<lambda>e. (px_id e, take (unat (px_size e)) (drop (unat (px_offset e)) (px_data e)))) es = objs"
    and "list_all (\<lambda>e. unat (px_offset e) + unat (px_size e) \<le> length (px_data e)) es" and "list_all (named H) objs"
proof -
  from assms obtain parts where "objs = concat parts" and parts: "list_all2 (\<lambda>p part. \<exists>n. p = pack_of n part
     \<and> list_all (named H) part \<and> length (pack_magic @ blobs_of part) < 2 ^ 64) packs parts"
    by (auto simp: packs_hold_def)
  from parts have "\<exists>es. res_fold (\<lambda>es p. res_bind (pack_entries p) (\<lambda>new. Inr (es @ new))) acc packs = Inr (acc @ es)
      \<and> map (\<lambda>e. (px_id e, take (unat (px_size e)) (drop (unat (px_offset e)) (px_data e)))) es = concat parts
      \<and> list_all (\<lambda>e. unat (px_offset e) + unat (px_size e) \<le> length (px_data e)) es \<and> list_all (named H) (concat parts)"
  proof (induction arbitrary: acc rule: list_all2_induct)
    case Nil
    show ?case by (intro exI [of _ "[]"]) simp
  next
    case (Cons p ps part parts)
    then obtain n where p: "p = pack_of n part" "list_all (named H) part" "length (pack_magic @ blobs_of part) < 2 ^ 64" by blast
    let ?es = "entries_text (pack_magic @ blobs_of part) (of_nat (length pack_magic)) part"
    have "length bs < 2 ^ 64" if "(h, bs) \<in> set part" for h bs using length_blob [OF that] p(3) by simp
    then have "list_all (\<lambda>(h, bs). length bs < 2 ^ 64) part" by (auto simp: list_all_iff)
    from pack_entries_of [OF this] have "pack_entries p = Inr ?es" by (simp add: p(1))
    moreover from Cons.IH [of "acc @ ?es"] obtain es where
        "res_fold (\<lambda>es p. res_bind (pack_entries p) (\<lambda>new. Inr (es @ new))) (acc @ ?es) ps = Inr ((acc @ ?es) @ es)"
        "map (\<lambda>e. (px_id e, take (unat (px_size e)) (drop (unat (px_offset e)) (px_data e)))) es = concat parts"
        "list_all (\<lambda>e. unat (px_offset e) + unat (px_size e) \<le> length (px_data e)) es" "list_all (named H) (concat parts)"
      by blast
    moreover note entries_cut [of pack_magic part "[]" "pack_magic @ blobs_of part", unfolded append_Nil2, OF p(3) refl]
    ultimately show ?case using p(2)
      by (intro exI [of _ "?es @ es"] conjI) (simp_all only: res_fold.simps res_bind_simps append_assoc map_append list_all_append concat.simps simp_thms)
  qed
  then show thesis using that \<open>objs = concat parts\<close> by blast
qed

text \<open>Lookups: an object is found where it is held, with its hash.\<close>

lemma find_map_pair: "List.find (\<lambda>x. fst x = i) (map (\<lambda>e. (f e, g e)) es) = map_option (\<lambda>e. (f e, g e)) (List.find (\<lambda>e. f e = i) es)"
  by (induction es) auto

lemma packed_bytes_holds:
  assumes "packs_hold H (cs_packs s) objs"
  shows "packed_bytes H s i = (case List.find (\<lambda>obj. fst obj = i) objs of None \<Rightarrow> Inl (ObjectNotFound i) | Some obj \<Rightarrow> Inr (snd obj))"
proof -
  obtain es where es: "index_entries s = Inr es"
      "map (\<lambda>e. (px_id e, take (unat (px_size e)) (drop (unat (px_offset e)) (px_data e)))) es = objs"
      "list_all (\<lambda>e. unat (px_offset e) + unat (px_size e) \<le> length (px_data e)) es" "list_all (named H) objs"
    using packed_entries [OF assms, of "[]"] by (auto simp: index_entries_def)
  show ?thesis
  proof (cases "List.find (\<lambda>e. px_id e = i) es")
    case None
    then show ?thesis using es(1) by (simp add: packed_bytes_def find_packed_def es(2) [symmetric] find_map_pair)
  next
    case (Some e)
    then have e: "e \<in> set es" "px_id e = i" by (auto simp: find_Some_iff)
    let ?b = "take (unat (px_size e)) (drop (unat (px_offset e)) (px_data e))"
    have "(i, ?b) \<in> set objs" using e es(2) by force
    then have "H ?b = i" using es(4) by (auto simp: list_all_iff named_def)
    moreover have "length ?b = unat (px_size e)" using es(3) e(1) by (auto simp: list_all_iff)
    ultimately show ?thesis using es(1) Some
      by (simp add: packed_bytes_def find_packed_def es(2) [symmetric] find_map_pair e(2))
  qed
qed

lemma get_bytes_holds:
  assumes "store_holds H s objs"
  shows "get_bytes H s i = (case om_find (cs_loose s) i of Some bs \<Rightarrow> Inr bs
    | None \<Rightarrow> (case List.find (\<lambda>obj. fst obj = i) objs of None \<Rightarrow> Inl (ObjectNotFound i) | Some obj \<Rightarrow> Inr (snd obj)))"
proof -
  have "H bs = i" if "om_find (cs_loose s) i = Some bs" for bs
    using assms om_find_SomeD [OF that] by (auto simp: store_holds_def list_all_iff named_def)
  then show ?thesis using assms packed_bytes_holds [of H s objs i]
    by (auto simp: get_bytes_def store_holds_def split: option.split)
qed

section \<open>Storing and compacting\<close>

text \<open>
  The stores a program builds from byte strings of a set on which the digest does not collide.  A pack must
  stay below \<open>2 ^ 64\<close> bytes.
\<close>

definition pack_room :: "content_store \<Rightarrow> bool" where
  "pack_room s = (length (pack_magic @ blobs_of (cs_loose s)) < 2 ^ 64)"

inductive reachable_content :: "digest \<Rightarrow> bytes set \<Rightarrow> content_store \<Rightarrow> bool" for H U where
  empty: "reachable_content H U empty_store"
| put: "reachable_content H U s \<Longrightarrow> b \<in> U \<Longrightarrow> put_bytes H b s = Inr (i, s') \<Longrightarrow> reachable_content H U s'"
| compact: "reachable_content H U s \<Longrightarrow> pack_room s \<Longrightarrow> compact_loose H s = Inr (r, s') \<Longrightarrow> reachable_content H U s'"

definition content_ok :: "digest \<Rightarrow> bytes set \<Rightarrow> content_store \<Rightarrow> bool" where
  "content_ok H U s = (inj_on H U \<and> (\<exists>objs. store_holds H s objs \<and> snd ` set objs \<subseteq> U \<and> snd ` set (cs_loose s) \<subseteq> U))"

lemma empty_content_ok: "inj_on H U \<Longrightarrow> content_ok H U empty_store"
  unfolding content_ok_def by (auto intro!: exI [of _ "[]"] simp: store_holds_def packs_hold_def empty_store_def)

lemma content_ok_get:
  assumes "content_ok H U s" and "get_bytes H s i = Inr b"
  shows "b \<in> U" and "H b = i"
proof -
  obtain objs where o: "store_holds H s objs" "snd ` set objs \<subseteq> U" "snd ` set (cs_loose s) \<subseteq> U"
    using assms(1) by (auto simp: content_ok_def)
  have named: "list_all (named H) objs" using o(1) packed_entries by (metis store_holds_def)
  have "(i, b) \<in> set (cs_loose s) \<or> (i, b) \<in> set objs"
    using assms(2) unfolding get_bytes_holds [OF o(1)]
    by (auto simp: find_Some_iff dest!: om_find_SomeD split: option.splits)
  then show "b \<in> U" "H b = i" using o named by (force simp: store_holds_def list_all_iff named_def)+
qed

lemma om_put_mem: "x \<in> set (om_put k v m) \<Longrightarrow> x = (k, v) \<or> x \<in> set m"
  by (induction k v m rule: om_put.induct) (auto split: if_splits)

lemma put_bytes_ok:
  assumes ok: "content_ok H U s" and b: "b \<in> U"
  shows "\<exists>s'. put_bytes H b s = Inr (H b, s') \<and> content_ok H U s' \<and> get_bytes H s' (H b) = Inr b
    \<and> (\<forall>i. i \<noteq> H b \<longrightarrow> get_bytes H s' i = get_bytes H s i)"
proof -
  obtain objs where o: "store_holds H s objs" "snd ` set objs \<subseteq> U" "snd ` set (cs_loose s) \<subseteq> U" and inj: "inj_on H U"
    using ok by (auto simp: content_ok_def)
  show ?thesis
  proof (cases "om_find (cs_loose s) (H b)")
    case None
    let ?s = "s\<lparr>cs_loose := om_put (H b) b (cs_loose s)\<rparr>"
    have holds: "store_holds H ?s objs"
      using o(1) by (auto simp: store_holds_def list_all_iff named_def om_inv_put dest!: om_put_mem)
    moreover have "snd ` set (cs_loose ?s) \<subseteq> U" using o(3) b by (auto dest!: om_put_mem)
    ultimately have "content_ok H U ?s" using inj o(2) by (auto simp: content_ok_def)
    moreover have "put_bytes H b s = Inr (H b, ?s)" using None by (simp add: put_bytes_def om_contains_def Let_def)
    ultimately show ?thesis
      by (auto simp: get_bytes_holds [OF holds] get_bytes_holds [OF o(1)] om_find_put)
  next
    case (Some c)
    then have get: "get_bytes H s (H b) = Inr c" by (simp add: get_bytes_holds [OF o(1)])
    then have "c = b" using content_ok_get [OF ok get] b inj by (auto simp: inj_on_def)
    moreover have "put_bytes H b s = Inr (H b, s)" using Some get by (simp add: put_bytes_def om_contains_def Let_def)
    ultimately show ?thesis using ok get by auto
  qed
qed

lemma find_append_pairs:
  "om_find (xs @ ys) i = (case om_find xs i of None \<Rightarrow> om_find ys i | Some x \<Rightarrow> Some x)"
  by (induction xs i rule: om_find.induct) auto

lemma find_pair_om: "List.find (\<lambda>obj. fst obj = i) m = map_option (\<lambda>v. (i, v)) (om_find m i)"
  by (induction m) auto

lemma compact_ok:
  assumes ok: "content_ok H U s" and room: "pack_room s"
  shows "\<exists>r s'. compact_loose H s = Inr (r, s') \<and> content_ok H U s' \<and> cs_loose s' = []
    \<and> (\<forall>i. get_bytes H s' i = get_bytes H s i)"
proof -
  obtain objs where o: "store_holds H s objs" "snd ` set objs \<subseteq> U" "snd ` set (cs_loose s) \<subseteq> U" and inj: "inj_on H U"
    using ok by (auto simp: content_ok_def)
  show ?thesis
  proof (cases "cs_loose s = []")
    case True
    then show ?thesis using ok by (simp add: compact_loose_def)
  next
    case False
    let ?p = "pack_of (next_pack_number s) (cs_loose s)"
    let ?s = "\<lparr>cs_loose = [], cs_packs = cs_packs s @ [?p]\<rparr>"
    have named: "list_all (named H) (cs_loose s)" using o(1) by (simp add: store_holds_def)
    have res: "\<exists>r. compact_loose H s = Inr (r, ?s)"
      using False by (simp add: compact_loose_def pack_steps [OF named] pack_of_def)
    obtain parts where parts: "objs = concat parts" "list_all2 (\<lambda>p part. \<exists>n. p = pack_of n part
       \<and> list_all (named H) part \<and> length (pack_magic @ blobs_of part) < 2 ^ 64) (cs_packs s) parts"
      using o(1) by (auto simp: store_holds_def packs_hold_def)
    have "packs_hold H (cs_packs ?s) (objs @ cs_loose s)"
      unfolding packs_hold_def using parts named room
      by (intro exI [of _ "parts @ [cs_loose s]"]) (auto simp: pack_room_def intro!: list_all2_appendI)
    then have holds: "store_holds H ?s (objs @ cs_loose s)" by (simp add: store_holds_def)
    moreover have "snd ` set (objs @ cs_loose s) \<subseteq> U" "snd ` set (cs_loose ?s) \<subseteq> U" using o(2,3) by auto
    ultimately have "content_ok H U ?s" using inj unfolding content_ok_def by blast
    moreover have "get_bytes H ?s i = get_bytes H s i" for i
    proof (cases "om_find (cs_loose s) i")
      case None
      then show ?thesis
        by (simp add: get_bytes_holds [OF holds] get_bytes_holds [OF o(1)] find_append_pairs find_pair_om split: option.split)
    next
      case (Some c)
      then have c: "get_bytes H s i = Inr c" by (simp add: get_bytes_holds [OF o(1)])
      have "\<exists>d. get_bytes H ?s i = Inr d"
        using Some by (auto simp: get_bytes_holds [OF holds] find_append_pairs find_pair_om split: option.split)
      then obtain d where d: "get_bytes H ?s i = Inr d" by blast
      have "d = c"
        using content_ok_get [OF ok c] content_ok_get [OF \<open>content_ok H U ?s\<close> d] inj by (auto simp: inj_on_def)
      then show ?thesis using c d by simp
    qed
    ultimately show ?thesis using res by auto
  qed
qed

lemma reachable_content_ok: "reachable_content H U s \<Longrightarrow> inj_on H U \<Longrightarrow> content_ok H U s"
proof (induction rule: reachable_content.induct)
  case empty
  then show ?case by (rule empty_content_ok)
next
  case (put s b i s')
  then show ?case using put_bytes_ok [of H U s b] by auto
next
  case (compact s r s')
  then show ?case using compact_ok [of H U s] by auto
qed

end
