(* ===== verification/Chunked_Store.thy ===== *)
theory Chunked_Store
  imports Content_Store Codec_Pages
begin

text \<open>
  Snapshots in the content store (\<open>src/storage/chunked_snapshot_store.cpp\<close>): putting the pages, tables and the
  root of a plan, and reading a snapshot back from its root object.
\<close>

datatype chunk_error =
    ChunkContent content_error
  | ChunkPlan plan_error
  | ChunkHashMismatch
  | ChunkRootMismatch

definition put_checked :: "digest \<Rightarrow> ('a \<Rightarrow> bytes) \<Rightarrow> 'a \<Rightarrow> hash256 \<Rightarrow> content_store \<Rightarrow> chunk_error + content_store" where
  "put_checked H enc x expected s =
     (case put_canonical H enc x s of
        Inl e \<Rightarrow> Inl (ChunkContent e)
      | Inr (actual, s') \<Rightarrow> if actual \<noteq> expected then Inl ChunkHashMismatch else Inr s')"

definition put_pages :: "digest \<Rightarrow> ('a \<Rightarrow> bytes) \<Rightarrow> 'a list \<Rightarrow> hash256 list \<Rightarrow> content_store \<Rightarrow> chunk_error + content_store" where
  "put_pages H enc pages hashes s = res_fold (\<lambda>s (page, h). put_checked H enc page h s) s (zip pages hashes)"

definition put_snapshot :: "digest \<Rightarrow> nat \<Rightarrow> world_snapshot \<Rightarrow> content_store \<Rightarrow> chunk_error + hash256 \<times> content_store" where
  "put_snapshot H page_size snapshot s =
     (case build_chunked_snapshot_plan H snapshot page_size of
        Inl e \<Rightarrow> Inl (ChunkPlan e)
      | Inr p \<Rightarrow>
          res_bind (put_pages H encode_object_page (plan_object_pages p) (plan_object_page_hashes p) s) (\<lambda>s.
          res_bind (put_pages H encode_pointer_page (plan_pointer_pages p) (plan_pointer_page_hashes p) s) (\<lambda>s.
          res_bind (put_pages H encode_fact_page (plan_fact_pages p) (plan_fact_page_hashes p) s) (\<lambda>s.
          res_bind (put_checked H encode_page_index (plan_object_page_index p) (plan_object_page_index_hash p) s) (\<lambda>s.
          res_bind (put_checked H encode_page_index (plan_pointer_page_index p) (plan_pointer_page_index_hash p) s) (\<lambda>s.
          res_bind (put_checked H encode_page_index (plan_fact_page_index p) (plan_fact_page_index_hash p) s) (\<lambda>s.
          res_bind (put_checked H encode_symbol_table_object (plan_type_table p) (plan_type_table_hash p) s) (\<lambda>s.
          res_bind (put_checked H encode_symbol_table_object (plan_relation_table p) (plan_relation_table_hash p) s) (\<lambda>s.
          res_bind (put_checked H encode_snapshot_root (plan_root p) (plan_root_object p) s) (\<lambda>s.
            Inr (plan_root_object p, s)))))))))))"

definition chunk_get :: "digest \<Rightarrow> 'a decoder \<Rightarrow> content_store \<Rightarrow> hash256 \<Rightarrow> chunk_error + 'a" where
  "chunk_get H d s i = (case get_canonical H d s i of Inl e \<Rightarrow> Inl (ChunkContent e) | Inr x \<Rightarrow> Inr x)"

definition append_pages :: "digest \<Rightarrow> 'a list decoder \<Rightarrow> content_store \<Rightarrow> hash256 list \<Rightarrow> chunk_error + 'a list" where
  "append_pages H d s hashes = res_fold (\<lambda>out h. res_bind (chunk_get H d s h) (\<lambda>page. Inr (out @ page))) [] hashes"

definition get_snapshot :: "digest \<Rightarrow> nat \<Rightarrow> content_store \<Rightarrow> hash256 \<Rightarrow> chunk_error + world_snapshot" where
  "get_snapshot H page_size s root_object =
     res_bind (chunk_get H decode_snapshot_root s root_object) (\<lambda>root.
     res_bind (chunk_get H decode_page_index s (sr_object_pages_root root)) (\<lambda>object_index.
     res_bind (chunk_get H decode_page_index s (sr_pointer_pages_root root)) (\<lambda>pointer_index.
     res_bind (chunk_get H decode_page_index s (sr_fact_pages_root root)) (\<lambda>fact_index.
     res_bind (chunk_get H decode_symbol_table_object s (sr_type_table_root root)) (\<lambda>type_table.
     res_bind (chunk_get H decode_symbol_table_object s (sr_relation_table_root root)) (\<lambda>relation_table.
     res_bind (append_pages H decode_object_page s object_index) (\<lambda>objects.
     res_bind (append_pages H decode_pointer_page s pointer_index) (\<lambda>pointers.
     res_bind (append_pages H decode_fact_page s fact_index) (\<lambda>facts.
       let snapshot = \<lparr>sn_world = sr_world root, sn_world_name = sr_world_name root, sn_epoch = sr_epoch root,
             sn_objects = objects, sn_pointers = pointers, sn_facts = facts, sn_type_names = type_table,
             sn_relation_names = relation_table\<rparr>
       in case build_chunked_snapshot_plan H snapshot page_size of
            Inl e \<Rightarrow> Inl (ChunkPlan e)
          | Inr rebuilt \<Rightarrow> if plan_root_object rebuilt \<noteq> root_object then Inl ChunkRootMismatch else Inr snapshot)))))))))"

section \<open>Reading what is stored\<close>

definition held :: "digest \<Rightarrow> content_store \<Rightarrow> bytes \<Rightarrow> bool" where
  "held H s b = (get_bytes H s (H b) = Inr b)"

context codec
begin

lemma get_held: "wf x \<Longrightarrow> held H s (enc x) \<Longrightarrow> get_canonical H dec s (H (enc x)) = Inr (norm x)"
  by (simp add: held_def get_canonical_def decode_canonical_def roundtrip_end reader_eof_def)

lemma chunk_get_held: "wf x \<Longrightarrow> held H s (enc x) \<Longrightarrow> chunk_get H dec s (H (enc x)) = Inr (norm x)"
  by (simp add: chunk_get_def get_held)

end

lemma append_pages_held:
  assumes "\<And>p. p \<in> set pages \<Longrightarrow> chunk_get H d s (H (enc p)) = Inr (f p)"
  shows "append_pages H d s (map (\<lambda>p. H (enc p)) pages) = Inr (concat (map f pages))"
proof -
  have "res_fold (\<lambda>out h. res_bind (chunk_get H d s h) (\<lambda>page. Inr (out @ page))) out (map (\<lambda>p. H (enc p)) pages)
      = Inr (out @ concat (map f pages))" for out
    using assms by (induction pages arbitrary: out) simp_all
  then show ?thesis by (simp add: append_pages_def)
qed

section \<open>The snapshot that comes back\<close>

text \<open>Every page comes back sorted and in canonical form.\<close>

definition paged_snapshot :: "nat \<Rightarrow> world_snapshot \<Rightarrow> world_snapshot" where
  "paged_snapshot n s = s\<lparr>
     sn_objects := concat (map (\<lambda>p. map norm_object (sort_objects p)) (build_pages n (sn_objects s))),
     sn_pointers := concat (map (\<lambda>p. map norm_pointer (sort_pointers p)) (build_pages n (sn_pointers s))),
     sn_facts := concat (map (\<lambda>p. map norm_fact (sort_facts p)) (build_pages n (sn_facts s)))\<rparr>"

lemma build_pages_map:
  assumes "\<And>p. length (f p) = length p"
  shows "build_pages n (concat (map f (build_pages n xs))) = map f (build_pages n xs)"
proof (induction n xs rule: build_pages.induct)
  case (1 n xs)
  show ?case
  proof (cases "xs = [] \<or> n = 0")
    case True
    then show ?thesis by (auto simp: build_pages.simps)
  next
    case False
    let ?rest = "concat (map f (build_pages n (drop n xs)))"
    have pages: "build_pages n xs = take n xs # build_pages n (drop n xs)"
      using False by (simp add: build_pages.simps [of n xs])
    have cut: "take n (f (take n xs) @ ?rest) = f (take n xs) \<and> drop n (f (take n xs) @ ?rest) = ?rest"
    proof (cases "n \<le> length xs")
      case True
      then show ?thesis using assms [of "take n xs"] by simp
    next
      case less: False
      then have "build_pages n (drop n xs) = []" by (simp add: build_pages.simps)
      then show ?thesis using assms [of "take n xs"] less by simp
    qed
    have "f (take n xs) \<noteq> []" using assms [of "take n xs"] False by (metis length_0_conv take_eq_Nil)
    then have "build_pages n (f (take n xs) @ ?rest) = f (take n xs) # build_pages n ?rest"
      using False cut by (subst build_pages.simps) simp
    then show ?thesis using "1.IH" False by (simp add: pages)
  qed
qed

lemma length_sorts [simp]:
  "length (sort_objects xs) = length xs" "length (sort_pointers ys) = length ys" "length (sort_facts zs) = length zs"
  by (simp_all add: sort_objects_def sort_pointers_def sort_facts_def)

lemma plan_total: "n \<noteq> 0 \<Longrightarrow> \<exists>p. build_chunked_snapshot_plan H s n = Inr p"
  by (simp add: build_chunked_snapshot_plan_def Let_def)

lemma plan_of_paged:
  assumes plan: "build_chunked_snapshot_plan H s n = Inr p"
  obtains q where "build_chunked_snapshot_plan H (paged_snapshot n s) n = Inr q" and "plan_root_object q = plan_root_object p"
proof -
  note P = plan_fields [OF plan]
  obtain q where q: "build_chunked_snapshot_plan H (paged_snapshot n s) n = Inr q" using plan_total P(1) by blast
  note Q = plan_fields [OF q]
  have "plan_object_page_index q = plan_object_page_index p" "plan_pointer_page_index q = plan_pointer_page_index p"
      "plan_fact_page_index q = plan_fact_page_index p"
    unfolding P(2-7) Q(2-7) by (simp_all add: paged_snapshot_def build_pages_map objectpagec.enc_norm
      pointerpagec.enc_norm factpagec.enc_norm comp_def)
  moreover have "plan_type_table q = plan_type_table p" "plan_relation_table q = plan_relation_table p"
    unfolding P(8,9) Q(8,9) by (simp_all add: paged_snapshot_def)
  ultimately have "plan_root q = plan_root p" unfolding P(10) Q(10) by (simp add: paged_snapshot_def)
  then show thesis using that [OF q] by (simp add: P(11) Q(11))
qed

lemma plan_hashes:
  assumes "build_chunked_snapshot_plan H s n = Inr p"
  shows "plan_object_page_hashes p = map (\<lambda>p. H (encode_object_page p)) (plan_object_pages p)"
    and "plan_pointer_page_hashes p = map (\<lambda>p. H (encode_pointer_page p)) (plan_pointer_pages p)"
    and "plan_fact_page_hashes p = map (\<lambda>p. H (encode_fact_page p)) (plan_fact_pages p)"
    and "plan_object_page_index_hash p = H (encode_page_index (plan_object_page_index p))"
    and "plan_pointer_page_index_hash p = H (encode_page_index (plan_pointer_page_index p))"
    and "plan_fact_page_index_hash p = H (encode_page_index (plan_fact_page_index p))"
    and "plan_type_table_hash p = H (encode_symbol_table_object (plan_type_table p))"
    and "plan_relation_table_hash p = H (encode_symbol_table_object (plan_relation_table p))"
  using assms by (auto simp: build_chunked_snapshot_plan_def Let_def split: if_splits)

section \<open>Storing a snapshot\<close>

definition stores :: "digest \<Rightarrow> bytes set \<Rightarrow> content_store \<Rightarrow> bytes set \<Rightarrow> content_store \<Rightarrow> bool" where
  "stores H U s B s' = (content_ok H U s' \<and> (\<forall>b. held H s b \<longrightarrow> held H s' b) \<and> (\<forall>b \<in> B. held H s' b))"

lemma stores_trans: "stores H U s B s' \<Longrightarrow> stores H U s' C s'' \<Longrightarrow> stores H U s (B \<union> C) s''"
  by (auto simp: stores_def)

lemma put_checked_ok:
  assumes "content_ok H U s" and "enc x \<in> U"
  shows "\<exists>s'. put_checked H enc x (H (enc x)) s = Inr s' \<and> stores H U s {enc x} s'"
proof -
  obtain s' where s': "put_bytes H (enc x) s = Inr (H (enc x), s')" "content_ok H U s'" "get_bytes H s' (H (enc x)) = Inr (enc x)"
      "\<forall>i. i \<noteq> H (enc x) \<longrightarrow> get_bytes H s' i = get_bytes H s i"
    using put_bytes_ok [OF assms] by blast
  have "held H s' b" if "held H s b" for b
  proof (cases "H b = H (enc x)")
    case True
    have "b \<in> U" using content_ok_get [OF assms(1)] that by (auto simp: held_def)
    then have "b = enc x" using True assms by (auto simp: content_ok_def inj_on_def)
    then show ?thesis using s'(3) by (simp add: held_def)
  qed (use that s'(4) in \<open>simp add: held_def\<close>)
  then show ?thesis using s' by (simp add: put_checked_def put_canonical_def stores_def held_def)
qed

lemma put_pages_ok:
  assumes "content_ok H U s" and "enc ` set pages \<subseteq> U"
  shows "\<exists>s'. put_pages H enc pages (map (\<lambda>p. H (enc p)) pages) s = Inr s' \<and> stores H U s (enc ` set pages) s'"
  using assms
proof (induction pages arbitrary: s)
  case Nil
  then show ?case by (simp add: put_pages_def stores_def)
next
  case (Cons p ps)
  obtain t where t: "put_checked H enc p (H (enc p)) s = Inr t" "stores H U s {enc p} t"
    using put_checked_ok [of H U s enc p] Cons.prems by auto
  obtain u where u: "put_pages H enc ps (map (\<lambda>p. H (enc p)) ps) t = Inr u" "stores H U t (enc ` set ps) u"
    using Cons.IH [of t] Cons.prems t(2) by (auto simp: stores_def)
  show ?case using stores_trans [OF t(2) u(2)] t(1) u(1) by (simp add: put_pages_def)
qed

lemma put_snapshot_ok:
  assumes plan: "build_chunked_snapshot_plan H snapshot n = Inr p" and ok: "content_ok H U s" and U: "plan_streams p \<subseteq> U"
  shows "\<exists>s'. put_snapshot H n snapshot s = Inr (plan_root_object p, s') \<and> stores H U s (plan_streams p) s'"
proof -
  have in_U: "encode_object_page ` set (plan_object_pages p) \<subseteq> U" "encode_pointer_page ` set (plan_pointer_pages p) \<subseteq> U"
      "encode_fact_page ` set (plan_fact_pages p) \<subseteq> U" "encode_page_index (plan_object_page_index p) \<in> U"
      "encode_page_index (plan_pointer_page_index p) \<in> U" "encode_page_index (plan_fact_page_index p) \<in> U"
      "encode_symbol_table_object (plan_type_table p) \<in> U" "encode_symbol_table_object (plan_relation_table p) \<in> U"
      "encode_snapshot_root (plan_root p) \<in> U"
    using U by (auto simp: plan_streams_def)
  have content: "stores H U a B b \<Longrightarrow> content_ok H U b" for a B b by (simp add: stores_def)
  note hashes = plan_hashes [OF plan] plan_fields(11) [OF plan]
  obtain s1 where s1: "put_pages H encode_object_page (plan_object_pages p) (plan_object_page_hashes p) s = Inr s1"
      "stores H U s (encode_object_page ` set (plan_object_pages p)) s1"
    using put_pages_ok [OF ok in_U(1)] by (auto simp: hashes)
  obtain s2 where s2: "put_pages H encode_pointer_page (plan_pointer_pages p) (plan_pointer_page_hashes p) s1 = Inr s2"
      "stores H U s1 (encode_pointer_page ` set (plan_pointer_pages p)) s2"
    using put_pages_ok [OF content [OF s1(2)] in_U(2)] by (auto simp: hashes)
  obtain s3 where s3: "put_pages H encode_fact_page (plan_fact_pages p) (plan_fact_page_hashes p) s2 = Inr s3"
      "stores H U s2 (encode_fact_page ` set (plan_fact_pages p)) s3"
    using put_pages_ok [OF content [OF s2(2)] in_U(3)] by (auto simp: hashes)
  obtain s4 where s4: "put_checked H encode_page_index (plan_object_page_index p) (plan_object_page_index_hash p) s3 = Inr s4"
      "stores H U s3 {encode_page_index (plan_object_page_index p)} s4"
    using put_checked_ok [of H U s3 encode_page_index "plan_object_page_index p", OF content [OF s3(2)] in_U(4)] by (auto simp: hashes)
  obtain s5 where s5: "put_checked H encode_page_index (plan_pointer_page_index p) (plan_pointer_page_index_hash p) s4 = Inr s5"
      "stores H U s4 {encode_page_index (plan_pointer_page_index p)} s5"
    using put_checked_ok [of H U s4 encode_page_index "plan_pointer_page_index p", OF content [OF s4(2)] in_U(5)] by (auto simp: hashes)
  obtain s6 where s6: "put_checked H encode_page_index (plan_fact_page_index p) (plan_fact_page_index_hash p) s5 = Inr s6"
      "stores H U s5 {encode_page_index (plan_fact_page_index p)} s6"
    using put_checked_ok [of H U s5 encode_page_index "plan_fact_page_index p", OF content [OF s5(2)] in_U(6)] by (auto simp: hashes)
  obtain s7 where s7: "put_checked H encode_symbol_table_object (plan_type_table p) (plan_type_table_hash p) s6 = Inr s7"
      "stores H U s6 {encode_symbol_table_object (plan_type_table p)} s7"
    using put_checked_ok [of H U s6 encode_symbol_table_object "plan_type_table p", OF content [OF s6(2)] in_U(7)] by (auto simp: hashes)
  obtain s8 where s8: "put_checked H encode_symbol_table_object (plan_relation_table p) (plan_relation_table_hash p) s7 = Inr s8"
      "stores H U s7 {encode_symbol_table_object (plan_relation_table p)} s8"
    using put_checked_ok [of H U s7 encode_symbol_table_object "plan_relation_table p", OF content [OF s7(2)] in_U(8)] by (auto simp: hashes)
  obtain s9 where s9: "put_checked H encode_snapshot_root (plan_root p) (plan_root_object p) s8 = Inr s9"
      "stores H U s8 {encode_snapshot_root (plan_root p)} s9"
    using put_checked_ok [of H U s8 encode_snapshot_root "plan_root p", OF content [OF s8(2)] in_U(9)] by (auto simp: hashes)
  have "put_snapshot H n snapshot s = Inr (plan_root_object p, s9)"
    by (simp add: put_snapshot_def plan s1(1) s2(1) s3(1) s4(1) s5(1) s6(1) s7(1) s8(1) s9(1))
  moreover have "stores H U s (plan_streams p) s9"
    using stores_trans [OF stores_trans [OF stores_trans [OF stores_trans [OF stores_trans [OF stores_trans [OF stores_trans
      [OF stores_trans [OF s1(2) s2(2)] s3(2)] s4(2)] s5(2)] s6(2)] s7(2)] s8(2)] s9(2)]
    by (auto simp: stores_def plan_streams_def)
  ultimately show ?thesis by blast
qed

lemma get_snapshot_held:
  assumes plan: "build_chunked_snapshot_plan H snapshot n = Inr p" and ok: "plan_ok snapshot"
    and held: "\<forall>b \<in> plan_streams p. held H s b"
  shows "get_snapshot H n s (plan_root_object p) = Inr (paged_snapshot n snapshot)"
proof -
  note P = plan_fields [OF plan] and Q = plan_hashes [OF plan]
  have streams: "held H s (encode_snapshot_root (plan_root p))" "held H s (encode_page_index (plan_object_page_index p))"
      "held H s (encode_page_index (plan_pointer_page_index p))" "held H s (encode_page_index (plan_fact_page_index p))"
      "held H s (encode_symbol_table_object (plan_type_table p))" "held H s (encode_symbol_table_object (plan_relation_table p))"
      "\<And>x. x \<in> set (plan_object_pages p) \<Longrightarrow> held H s (encode_object_page x)"
      "\<And>x. x \<in> set (plan_pointer_pages p) \<Longrightarrow> held H s (encode_pointer_page x)"
      "\<And>x. x \<in> set (plan_fact_pages p) \<Longrightarrow> held H s (encode_fact_page x)"
    using held by (auto simp: plan_streams_def)
  have sizes: "size_ok (plan_object_page_index p)" "size_ok (plan_pointer_page_index p)" "size_ok (plan_fact_page_index p)"
    using ok size_ok_pages unfolding P(2-7) by (auto simp: plan_ok_def size_ok_def)
  have root: "chunk_get H decode_snapshot_root s (plan_root_object p) = Inr (plan_root p)"
    unfolding P(11) by (rule rootc.chunk_get_held [OF _ streams(1)]) (use ok in \<open>simp add: P(10) plan_ok_def\<close>)
  have index: "chunk_get H decode_page_index s (H (encode_page_index (plan_object_page_index p))) = Inr (plan_object_page_index p)"
      "chunk_get H decode_page_index s (H (encode_page_index (plan_pointer_page_index p))) = Inr (plan_pointer_page_index p)"
      "chunk_get H decode_page_index s (H (encode_page_index (plan_fact_page_index p))) = Inr (plan_fact_page_index p)"
    by (rule pageindexc.chunk_get_held; fact streams sizes)+
  have table: "chunk_get H decode_symbol_table_object s (H (encode_symbol_table_object (plan_type_table p))) = Inr (plan_type_table p)"
      "chunk_get H decode_symbol_table_object s (H (encode_symbol_table_object (plan_relation_table p))) = Inr (plan_relation_table p)"
    using tablec.chunk_get_held streams(5,6) ok by (auto simp: P(8,9) plan_ok_def)
  have objects: "append_pages H decode_object_page s (plan_object_page_index p) = Inr (sn_objects (paged_snapshot n snapshot))"
  proof -
    have "size_ok x \<and> list_all object_ok x" if "x \<in> set (plan_object_pages p)" for x
      using ok pages_elements [of "sn_objects snapshot" object_ok x n] that by (simp add: plan_ok_def P(2))
    then have "append_pages H decode_object_page s (map (\<lambda>p. H (encode_object_page p)) (plan_object_pages p))
        = Inr (concat (map (\<lambda>p. map norm_object (sort_objects p)) (plan_object_pages p)))"
      by (intro append_pages_held objectpagec.chunk_get_held streams)
    then show ?thesis by (simp add: P(2) P(5) paged_snapshot_def)
  qed
  have pointers: "append_pages H decode_pointer_page s (plan_pointer_page_index p) = Inr (sn_pointers (paged_snapshot n snapshot))"
  proof -
    have "size_ok x \<and> list_all pointer_ok x" if "x \<in> set (plan_pointer_pages p)" for x
      using ok pages_elements [of "sn_pointers snapshot" pointer_ok x n] that by (simp add: plan_ok_def P(3))
    then have "append_pages H decode_pointer_page s (map (\<lambda>p. H (encode_pointer_page p)) (plan_pointer_pages p))
        = Inr (concat (map (\<lambda>p. map norm_pointer (sort_pointers p)) (plan_pointer_pages p)))"
      by (intro append_pages_held pointerpagec.chunk_get_held streams)
    then show ?thesis by (simp add: P(3) P(6) paged_snapshot_def)
  qed
  have facts: "append_pages H decode_fact_page s (plan_fact_page_index p) = Inr (sn_facts (paged_snapshot n snapshot))"
  proof -
    have "size_ok x \<and> list_all fact_ok x" if "x \<in> set (plan_fact_pages p)" for x
      using ok pages_elements [of "sn_facts snapshot" fact_ok x n] that by (simp add: plan_ok_def P(4))
    then have "append_pages H decode_fact_page s (map (\<lambda>p. H (encode_fact_page p)) (plan_fact_pages p))
        = Inr (concat (map (\<lambda>p. map norm_fact (sort_facts p)) (plan_fact_pages p)))"
      by (intro append_pages_held factpagec.chunk_get_held streams)
    then show ?thesis by (simp add: P(4) P(7) paged_snapshot_def)
  qed
  obtain q where q: "build_chunked_snapshot_plan H (paged_snapshot n snapshot) n = Inr q" "plan_root_object q = plan_root_object p"
    by (rule plan_of_paged [OF plan])
  have whole: "\<lparr>sn_world = sn_world snapshot, sn_world_name = sn_world_name snapshot, sn_epoch = sn_epoch snapshot,
      sn_objects = sn_objects (paged_snapshot n snapshot), sn_pointers = sn_pointers (paged_snapshot n snapshot),
      sn_facts = sn_facts (paged_snapshot n snapshot), sn_type_names = plan_type_table p,
      sn_relation_names = plan_relation_table p\<rparr> = paged_snapshot n snapshot"
    by (simp add: paged_snapshot_def P(8,9))
  show ?thesis
    unfolding get_snapshot_def root res_bind_simps
    by (simp add: P(10) index table objects pointers facts whole Let_def q)
qed

text \<open>The snapshots of worlds list their objects, pointers and facts in order; they come back as they were.\<close>

definition listed_in_order :: "world_snapshot \<Rightarrow> bool" where
  "listed_in_order s =
     (sorted_wrt (\<lambda>a b. \<not> os_id b < os_id a) (sn_objects s) \<and> sorted_wrt (\<lambda>a b. \<not> ps_id b < ps_id a) (sn_pointers s)
      \<and> sorted_wrt (\<lambda>a b. \<not> fact_lt b a) (sn_facts s))"

lemma sorted_pages: "sorted_wrt R xs \<Longrightarrow> p \<in> set (build_pages n xs) \<Longrightarrow> sorted_wrt R p"
proof (induction n xs rule: build_pages.induct)
  case (1 n xs)
  show ?case
  proof (cases "xs = [] \<or> n = 0")
    case False
    then have "p = take n xs \<or> p \<in> set (build_pages n (drop n xs))"
      using "1.prems"(2) by (subst (asm) build_pages.simps) simp
    then show ?thesis using 1 False by (auto simp: sorted_wrt_take sorted_wrt_drop)
  qed (use "1.prems" in \<open>auto simp: build_pages.simps [of n xs]\<close>)
qed

lemma pages_in_order:
  assumes "0 < n" and "\<And>p. p \<in> set (build_pages n xs) \<Longrightarrow> srt p = p"
  shows "concat (map (\<lambda>p. map f (srt p)) (build_pages n xs)) = map f xs"
proof -
  have "map (\<lambda>p. map f (srt p)) (build_pages n xs) = map (map f) (build_pages n xs)" using assms(2) by simp
  then show ?thesis using concat_build_pages [OF assms(1), of xs] by (metis map_concat)
qed

lemma paged_snapshot_ordered:
  assumes "listed_in_order s" and n: "0 < n"
  shows "paged_snapshot n s = s\<lparr>sn_objects := map norm_object (sn_objects s), sn_pointers := map norm_pointer (sn_pointers s),
    sn_facts := map norm_fact (sn_facts s)\<rparr>"
proof -
  have "sort_objects p = p" if "p \<in> set (build_pages n (sn_objects s))" for p
    unfolding sort_objects_def by (rule sort_by_id) (use assms(1) sorted_pages [OF _ that] in \<open>simp add: listed_in_order_def\<close>)
  moreover have "sort_pointers p = p" if "p \<in> set (build_pages n (sn_pointers s))" for p
    unfolding sort_pointers_def by (rule sort_by_id) (use assms(1) sorted_pages [OF _ that] in \<open>simp add: listed_in_order_def\<close>)
  moreover have "sort_facts p = p" if "p \<in> set (build_pages n (sn_facts s))" for p
    unfolding sort_facts_def by (rule sort_by_id) (use assms(1) sorted_pages [OF _ that] in \<open>simp add: listed_in_order_def\<close>)
  ultimately show ?thesis by (simp add: paged_snapshot_def pages_in_order [OF n])
qed

end
