(* ===== verification/Index_Store.thy ===== *)
theory Index_Store
  imports Codec_Commit
begin

text \<open>
  Index files (\<open>src/storage/index_store.cpp\<close>) and the index of commits and of branches kept in them
  (\<open>src/storage/commit_index.cpp\<close>).  The state is the content of the file, \<open>None\<close> when it does not exist.  The
  payload is little endian; the readers share the monad of the canonical codec.  The locale \<open>payload_index\<close> is
  the contract of an index with a key: it is proved once that upserting and finding behave like a map.
\<close>

unbundle bit_operations_syntax

section \<open>Little-endian integers\<close>

fun write_little_endian :: "'a::len word \<Rightarrow> nat \<Rightarrow> bytes" where
  "write_little_endian value 0 = []"
| "write_little_endian value (Suc n) = ucast value # write_little_endian (drop_bit 8 value) n"

fun read_little_endian :: "bytes \<Rightarrow> 'a::len word" where
  "read_little_endian [] = 0"
| "read_little_endian (b # bs) = ucast b OR push_bit 8 (read_little_endian bs)"

lemma length_write_little_endian [simp]: "length (write_little_endian v n) = n"
  by (induction n arbitrary: v) simp_all

lemma read_write_little_endian:
  fixes v :: "'a::len word"
  shows "read_little_endian (write_little_endian v n) = take_bit (n * 8) v"
proof (induction n arbitrary: v)
  case (Suc n)
  have "ucast (ucast v :: u8) OR push_bit 8 (take_bit (n * 8) (drop_bit 8 v)) = take_bit (Suc n * 8) v"
    by (rule bit_word_eqI) (auto simp: bit_simps not_le not_less)
  then show ?case by (simp add: Suc.IH)
qed simp

lemma read_write_little_endian_full [simp]:
  fixes v :: "'a::len word"
  shows "LENGTH('a) \<le> n * 8 \<Longrightarrow> (read_little_endian (write_little_endian v n) :: 'a word) = v"
  by (simp add: read_write_little_endian take_bit_word_eq_self)

section \<open>The payload\<close>

definition index_u8 :: "u8 \<Rightarrow> bytes" where "index_u8 v = [v]"
definition index_u32 :: "u32 \<Rightarrow> bytes" where "index_u32 v = write_little_endian v 4"
definition index_u64 :: "u64 \<Rightarrow> bytes" where "index_u64 v = write_little_endian v 8"
definition index_bool :: "bool \<Rightarrow> bytes" where "index_bool b = index_u8 (if b then 1 else 0)"
definition index_hash :: "hash256 \<Rightarrow> bytes" where "index_hash h = hash_bytes h"
definition index_string :: "string \<Rightarrow> bytes" where
  "index_string s = index_u64 (of_nat (length s)) @ map char_to_byte s"
definition index_hashes :: "hash256 list \<Rightarrow> bytes" where
  "index_hashes hs = index_u64 (of_nat (length hs)) @ concat (map index_hash hs)"

definition payload_u8 :: "u8 decoder" where "payload_u8 = rmap hd (reader_read 1)"
definition payload_u32 :: "u32 decoder" where "payload_u32 = rmap read_little_endian (reader_read 4)"
definition payload_u64 :: "u64 decoder" where "payload_u64 = rmap read_little_endian (reader_read 8)"
definition payload_bool :: "bool decoder" where
  "payload_bool = rbind payload_u8 (\<lambda>v. if v > 1 then rthrow InvalidIndexBoolean else rret (v = 1))"
definition payload_digest :: "hash256 decoder" where "payload_digest = rmap read_big_endian (reader_read 32)"
definition payload_string :: "string decoder" where
  "payload_string = rbind payload_u64 (\<lambda>n. rmap (map byte_to_char) (reader_read (unat n)))"
definition payload_hashes :: "hash256 list decoder" where
  "payload_hashes = rbind payload_u64 (\<lambda>n. rtimes (unat n) payload_digest)"
definition payload_end :: "unit decoder" where
  "payload_end s = (if s \<noteq> [] then Inl TrailingBytes else Inr ((), s))"

named_theorems index_codec

lemma payload_u8_index [index_codec]: "payload_u8 (index_u8 v @ rest) = Inr (v, rest)"
  by (simp add: payload_u8_def index_u8_def rmap_def rbind_def reader_read_def)

lemma payload_u32_index [index_codec]: "payload_u32 (index_u32 v @ rest) = Inr (v, rest)"
  by (simp add: payload_u32_def index_u32_def codec_simps)

lemma payload_u64_index [index_codec]: "payload_u64 (index_u64 v @ rest) = Inr (v, rest)"
  by (simp add: payload_u64_def index_u64_def codec_simps)

lemma payload_bool_index [index_codec]: "payload_bool (index_bool b @ rest) = Inr (b, rest)"
  by (simp add: payload_bool_def index_bool_def index_codec rbind_def)

lemma payload_digest_index [index_codec]: "payload_digest (index_hash h @ rest) = Inr (h, rest)"
  by (simp add: payload_digest_def index_hash_def codec_simps)

lemma unat_length: "size_ok xs \<Longrightarrow> unat (of_nat (length xs) :: u64) = length xs"
  by (simp add: size_ok_def unat_of_nat)

lemma payload_u64_bind: "rbind payload_u64 f (index_u64 v @ rest) = f v rest"
  by (simp add: rbind_def payload_u64_index)

lemma payload_string_index [index_codec]: "size_ok s \<Longrightarrow> payload_string (index_string s @ rest) = Inr (s, rest)"
  by (simp add: payload_string_def index_string_def payload_u64_bind unat_length codec_simps comp_def)

lemma payload_hashes_index [index_codec]: "size_ok hs \<Longrightarrow> payload_hashes (index_hashes hs @ rest) = Inr (hs, rest)"
  using rtimes_roundtrip [of hs payload_digest index_hash "\<lambda>h. h" rest]
  by (simp add: payload_hashes_def index_hashes_def payload_u64_bind unat_length payload_digest_index)

section \<open>The file\<close>

datatype index_error =
    CannotOpenIndex
  | IndexTruncated
  | IndexInvalidMagic
  | IndexUnsupportedVersion
  | IndexInvalidLength
  | IndexChecksumMismatch
  | IndexPayload codec_error

type_synonym index_file = "bytes option"

definition index_version :: u32 where "index_version = 1"

definition index_payload_file :: "digest \<Rightarrow> string \<Rightarrow> bytes \<Rightarrow> bytes" where
  "index_payload_file H magic payload =
     map char_to_byte magic @ index_u32 index_version @ index_u64 (of_nat (length payload)) @ payload @ hash_bytes (H payload)"

definition index_write_payload :: "digest \<Rightarrow> string \<Rightarrow> bytes \<Rightarrow> index_file \<Rightarrow> index_file" where
  "index_write_payload H magic payload file = Some (index_payload_file H magic payload)"

definition index_read_payload :: "digest \<Rightarrow> string \<Rightarrow> index_file \<Rightarrow> index_error + bytes" where
  "index_read_payload H magic file =
     (case file of
        None \<Rightarrow> Inl CannotOpenIndex
      | Some bs \<Rightarrow>
          let header_size = length magic + 4 + 8
          in if length bs < header_size + 32 then Inl IndexTruncated
             else if take (length magic) bs \<noteq> map char_to_byte magic then Inl IndexInvalidMagic
             else if (read_little_endian (take 4 (drop (length magic) bs)) :: u32) \<noteq> index_version then Inl IndexUnsupportedVersion
             else
               let payload_size = unat (read_little_endian (take 8 (drop (length magic + 4) bs)) :: u64)
               in if payload_size > length bs \<or> header_size + payload_size + 32 \<noteq> length bs then Inl IndexInvalidLength
                  else
                    let payload = take payload_size (drop header_size bs)
                    in if H payload \<noteq> read_big_endian (take 32 (drop (header_size + payload_size) bs)) then Inl IndexChecksumMismatch
                       else Inr payload)"

record index_status =
  ix_exists :: bool
  ix_checksum_ok :: bool
  ix_payload_bytes :: nat
  ix_checksum :: hash256
  ix_error :: "index_error option"

definition index_check :: "digest \<Rightarrow> string \<Rightarrow> index_file \<Rightarrow> index_status" where
  "index_check H magic file =
     (let status = \<lparr>ix_exists = False, ix_checksum_ok = False, ix_payload_bytes = 0, ix_checksum = 0, ix_error = None\<rparr>
      in if file = None then status
         else case index_read_payload H magic file of
                Inr payload \<Rightarrow> status\<lparr>ix_exists := True, ix_payload_bytes := length payload, ix_checksum := H payload,
                                     ix_checksum_ok := True\<rparr>
              | Inl e \<Rightarrow> status\<lparr>ix_exists := True, ix_error := Some e\<rparr>)"

definition index_remove :: "index_file \<Rightarrow> index_file" where
  "index_remove file = None"

definition index_checksum :: "digest \<Rightarrow> string \<Rightarrow> index_file \<Rightarrow> index_error + hash256" where
  "index_checksum H magic file = res_bind (index_read_payload H magic file) (\<lambda>payload. Inr (H payload))"

lemma index_read_write:
  assumes "size_ok payload"
  shows "index_read_payload H magic (Some (index_payload_file H magic payload)) = Inr payload"
proof -
  let ?f = "index_payload_file H magic payload"
  have len: "length ?f = length magic + 4 + 8 + length payload + 32"
    by (simp add: index_payload_file_def index_u32_def index_u64_def)
  have "take (length magic) ?f = map char_to_byte magic" by (simp add: index_payload_file_def)
  moreover have "take 4 (drop (length magic) ?f) = index_u32 index_version"
    by (simp add: index_payload_file_def index_u32_def)
  moreover have "take 8 (drop (length magic + 4) ?f) = index_u64 (of_nat (length payload))"
    by (simp add: index_payload_file_def index_u32_def index_u64_def)
  moreover have "drop (length magic + 4 + 8) ?f = payload @ hash_bytes (H payload)"
    by (simp add: index_payload_file_def index_u32_def index_u64_def)
  moreover have "drop (length magic + 4 + 8 + length payload) ?f = hash_bytes (H payload)"
    by (simp add: index_payload_file_def index_u32_def index_u64_def)
  ultimately show ?thesis
    using len unat_length [OF assms]
    by (simp add: index_read_payload_def Let_def index_u32_def index_u64_def)
qed

section \<open>A table of keyed entries\<close>

text \<open>
  The four tables of entries (commits, branches, branch worlds, commit worlds) are written and read by the same
  code up to the entry: \<open>enc\<close> and \<open>dec\<close> are its encoder and decoder, \<open>ident\<close> the field that identifies it,
  \<open>key\<close> what the table is ordered by and \<open>norm\<close> the ordering inside an entry that is done before it is written.
\<close>

fun unique_by :: "('a \<Rightarrow> 'b) \<Rightarrow> 'a list \<Rightarrow> 'a list" where
  "unique_by f [] = []"
| "unique_by f [x] = [x]"
| "unique_by f (x # y # zs) = (if f x = f y then unique_by f (x # zs) else x # unique_by f (y # zs))"

definition keyed_entries :: "digest \<Rightarrow> string \<Rightarrow> 'e decoder \<Rightarrow> index_file \<Rightarrow> index_error + 'e list" where
  "keyed_entries H magic dec file =
     (if file = None then Inr []
      else res_bind (index_read_payload H magic file) (\<lambda>payload.
        case rbind payload_u64 (\<lambda>n. rbind (rtimes (unat n) dec) (\<lambda>es. rbind payload_end (\<lambda>_. rret es))) payload of
          Inl e \<Rightarrow> Inl (IndexPayload e)
        | Inr (es, _) \<Rightarrow> Inr es))"

definition index_table :: "('e \<Rightarrow> 'i) \<Rightarrow> ('e \<Rightarrow> 'k::linorder) \<Rightarrow> ('e \<Rightarrow> 'e) \<Rightarrow> 'e list \<Rightarrow> 'e list" where
  "index_table ident key norm es = unique_by ident (sort_by (\<lambda>l r. key l < key r) (map norm es))"

definition index_payload :: "('e \<Rightarrow> bytes) \<Rightarrow> 'e list \<Rightarrow> bytes" where
  "index_payload enc es = index_u64 (of_nat (length es)) @ concat (map enc es)"

definition index_write ::
  "digest \<Rightarrow> string \<Rightarrow> ('e \<Rightarrow> bytes) \<Rightarrow> ('e \<Rightarrow> 'i) \<Rightarrow> ('e \<Rightarrow> 'k::linorder) \<Rightarrow> ('e \<Rightarrow> 'e) \<Rightarrow> 'e list \<Rightarrow> index_file \<Rightarrow> index_file" where
  "index_write H magic enc ident key norm es file =
     index_write_payload H magic (index_payload enc (index_table ident key norm es)) file"

definition entry_find :: "('e \<Rightarrow> 'i) \<Rightarrow> 'i \<Rightarrow> 'e list \<Rightarrow> 'e option" where
  "entry_find ident i es = List.find (\<lambda>e. ident e = i) es"

text \<open>The loop's \<open>*iter = entry\<close> at the first entry of that identity, or \<open>push_back\<close>.\<close>

fun entry_put :: "('e \<Rightarrow> 'i) \<Rightarrow> 'e \<Rightarrow> 'e list \<Rightarrow> 'e list" where
  "entry_put ident e [] = [e]"
| "entry_put ident e (x # xs) = (if ident x = ident e then e # xs else x # entry_put ident e xs)"

definition index_upsert ::
  "digest \<Rightarrow> string \<Rightarrow> ('e \<Rightarrow> bytes) \<Rightarrow> 'e decoder \<Rightarrow> ('e \<Rightarrow> 'i) \<Rightarrow> ('e \<Rightarrow> 'k::linorder) \<Rightarrow> ('e \<Rightarrow> 'e) \<Rightarrow> 'e \<Rightarrow> index_file
     \<Rightarrow> index_error + index_file" where
  "index_upsert H magic enc dec ident key norm e file =
     res_bind (keyed_entries H magic dec file) (\<lambda>all. Inr (index_write H magic enc ident key norm (entry_put ident e all) file))"

definition index_find ::
  "digest \<Rightarrow> string \<Rightarrow> 'e decoder \<Rightarrow> ('e \<Rightarrow> 'i) \<Rightarrow> 'i \<Rightarrow> index_file \<Rightarrow> index_error + 'e option" where
  "index_find H magic dec ident i file =
     res_bind (keyed_entries H magic dec file) (\<lambda>all. Inr (entry_find ident i all))"

subsection \<open>Lists with distinct identities\<close>

lemma unique_by_distinct: "distinct (map f xs) \<Longrightarrow> unique_by f xs = xs"
  by (induction f xs rule: unique_by.induct) auto

lemma entry_find_Some: "distinct (map ident es) \<Longrightarrow> entry_find ident i es = Some e \<longleftrightarrow> e \<in> set es \<and> ident e = i"
  by (induction es) (auto simp: entry_find_def rev_image_eqI)

lemma entry_find_cong:
  assumes "distinct (map ident es)" "distinct (map ident fs)" "set es = set fs"
  shows "entry_find ident i es = entry_find ident i fs"
  using entry_find_Some [OF assms(1)] entry_find_Some [OF assms(2)] assms(3) by (metis option.exhaust)

lemma entry_put_ident: "ident ` set (entry_put ident e es) = insert (ident e) (ident ` set es)"
  by (induction es) auto

lemma distinct_entry_put: "distinct (map ident es) \<Longrightarrow> distinct (map ident (entry_put ident e es))"
proof (induction es)
  case (Cons x es)
  then show ?case using entry_put_ident [of ident e es] by auto
qed simp

lemma entry_find_put: "entry_find ident i (entry_put ident e es) = (if i = ident e then Some e else entry_find ident i es)"
  by (induction es) (auto simp: entry_find_def)

lemma set_entry_put: "set (entry_put ident e es) \<subseteq> insert e (set es)"
  by (induction es) auto

lemma sum_entry_put: "(\<Sum>x\<leftarrow>entry_put ident e es. f x) \<le> (\<Sum>x\<leftarrow>es. f x) + (f e :: nat)"
  by (induction es) auto

lemma entry_find_append:
  "entry_find ident i (xs @ ys) = (case entry_find ident i xs of Some e \<Rightarrow> Some e | None \<Rightarrow> entry_find ident i ys)"
  by (induction xs) (auto simp: entry_find_def)

lemma entry_find_map:
  "(\<And>e. ident (f e) = ident e) \<Longrightarrow> entry_find ident i (map f es) = map_option f (entry_find ident i es)"
  by (induction es) (auto simp: entry_find_def)

section \<open>The contract of an index\<close>

locale keyed_index =
  fixes H :: digest and magic :: string and enc :: "'e \<Rightarrow> bytes" and dec :: "'e decoder" and ident :: "'e \<Rightarrow> 'i"
    and key :: "'e \<Rightarrow> 'k::linorder" and norm :: "'e \<Rightarrow> 'e" and ok :: "'e \<Rightarrow> bool"
  assumes dec_enc: "ok e \<Longrightarrow> dec (enc e @ rest) = Inr (e, rest)"
    and enc_some: "0 < length (enc e)"
    and norm_ok: "ok e \<Longrightarrow> ok (norm e)"
    and norm_ident: "ident (norm e) = ident e"
    and norm_norm: "norm (norm e) = norm e"
    and key_ident: "key e = key f \<longleftrightarrow> ident e = ident f"
begin

definition total :: "'e list \<Rightarrow> nat" where "total es = 8 + (\<Sum>e\<leftarrow>es. length (enc e))"

definition held_as :: "'e list \<Rightarrow> index_file \<Rightarrow> bool" where
  "held_as es file \<longleftrightarrow> distinct (map ident es) \<and> list_all ok es \<and> map norm es = es \<and> total es < 2 ^ 64
     \<and> (file = None \<and> es = [] \<or> file = Some (index_payload_file H magic (index_payload enc es)))"

lemma length_payload: "length (index_payload enc es) = total es"
  by (simp add: index_payload_def index_u64_def length_concat comp_def total_def)

lemma length_total: "length es \<le> total es"
proof (induction es)
  case (Cons e es)
  with enc_some [of e] show ?case by (cases "enc e") (simp_all add: total_def)
qed (simp add: total_def)

lemma entries_file:
  assumes "list_all ok es" "total es < 2 ^ 64"
  shows "keyed_entries H magic dec (Some (index_payload_file H magic (index_payload enc es))) = Inr es"
proof -
  have "size_ok (index_payload enc es)" "size_ok es"
    using assms(2) length_total [of es] by (simp_all add: size_ok_def length_payload)
  moreover have "rtimes (length es) dec (concat (map enc es) @ []) = Inr (map (\<lambda>e. e) es, [])"
    by (rule rtimes_roundtrip) (use assms(1) dec_enc in \<open>simp add: list_all_iff\<close>)
  ultimately show ?thesis
    using payload_u64_bind
    by (simp add: keyed_entries_def index_read_write index_payload_def unat_length rbind_def payload_end_def payload_u64_index)
qed

lemma entries_held: "held_as es file \<Longrightarrow> keyed_entries H magic dec file = Inr es"
  using entries_file by (auto simp: held_as_def keyed_entries_def)

lemma table_distinct:
  assumes "distinct (map ident es)"
  shows "mset (index_table ident key norm es) = mset (map norm es)" "distinct (map ident (index_table ident key norm es))"
proof -
  let ?s = "sort_by (\<lambda>l r. key l < key r) (map norm es)"
  have "distinct (map ident (map norm es))" using assms by (simp add: comp_def norm_ident)
  moreover have "mset (map ident ?s) = mset (map ident (map norm es))" by (simp only: mset_map mset_sort_by)
  ultimately have d: "distinct (map ident ?s)" by (metis mset_eq_imp_distinct_iff)
  then have e: "index_table ident key norm es = ?s" by (simp add: index_table_def unique_by_distinct)
  then show "mset (index_table ident key norm es) = mset (map norm es)" by simp
  show "distinct (map ident (index_table ident key norm es))" using d e by simp
qed

lemma upsert_held:
  assumes "held_as es file" "ok e" "total es + length (enc (norm e)) < 2 ^ 64"
  obtains fs file' where "index_upsert H magic enc dec ident key norm e file = Inr file'" "held_as fs file'"
    "total fs \<le> total es + length (enc (norm e))"
    "\<And>i. entry_find ident i fs = (if i = ident e then Some (norm e) else entry_find ident i es)"
proof -
  let ?put = "entry_put ident e es" let ?fs = "index_table ident key norm ?put"
  have es: "distinct (map ident es)" "\<And>x. x \<in> set es \<Longrightarrow> ok x \<and> norm x = x" and mes: "map norm es = es"
    using assms(1) map_eq_conv [of norm es "\<lambda>x. x"] by (simp_all add: held_as_def list_all_iff)
  note t = table_distinct [OF distinct_entry_put [OF es(1), of e]]
  have set: "set ?fs = norm ` set ?put" by (metis t(1) set_mset_mset set_map)
  have sub: "x \<in> set ?put \<Longrightarrow> ok x" for x using set_entry_put [of ident e es] es(2) assms(2) by blast
  have "mset (map (\<lambda>x. length (enc x)) ?fs) = mset (map (\<lambda>x. length (enc x)) (map norm ?put))"
    unfolding mset_map [of _ ?fs] mset_map [of _ "map norm ?put"] t(1) ..
  then have "(\<Sum>x\<leftarrow>?fs. length (enc x)) = (\<Sum>x\<leftarrow>map norm ?put. length (enc x))"
    by (metis sum_mset_sum_list)
  also have "\<dots> \<le> (\<Sum>x\<leftarrow>es. length (enc (norm x))) + length (enc (norm e))"
    using sum_entry_put [of "\<lambda>x. length (enc (norm x))" ident e es] by (simp add: comp_def)
  also have "(\<Sum>x\<leftarrow>es. length (enc (norm x))) = (\<Sum>x\<leftarrow>es. length (enc x))"
    using es(2) by (simp cong: map_cong)
  finally have total: "total ?fs \<le> total es + length (enc (norm e))" by (simp add: total_def)
  have held: "held_as ?fs (index_write H magic enc ident key norm ?put file)"
    using t(2) set sub total assms(3)
    by (auto simp: held_as_def list_all_iff norm_ok norm_norm index_write_def index_write_payload_def intro!: map_idI)
  have "entry_find ident i ?fs = entry_find ident i (map norm ?put)" for i
    by (rule entry_find_cong) (use t set distinct_entry_put [OF es(1), of e] in \<open>simp_all add: comp_def norm_ident\<close>)
  also have "entry_find ident i (map norm ?put) = (if i = ident e then Some (norm e) else entry_find ident i (map norm es))" for i
    by (simp add: entry_find_map norm_ident entry_find_put)
  finally show thesis
    using that [OF _ held total] entries_held [OF assms(1)] mes by (simp add: index_upsert_def)
qed

text \<open>After any sequence of upserts the index answers with the last entry given for the identity.\<close>

lemma upserts_held:
  assumes "held_as fs file" "list_all ok es" "total fs + (\<Sum>e\<leftarrow>es. length (enc (norm e))) < 2 ^ 64"
  shows "\<exists>gs file'. res_fold (\<lambda>f e. index_upsert H magic enc dec ident key norm e f) file es = Inr file' \<and> held_as gs file'
    \<and> (\<forall>i. entry_find ident i gs
          = (case entry_find ident i (rev es) of Some e \<Rightarrow> Some (norm e) | None \<Rightarrow> entry_find ident i fs))"
  using assms
proof (induction es arbitrary: fs "file")
  case Nil
  then show ?case by (auto simp: entry_find_def)
next
  case (Cons e es)
  from Cons.prems have "ok e" "total fs + length (enc (norm e)) < 2 ^ 64" by simp_all
  from upsert_held [OF Cons.prems(1) this] obtain hs file' where
    step: "index_upsert H magic enc dec ident key norm e file = Inr file'" "held_as hs file'"
    and le: "total hs \<le> total fs + length (enc (norm e))"
    and find: "\<And>i. entry_find ident i hs = (if i = ident e then Some (norm e) else entry_find ident i fs)" by blast
  have "list_all ok es" "total hs + (\<Sum>e\<leftarrow>es. length (enc (norm e))) < 2 ^ 64" using Cons.prems(2,3) le by simp_all
  from Cons.IH [OF step(2) this] obtain gs file'' where
    rest: "res_fold (\<lambda>f e. index_upsert H magic enc dec ident key norm e f) file' es = Inr file''" "held_as gs file''"
    and found: "\<And>i. entry_find ident i gs
          = (case entry_find ident i (rev es) of Some e \<Rightarrow> Some (norm e) | None \<Rightarrow> entry_find ident i hs)" by blast
  have last: "entry_find ident i (rev (e # es))
      = (case entry_find ident i (rev es) of Some e' \<Rightarrow> Some e' | None \<Rightarrow> if i = ident e then Some e else None)" for i
    unfolding rev.simps entry_find_append by (auto simp: entry_find_def split: option.splits)
  have "entry_find ident i gs
      = (case entry_find ident i (rev (e # es)) of Some e \<Rightarrow> Some (norm e) | None \<Rightarrow> entry_find ident i fs)" for i
    unfolding found last find by (simp split: option.splits)
  with step(1) rest show ?case by auto
qed

lemma find_held: "held_as es file \<Longrightarrow> index_find H magic dec ident i file = Inr (entry_find ident i es)"
  by (simp add: index_find_def entries_held)

lemma upserts_find:
  assumes "list_all ok es" "8 + (\<Sum>e\<leftarrow>es. length (enc (norm e))) < 2 ^ 64"
  shows "res_bind (res_fold (\<lambda>f e. index_upsert H magic enc dec ident key norm e f) None es) (index_find H magic dec ident i)
    = Inr (map_option norm (entry_find ident i (rev es)))"
proof -
  have "held_as [] None" by (simp add: held_as_def total_def)
  from upserts_held [OF this assms(1)] assms(2) obtain gs "file" where
    "res_fold (\<lambda>f e. index_upsert H magic enc dec ident key norm e f) None es = Inr file" "held_as gs file"
    and found: "\<And>i. entry_find ident i gs
          = (case entry_find ident i (rev es) of Some e \<Rightarrow> Some (norm e) | None \<Rightarrow> entry_find ident i [])"
    by (auto simp: total_def)
  then show ?thesis by (auto simp: find_held entry_find_def split: option.splits)
qed

end

end
