(* ===== verification/Commit_Index.thy ===== *)
theory Commit_Index
  imports Index_Store Merkle
begin

text \<open>
  The indexes of commits and of branches (\<open>src/storage/commit_index.cpp\<close>), two instances of a keyed index: the
  commits are identified by their id and ordered by its hexadecimal text, the branches by their name.
\<close>

section \<open>Commits\<close>

fun origin_to_u8 :: "transaction_origin \<Rightarrow> u8" where
  "origin_to_u8 Manual = 0"
| "origin_to_u8 Script = 1"
| "origin_to_u8 Replay = 2"
| "origin_to_u8 Evolution = 3"
| "origin_to_u8 Morphism = 4"
| "origin_to_u8 Ingestion = 5"
| "origin_to_u8 Internal = 6"
| "origin_to_u8 ForkMerge = 7"
| "origin_to_u8 (Origin_byte b) = 0"

definition origin_from_u8 :: "u8 \<Rightarrow> transaction_origin decoder" where
  "origin_from_u8 v =
     (if v = 0 then rret Manual else if v = 1 then rret Script else if v = 2 then rret Replay else if v = 3 then rret Evolution
      else if v = 4 then rret Morphism else if v = 5 then rret Ingestion else if v = 6 then rret Internal
      else if v = 7 then rret ForkMerge else rthrow InvalidIndexOrigin)"

record commit_index_entry =
  ci_id :: commit_id
  ci_object :: hash256
  ci_branch :: string
  ci_parents :: "commit_id list"
  ci_before_snapshot :: hash256
  ci_after_snapshot :: hash256
  ci_delta :: hash256
  ci_program :: hash256
  ci_before_root :: hash256
  ci_after_root :: hash256
  ci_checkpoint :: hash256
  ci_distance :: u64
  ci_page_roots :: "hash256 list"
  ci_before_epoch :: epoch
  ci_after_epoch :: epoch
  ci_accepted :: bool
  ci_origin :: transaction_origin

definition write_commit_entry :: "commit_index_entry \<Rightarrow> bytes" where
  "write_commit_entry e =
     index_hash (ci_id e) @ index_hash (ci_object e) @ index_string (ci_branch e) @ index_hashes (ci_parents e)
     @ index_hash (ci_before_snapshot e) @ index_hash (ci_after_snapshot e) @ index_hash (ci_delta e) @ index_hash (ci_program e)
     @ index_hash (ci_before_root e) @ index_hash (ci_after_root e) @ index_hash (ci_checkpoint e) @ index_u64 (ci_distance e)
     @ index_hashes (ci_page_roots e) @ index_u64 (ci_before_epoch e) @ index_u64 (ci_after_epoch e)
     @ index_bool (ci_accepted e) @ index_u8 (origin_to_u8 (ci_origin e))"

definition read_commit_entry :: "commit_index_entry decoder" where
  "read_commit_entry =
     rbind payload_digest (\<lambda>i. rbind payload_digest (\<lambda>ob. rbind payload_string (\<lambda>branch. rbind payload_hashes (\<lambda>parents.
     rbind payload_digest (\<lambda>before. rbind payload_digest (\<lambda>after. rbind payload_digest (\<lambda>delta. rbind payload_digest (\<lambda>prog.
     rbind payload_digest (\<lambda>before_root. rbind payload_digest (\<lambda>after_root. rbind payload_digest (\<lambda>checkpoint.
     rbind payload_u64 (\<lambda>distance. rbind payload_hashes (\<lambda>pages. rbind payload_u64 (\<lambda>before_epoch.
     rbind payload_u64 (\<lambda>after_epoch. rbind payload_bool (\<lambda>accepted. rbind (rbind payload_u8 origin_from_u8) (\<lambda>origin.
     rret \<lparr>ci_id = i, ci_object = ob, ci_branch = branch, ci_parents = parents, ci_before_snapshot = before,
           ci_after_snapshot = after, ci_delta = delta, ci_program = prog, ci_before_root = before_root,
           ci_after_root = after_root, ci_checkpoint = checkpoint, ci_distance = distance, ci_page_roots = pages,
           ci_before_epoch = before_epoch, ci_after_epoch = after_epoch, ci_accepted = accepted, ci_origin = origin\<rparr>)))))))))))))))))"

definition commit_magic :: string where "commit_magic = ''PVCOMMITIDX2''"

definition commit_index_entries :: "digest \<Rightarrow> index_file \<Rightarrow> index_error + commit_index_entry list" where
  "commit_index_entries H file = keyed_entries H commit_magic read_commit_entry file"

definition commit_index_find :: "digest \<Rightarrow> commit_id \<Rightarrow> index_file \<Rightarrow> index_error + commit_index_entry option" where
  "commit_index_find H i file = index_find H commit_magic read_commit_entry ci_id i file"

definition commit_index_write :: "digest \<Rightarrow> commit_index_entry list \<Rightarrow> index_file \<Rightarrow> index_file" where
  "commit_index_write H es file =
     index_write H commit_magic write_commit_entry ci_id (\<lambda>e. to_hex (ci_id e)) (\<lambda>e. e) es file"

definition commit_index_upsert :: "digest \<Rightarrow> commit_index_entry \<Rightarrow> index_file \<Rightarrow> index_error + index_file" where
  "commit_index_upsert H e file =
     index_upsert H commit_magic write_commit_entry read_commit_entry ci_id (\<lambda>e. to_hex (ci_id e)) (\<lambda>e. e) e file"

record commit_stats =
  cis_commits :: nat
  cis_accepted :: nat
  cis_snapshots :: nat
  cis_programs :: nat
  cis_deltas :: nat

definition commit_stats_step :: "commit_index_entry \<Rightarrow> commit_stats \<Rightarrow> commit_stats" where
  "commit_stats_step e out =
     (let out = (if ci_accepted e
                 then let out = out\<lparr>cis_accepted := cis_accepted out + 1\<rparr>
                      in if ci_distance e = 0 \<and> ci_checkpoint e \<noteq> 0 then out\<lparr>cis_snapshots := cis_snapshots out + 1\<rparr> else out
                 else out);
          out = (if ci_program e \<noteq> 0 then out\<lparr>cis_programs := cis_programs out + 1\<rparr> else out)
      in if ci_delta e \<noteq> 0 then out\<lparr>cis_deltas := cis_deltas out + 1\<rparr> else out)"

definition commit_index_stats :: "digest \<Rightarrow> index_file \<Rightarrow> index_error + commit_stats" where
  "commit_index_stats H file = res_bind (commit_index_entries H file) (\<lambda>all.
     Inr (fold commit_stats_step all
       \<lparr>cis_commits = length all, cis_accepted = 0, cis_snapshots = 0, cis_programs = 0, cis_deltas = 0\<rparr>))"

definition known_origin :: "transaction_origin \<Rightarrow> bool" where
  "known_origin origin \<longleftrightarrow> (\<forall>b. origin \<noteq> Origin_byte b)"

lemma known_origin_simps [simp]:
  "known_origin Manual" "known_origin Script" "known_origin Replay" "known_origin Evolution" "known_origin Morphism"
  "known_origin Ingestion" "known_origin Internal" "known_origin ForkMerge" "\<not> known_origin (Origin_byte b)"
  by (simp_all add: known_origin_def)

definition commit_entry_ok :: "commit_index_entry \<Rightarrow> bool" where
  "commit_entry_ok e \<longleftrightarrow>
     size_ok (ci_branch e) \<and> size_ok (ci_parents e) \<and> size_ok (ci_page_roots e) \<and> known_origin (ci_origin e)"

lemma origin_roundtrip [index_codec]:
  "known_origin origin \<Longrightarrow> rbind payload_u8 origin_from_u8 (index_u8 (origin_to_u8 origin) @ rest) = Inr (origin, rest)"
  by (cases origin) (simp_all add: rbind_def payload_u8_index origin_from_u8_def)

text \<open>An origin outside the enumeration is written as \<open>Manual\<close>.\<close>

lemma origin_byte_lost: "rbind payload_u8 origin_from_u8 (index_u8 (origin_to_u8 (Origin_byte b)) @ rest) = Inr (Manual, rest)"
  by (simp add: rbind_def payload_u8_index origin_from_u8_def)

lemma read_commit_write: "commit_entry_ok e \<Longrightarrow> read_commit_entry (write_commit_entry e @ rest) = Inr (e, rest)"
  by (simp add: read_commit_entry_def write_commit_entry_def commit_entry_ok_def rbind_def [of payload_u64] rbind_def [of payload_digest]
      rbind_def [of payload_string] rbind_def [of payload_hashes] rbind_def [of payload_bool]
      rbind_def [of "rbind payload_u8 origin_from_u8"] index_codec)

lemma commit_entry_some: "0 < length (write_commit_entry e)"
  by (simp add: write_commit_entry_def index_u64_def)

interpretation commits: keyed_index H commit_magic write_commit_entry read_commit_entry ci_id "\<lambda>e. to_hex (ci_id e)" "\<lambda>e. e"
    commit_entry_ok for H
  by unfold_locales (simp_all only: read_commit_write commit_entry_some to_hex_inj)

section \<open>Branches\<close>

record branch_index_entry =
  bi_name :: string
  bi_branch :: u64
  bi_head :: commit_id
  bi_snapshot :: hash256
  bi_epoch :: epoch
  bi_history :: "commit_id list"

definition write_branch_entry :: "branch_index_entry \<Rightarrow> bytes" where
  "write_branch_entry e = index_string (bi_name e) @ index_u64 (bi_branch e) @ index_hash (bi_head e)
     @ index_hash (bi_snapshot e) @ index_u64 (bi_epoch e) @ index_hashes (bi_history e)"

definition read_branch_entry :: "branch_index_entry decoder" where
  "read_branch_entry =
     rbind payload_string (\<lambda>name. rbind payload_u64 (\<lambda>branch. rbind payload_digest (\<lambda>head. rbind payload_digest (\<lambda>snapshot.
     rbind payload_u64 (\<lambda>epoch. rbind payload_hashes (\<lambda>history.
     rret \<lparr>bi_name = name, bi_branch = branch, bi_head = head, bi_snapshot = snapshot, bi_epoch = epoch, bi_history = history\<rparr>))))))"

definition branch_magic :: string where "branch_magic = ''PVBRANCHIDX1''"

definition branch_index_entries :: "digest \<Rightarrow> index_file \<Rightarrow> index_error + branch_index_entry list" where
  "branch_index_entries H file = keyed_entries H branch_magic read_branch_entry file"

definition branch_index_find :: "digest \<Rightarrow> string \<Rightarrow> index_file \<Rightarrow> index_error + branch_index_entry option" where
  "branch_index_find H branch file = index_find H branch_magic read_branch_entry bi_name branch file"

definition branch_index_write :: "digest \<Rightarrow> branch_index_entry list \<Rightarrow> index_file \<Rightarrow> index_file" where
  "branch_index_write H es file = index_write H branch_magic write_branch_entry bi_name bi_name (\<lambda>e. e) es file"

definition branch_index_upsert :: "digest \<Rightarrow> branch_index_entry \<Rightarrow> index_file \<Rightarrow> index_error + index_file" where
  "branch_index_upsert H e file =
     index_upsert H branch_magic write_branch_entry read_branch_entry bi_name bi_name (\<lambda>e. e) e file"

definition branch_entry_ok :: "branch_index_entry \<Rightarrow> bool" where
  "branch_entry_ok e \<longleftrightarrow> size_ok (bi_name e) \<and> size_ok (bi_history e)"

lemma read_branch_write: "branch_entry_ok e \<Longrightarrow> read_branch_entry (write_branch_entry e @ rest) = Inr (e, rest)"
  by (simp add: read_branch_entry_def write_branch_entry_def branch_entry_ok_def rbind_def index_codec)

lemma branch_entry_some: "0 < length (write_branch_entry e)"
  by (simp add: write_branch_entry_def index_u64_def)

interpretation branches: keyed_index H branch_magic write_branch_entry read_branch_entry bi_name bi_name "\<lambda>e. e"
    branch_entry_ok for H
  by unfold_locales (simp_all only: read_branch_write branch_entry_some)

section \<open>The indexes answer with what was last written\<close>

lemma commit_upserts_find:
  assumes "list_all commit_entry_ok es" "8 + (\<Sum>e\<leftarrow>es. length (write_commit_entry e)) < 2 ^ 64"
  shows "res_bind (res_fold (\<lambda>f e. commit_index_upsert H e f) None es) (commit_index_find H i)
    = Inr (entry_find ci_id i (rev es))"
  using commits.upserts_find [OF assms, of H i]
  by (simp add: commit_index_upsert_def commit_index_find_def [abs_def] option.map_ident)

lemma branch_upserts_find:
  assumes "list_all branch_entry_ok es" "8 + (\<Sum>e\<leftarrow>es. length (write_branch_entry e)) < 2 ^ 64"
  shows "res_bind (res_fold (\<lambda>f e. branch_index_upsert H e f) None es) (branch_index_find H name)
    = Inr (entry_find bi_name name (rev es))"
  using branches.upserts_find [OF assms, of H name]
  by (simp add: branch_index_upsert_def branch_index_find_def [abs_def] option.map_ident)

end
