(* ===== verification/Materializer.thy ===== *)
theory Materializer
  imports Chunked_Store Codec_Commit Codec_Delta Commit_Index Overlay
begin

text \<open>
  Snapshots from the history (\<open>src/storage/snapshot_materializer.cpp\<close>): the chain of first parents of a commit, the
  nearest checkpoint on it, and the deltas after the checkpoint applied one by one, each result checked against the
  hash and the root its commit records.  The walk to the root has no bound in the code: it is an option, \<open>None\<close> when
  it does not return.
\<close>

datatype materialize_error =
    MatContent content_error
  | MatChunk chunk_error
  | MatIndex index_error
  | MatUnknownBranch string
  | MatHashMismatch commit_id
  | MatRootMismatch commit_id
  | MatDeltaFailed commit_id
  | MatNotCheckpoint commit_id
  | MatNoCheckpoint commit_id
  | MatNothing commit_id

definition default_snapshot_page_size :: nat where
  "default_snapshot_page_size = 256"

definition mat_get :: "digest \<Rightarrow> 'a decoder \<Rightarrow> content_store \<Rightarrow> hash256 \<Rightarrow> materialize_error + 'a" where
  "mat_get H d s i = (case get_canonical H d s i of Inl e \<Rightarrow> Inl (MatContent e) | Inr x \<Rightarrow> Inr x)"

definition stored_at :: "digest \<Rightarrow> content_store \<Rightarrow> commit_id \<Rightarrow> materialize_error + stored_commit" where
  "stored_at H s i = mat_get H decode_stored_commit s i"

definition verify_snapshot :: "digest \<Rightarrow> commit_id \<Rightarrow> commit_record \<Rightarrow> world_snapshot \<Rightarrow> materialize_error + unit" where
  "verify_snapshot H i r snapshot =
     (if canonical_hash H snapshot \<noteq> cr_after_hash r then Inl (MatHashMismatch i)
      else if cr_after_root r \<noteq> 0 \<and> wr_root (compute_world_root H snapshot) \<noteq> cr_after_root r then Inl (MatRootMismatch i)
      else Inr ())"

definition is_checkpoint :: "stored_commit \<Rightarrow> bool" where
  "is_checkpoint c =
     (if sc_format_version c \<ge> 4 then cr_accepted (sc_record c) \<and> cr_checkpoint_snapshot_object (sc_record c) \<noteq> 0
      else cr_accepted (sc_record c) \<and> sc_after_snapshot_object c \<noteq> 0)"

partial_function (option) parent_chain_loop ::
  "digest \<Rightarrow> content_store \<Rightarrow> commit_id list \<Rightarrow> commit_id \<Rightarrow> (materialize_error + commit_id list) option" where
  "parent_chain_loop H s chain current =
     (case stored_at H s current of
        Inl e \<Rightarrow> Some (Inl e)
      | Inr c \<Rightarrow>
          (case cr_parents (sc_record c) of
             [] \<Rightarrow> Some (Inr (current # chain))
           | p # _ \<Rightarrow> parent_chain_loop H s (current # chain) p))"

definition parent_chain :: "digest \<Rightarrow> content_store \<Rightarrow> commit_id \<Rightarrow> (materialize_error + commit_id list) option" where
  "parent_chain H s i = parent_chain_loop H s [] i"

text \<open>The loop from the end of the chain: the checkpoint found and the commits after it.\<close>

fun find_checkpoint ::
  "digest \<Rightarrow> content_store \<Rightarrow> commit_id list \<Rightarrow> commit_id list \<Rightarrow> materialize_error + (commit_id \<times> commit_id list) option" where
  "find_checkpoint H s [] later = Inr None"
| "find_checkpoint H s (i # before) later =
     res_bind (stored_at H s i) (\<lambda>c. if is_checkpoint c then Inr (Some (i, later)) else find_checkpoint H s before (i # later))"

definition load_checkpoint :: "digest \<Rightarrow> content_store \<Rightarrow> commit_id \<Rightarrow> materialize_error + world_snapshot" where
  "load_checkpoint H s i = res_bind (stored_at H s i) (\<lambda>c.
     if sc_format_version c \<ge> 4 then
       (if cr_checkpoint_snapshot_object (sc_record c) = 0 then Inl (MatNotCheckpoint i)
        else case get_snapshot H default_snapshot_page_size s (cr_checkpoint_snapshot_object (sc_record c)) of
               Inl e \<Rightarrow> Inl (MatChunk e) | Inr snapshot \<Rightarrow> Inr snapshot)
     else mat_get H decode_world_snapshot s (sc_after_snapshot_object c))"

definition materialize_step ::
  "digest \<Rightarrow> content_store \<Rightarrow> world_snapshot \<times> (commit_id \<times> world_snapshot) list \<Rightarrow> commit_id
     \<Rightarrow> materialize_error + world_snapshot \<times> (commit_id \<times> world_snapshot) list" where
  "materialize_step H s acc i = (let (snapshot, out) = acc in
     res_bind (stored_at H s i) (\<lambda>c.
     if \<not> cr_accepted (sc_record c) then res_bind (verify_snapshot H i (sc_record c) snapshot) (\<lambda>_. Inr (snapshot, out))
     else
       res_bind (mat_get H decode_delta s (sc_delta_object c)) (\<lambda>d.
       case apply_delta_to_snapshot H snapshot d of
         Inl e \<Rightarrow> Inl (MatDeltaFailed i)
       | Inr after \<Rightarrow>
           res_bind (verify_snapshot H i (sc_record c) after) (\<lambda>_. Inr (after, out @ [(i, after)])))))"

definition materialize_from ::
  "digest \<Rightarrow> content_store \<Rightarrow> commit_id \<Rightarrow> commit_id list \<Rightarrow> materialize_error + world_snapshot \<times> (commit_id \<times> world_snapshot) list" where
  "materialize_from H s k later =
     res_bind (load_checkpoint H s k) (\<lambda>snapshot.
     res_bind (stored_at H s k) (\<lambda>c.
     res_bind (verify_snapshot H k (sc_record c) snapshot) (\<lambda>_.
       res_fold (materialize_step H s) (snapshot, if cr_accepted (sc_record c) then [(k, snapshot)] else []) later)))"

definition materialize_chain ::
  "digest \<Rightarrow> content_store \<Rightarrow> commit_id \<Rightarrow> commit_id list \<Rightarrow> materialize_error + (commit_id \<times> world_snapshot) list" where
  "materialize_chain H s commit chain =
     (if chain = [] then Inr []
      else res_bind (find_checkpoint H s (rev chain) []) (\<lambda>found. case found of
             None \<Rightarrow> Inl (MatNoCheckpoint commit)
           | Some (k, later) \<Rightarrow> res_bind (materialize_from H s k later) (\<lambda>(snapshot, out). Inr out)))"

definition materialize_accepted_chain_to ::
  "digest \<Rightarrow> content_store \<Rightarrow> commit_id \<Rightarrow> (materialize_error + (commit_id \<times> world_snapshot) list) option" where
  "materialize_accepted_chain_to H s commit =
     map_option (\<lambda>chain. res_bind chain (materialize_chain H s commit)) (parent_chain H s commit)"

definition materialize_commit :: "digest \<Rightarrow> content_store \<Rightarrow> commit_id \<Rightarrow> (materialize_error + world_snapshot) option" where
  "materialize_commit H s commit =
     map_option (\<lambda>r. res_bind r (\<lambda>out. if out = [] then Inl (MatNothing commit) else Inr (snd (last out))))
       (materialize_accepted_chain_to H s commit)"

definition materialize_branch ::
  "digest \<Rightarrow> index_file \<Rightarrow> content_store \<Rightarrow> string \<Rightarrow> (materialize_error + world_snapshot) option" where
  "materialize_branch H branches s branch =
     (case branch_index_find H branch branches of
        Inl e \<Rightarrow> Some (Inl (MatIndex e))
      | Inr None \<Rightarrow> Some (Inl (MatUnknownBranch branch))
      | Inr (Some entry) \<Rightarrow> materialize_commit H s (bi_head entry))"

definition apply_chain_step :: "digest \<Rightarrow> content_store \<Rightarrow> world_snapshot \<Rightarrow> commit_id \<Rightarrow> materialize_error + world_snapshot" where
  "apply_chain_step H s base i = res_bind (stored_at H s i) (\<lambda>c.
     if \<not> cr_accepted (sc_record c) then Inr base
     else res_bind (mat_get H decode_delta s (sc_delta_object c)) (\<lambda>d.
       case apply_delta_to_snapshot H base d of
         Inl e \<Rightarrow> Inl (MatDeltaFailed i)
       | Inr after \<Rightarrow> res_bind (verify_snapshot H i (sc_record c) after) (\<lambda>_. Inr after)))"

definition apply_delta_chain :: "digest \<Rightarrow> content_store \<Rightarrow> world_snapshot \<Rightarrow> commit_id list \<Rightarrow> materialize_error + world_snapshot" where
  "apply_delta_chain H s base chain = res_fold (apply_chain_step H s) base chain"

section \<open>What is returned is what the history records\<close>

text \<open>A snapshot of an accepted commit with the hash and the root its record names.\<close>

definition recorded :: "digest \<Rightarrow> content_store \<Rightarrow> commit_id \<times> world_snapshot \<Rightarrow> bool" where
  "recorded H s iw \<longleftrightarrow> (\<exists>c. stored_at H s (fst iw) = Inr c \<and> cr_accepted (sc_record c)
     \<and> canonical_hash H (snd iw) = cr_after_hash (sc_record c)
     \<and> (cr_after_root (sc_record c) = 0 \<or> wr_root (compute_world_root H (snd iw)) = cr_after_root (sc_record c)))"

text \<open>The second snapshot is the first with the stored delta of the second commit applied.\<close>

definition follows :: "digest \<Rightarrow> content_store \<Rightarrow> commit_id \<times> world_snapshot \<Rightarrow> commit_id \<times> world_snapshot \<Rightarrow> bool" where
  "follows H s iw jv \<longleftrightarrow> (\<exists>c d. stored_at H s (fst jv) = Inr c \<and> mat_get H decode_delta s (sc_delta_object c) = Inr d
     \<and> apply_delta_to_snapshot H (snd iw) d = Inr (snd jv))"

definition chain_recorded :: "digest \<Rightarrow> content_store \<Rightarrow> world_snapshot \<times> (commit_id \<times> world_snapshot) list \<Rightarrow> bool" where
  "chain_recorded H s acc \<longleftrightarrow> snd acc \<noteq> [] \<and> fst acc = snd (last (snd acc)) \<and> list_all (recorded H s) (snd acc)
     \<and> successively (follows H s) (snd acc)"

lemma verify_snapshot_iff:
  "verify_snapshot H i r w = Inr u \<longleftrightarrow> canonical_hash H w = cr_after_hash r
     \<and> (cr_after_root r = 0 \<or> wr_root (compute_world_root H w) = cr_after_root r)"
  by (auto simp: verify_snapshot_def)

lemma materialize_step_accepted:
  assumes "stored_at H s i = Inr c" "cr_accepted (sc_record c)" "materialize_step H s (w, out) i = Inr acc"
  obtains d v where "mat_get H decode_delta s (sc_delta_object c) = Inr d" "apply_delta_to_snapshot H w d = Inr v"
    "verify_snapshot H i (sc_record c) v = Inr ()" "acc = (v, out @ [(i, v)])"
proof (cases "mat_get H decode_delta s (sc_delta_object c)")
  case (Inr d)
  show thesis
  proof (cases "apply_delta_to_snapshot H w d")
    case v: (Inr v)
    show thesis using assms(3) that [OF Inr v] by (auto simp: materialize_step_def assms(1,2) Inr v res_bind_Inr_iff)
  qed (use assms in \<open>simp add: materialize_step_def Inr\<close>)
qed (use assms in \<open>simp add: materialize_step_def\<close>)

lemma materialize_step_recorded:
  assumes "chain_recorded H s acc" "materialize_step H s acc i = Inr acc'"
  shows "chain_recorded H s acc'"
proof -
  obtain w out where acc: "acc = (w, out)" by (cases acc)
  obtain c where c: "stored_at H s i = Inr c" using assms(2) by (auto simp: materialize_step_def acc res_bind_Inr_iff)
  show ?thesis
  proof (cases "cr_accepted (sc_record c)")
    case False
    with assms(2) have "acc' = acc" by (auto simp: materialize_step_def acc c res_bind_Inr_iff)
    with assms(1) show ?thesis by simp
  next
    case True
    from materialize_step_accepted [OF c True assms(2) [unfolded acc]] obtain d v
      where d: "mat_get H decode_delta s (sc_delta_object c) = Inr d" and v: "apply_delta_to_snapshot H w d = Inr v"
        and ok: "verify_snapshot H i (sc_record c) v = Inr ()" and acc': "acc' = (v, out @ [(i, v)])" .
    have "recorded H s (i, v)" using ok True by (simp add: recorded_def c verify_snapshot_iff)
    moreover have "follows H s (last out) (i, v)" using assms(1) d v by (simp add: follows_def c acc chain_recorded_def)
    ultimately show ?thesis using assms(1) by (simp add: acc acc' chain_recorded_def successively_append_iff)
  qed
qed

lemma find_checkpoint_Some:
  "find_checkpoint H s before later = Inr (Some (k, rest)) \<Longrightarrow> \<exists>c. stored_at H s k = Inr c \<and> is_checkpoint c"
  by (induction before arbitrary: later) (auto simp: res_bind_Inr_iff split: if_splits)

lemma materialize_from_recorded:
  assumes "materialize_from H s k later = Inr acc" "stored_at H s k = Inr c" "is_checkpoint c"
  shows "chain_recorded H s acc"
proof -
  from assms obtain w where ok: "verify_snapshot H k (sc_record c) w = Inr ()"
    and fold: "res_fold (materialize_step H s) (w, [(k, w)]) later = Inr acc"
    by (auto simp: materialize_from_def res_bind_Inr_iff is_checkpoint_def split: if_splits)
  have "chain_recorded H s (w, [(k, w)])"
    using ok assms(2,3) by (auto simp: chain_recorded_def recorded_def verify_snapshot_iff is_checkpoint_def split: if_splits)
  with fold show ?thesis by (rule res_fold_invariant [where P = "chain_recorded H s"]) (rule materialize_step_recorded)
qed

lemma materialize_chain_recorded:
  assumes "materialize_chain H s commit chain = Inr out" "chain \<noteq> []"
  shows "\<exists>w. chain_recorded H s (w, out)"
proof -
  from assms obtain k later w where found: "find_checkpoint H s (rev chain) [] = Inr (Some (k, later))"
    and run: "materialize_from H s k later = Inr (w, out)"
    by (auto simp: materialize_chain_def res_bind_Inr_iff split: option.splits)
  from find_checkpoint_Some [OF found] materialize_from_recorded [OF run] show ?thesis by blast
qed

definition chain_result :: "digest \<Rightarrow> content_store \<Rightarrow> commit_id list \<Rightarrow> commit_id \<Rightarrow> materialize_error + commit_id list \<Rightarrow> bool" where
  "chain_result H s chain i result \<longleftrightarrow> (\<forall>r. result = Inr r \<longrightarrow>
     (\<exists>ids. ids \<noteq> [] \<and> last ids = i \<and> (\<forall>acc. parent_chain_loop H s acc i = Some (Inr (ids @ acc))) \<and> r = ids @ chain))"

lemma chain_result_step:
  assumes "\<And>chain i y. loop H s chain i = Some y \<Longrightarrow> chain_result H s chain i y"
    and "(case stored_at H s i of
        Inl e \<Rightarrow> Some (Inl e)
      | Inr c \<Rightarrow> (case cr_parents (sc_record c) of
             [] \<Rightarrow> Some (Inr (i # chain))
           | p # _ \<Rightarrow> loop H s (i # chain) p)) = Some y"
  shows "chain_result H s chain i y"
proof (cases "stored_at H s i")
  case (Inl e)
  with assms(2) show ?thesis by (auto simp: chain_result_def)
next
  case (Inr c)
  show ?thesis
  proof (cases "cr_parents (sc_record c)")
    case Nil
    with assms(2) Inr have "y = Inr ([i] @ chain)" by simp
    moreover have "\<forall>acc. parent_chain_loop H s acc i = Some (Inr ([i] @ acc))"
      using Inr Nil by (subst parent_chain_loop.simps) simp
    ultimately show ?thesis unfolding chain_result_def by (metis append_Nil2 last_snoc list.distinct(1) append_Nil Inr_inject)
  next
    case (Cons p ps)
    with assms(2) Inr have "loop H s (i # chain) p = Some y" by simp
    note p = assms(1) [OF this]
    show ?thesis
      unfolding chain_result_def
    proof (intro allI impI)
      fix r assume "y = Inr r"
      with p obtain ids where ids: "ids \<noteq> []" "r = ids @ i # chain" "\<And>acc. parent_chain_loop H s acc p = Some (Inr (ids @ acc))"
        by (auto simp: chain_result_def)
      have "\<forall>acc. parent_chain_loop H s acc i = Some (Inr ((ids @ [i]) @ acc))"
        using Inr Cons ids(3) by (subst parent_chain_loop.simps) simp
      with ids show "\<exists>ids. ids \<noteq> [] \<and> last ids = i \<and> (\<forall>acc. parent_chain_loop H s acc i = Some (Inr (ids @ acc))) \<and> r = ids @ chain"
        by (intro exI [of _ "ids @ [i]"]) simp
    qed
  qed
qed

lemma parent_chain_loop_result:
  assumes "parent_chain_loop H s chain i = Some y"
  shows "chain_result H s chain i y"
proof (rule parent_chain_loop.raw_induct [where P = chain_result, OF _ assms])
  fix loop :: "digest \<Rightarrow> content_store \<Rightarrow> commit_id list \<Rightarrow> commit_id \<Rightarrow> (materialize_error + commit_id list) option"
    and H s chain i y
  assume ind: "\<And>H s chain i y. loop H s chain i = Some y \<Longrightarrow> chain_result H s chain i y"
    and body: "(case stored_at H s i of
        Inl e \<Rightarrow> Some (Inl e)
      | Inr c \<Rightarrow> (case cr_parents (sc_record c) of
             [] \<Rightarrow> Some (Inr (i # chain))
           | p # _ \<Rightarrow> loop H s (i # chain) p)) = Some y"
  show "chain_result H s chain i y" by (rule chain_result_step [of loop, OF ind body])
qed

lemma parent_chain_some:
  assumes "parent_chain H s i = Some (Inr ids)"
  shows "ids \<noteq> []" "last ids = i" "parent_chain_loop H s acc i = Some (Inr (ids @ acc))"
  using parent_chain_loop_result [OF assms [unfolded parent_chain_def]] by (auto simp: chain_result_def)

text \<open>Everything a materialisation returns is recorded, and each snapshot follows from the one before.\<close>

lemma materialize_accepted_sound:
  assumes "materialize_accepted_chain_to H s i = Some (Inr out)"
  shows "out \<noteq> [] \<and> list_all (recorded H s) out \<and> successively (follows H s) out"
proof -
  from assms obtain chain where chain: "parent_chain H s i = Some (Inr chain)" "materialize_chain H s i chain = Inr out"
    by (auto simp: materialize_accepted_chain_to_def res_bind_Inr_iff)
  from materialize_chain_recorded [OF chain(2) parent_chain_some(1) [OF chain(1)]] show ?thesis
    by (auto simp: chain_recorded_def)
qed

section \<open>The chain of a new commit\<close>

lemma parent_chain_snoc:
  assumes "stored_at H s i = Inr c" "cr_parents (sc_record c) = p # ps" "parent_chain H s p = Some (Inr ids)"
  shows "parent_chain H s i = Some (Inr (ids @ [i]))"
  using assms(1,2) parent_chain_some(3) [OF assms(3), of "[i]"]
  by (simp add: parent_chain_def) (subst parent_chain_loop.simps, simp)

lemma parent_chain_root:
  assumes "stored_at H s i = Inr c" "cr_parents (sc_record c) = []"
  shows "parent_chain H s i = Some (Inr [i])"
  using assms by (simp add: parent_chain_def) (subst parent_chain_loop.simps, simp)

lemma find_checkpoint_later:
  "find_checkpoint H s before later = Inr (Some (k, rest)) \<Longrightarrow>
   find_checkpoint H s before (later @ [i]) = Inr (Some (k, rest @ [i]))"
proof (induction before arbitrary: later)
  case (Cons j before)
  then obtain c where "stored_at H s j = Inr c" by (auto simp: res_bind_Inr_iff)
  with Cons.prems Cons.IH [of "j # later"] show ?case by (auto split: if_splits)
qed simp

text \<open>A new accepted commit without a checkpoint adds its snapshot, a rejected one adds nothing.\<close>

lemma materialize_extends:
  assumes c: "stored_at H s i = Inr c" "cr_parents (sc_record c) = p # ps" "\<not> is_checkpoint c"
    and parent: "materialize_accepted_chain_to H s p = Some (Inr out)"
    and step: "materialize_step H s (snd (last out), out) i = Inr acc"
  shows "materialize_accepted_chain_to H s i = Some (Inr (snd acc))"
proof -
  from parent obtain ids where ids: "parent_chain H s p = Some (Inr ids)" "materialize_chain H s p ids = Inr out"
    by (auto simp: materialize_accepted_chain_to_def res_bind_Inr_iff)
  have ne: "ids \<noteq> []" by (rule parent_chain_some(1) [OF ids(1)])
  from ids(2) ne obtain k later w where found: "find_checkpoint H s (rev ids) [] = Inr (Some (k, later))"
    and run: "materialize_from H s k later = Inr (w, out)"
    by (auto simp: materialize_chain_def res_bind_Inr_iff split: option.splits)
  from find_checkpoint_Some [OF found] materialize_from_recorded [OF run] have w: "w = snd (last out)"
    by (auto simp: chain_recorded_def)
  have chain: "parent_chain H s i = Some (Inr (ids @ [i]))" by (rule parent_chain_snoc [OF c(1,2) ids(1)])
  have found': "find_checkpoint H s (rev (ids @ [i])) [] = Inr (Some (k, later @ [i]))"
    using c(1,3) find_checkpoint_later [OF found, of i] by simp
  have run': "materialize_from H s k (later @ [i]) = Inr acc"
  proof -
    from run obtain v e where "load_checkpoint H s k = Inr v" "stored_at H s k = Inr e" "verify_snapshot H k (sc_record e) v = Inr ()"
      "res_fold (materialize_step H s) (v, if cr_accepted (sc_record e) then [(k, v)] else []) later = Inr (snd (last out), out)"
      by (auto simp: materialize_from_def res_bind_Inr_iff w)
    then show ?thesis using step by (simp add: materialize_from_def res_fold_append)
  qed
  show ?thesis
    by (simp add: materialize_accepted_chain_to_def chain materialize_chain_def found' [simplified] run' split: prod.split)
qed

text \<open>A commit with a checkpoint starts again from it.\<close>

lemma materialize_checkpoint:
  assumes c: "stored_at H s i = Inr c" "is_checkpoint c" and chain: "parent_chain H s i = Some (Inr ids)"
    and load: "load_checkpoint H s i = Inr w" and ok: "verify_snapshot H i (sc_record c) w = Inr ()"
  shows "materialize_accepted_chain_to H s i = Some (Inr [(i, w)])"
proof -
  have acc: "cr_accepted (sc_record c)" using c(2) by (auto simp: is_checkpoint_def split: if_splits)
  have "ids \<noteq> []" "last ids = i" by (rule parent_chain_some [OF chain])+
  then obtain before where ids: "ids = before @ [i]" by (metis append_butlast_last_id)
  have "find_checkpoint H s (rev ids) [] = Inr (Some (i, []))" by (simp add: ids c)
  moreover have "materialize_from H s i [] = Inr (w, [(i, w)])" by (simp add: materialize_from_def load c(1) ok acc)
  ultimately show ?thesis by (simp add: materialize_accepted_chain_to_def chain materialize_chain_def ids)
qed

end
