(* ===== verification/Materializer_Keeps.thy ===== *)
theory Materializer_Keeps
  imports Materializer
begin

text \<open>
  What a materialisation reads.  A store that keeps the objects another one has, on a set of hashes that covers what is
  read, gives the same result; a write keeps all of them, the collector of unreachable objects those it marks.
\<close>

named_theorems kept_intros

definition kept :: "'e + 'a \<Rightarrow> 'e + 'a \<Rightarrow> bool" where
  "kept m m' \<longleftrightarrow> (\<forall>x. m = Inr x \<longrightarrow> m' = Inr x)"

lemma keptD: "kept m m' \<Longrightarrow> m = Inr x \<Longrightarrow> m' = Inr x"
  by (simp add: kept_def)

lemma kept_refl [kept_intros]: "kept m m"
  by (simp add: kept_def)

lemma kept_bind [kept_intros]: "kept m m' \<Longrightarrow> (\<And>x. m = Inr x \<Longrightarrow> kept (f x) (f' x)) \<Longrightarrow> kept (res_bind m f) (res_bind m' f')"
  by (auto simp: kept_def res_bind_Inr_iff)

lemma kept_case: "kept m m' \<Longrightarrow> kept (case m of Inl e \<Rightarrow> Inl (f e) | Inr x \<Rightarrow> g x) (case m' of Inl e \<Rightarrow> Inl (f' e) | Inr x \<Rightarrow> g x)"
  by (auto simp: kept_def split: sum.splits)

lemma kept_fold:
  assumes "\<And>acc x. x \<in> set xs \<Longrightarrow> kept (f acc x) (f' acc x)"
  shows "kept (res_fold f acc xs) (res_fold f' acc xs)"
  using assms
proof (induction xs arbitrary: acc)
  case (Cons x xs)
  then have "kept (f acc x) (f' acc x)" "\<And>acc. kept (res_fold f acc xs) (res_fold f' acc xs)" by simp_all
  then show ?case by (auto intro: kept_bind)
qed (simp add: kept_refl)

definition keeps_on :: "digest \<Rightarrow> hash256 set \<Rightarrow> content_store \<Rightarrow> content_store \<Rightarrow> bool" where
  "keeps_on H M s s' \<longleftrightarrow> (\<forall>i \<in> M. kept (get_bytes H s i) (get_bytes H s' i))"

lemma keeps_get:
  assumes "keeps_on H M s s'" "i \<in> M"
  shows "kept (get_canonical H d s i) (get_canonical H d s' i)" "kept (mat_get H d s i) (mat_get H d s' i)"
    "kept (chunk_get H d s i) (chunk_get H d s' i)" "kept (stored_at H s i) (stored_at H s' i)"
proof -
  show c: "kept (get_canonical H d s i) (get_canonical H d s' i)" for d :: "'b decoder"
    using assms by (auto simp: get_canonical_def keeps_on_def intro: kept_bind kept_refl)
  show m: "kept (mat_get H d s i) (mat_get H d s' i)" for d :: "'b decoder"
    unfolding mat_get_def by (rule kept_case [OF c])
  show "kept (chunk_get H d s i) (chunk_get H d s' i)" unfolding chunk_get_def by (rule kept_case [OF c])
  show "kept (stored_at H s i) (stored_at H s' i)" unfolding stored_at_def by (rule m)
qed

text \<open>The objects a snapshot is read from.\<close>

definition snapshot_reads :: "digest \<Rightarrow> content_store \<Rightarrow> hash256 \<Rightarrow> hash256 set" where
  "snapshot_reads H s i = {i} \<union> (case chunk_get H decode_snapshot_root s i of Inl _ \<Rightarrow> {} | Inr root \<Rightarrow>
     {sr_object_pages_root root, sr_pointer_pages_root root, sr_fact_pages_root root, sr_type_table_root root, sr_relation_table_root root}
     \<union> (\<Union>j \<in> {sr_object_pages_root root, sr_pointer_pages_root root, sr_fact_pages_root root}.
         case chunk_get H decode_page_index s j of Inl _ \<Rightarrow> {} | Inr pages \<Rightarrow> set pages))"

lemma append_pages_kept:
  "keeps_on H M s s' \<Longrightarrow> set pages \<subseteq> M \<Longrightarrow> kept (append_pages H d s pages) (append_pages H d s' pages)"
  unfolding append_pages_def by (rule kept_fold) (auto intro!: kept_bind keeps_get(3) kept_refl)

lemma get_snapshot_kept:
  assumes keeps: "keeps_on H M s s'" and reads: "snapshot_reads H s i \<subseteq> M"
  shows "kept (get_snapshot H n s i) (get_snapshot H n s' i)"
  unfolding get_snapshot_def
proof (rule kept_bind)
  show "kept (chunk_get H decode_snapshot_root s i) (chunk_get H decode_snapshot_root s' i)"
    using keeps reads by (intro keeps_get(3)) (auto simp: snapshot_reads_def)
next
  fix root assume root: "chunk_get H decode_snapshot_root s i = Inr root"
  let ?o = "sr_object_pages_root root" and ?p = "sr_pointer_pages_root root" and ?f = "sr_fact_pages_root root"
  have M: "?o \<in> M" "?p \<in> M" "?f \<in> M" "sr_type_table_root root \<in> M" "sr_relation_table_root root \<in> M"
    and pages: "\<And>j ps. j \<in> {?o, ?p, ?f} \<Longrightarrow> chunk_get H decode_page_index s j = Inr ps \<Longrightarrow> set ps \<subseteq> M"
    using reads unfolding snapshot_reads_def root by (auto split: sum.splits)
  show "kept
     (res_bind (chunk_get H decode_page_index s ?o) (\<lambda>object_index.
     res_bind (chunk_get H decode_page_index s ?p) (\<lambda>pointer_index.
     res_bind (chunk_get H decode_page_index s ?f) (\<lambda>fact_index.
     res_bind (chunk_get H decode_symbol_table_object s (sr_type_table_root root)) (\<lambda>type_table.
     res_bind (chunk_get H decode_symbol_table_object s (sr_relation_table_root root)) (\<lambda>relation_table.
     res_bind (append_pages H decode_object_page s object_index) (\<lambda>objects.
     res_bind (append_pages H decode_pointer_page s pointer_index) (\<lambda>pointers.
     res_bind (append_pages H decode_fact_page s fact_index) (\<lambda>facts.
       let snapshot = \<lparr>sn_world = sr_world root, sn_world_name = sr_world_name root, sn_epoch = sr_epoch root,
             sn_objects = objects, sn_pointers = pointers, sn_facts = facts, sn_type_names = type_table,
             sn_relation_names = relation_table\<rparr>
       in case build_chunked_snapshot_plan H snapshot n of
            Inl e \<Rightarrow> Inl (ChunkPlan e)
          | Inr rebuilt \<Rightarrow> if plan_root_object rebuilt \<noteq> i then Inl ChunkRootMismatch else Inr snapshot))))))))) 
     (res_bind (chunk_get H decode_page_index s' ?o) (\<lambda>object_index.
     res_bind (chunk_get H decode_page_index s' ?p) (\<lambda>pointer_index.
     res_bind (chunk_get H decode_page_index s' ?f) (\<lambda>fact_index.
     res_bind (chunk_get H decode_symbol_table_object s' (sr_type_table_root root)) (\<lambda>type_table.
     res_bind (chunk_get H decode_symbol_table_object s' (sr_relation_table_root root)) (\<lambda>relation_table.
     res_bind (append_pages H decode_object_page s' object_index) (\<lambda>objects.
     res_bind (append_pages H decode_pointer_page s' pointer_index) (\<lambda>pointers.
     res_bind (append_pages H decode_fact_page s' fact_index) (\<lambda>facts.
       let snapshot = \<lparr>sn_world = sr_world root, sn_world_name = sr_world_name root, sn_epoch = sr_epoch root,
             sn_objects = objects, sn_pointers = pointers, sn_facts = facts, sn_type_names = type_table,
             sn_relation_names = relation_table\<rparr>
       in case build_chunked_snapshot_plan H snapshot n of
            Inl e \<Rightarrow> Inl (ChunkPlan e)
          | Inr rebuilt \<Rightarrow> if plan_root_object rebuilt \<noteq> i then Inl ChunkRootMismatch else Inr snapshot)))))))))"
    using M pages by (intro kept_bind kept_refl keeps_get(3) [OF keeps] append_pages_kept [OF keeps]) auto
qed

section \<open>Chains\<close>

text \<open>The chain of first parents of a commit, from the root.\<close>

fun chain_of :: "digest \<Rightarrow> content_store \<Rightarrow> commit_id list \<Rightarrow> bool" where
  "chain_of H s [] = False"
| "chain_of H s [i] = (\<exists>c. stored_at H s i = Inr c \<and> cr_parents (sc_record c) = [])"
| "chain_of H s (i # p # ids) = ((\<exists>c ps. stored_at H s i = Inr c \<and> cr_parents (sc_record c) = p # ps) \<and> chain_of H s (p # ids))"

lemma parent_chain_step:
  assumes "parent_chain H s i = Some (Inr ids)"
  shows "\<exists>c. stored_at H s i = Inr c \<and> (cr_parents (sc_record c) = [] \<and> ids = [i]
    \<or> (\<exists>p ps before. cr_parents (sc_record c) = p # ps \<and> parent_chain H s p = Some (Inr before) \<and> ids = before @ [i]))"
proof -
  have loop: "parent_chain_loop H s [] i = Some (Inr ids)" using assms by (simp add: parent_chain_def)
  then obtain c where c: "stored_at H s i = Inr c" by (subst (asm) parent_chain_loop.simps) (auto split: sum.splits)
  show ?thesis
  proof (cases "cr_parents (sc_record c)")
    case Nil
    with c loop show ?thesis by (subst (asm) parent_chain_loop.simps) simp
  next
    case (Cons p ps)
    with c loop have "parent_chain_loop H s [i] p = Some (Inr ids)" by (subst (asm) parent_chain_loop.simps) simp
    from parent_chain_loop_result [OF this] obtain before where
      "\<And>acc. parent_chain_loop H s acc p = Some (Inr (before @ acc))" "ids = before @ [i]"
      by (auto simp: chain_result_def)
    then have "parent_chain H s p = Some (Inr before)" by (simp add: parent_chain_def)
    with c Cons \<open>ids = before @ [i]\<close> show ?thesis by blast
  qed
qed

lemma parent_chain_iff: "parent_chain H s i = Some (Inr ids) \<longleftrightarrow> chain_of H s (rev ids) \<and> ids \<noteq> [] \<and> last ids = i"
proof
  show "parent_chain H s i = Some (Inr ids) \<Longrightarrow> chain_of H s (rev ids) \<and> ids \<noteq> [] \<and> last ids = i"
  proof (induction ids arbitrary: i rule: rev_induct)
    case Nil
    then show ?case using parent_chain_some(1) by blast
  next
    case (snoc j ids)
    from parent_chain_step [OF snoc.prems] obtain c where c: "stored_at H s i = Inr c"
      and cases: "cr_parents (sc_record c) = [] \<and> ids @ [j] = [i]
        \<or> (\<exists>p ps before. cr_parents (sc_record c) = p # ps \<and> parent_chain H s p = Some (Inr before) \<and> ids @ [j] = before @ [i])" by blast
    from cases show ?case
    proof (elim disjE exE conjE)
      assume "cr_parents (sc_record c) = []" "ids @ [j] = [i]"
      with c show ?thesis by simp
    next
      fix p ps before
      assume p: "cr_parents (sc_record c) = p # ps" "parent_chain H s p = Some (Inr before)" "ids @ [j] = before @ [i]"
      then have "chain_of H s (rev ids) \<and> ids \<noteq> [] \<and> last ids = p" using snoc.IH by simp
      then obtain rest where "rev ids = p # rest" by (metis hd_rev list.collapse rev_is_Nil_conv)
      with \<open>chain_of H s (rev ids) \<and> ids \<noteq> [] \<and> last ids = p\<close> p c show ?thesis by auto
    qed
  qed
next
  show "chain_of H s (rev ids) \<and> ids \<noteq> [] \<and> last ids = i \<Longrightarrow> parent_chain H s i = Some (Inr ids)"
  proof (induction ids arbitrary: i rule: rev_induct)
    case (snoc j ids)
    show ?case
    proof (cases "rev ids")
      case Nil
      with snoc.prems show ?thesis using parent_chain_root by auto
    next
      case (Cons p rest)
      with snoc.prems obtain c ps where c: "stored_at H s i = Inr c" "cr_parents (sc_record c) = p # ps" "chain_of H s (rev ids)" by auto
      from Cons have "last ids = p" "ids \<noteq> []" by (metis hd_rev list.sel(1) rev_rev_ident rev_is_Nil_conv list.distinct(1))+
      with snoc.IH c(3) have "parent_chain H s p = Some (Inr ids)" by blast
      from parent_chain_snoc [OF c(1,2) this] snoc.prems show ?thesis by simp
    qed
  qed simp
qed

section \<open>A materialisation reads no more than this\<close>

text \<open>The objects a chain of commits is materialised from: the commits, their deltas, and the pages of its checkpoints.\<close>

definition commit_reads :: "digest \<Rightarrow> content_store \<Rightarrow> commit_id \<Rightarrow> hash256 set" where
  "commit_reads H s i = {i} \<union> (case stored_at H s i of Inl _ \<Rightarrow> {} | Inr c \<Rightarrow>
     (if cr_accepted (sc_record c) then {sc_delta_object c} else {})
     \<union> (if is_checkpoint c then
          (if sc_format_version c \<ge> 4 then snapshot_reads H s (cr_checkpoint_snapshot_object (sc_record c))
           else {sc_after_snapshot_object c})
        else {}))"

lemma commit_reads_stored:
  assumes "commit_reads H s i \<subseteq> M" "stored_at H s i = Inr c"
  shows "cr_accepted (sc_record c) \<Longrightarrow> sc_delta_object c \<in> M"
    "is_checkpoint c \<Longrightarrow> sc_format_version c \<ge> 4 \<Longrightarrow> snapshot_reads H s (cr_checkpoint_snapshot_object (sc_record c)) \<subseteq> M"
    "is_checkpoint c \<Longrightarrow> \<not> sc_format_version c \<ge> 4 \<Longrightarrow> sc_after_snapshot_object c \<in> M"
  using assms by (auto simp: commit_reads_def)

lemma commit_kept:
  assumes "keeps_on H M s s'" "commit_reads H s i \<subseteq> M"
  shows "kept (stored_at H s i) (stored_at H s' i)"
  using assms by (intro keeps_get(4)) (auto simp: commit_reads_def)

lemma chain_of_kept:
  assumes "keeps_on H M s s'" "\<And>i. i \<in> set ids \<Longrightarrow> commit_reads H s i \<subseteq> M"
  shows "chain_of H s ids \<Longrightarrow> chain_of H s' ids"
  using assms(2)
proof (induction ids rule: induct_list012)
  case (2 i)
  then show ?case using keptD [OF commit_kept [OF assms(1), of i]] by auto
next
  case (3 i p ids)
  then have "kept (stored_at H s i) (stored_at H s' i)" by (intro commit_kept [OF assms(1)]) simp
  with 3 show ?case by (auto dest: keptD)
qed simp

lemma find_checkpoint_kept:
  assumes "keeps_on H M s s'" "\<And>i. i \<in> set before \<Longrightarrow> commit_reads H s i \<subseteq> M"
  shows "kept (find_checkpoint H s before later) (find_checkpoint H s' before later)"
  using assms(2)
proof (induction before arbitrary: later)
  case (Cons i before)
  then have "kept (stored_at H s i) (stored_at H s' i)" by (intro commit_kept [OF assms(1)]) simp
  with Cons show ?case by (auto intro!: kept_bind kept_refl)
qed (simp add: kept_refl)

lemma find_checkpoint_set:
  "find_checkpoint H s before later = Inr (Some (k, rest)) \<Longrightarrow> k \<in> set before \<and> set rest \<subseteq> set before \<union> set later"
  by (induction before arbitrary: later) (fastforce simp: res_bind_Inr_iff split: if_splits)+

lemma load_checkpoint_kept:
  assumes "keeps_on H M s s'" "commit_reads H s k \<subseteq> M" "stored_at H s k = Inr c" "is_checkpoint c"
  shows "kept (load_checkpoint H s k) (load_checkpoint H s' k)"
proof -
  have c': "stored_at H s' k = Inr c" by (rule keptD [OF commit_kept [OF assms(1,2)] assms(3)])
  show ?thesis
  proof (cases "sc_format_version c \<ge> 4")
    case True
    have "kept (get_snapshot H default_snapshot_page_size s (cr_checkpoint_snapshot_object (sc_record c)))
        (get_snapshot H default_snapshot_page_size s' (cr_checkpoint_snapshot_object (sc_record c)))"
      by (rule get_snapshot_kept [OF assms(1) commit_reads_stored(2) [OF assms(2,3,4) True]])
    from kept_case [OF this, of MatChunk Inr MatChunk] True show ?thesis
      by (simp add: load_checkpoint_def assms(3) c' kept_refl)
  next
    case False
    with keeps_get(2) [OF assms(1) commit_reads_stored(3) [OF assms(2,3,4) False]] show ?thesis
      by (simp add: load_checkpoint_def assms(3) c')
  qed
qed

lemma materialize_step_kept:
  assumes "keeps_on H M s s'" "commit_reads H s i \<subseteq> M"
  shows "kept (materialize_step H s acc i) (materialize_step H s' acc i)"
proof -
  obtain w out where acc: "acc = (w, out)" by (cases acc)
  show ?thesis
    unfolding materialize_step_def acc Let_def prod.case
  proof (rule kept_bind [OF commit_kept [OF assms]])
    fix c assume c: "stored_at H s i = Inr c"
    show "kept
       (if \<not> cr_accepted (sc_record c) then res_bind (verify_snapshot H i (sc_record c) w) (\<lambda>_. Inr (w, out))
        else res_bind (mat_get H decode_delta s (sc_delta_object c)) (\<lambda>d. case apply_delta_to_snapshot H w d of
           Inl e \<Rightarrow> Inl (MatDeltaFailed i)
         | Inr after \<Rightarrow> res_bind (verify_snapshot H i (sc_record c) after) (\<lambda>_. Inr (after, out @ [(i, after)]))))
       (if \<not> cr_accepted (sc_record c) then res_bind (verify_snapshot H i (sc_record c) w) (\<lambda>_. Inr (w, out))
        else res_bind (mat_get H decode_delta s' (sc_delta_object c)) (\<lambda>d. case apply_delta_to_snapshot H w d of
           Inl e \<Rightarrow> Inl (MatDeltaFailed i)
         | Inr after \<Rightarrow> res_bind (verify_snapshot H i (sc_record c) after) (\<lambda>_. Inr (after, out @ [(i, after)]))))"
      using commit_reads_stored(1) [OF assms(2) c] by (auto intro: kept_bind kept_refl keeps_get(2) [OF assms(1)])
  qed
qed

lemma materialize_from_kept:
  assumes "keeps_on H M s s'" "\<And>i. i \<in> insert k (set later) \<Longrightarrow> commit_reads H s i \<subseteq> M"
    and "stored_at H s k = Inr c" "is_checkpoint c"
  shows "kept (materialize_from H s k later) (materialize_from H s' k later)"
  unfolding materialize_from_def
  using assms(2) load_checkpoint_kept [OF assms(1) _ assms(3,4)] commit_kept [OF assms(1)]
  by (intro kept_bind kept_fold kept_refl materialize_step_kept [OF assms(1)]) auto

lemma materialize_chain_kept:
  assumes "keeps_on H M s s'" "\<And>i. i \<in> set ids \<Longrightarrow> commit_reads H s i \<subseteq> M"
  shows "kept (materialize_chain H s commit ids) (materialize_chain H s' commit ids)"
proof (cases "ids = []")
  case False
  have f: "kept (find_checkpoint H s (rev ids) []) (find_checkpoint H s' (rev ids) [])"
    by (rule find_checkpoint_kept [OF assms(1)]) (use assms(2) in simp)
  have "kept (res_bind (materialize_from H s k later) (\<lambda>(snapshot, out). Inr out)) (res_bind (materialize_from H s' k later) (\<lambda>(snapshot, out). Inr out))"
    if found: "find_checkpoint H s (rev ids) [] = Inr (Some (k, later))" for k later
  proof -
    from find_checkpoint_Some [OF found] obtain c where "stored_at H s k = Inr c" "is_checkpoint c" by blast
    moreover have "\<And>i. i \<in> insert k (set later) \<Longrightarrow> commit_reads H s i \<subseteq> M"
      using find_checkpoint_set [OF found] assms(2) by auto
    ultimately have "kept (materialize_from H s k later) (materialize_from H s' k later)"
      by (intro materialize_from_kept [OF assms(1)])
    then show ?thesis by (rule kept_bind) (rule kept_refl)
  qed
  with False f show ?thesis by (auto simp: materialize_chain_def intro!: kept_bind kept_refl split: option.split)
qed (simp add: materialize_chain_def kept_refl)

text \<open>A store that keeps what the chain of a commit reads materialises it to the same snapshots.\<close>

lemma materialize_kept:
  assumes keeps: "keeps_on H M s s'" and chain: "parent_chain H s i = Some (Inr ids)"
    and reads: "\<And>j. j \<in> set ids \<Longrightarrow> commit_reads H s j \<subseteq> M"
    and out: "materialize_accepted_chain_to H s i = Some (Inr out)"
  shows "parent_chain H s' i = Some (Inr ids)" "materialize_accepted_chain_to H s' i = Some (Inr out)"
    "materialize_commit H s i = materialize_commit H s' i"
proof -
  have "chain_of H s (rev ids)" "ids \<noteq> []" "last ids = i" using chain by (simp_all add: parent_chain_iff)
  with chain_of_kept [OF keeps, of "rev ids"] reads show c': "parent_chain H s' i = Some (Inr ids)" by (simp add: parent_chain_iff)
  have "materialize_chain H s i ids = Inr out" using out by (simp add: materialize_accepted_chain_to_def chain)
  with materialize_chain_kept [OF keeps reads] have "materialize_chain H s' i ids = Inr out" by (auto dest: keptD)
  then show out': "materialize_accepted_chain_to H s' i = Some (Inr out)" by (simp add: materialize_accepted_chain_to_def c')
  show "materialize_commit H s i = materialize_commit H s' i" by (simp add: materialize_commit_def out out')
qed

end
