(* ===== verification/Ref_Store.thy ===== *)
theory Ref_Store
  imports Content_Store
begin

text \<open>
  Branch references (\<open>src/storage/ref_store.cpp\<close>).  The directory of references is a map from the path of a file
  below it to the text of the file, temporary files included; a directory is a path some file lies under.  The head
  is the content of the file \<open>HEAD\<close>.
\<close>

record branch_ref =
  bf_name :: string
  bf_branch :: u64
  bf_head :: hash256
  bf_snapshot :: hash256
  bf_epoch :: u64

record ref_store =
  rf_files :: "(string, string) omap"
  rf_head :: "string option"

datatype ref_error =
    InvalidBranchName string
  | CannotWriteRef
  | InvalidRefCommit
  | InvalidRefSnapshot
  | IncompleteRef string

section \<open>Names\<close>

lemma tl_dropWhile_less: "s \<noteq> [] \<Longrightarrow> length (dropWhile P s) - Suc 0 < length s"
  using length_dropWhile_le [of P s] by (cases s) auto

function components_valid :: "string \<Rightarrow> bool" where
  "components_valid name =
     (if name = [] then True
      else
        let component = takeWhile (\<lambda>c. c \<noteq> CHR ''/'') name; rest = dropWhile (\<lambda>c. c \<noteq> CHR ''/'') name
        in if component = [] \<or> component = ''.'' \<or> component = ''..'' then False
           else if rest = [] then True else components_valid (tl rest))"
  by pat_completeness auto
termination
  by (relation "measure length") (auto intro: tl_dropWhile_less)

declare components_valid.simps [simp del]

definition valid_branch_name :: "string \<Rightarrow> bool" where
  "valid_branch_name name = (if name = [] \<or> hd name = CHR ''/'' then False else components_valid name)"

definition is_directory :: "(string, string) omap \<Rightarrow> string \<Rightarrow> bool" where
  "is_directory files path = list_ex (\<lambda>(f, _). take (length path + 1) f = path @ ''/'') files"

definition below_file :: "(string, string) omap \<Rightarrow> string \<Rightarrow> bool" where
  "below_file files path = list_ex (\<lambda>(f, _). take (length f + 1) path = f @ ''/'') files"

definition has_tmp_extension :: "string \<Rightarrow> bool" where
  "has_tmp_extension path =
     (let file_name = rev (takeWhile (\<lambda>c. c \<noteq> CHR ''/'') (rev path))
      in file_name \<noteq> ''.tmp'' \<and> drop (length file_name - 4) file_name = ''.tmp'')"

section \<open>References\<close>

definition ref_text :: "branch_ref \<Rightarrow> string" where
  "ref_text ref = ''branch '' @ dec_string (unat (bf_branch ref)) @ [newline]
     @ ''commit '' @ to_hex (bf_head ref) @ [newline]
     @ ''snapshot '' @ to_hex (bf_snapshot ref) @ [newline]
     @ ''epoch '' @ dec_string (unat (bf_epoch ref)) @ [newline]"

text \<open>
  Writing goes to \<open>name.tmp\<close>, which is then renamed.  It fails when a directory on the way is a file, when the
  temporary file or the reference itself is a directory, and for a name that ends in a slash.
\<close>

definition update_ref :: "branch_ref \<Rightarrow> ref_store \<Rightarrow> ref_error + ref_store" where
  "update_ref ref rs = (let name = bf_name ref; files = rf_files rs in
     if \<not> valid_branch_name name then Inl (InvalidBranchName name)
     else if last name = CHR ''/'' \<or> below_file files name \<or> is_directory files (name @ ''.tmp'') \<or> is_directory files name
     then Inl CannotWriteRef
     else
       let files = om_put (name @ ''.tmp'') (ref_text ref) files
       in Inr (rs\<lparr>rf_files := om_put name (ref_text ref) (om_erase (name @ ''.tmp'') files)\<rparr>))"

definition skip_line :: "istream \<Rightarrow> istream" where
  "skip_line st = (case st of None \<Rightarrow> None
     | Some s \<Rightarrow> if s = [] then None else Some (tl (dropWhile (\<lambda>c. c \<noteq> newline) s)))"

lemma skip_line_measure: "skip_line st = Some s' \<Longrightarrow> \<exists>s. st = Some s \<and> length s' \<le> length s"
proof -
  assume r: "skip_line st = Some s'"
  then obtain s where "st = Some s" "s' = tl (dropWhile (\<lambda>c. c \<noteq> newline) s)" by (cases st) (auto simp: skip_line_def split: if_splits)
  moreover have "length (tl (dropWhile (\<lambda>c. c \<noteq> newline) s)) \<le> length s"
    using length_dropWhile_le [of "\<lambda>c. c \<noteq> newline" s] by (metis diff_le_self le_trans length_tl)
  ultimately show ?thesis by auto
qed

definition stream_size :: "istream \<Rightarrow> nat" where
  "stream_size st = (case st of None \<Rightarrow> 0 | Some s \<Rightarrow> Suc (length s))"

lemma stream_size_word:
  assumes "(w, st') = read_word st"
  shows "stream_size st' \<le> stream_size st" "st' \<noteq> None \<Longrightarrow> stream_size st' < stream_size st"
proof -
  have "stream_size st' < stream_size st" if "st' = Some t" for t
  proof -
    from assms that obtain s where "st = Some s" by (cases st) auto
    with assms that read_word_shorter [of s w t] show ?thesis by (simp add: stream_size_def)
  qed
  then show "stream_size st' \<le> stream_size st" "st' \<noteq> None \<Longrightarrow> stream_size st' < stream_size st"
    by (cases st'; force simp: stream_size_def less_imp_le)+
qed

lemma stream_size_u64:
  assumes "(v, st') = read_u64 old st"
  shows "stream_size st' \<le> stream_size st"
proof (cases st')
  case (Some t)
  with assms obtain s where "st = Some s" by (cases st) auto
  with assms Some read_u64_shorter [of old s v t] show ?thesis by (simp add: stream_size_def)
qed (simp add: stream_size_def)

lemma stream_size_line: "stream_size (skip_line st) \<le> stream_size st"
  using skip_line_measure [of st] by (cases "skip_line st") (auto simp: stream_size_def)

lemma stream_size_after:
  assumes "(key, st1) = read_word st" "st1 \<noteq> None"
  shows "(v, st2) = read_u64 old st1 \<Longrightarrow> stream_size st2 < stream_size st" "(w, st2) = read_word st1 \<Longrightarrow> stream_size st2 < stream_size st"
    "stream_size (skip_line st1) < stream_size st"
  using stream_size_word(2) [OF assms] stream_size_u64 [of v st2 old st1] stream_size_word(1) [of w st2 st1] stream_size_line [of st1]
  by auto

text \<open>The loop \<open>while (input >> key)\<close>.\<close>

function read_ref :: "istream \<Rightarrow> branch_ref \<Rightarrow> ref_error + branch_ref" where
  "read_ref st ref =
     (let (key, st1) = read_word st
      in if st1 = None then Inr ref
         else if key = ''branch'' then let (v, st2) = read_u64 (bf_branch ref) st1 in read_ref st2 (ref\<lparr>bf_branch := v\<rparr>)
         else if key = ''commit'' then
           let (v, st2) = read_word st1
           in case parse_hash256 v of None \<Rightarrow> Inl InvalidRefCommit | Some h \<Rightarrow> read_ref st2 (ref\<lparr>bf_head := h\<rparr>)
         else if key = ''snapshot'' then
           let (v, st2) = read_word st1
           in case parse_hash256 v of None \<Rightarrow> Inl InvalidRefSnapshot | Some h \<Rightarrow> read_ref st2 (ref\<lparr>bf_snapshot := h\<rparr>)
         else if key = ''epoch'' then let (v, st2) = read_u64 (bf_epoch ref) st1 in read_ref st2 (ref\<lparr>bf_epoch := v\<rparr>)
         else read_ref (skip_line st1) ref)"
  by pat_completeness auto
termination
  by (relation "measure (\<lambda>(st, _). stream_size st)") (auto intro: stream_size_after)

declare read_ref.simps [simp del]

definition read_branch :: "string \<Rightarrow> ref_store \<Rightarrow> ref_error + branch_ref option" where
  "read_branch name rs =
     (if \<not> valid_branch_name name then Inl (InvalidBranchName name)
      else case om_find (rf_files rs) name of
             None \<Rightarrow>
               if is_directory (rf_files rs) (if last name = CHR ''/'' then butlast name else name) then Inl (IncompleteRef name)
               else Inr None
           | Some s \<Rightarrow>
               res_bind (read_ref (Some s) \<lparr>bf_name = name, bf_branch = 0, bf_head = 0, bf_snapshot = 0, bf_epoch = 0\<rparr>) (\<lambda>ref.
                 if bf_branch ref = 0 \<or> bf_head ref = 0 \<or> bf_snapshot ref = 0 then Inl (IncompleteRef name) else Inr (Some ref)))"

definition list_step :: "ref_store \<Rightarrow> branch_ref list \<Rightarrow> string \<times> string \<Rightarrow> ref_error + branch_ref list" where
  "list_step rs refs entry =
     (if has_tmp_extension (fst entry) then Inr refs
      else res_bind (read_branch (fst entry) rs) (\<lambda>ref. Inr (case ref of None \<Rightarrow> refs | Some r \<Rightarrow> refs @ [r])))"

definition list_branches :: "ref_store \<Rightarrow> ref_error + branch_ref list" where
  "list_branches rs = res_bind (res_fold (list_step rs) [] (rf_files rs)) (\<lambda>refs.
     Inr (sort_by (\<lambda>l r. bf_name l < bf_name r) refs))"

definition set_current_branch :: "string \<Rightarrow> ref_store \<Rightarrow> ref_error + ref_store" where
  "set_current_branch name rs =
     (if \<not> valid_branch_name name then Inl (InvalidBranchName name) else Inr (rs\<lparr>rf_head := Some (name @ [newline])\<rparr>))"

definition current_branch :: "ref_store \<Rightarrow> string" where
  "current_branch rs = (case rf_head rs of
     None \<Rightarrow> ''main''
   | Some s \<Rightarrow> let line = takeWhile (\<lambda>c. c \<noteq> newline) s in if line = [] then ''main'' else line)"

section \<open>A reference reads back\<close>

definition branch_ref_ok :: "branch_ref \<Rightarrow> bool" where
  "branch_ref_ok ref \<longleftrightarrow> bf_branch ref \<noteq> 0 \<and> bf_head ref \<noteq> 0 \<and> bf_snapshot ref \<noteq> 0"

lemma read_key:
  "read_word (Some (''branch '' @ s)) = (''branch'', Some (CHR '' '' # s))"
  "read_word (Some (newline # ''commit '' @ s)) = (''commit'', Some (CHR '' '' # s))"
  "read_word (Some (newline # ''snapshot '' @ s)) = (''snapshot'', Some (CHR '' '' # s))"
  "read_word (Some (newline # ''epoch '' @ s)) = (''epoch'', Some (CHR '' '' # s))"
  "read_word (Some [newline]) = ([], None)"
  by (simp_all add: read_word_def is_space_def newline_def)

lemma read_value:
  "read_word (Some (CHR '' '' # to_hex h @ newline # s)) = (to_hex h, Some (newline # s))"
  "read_u64 old (Some (CHR '' '' # dec_string (unat v) @ newline # s)) = (v, Some (newline # s))"
  using read_word_word [of "'' ''" "to_hex h" "newline # s"] to_hex_plain
    read_u64_number [of "'' ''" "newline # s" old v]
  by (simp_all add: is_space_def newline_def is_digit_def)

lemma read_ref_text:
  "read_ref (Some (ref_text ref)) start = Inr (start\<lparr>bf_branch := bf_branch ref, bf_head := bf_head ref, bf_snapshot := bf_snapshot ref,
     bf_epoch := bf_epoch ref\<rparr>)"
proof -
  have e: "ref_text ref = ''branch '' @ dec_string (unat (bf_branch ref)) @ newline # ''commit '' @ to_hex (bf_head ref) @ newline
      # ''snapshot '' @ to_hex (bf_snapshot ref) @ newline # ''epoch '' @ dec_string (unat (bf_epoch ref)) @ [newline]"
    by (simp add: ref_text_def)
  show ?thesis
    unfolding e
    by (subst read_ref.simps, simp only: read_key prod.case Let_def) (simp add: read_ref.simps read_key [simplified] read_value)
qed

text \<open>
  After an update the reference reads back, and a reference with another name reads as before unless it has the name
  of the temporary file of the updated one: that one is gone.
\<close>

lemma update_branch_ok:
  assumes "update_ref ref rs = Inr rs'" "om_inv (rf_files rs)"
  shows "valid_branch_name (bf_name ref)" "om_inv (rf_files rs')"
    "om_find (rf_files rs') n = (if n = bf_name ref then Some (ref_text ref) else if n = bf_name ref @ ''.tmp'' then None
       else om_find (rf_files rs) n)"
    "rf_head rs' = rf_head rs"
  using assms by (auto simp: update_ref_def Let_def om_find_put om_find_erase om_inv_put om_inv_erase split: if_splits)

lemma update_then_read:
  assumes "update_ref ref rs = Inr rs'" "om_inv (rf_files rs)" "branch_ref_ok ref"
  shows "read_branch (bf_name ref) rs' = Inr (Some ref)"
proof -
  note u = update_branch_ok [OF assms(1,2)]
  show ?thesis
    using u(1) u(3) [of "bf_name ref"] assms(3) by (simp add: read_branch_def read_ref_text branch_ref_ok_def)
qed

lemma update_keeps_others:
  assumes "update_ref ref rs = Inr rs'" "om_inv (rf_files rs)" "n \<noteq> bf_name ref" "n \<noteq> bf_name ref @ ''.tmp''"
    and "om_contains (rf_files rs) n"
  shows "read_branch n rs' = read_branch n rs"
  using update_branch_ok(3) [OF assms(1,2), of n] assms(3-5) by (auto simp: read_branch_def om_contains_def split: option.splits)

lemma update_loses_tmp:
  assumes "update_ref ref rs = Inr rs'" "om_inv (rf_files rs)"
  shows "om_find (rf_files rs') (bf_name ref @ ''.tmp'') = None"
  using update_branch_ok(3) [OF assms, of "bf_name ref @ ''.tmp''"] by simp

lemma set_current_then_current:
  assumes "set_current_branch n rs = Inr rs'" "newline \<notin> set n"
  shows "current_branch rs' = n"
proof -
  have "n \<noteq> []" "rf_head rs' = Some (n @ [newline])"
    using assms(1) by (auto simp: set_current_branch_def valid_branch_name_def split: if_splits)
  moreover have "takeWhile (\<lambda>c. c \<noteq> newline) (n @ [newline]) = n"
    using assms(2) by (simp add: takeWhile_tail takeWhile_append2) (auto simp: takeWhile_eq_all_conv)
  ultimately show ?thesis by (simp add: current_branch_def)
qed

end
