(* ===== verification/Event_Index.thy ===== *)
theory Event_Index
  imports Commit_Index World_Index "HOL-Library.Product_Lexorder"
begin

text \<open>
  The index of events and of touched objects (\<open>src/storage/event_index.cpp\<close>): for a branch and an event name, and
  for a branch and an object, the commits whose trace names them.  The lemma \<open>event_index_commit_ok\<close> says what
  indexing a commit adds: its id, once, under every name of its events and every object they touch.
\<close>

record event_name_entry =
  en_branch :: string
  en_event :: string
  en_commits :: "commit_id list"

record object_touch_entry =
  ot_branch :: string
  ot_object :: object_id
  ot_commits :: "commit_id list"

definition write_object_index :: "object_id \<Rightarrow> bytes" where
  "write_object_index i = index_u32 (oid_index i) @ index_u32 (oid_generation i)"

definition read_object_index :: "object_id decoder" where
  "read_object_index = rbind payload_u32 (\<lambda>i. rbind payload_u32 (\<lambda>g. rret (ObjectId i g)))"

definition sort_unique_commits :: "commit_id list \<Rightarrow> commit_id list" where
  "sort_unique_commits commits = remdups_adj (sort_by (\<lambda>l r. to_hex l < to_hex r) commits)"

definition event_touches_object :: "trace_event \<Rightarrow> object_snapshot \<Rightarrow> bool" where
  "event_touches_object event ob =
     list_ex (\<lambda>key. case om_find (ev_fields event) key of None \<Rightarrow> False
                    | Some v \<Rightarrow> v = os_name ob \<or> v = object_id_to_string (os_id ob))
       [''object'', ''from'', ''to'', ''id'']"

definition event_key :: "event_name_entry \<Rightarrow> string \<times> string" where
  "event_key e = (en_branch e, en_event e)"

definition touch_key :: "object_touch_entry \<Rightarrow> string \<times> u32 \<times> u32" where
  "touch_key t = (ot_branch t, object_key (ot_object t))"

definition sort_events :: "event_name_entry list \<Rightarrow> event_name_entry list" where
  "sort_events events =
     sort_by (\<lambda>l r. event_key l < event_key r) (map (\<lambda>e. e\<lparr>en_commits := sort_unique_commits (en_commits e)\<rparr>) events)"

definition sort_touches :: "object_touch_entry list \<Rightarrow> object_touch_entry list" where
  "sort_touches touches =
     sort_by (\<lambda>l r. touch_key l < touch_key r) (map (\<lambda>t. t\<lparr>ot_commits := sort_unique_commits (ot_commits t)\<rparr>) touches)"

definition write_event_entry :: "event_name_entry \<Rightarrow> bytes" where
  "write_event_entry e = index_string (en_branch e) @ index_string (en_event e) @ index_hashes (en_commits e)"

definition write_touch_entry :: "object_touch_entry \<Rightarrow> bytes" where
  "write_touch_entry t = index_string (ot_branch t) @ write_object_index (ot_object t) @ index_hashes (ot_commits t)"

definition read_event_entry :: "event_name_entry decoder" where
  "read_event_entry = rbind payload_string (\<lambda>branch. rbind payload_string (\<lambda>event. rbind payload_hashes (\<lambda>commits.
     rret \<lparr>en_branch = branch, en_event = event, en_commits = commits\<rparr>)))"

definition read_touch_entry :: "object_touch_entry decoder" where
  "read_touch_entry = rbind payload_string (\<lambda>branch. rbind read_object_index (\<lambda>ob. rbind payload_hashes (\<lambda>commits.
     rret \<lparr>ot_branch = branch, ot_object = ob, ot_commits = commits\<rparr>)))"

definition event_magic :: string where "event_magic = ''PVEVENTIDX1''"

text \<open>Both readers go through the whole payload; each keeps one of the two tables.\<close>

definition read_event_tables :: "(event_name_entry list \<times> object_touch_entry list) decoder" where
  "read_event_tables =
     rbind payload_u64 (\<lambda>n. rbind (rtimes (unat n) read_event_entry) (\<lambda>events.
     rbind payload_u64 (\<lambda>m. rbind (rtimes (unat m) read_touch_entry) (\<lambda>touches.
     rbind payload_end (\<lambda>_. rret (events, touches))))))"

definition event_tables :: "digest \<Rightarrow> index_file \<Rightarrow> index_error + event_name_entry list \<times> object_touch_entry list" where
  "event_tables H file =
     (if file = None then Inr ([], [])
      else res_bind (index_read_payload H event_magic file) (\<lambda>payload.
        case read_event_tables payload of Inl e \<Rightarrow> Inl (IndexPayload e) | Inr (tables, _) \<Rightarrow> Inr tables))"

definition event_name_entries :: "digest \<Rightarrow> index_file \<Rightarrow> index_error + event_name_entry list" where
  "event_name_entries H file = res_bind (event_tables H file) (\<lambda>tables. Inr (fst tables))"

definition touch_entries :: "digest \<Rightarrow> index_file \<Rightarrow> index_error + object_touch_entry list" where
  "touch_entries H file = res_bind (event_tables H file) (\<lambda>tables. Inr (snd tables))"

definition event_commits :: "string \<Rightarrow> string \<Rightarrow> event_name_entry list \<Rightarrow> commit_id list" where
  "event_commits branch event events =
     (case entry_find event_key (branch, event) events of Some e \<Rightarrow> en_commits e | None \<Rightarrow> [])"

definition touch_commits :: "string \<Rightarrow> object_id \<Rightarrow> object_touch_entry list \<Rightarrow> commit_id list" where
  "touch_commits branch ob touches =
     (case entry_find touch_key (branch, object_key ob) touches of Some t \<Rightarrow> ot_commits t | None \<Rightarrow> [])"

definition commits_for_event :: "digest \<Rightarrow> string \<Rightarrow> string \<Rightarrow> index_file \<Rightarrow> index_error + commit_id list" where
  "commits_for_event H branch event file = res_bind (event_name_entries H file) (\<lambda>events. Inr (event_commits branch event events))"

definition commits_touching_object :: "digest \<Rightarrow> string \<Rightarrow> object_id \<Rightarrow> index_file \<Rightarrow> index_error + commit_id list" where
  "commits_touching_object H branch ob file = res_bind (touch_entries H file) (\<lambda>touches. Inr (touch_commits branch ob touches))"

definition event_index_stats :: "digest \<Rightarrow> index_file \<Rightarrow> index_error + nat \<times> nat" where
  "event_index_stats H file =
     res_bind (event_name_entries H file) (\<lambda>events. res_bind (touch_entries H file) (\<lambda>touches. Inr (length events, length touches)))"

definition event_payload :: "event_name_entry list \<Rightarrow> object_touch_entry list \<Rightarrow> bytes" where
  "event_payload events touches = index_payload write_event_entry events @ index_payload write_touch_entry touches"

definition event_index_write ::
  "digest \<Rightarrow> event_name_entry list \<Rightarrow> object_touch_entry list \<Rightarrow> index_file \<Rightarrow> index_file" where
  "event_index_write H events touches file =
     index_write_payload H event_magic
       (event_payload (unique_by event_key (sort_events events)) (unique_by touch_key (sort_touches touches))) file"

definition push_event_name :: "string \<Rightarrow> commit_id \<Rightarrow> string \<Rightarrow> event_name_entry list \<Rightarrow> event_name_entry list" where
  "push_event_name branch commit event events =
     (case entry_find event_key (branch, event) events of
        None \<Rightarrow> events @ [\<lparr>en_branch = branch, en_event = event, en_commits = [commit]\<rparr>]
      | Some e \<Rightarrow> entry_put event_key (e\<lparr>en_commits := en_commits e @ [commit]\<rparr>) events)"

definition push_touch :: "string \<Rightarrow> commit_id \<Rightarrow> object_id \<Rightarrow> object_touch_entry list \<Rightarrow> object_touch_entry list" where
  "push_touch branch commit ob touches =
     (case entry_find touch_key (branch, object_key ob) touches of
        None \<Rightarrow> touches @ [\<lparr>ot_branch = branch, ot_object = ob, ot_commits = [commit]\<rparr>]
      | Some t \<Rightarrow> entry_put touch_key (t\<lparr>ot_commits := ot_commits t @ [commit]\<rparr>) touches)"

text \<open>The sets of names and of objects already seen are kept as lists.\<close>

definition index_touch_step ::
  "string \<Rightarrow> commit_id \<Rightarrow> trace_event \<Rightarrow> object_touch_entry list \<times> object_id list \<Rightarrow> object_snapshot
     \<Rightarrow> object_touch_entry list \<times> object_id list" where
  "index_touch_step branch commit event = (\<lambda>(touches, seen) ob.
     if \<not> event_touches_object event ob then (touches, seen)
     else if os_id ob \<in> set seen then (touches, seen)
     else (push_touch branch commit (os_id ob) touches, os_id ob # seen))"

definition index_name_step ::
  "string \<Rightarrow> commit_id \<Rightarrow> event_name_entry list \<times> string list \<Rightarrow> trace_event \<Rightarrow> event_name_entry list \<times> string list" where
  "index_name_step branch commit = (\<lambda>(events, names) event.
     if ev_event event \<in> set names then (events, names)
     else (push_event_name branch commit (ev_event event) events, ev_event event # names))"

definition index_event_step ::
  "string \<Rightarrow> commit_id \<Rightarrow> object_snapshot list
     \<Rightarrow> (event_name_entry list \<times> string list) \<times> (object_touch_entry list \<times> object_id list) \<Rightarrow> trace_event
     \<Rightarrow> (event_name_entry list \<times> string list) \<times> (object_touch_entry list \<times> object_id list)" where
  "index_event_step branch commit objects = (\<lambda>(names, touches) event.
     (index_name_step branch commit names event, foldl (index_touch_step branch commit event) touches objects))"

definition index_record ::
  "string \<Rightarrow> commit_record \<Rightarrow> world_snapshot \<Rightarrow> event_name_entry list \<times> object_touch_entry list
     \<Rightarrow> event_name_entry list \<times> object_touch_entry list" where
  "index_record branch r after tables =
     (let ((events, _), (touches, _)) =
        foldl (index_event_step branch (cr_id r) (sn_objects after)) ((fst tables, []), (snd tables, [])) (cr_events r)
      in (events, touches))"

definition event_index_commit ::
  "digest \<Rightarrow> string \<Rightarrow> commit_record \<Rightarrow> world_snapshot \<Rightarrow> index_file \<Rightarrow> index_error + index_file" where
  "event_index_commit H branch r after file =
     res_bind (event_name_entries H file) (\<lambda>events. res_bind (touch_entries H file) (\<lambda>touches.
       let (events, touches) = index_record branch r after (events, touches)
       in Inr (event_index_write H events touches file)))"

section \<open>What a commit adds to the tables\<close>

lemma event_commits_push:
  "event_commits b n (push_event_name branch commit event events)
   = event_commits b n events @ (if b = branch \<and> n = event then [commit] else [])"
proof (cases "entry_find event_key (branch, event) events")
  case None
  then show ?thesis by (auto simp: push_event_name_def event_commits_def entry_find_append split: option.splits)
      (auto simp: entry_find_def event_key_def)
next
  case (Some e)
  then have "event_key e = (branch, event)" by (auto simp: entry_find_def find_Some_iff)
  with Some show ?thesis by (auto simp: push_event_name_def event_commits_def entry_find_put event_key_def)
qed

lemma touch_commits_push:
  "touch_commits b i (push_touch branch commit ob touches)
   = touch_commits b i touches @ (if b = branch \<and> i = ob then [commit] else [])"
proof (cases "entry_find touch_key (branch, object_key ob) touches")
  case None
  then show ?thesis by (auto simp: push_touch_def touch_commits_def entry_find_append split: option.splits)
      (auto simp: entry_find_def touch_key_def)
next
  case (Some t)
  then have "touch_key t = (branch, object_key ob)" by (auto simp: entry_find_def find_Some_iff)
  with Some show ?thesis
    by (auto simp: push_touch_def touch_commits_def entry_find_put touch_key_def)
qed

lemma distinct_push_event: "distinct (map event_key events) \<Longrightarrow> distinct (map event_key (push_event_name branch commit event events))"
  by (auto simp: push_event_name_def distinct_entry_put entry_find_def find_None_iff event_key_def split: option.splits)

lemma distinct_push_touch: "distinct (map touch_key touches) \<Longrightarrow> distinct (map touch_key (push_touch branch commit ob touches))"
  by (auto simp: push_touch_def distinct_entry_put entry_find_def find_None_iff touch_key_def split: option.splits)

lemma index_names_fold:
  assumes "distinct (map event_key events)"
  shows "distinct (map event_key (fst (foldl (index_name_step branch commit) (events, names) evs)))"
    and "event_commits b n (fst (foldl (index_name_step branch commit) (events, names) evs))
      = event_commits b n events @ (if b = branch \<and> n \<notin> set names \<and> n \<in> ev_event ` set evs then [commit] else [])"
  using assms
  by (induction evs arbitrary: events names) (auto simp: index_name_step_def distinct_push_event event_commits_push)

text \<open>The objects the events touch, each once, in the order the loops meet them.\<close>

lemma index_touches_fold:
  assumes "distinct (map touch_key touches)"
  shows "distinct (map touch_key (fst (foldl (index_touch_step branch commit event) (touches, seen) obs)))"
    and "set (snd (foldl (index_touch_step branch commit event) (touches, seen) obs))
      = set seen \<union> os_id ` {ob \<in> set obs. event_touches_object event ob}"
    and "touch_commits b i (fst (foldl (index_touch_step branch commit event) (touches, seen) obs))
      = touch_commits b i touches
        @ (if b = branch \<and> i \<notin> set seen \<and> i \<in> os_id ` {ob \<in> set obs. event_touches_object event ob} then [commit] else [])"
  using assms
  by (induction obs arbitrary: touches seen) (auto simp: index_touch_step_def distinct_push_touch touch_commits_push)

definition touched :: "trace_event list \<Rightarrow> object_snapshot list \<Rightarrow> object_id set" where
  "touched evs obs = os_id ` {ob \<in> set obs. \<exists>event \<in> set evs. event_touches_object event ob}"

lemma index_events_fold:
  assumes "distinct (map touch_key touches)"
  shows "distinct (map touch_key (fst (foldl (\<lambda>t event. foldl (index_touch_step branch commit event) t obs) (touches, seen) evs)))"
    and "touch_commits b i (fst (foldl (\<lambda>t event. foldl (index_touch_step branch commit event) t obs) (touches, seen) evs))
      = touch_commits b i touches @ (if b = branch \<and> i \<notin> set seen \<and> i \<in> touched evs obs then [commit] else [])"
proof -
  have "distinct (map touch_key (fst (foldl (\<lambda>t event. foldl (index_touch_step branch commit event) t obs) (touches, seen) evs)))
    \<and> touch_commits b i (fst (foldl (\<lambda>t event. foldl (index_touch_step branch commit event) t obs) (touches, seen) evs))
      = touch_commits b i touches @ (if b = branch \<and> i \<notin> set seen \<and> i \<in> touched evs obs then [commit] else [])"
    using assms
  proof (induction evs arbitrary: touches seen)
    case (Cons event evs)
    let ?t = "foldl (index_touch_step branch commit event) (touches, seen) obs"
    note one = index_touches_fold [OF Cons.prems, where branch = branch and commit = commit and event = event and seen = seen and obs = obs]
    have "touched (event # evs) obs = os_id ` {ob \<in> set obs. event_touches_object event ob} \<union> touched evs obs"
      by (auto simp: touched_def)
    then show ?case
      using Cons.IH [of "fst ?t" "snd ?t"] one(1) by (auto simp: one(2,3))
  qed (auto simp: touched_def)
  then show "distinct (map touch_key (fst (foldl (\<lambda>t event. foldl (index_touch_step branch commit event) t obs) (touches, seen) evs)))"
    and "touch_commits b i (fst (foldl (\<lambda>t event. foldl (index_touch_step branch commit event) t obs) (touches, seen) evs))
      = touch_commits b i touches @ (if b = branch \<and> i \<notin> set seen \<and> i \<in> touched evs obs then [commit] else [])" by auto
qed

lemma index_event_fold:
  "foldl (index_event_step branch commit objects) (names, touches) evs
   = (foldl (index_name_step branch commit) names evs,
      foldl (\<lambda>t event. foldl (index_touch_step branch commit event) t objects) touches evs)"
  by (induction evs arbitrary: names touches) (simp_all add: index_event_step_def)

definition tables_ok :: "event_name_entry list \<times> object_touch_entry list \<Rightarrow> bool" where
  "tables_ok tables \<longleftrightarrow> distinct (map event_key (fst tables)) \<and> distinct (map touch_key (snd tables))"

lemma index_record_ok:
  assumes "tables_ok tables"
  shows "tables_ok (index_record branch r after tables)"
    and "event_commits b n (fst (index_record branch r after tables))
      = event_commits b n (fst tables) @ (if b = branch \<and> n \<in> ev_event ` set (cr_events r) then [cr_id r] else [])"
    and "touch_commits b i (snd (index_record branch r after tables))
      = touch_commits b i (snd tables) @ (if b = branch \<and> i \<in> touched (cr_events r) (sn_objects after) then [cr_id r] else [])"
proof -
  have d: "distinct (map event_key (fst tables))" "distinct (map touch_key (snd tables))"
    using assms by (simp_all add: tables_ok_def)
  note names = index_names_fold [OF d(1), where branch = branch and commit = "cr_id r" and names = "[]" and evs = "cr_events r"]
  note touches = index_events_fold [OF d(2), where branch = branch and commit = "cr_id r" and obs = "sn_objects after" and seen = "[]"
      and evs = "cr_events r"]
  have e: "index_record branch r after tables
      = (fst (foldl (index_name_step branch (cr_id r)) (fst tables, []) (cr_events r)),
         fst (foldl (\<lambda>t event. foldl (index_touch_step branch (cr_id r) event) t (sn_objects after)) (snd tables, []) (cr_events r)))"
    by (simp add: index_record_def index_event_fold split: prod.split)
  show "tables_ok (index_record branch r after tables)" using names(1) touches(1) by (simp add: e tables_ok_def)
  show "event_commits b n (fst (index_record branch r after tables))
      = event_commits b n (fst tables) @ (if b = branch \<and> n \<in> ev_event ` set (cr_events r) then [cr_id r] else [])"
    using names(2) by (simp add: e)
  show "touch_commits b i (snd (index_record branch r after tables))
      = touch_commits b i (snd tables) @ (if b = branch \<and> i \<in> touched (cr_events r) (sn_objects after) then [cr_id r] else [])"
    using touches(2) by (simp add: e)
qed

section \<open>Writing the tables and reading them back\<close>

lemma set_sort_unique_commits [simp]: "set (sort_unique_commits commits) = set commits"
  by (simp add: sort_unique_commits_def)

lemma sorted_table_find:
  assumes "distinct (map ident es)" "\<And>e. ident (f e) = ident e"
  shows "entry_find ident i (unique_by ident (sort_by lt (map f es))) = map_option f (entry_find ident i es)"
    "distinct (map ident (unique_by ident (sort_by lt (map f es))))"
proof -
  have d: "distinct (map ident (map f es))" using assms by (simp add: comp_def)
  have "mset (map ident (sort_by lt (map f es))) = mset (map ident (map f es))" by (simp only: mset_map mset_sort_by)
  with d have s: "distinct (map ident (sort_by lt (map f es)))" by (metis mset_eq_imp_distinct_iff)
  then show "distinct (map ident (unique_by ident (sort_by lt (map f es))))" by (simp add: unique_by_distinct)
  show "entry_find ident i (unique_by ident (sort_by lt (map f es))) = map_option f (entry_find ident i es)"
    using entry_find_cong [OF s d] by (simp add: unique_by_distinct [OF s] entry_find_map assms(2))
qed

definition sorted_tables :: "event_name_entry list \<times> object_touch_entry list \<Rightarrow> event_name_entry list \<times> object_touch_entry list" where
  "sorted_tables tables = (unique_by event_key (sort_events (fst tables)), unique_by touch_key (sort_touches (snd tables)))"

lemma sorted_tables_ok:
  assumes "tables_ok tables"
  shows "tables_ok (sorted_tables tables)"
    and "event_commits b n (fst (sorted_tables tables)) = sort_unique_commits (event_commits b n (fst tables))"
    and "touch_commits b i (snd (sorted_tables tables)) = sort_unique_commits (touch_commits b i (snd tables))"
  using assms sorted_table_find [of event_key "fst tables" "\<lambda>e. e\<lparr>en_commits := sort_unique_commits (en_commits e)\<rparr>"]
    sorted_table_find [of touch_key "snd tables" "\<lambda>t. t\<lparr>ot_commits := sort_unique_commits (ot_commits t)\<rparr>"]
  by (auto simp: tables_ok_def sorted_tables_def sort_events_def sort_touches_def event_commits_def touch_commits_def
      event_key_def touch_key_def sort_unique_commits_def split: option.splits)

lemma length_index_strings [simp]:
  "length (index_string s) = 8 + length s" "length (index_hashes hs) = 8 + 32 * length hs" "length (index_u32 v) = 4"
  by (simp_all add: index_string_def index_hashes_def index_u64_def index_u32_def index_hash_def length_concat comp_def sum_list_triv)

lemma read_event_write:
  "length (write_event_entry e) < 2 ^ 64 \<Longrightarrow> read_event_entry (write_event_entry e @ rest) = Inr (e, rest)"
  by (simp add: read_event_entry_def write_event_entry_def rbind_def index_codec size_ok_def)

lemma read_touch_write:
  "length (write_touch_entry t) < 2 ^ 64 \<Longrightarrow> read_touch_entry (write_touch_entry t @ rest) = Inr (t, rest)"
  by (simp add: read_touch_entry_def write_touch_entry_def read_object_index_def write_object_index_def rbind_def index_codec
      size_ok_def)

lemma payload_fits:
  assumes "length (index_payload enc es) < 2 ^ 64" "\<And>e. 0 < length (enc e)"
  shows "size_ok es" "e \<in> set es \<Longrightarrow> length (enc e) < 2 ^ 64"
proof -
  have t: "length (index_payload enc es) = 8 + (\<Sum>e\<leftarrow>es. length (enc e))"
    by (simp add: index_payload_def index_u64_def length_concat comp_def)
  have "length es \<le> (\<Sum>e\<leftarrow>es. length (enc e))"
  proof (induction es)
    case (Cons e es)
    with assms(2) [of e] show ?case by (cases "enc e") simp_all
  qed simp
  with t assms(1) show "size_ok es" by (simp add: size_ok_def)
  assume "e \<in> set es"
  then have "length (enc e) \<le> (\<Sum>e\<leftarrow>es. length (enc e))" by (simp add: member_le_sum_list)
  with t assms(1) show "length (enc e) < 2 ^ 64" by simp
qed

lemma payload_table:
  assumes "length (index_payload enc es) < 2 ^ 64" "\<And>e. 0 < length (enc e)"
    and "\<And>e rest. length (enc e) < 2 ^ 64 \<Longrightarrow> dec (enc e @ rest) = Inr (e, rest)"
  shows "rbind payload_u64 (\<lambda>n. rbind (rtimes (unat n) dec) f) (index_payload enc es @ rest) = f es rest"
proof -
  have "rtimes (length es) dec (concat (map enc es) @ rest) = Inr (map (\<lambda>e. e) es, rest)"
    by (rule rtimes_roundtrip) (use payload_fits [OF assms(1,2)] assms(3) in blast)
  then show ?thesis
    using payload_fits(1) [OF assms(1,2)] by (simp add: index_payload_def payload_u64_bind unat_length) (simp add: rbind_def)
qed

definition event_file :: "digest \<Rightarrow> event_name_entry list \<times> object_touch_entry list \<Rightarrow> index_file" where
  "event_file H tables = Some (index_payload_file H event_magic (event_payload (fst tables) (snd tables)))"

lemma event_tables_file:
  assumes "length (event_payload (fst tables) (snd tables)) < 2 ^ 64"
  shows "event_tables H (event_file H tables) = Inr tables"
proof -
  let ?e = "index_payload write_event_entry (fst tables)" let ?t = "index_payload write_touch_entry (snd tables)"
  have l: "length ?e < 2 ^ 64" "length ?t < 2 ^ 64" using assms by (simp_all add: event_payload_def)
  have some: "0 < length (write_event_entry e)" "0 < length (write_touch_entry t)" for e t
    by (simp_all add: write_event_entry_def write_touch_entry_def)
  have "read_event_tables (?e @ ?t @ []) = Inr (tables, [])"
    unfolding read_event_tables_def
    by (subst payload_table [OF l(1) some(1) read_event_write], assumption, subst payload_table [OF l(2) some(2) read_touch_write], assumption)
       (simp add: rbind_def payload_end_def)
  with assms show ?thesis
    by (simp add: event_tables_def event_file_def index_read_write size_ok_def) (simp add: event_payload_def)
qed

definition event_held :: "digest \<Rightarrow> event_name_entry list \<times> object_touch_entry list \<Rightarrow> index_file \<Rightarrow> bool" where
  "event_held H tables file \<longleftrightarrow> tables_ok tables \<and> event_tables H file = Inr tables"

lemma event_held_empty: "event_held H ([], []) None"
  by (simp add: event_held_def tables_ok_def event_tables_def)

text \<open>
  Indexing a commit adds its id to the commits of every name among its events and of every object of the new world its
  events touch, on its branch only; each answer stays sorted and without repetitions.
\<close>

lemma event_index_commit_ok:
  fixes tables' defines "tables' tables r branch after \<equiv> sorted_tables (index_record branch r after tables)"
  assumes held: "event_held H tables file"
    and fits: "length (event_payload (fst (tables' tables r branch after)) (snd (tables' tables r branch after))) < 2 ^ 64"
  shows "event_index_commit H branch r after file = Inr (event_file H (tables' tables r branch after))"
    and "event_held H (tables' tables r branch after) (event_file H (tables' tables r branch after))"
    and "commits_for_event H b n (event_file H (tables' tables r branch after))
      = Inr (sort_unique_commits (event_commits b n (fst tables)
          @ (if b = branch \<and> n \<in> ev_event ` set (cr_events r) then [cr_id r] else [])))"
    and "commits_touching_object H b i (event_file H (tables' tables r branch after))
      = Inr (sort_unique_commits (touch_commits b i (snd tables)
          @ (if b = branch \<and> i \<in> touched (cr_events r) (sn_objects after) then [cr_id r] else [])))"
proof -
  let ?T = "index_record branch r after tables"
  have ok: "tables_ok tables" and tables: "event_tables H file = Inr tables" using held by (simp_all add: event_held_def)
  note new = index_record_ok [OF ok, where branch = branch and r = r and after = after]
  note srt = sorted_tables_ok [OF new(1)]
  note read = event_tables_file [OF fits, of H]
  show "event_index_commit H branch r after file = Inr (event_file H (tables' tables r branch after))"
    by (simp add: event_index_commit_def event_name_entries_def touch_entries_def tables event_index_write_def index_write_payload_def
        event_file_def tables'_def sorted_tables_def split: prod.split)
  show "event_held H (tables' tables r branch after) (event_file H (tables' tables r branch after))"
    using read srt(1) by (simp add: event_held_def tables'_def)
  show "commits_for_event H b n (event_file H (tables' tables r branch after))
      = Inr (sort_unique_commits (event_commits b n (fst tables)
          @ (if b = branch \<and> n \<in> ev_event ` set (cr_events r) then [cr_id r] else [])))"
    using srt(2) new(2) by (simp add: commits_for_event_def event_name_entries_def read) (simp add: tables'_def)
  show "commits_touching_object H b i (event_file H (tables' tables r branch after))
      = Inr (sort_unique_commits (touch_commits b i (snd tables)
          @ (if b = branch \<and> i \<in> touched (cr_events r) (sn_objects after) then [cr_id r] else [])))"
    using srt(3) new(3) by (simp add: commits_touching_object_def touch_entries_def read) (simp add: tables'_def)
qed

end
