(* ===== verification/Graph_Index.thy ===== *)
theory Graph_Index
  imports Event_Index Floats Execution_Plan
begin

text \<open>
  The stored world indexes (\<open>src/storage/world_index_store.cpp\<close>): for each branch, the names, types and relations of
  the world at its head; for each commit, these, the active pointers and the adjacency of every object.  Both are
  keyed indexes whose entries are put in order before they are written.  The lemmas show that what a query finds is
  what the world index of the snapshot (\<open>World_Index\<close>) answers.
\<close>

section \<open>Entries\<close>

record object_name_entry =
  on_name :: string
  on_object :: object_id

record type_entry =
  te_type :: string
  te_objects :: "object_id list"

record relation_entry =
  re_relation :: string
  re_pointers :: "pointer_id list"

record world_branch_entry =
  wb_branch :: string
  wb_snapshot :: hash256
  wb_names :: "object_name_entry list"
  wb_types :: "type_entry list"
  wb_relations :: "relation_entry list"

record graph_pointer_entry =
  gp_pointer :: pointer_id
  gp_from :: object_id
  gp_to :: object_id
  gp_relation :: string
  gp_weight :: u64

record adjacency_entry =
  ad_object :: object_id
  ad_outgoing :: "pointer_id list"
  ad_incoming :: "pointer_id list"

record world_graph_entry =
  wg_commit :: commit_id
  wg_snapshot :: hash256
  wg_names :: "object_name_entry list"
  wg_types :: "type_entry list"
  wg_relations :: "relation_entry list"
  wg_pointers :: "graph_pointer_entry list"
  wg_adjacency :: "adjacency_entry list"

record world_index_store =
  ws_objects :: index_file
  ws_relations :: index_file
  ws_graph :: index_file

section \<open>Order inside an entry\<close>

definition sort_pointer_ids :: "pointer_id list \<Rightarrow> pointer_id list" where
  "sort_pointer_ids pointers = remdups_adj (sort_by (<) pointers)"

definition sort_entry :: "world_branch_entry \<Rightarrow> world_branch_entry" where
  "sort_entry e = e\<lparr>wb_names := sort_by (\<lambda>l r. on_name l < on_name r) (wb_names e),
                    wb_types := sort_by (\<lambda>l r. te_type l < te_type r) (wb_types e),
                    wb_relations := sort_by (\<lambda>l r. re_relation l < re_relation r) (wb_relations e)\<rparr>"

definition sort_adjacency :: "adjacency_entry \<Rightarrow> adjacency_entry" where
  "sort_adjacency a = a\<lparr>ad_outgoing := sort_pointer_ids (ad_outgoing a), ad_incoming := sort_pointer_ids (ad_incoming a)\<rparr>"

definition sort_graph_entry :: "world_graph_entry \<Rightarrow> world_graph_entry" where
  "sort_graph_entry e = e\<lparr>wg_names := sort_by (\<lambda>l r. on_name l < on_name r) (wg_names e),
                          wg_types := sort_by (\<lambda>l r. te_type l < te_type r) (wg_types e),
                          wg_relations := sort_by (\<lambda>l r. re_relation l < re_relation r) (wg_relations e),
                          wg_pointers := sort_by (\<lambda>l r. gp_pointer l < gp_pointer r) (wg_pointers e),
                          wg_adjacency := sort_by (\<lambda>l r. ad_object l < ad_object r) (map sort_adjacency (wg_adjacency e))\<rparr>"

section \<open>Bytes\<close>

definition payload_list :: "'a decoder \<Rightarrow> 'a list decoder" where
  "payload_list dec = rbind payload_u64 (\<lambda>n. rtimes (unat n) dec)"

definition write_name_entry :: "object_name_entry \<Rightarrow> bytes" where
  "write_name_entry n = index_string (on_name n) @ write_object_index (on_object n)"

definition write_type_entry :: "type_entry \<Rightarrow> bytes" where
  "write_type_entry t = index_string (te_type t) @ index_payload write_object_index (te_objects t)"

definition write_relation_entry :: "relation_entry \<Rightarrow> bytes" where
  "write_relation_entry r = index_string (re_relation r) @ index_payload index_u64 (re_pointers r)"

definition write_graph_pointer :: "graph_pointer_entry \<Rightarrow> bytes" where
  "write_graph_pointer p = index_u64 (gp_pointer p) @ write_object_index (gp_from p) @ write_object_index (gp_to p)
     @ index_string (gp_relation p) @ index_u64 (gp_weight p)"

definition write_adjacency :: "adjacency_entry \<Rightarrow> bytes" where
  "write_adjacency a = write_object_index (ad_object a) @ index_payload index_u64 (ad_outgoing a)
     @ index_payload index_u64 (ad_incoming a)"

definition write_world_branch :: "world_branch_entry \<Rightarrow> bytes" where
  "write_world_branch e = index_string (wb_branch e) @ index_hash (wb_snapshot e)
     @ index_payload write_name_entry (wb_names e) @ index_payload write_type_entry (wb_types e)
     @ index_payload write_relation_entry (wb_relations e)"

definition write_world_graph :: "world_graph_entry \<Rightarrow> bytes" where
  "write_world_graph e = index_hash (wg_commit e) @ index_hash (wg_snapshot e)
     @ index_payload write_name_entry (wg_names e) @ index_payload write_type_entry (wg_types e)
     @ index_payload write_relation_entry (wg_relations e) @ index_payload write_graph_pointer (wg_pointers e)
     @ index_payload write_adjacency (wg_adjacency e)"

definition read_name_entry :: "object_name_entry decoder" where
  "read_name_entry = rbind payload_string (\<lambda>name. rbind read_object_index (\<lambda>ob. rret \<lparr>on_name = name, on_object = ob\<rparr>))"

definition read_type_entry :: "type_entry decoder" where
  "read_type_entry = rbind payload_string (\<lambda>t. rbind (payload_list read_object_index) (\<lambda>objects.
     rret \<lparr>te_type = t, te_objects = objects\<rparr>))"

definition read_relation_entry :: "relation_entry decoder" where
  "read_relation_entry = rbind payload_string (\<lambda>r. rbind (payload_list payload_u64) (\<lambda>pointers.
     rret \<lparr>re_relation = r, re_pointers = pointers\<rparr>))"

definition read_graph_pointer :: "graph_pointer_entry decoder" where
  "read_graph_pointer = rbind payload_u64 (\<lambda>p. rbind read_object_index (\<lambda>source. rbind read_object_index (\<lambda>to.
     rbind payload_string (\<lambda>relation. rbind payload_u64 (\<lambda>weight.
     rret \<lparr>gp_pointer = p, gp_from = source, gp_to = to, gp_relation = relation, gp_weight = weight\<rparr>)))))"

definition read_adjacency :: "adjacency_entry decoder" where
  "read_adjacency = rbind read_object_index (\<lambda>ob. rbind (payload_list payload_u64) (\<lambda>outgoing.
     rbind (payload_list payload_u64) (\<lambda>incoming.
     rret \<lparr>ad_object = ob, ad_outgoing = outgoing, ad_incoming = incoming\<rparr>)))"

definition read_world_branch :: "world_branch_entry decoder" where
  "read_world_branch = rbind payload_string (\<lambda>branch. rbind payload_digest (\<lambda>snapshot.
     rbind (payload_list read_name_entry) (\<lambda>names. rbind (payload_list read_type_entry) (\<lambda>types.
     rbind (payload_list read_relation_entry) (\<lambda>relations.
     rret \<lparr>wb_branch = branch, wb_snapshot = snapshot, wb_names = names, wb_types = types, wb_relations = relations\<rparr>)))))"

definition read_world_graph :: "world_graph_entry decoder" where
  "read_world_graph = rbind payload_digest (\<lambda>commit. rbind payload_digest (\<lambda>snapshot.
     rbind (payload_list read_name_entry) (\<lambda>names. rbind (payload_list read_type_entry) (\<lambda>types.
     rbind (payload_list read_relation_entry) (\<lambda>relations. rbind (payload_list read_graph_pointer) (\<lambda>pointers.
     rbind (payload_list read_adjacency) (\<lambda>adjacency.
     rret \<lparr>wg_commit = commit, wg_snapshot = snapshot, wg_names = names, wg_types = types, wg_relations = relations,
           wg_pointers = pointers, wg_adjacency = adjacency\<rparr>)))))))"

section \<open>The store\<close>

definition objects_magic :: string where "objects_magic = ''PVWORLDIDX1''"
definition relations_magic :: string where "relations_magic = ''PVRELIDX1''"
definition graph_magic :: string where "graph_magic = ''PVGRAPHIDX1''"

definition world_entries :: "digest \<Rightarrow> world_index_store \<Rightarrow> index_error + world_branch_entry list" where
  "world_entries H st = keyed_entries H objects_magic read_world_branch (ws_objects st)"

definition graph_entries :: "digest \<Rightarrow> world_index_store \<Rightarrow> index_error + world_graph_entry list" where
  "graph_entries H st = keyed_entries H graph_magic read_world_graph (ws_graph st)"

definition find_world_branch :: "digest \<Rightarrow> string \<Rightarrow> world_index_store \<Rightarrow> index_error + world_branch_entry option" where
  "find_world_branch H branch st = res_bind (world_entries H st) (\<lambda>all. Inr (entry_find wb_branch branch all))"

definition find_world_commit :: "digest \<Rightarrow> commit_id \<Rightarrow> world_index_store \<Rightarrow> index_error + world_graph_entry option" where
  "find_world_commit H commit st = res_bind (graph_entries H st) (\<lambda>all. Inr (entry_find wg_commit commit all))"

definition types_find :: "string \<Rightarrow> type_entry list \<Rightarrow> object_id list" where
  "types_find t types = (case List.find (\<lambda>e. te_type e = t) types of Some e \<Rightarrow> te_objects e | None \<Rightarrow> [])"

definition names_find :: "string \<Rightarrow> object_name_entry list \<Rightarrow> object_id option" where
  "names_find n names = map_option on_object (List.find (\<lambda>e. on_name e = n) names)"

definition relations_find :: "string \<Rightarrow> relation_entry list \<Rightarrow> pointer_id list" where
  "relations_find r relations = (case List.find (\<lambda>e. re_relation e = r) relations of Some e \<Rightarrow> re_pointers e | None \<Rightarrow> [])"

definition stored_objects_by_type ::
  "digest \<Rightarrow> string \<Rightarrow> string \<Rightarrow> world_index_store \<Rightarrow> index_error + object_id list" where
  "stored_objects_by_type H branch t st = res_bind (find_world_branch H branch st) (\<lambda>entry.
     Inr (case entry of None \<Rightarrow> [] | Some e \<Rightarrow> types_find t (wb_types e)))"

definition stored_object_by_name ::
  "digest \<Rightarrow> string \<Rightarrow> string \<Rightarrow> world_index_store \<Rightarrow> index_error + object_id option" where
  "stored_object_by_name H branch n st = res_bind (find_world_branch H branch st) (\<lambda>entry.
     Inr (case entry of None \<Rightarrow> None | Some e \<Rightarrow> names_find n (wb_names e)))"

definition stored_links_by_relation ::
  "digest \<Rightarrow> string \<Rightarrow> string \<Rightarrow> world_index_store \<Rightarrow> index_error + pointer_id list" where
  "stored_links_by_relation H branch r st = res_bind (find_world_branch H branch st) (\<lambda>entry.
     Inr (case entry of None \<Rightarrow> [] | Some e \<Rightarrow> relations_find r (wb_relations e)))"

record world_index_stats =
  wis_branches :: nat
  wis_names :: nat
  wis_types :: nat
  wis_relations :: nat

definition stored_index_stats :: "digest \<Rightarrow> world_index_store \<Rightarrow> index_error + world_index_stats" where
  "stored_index_stats H st = res_bind (world_entries H st) (\<lambda>all. Inr (fold (\<lambda>e stats.
     stats\<lparr>wis_branches := wis_branches stats + 1, wis_names := wis_names stats + length (wb_names e),
           wis_types := wis_types stats + length (wb_types e), wis_relations := wis_relations stats + length (wb_relations e)\<rparr>)
     all \<lparr>wis_branches = 0, wis_names = 0, wis_types = 0, wis_relations = 0\<rparr>))"

text \<open>The two files of branch entries are written with the same payload.\<close>

definition world_write :: "digest \<Rightarrow> world_branch_entry list \<Rightarrow> world_index_store \<Rightarrow> world_index_store" where
  "world_write H es st =
     st\<lparr>ws_objects := index_write H objects_magic write_world_branch wb_branch wb_branch sort_entry es (ws_objects st),
        ws_relations := index_write H relations_magic write_world_branch wb_branch wb_branch sort_entry es (ws_relations st)\<rparr>"

definition name_entries :: "world_snapshot \<Rightarrow> object_name_entry list" where
  "name_entries world = map (\<lambda>ob. \<lparr>on_name = os_name ob, on_object = os_id ob\<rparr>) (sn_objects world)"

definition type_entries :: "world_index \<Rightarrow> world_snapshot \<Rightarrow> type_entry list" where
  "type_entries ix world = concat (map (\<lambda>(i, name). let span = index_objects_by_type ix i
     in if span \<noteq> [] then [\<lparr>te_type = name, te_objects = span\<rparr>] else []) (sn_type_names world))"

definition relation_entries :: "world_index \<Rightarrow> world_snapshot \<Rightarrow> relation_entry list" where
  "relation_entries ix world = concat (map (\<lambda>(i, name). let span = index_relation ix i
     in if span \<noteq> [] then [\<lparr>re_relation = name, re_pointers = span\<rparr>] else []) (sn_relation_names world))"

definition world_branch_of :: "string \<Rightarrow> hash256 \<Rightarrow> world_snapshot \<Rightarrow> world_branch_entry" where
  "world_branch_of branch snapshot world =
     (let ix = index_rebuild world
      in \<lparr>wb_branch = branch, wb_snapshot = snapshot, wb_names = name_entries world, wb_types = type_entries ix world,
          wb_relations = relation_entries ix world\<rparr>)"

definition update_branch_index :: "digest \<Rightarrow> string \<Rightarrow> hash256 \<Rightarrow> world_snapshot \<Rightarrow> world_index_store \<Rightarrow> index_error + world_index_store" where
  "update_branch_index H branch snapshot world st =
     res_bind (world_entries H st) (\<lambda>all. Inr (world_write H (entry_put wb_branch (world_branch_of branch snapshot world) all) st))"

text \<open>
  \<open>weight * 1000000.0\<close> rounded to a double and then to the nearest integer, halves away from zero.  The bound is
  the double \<open>2 ^ 64 / 1000000\<close>; from half of it on the product exceeds what \<open>llround\<close> can return, and its result,
  which the standard leaves unspecified there, is the argument \<open>unspecified\<close>.
\<close>

definition weight_limit :: f64 where "weight_limit = 0x42b0c6f7a0b5ed8d"

definition llround_units :: "int \<Rightarrow> int" where
  "llround_units u = (if u < 0 then - ((- u + 2 ^ 1073) div 2 ^ 1074) else (u + 2 ^ 1073) div 2 ^ 1074)"

definition weight_scaled :: "u64 \<Rightarrow> f64 \<Rightarrow> u64" where
  "weight_scaled unspecified weight =
     (if \<not> f64_is_finite weight \<or> f64_rank weight \<le> 0 then 0
      else if \<not> f64_lt weight weight_limit then - 1
      else let rounded = llround_units (f64_units (f64_round (f64_units weight * 1000000)))
           in if rounded < 2 ^ 63 then word_of_int rounded else unspecified)"

definition graph_pointers :: "u64 \<Rightarrow> world_snapshot \<Rightarrow> graph_pointer_entry list" where
  "graph_pointers unspecified world = map (\<lambda>p.
     \<lparr>gp_pointer = ps_id p, gp_from = ps_from p, gp_to = ps_to p, gp_relation = snapshot_relation_name world (ps_relation p),
      gp_weight = weight_scaled unspecified (ps_weight p)\<rparr>)
     (filter (\<lambda>p. pointer_active_at p (sn_epoch world)) (sn_pointers world))"

definition world_graph_of :: "u64 \<Rightarrow> commit_id \<Rightarrow> hash256 \<Rightarrow> world_snapshot \<Rightarrow> world_graph_entry" where
  "world_graph_of unspecified commit snapshot world =
     (let ix = index_rebuild world
      in \<lparr>wg_commit = commit, wg_snapshot = snapshot, wg_names = name_entries world, wg_types = type_entries ix world,
          wg_relations = relation_entries ix world, wg_pointers = graph_pointers unspecified world,
          wg_adjacency = map (\<lambda>ob. \<lparr>ad_object = os_id ob, ad_outgoing = index_outgoing ix (os_id ob),
                                    ad_incoming = index_incoming ix (os_id ob)\<rparr>) (sn_objects world)\<rparr>)"

definition index_commit_graph ::
  "digest \<Rightarrow> u64 \<Rightarrow> commit_id \<Rightarrow> hash256 \<Rightarrow> world_snapshot \<Rightarrow> world_index_store \<Rightarrow> index_error + world_index_store" where
  "index_commit_graph H unspecified commit snapshot world st =
     res_bind (index_upsert H graph_magic write_world_graph read_world_graph wg_commit (\<lambda>e. to_hex (wg_commit e)) sort_graph_entry
         (world_graph_of unspecified commit snapshot world) (ws_graph st))
       (\<lambda>f. Inr (st\<lparr>ws_graph := f\<rparr>))"

definition remove_world_index :: "world_index_store \<Rightarrow> world_index_store" where
  "remove_world_index st = \<lparr>ws_objects = None, ws_relations = None, ws_graph = None\<rparr>"

section \<open>Both tables are keyed indexes\<close>

lemma sort_key_idem:
  fixes f :: "'a \<Rightarrow> 'b::linorder"
  shows "sort_by (\<lambda>l r. f l < f r) (sort_by (\<lambda>l r. f l < f r) xs) = sort_by (\<lambda>l r. f l < f r) xs"
  by (rule sort_by_id, rule sorted_sort_by) auto

lemma sort_pointers_idem [simp]: "sort_pointer_ids (sort_pointer_ids ps) = sort_pointer_ids ps"
proof -
  have s: "sorted (sort_by (<) ps)"
    by (rule sorted_sort_by_less)
  have "sort_by (<) (remdups_adj (sort_by (<) ps)) = remdups_adj (sort_by (<) ps)"
    by (rule sort_by_id) (use sorted_remdups_adj [OF s] in \<open>simp add: not_less\<close>)
  then show ?thesis using remdups_adj_distinct [OF sorted_remdups_adj_distinct [OF s]] by (simp add: sort_pointer_ids_def)
qed

lemma sort_adjacency_idem [simp]: "sort_adjacency (sort_adjacency a) = sort_adjacency a"
  by (simp add: sort_adjacency_def)

lemma sort_entry_idem: "sort_entry (sort_entry e) = sort_entry e"
  by (simp add: sort_entry_def sort_key_idem)

lemma sort_graph_entry_idem: "sort_graph_entry (sort_graph_entry e) = sort_graph_entry e"
proof -
  have "map sort_adjacency (sort_by (\<lambda>l r. ad_object l < ad_object r) (map sort_adjacency as))
      = sort_by (\<lambda>l r. ad_object l < ad_object r) (map sort_adjacency as)" for as
    by (rule map_idI) auto
  then show ?thesis by (simp add: sort_graph_entry_def sort_key_idem)
qed

definition names_fit :: "object_name_entry list \<Rightarrow> bool" where
  "names_fit names \<longleftrightarrow> size_ok names \<and> list_all (\<lambda>n. size_ok (on_name n)) names"

definition types_fit :: "type_entry list \<Rightarrow> bool" where
  "types_fit types \<longleftrightarrow> size_ok types \<and> list_all (\<lambda>t. size_ok (te_type t) \<and> size_ok (te_objects t)) types"

definition relations_fit :: "relation_entry list \<Rightarrow> bool" where
  "relations_fit relations \<longleftrightarrow>
     size_ok relations \<and> list_all (\<lambda>r. size_ok (re_relation r) \<and> size_ok (re_pointers r)) relations"

definition world_branch_fits :: "world_branch_entry \<Rightarrow> bool" where
  "world_branch_fits e \<longleftrightarrow> size_ok (wb_branch e) \<and> names_fit (wb_names e) \<and> types_fit (wb_types e) \<and> relations_fit (wb_relations e)"

definition world_graph_fits :: "world_graph_entry \<Rightarrow> bool" where
  "world_graph_fits e \<longleftrightarrow> names_fit (wg_names e) \<and> types_fit (wg_types e) \<and> relations_fit (wg_relations e)
     \<and> size_ok (wg_pointers e) \<and> list_all (\<lambda>p. size_ok (gp_relation p)) (wg_pointers e)
     \<and> size_ok (wg_adjacency e) \<and> list_all (\<lambda>a. size_ok (ad_outgoing a) \<and> size_ok (ad_incoming a)) (wg_adjacency e)"

lemma fits_sorted [simp]:
  "names_fit (sort_by lt names) = names_fit names" "types_fit (sort_by lt' types) = types_fit types"
  "relations_fit (sort_by lt'' relations) = relations_fit relations"
  by (simp_all add: names_fit_def types_fit_def relations_fit_def size_ok_def list_all_iff)

lemma size_ok_sort_pointers: "size_ok ps \<Longrightarrow> size_ok (sort_pointer_ids ps)"
  using remdups_adj_length [of "sort_by (<) ps"] by (simp add: size_ok_def sort_pointer_ids_def)

lemma sort_entry_fits: "world_branch_fits e \<Longrightarrow> world_branch_fits (sort_entry e)"
  by (simp add: world_branch_fits_def sort_entry_def)

lemma sort_graph_entry_fits: "world_graph_fits e \<Longrightarrow> world_graph_fits (sort_graph_entry e)"
  using size_ok_sort_pointers
  by (auto simp: world_graph_fits_def sort_graph_entry_def size_ok_def [of "sort_by _ _"] size_ok_def [of "wg_pointers e"]
      size_ok_def [of "wg_adjacency e"] list_all_iff sort_adjacency_def)

lemma payload_list_index:
  assumes "size_ok xs" "list_all P xs" "\<And>x rest. P x \<Longrightarrow> dec (enc x @ rest) = Inr (x, rest)"
  shows "payload_list dec (index_payload enc xs @ rest) = Inr (xs, rest)"
proof -
  have "rtimes (length xs) dec (concat (map enc xs) @ rest) = Inr (map (\<lambda>x. x) xs, rest)"
    by (rule rtimes_roundtrip) (use assms(2,3) in \<open>simp add: list_all_iff\<close>)
  with assms(1) show ?thesis by (simp add: payload_list_def index_payload_def payload_u64_bind unat_length)
qed

lemma read_object_index_write [index_codec]: "read_object_index (write_object_index i @ rest) = Inr (i, rest)"
  by (simp add: read_object_index_def write_object_index_def rbind_def index_codec)

lemma payload_ids_index [index_codec]:
  "size_ok objects \<Longrightarrow> payload_list read_object_index (index_payload write_object_index objects @ rest) = Inr (objects, rest)"
  "size_ok pointers \<Longrightarrow> payload_list payload_u64 (index_payload index_u64 pointers @ rest) = Inr (pointers, rest)"
  by (rule payload_list_index [where P = "\<lambda>_. True"]; simp add: list_all_iff index_codec)+

lemma payload_entries_index [index_codec]:
  "names_fit names \<Longrightarrow> payload_list read_name_entry (index_payload write_name_entry names @ rest) = Inr (names, rest)"
  "types_fit types \<Longrightarrow> payload_list read_type_entry (index_payload write_type_entry types @ rest) = Inr (types, rest)"
  "relations_fit relations
     \<Longrightarrow> payload_list read_relation_entry (index_payload write_relation_entry relations @ rest) = Inr (relations, rest)"
  unfolding names_fit_def types_fit_def relations_fit_def
  by (erule conjE, erule (1) payload_list_index,
      simp add: read_name_entry_def write_name_entry_def read_type_entry_def write_type_entry_def read_relation_entry_def
        write_relation_entry_def rbind_def index_codec)+

lemma payload_graph_index [index_codec]:
  "size_ok pointers \<Longrightarrow> list_all (\<lambda>p. size_ok (gp_relation p)) pointers
     \<Longrightarrow> payload_list read_graph_pointer (index_payload write_graph_pointer pointers @ rest) = Inr (pointers, rest)"
  "size_ok adjacency \<Longrightarrow> list_all (\<lambda>a. size_ok (ad_outgoing a) \<and> size_ok (ad_incoming a)) adjacency
     \<Longrightarrow> payload_list read_adjacency (index_payload write_adjacency adjacency @ rest) = Inr (adjacency, rest)"
  by (erule (1) payload_list_index,
      simp add: read_graph_pointer_def write_graph_pointer_def read_adjacency_def write_adjacency_def rbind_def index_codec)+

lemma read_world_branch_write: "world_branch_fits e \<Longrightarrow> read_world_branch (write_world_branch e @ rest) = Inr (e, rest)"
  by (simp add: read_world_branch_def write_world_branch_def world_branch_fits_def rbind_def index_codec)

lemma read_world_graph_write: "world_graph_fits e \<Longrightarrow> read_world_graph (write_world_graph e @ rest) = Inr (e, rest)"
  by (simp add: read_world_graph_def write_world_graph_def world_graph_fits_def rbind_def index_codec)

lemma world_entries_some: "0 < length (write_world_branch e)" "0 < length (write_world_graph g)"
  by (simp_all add: write_world_branch_def write_world_graph_def index_hash_def)

lemma sort_entry_ident [simp]:
  "wb_branch (sort_entry e) = wb_branch e" "wg_commit (sort_graph_entry g) = wg_commit g"
  by (simp_all add: sort_entry_def sort_graph_entry_def)

interpretation world_branches: keyed_index H objects_magic write_world_branch read_world_branch wb_branch wb_branch sort_entry
    world_branch_fits for H
  by unfold_locales
    (simp_all only: read_world_branch_write world_entries_some sort_entry_fits sort_entry_ident sort_entry_idem)

interpretation world_graphs: keyed_index H graph_magic write_world_graph read_world_graph wg_commit "\<lambda>e. to_hex (wg_commit e)"
    sort_graph_entry world_graph_fits for H
  by unfold_locales
    (simp_all only: read_world_graph_write world_entries_some sort_graph_entry_fits sort_entry_ident sort_graph_entry_idem to_hex_inj)

section \<open>What the stored indexes answer\<close>

lemma find_sorted:
  fixes f :: "'a \<Rightarrow> 'b::linorder"
  assumes "distinct (map f xs)"
  shows "List.find (\<lambda>x. f x = k) (sort_by lt xs) = List.find (\<lambda>x. f x = k) xs"
proof -
  have "mset (map f (sort_by lt xs)) = mset (map f xs)" by (simp only: mset_map mset_sort_by)
  with assms have "distinct (map f (sort_by lt xs))" by (metis mset_eq_imp_distinct_iff)
  from entry_find_cong [OF this assms] show ?thesis by (simp add: entry_find_def)
qed

lemma type_entries_names:
  "te_type ` set (type_entries ix world) \<subseteq> snd ` set (sn_type_names world)"
  "re_relation ` set (relation_entries ix world) \<subseteq> snd ` set (sn_relation_names world)"
  by (auto simp: type_entries_def relation_entries_def Let_def split: if_splits prod.splits intro: rev_image_eqI)

lemma distinct_bucket_names:
  assumes "distinct (map snd ns)" "\<And>i n. map key (bucket (i, n)) = [] \<or> map key (bucket (i, n)) = [n]"
  shows "distinct (map key (concat (map bucket ns)))"
proof -
  have "set (map key (concat (map bucket ms))) \<subseteq> snd ` set ms" for ms
  proof (induction ms)
    case (Cons m ms)
    then show ?case using assms(2) [of "fst m" "snd m"] by auto
  qed simp
  note sub = this
  show ?thesis using assms(1)
  proof (induction ns)
    case (Cons m ns)
    then have "snd m \<notin> set (map key (concat (map bucket ns)))" using sub [of ns] by auto
    with Cons assms(2) [of "fst m" "snd m"] show ?case by auto
  qed simp
qed

lemma find_append_case:
  "List.find P (xs @ ys) = (case List.find P xs of Some x \<Rightarrow> Some x | None \<Rightarrow> List.find P ys)"
  by (induction xs) auto

lemma find_bucket:
  assumes "distinct (map snd ns)" "(i, n) \<in> set ns" "\<And>i n. map key (bucket (i, n)) = [] \<or> map key (bucket (i, n)) = [n]"
  shows "List.find (\<lambda>e. key e = n) (concat (map bucket ns)) = List.find (\<lambda>e. key e = n) (bucket (i, n))"
  using assms(1,2)
proof (induction ns)
  case (Cons m ns)
  have other: "\<forall>e \<in> set (bucket (j, k)). key e = k" for j k using assms(3) [of j k] by (auto simp: map_eq_Cons_conv)
  show ?case
  proof (cases "m = (i, n)")
    case True
    with Cons.prems(1) have "\<forall>e \<in> set (concat (map bucket ns)). key e \<noteq> n" using other by force
    then have "List.find (\<lambda>e. key e = n) (concat (map bucket ns)) = None" by (auto simp: find_None_iff)
    with True show ?thesis by (simp add: find_append_case split: option.split)
  next
    case False
    with Cons.prems(2) have "(i, n) \<in> set ns" by auto
    moreover from this have "snd m \<noteq> n" using Cons.prems(1) by (auto intro: rev_image_eqI)
    moreover from this have "List.find (\<lambda>e. key e = n) (bucket m) = None"
      using other [of "fst m" "snd m"] by (auto simp: find_None_iff)
    ultimately show ?thesis using Cons by (simp add: find_append_case)
  qed
qed simp

lemma type_entries_find:
  assumes "distinct (map snd (sn_type_names world))" "(i, n) \<in> set (sn_type_names world)"
  shows "types_find n (sort_by (\<lambda>l r. te_type l < te_type r) (type_entries ix world)) = index_objects_by_type ix i"
proof -
  let ?b = "\<lambda>(i, name). let span = index_objects_by_type ix i in if span \<noteq> [] then [\<lparr>te_type = name, te_objects = span\<rparr>] else []"
  have b: "map te_type (?b (i, n)) = [] \<or> map te_type (?b (i, n)) = [n]" for i n by (simp add: Let_def)
  have "distinct (map te_type (type_entries ix world))"
    unfolding type_entries_def by (rule distinct_bucket_names [OF assms(1) b])
  from find_sorted [OF this] find_bucket [OF assms b] show ?thesis
    by (simp add: types_find_def) (simp add: type_entries_def Let_def)
qed

lemma relation_entries_find:
  assumes "distinct (map snd (sn_relation_names world))" "(i, n) \<in> set (sn_relation_names world)"
  shows "relations_find n (sort_by (\<lambda>l r. re_relation l < re_relation r) (relation_entries ix world)) = index_relation ix i"
proof -
  let ?b = "\<lambda>(i, name). let span = index_relation ix i in if span \<noteq> [] then [\<lparr>re_relation = name, re_pointers = span\<rparr>] else []"
  have b: "map re_relation (?b (i, n)) = [] \<or> map re_relation (?b (i, n)) = [n]" for i n by (simp add: Let_def)
  have "distinct (map re_relation (relation_entries ix world))"
    unfolding relation_entries_def by (rule distinct_bucket_names [OF assms(1) b])
  from find_sorted [OF this] find_bucket [OF assms b] show ?thesis
    by (simp add: relations_find_def) (simp add: relation_entries_def Let_def)
qed

lemma name_entries_find:
  assumes "distinct (map os_name (sn_objects world))"
  shows "names_find n (sort_by (\<lambda>l r. on_name l < on_name r) (name_entries world)) = index_object_by_name (index_rebuild world) n"
proof -
  have "distinct (map on_name (name_entries world))" using assms by (simp add: name_entries_def comp_def)
  moreover have "map_option on_object (List.find (\<lambda>e. on_name e = n) (map (\<lambda>ob. \<lparr>on_name = os_name ob, on_object = os_id ob\<rparr>) obs))
      = map_option os_id (List.find (\<lambda>ob. os_name ob = n) obs)" for obs
    by (induction obs) auto
  ultimately show ?thesis by (simp add: names_find_def find_sorted index_object_by_name_rebuild) (simp add: name_entries_def)
qed

definition branch_index_held :: "digest \<Rightarrow> world_branch_entry list \<Rightarrow> world_index_store \<Rightarrow> bool" where
  "branch_index_held H es st \<longleftrightarrow> world_branches.held_as H es (ws_objects st)"

definition world_fits :: "world_branch_entry list \<Rightarrow> world_branch_entry \<Rightarrow> bool" where
  "world_fits es e \<longleftrightarrow> world_branch_fits e
     \<and> 8 + (\<Sum>e\<leftarrow>es. length (write_world_branch e)) + length (write_world_branch (sort_entry e)) < 2 ^ 64"

lemma branch_index_held_empty: "branch_index_held H [] (remove_world_index st)"
  by (simp add: branch_index_held_def world_branches.held_as_def world_branches.total_def remove_world_index_def)

text \<open>
  After a branch is updated its queries answer as the world index of the new snapshot does, and the queries of the
  other branches answer as before.
\<close>

lemma update_branch_answers:
  fixes branch snapshot world defines "e \<equiv> world_branch_of branch snapshot world" and "ix \<equiv> index_rebuild world"
  assumes held: "branch_index_held H es st" and fits: "world_fits es e"
    and names: "distinct (map os_name (sn_objects world))" "distinct (map snd (sn_type_names world))"
      "distinct (map snd (sn_relation_names world))"
  obtains st' es' where "update_branch_index H branch snapshot world st = Inr st'" "branch_index_held H es' st'"
    "\<And>n. stored_object_by_name H branch n st' = Inr (index_object_by_name ix n)"
    "\<And>i n. (i, n) \<in> set (sn_type_names world) \<Longrightarrow> stored_objects_by_type H branch n st' = Inr (index_objects_by_type ix i)"
    "\<And>i n. (i, n) \<in> set (sn_relation_names world) \<Longrightarrow> stored_links_by_relation H branch n st' = Inr (index_relation ix i)"
    "\<And>b. b \<noteq> branch \<Longrightarrow> find_world_branch H b st' = find_world_branch H b st"
proof -
  have total: "world_branches.total es + length (write_world_branch (sort_entry e)) < 2 ^ 64" and ok: "world_branch_fits e"
    using fits by (simp_all add: world_fits_def world_branches.total_def)
  have objs: "world_branches.held_as H es (ws_objects st)" using held by (simp add: branch_index_held_def)
  have all: "world_entries H st = Inr es" by (simp add: world_entries_def world_branches.entries_held [OF objs])
  let ?st = "world_write H (entry_put wb_branch e es) st"
  from world_branches.upsert_held [OF objs ok total] obtain fs file' where
    up: "index_upsert H objects_magic write_world_branch read_world_branch wb_branch wb_branch sort_entry e (ws_objects st) = Inr file'"
    and held': "world_branches.held_as H fs file'"
    and find: "\<And>i. entry_find wb_branch i fs = (if i = wb_branch e then Some (sort_entry e) else entry_find wb_branch i es)" by blast
  have f: "file' = ws_objects ?st"
    using up all by (simp add: index_upsert_def world_entries_def world_write_def)
  have fs: "world_entries H ?st = Inr fs" using world_branches.entries_held [OF held'] by (simp add: world_entries_def f)
  have b: "wb_branch e = branch" and se: "wb_names (sort_entry e) = sort_by (\<lambda>l r. on_name l < on_name r) (name_entries world)"
    "wb_types (sort_entry e) = sort_by (\<lambda>l r. te_type l < te_type r) (type_entries ix world)"
    "wb_relations (sort_entry e) = sort_by (\<lambda>l r. re_relation l < re_relation r) (relation_entries ix world)"
    by (simp_all add: e_def ix_def world_branch_of_def sort_entry_def Let_def)
  have found: "find_world_branch H branch ?st = Inr (Some (sort_entry e))" by (simp add: find_world_branch_def fs find b)
  show thesis
  proof
    show "update_branch_index H branch snapshot world st = Inr ?st" by (simp add: update_branch_index_def all e_def)
    show "branch_index_held H fs ?st" using held' by (simp add: branch_index_held_def f)
    show "stored_object_by_name H branch n ?st = Inr (index_object_by_name ix n)" for n
      by (simp add: stored_object_by_name_def found se name_entries_find [OF names(1)] ix_def)
    show "stored_objects_by_type H branch n ?st = Inr (index_objects_by_type ix i)" if "(i, n) \<in> set (sn_type_names world)" for i n
      by (simp add: stored_objects_by_type_def found se type_entries_find [OF names(2) that])
    show "stored_links_by_relation H branch n ?st = Inr (index_relation ix i)" if "(i, n) \<in> set (sn_relation_names world)" for i n
      by (simp add: stored_links_by_relation_def found se relation_entries_find [OF names(3) that])
    show "find_world_branch H c ?st = find_world_branch H c st" if "c \<noteq> branch" for c
      using that by (simp add: find_world_branch_def fs all find b)
  qed
qed

text \<open>Indexing a commit makes exactly its graph the answer for it.\<close>

lemma index_commit_graph_ok:
  assumes "world_graphs.held_as H es (ws_graph st)" "world_graph_fits (world_graph_of u commit snapshot world)"
    "world_graphs.total es + length (write_world_graph (sort_graph_entry (world_graph_of u commit snapshot world))) < 2 ^ 64"
  obtains st' es' where "index_commit_graph H u commit snapshot world st = Inr st'" "world_graphs.held_as H es' (ws_graph st')"
    "\<And>c. find_world_commit H c st'
       = Inr (if c = commit then Some (sort_graph_entry (world_graph_of u commit snapshot world)) else entry_find wg_commit c es)"
    "ws_objects st' = ws_objects st"
proof -
  let ?e = "world_graph_of u commit snapshot world"
  have c: "wg_commit ?e = commit" by (simp add: world_graph_of_def Let_def)
  from world_graphs.upsert_held [OF assms] obtain fs file' where
    up: "index_upsert H graph_magic write_world_graph read_world_graph wg_commit (\<lambda>e. to_hex (wg_commit e)) sort_graph_entry ?e
      (ws_graph st) = Inr file'"
    and held': "world_graphs.held_as H fs file'"
    and find: "\<And>i. entry_find wg_commit i fs = (if i = wg_commit ?e then Some (sort_graph_entry ?e) else entry_find wg_commit i es)"
    by blast
  show thesis
    by (rule that [of "st\<lparr>ws_graph := file'\<rparr>" fs])
       (simp_all add: index_commit_graph_def up held' find_world_commit_def graph_entries_def world_graphs.entries_held [OF held'] find c)
qed

end
