(* ===== verification/Wal.thy ===== *)
theory Wal
  imports Text_Stream "HOL-Library.Sublist"
begin

text \<open>
  The write-ahead log (\<open>src/storage/wal.cpp\<close>).  The state is the content of \<open>wal/current.log\<close>, \<open>None\<close> when the
  file does not exist: one line per entry, with a sequence number, the operation, the hash of the payload and
  the payload in hexadecimal.
\<close>

datatype wal_op = WalBeginCommit | WalPutObject | WalBindSnapshot | WalAddCommitNode | WalUpdateBranchRef | WalEndCommit

record wal_entry =
  we_sequence :: u64
  we_op :: wal_op
  we_payload_hash :: hash256
  we_payload :: bytes

record wal_report =
  wr_entries_read :: nat
  wr_incomplete_commit :: bool

datatype wal_error = InvalidWalHash | UnknownWalOperation | InvalidWalHex | WalHashMismatch

type_synonym wal_file = "string option"

definition wal_op_to_string :: "wal_op \<Rightarrow> string" where
  "wal_op_to_string op = (case op of
     WalBeginCommit \<Rightarrow> ''BeginCommit'' | WalPutObject \<Rightarrow> ''PutObject'' | WalBindSnapshot \<Rightarrow> ''BindSnapshot''
   | WalAddCommitNode \<Rightarrow> ''AddCommitNode'' | WalUpdateBranchRef \<Rightarrow> ''UpdateBranchRef'' | WalEndCommit \<Rightarrow> ''EndCommit'')"

definition wal_op_from_string :: "string \<Rightarrow> wal_error + wal_op" where
  "wal_op_from_string value =
     (if value = ''BeginCommit'' then Inr WalBeginCommit
      else if value = ''PutObject'' then Inr WalPutObject
      else if value = ''BindSnapshot'' then Inr WalBindSnapshot
      else if value = ''AddCommitNode'' then Inr WalAddCommitNode
      else if value = ''UpdateBranchRef'' then Inr WalUpdateBranchRef
      else if value = ''EndCommit'' then Inr WalEndCommit
      else Inl UnknownWalOperation)"

definition bytes_from_hex :: "string \<Rightarrow> wal_error + bytes" where
  "bytes_from_hex text =
     (if odd (length text) then Inl InvalidWalHex
      else case parse_hex_pairs text of None \<Rightarrow> Inl InvalidWalHex | Some bs \<Rightarrow> Inr bs)"

definition wal_read_line :: "digest \<Rightarrow> string \<Rightarrow> wal_error + wal_entry" where
  "wal_read_line H line =
     (let (sequence, st) = read_u64 0 (Some line); (op_text, st) = read_word st;
          (hash_text, st) = read_word st; (payload_text, st) = read_word st
      in case parse_hash256 hash_text of
           None \<Rightarrow> Inl InvalidWalHash
         | Some h \<Rightarrow>
             res_bind (wal_op_from_string op_text) (\<lambda>op.
             res_bind (bytes_from_hex payload_text) (\<lambda>payload.
               if H payload \<noteq> h then Inl WalHashMismatch
               else Inr \<lparr>we_sequence = sequence, we_op = op, we_payload_hash = h, we_payload = payload\<rparr>)))"

definition wal_read_step :: "digest \<Rightarrow> wal_entry list \<Rightarrow> string \<Rightarrow> wal_error + wal_entry list" where
  "wal_read_step H entries line =
     (if line = [] then Inr entries else res_bind (wal_read_line H line) (\<lambda>e. Inr (entries @ [e])))"

definition wal_read_all :: "digest \<Rightarrow> wal_file \<Rightarrow> wal_error + wal_entry list" where
  "wal_read_all H file = (case file of None \<Rightarrow> Inr [] | Some text \<Rightarrow> res_fold (wal_read_step H) [] (text_lines text))"

definition wal_line :: "wal_entry \<Rightarrow> string" where
  "wal_line e = dec_string (unat (we_sequence e)) @ '' '' @ wal_op_to_string (we_op e) @ '' ''
     @ to_hex (we_payload_hash e) @ '' '' @ bytes_to_hex (we_payload e)"

definition wal_append :: "digest \<Rightarrow> wal_op \<Rightarrow> bytes \<Rightarrow> wal_file \<Rightarrow> wal_error + wal_file" where
  "wal_append H op payload file =
     res_bind (wal_read_all H file) (\<lambda>entries.
       let sequence = (if entries = [] then 1 else we_sequence (last entries) + 1);
           e = \<lparr>we_sequence = sequence, we_op = op, we_payload_hash = H payload, we_payload = payload\<rparr>
       in Inr (Some (case_option [] id file @ wal_line e @ [newline])))"

definition wal_recover_step :: "wal_report \<Rightarrow> wal_entry \<Rightarrow> wal_report" where
  "wal_recover_step report e =
     report\<lparr>wr_entries_read := wr_entries_read report + 1,
            wr_incomplete_commit := (if we_op e = WalBeginCommit then True else if we_op e = WalEndCommit then False
                                     else wr_incomplete_commit report)\<rparr>"

definition wal_recover :: "digest \<Rightarrow> wal_file \<Rightarrow> wal_error + wal_report" where
  "wal_recover H file = res_bind (wal_read_all H file) (\<lambda>entries.
     Inr (foldl wal_recover_step \<lparr>wr_entries_read = 0, wr_incomplete_commit = False\<rparr> entries))"

definition wal_truncate :: "wal_file \<Rightarrow> wal_file" where
  "wal_truncate _ = Some []"

section \<open>Reading what was appended\<close>

lemma op_round_trip [simp]: "wal_op_from_string (wal_op_to_string op) = Inr op"
  by (cases op) (simp_all add: wal_op_to_string_def wal_op_from_string_def)

lemma op_plain: "plain_word (wal_op_to_string op)"
  by (cases op) (simp_all add: wal_op_to_string_def plain_word_def is_space_def)

lemma bytes_hex_round_trip [simp]: "bytes_from_hex (bytes_to_hex bs) = Inr bs"
proof -
  have "even (length (bytes_to_hex bs))" by simp
  moreover have "parse_hex_pairs (bytes_to_hex bs) = Some bs" unfolding bytes_to_hex_def by (rule parse_hex_concat)
  ultimately show ?thesis by (simp only: bytes_from_hex_def not_True_eq_False if_False option.case)
qed

lemma no_space_no_newline: "list_all (\<lambda>c. \<not> is_space c) s \<Longrightarrow> newline \<notin> set s"
  using is_space_blank(2) by (auto simp: list_all_iff)

lemma newline_not_blank: "newline \<noteq> CHR '' ''"
proof
  assume "newline = CHR '' ''"
  then have "(of_char newline :: nat) = of_char (CHR '' '')" by (rule arg_cong)
  then show False by (simp add: newline_def)
qed

lemma wal_line_no_newline: "newline \<notin> set (wal_line e)"
  using dec_string_plain [of "unat (we_sequence e)"] op_plain [of "we_op e"] to_hex_plain [of "we_payload_hash e"]
    bytes_hex_no_space [of "we_payload e"]
  by (simp add: wal_line_def plain_word_def no_space_no_newline newline_not_blank)

lemma wal_line_nonempty [simp]: "wal_line e \<noteq> []"
  by (simp add: wal_line_def)

text \<open>The line of an entry, with any beginning of its payload.\<close>

lemma read_first_number:
  "read_u64 0 (Some (dec_string (unat v) @ CHR '' '' # s)) = (v, Some (CHR '' '' # s))"
  using read_u64_number [of "[]" "CHR '' '' # s" 0 v] by (simp add: is_digit_def)

lemma read_next_word: "plain_word v \<Longrightarrow> rest = [] \<or> is_space (hd rest) \<Longrightarrow> read_word (Some (CHR '' '' # v @ rest)) = (v, Some rest)"
  using read_word_word [of "'' ''" v rest] by simp

lemma read_last_word: "list_all (\<lambda>c. \<not> is_space c) v \<Longrightarrow> fst (read_word (Some (CHR '' '' # v))) = v"
  using read_word_blank [of "'' ''"] read_next_word [of v "[]"] by (cases "v = []") (simp_all add: plain_word_def)

definition entry_head :: "wal_entry \<Rightarrow> string" where
  "entry_head e = dec_string (unat (we_sequence e)) @ '' '' @ wal_op_to_string (we_op e) @ '' '' @ to_hex (we_payload_hash e)"

lemma wal_line_head: "wal_line e = entry_head e @ CHR '' '' # bytes_to_hex (we_payload e)"
  by (simp add: wal_line_def entry_head_def)

lemma wal_read_tail:
  assumes "tail = [] \<and> str = [] \<or> tail = CHR '' '' # str \<and> list_all (\<lambda>c. \<not> is_space c) str"
  shows "wal_read_line H (entry_head e @ tail) =
     res_bind (bytes_from_hex str) (\<lambda>payload.
       if H payload \<noteq> we_payload_hash e then Inl WalHashMismatch else Inr (e\<lparr>we_payload := payload\<rparr>))"
proof -
  have n: "read_u64 0 (Some (entry_head e @ tail))
      = (we_sequence e, Some (CHR '' '' # wal_op_to_string (we_op e) @ CHR '' '' # to_hex (we_payload_hash e) @ tail))"
    by (simp add: entry_head_def read_first_number)
  have o: "read_word (Some (CHR '' '' # wal_op_to_string (we_op e) @ CHR '' '' # s)) = (wal_op_to_string (we_op e), Some (CHR '' '' # s))" for s
    by (rule read_next_word [OF op_plain]) simp
  have h: "read_word (Some (CHR '' '' # to_hex (we_payload_hash e) @ tail)) = (to_hex (we_payload_hash e), Some tail)"
    by (rule read_next_word [OF to_hex_plain]) (use assms in auto)
  have "fst (read_word (Some tail)) = str"
    using assms read_last_word read_word_blank [of "[]"] by auto
  then obtain st where t: "read_word (Some tail) = (str, st)" by (cases "read_word (Some tail)") auto
  have e: "\<lparr>we_sequence = we_sequence e, we_op = we_op e, we_payload_hash = we_payload_hash e, we_payload = payload\<rparr>
      = e\<lparr>we_payload := payload\<rparr>" for payload by (cases e) simp
  show ?thesis unfolding e [symmetric] by (simp add: wal_read_line_def n o h t)
qed

definition entry_ok :: "digest \<Rightarrow> wal_entry \<Rightarrow> bool" where
  "entry_ok H e = (we_payload_hash e = H (we_payload e))"

lemma wal_read_line_line: "entry_ok H e \<Longrightarrow> wal_read_line H (wal_line e) = Inr e"
  using wal_read_tail [of "CHR '' '' # bytes_to_hex (we_payload e)" "bytes_to_hex (we_payload e)" H e] bytes_hex_no_space
  by (simp add: wal_line_head entry_ok_def)

definition wal_text :: "wal_entry list \<Rightarrow> string" where
  "wal_text es = concat (map (\<lambda>e. wal_line e @ [newline]) es)"

lemma wal_read_lines:
  "list_all (entry_ok H) es \<Longrightarrow> res_fold (wal_read_step H) acc (map wal_line es) = Inr (acc @ es)"
  by (induction es arbitrary: acc) (simp_all add: wal_read_step_def wal_read_line_line)

lemma text_lines_wal: "text_lines (wal_text es @ rest) = map wal_line es @ text_lines rest"
  using text_lines_append [of "map wal_line es" rest] wal_line_no_newline
  by (simp add: wal_text_def comp_def list_all_iff)

lemma wal_read_text: "list_all (entry_ok H) es \<Longrightarrow> wal_read_all H (Some (wal_text es)) = Inr es"
  using text_lines_wal [of es "[]"] by (simp add: wal_read_all_def wal_read_lines)

text \<open>Numbering: a log that starts empty numbers its entries from one.\<close>

definition wal_numbered :: "digest \<Rightarrow> (wal_op \<times> bytes) list \<Rightarrow> wal_entry list" where
  "wal_numbered H ops = map (\<lambda>(k, op, payload).
     \<lparr>we_sequence = of_nat (k + 1), we_op = op, we_payload_hash = H payload, we_payload = payload\<rparr>) (enumerate 0 ops)"

definition wal_appends :: "digest \<Rightarrow> (wal_op \<times> bytes) list \<Rightarrow> wal_file \<Rightarrow> wal_error + wal_file" where
  "wal_appends H ops file = res_fold (\<lambda>file (op, payload). wal_append H op payload file) file ops"

lemma wal_numbered_ok: "list_all (entry_ok H) (wal_numbered H ops)"
  by (auto simp: wal_numbered_def entry_ok_def list_all_iff)

lemma wal_numbered_snoc: "wal_numbered H (ops @ [(op, payload)]) = wal_numbered H ops @
    [\<lparr>we_sequence = of_nat (length ops + 1), we_op = op, we_payload_hash = H payload, we_payload = payload\<rparr>]"
  by (simp add: wal_numbered_def enumerate_append_eq)

lemma last_numbered: "ops \<noteq> [] \<Longrightarrow> we_sequence (last (wal_numbered H ops)) = of_nat (length ops)"
  by (cases ops rule: rev_cases) (auto simp: wal_numbered_snoc)

lemma wal_append_numbered:
  "wal_append H op payload (Some (wal_text (wal_numbered H ops))) = Inr (Some (wal_text (wal_numbered H (ops @ [(op, payload)]))))"
proof -
  have "wal_numbered H ops = [] \<longleftrightarrow> ops = []" by (cases ops) (simp_all add: wal_numbered_def)
  then have "(if wal_numbered H ops = [] then 1 else we_sequence (last (wal_numbered H ops)) + 1) = of_nat (length ops + 1)"
    using last_numbered [of ops H] by (cases "ops = []") simp_all
  then show ?thesis
    unfolding wal_append_def wal_read_text [OF wal_numbered_ok] res_bind_simps Let_def wal_numbered_snoc
    by (simp add: wal_text_def)
qed

lemma wal_appends_numbered:
  "wal_appends H ops (Some []) = Inr (Some (wal_text (wal_numbered H ops)))"
proof (induction ops rule: rev_induct)
  case Nil
  show ?case by (simp add: wal_appends_def wal_numbered_def wal_text_def)
next
  case (snoc x ops)
  obtain op payload where "x = (op, payload)" by (cases x)
  with snoc show ?case by (simp add: wal_appends_def res_fold_append wal_append_numbered)
qed

section \<open>Recovery\<close>

text \<open>A commit is open when the last mark of the log is a beginning.\<close>

definition commit_open :: "wal_op list \<Rightarrow> bool" where
  "commit_open ops = (\<exists>xs ys. ops = xs @ WalBeginCommit # ys \<and> WalEndCommit \<notin> set ys)"

lemma commit_open_simps [simp]:
  "\<not> commit_open []"
  "commit_open (ops @ [op]) = (op = WalBeginCommit \<or> op \<noteq> WalEndCommit \<and> commit_open ops)"
proof -
  show "\<not> commit_open []" by (simp add: commit_open_def)
  show "commit_open (ops @ [op]) = (op = WalBeginCommit \<or> op \<noteq> WalEndCommit \<and> commit_open ops)"
  proof
    assume "commit_open (ops @ [op])"
    then obtain xs ys where o: "ops @ [op] = xs @ WalBeginCommit # ys" "WalEndCommit \<notin> set ys" by (auto simp: commit_open_def)
    then show "op = WalBeginCommit \<or> op \<noteq> WalEndCommit \<and> commit_open ops"
      by (cases ys rule: rev_cases) (auto simp: commit_open_def)
  next
    assume "op = WalBeginCommit \<or> op \<noteq> WalEndCommit \<and> commit_open ops"
    then show "commit_open (ops @ [op])"
    proof
      assume "op = WalBeginCommit"
      then have "ops @ [op] = ops @ WalBeginCommit # [] \<and> WalEndCommit \<notin> set []" by simp
      then show ?thesis unfolding commit_open_def by blast
    next
      assume "op \<noteq> WalEndCommit \<and> commit_open ops"
      then obtain xs ys where "ops = xs @ WalBeginCommit # ys" "WalEndCommit \<notin> set ys" "op \<noteq> WalEndCommit"
        by (auto simp: commit_open_def)
      then have "ops @ [op] = xs @ WalBeginCommit # (ys @ [op]) \<and> WalEndCommit \<notin> set (ys @ [op])" by simp
      then show ?thesis unfolding commit_open_def by blast
    qed
  qed
qed

lemma recover_steps:
  "foldl wal_recover_step \<lparr>wr_entries_read = 0, wr_incomplete_commit = False\<rparr> es
     = \<lparr>wr_entries_read = length es, wr_incomplete_commit = commit_open (map we_op es)\<rparr>"
  by (induction es rule: rev_induct) (auto simp: wal_recover_step_def)

lemma wal_recover_text:
  "list_all (entry_ok H) es \<Longrightarrow> wal_recover H (Some (wal_text es))
     = Inr \<lparr>wr_entries_read = length es, wr_incomplete_commit = commit_open (map we_op es)\<rparr>"
  by (simp add: wal_recover_def wal_read_text recover_steps)

section \<open>A torn tail\<close>

text \<open>
  A crash may leave any beginning of the last line.  When the digest tells the payload from its own
  beginnings, such a line is either the whole entry or an error; it is never read as another entry.
\<close>

lemma parse_short: "length str < 64 \<Longrightarrow> parse_hash256 str = None"
  by (auto simp: parse_hash256_def strip_hex_prefix_def Let_def)

lemma bytes_from_hex_prefix:
  assumes "prefix str (bytes_to_hex bs)" and "bytes_from_hex str = Inr xs"
  shows "prefix xs bs"
  using assms
proof (induction bs arbitrary: str xs)
  case Nil
  then show ?case by (simp add: bytes_to_hex_def bytes_from_hex_def)
next
  case (Cons b bs)
  obtain c d where cd: "byte_to_hex b = [c, d]" using byte_to_hex_shape by blast
  have whole: "bytes_to_hex (b # bs) = c # d # bytes_to_hex bs" by (simp add: bytes_to_hex_def cd)
  have one: "parse_hex_pairs [c, d] = Some [b]" using parse_byte_to_hex [of b] by (simp add: cd)
  show ?case
  proof (cases "str = [] \<or> length str = 1")
    case True
    then show ?thesis using Cons.prems(2) by (auto simp: bytes_from_hex_def)
  next
    case False
    then obtain rest where t: "str = c # d # rest" "prefix rest (bytes_to_hex bs)"
      using Cons.prems(1) unfolding whole by (cases str; cases "tl str") auto
    then obtain ys where "bytes_from_hex rest = Inr ys" "xs = b # ys"
      using Cons.prems(2) one by (auto simp: bytes_from_hex_def Let_def split: if_splits option.splits)
    with Cons.IH [OF t(2)] show ?thesis by simp
  qed
qed

text \<open>A line cut within its head has no whole hash.\<close>

lemma read_u64_digits:
  assumes "list_all is_digit str"
  shows "snd (read_u64 old (Some str)) = None \<or> snd (read_u64 old (Some str)) = Some []"
proof (cases str)
  case (Cons c cs)
  then have c: "\<not> is_space c" "c \<noteq> CHR ''-''" "c \<noteq> CHR ''+''"
    using assms is_digit_not_space is_digit_no_sign by auto
  have "dropWhile is_digit str = []" using dropWhile_until [OF assms, of "[]"] by simp
  then show ?thesis using c Cons by (auto simp: read_u64_def Let_def)
qed (simp add: read_u64_def)

lemma wal_read_short:
  assumes "prefix str (entry_head e)" and "str \<noteq> entry_head e"
  shows "wal_read_line H str = Inl InvalidWalHash"
proof -
  have hash: "wal_read_line H str = Inl InvalidWalHash"
    if "read_u64 0 (Some str) = (v, st)" "read_word st = (w, st2)" "length (fst (read_word st2)) < 64" for v st w st2
    using that parse_short by (auto simp: wal_read_line_def split: prod.splits)
  let ?D = "dec_string (unat (we_sequence e))" and ?O = "wal_op_to_string (we_op e)" and ?X = "to_hex (we_payload_hash e)"
  have "prefix str (?D @ CHR '' '' # ?O @ CHR '' '' # ?X)" using assms(1) by (simp add: entry_head_def)
  then consider "prefix str ?D" | s where "str = ?D @ CHR '' '' # s" "prefix s ?O"
    | s where "str = ?D @ CHR '' '' # ?O @ CHR '' '' # s" "prefix s ?X"
    by (auto simp: prefix_append prefix_Cons)
  then show ?thesis
  proof cases
    case 1
    then have "list_all is_digit str" using dec_string_digits [of "unat (we_sequence e)"] by (auto simp: prefix_def)
    then obtain v st where "read_u64 0 (Some str) = (v, st)" "st = None \<or> st = Some []"
      using read_u64_digits [of str 0] by (cases "read_u64 0 (Some str)") auto
    then show ?thesis using hash [of v st "[]" None] read_word_blank [of "[]"] by auto
  next
    case 2
    then have plain: "list_all (\<lambda>c. \<not> is_space c) s" using op_plain [of "we_op e"] by (auto simp: prefix_def plain_word_def)
    have "\<exists>st. read_word (Some (CHR '' '' # s)) = (s, st) \<and> (st = None \<or> st = Some [])"
      using read_word_blank [of "'' ''"] read_next_word [of s "[]"] plain by (cases "s = []") (auto simp: plain_word_def)
    then show ?thesis
      using hash [of "we_sequence e" "Some (CHR '' '' # s)" s] read_word_blank [of "[]"] 2 by (auto simp: read_first_number)
  next
    case 3
    then have plain: "list_all (\<lambda>c. \<not> is_space c) s" using to_hex_plain [of "we_payload_hash e"] by (auto simp: prefix_def plain_word_def)
    have "s \<noteq> ?X" using assms(2) 3(1) by (auto simp: entry_head_def)
    then have "length s < 64"
      using 3(2) length_to_hex [of "we_payload_hash e"] by (metis prefix_length_less strict_prefix_def)
    moreover have "read_word (Some (CHR '' '' # ?O @ CHR '' '' # s)) = (?O, Some (CHR '' '' # s))"
      by (rule read_next_word [OF op_plain]) simp
    ultimately show ?thesis
      using hash [of "we_sequence e" "Some (CHR '' '' # ?O @ CHR '' '' # s)" ?O "Some (CHR '' '' # s)"] read_last_word [OF plain] 3(1)
      by (simp add: read_first_number)
  qed
qed

text \<open>The digest tells a payload from its proper beginnings.\<close>

definition tells_prefixes :: "digest \<Rightarrow> bytes \<Rightarrow> bool" where
  "tells_prefixes H payload = list_all (\<lambda>k. H (take k payload) \<noteq> H payload) [0..<length payload]"

lemma tells_prefixesD: "tells_prefixes H bs \<Longrightarrow> prefix xs bs \<Longrightarrow> H xs = H bs \<Longrightarrow> xs = bs"
proof (elim prefixE)
  fix zs
  assume tells: "tells_prefixes H bs" and h: "H xs = H bs" and bs: "bs = xs @ zs"
  have "H (take (length xs) bs) \<noteq> H bs" if "zs \<noteq> []"
  proof -
    have "length xs \<in> set [0..<length bs]" using that by (simp add: bs)
    then show ?thesis using tells unfolding tells_prefixes_def list_all_iff by blast
  qed
  with h bs show "xs = bs" by auto
qed

lemma wal_read_torn:
  assumes "entry_ok H e" and "tells_prefixes H (we_payload e)" and "prefix str (wal_line e)"
  shows "wal_read_line H str = Inr e \<or> isl (wal_read_line H str)"
proof -
  consider "prefix str (entry_head e)" "str \<noteq> entry_head e" | tail rest where "str = entry_head e @ tail"
      "prefix rest (bytes_to_hex (we_payload e))" "tail = [] \<and> rest = [] \<or> tail = CHR '' '' # rest"
    using assms(3) by (cases "str = entry_head e") (auto simp: wal_line_head prefix_append prefix_Cons)
  then show ?thesis
  proof cases
    case 1
    then show ?thesis using wal_read_short by auto
  next
    case 2
    then have ns: "list_all (\<lambda>c. \<not> is_space c) rest"
      using bytes_hex_no_space [of "we_payload e"] by (auto simp: prefix_def)
    have read: "wal_read_line H str = res_bind (bytes_from_hex rest) (\<lambda>payload.
        if H payload \<noteq> we_payload_hash e then Inl WalHashMismatch else Inr (e\<lparr>we_payload := payload\<rparr>))"
      unfolding 2(1) by (rule wal_read_tail) (use 2(3) ns in auto)
    show ?thesis
    proof (cases "bytes_from_hex rest")
      case (Inr xs)
      then have "prefix xs (we_payload e)" using bytes_from_hex_prefix 2(2) by blast
      then show ?thesis using read Inr tells_prefixesD [OF assms(2)] assms(1) by (auto simp: entry_ok_def)
    qed (use read in simp)
  qed
qed

lemma text_lines_end: "newline \<notin> set l \<Longrightarrow> text_lines_from acc l = (if acc = [] \<and> l = [] then [] else [rev acc @ l])"
  by (induction l arbitrary: acc) auto

lemma wal_read_torn_text:
  assumes ok: "list_all (entry_ok H) (es @ [e])" and tells: "tells_prefixes H (we_payload e)" and torn: "prefix str (wal_line e)"
  shows "isl (wal_read_all H (Some (wal_text es @ str)))
    \<or> wal_read_all H (Some (wal_text es @ str)) = Inr (if str = [] then es else es @ [e])"
proof -
  have lines: "text_lines str = (if str = [] then [] else [str])"
    using torn wal_line_no_newline [of e] text_lines_end [of str "[]"] by (auto simp: prefix_def text_lines_def)
  have "wal_read_all H (Some (wal_text es @ str)) = res_fold (wal_read_step H) es (text_lines str)"
    using ok by (simp add: wal_read_all_def text_lines_wal res_fold_append wal_read_lines)
  then show ?thesis
    using wal_read_torn [OF _ tells torn] ok lines by (auto simp: wal_read_step_def res_bind_def split: sum.splits)
qed

end
