(* ===== verification/Repo_Write.thy ===== *)
theory Repo_Write
  imports Materializer_Keeps Ref_Store Graph_Index Wal
begin

text \<open>
  Writing a commit to a repository (\<open>src/storage/repository_transaction.cpp\<close>): the objects, the indexes, the branch
  reference and the mirror of the history, each step logged before the next.  The state is the state of every store
  below the root.  The lemmas show that a write on a repository in order succeeds, keeps every object that was there,
  empties the log and makes the commit the last of what its branch materialises to.
\<close>

record repository =
  rp_objects :: content_store
  rp_refs :: ref_store
  rp_wal :: wal_file
  rp_commits :: index_file
  rp_branches :: index_file
  rp_world :: world_index_store
  rp_events :: index_file
  rp_history :: "(string, string) omap"

datatype repo_error =
    RepoContent content_error
  | RepoChunk chunk_error
  | RepoWal wal_error
  | RepoIndex index_error
  | RepoRef ref_error
  | RepoMaterialize materialize_error
  | ProgramHashMismatch
  | CheckpointHashMismatch
  | CommitHashMismatch
  | InvalidHistoryCommit
  | RepoUnknownBranch string
  | UnknownCommit commit_id

record commit_write =
  cw_branch :: string
  cw_record :: commit_record
  cw_delta :: delta
  cw_program :: "kernel_program option"
  cw_morphism_path :: "string list"
  cw_before :: world_snapshot
  cw_after :: world_snapshot
  cw_accepted_ref :: "branch_ref option"
  cw_history :: "commit_id list"

section \<open>Steps\<close>

definition lift_res :: "('e \<Rightarrow> repo_error) \<Rightarrow> 'e + 'a \<Rightarrow> repo_error + 'a" where
  "lift_res err m = (case m of Inl e \<Rightarrow> Inl (err e) | Inr x \<Rightarrow> Inr x)"

lemma lift_res_simps [simp]: "lift_res err (Inl e) = Inl (err e)" "lift_res err (Inr x) = Inr x"
  by (simp_all add: lift_res_def)

definition text_payload :: "string \<Rightarrow> bytes" where
  "text_payload s = map char_to_byte s"

definition log_op :: "digest \<Rightarrow> wal_op \<Rightarrow> bytes \<Rightarrow> repository \<Rightarrow> repo_error + repository" where
  "log_op H op payload rp = res_bind (lift_res RepoWal (wal_append H op payload (rp_wal rp))) (\<lambda>w. Inr (rp\<lparr>rp_wal := w\<rparr>))"

definition put_object :: "digest \<Rightarrow> bytes \<Rightarrow> repository \<Rightarrow> repo_error + hash256 \<times> repository" where
  "put_object H bs rp =
     res_bind (lift_res RepoContent (put_bytes H bs (rp_objects rp))) (\<lambda>(i, s). Inr (i, rp\<lparr>rp_objects := s\<rparr>))"

definition put_logged :: "digest \<Rightarrow> bytes \<Rightarrow> repository \<Rightarrow> repo_error + hash256 \<times> repository" where
  "put_logged H bs rp =
     res_bind (put_object H bs rp) (\<lambda>(i, rp). res_bind (log_op H WalPutObject (hash_bytes i) rp) (\<lambda>rp. Inr (i, rp)))"

definition put_program :: "digest \<Rightarrow> commit_write \<Rightarrow> stored_commit \<times> repository \<Rightarrow> repo_error + stored_commit \<times> repository" where
  "put_program H w = (\<lambda>(c, rp). case cw_program w of
     None \<Rightarrow> Inr (c, rp)
   | Some p \<Rightarrow>
       res_bind (put_object H (encode_program p) rp) (\<lambda>(i, rp).
         if i \<noteq> cr_program_hash (cw_record w) then Inl ProgramHashMismatch
         else res_bind (log_op H WalPutObject (hash_bytes i) rp) (\<lambda>rp. Inr (c\<lparr>sc_program_object := i\<rparr>, rp))))"

definition put_checkpoint :: "digest \<Rightarrow> commit_write \<Rightarrow> repository \<Rightarrow> repo_error + repository" where
  "put_checkpoint H w rp =
     (if cr_checkpoint_snapshot_object (cw_record w) = 0 then Inr rp
      else res_bind (lift_res RepoChunk (put_snapshot H default_snapshot_page_size (cw_after w) (rp_objects rp))) (\<lambda>(i, s).
        if i \<noteq> cr_checkpoint_snapshot_object (cw_record w) then Inl CheckpointHashMismatch
        else log_op H WalPutObject (hash_bytes i) (rp\<lparr>rp_objects := s\<rparr>)))"

definition write_objects :: "digest \<Rightarrow> commit_write \<Rightarrow> repository \<Rightarrow> repo_error + stored_commit \<times> repository" where
  "write_objects H w rp = (let r = cw_record w; c = make_stored_commit r in
     res_bind (log_op H WalBeginCommit (text_payload (to_hex (cr_id r))) rp) (\<lambda>rp.
     res_bind (put_logged H (encode_delta (cw_delta w)) rp) (\<lambda>(d, rp).
     res_bind (put_program H w (c\<lparr>sc_delta_object := d\<rparr>, rp)) (\<lambda>(c, rp).
     res_bind (put_logged H (encode_trace_events (cr_events r)) rp) (\<lambda>(t, rp).
     res_bind (put_logged H (encode_law_statuses (cr_law_statuses r)) rp) (\<lambda>(l, rp).
     res_bind (put_logged H (encode_law_violations (cr_violations r)) rp) (\<lambda>(v, rp).
     res_bind (put_logged H (encode_morphism_path (cw_morphism_path w)) rp) (\<lambda>(m, rp).
     let c = c\<lparr>sc_trace_object := t, sc_law_status_object := l, sc_violation_object := v, sc_morphism_path_object := m\<rparr> in
     res_bind (put_checkpoint H w rp) (\<lambda>rp.
     res_bind (put_object H (encode_stored_commit c) rp) (\<lambda>(i, rp).
       if i \<noteq> cr_id r then Inl CommitHashMismatch
       else
         res_bind (log_op H WalPutObject (hash_bytes i) rp) (\<lambda>rp.
         res_bind (log_op H WalBindSnapshot (hash_bytes (cr_after_hash r)) rp) (\<lambda>rp. Inr (c, rp)))))))))))))"

definition make_commit_entry :: "string \<Rightarrow> commit_record \<Rightarrow> stored_commit \<Rightarrow> commit_index_entry" where
  "make_commit_entry branch r c =
     \<lparr>ci_id = cr_id r, ci_object = cr_id r, ci_branch = branch, ci_parents = cr_parents r,
      ci_before_snapshot = sc_before_snapshot_object c, ci_after_snapshot = sc_after_snapshot_object c,
      ci_delta = sc_delta_object c, ci_program = sc_program_object c, ci_before_root = cr_before_root r,
      ci_after_root = cr_after_root r, ci_checkpoint = cr_checkpoint_snapshot_object r, ci_distance = cr_checkpoint_distance r,
      ci_page_roots = cr_graph_page_roots r, ci_before_epoch = cr_before_epoch r, ci_after_epoch = cr_after_epoch r,
      ci_accepted = cr_accepted r, ci_origin = cr_origin r\<rparr>"

definition make_branch_entry :: "branch_ref \<Rightarrow> commit_id list \<Rightarrow> branch_index_entry" where
  "make_branch_entry ref history =
     \<lparr>bi_name = bf_name ref, bi_branch = bf_branch ref, bi_head = bf_head ref, bi_snapshot = bf_snapshot ref,
      bi_epoch = bf_epoch ref, bi_history = history\<rparr>"

definition write_indexes :: "digest \<Rightarrow> u64 \<Rightarrow> commit_write \<Rightarrow> stored_commit \<Rightarrow> repository \<Rightarrow> repo_error + repository" where
  "write_indexes H unspecified w c rp = (let r = cw_record w in
     res_bind (lift_res RepoIndex (commit_index_upsert H (make_commit_entry (cw_branch w) r c) (rp_commits rp))) (\<lambda>commits.
     res_bind (lift_res RepoIndex (event_index_commit H (cw_branch w) r (cw_after w) (rp_events rp))) (\<lambda>events.
     res_bind (lift_res RepoIndex (index_commit_graph H unspecified (cr_id r) (cr_after_root r) (cw_after w) (rp_world rp))) (\<lambda>world.
       Inr (rp\<lparr>rp_commits := commits, rp_events := events, rp_world := world\<rparr>)))))"

definition write_ref :: "digest \<Rightarrow> commit_write \<Rightarrow> repository \<Rightarrow> repo_error + repository" where
  "write_ref H w rp = (case cw_accepted_ref w of
     Some ref \<Rightarrow>
       res_bind (lift_res RepoRef (update_ref ref (rp_refs rp))) (\<lambda>refs.
       res_bind (lift_res RepoIndex (branch_index_upsert H (make_branch_entry ref (cw_history w)) (rp_branches rp))) (\<lambda>branches.
       res_bind (lift_res RepoIndex (update_branch_index H (bf_name ref) (bf_snapshot ref) (cw_after w) (rp_world rp))) (\<lambda>world.
         log_op H WalUpdateBranchRef (text_payload (bf_name ref)) (rp\<lparr>rp_refs := refs, rp_branches := branches, rp_world := world\<rparr>))))
   | None \<Rightarrow>
       res_bind (lift_res RepoIndex (branch_index_find H (cw_branch w) (rp_branches rp))) (\<lambda>found. case found of
         None \<Rightarrow> Inr rp
       | Some e \<Rightarrow>
           res_bind (lift_res RepoIndex (branch_index_upsert H (e\<lparr>bi_history := cw_history w\<rparr>) (rp_branches rp))) (\<lambda>branches.
             Inr (rp\<lparr>rp_branches := branches\<rparr>))))"

definition history_text :: "commit_id list \<Rightarrow> string" where
  "history_text history = concat (map (\<lambda>i. to_hex i @ [newline]) history)"

text \<open>The mirror of the history is written under the same rules as a reference.\<close>

definition write_history_mirror :: "string \<Rightarrow> commit_id list \<Rightarrow> (string, string) omap \<Rightarrow> ref_error + (string, string) omap" where
  "write_history_mirror branch history files =
     (if \<not> valid_branch_name branch then Inl (InvalidBranchName branch)
      else if last branch = CHR ''/'' \<or> below_file files branch \<or> is_directory files (branch @ ''.tmp'') \<or> is_directory files branch
      then Inl CannotWriteRef
      else Inr (om_put branch (history_text history) (om_erase (branch @ ''.tmp'') files)))"

definition write_commit :: "digest \<Rightarrow> u64 \<Rightarrow> commit_write \<Rightarrow> repository \<Rightarrow> repo_error + (stored_commit \<times> hash256) \<times> repository" where
  "write_commit H unspecified w rp =
     res_bind (write_objects H w rp) (\<lambda>(c, rp).
     res_bind (write_indexes H unspecified w c rp) (\<lambda>rp.
     res_bind (write_ref H w rp) (\<lambda>rp.
     res_bind (lift_res RepoRef (write_history_mirror (cw_branch w) (cw_history w) (rp_history rp))) (\<lambda>history.
     let rp = rp\<lparr>rp_history := history\<rparr> in
     res_bind (log_op H WalAddCommitNode (hash_bytes (cr_id (cw_record w))) rp) (\<lambda>rp.
     res_bind (log_op H WalEndCommit (hash_bytes (cr_id (cw_record w))) rp) (\<lambda>rp.
       Inr ((c, cr_id (cw_record w)), rp\<lparr>rp_wal := wal_truncate (rp_wal rp)\<rparr>)))))))"

definition read_history_step :: "commit_id list \<Rightarrow> string \<Rightarrow> repo_error + commit_id list" where
  "read_history_step out line =
     (if line = [] then Inr out
      else case parse_hash256 line of None \<Rightarrow> Inl InvalidHistoryCommit | Some i \<Rightarrow> Inr (out @ [i]))"

definition read_history_ids :: "string \<Rightarrow> (string, string) omap \<Rightarrow> repo_error + commit_id list" where
  "read_history_ids branch files =
     (if \<not> valid_branch_name branch then Inl (RepoRef (InvalidBranchName branch))
      else case om_find files branch of
             None \<Rightarrow> Inr []
           | Some s \<Rightarrow> res_fold read_history_step [] (text_lines s))"

section \<open>The mirror of the history reads back\<close>

lemma to_hex_line: "newline \<notin> set (to_hex i)" "to_hex i \<noteq> []"
  using to_hex_plain [of i] no_space_no_newline [of "to_hex i"] by (auto simp: plain_word_def)

lemma read_history_lines: "res_fold read_history_step out (map to_hex ids) = Inr (out @ ids)"
  by (induction ids arbitrary: out) (simp_all add: read_history_step_def to_hex_line)

lemma text_lines_history: "text_lines (history_text ids) = map to_hex ids"
proof -
  have "text_lines (concat (map (\<lambda>i. to_hex i @ [newline]) ids)) = map to_hex ids"
    by (induction ids) (simp_all add: text_lines_line to_hex_line)
  then show ?thesis by (simp add: history_text_def)
qed

lemma history_reads_back:
  assumes "write_history_mirror branch ids files = Inr files'"
  shows "read_history_ids branch files' = Inr ids"
  using assms read_history_lines [of "[]" ids]
  by (auto simp: write_history_mirror_def read_history_ids_def om_find_put text_lines_history split: if_splits)

section \<open>The objects of a write\<close>

definition logged :: "digest \<Rightarrow> (wal_op \<times> bytes) list \<Rightarrow> repository \<Rightarrow> bool" where
  "logged H ops rp \<longleftrightarrow> rp_wal rp = Some (wal_text (wal_numbered H ops))"

lemma log_op_logged:
  assumes "logged H ops rp"
  shows "log_op H op payload rp = Inr (rp\<lparr>rp_wal := Some (wal_text (wal_numbered H (ops @ [(op, payload)])))\<rparr>)"
    "logged H (ops @ [(op, payload)]) (rp\<lparr>rp_wal := Some (wal_text (wal_numbered H (ops @ [(op, payload)])))\<rparr>)"
  using assms by (simp_all add: log_op_def logged_def wal_append_numbered)

text \<open>The two repositories differ in objects and log only.\<close>

definition objects_only :: "repository \<Rightarrow> repository \<Rightarrow> bool" where
  "objects_only rp rp' \<longleftrightarrow> rp' = rp\<lparr>rp_objects := rp_objects rp', rp_wal := rp_wal rp'\<rparr>"

definition puts :: "digest \<Rightarrow> bytes set \<Rightarrow> (wal_op \<times> bytes) list \<Rightarrow> repository \<Rightarrow> bytes set \<Rightarrow> repository \<Rightarrow> bool" where
  "puts H U ops rp B rp' \<longleftrightarrow> stores H U (rp_objects rp) B (rp_objects rp') \<and> logged H ops rp' \<and> objects_only rp rp'"

lemma puts_trans: "puts H U ops rp B rp' \<Longrightarrow> puts H U ops' rp' C rp'' \<Longrightarrow> puts H U ops' rp (B \<union> C) rp''"
  using stores_trans [of H U "rp_objects rp" B "rp_objects rp'" C "rp_objects rp''"]
  by (cases rp; cases rp'; cases rp'') (simp add: puts_def objects_only_def)

lemma put_object_ok:
  assumes "content_ok H U (rp_objects rp)" "logged H ops rp" "bs \<in> U"
  obtains rp' where "put_object H bs rp = Inr (H bs, rp')" "puts H U ops rp {bs} rp'"
proof -
  from put_checked_ok [of H U "rp_objects rp" "\<lambda>x. x" bs] assms(1,3) obtain s where
    s: "put_checked H (\<lambda>x. x) bs (H bs) (rp_objects rp) = Inr s" "stores H U (rp_objects rp) {bs} s" by auto
  then have "put_bytes H bs (rp_objects rp) = Inr (H bs, s)"
    by (auto simp: put_checked_def put_canonical_def split: sum.splits if_splits)
  with s(2) assms(2) show thesis
    by (intro that [of "rp\<lparr>rp_objects := s\<rparr>"]) (simp_all add: put_object_def puts_def logged_def objects_only_def)
qed

lemma put_logged_ok:
  assumes "content_ok H U (rp_objects rp)" "logged H ops rp" "bs \<in> U"
  obtains rp' where "put_logged H bs rp = Inr (H bs, rp')" "puts H U (ops @ [(WalPutObject, hash_bytes (H bs))]) rp {bs} rp'"
proof -
  from put_object_ok [OF assms] obtain rp1 where rp1: "put_object H bs rp = Inr (H bs, rp1)" "puts H U ops rp {bs} rp1" .
  then have l: "logged H ops rp1" by (simp add: puts_def)
  note log = log_op_logged [OF l, of WalPutObject "hash_bytes (H bs)"]
  let ?rp = "rp1\<lparr>rp_wal := Some (wal_text (wal_numbered H (ops @ [(WalPutObject, hash_bytes (H bs))])))\<rparr>"
  have "puts H U (ops @ [(WalPutObject, hash_bytes (H bs))]) rp {bs} ?rp"
    using rp1(2) log(2) by (cases rp; cases rp1) (simp add: puts_def objects_only_def)
  with rp1(1) log(1) show thesis by (intro that [of ?rp]) (simp_all add: put_logged_def)
qed

definition stored_of :: "digest \<Rightarrow> commit_write \<Rightarrow> stored_commit" where
  "stored_of H w = (make_stored_commit (cw_record w))\<lparr>
     sc_delta_object := H (encode_delta (cw_delta w)),
     sc_program_object := (case cw_program w of None \<Rightarrow> cr_program_hash (cw_record w) | Some p \<Rightarrow> H (encode_program p)),
     sc_trace_object := H (encode_trace_events (cr_events (cw_record w))),
     sc_law_status_object := H (encode_law_statuses (cr_law_statuses (cw_record w))),
     sc_violation_object := H (encode_law_violations (cr_violations (cw_record w))),
     sc_morphism_path_object := H (encode_morphism_path (cw_morphism_path w))\<rparr>"

definition part_streams :: "digest \<Rightarrow> commit_write \<Rightarrow> bytes set" where
  "part_streams H w =
     {encode_delta (cw_delta w), encode_trace_events (cr_events (cw_record w)), encode_law_statuses (cr_law_statuses (cw_record w)),
      encode_law_violations (cr_violations (cw_record w)), encode_morphism_path (cw_morphism_path w),
      encode_stored_commit (stored_of H w)}
     \<union> encode_program ` set_option (cw_program w)"

text \<open>The record names the objects that are written: its program, its checkpoint and its own identity.\<close>

definition write_consistent :: "digest \<Rightarrow> bytes set \<Rightarrow> commit_write \<Rightarrow> bool" where
  "write_consistent H U w \<longleftrightarrow> part_streams H w \<subseteq> U
     \<and> (\<forall>p \<in> set_option (cw_program w). H (encode_program p) = cr_program_hash (cw_record w))
     \<and> (cr_checkpoint_snapshot_object (cw_record w) = 0
        \<or> (\<exists>p. build_chunked_snapshot_plan H (cw_after w) default_snapshot_page_size = Inr p
              \<and> plan_root_object p = cr_checkpoint_snapshot_object (cw_record w) \<and> plan_streams p \<subseteq> U))
     \<and> H (encode_stored_commit (stored_of H w)) = cr_id (cw_record w)"

definition checkpoint_streams :: "digest \<Rightarrow> commit_write \<Rightarrow> bytes set" where
  "checkpoint_streams H w =
     (if cr_checkpoint_snapshot_object (cw_record w) = 0 then {}
      else case build_chunked_snapshot_plan H (cw_after w) default_snapshot_page_size of Inl _ \<Rightarrow> {} | Inr p \<Rightarrow> plan_streams p)"

lemma log_op_puts:
  assumes "puts H U ops rp B rp'"
  obtains rp'' where "log_op H op payload rp' = Inr rp''" "puts H U (ops @ [(op, payload)]) rp B rp''"
proof -
  have l: "logged H ops rp'" using assms by (simp add: puts_def)
  note log = log_op_logged [OF l, of op payload]
  have "puts H U (ops @ [(op, payload)]) rp B (rp'\<lparr>rp_wal := Some (wal_text (wal_numbered H (ops @ [(op, payload)])))\<rparr>)"
    using assms log(2) by (cases rp; cases rp') (simp add: puts_def objects_only_def)
  with log(1) show thesis by (rule that)
qed

lemma puts_start:
  assumes "content_ok H U (rp_objects rp)" "logged H ops rp"
  shows "puts H U ops rp {} rp"
  using assms by (simp add: puts_def stores_def objects_only_def)

lemma puts_content: "puts H U ops rp B rp' \<Longrightarrow> content_ok H U (rp_objects rp') \<and> logged H ops rp'"
  by (simp add: puts_def stores_def)

lemma put_logged_puts:
  assumes "puts H U ops rp B rp'" "bs \<in> U"
  obtains ops' rp'' where "put_logged H bs rp' = Inr (H bs, rp'')" "puts H U ops' rp (B \<union> {bs}) rp''"
proof -
  from puts_content [OF assms(1)] have c: "content_ok H U (rp_objects rp')" "logged H ops rp'" by simp_all
  from put_logged_ok [OF c assms(2)] obtain rp'' where
    "put_logged H bs rp' = Inr (H bs, rp'')" "puts H U (ops @ [(WalPutObject, hash_bytes (H bs))]) rp' {bs} rp''" .
  with puts_trans [OF assms(1)] that show thesis by blast
qed

lemma put_program_puts:
  assumes "puts H U ops rp B rp'" "encode_program ` set_option (cw_program w) \<subseteq> U"
    and "\<forall>p \<in> set_option (cw_program w). H (encode_program p) = cr_program_hash (cw_record w)"
  obtains ops' rp'' where "put_program H w (c, rp')
      = Inr (case cw_program w of None \<Rightarrow> c | Some p \<Rightarrow> c\<lparr>sc_program_object := H (encode_program p)\<rparr>, rp'')"
    "puts H U ops' rp (B \<union> encode_program ` set_option (cw_program w)) rp''"
proof (cases "cw_program w")
  case None
  with assms(1) show thesis by (intro that [of rp' ops]) (simp_all add: put_program_def)
next
  case (Some p)
  from puts_content [OF assms(1)] have c: "content_ok H U (rp_objects rp')" "logged H ops rp'" by simp_all
  have "encode_program p \<in> U" using assms(2) Some by simp
  from put_object_ok [OF c this] obtain rp1 where rp1: "put_object H (encode_program p) rp' = Inr (H (encode_program p), rp1)"
    "puts H U ops rp' {encode_program p} rp1" .
  from log_op_puts [OF puts_trans [OF assms(1) rp1(2)], of WalPutObject "hash_bytes (H (encode_program p))"] obtain rp2 where
    "log_op H WalPutObject (hash_bytes (H (encode_program p))) rp1 = Inr rp2"
    "puts H U (ops @ [(WalPutObject, hash_bytes (H (encode_program p)))]) rp (B \<union> {encode_program p}) rp2" .
  with rp1(1) assms(3) Some show thesis by (intro that) (simp_all add: put_program_def)
qed

lemma put_checkpoint_puts:
  assumes "puts H U ops rp B rp'" "write_consistent H U w"
  obtains ops' rp'' where "put_checkpoint H w rp' = Inr rp''" "puts H U ops' rp (B \<union> checkpoint_streams H w) rp''"
proof (cases "cr_checkpoint_snapshot_object (cw_record w) = 0")
  case True
  with assms(1) show thesis by (intro that [of rp' ops]) (simp_all add: put_checkpoint_def checkpoint_streams_def)
next
  case False
  with assms(2) obtain p where p: "build_chunked_snapshot_plan H (cw_after w) default_snapshot_page_size = Inr p"
    "plan_root_object p = cr_checkpoint_snapshot_object (cw_record w)" "plan_streams p \<subseteq> U"
    by (auto simp: write_consistent_def)
  have content: "content_ok H U (rp_objects rp')" using puts_content [OF assms(1)] by simp
  from put_snapshot_ok [OF p(1) content p(3)] obtain s where
    s: "put_snapshot H default_snapshot_page_size (cw_after w) (rp_objects rp') = Inr (plan_root_object p, s)"
    "stores H U (rp_objects rp') (plan_streams p) s" by blast
  have "puts H U ops rp' (plan_streams p) (rp'\<lparr>rp_objects := s\<rparr>)"
    using s(2) puts_content [OF assms(1)] by (simp add: puts_def logged_def objects_only_def)
  from log_op_puts [OF puts_trans [OF assms(1) this], of WalPutObject "hash_bytes (plan_root_object p)"] obtain rp2 where
    "log_op H WalPutObject (hash_bytes (plan_root_object p)) (rp'\<lparr>rp_objects := s\<rparr>) = Inr rp2"
    "puts H U (ops @ [(WalPutObject, hash_bytes (plan_root_object p))]) rp (B \<union> plan_streams p) rp2" .
  with s(1) p False show thesis by (intro that) (simp_all add: put_checkpoint_def checkpoint_streams_def)
qed

text \<open>Every object of the write is in the store afterwards, with everything that was there before.\<close>

lemma write_objects_ok:
  assumes content: "content_ok H U (rp_objects rp)" and log: "logged H ops rp" and w: "write_consistent H U w"
  obtains ops' rp' where "write_objects H w rp = Inr (stored_of H w, rp')"
    "puts H U ops' rp (part_streams H w \<union> checkpoint_streams H w) rp'"
proof -
  let ?r = "cw_record w" let ?c = "make_stored_commit ?r"
  let ?d = "encode_delta (cw_delta w)" let ?t = "encode_trace_events (cr_events ?r)" let ?l = "encode_law_statuses (cr_law_statuses ?r)"
  let ?v = "encode_law_violations (cr_violations ?r)" let ?m = "encode_morphism_path (cw_morphism_path w)"
  let ?s = "encode_stored_commit (stored_of H w)"
  have U: "?d \<in> U" "?t \<in> U" "?l \<in> U" "?v \<in> U" "?m \<in> U" "?s \<in> U" "encode_program ` set_option (cw_program w) \<subseteq> U"
    and prog: "\<forall>p \<in> set_option (cw_program w). H (encode_program p) = cr_program_hash ?r" and i: "H ?s = cr_id ?r"
    using w by (simp_all add: write_consistent_def part_streams_def)
  obtain rp0 where rp0: "log_op H WalBeginCommit (text_payload (to_hex (cr_id ?r))) rp = Inr rp0"
    "puts H U (ops @ [(WalBeginCommit, text_payload (to_hex (cr_id ?r)))]) rp {} rp0"
    by (rule log_op_puts [OF puts_start [OF content log]])
  obtain o1 rp1 where rp1: "put_logged H ?d rp0 = Inr (H ?d, rp1)" "puts H U o1 rp ({} \<union> {?d}) rp1"
    by (rule put_logged_puts [OF rp0(2) U(1)])
  obtain o2 rp2 where rp2: "put_program H w (?c\<lparr>sc_delta_object := H ?d\<rparr>, rp1)
      = Inr (case cw_program w of None \<Rightarrow> ?c\<lparr>sc_delta_object := H ?d\<rparr>
             | Some p \<Rightarrow> ?c\<lparr>sc_delta_object := H ?d, sc_program_object := H (encode_program p)\<rparr>, rp2)"
    "puts H U o2 rp ({} \<union> {?d} \<union> encode_program ` set_option (cw_program w)) rp2"
    by (rule put_program_puts [OF rp1(2) U(7) prog])
  obtain o3 rp3 where rp3: "put_logged H ?t rp2 = Inr (H ?t, rp3)"
    "puts H U o3 rp ({} \<union> {?d} \<union> encode_program ` set_option (cw_program w) \<union> {?t}) rp3"
    by (rule put_logged_puts [OF rp2(2) U(2)])
  obtain o4 rp4 where rp4: "put_logged H ?l rp3 = Inr (H ?l, rp4)"
    "puts H U o4 rp ({} \<union> {?d} \<union> encode_program ` set_option (cw_program w) \<union> {?t} \<union> {?l}) rp4"
    by (rule put_logged_puts [OF rp3(2) U(3)])
  obtain o5 rp5 where rp5: "put_logged H ?v rp4 = Inr (H ?v, rp5)"
    "puts H U o5 rp ({} \<union> {?d} \<union> encode_program ` set_option (cw_program w) \<union> {?t} \<union> {?l} \<union> {?v}) rp5"
    by (rule put_logged_puts [OF rp4(2) U(4)])
  obtain o6 rp6 where rp6: "put_logged H ?m rp5 = Inr (H ?m, rp6)"
    "puts H U o6 rp ({} \<union> {?d} \<union> encode_program ` set_option (cw_program w) \<union> {?t} \<union> {?l} \<union> {?v} \<union> {?m}) rp6"
    by (rule put_logged_puts [OF rp5(2) U(5)])
  obtain o7 rp7 where rp7: "put_checkpoint H w rp6 = Inr rp7"
    "puts H U o7 rp ({} \<union> {?d} \<union> encode_program ` set_option (cw_program w) \<union> {?t} \<union> {?l} \<union> {?v} \<union> {?m} \<union> checkpoint_streams H w) rp7"
    by (rule put_checkpoint_puts [OF rp6(2) w])
  from puts_content [OF rp7(2)] have c7: "content_ok H U (rp_objects rp7)" "logged H o7 rp7" by simp_all
  obtain rp8 where rp8: "put_object H ?s rp7 = Inr (H ?s, rp8)" "puts H U o7 rp7 {?s} rp8"
    by (rule put_object_ok [OF c7 U(6)])
  obtain rp9 where rp9: "log_op H WalPutObject (hash_bytes (H ?s)) rp8 = Inr rp9"
    "puts H U (o7 @ [(WalPutObject, hash_bytes (H ?s))]) rp7 {?s} rp9"
    by (rule log_op_puts [OF rp8(2)])
  obtain rp10 where rp10: "log_op H WalBindSnapshot (hash_bytes (cr_after_hash ?r)) rp9 = Inr rp10"
    "puts H U ((o7 @ [(WalPutObject, hash_bytes (H ?s))]) @ [(WalBindSnapshot, hash_bytes (cr_after_hash ?r))]) rp7 {?s} rp10"
    by (rule log_op_puts [OF rp9(2)])
  have all: "{} \<union> {?d} \<union> encode_program ` set_option (cw_program w) \<union> {?t} \<union> {?l} \<union> {?v} \<union> {?m} \<union> checkpoint_streams H w \<union> {?s}
      = part_streams H w \<union> checkpoint_streams H w"
    by (auto simp: part_streams_def)
  have e: "(case cw_program w of None \<Rightarrow> ?c\<lparr>sc_delta_object := H ?d\<rparr>
             | Some p \<Rightarrow> ?c\<lparr>sc_delta_object := H ?d, sc_program_object := H (encode_program p)\<rparr>)
      \<lparr>sc_trace_object := H ?t, sc_law_status_object := H ?l, sc_violation_object := H ?v, sc_morphism_path_object := H ?m\<rparr>
    = stored_of H w"
    by (simp add: stored_of_def make_stored_commit_def split: option.split)
  show thesis
  proof (rule that)
    show "write_objects H w rp = Inr (stored_of H w, rp10)"
      using rp0(1) rp1(1) rp2(1) rp3(1) rp4(1) rp5(1) rp6(1) rp7(1) rp8(1) rp9(1) rp10(1) i
      by (simp add: write_objects_def Let_def e)
    show "puts H U ((o7 @ [(WalPutObject, hash_bytes (H ?s))]) @ [(WalBindSnapshot, hash_bytes (cr_after_hash ?r))]) rp
        (part_streams H w \<union> checkpoint_streams H w) rp10"
      using puts_trans [OF rp7(2) rp10(2)] by (simp only: all)
  qed
qed

section \<open>A whole write\<close>

text \<open>The indexes, the reference and the mirror of the history take the commit.\<close>

definition indexes_accept :: "digest \<Rightarrow> u64 \<Rightarrow> commit_write \<Rightarrow> repository \<Rightarrow> bool" where
  "indexes_accept H unspecified w rp \<longleftrightarrow>
     \<not> isl (res_bind (write_indexes H unspecified w (stored_of H w) rp) (\<lambda>rp. res_bind (write_ref H w rp) (\<lambda>rp.
       lift_res RepoRef (write_history_mirror (cw_branch w) (cw_history w) (rp_history rp)))))"

lemma write_indexes_objects_only:
  assumes "objects_only rp rp'"
  shows "write_indexes H u w c rp'
    = res_bind (write_indexes H u w c rp) (\<lambda>x. Inr (x\<lparr>rp_objects := rp_objects rp', rp_wal := rp_wal rp'\<rparr>))"
  by (subst assms [unfolded objects_only_def])
    (auto simp: write_indexes_def Let_def res_bind_def lift_res_def split: sum.splits)

lemma write_indexes_fields:
  assumes "write_indexes H u w c rp = Inr rp'"
  shows "rp_objects rp' = rp_objects rp" "rp_wal rp' = rp_wal rp" "rp_refs rp' = rp_refs rp" "rp_history rp' = rp_history rp"
    "rp_branches rp' = rp_branches rp"
    "commit_index_upsert H (make_commit_entry (cw_branch w) (cw_record w) c) (rp_commits rp) = Inr (rp_commits rp')"
  using assms by (auto simp: write_indexes_def Let_def res_bind_Inr_iff lift_res_def split: sum.splits)

lemma write_ref_swap:
  assumes "logged H ops rp" "logged H ops' rp'" "rp' = rp\<lparr>rp_objects := s, rp_wal := l\<rparr>" "write_ref H w rp = Inr x"
  obtains x' ops'' where "write_ref H w rp' = Inr x'" "logged H ops'' x'" "rp_objects x' = s" "rp_history x' = rp_history rp"
    "rp_commits x' = rp_commits rp" "rp_history x = rp_history rp"
proof (cases "cw_accepted_ref w")
  case None
  with assms(4) obtain found where f: "branch_index_find H (cw_branch w) (rp_branches rp) = Inr found"
    by (auto simp: write_ref_def res_bind_Inr_iff lift_res_def split: sum.splits)
  show thesis
  proof (cases found)
    case None
    with \<open>cw_accepted_ref w = None\<close> assms(4) f have "x = rp" by (simp add: write_ref_def)
    with None \<open>cw_accepted_ref w = None\<close> assms(2,3) f show thesis by (intro that [of rp' ops']) (simp_all add: write_ref_def)
  next
    case (Some e)
    with \<open>cw_accepted_ref w = None\<close> assms(4) f obtain b where
      b: "branch_index_upsert H (e\<lparr>bi_history := cw_history w\<rparr>) (rp_branches rp) = Inr b" "x = rp\<lparr>rp_branches := b\<rparr>"
      by (auto simp: write_ref_def res_bind_Inr_iff lift_res_def split: sum.splits)
    with \<open>cw_accepted_ref w = None\<close> Some assms(2,3) f show thesis
      by (intro that [of "rp'\<lparr>rp_branches := b\<rparr>" ops']) (auto simp: write_ref_def logged_def)
  qed
next
  case (Some ref)
  with assms(4) obtain refs b wi where
    r: "update_ref ref (rp_refs rp) = Inr refs" "branch_index_upsert H (make_branch_entry ref (cw_history w)) (rp_branches rp) = Inr b"
      "update_branch_index H (bf_name ref) (bf_snapshot ref) (cw_after w) (rp_world rp) = Inr wi"
      "log_op H WalUpdateBranchRef (text_payload (bf_name ref)) (rp\<lparr>rp_refs := refs, rp_branches := b, rp_world := wi\<rparr>) = Inr x"
    by (auto simp: write_ref_def res_bind_Inr_iff lift_res_def split: sum.splits)
  have "logged H ops' (rp'\<lparr>rp_refs := refs, rp_branches := b, rp_world := wi\<rparr>)" using assms(2) by (simp add: logged_def)
  note l = log_op_logged [OF this, of WalUpdateBranchRef "text_payload (bf_name ref)"]
  have h: "rp_history x = rp_history rp" using r(4) by (auto simp: log_op_def res_bind_Inr_iff)
  have f: "rp_refs rp' = rp_refs rp" "rp_branches rp' = rp_branches rp" "rp_world rp' = rp_world rp" "rp_objects rp' = s"
    "rp_history rp' = rp_history rp" "rp_commits rp' = rp_commits rp"
    using assms(3) by simp_all
  show thesis
  proof (rule that [OF _ l(2) _ _ _ h])
    show "write_ref H w rp' = Inr (rp'\<lparr>rp_refs := refs, rp_branches := b, rp_world := wi\<rparr>
      \<lparr>rp_wal := Some (wal_text (wal_numbered H (ops' @ [(WalUpdateBranchRef, text_payload (bf_name ref))])))\<rparr>)"
      by (simp only: write_ref_def Some option.case f r(1-3) lift_res_simps res_bind_simps l(1))
  qed (simp_all add: f)
qed

lemma write_commit_ok:
  assumes content: "content_ok H U (rp_objects rp)" and log: "logged H ops rp" and w: "write_consistent H U w"
    and accept: "indexes_accept H u w rp"
  obtains rp' where "write_commit H u w rp = Inr ((stored_of H w, cr_id (cw_record w)), rp')"
    "stores H U (rp_objects rp) (part_streams H w \<union> checkpoint_streams H w) (rp_objects rp')" "rp_wal rp' = Some []"
    "read_history_ids (cw_branch w) (rp_history rp') = Inr (cw_history w)"
    "commit_index_upsert H (make_commit_entry (cw_branch w) (cw_record w) (stored_of H w)) (rp_commits rp) = Inr (rp_commits rp')"
proof -
  let ?c = "stored_of H w" let ?i = "hash_bytes (cr_id (cw_record w))"
  obtain o1 rp1 where obj: "write_objects H w rp = Inr (?c, rp1)"
    "puts H U o1 rp (part_streams H w \<union> checkpoint_streams H w) rp1"
    by (rule write_objects_ok [OF content log w])
  have only: "objects_only rp rp1" and l1: "logged H o1 rp1" using obj(2) by (simp_all add: puts_def)
  from accept obtain x2 x3 hist where x: "write_indexes H u w ?c rp = Inr x2" "write_ref H w x2 = Inr x3"
    "write_history_mirror (cw_branch w) (cw_history w) (rp_history x3) = Inr hist"
    by (auto simp: indexes_accept_def res_bind_def lift_res_def split: sum.splits)
  let ?rp2 = "x2\<lparr>rp_objects := rp_objects rp1, rp_wal := rp_wal rp1\<rparr>"
  have rp2: "write_indexes H u w ?c rp1 = Inr ?rp2" by (simp add: write_indexes_objects_only [OF only] x(1))
  note fields = write_indexes_fields [OF x(1)]
  have lx: "logged H ops x2" and l2: "logged H o1 ?rp2" using log l1 by (simp_all add: logged_def fields)
  obtain rp3 o3 where rp3: "write_ref H w ?rp2 = Inr rp3" "logged H o3 rp3" "rp_objects rp3 = rp_objects rp1"
    "rp_history rp3 = rp_history x2" "rp_commits rp3 = rp_commits x2" "rp_history x3 = rp_history x2"
    by (rule write_ref_swap [OF lx l2 refl x(2)])
  have "logged H o3 (rp3\<lparr>rp_history := hist\<rparr>)" using rp3(2) by (simp add: logged_def)
  note l4 = log_op_logged [OF this, of WalAddCommitNode ?i]
  note l5 = log_op_logged [OF l4(2), of WalEndCommit ?i]
  show thesis
  proof (rule that)
    show "write_commit H u w rp = Inr ((?c, cr_id (cw_record w)), rp3\<lparr>rp_history := hist, rp_wal := Some []\<rparr>)"
    proof -
      have "rp_history rp3 = rp_history x3" using rp3(4,6) by simp
      note h = arg_cong [where f = "write_history_mirror (cw_branch w) (cw_history w)", OF this, unfolded x(3)]
      show ?thesis
        unfolding write_commit_def obj(1) res_bind_simps prod.case rp2 rp3(1) h lift_res_simps Let_def l4(1) l5(1)
        by (simp add: wal_truncate_def)
    qed
    show "stores H U (rp_objects rp) (part_streams H w \<union> checkpoint_streams H w) (rp_objects (rp3\<lparr>rp_history := hist, rp_wal := Some []\<rparr>))"
      using obj(2) rp3(3) by (simp add: puts_def)
    show "read_history_ids (cw_branch w) (rp_history (rp3\<lparr>rp_history := hist, rp_wal := Some []\<rparr>)) = Inr (cw_history w)"
      using history_reads_back [OF x(3)] by simp
    show "commit_index_upsert H (make_commit_entry (cw_branch w) (cw_record w) ?c) (rp_commits rp)
        = Inr (rp_commits (rp3\<lparr>rp_history := hist, rp_wal := Some []\<rparr>))"
      using fields(6) rp3(5) by simp
  qed simp
qed

section \<open>What was written is what is read\<close>

lemma stores_keeps:
  assumes "content_ok H U s" "stores H U s B s'"
  shows "keeps_on H UNIV s s'"
  unfolding keeps_on_def kept_def
proof (intro ballI allI impI)
  fix i b assume b: "get_bytes H s i = Inr b"
  then have i: "H b = i" by (rule content_ok_get(2) [OF assms(1)])
  with b have "held H s b" by (simp add: held_def)
  with assms(2) have "held H s' b" by (simp add: stores_def)
  with i show "get_bytes H s' i = Inr b" by (simp add: held_def)
qed

lemma stored_at_written:
  assumes "held H s (encode_stored_commit c)" "commit_ok (sc_record c)"
  shows "stored_at H s (H (encode_stored_commit c)) = Inr (norm_stored_commit c)"
  using assms by (simp add: stored_at_def mat_get_def get_canonical_def decode_canonical_def held_def
      decode_stored_commit_encode reader_eof_def)

lemma stored_of_fields:
  "sc_record (norm_stored_commit (stored_of H w)) = norm_commit (cw_record w)" "sc_record (stored_of H w) = cw_record w"
  "sc_format_version (norm_stored_commit (stored_of H w)) = 4"
  "sc_delta_object (norm_stored_commit (stored_of H w)) = H (encode_delta (cw_delta w))"
  by (simp_all add: stored_of_def norm_stored_commit_def make_stored_commit_def)

lemma norm_commit_fields [simp]:
  "cr_parents (norm_commit r) = cr_parents r" "cr_accepted (norm_commit r) = cr_accepted r"
  "cr_after_hash (norm_commit r) = cr_after_hash r" "cr_after_root (norm_commit r) = cr_after_root r"
  "cr_checkpoint_snapshot_object (norm_commit r) = cr_checkpoint_snapshot_object r"
  by (simp_all add: norm_commit_def)

lemma verify_norm: "verify_snapshot H i (norm_commit r) v = verify_snapshot H i r v"
  by (simp add: verify_snapshot_def)

text \<open>
  A written commit is the last of its chain: its snapshot is the one its first parent materialises to with the delta
  applied, or, when it carries a checkpoint, the snapshot that was stored.
\<close>

lemma written_commit_materializes:
  assumes content: "content_ok H U s" and stores: "stores H U s (part_streams H w \<union> checkpoint_streams H w) s'"
    and w: "write_consistent H U w" and ok: "commit_ok (cw_record w)" "delta_ok (cw_delta w)" and acc: "cr_accepted (cw_record w)"
    and none: "cr_checkpoint_snapshot_object (cw_record w) = 0" and parents: "cr_parents (cw_record w) = p # ps"
    and out: "materialize_accepted_chain_to H s p = Some (Inr out)"
    and after: "apply_delta_to_snapshot H (snd (last out)) (map norm_operation (cw_delta w)) = Inr after"
    and verify: "verify_snapshot H (cr_id (cw_record w)) (cw_record w) after = Inr ()"
  shows "materialize_accepted_chain_to H s' (cr_id (cw_record w)) = Some (Inr (out @ [(cr_id (cw_record w), after)]))"
proof -
  let ?c = "stored_of H w" let ?i = "cr_id (cw_record w)"
  have i: "H (encode_stored_commit ?c) = ?i" using w by (simp add: write_consistent_def)
  have held: "held H s' (encode_stored_commit ?c)" "held H s' (encode_delta (cw_delta w))"
    using stores by (simp_all add: stores_def part_streams_def)
  have c: "stored_at H s' ?i = Inr (norm_stored_commit ?c)"
    using stored_at_written [OF held(1)] ok(1) by (simp add: stored_of_fields i)
  have d: "mat_get H decode_delta s' (H (encode_delta (cw_delta w))) = Inr (map norm_operation (cw_delta w))"
    using deltac.get_held [OF ok(2) held(2)] by (simp add: mat_get_def)
  from out obtain ids where ids: "parent_chain H s p = Some (Inr ids)"
    by (auto simp: materialize_accepted_chain_to_def res_bind_Inr_iff)
  have out': "materialize_accepted_chain_to H s' p = Some (Inr out)"
    by (rule materialize_kept(2) [OF stores_keeps [OF content stores] ids _ out]) simp
  have step: "materialize_step H s' (snd (last out), out) ?i = Inr (after, out @ [(?i, after)])"
    by (simp add: materialize_step_def c stored_of_fields acc d after verify_norm verify)
  have "\<not> is_checkpoint (norm_stored_commit ?c)" using none by (simp add: is_checkpoint_def stored_of_fields)
  from materialize_extends [OF c _ this out' step] parents show ?thesis by (simp add: stored_of_fields)
qed

lemma written_checkpoint_materializes:
  assumes content: "content_ok H U s" and stores: "stores H U s (part_streams H w \<union> checkpoint_streams H w) s'"
    and w: "write_consistent H U w" and ok: "commit_ok (cw_record w)" "plan_ok (cw_after w)" and acc: "cr_accepted (cw_record w)"
    and some: "cr_checkpoint_snapshot_object (cw_record w) \<noteq> 0"
    and chain: "cr_parents (cw_record w) = [] \<or> (\<exists>p ps ids. cr_parents (cw_record w) = p # ps \<and> parent_chain H s p = Some (Inr ids))"
    and verify: "verify_snapshot H (cr_id (cw_record w)) (cw_record w) (paged_snapshot default_snapshot_page_size (cw_after w)) = Inr ()"
  shows "materialize_accepted_chain_to H s' (cr_id (cw_record w))
    = Some (Inr [(cr_id (cw_record w), paged_snapshot default_snapshot_page_size (cw_after w))])"
proof -
  let ?c = "stored_of H w" let ?i = "cr_id (cw_record w)" let ?n = "norm_stored_commit ?c"
  have i: "H (encode_stored_commit ?c) = ?i" using w by (simp add: write_consistent_def)
  from w some obtain p where p: "build_chunked_snapshot_plan H (cw_after w) default_snapshot_page_size = Inr p"
    "plan_root_object p = cr_checkpoint_snapshot_object (cw_record w)"
    by (auto simp: write_consistent_def)
  have held: "held H s' (encode_stored_commit ?c)" "\<forall>b \<in> plan_streams p. held H s' b"
    using stores some p(1) by (simp_all add: stores_def part_streams_def checkpoint_streams_def)
  have c: "stored_at H s' ?i = Inr ?n" using stored_at_written [OF held(1)] ok(1) by (simp add: stored_of_fields i)
  have load: "load_checkpoint H s' ?i = Inr (paged_snapshot default_snapshot_page_size (cw_after w))"
    using get_snapshot_held [OF p(1) ok(2) held(2)] some p(2) by (simp add: load_checkpoint_def c stored_of_fields)
  have "\<exists>ids. parent_chain H s' ?i = Some (Inr ids)"
    using chain
  proof (elim disjE exE conjE)
    assume "cr_parents (cw_record w) = []"
    then show ?thesis using parent_chain_root [OF c] by (simp add: stored_of_fields)
  next
    fix q ps ids assume q: "cr_parents (cw_record w) = q # ps" "parent_chain H s q = Some (Inr ids)"
    then have "chain_of H s (rev ids)" "ids \<noteq> []" "last ids = q" by (simp_all add: parent_chain_iff)
    with chain_of_kept [OF stores_keeps [OF content stores], of "rev ids"] have "parent_chain H s' q = Some (Inr ids)"
      by (simp add: parent_chain_iff)
    from parent_chain_snoc [OF c _ this] q(1) show ?thesis by (simp add: stored_of_fields)
  qed
  then obtain ids where "parent_chain H s' ?i = Some (Inr ids)" ..
  moreover have "is_checkpoint ?n" using some acc by (simp add: is_checkpoint_def stored_of_fields)
  ultimately show ?thesis using materialize_checkpoint [OF c _ _ load] verify by (simp add: stored_of_fields verify_norm)
qed

end
