(* ===== verification/Repo_Gc.thy ===== *)
theory Repo_Gc
  imports Repo_Write
begin

text \<open>
  The collector of unreachable objects (\<open>src/storage/repository_gc.cpp\<close>): what the histories of the branches name is
  marked, loose objects that are not marked are moved to the quarantine, and the quarantine is pruned.  The lemmas show
  that the quarantine loses nothing and that every branch whose checkpoints list their pages materialises as before.
\<close>

record reachability_report =
  rr_reachable :: nat
  rr_unreachable :: nat
  rr_quarantined :: nat

record gc_state =
  gs_objects :: content_store
  gs_quarantine :: "(hash256, bytes) omap"

definition add_hash :: "hash256 \<Rightarrow> hash256 set \<Rightarrow> hash256 set" where
  "add_hash h out = (if h = 0 then out else insert h out)"

definition mark_stored :: "stored_commit \<Rightarrow> hash256 set \<Rightarrow> hash256 set" where
  "mark_stored c out = (let
     out = add_hash (sc_delta_object c) out;
     out = add_hash (sc_program_object c) out;
     out = add_hash (sc_trace_object c) out;
     out = add_hash (sc_law_status_object c) out;
     out = add_hash (sc_violation_object c) out;
     out = add_hash (sc_morphism_path_object c) out;
     out = (if sc_format_version c < 4
            then add_hash (sc_after_snapshot_object c) (add_hash (sc_before_snapshot_object c) out) else out);
     out = add_hash (cr_checkpoint_snapshot_object (sc_record c)) out
   in fold add_hash (cr_graph_page_roots (sc_record c)) out)"

definition mark_commit :: "digest \<Rightarrow> content_store \<Rightarrow> hash256 set \<Rightarrow> commit_id \<Rightarrow> repo_error + hash256 set" where
  "mark_commit H s out i =
     res_bind (lift_res RepoContent (get_canonical H decode_stored_commit s i)) (\<lambda>c. Inr (mark_stored c (add_hash i out)))"

definition mark_branch :: "digest \<Rightarrow> content_store \<Rightarrow> hash256 set \<Rightarrow> branch_index_entry \<Rightarrow> repo_error + hash256 set" where
  "mark_branch H s out b = res_fold (mark_commit H s) (add_hash (bi_head b) out) (bi_history b)"

definition reachable_objects :: "digest \<Rightarrow> index_file \<Rightarrow> content_store \<Rightarrow> repo_error + hash256 set" where
  "reachable_objects H branches s =
     res_bind (lift_res RepoIndex (branch_index_entries H branches)) (\<lambda>bs. res_fold (mark_branch H s) {} bs)"

definition loose_objects :: "content_store \<Rightarrow> hash256 list" where
  "loose_objects s = map fst (cs_loose s)"

definition gc_mark :: "digest \<Rightarrow> index_file \<Rightarrow> content_store \<Rightarrow> repo_error + reachability_report" where
  "gc_mark H branches s =
     res_bind (reachable_objects H branches s) (\<lambda>marked.
       Inr \<lparr>rr_reachable = card marked, rr_unreachable = length (filter (\<lambda>i. i \<notin> marked) (loose_objects s)), rr_quarantined = 0\<rparr>)"

definition quarantine_object ::
  "hash256 set \<Rightarrow> hash256 \<Rightarrow> reachability_report \<times> gc_state \<Rightarrow> reachability_report \<times> gc_state" where
  "quarantine_object marked i = (\<lambda>(report, g).
     if i \<in> marked then (report, g)
     else case om_find (cs_loose (gs_objects g)) i of
            None \<Rightarrow> (report, g)
          | Some bs \<Rightarrow>
              (report\<lparr>rr_quarantined := rr_quarantined report + 1\<rparr>,
               g\<lparr>gs_objects := (gs_objects g)\<lparr>cs_loose := om_erase i (cs_loose (gs_objects g))\<rparr>,
                 gs_quarantine := om_put i bs (gs_quarantine g)\<rparr>))"

definition quarantine_unreachable :: "digest \<Rightarrow> index_file \<Rightarrow> gc_state \<Rightarrow> repo_error + reachability_report \<times> gc_state" where
  "quarantine_unreachable H branches g =
     res_bind (gc_mark H branches (gs_objects g)) (\<lambda>report.
     res_bind (reachable_objects H branches (gs_objects g)) (\<lambda>marked.
       Inr (fold (quarantine_object marked) (loose_objects (gs_objects g)) (report, g))))"

definition prune_quarantine :: "gc_state \<Rightarrow> gc_state" where
  "prune_quarantine g = g\<lparr>gs_quarantine := []\<rparr>"

section \<open>What is marked\<close>

text \<open>The objects a stored commit names.\<close>

definition named_objects :: "stored_commit \<Rightarrow> hash256 set" where
  "named_objects c =
     {sc_delta_object c, sc_program_object c, sc_trace_object c, sc_law_status_object c, sc_violation_object c,
      sc_morphism_path_object c, cr_checkpoint_snapshot_object (sc_record c)}
     \<union> (if sc_format_version c < 4 then {sc_before_snapshot_object c, sc_after_snapshot_object c} else {})
     \<union> set (cr_graph_page_roots (sc_record c))"

lemma add_hash_set: "add_hash h out = out \<union> ({h} - {0})"
  by (auto simp: add_hash_def)

lemma fold_add_hash: "fold add_hash hs out = out \<union> (set hs - {0})"
  by (induction hs arbitrary: out) (auto simp: add_hash_set)

lemma mark_stored_set: "mark_stored c out = out \<union> (named_objects c - {0})"
  unfolding mark_stored_def Let_def fold_add_hash named_objects_def add_hash_set by (auto split: if_splits)

lemma mark_commits:
  assumes "res_fold (mark_commit H s) out ids = Inr out'"
  shows "out \<subseteq> out' \<and> (\<forall>i \<in> set ids. \<exists>c. get_canonical H decode_stored_commit s i = Inr c \<and> insert i (named_objects c) \<subseteq> insert 0 out')"
  using assms
proof (induction ids arbitrary: out)
  case (Cons i ids)
  from Cons.prems obtain mid where mid: "mark_commit H s out i = Inr mid" and rest: "res_fold (mark_commit H s) mid ids = Inr out'"
    by (auto simp: res_bind_Inr_iff)
  from mid obtain c where c: "get_canonical H decode_stored_commit s i = Inr c" and "mid = mark_stored c (add_hash i out)"
    by (auto simp: mark_commit_def lift_res_def res_bind_Inr_iff split: sum.splits)
  note rest = rest [unfolded this(2)]
  have "out \<union> ({i} - {0}) \<union> (named_objects c - {0}) \<subseteq> out'"
    using Cons.IH [OF rest] by (simp add: mark_stored_set add_hash_set)
  with Cons.IH [OF rest] c show ?case by auto
qed simp

lemma mark_branches:
  assumes "res_fold (mark_branch H s) out bs = Inr out'"
  shows "out \<subseteq> out' \<and> (\<forall>b \<in> set bs. \<forall>i \<in> set (bi_history b).
    \<exists>c. get_canonical H decode_stored_commit s i = Inr c \<and> insert i (named_objects c) \<subseteq> insert 0 out')"
  using assms
proof (induction bs arbitrary: out)
  case (Cons b bs)
  from Cons.prems obtain mid where "mark_branch H s out b = Inr mid" and rest: "res_fold (mark_branch H s) mid bs = Inr out'"
    by (auto simp: res_bind_Inr_iff)
  then have b: "res_fold (mark_commit H s) (add_hash (bi_head b) out) (bi_history b) = Inr mid" by (simp add: mark_branch_def)
  note m = mark_commits [OF b]
  note r = Cons.IH [OF rest]
  have "out \<subseteq> mid" using m by (auto simp: add_hash_set)
  moreover have "mid \<subseteq> out'" using r by (rule conjunct1)
  ultimately have "out \<subseteq> out'" by (rule order.trans)
  moreover have "\<exists>c. get_canonical H decode_stored_commit s i = Inr c \<and> insert i (named_objects c) \<subseteq> insert 0 out'"
    if "x \<in> set (b # bs)" "i \<in> set (bi_history x)" for x i
  proof (cases "x = b")
    case True
    with that(2) have "i \<in> set (bi_history b)" by simp
    with conjunct2 [OF m] obtain c where "get_canonical H decode_stored_commit s i = Inr c" "insert i (named_objects c) \<subseteq> insert 0 mid"
      by blast
    with \<open>mid \<subseteq> out'\<close> show ?thesis by blast
  next
    case False
    with that have "x \<in> set bs" by simp
    with conjunct2 [OF r] that(2) show ?thesis by blast
  qed
  ultimately show ?case by blast
qed simp

text \<open>Every commit of every history is marked with all the objects it names.\<close>

lemma reachable_covers:
  assumes "reachable_objects H branches s = Inr marked" "branch_index_entries H branches = Inr bs" "b \<in> set bs" "i \<in> set (bi_history b)"
  obtains c where "get_canonical H decode_stored_commit s i = Inr c" "insert i (named_objects c) \<subseteq> insert 0 marked"
proof -
  have "res_fold (mark_branch H s) {} bs = Inr marked" using assms(1,2) by (simp add: reachable_objects_def)
  from mark_branches [OF this] assms(3,4) that show thesis by blast
qed

section \<open>What the quarantine does\<close>

definition quarantined :: "hash256 set \<Rightarrow> hash256 list \<Rightarrow> gc_state \<Rightarrow> gc_state \<Rightarrow> bool" where
  "quarantined marked moved g g' \<longleftrightarrow> cs_packs (gs_objects g') = cs_packs (gs_objects g)
     \<and> om_find (cs_loose (gs_objects g')) = (\<lambda>i. if i \<in> set moved - marked then None else om_find (cs_loose (gs_objects g)) i)
     \<and> om_find (gs_quarantine g') = (\<lambda>i. if i \<in> set moved - marked \<and> om_find (cs_loose (gs_objects g)) i \<noteq> None
          then om_find (cs_loose (gs_objects g)) i else om_find (gs_quarantine g) i)"

lemma quarantine_object_moves:
  assumes "quarantine_object marked i (report, g) = (report', g')"
  shows "quarantined marked [i] g g'"
    "rr_quarantined report' = rr_quarantined report + (if i \<notin> marked \<and> om_find (cs_loose (gs_objects g)) i \<noteq> None then 1 else 0)"
    "rr_unreachable report' = rr_unreachable report"
  using assms by (auto simp: quarantine_object_def quarantined_def om_find_erase om_find_put fun_eq_iff split: if_splits option.splits)

lemma quarantine_fold:
  assumes "fold (quarantine_object marked) ids (report, g) = (report', g')" "distinct ids"
  shows "quarantined marked ids g g'"
    "rr_quarantined report' = rr_quarantined report + length (filter (\<lambda>i. i \<notin> marked \<and> om_find (cs_loose (gs_objects g)) i \<noteq> None) ids)"
    "rr_unreachable report' = rr_unreachable report"
proof -
  have "quarantined marked ids g g' \<and> rr_unreachable report' = rr_unreachable report \<and>
      rr_quarantined report' = rr_quarantined report + length (filter (\<lambda>i. i \<notin> marked \<and> om_find (cs_loose (gs_objects g)) i \<noteq> None) ids)"
    using assms
  proof (induction ids arbitrary: report g)
    case Nil
    then show ?case by (simp add: quarantined_def)
  next
    case (Cons i ids)
    obtain r1 g1 where step: "quarantine_object marked i (report, g) = (r1, g1)" by fastforce
    note s = quarantine_object_moves [OF step]
    from Cons.prems step have "fold (quarantine_object marked) ids (r1, g1) = (report', g')" "distinct ids" by simp_all
    note ih = Cons.IH [OF this]
    have find: "om_find (cs_loose (gs_objects g1)) j = om_find (cs_loose (gs_objects g)) j" if "j \<in> set ids" for j
      using s(1) that Cons.prems(2) by (auto simp: quarantined_def)
    then have "filter (\<lambda>j. j \<notin> marked \<and> om_find (cs_loose (gs_objects g1)) j \<noteq> None) ids
        = filter (\<lambda>j. j \<notin> marked \<and> om_find (cs_loose (gs_objects g)) j \<noteq> None) ids"
      by (intro filter_cong) simp_all
    moreover have "quarantined marked (i # ids) g g'"
      using s(1) ih by (auto simp: quarantined_def fun_eq_iff)
    ultimately show ?case using s(2,3) ih by simp
  qed
  then show "quarantined marked ids g g'"
    "rr_quarantined report' = rr_quarantined report + length (filter (\<lambda>i. i \<notin> marked \<and> om_find (cs_loose (gs_objects g)) i \<noteq> None) ids)"
    "rr_unreachable report' = rr_unreachable report" by simp_all
qed

text \<open>
  The quarantine takes exactly the loose objects that are not marked and loses none of them, and the report counts them.
\<close>

lemma quarantine_exact:
  assumes run: "quarantine_unreachable H branches g = Inr (report, g')" and inv: "om_inv (cs_loose (gs_objects g))"
    and m: "reachable_objects H branches (gs_objects g) = Inr marked"
  shows "cs_packs (gs_objects g') = cs_packs (gs_objects g)"
    "om_find (cs_loose (gs_objects g')) i = (if i \<in> marked then om_find (cs_loose (gs_objects g)) i else None)"
    "om_find (gs_quarantine g') i = (if i \<in> marked \<or> om_find (cs_loose (gs_objects g)) i = None
       then om_find (gs_quarantine g) i else om_find (cs_loose (gs_objects g)) i)"
    "rr_quarantined report = rr_unreachable report"
proof -
  let ?s = "gs_objects g"
  define r where "r = \<lparr>rr_reachable = card marked, rr_unreachable = length (filter (\<lambda>i. i \<notin> marked) (loose_objects ?s)), rr_quarantined = 0\<rparr>"
  have f: "fold (quarantine_object marked) (loose_objects ?s) (r, g) = (report, g')"
    using run m by (simp add: quarantine_unreachable_def gc_mark_def r_def)
  have d: "distinct (loose_objects ?s)"
    using inv strict_sorted_iff by (auto simp: loose_objects_def om_inv_def)
  note q = quarantine_fold [OF f d]
  have mem: "i \<in> set (loose_objects ?s) \<longleftrightarrow> om_find (cs_loose ?s) i \<noteq> None" for i
    using om_find_None_iff [of "cs_loose ?s" i] by (auto simp: loose_objects_def)
  have "filter (\<lambda>i. i \<notin> marked \<and> om_find (cs_loose ?s) i \<noteq> None) (loose_objects ?s) = filter (\<lambda>i. i \<notin> marked) (loose_objects ?s)"
    using mem by (intro filter_cong) auto
  with q(2,3) show "rr_quarantined report = rr_unreachable report" by (simp add: r_def)
  show "cs_packs (gs_objects g') = cs_packs ?s" using q(1) by (simp add: quarantined_def)
  show "om_find (cs_loose (gs_objects g')) i = (if i \<in> marked then om_find (cs_loose ?s) i else None)"
    using q(1) mem [of i] by (auto simp: quarantined_def)
  show "om_find (gs_quarantine g') i = (if i \<in> marked \<or> om_find (cs_loose ?s) i = None then om_find (gs_quarantine g) i
     else om_find (cs_loose ?s) i)"
    using q(1) mem [of i] by (auto simp: quarantined_def)
qed

lemma quarantine_keeps:
  assumes "quarantine_unreachable H branches g = Inr (report, g')" "om_inv (cs_loose (gs_objects g))"
    and "reachable_objects H branches (gs_objects g) = Inr marked" "om_find (cs_loose (gs_objects g)) 0 = None"
  shows "keeps_on H (insert 0 marked) (gs_objects g) (gs_objects g')"
proof -
  note q = quarantine_exact [OF assms(1-3)]
  have packed: "packed_bytes H (gs_objects g') i = packed_bytes H (gs_objects g) i" for i
    by (simp add: packed_bytes_def find_packed_def index_entries_def q(1))
  have "get_bytes H (gs_objects g') i = get_bytes H (gs_objects g) i" if "i \<in> insert 0 marked" for i
    using that assms(4) by (auto simp: get_bytes_def q(2) packed split: option.split)
  then show ?thesis by (simp add: keeps_on_def kept_refl)
qed

section \<open>Branches survive the collector\<close>

text \<open>The page roots of a checkpoint list everything its snapshot is read from, besides the root object.\<close>

definition pages_listed :: "digest \<Rightarrow> content_store \<Rightarrow> stored_commit \<Rightarrow> bool" where
  "pages_listed H s c \<longleftrightarrow> (is_checkpoint c \<and> 4 \<le> sc_format_version c \<longrightarrow>
     snapshot_reads H s (cr_checkpoint_snapshot_object (sc_record c))
       \<subseteq> insert (cr_checkpoint_snapshot_object (sc_record c)) (set (cr_graph_page_roots (sc_record c))))"

lemma listed_reads:
  assumes "get_canonical H decode_stored_commit s i = Inr c" "pages_listed H s c" "insert i (named_objects c) \<subseteq> M"
  shows "commit_reads H s i \<subseteq> M"
proof -
  have "stored_at H s i = Inr c" using assms(1) by (simp add: stored_at_def mat_get_def)
  moreover have "sc_delta_object c \<in> M" "i \<in> M" "sc_format_version c < 4 \<Longrightarrow> sc_after_snapshot_object c \<in> M"
    using assms(3) by (auto simp: named_objects_def)
  moreover have "snapshot_reads H s (cr_checkpoint_snapshot_object (sc_record c)) \<subseteq> M" if "is_checkpoint c" "4 \<le> sc_format_version c"
    using assms(2,3) that by (auto simp: pages_listed_def named_objects_def)
  ultimately show ?thesis by (auto simp: commit_reads_def not_le)
qed

lemma gc_keeps_commits:
  assumes run: "quarantine_unreachable H branches g = Inr (report, g')" and inv: "om_inv (cs_loose (gs_objects g))"
    and zero: "om_find (cs_loose (gs_objects g)) 0 = None"
    and b: "branch_index_entries H branches = Inr bs" "b \<in> set bs"
    and chain: "parent_chain H (gs_objects g) i = Some (Inr ids)" "set ids \<subseteq> set (bi_history b)"
    and listed: "\<And>j c. j \<in> set ids \<Longrightarrow> stored_at H (gs_objects g) j = Inr c \<Longrightarrow> pages_listed H (gs_objects g) c"
    and out: "materialize_accepted_chain_to H (gs_objects g) i = Some (Inr out)"
  shows "materialize_accepted_chain_to H (gs_objects g') i = Some (Inr out)"
    "materialize_commit H (gs_objects g) i = materialize_commit H (gs_objects g') i"
proof -
  from run obtain marked where m: "reachable_objects H branches (gs_objects g) = Inr marked"
    by (auto simp: quarantine_unreachable_def res_bind_Inr_iff)
  have reads: "commit_reads H (gs_objects g) j \<subseteq> insert 0 marked" if "j \<in> set ids" for j
  proof -
    from that chain(2) have "j \<in> set (bi_history b)" by blast
    from reachable_covers [OF m b this] obtain c where c: "get_canonical H decode_stored_commit (gs_objects g) j = Inr c"
      "insert j (named_objects c) \<subseteq> insert 0 marked" .
    have "stored_at H (gs_objects g) j = Inr c" using c(1) by (simp add: stored_at_def mat_get_def)
    from listed_reads [OF c(1) listed [OF that this] c(2)] show ?thesis .
  qed
  note kept = materialize_kept [OF quarantine_keeps [OF run inv m zero] chain(1) reads out]
  show "materialize_accepted_chain_to H (gs_objects g') i = Some (Inr out)" by (rule kept(2))
  show "materialize_commit H (gs_objects g) i = materialize_commit H (gs_objects g') i" by (rule kept(3))
qed

text \<open>A checkpoint the transaction writer stored lists its pages.\<close>

lemma plan_reads:
  assumes plan: "build_chunked_snapshot_plan H w n = Inr p" and ok: "plan_ok w" and held: "\<forall>b \<in> plan_streams p. held H s b"
  shows "snapshot_reads H s (plan_root_object p) \<subseteq> insert (plan_root_object p) (set (graph_page_roots p))"
proof -
  note P = plan_fields [OF plan] and Q = plan_hashes [OF plan]
  have streams: "held H s (encode_snapshot_root (plan_root p))" "held H s (encode_page_index (plan_object_page_index p))"
      "held H s (encode_page_index (plan_pointer_page_index p))" "held H s (encode_page_index (plan_fact_page_index p))"
    using held by (simp_all add: plan_streams_def)
  have sizes: "size_ok (plan_object_page_index p)" "size_ok (plan_pointer_page_index p)" "size_ok (plan_fact_page_index p)"
    using ok size_ok_pages unfolding P(2-7) by (auto simp: plan_ok_def size_ok_def)
  have root: "chunk_get H decode_snapshot_root s (plan_root_object p) = Inr (plan_root p)"
    unfolding P(11) by (rule rootc.chunk_get_held [OF _ streams(1)]) (use ok in \<open>simp add: P(10) plan_ok_def\<close>)
  have index: "chunk_get H decode_page_index s (H (encode_page_index (plan_object_page_index p))) = Inr (plan_object_page_index p)"
      "chunk_get H decode_page_index s (H (encode_page_index (plan_pointer_page_index p))) = Inr (plan_pointer_page_index p)"
      "chunk_get H decode_page_index s (H (encode_page_index (plan_fact_page_index p))) = Inr (plan_fact_page_index p)"
    by (rule pageindexc.chunk_get_held; fact streams sizes)+
  have "snapshot_reads H s (plan_root_object p) = {plan_root_object p}
      \<union> {H (encode_page_index (plan_object_page_index p)), H (encode_page_index (plan_pointer_page_index p)),
         H (encode_page_index (plan_fact_page_index p)), H (encode_symbol_table_object (plan_type_table p)),
         H (encode_symbol_table_object (plan_relation_table p))}
      \<union> (set (plan_object_page_index p) \<union> set (plan_pointer_page_index p) \<union> set (plan_fact_page_index p))"
    unfolding snapshot_reads_def root sum.case by (auto simp: P(10) index)
  moreover have "set (graph_page_roots p) = set (plan_object_page_index p) \<union> set (plan_pointer_page_index p) \<union> set (plan_fact_page_index p)
      \<union> {H (encode_page_index (plan_object_page_index p)), H (encode_page_index (plan_pointer_page_index p)),
         H (encode_page_index (plan_fact_page_index p)), H (encode_symbol_table_object (plan_type_table p)),
         H (encode_symbol_table_object (plan_relation_table p))}"
    unfolding graph_page_roots_def Q P(5-7) by auto
  ultimately show ?thesis by auto
qed

lemma written_pages_listed:
  assumes "build_chunked_snapshot_plan H w n = Inr p" "plan_ok w" "\<forall>b \<in> plan_streams p. held H s b"
    and "cr_checkpoint_snapshot_object (sc_record c) = plan_root_object p" "cr_graph_page_roots (sc_record c) = graph_page_roots p"
  shows "pages_listed H s c"
  using plan_reads [OF assms(1-3)] assms(4,5) by (simp add: pages_listed_def)

end
