(* ===== verification/Repo_Engine.thy ===== *)
theory Repo_Engine
  imports Repo_Gc World_Store
begin

text \<open>
  The engine of a repository (\<open>src/storage/repository_engine.cpp\<close>) and its recovery (\<open>src/storage/recovery.cpp\<close>):
  looking up branches, commits and worlds, checking the indexes against the references, rebuilding them from the
  objects, and compaction.  What follows a chain of parents may not end on arbitrary objects and is a partial
  computation.
\<close>

section \<open>Computations that may not end\<close>

type_synonym ('e, 'a) partial = "('e + 'a) option"
type_synonym 'a run = "(repo_error, 'a) partial"

definition run_bind :: "('e, 'a) partial \<Rightarrow> ('a \<Rightarrow> ('e, 'b) partial) \<Rightarrow> ('e, 'b) partial" where
  "run_bind m f = (case m of None \<Rightarrow> None | Some (Inl e) \<Rightarrow> Some (Inl e) | Some (Inr x) \<Rightarrow> f x)"

lemma run_bind_simps [simp]:
  "run_bind None f = None" "run_bind (Some (Inl e)) f = Some (Inl e)" "run_bind (Some (Inr x)) f = f x"
  by (simp_all add: run_bind_def)

lemma run_bind_Inr_iff: "run_bind m f = Some (Inr y) \<longleftrightarrow> (\<exists>x. m = Some (Inr x) \<and> f x = Some (Inr y))"
  by (auto simp: run_bind_def split: option.splits sum.splits)

lemma run_bind_Some_iff: "run_bind (Some m) f = Some (Inr y) \<longleftrightarrow> (\<exists>x. m = Inr x \<and> f x = Some (Inr y))"
  by (auto simp: run_bind_Inr_iff)

fun run_fold :: "('s \<Rightarrow> 'a \<Rightarrow> ('e, 's) partial) \<Rightarrow> 's \<Rightarrow> 'a list \<Rightarrow> ('e, 's) partial" where
  "run_fold f s [] = Some (Inr s)"
| "run_fold f s (x # xs) = run_bind (f s x) (\<lambda>s. run_fold f s xs)"

lemma run_fold_invariant:
  assumes "run_fold f s xs = Some (Inr s')" "P s" "\<And>s x s'. x \<in> set xs \<Longrightarrow> P s \<Longrightarrow> f s x = Some (Inr s') \<Longrightarrow> P s'"
  shows "P s'"
  using assms
proof (induction xs arbitrary: s)
  case (Cons x xs)
  from Cons.prems(1) obtain t where "f s x = Some (Inr t)" "run_fold f t xs = Some (Inr s')" by (auto simp: run_bind_Inr_iff)
  with Cons.IH [of t] Cons.prems(2,3) show ?case by (meson list.set_intros)
qed simp

lemma lift_res_Inr_iff: "lift_res err m = Inr x \<longleftrightarrow> m = Inr x"
  by (cases m) simp_all

definition lift_run :: "(materialize_error + 'a) option \<Rightarrow> 'a run" where
  "lift_run = map_option (lift_res RepoMaterialize)"

section \<open>Looking things up\<close>

record materialized_world =
  mw_ref :: branch_ref
  mw_history :: "commit_record list"
  mw_snapshots :: "(commit_id \<times> world_snapshot) list"
  mw_world :: world

definition ref_of_entry :: "branch_index_entry \<Rightarrow> branch_ref" where
  "ref_of_entry e = \<lparr>bf_name = bi_name e, bf_branch = bi_branch e, bf_head = bi_head e, bf_snapshot = bi_snapshot e, bf_epoch = bi_epoch e\<rparr>"

definition has_branch :: "digest \<Rightarrow> repository \<Rightarrow> string \<Rightarrow> repo_error + bool" where
  "has_branch H rp branch =
     res_bind (lift_res RepoIndex (branch_index_find H branch (rp_branches rp))) (\<lambda>found.
       if found \<noteq> None then Inr True
       else res_bind (lift_res RepoRef (read_branch branch (rp_refs rp))) (\<lambda>ref. Inr (ref \<noteq> None)))"

definition branch_ref_of :: "digest \<Rightarrow> repository \<Rightarrow> string \<Rightarrow> repo_error + branch_ref option" where
  "branch_ref_of H rp branch =
     res_bind (lift_res RepoIndex (branch_index_find H branch (rp_branches rp))) (\<lambda>found. case found of
       Some e \<Rightarrow> Inr (Some (ref_of_entry e))
     | None \<Rightarrow> lift_res RepoRef (read_branch branch (rp_refs rp)))"

definition engine_branches :: "digest \<Rightarrow> repository \<Rightarrow> repo_error + branch_ref list" where
  "engine_branches H rp =
     res_bind (lift_res RepoIndex (branch_index_entries H (rp_branches rp))) (\<lambda>indexed.
       if indexed \<noteq> [] \<or> rp_branches rp \<noteq> None then Inr (map ref_of_entry indexed)
       else lift_res RepoRef (list_branches (rp_refs rp)))"

definition engine_stored_commit :: "digest \<Rightarrow> repository \<Rightarrow> commit_id \<Rightarrow> repo_error + stored_commit" where
  "engine_stored_commit H rp i =
     res_bind (lift_res RepoContent (get_canonical H decode_stored_commit (rp_objects rp) i)) (\<lambda>c.
       Inr (c\<lparr>sc_record := (sc_record c)\<lparr>cr_id := i\<rparr>\<rparr>))"

definition full_record :: "digest \<Rightarrow> repository \<Rightarrow> commit_id \<Rightarrow> stored_commit \<Rightarrow> repo_error + commit_record" where
  "full_record H rp i c = (let s = rp_objects rp in
     res_bind (lift_res RepoContent (get_canonical H decode_trace_events s (sc_trace_object c))) (\<lambda>events.
     res_bind (lift_res RepoContent (get_canonical H decode_law_statuses s (sc_law_status_object c))) (\<lambda>statuses.
     res_bind (lift_res RepoContent (get_canonical H decode_law_violations s (sc_violation_object c))) (\<lambda>violations.
       Inr ((sc_record c)\<lparr>cr_id := i, cr_events := events, cr_law_statuses := statuses, cr_violations := violations\<rparr>)))))"

definition engine_commit_record :: "digest \<Rightarrow> repository \<Rightarrow> commit_id \<Rightarrow> repo_error + commit_record" where
  "engine_commit_record H rp i = res_bind (engine_stored_commit H rp i) (full_record H rp i)"

definition indexed_branch :: "digest \<Rightarrow> repository \<Rightarrow> string \<Rightarrow> repo_error + branch_index_entry" where
  "indexed_branch H rp branch =
     res_bind (lift_res RepoIndex (branch_index_find H branch (rp_branches rp))) (\<lambda>found. case found of
       None \<Rightarrow> Inl (RepoUnknownBranch branch) | Some e \<Rightarrow> Inr e)"

definition records_of :: "digest \<Rightarrow> repository \<Rightarrow> commit_id list \<Rightarrow> repo_error + commit_record list" where
  "records_of H rp ids = res_fold (\<lambda>out i. res_bind (engine_commit_record H rp i) (\<lambda>r. Inr (out @ [r]))) [] ids"

definition engine_history :: "digest \<Rightarrow> repository \<Rightarrow> string \<Rightarrow> repo_error + commit_record list" where
  "engine_history H rp branch = res_bind (indexed_branch H rp branch) (\<lambda>e. records_of H rp (bi_history e))"

definition engine_snapshot_at :: "digest \<Rightarrow> repository \<Rightarrow> commit_id \<Rightarrow> world_snapshot run" where
  "engine_snapshot_at H rp commit = lift_run (materialize_commit H (rp_objects rp) commit)"

definition engine_snapshot :: "digest \<Rightarrow> repository \<Rightarrow> string \<Rightarrow> world_snapshot run" where
  "engine_snapshot H rp branch = run_bind (Some (branch_ref_of H rp branch)) (\<lambda>ref. case ref of
     None \<Rightarrow> Some (Inl (RepoUnknownBranch branch))
   | Some r \<Rightarrow> engine_snapshot_at H rp (bf_head r))"

definition engine_materialize_branch :: "digest \<Rightarrow> repository \<Rightarrow> string \<Rightarrow> materialized_world run" where
  "engine_materialize_branch H rp branch =
     run_bind (Some (indexed_branch H rp branch)) (\<lambda>e.
     run_bind (Some (records_of H rp (bi_history e))) (\<lambda>history.
     run_bind (lift_run (materialize_accepted_chain_to H (rp_objects rp) (bi_head e))) (\<lambda>snapshots.
     run_bind (if snapshots = [] then engine_snapshot_at H rp (bi_head e) else Some (Inr (snd (last snapshots)))) (\<lambda>head.
       Some (Inr \<lparr>mw_ref = ref_of_entry e, mw_history = history, mw_snapshots = snapshots, mw_world = from_snapshot H head\<rparr>)))))"

definition blank_ref :: branch_ref where
  "blank_ref = \<lparr>bf_name = [], bf_branch = 0, bf_head = 0, bf_snapshot = 0, bf_epoch = 0\<rparr>"

definition engine_materialize_commit :: "digest \<Rightarrow> repository \<Rightarrow> commit_id \<Rightarrow> materialized_world run" where
  "engine_materialize_commit H rp commit =
     run_bind (Some (lift_res RepoIndex (commit_index_find H commit (rp_commits rp)))) (\<lambda>found. case found of
       None \<Rightarrow> Some (Inl (UnknownCommit commit))
     | Some entry \<Rightarrow>
         run_bind (Some (branch_ref_of H rp (ci_branch entry))) (\<lambda>ref.
         run_bind (engine_snapshot_at H rp commit) (\<lambda>snapshot.
         run_bind (Some (engine_commit_record H rp commit)) (\<lambda>record.
           let w = from_snapshot H snapshot
           in Some (Inr \<lparr>mw_ref = (case ref of None \<Rightarrow> blank_ref | Some r \<Rightarrow> r), mw_history = [record],
                        mw_snapshots = [(commit, world_snapshot_of H w)], mw_world = w\<rparr>)))))"

section \<open>Checking the indexes\<close>

datatype index_problem =
    IndexMissing string
  | IndexBroken index_error
  | EntryWithoutRef string
  | EntryDiffersFromRef string
  | HistoryWithoutHead string
  | RefWithoutEntry string

record repository_index_check =
  rc_clean :: bool
  rc_messages :: "index_problem list"
  rc_commits :: hash256
  rc_branches :: hash256
  rc_events :: hash256
  rc_objects :: hash256
  rc_relations :: hash256

definition index_ok :: "index_status \<Rightarrow> bool" where
  "index_ok st \<longleftrightarrow> ix_exists st \<and> ix_checksum_ok st"

definition status_problems :: "string \<Rightarrow> index_status \<Rightarrow> index_problem list" where
  "status_problems what st =
     (if index_ok st then []
      else [if ix_exists st then IndexBroken (case ix_error st of Some e \<Rightarrow> e | None \<Rightarrow> CannotOpenIndex) else IndexMissing what])"

definition status_checksum :: "index_status \<Rightarrow> hash256" where
  "status_checksum st = (if index_ok st then ix_checksum st else 0)"

definition check_entry :: "repository \<Rightarrow> branch_index_entry \<Rightarrow> repo_error + index_problem list" where
  "check_entry rp b =
     res_bind (lift_res RepoRef (read_branch (bi_name b) (rp_refs rp))) (\<lambda>ref. Inr (
       (case ref of
          None \<Rightarrow> [EntryWithoutRef (bi_name b)]
        | Some r \<Rightarrow>
            if bf_head r \<noteq> bi_head b \<or> bf_snapshot r \<noteq> bi_snapshot b \<or> bf_epoch r \<noteq> bi_epoch b
            then [EntryDiffersFromRef (bi_name b)] else [])
       @ (if bi_head b \<notin> set (bi_history b) then [HistoryWithoutHead (bi_name b)] else [])))"

definition check_ref :: "digest \<Rightarrow> repository \<Rightarrow> branch_ref \<Rightarrow> repo_error + index_problem list" where
  "check_ref H rp ref =
     res_bind (lift_res RepoIndex (branch_index_find H (bf_name ref) (rp_branches rp))) (\<lambda>found.
       Inr (if found = None then [RefWithoutEntry (bf_name ref)] else []))"

definition check_indexes :: "digest \<Rightarrow> repository \<Rightarrow> repo_error + repository_index_check" where
  "check_indexes H rp = (let
     commits = index_check H commit_magic (rp_commits rp);
     branches = index_check H branch_magic (rp_branches rp);
     events = index_check H event_magic (rp_events rp);
     world = index_check H objects_magic (ws_objects (rp_world rp));
     relations = index_check H relations_magic (ws_relations (rp_world rp));
     problems = status_problems ''commit'' commits @ status_problems ''branch'' branches @ status_problems ''event'' events
       @ status_problems ''world'' world @ status_problems ''relation'' relations
   in res_bind (lift_res RepoIndex (branch_index_entries H (rp_branches rp))) (\<lambda>entries.
      res_bind (res_fold (\<lambda>out b. res_bind (check_entry rp b) (\<lambda>ps. Inr (out @ ps))) problems entries) (\<lambda>problems.
      res_bind (lift_res RepoRef (list_branches (rp_refs rp))) (\<lambda>refs.
      res_bind (res_fold (\<lambda>out r. res_bind (check_ref H rp r) (\<lambda>ps. Inr (out @ ps))) problems refs) (\<lambda>problems.
        Inr \<lparr>rc_clean = (problems = []), rc_messages = problems, rc_commits = status_checksum commits,
             rc_branches = status_checksum branches, rc_events = status_checksum events,
             rc_objects = status_checksum world, rc_relations = status_checksum relations\<rparr>)))))"

record repository_stats =
  rs_objects :: nat
  rs_commits :: nat
  rs_branches :: nat
  rs_snapshots :: nat
  rs_programs :: nat
  rs_deltas :: nat
  rs_index_clean :: bool
  rs_wal_incomplete :: bool

definition count_content_objects :: "content_store \<Rightarrow> repo_error + nat" where
  "count_content_objects s =
     res_bind (lift_res RepoContent (index_entries s)) (\<lambda>packed. Inr (length (cs_loose s) + length packed))"

definition engine_stats :: "digest \<Rightarrow> repository \<Rightarrow> repo_error + repository_stats" where
  "engine_stats H rp =
     res_bind (count_content_objects (rp_objects rp)) (\<lambda>objects.
     res_bind (lift_res RepoIndex (commit_index_stats H (rp_commits rp))) (\<lambda>commits.
     res_bind (lift_res RepoIndex (branch_index_entries H (rp_branches rp))) (\<lambda>branches.
     res_bind (check_indexes H rp) (\<lambda>report.
     res_bind (lift_res RepoWal (wal_recover H (rp_wal rp))) (\<lambda>wal.
       Inr \<lparr>rs_objects = objects, rs_commits = cis_commits commits, rs_branches = length branches,
            rs_snapshots = cis_snapshots commits, rs_programs = cis_programs commits, rs_deltas = cis_deltas commits,
            rs_index_clean = rc_clean report, rs_wal_incomplete = wr_incomplete_commit wal\<rparr>)))))"

section \<open>Rebuilding the indexes\<close>

record rebuild_state =
  rb_commits :: "commit_index_entry list"
  rb_branches :: "branch_index_entry list"
  rb_seen :: "commit_id set"
  rb_events :: index_file
  rb_world :: world_index_store

fun latest_accepted :: "digest \<Rightarrow> repository \<Rightarrow> commit_id option \<Rightarrow> commit_id list \<Rightarrow> commit_id option" where
  "latest_accepted H rp latest [] = latest"
| "latest_accepted H rp latest (i # ids) =
     (case engine_stored_commit H rp i of
        Inl _ \<Rightarrow> None
      | Inr c \<Rightarrow> latest_accepted H rp (if cr_accepted (sc_record c) then Some i else latest) ids)"

definition engine_parent_chain :: "digest \<Rightarrow> repository \<Rightarrow> commit_id \<Rightarrow> commit_id list run" where
  "engine_parent_chain H rp head = lift_run (parent_chain H (rp_objects rp) head)"

definition rebuild_ids :: "digest \<Rightarrow> repository \<Rightarrow> branch_ref \<Rightarrow> commit_id list run" where
  "rebuild_ids H rp ref =
     run_bind (Some (read_history_ids (bf_name ref) (rp_history rp))) (\<lambda>ids.
     run_bind (if ids = [] \<or> latest_accepted H rp None ids \<noteq> Some (bf_head ref)
               then engine_parent_chain H rp (bf_head ref) else Some (Inr ids)) (\<lambda>ids.
       Some (Inr (if bf_head ref \<in> set ids then ids else ids @ [bf_head ref]))))"

definition rebuild_commit ::
  "digest \<Rightarrow> u64 \<Rightarrow> repository \<Rightarrow> branch_ref \<Rightarrow> rebuild_state \<Rightarrow> commit_id \<Rightarrow> rebuild_state run" where
  "rebuild_commit H unspecified rp ref rb i =
     run_bind (Some (engine_stored_commit H rp i)) (\<lambda>c.
     let rb = (if i \<in> rb_seen rb then rb
               else rb\<lparr>rb_seen := insert i (rb_seen rb),
                       rb_commits := rb_commits rb @ [make_commit_entry (bf_name ref) (sc_record c) c]\<rparr>)
     in run_bind (Some (full_record H rp i c)) (\<lambda>record.
     run_bind (engine_snapshot_at H rp i) (\<lambda>after.
     run_bind (Some (lift_res RepoIndex (event_index_commit H (bf_name ref) record after (rb_events rb)))) (\<lambda>events.
     run_bind (Some (lift_res RepoIndex (index_commit_graph H unspecified i (cr_after_root record) after (rb_world rb)))) (\<lambda>world.
       Some (Inr (rb\<lparr>rb_events := events, rb_world := world\<rparr>)))))))"

definition rebuild_branch :: "digest \<Rightarrow> u64 \<Rightarrow> repository \<Rightarrow> rebuild_state \<Rightarrow> branch_ref \<Rightarrow> rebuild_state run" where
  "rebuild_branch H unspecified rp rb ref =
     run_bind (rebuild_ids H rp ref) (\<lambda>ids.
     run_bind (run_fold (rebuild_commit H unspecified rp ref) rb ids) (\<lambda>rb.
     let rb = rb\<lparr>rb_branches := rb_branches rb @ [make_branch_entry ref ids]\<rparr>
     in run_bind (engine_snapshot_at H rp (bf_head ref)) (\<lambda>head.
     run_bind (Some (lift_res RepoIndex (update_branch_index H (bf_name ref) (bf_snapshot ref) head (rb_world rb)))) (\<lambda>world.
       Some (Inr (rb\<lparr>rb_world := world\<rparr>))))))"

definition rebuild_indexes :: "digest \<Rightarrow> u64 \<Rightarrow> repository \<Rightarrow> repository run" where
  "rebuild_indexes H unspecified rp =
     run_bind (Some (lift_res RepoRef (list_branches (rp_refs rp)))) (\<lambda>refs.
     run_bind (run_fold (rebuild_branch H unspecified rp)
       \<lparr>rb_commits = [], rb_branches = [], rb_seen = {}, rb_events = index_remove (rp_events rp),
        rb_world = remove_world_index (rp_world rp)\<rparr> refs) (\<lambda>rb.
       Some (Inr (rp\<lparr>rp_events := rb_events rb, rp_world := rb_world rb,
                     rp_commits := commit_index_write H (rb_commits rb) (rp_commits rp),
                     rp_branches := branch_index_write H (rb_branches rb) (rp_branches rp)\<rparr>))))"

section \<open>Opening, compaction and recovery\<close>

definition world_index_exists :: "world_index_store \<Rightarrow> bool" where
  "world_index_exists st \<longleftrightarrow> ws_objects st \<noteq> None \<and> ws_relations st \<noteq> None \<and> ws_graph st \<noteq> None"

definition engine_open :: "digest \<Rightarrow> u64 \<Rightarrow> repository \<Rightarrow> repository run" where
  "engine_open H unspecified rp =
     run_bind (Some (lift_res RepoWal (wal_recover H (rp_wal rp)))) (\<lambda>_.
     run_bind (Some (lift_res RepoRef (list_branches (rp_refs rp)))) (\<lambda>_.
       if rp_commits rp = None \<or> rp_branches rp = None \<or> \<not> world_index_exists (rp_world rp) \<or> rp_events rp = None
       then rebuild_indexes H unspecified rp
       else run_bind (Some (check_indexes H rp)) (\<lambda>report.
         if rc_clean report then Some (Inr rp) else rebuild_indexes H unspecified rp)))"

text \<open>The files below \<open>refs\<close> and \<open>history\<close> that a torn write left behind.\<close>

definition temp_files :: "(string, string) omap \<Rightarrow> string list" where
  "temp_files files = filter has_tmp_extension (map fst files)"

definition without_temp :: "(string, string) omap \<Rightarrow> (string, string) omap" where
  "without_temp files = filter (\<lambda>(f, _). \<not> has_tmp_extension f) files"

definition remove_temp_files :: "repository \<Rightarrow> repository" where
  "remove_temp_files rp = rp\<lparr>rp_refs := (rp_refs rp)\<lparr>rf_files := without_temp (rf_files (rp_refs rp))\<rparr>,
                            rp_history := without_temp (rp_history rp)\<rparr>"

definition engine_compact :: "digest \<Rightarrow> u64 \<Rightarrow> repository \<Rightarrow> repository run" where
  "engine_compact H unspecified rp =
     run_bind (rebuild_indexes H unspecified rp) (\<lambda>rp.
     run_bind (Some (lift_res RepoContent (compact_loose H (rp_objects rp)))) (\<lambda>(_, s).
       Some (Inr (remove_temp_files (rp\<lparr>rp_objects := s, rp_wal := wal_truncate (rp_wal rp)\<rparr>)))))"

datatype recovery_action =
    RemovedTempRef string
  | RemovedTempHistory string
  | RebuiltIndex index_problem
  | CheckpointedWal

record recovery_report =
  rv_wal_entries :: nat
  rv_incomplete_wal :: bool
  rv_repaired :: bool
  rv_actions :: "recovery_action list"

definition recover_repository :: "digest \<Rightarrow> u64 \<Rightarrow> bool \<Rightarrow> repository \<Rightarrow> (recovery_report \<times> repository) run" where
  "recover_repository H unspecified repair rp =
     run_bind (Some (lift_res RepoWal (wal_recover H (rp_wal rp)))) (\<lambda>wal.
     let actions = map RemovedTempRef (temp_files (rf_files (rp_refs rp))) @ map RemovedTempHistory (temp_files (rp_history rp));
         rp = (if repair then remove_temp_files rp else rp)
     in run_bind (Some (check_indexes H rp)) (\<lambda>check.
     let actions = actions @ (if rc_clean check then [] else map RebuiltIndex (rc_messages check));
         rebuilds = (\<not> rc_clean check \<and> repair)
     in run_bind (if rebuilds then rebuild_indexes H unspecified rp else Some (Inr rp)) (\<lambda>rp.
       if wr_incomplete_commit wal \<and> repair
       then Some (Inr (\<lparr>rv_wal_entries = wr_entries_read wal, rv_incomplete_wal = False, rv_repaired = True,
                       rv_actions = actions @ [CheckpointedWal]\<rparr>, rp\<lparr>rp_wal := wal_truncate (rp_wal rp)\<rparr>))
       else Some (Inr (\<lparr>rv_wal_entries = wr_entries_read wal, rv_incomplete_wal = wr_incomplete_commit wal,
                       rv_repaired = rebuilds, rv_actions = actions\<rparr>, rp)))))"

text \<open>\<open>Repository::open\<close>: the engine, then a recovery that repairs.\<close>

definition open_repository :: "digest \<Rightarrow> u64 \<Rightarrow> repository \<Rightarrow> repository run" where
  "open_repository H unspecified rp =
     run_bind (engine_open H unspecified rp) (\<lambda>rp.
     run_bind (recover_repository H unspecified True rp) (\<lambda>(_, rp). Some (Inr rp)))"

end
