(* ===== verification/Repo_Clean.thy ===== *)
theory Repo_Clean
  imports Repo_Engine
begin

text \<open>
  What a check of the indexes means, and what a rebuild makes of them: a clean check says that the index of branches
  agrees with the references, and after a rebuild of a repository with branches the check is clean.
\<close>

section \<open>Reading the references\<close>

lemma read_ref_name: "read_ref st ref = Inr r \<Longrightarrow> bf_name r = bf_name ref"
proof (induction st ref rule: read_ref.induct)
  case (1 st ref)
  obtain key st1 where k: "read_word st = (key, st1)" by fastforce
  obtain v st2 where v: "read_u64 (bf_branch ref) st1 = (v, st2)" by fastforce
  obtain e st3 where e: "read_u64 (bf_epoch ref) st1 = (e, st3)" by fastforce
  obtain w st4 where w: "read_word st1 = (w, st4)" by fastforce
  note IH = "1.IH" [OF k [symmetric] refl]
  have r: "read_ref st ref = Inr r" by (rule "1.prems")
  show ?case
  proof (cases "st1 = None")
    case True
    with r show ?thesis by (simp add: read_ref.simps [of st ref] k)
  next
    case False
    consider "key = ''branch''" | "key = ''commit''" | "key = ''snapshot''" | "key = ''epoch''"
      | "key \<noteq> ''branch''" "key \<noteq> ''commit''" "key \<noteq> ''snapshot''" "key \<noteq> ''epoch''" by blast
    then show ?thesis
    proof cases
      case 1
      with r False have "read_ref st2 (ref\<lparr>bf_branch := v\<rparr>) = Inr r" by (simp add: read_ref.simps [of st ref] k v)
      with IH(1) [OF False 1 v [symmetric] refl] show ?thesis by simp
    next
      case 2
      with r False obtain h where h: "parse_hash256 w = Some h" "read_ref st4 (ref\<lparr>bf_head := h\<rparr>) = Inr r"
        by (auto simp: read_ref.simps [of st ref] k w split: option.splits)
      from 2 have "key \<noteq> ''branch''" by simp
      with IH(2) [OF False this 2 w [symmetric] refl h(1)] h(2) show ?thesis by simp
    next
      case 3
      with r False obtain h where h: "parse_hash256 w = Some h" "read_ref st4 (ref\<lparr>bf_snapshot := h\<rparr>) = Inr r"
        by (auto simp: read_ref.simps [of st ref] k w split: option.splits)
      from 3 have "key \<noteq> ''branch''" "key \<noteq> ''commit''" by simp_all
      with IH(3) [OF False this 3 w [symmetric] refl h(1)] h(2) show ?thesis by simp
    next
      case 4
      with r False have "read_ref st3 (ref\<lparr>bf_epoch := e\<rparr>) = Inr r" by (simp add: read_ref.simps [of st ref] k e)
      moreover from 4 have "key \<noteq> ''branch''" "key \<noteq> ''commit''" "key \<noteq> ''snapshot''" by simp_all
      ultimately show ?thesis using IH(4) [OF False _ _ _ 4 e [symmetric] refl] by simp
    next
      case 5
      with r False have "read_ref (skip_line st1) ref = Inr r" by (simp add: read_ref.simps [of st ref] k)
      with IH(5) [OF False 5] show ?thesis by simp
    qed
  qed
qed

lemma read_branch_name: "read_branch name rs = Inr (Some r) \<Longrightarrow> bf_name r = name"
  by (auto simp: read_branch_def res_bind_Inr_iff dest!: read_ref_name split: if_splits option.splits)

lemma list_fold:
  assumes "res_fold (list_step rs) refs files = Inr refs'"
  shows "(\<forall>r \<in> set refs'. r \<in> set refs \<or> read_branch (bf_name r) rs = Inr (Some r))
    \<and> (\<exists>names. map bf_name refs' = map bf_name refs @ names \<and> subseq names (map fst files))"
  using assms
proof (induction files arbitrary: refs)
  case (Cons f files)
  from Cons.prems obtain mid where step: "list_step rs refs f = Inr mid" and rest: "res_fold (list_step rs) mid files = Inr refs'"
    by (auto simp: res_bind_Inr_iff)
  note ih = Cons.IH [OF rest]
  from step consider "mid = refs" | r where "mid = refs @ [r]" "read_branch (fst f) rs = Inr (Some r)"
    by (auto simp: list_step_def res_bind_Inr_iff split: if_splits option.splits)
  then show ?case
  proof cases
    case 1
    with ih show ?thesis by auto
  next
    case 2
    from read_branch_name [OF 2(2)] have n: "bf_name r = fst f" .
    from ih 2(1) obtain names where "map bf_name refs' = (map bf_name refs @ [bf_name r]) @ names" "subseq names (map fst files)" by auto
    then have "map bf_name refs' = map bf_name refs @ (fst f # names)" "subseq (fst f # names) (map fst (f # files))" using n by simp_all
    moreover have "\<forall>r \<in> set refs'. r \<in> set refs \<or> read_branch (bf_name r) rs = Inr (Some r)" using ih 2 n by auto
    ultimately show ?thesis by blast
  qed
qed simp

lemma listed_read:
  assumes "list_branches rs = Inr refs"
  shows "ref \<in> set refs \<Longrightarrow> read_branch (bf_name ref) rs = Inr (Some ref)" "om_inv (rf_files rs) \<Longrightarrow> distinct (map bf_name refs)"
proof -
  from assms obtain unsorted where f: "res_fold (list_step rs) [] (rf_files rs) = Inr unsorted"
    and refs: "refs = sort_by (\<lambda>l r. bf_name l < bf_name r) unsorted"
    by (auto simp: list_branches_def res_bind_Inr_iff)
  note l = list_fold [OF f]
  have m: "mset refs = mset unsorted" by (simp add: refs)
  then have s: "set refs = set unsorted" by (metis set_mset_mset)
  show "ref \<in> set refs \<Longrightarrow> read_branch (bf_name ref) rs = Inr (Some ref)" using l s by auto
  assume "om_inv (rf_files rs)"
  then have "distinct (map fst (rf_files rs))" using strict_sorted_iff by (auto simp: om_inv_def)
  with l have "distinct (map bf_name unsorted)" by (metis append_Nil distinct_nthsI list.map(1) subseq_conv_nths)
  with m show "distinct (map bf_name refs)" by (metis mset_map mset_eq_imp_distinct_iff)
qed

section \<open>A clean check\<close>

lemma collected_none:
  assumes "res_fold (\<lambda>out x. res_bind (g x) (\<lambda>ps. Inr (out @ ps))) acc xs = Inr []"
  shows "acc = [] \<and> (\<forall>x \<in> set xs. g x = Inr [])"
  using assms
proof (induction xs arbitrary: acc)
  case (Cons x xs)
  from Cons.prems obtain ps where g: "g x = Inr ps"
    and rest: "res_fold (\<lambda>out x. res_bind (g x) (\<lambda>ps. Inr (out @ ps))) (acc @ ps) xs = Inr []"
    by (auto simp: res_bind_Inr_iff)
  from Cons.IH [OF rest] g show ?case by simp
qed simp

lemma collect_none:
  assumes "\<And>x. x \<in> set xs \<Longrightarrow> g x = Inr []"
  shows "res_fold (\<lambda>out x. res_bind (g x) (\<lambda>ps. Inr (out @ ps))) acc xs = Inr acc"
  using assms by (induction xs) simp_all

definition indexes_readable :: "digest \<Rightarrow> repository \<Rightarrow> bool" where
  "indexes_readable H rp \<longleftrightarrow> index_ok (index_check H commit_magic (rp_commits rp)) \<and> index_ok (index_check H branch_magic (rp_branches rp))
     \<and> index_ok (index_check H event_magic (rp_events rp)) \<and> index_ok (index_check H objects_magic (ws_objects (rp_world rp)))
     \<and> index_ok (index_check H relations_magic (ws_relations (rp_world rp)))"

lemma status_problems_none [simp]: "status_problems what st = [] \<longleftrightarrow> index_ok st"
  by (simp add: status_problems_def)

text \<open>The check is clean exactly when the five indexes read and neither loop finds anything.\<close>

lemma check_clean_iff:
  "(\<exists>report. check_indexes H rp = Inr report \<and> rc_clean report) \<longleftrightarrow> indexes_readable H rp
     \<and> (\<exists>entries. branch_index_entries H (rp_branches rp) = Inr entries \<and> (\<forall>b \<in> set entries. check_entry rp b = Inr []))
     \<and> (\<exists>refs. list_branches (rp_refs rp) = Inr refs \<and> (\<forall>r \<in> set refs. check_ref H rp r = Inr []))"
  (is "?l \<longleftrightarrow> ?r")
proof
  assume ?l
  then obtain report where "check_indexes H rp = Inr report" "rc_clean report" by blast
  let ?ps = "status_problems ''commit'' (index_check H commit_magic (rp_commits rp))
       @ status_problems ''branch'' (index_check H branch_magic (rp_branches rp))
       @ status_problems ''event'' (index_check H event_magic (rp_events rp))
       @ status_problems ''world'' (index_check H objects_magic (ws_objects (rp_world rp)))
       @ status_problems ''relation'' (index_check H relations_magic (ws_relations (rp_world rp)))"
  from \<open>?l\<close> obtain report where report: "check_indexes H rp = Inr report" "rc_clean report" by blast
  then obtain entries where e: "branch_index_entries H (rp_branches rp) = Inr entries"
    unfolding check_indexes_def Let_def res_bind_Inr_iff lift_res_Inr_iff by blast
  from report(1) obtain ps where 1: "res_fold (\<lambda>out b. res_bind (check_entry rp b) (\<lambda>ps. Inr (out @ ps))) ?ps entries = Inr ps"
    unfolding check_indexes_def Let_def e lift_res_simps res_bind_simps res_bind_Inr_iff lift_res_Inr_iff by blast
  from report(1) obtain refs where r: "list_branches (rp_refs rp) = Inr refs"
    unfolding check_indexes_def Let_def e 1 lift_res_simps res_bind_simps res_bind_Inr_iff lift_res_Inr_iff by blast
  from report(1) obtain qs where q: "res_fold (\<lambda>out r. res_bind (check_ref H rp r) (\<lambda>ps. Inr (out @ ps))) ps refs = Inr qs"
    unfolding check_indexes_def Let_def e 1 r lift_res_simps res_bind_simps res_bind_Inr_iff by blast
  from report have "qs = []"
    unfolding check_indexes_def Let_def e 1 r q lift_res_simps res_bind_simps by auto
  with q have 2: "res_fold (\<lambda>out r. res_bind (check_ref H rp r) (\<lambda>ps. Inr (out @ ps))) ps refs = Inr []" by simp
  from collected_none [OF 2] have ps: "ps = []" "\<forall>r \<in> set refs. check_ref H rp r = Inr []" by simp_all
  from collected_none [OF 1 [unfolded ps(1)]] e r ps(2) show ?r by (auto simp: indexes_readable_def)
next
  assume ?r
  then obtain entries refs where e: "branch_index_entries H (rp_branches rp) = Inr entries" "\<And>b. b \<in> set entries \<Longrightarrow> check_entry rp b = Inr []"
    and r: "list_branches (rp_refs rp) = Inr refs" "\<And>r. r \<in> set refs \<Longrightarrow> check_ref H rp r = Inr []"
    and ok: "indexes_readable H rp" by blast
  have "check_indexes H rp = Inr \<lparr>rc_clean = True, rc_messages = [],
      rc_commits = status_checksum (index_check H commit_magic (rp_commits rp)),
      rc_branches = status_checksum (index_check H branch_magic (rp_branches rp)),
      rc_events = status_checksum (index_check H event_magic (rp_events rp)),
      rc_objects = status_checksum (index_check H objects_magic (ws_objects (rp_world rp))),
      rc_relations = status_checksum (index_check H relations_magic (ws_relations (rp_world rp)))\<rparr>"
    using ok collect_none [of entries "check_entry rp", OF e(2)] collect_none [of refs "check_ref H rp", OF r(2)]
    by (simp add: check_indexes_def Let_def e(1) r(1) indexes_readable_def status_problems_def)
  then show ?l by auto
qed

lemma check_entry_none:
  assumes "check_entry rp b = Inr []"
  obtains r where "read_branch (bi_name b) (rp_refs rp) = Inr (Some r)" "bf_head r = bi_head b" "bf_snapshot r = bi_snapshot b"
    "bf_epoch r = bi_epoch b" "bi_head b \<in> set (bi_history b)"
  using assms by (auto simp: check_entry_def res_bind_Inr_iff lift_res_def split: sum.splits option.splits if_splits)

text \<open>
  On a repository whose check is clean, every reference has an entry in the index with its head, its snapshot and its
  epoch, and the entry's history ends up at the head.
\<close>

lemma check_clean_agrees:
  assumes "check_indexes H rp = Inr report" "rc_clean report" "list_branches (rp_refs rp) = Inr refs" "ref \<in> set refs"
  obtains e where "branch_index_find H (bf_name ref) (rp_branches rp) = Inr (Some e)" "bi_head e = bf_head ref"
    "bi_snapshot e = bf_snapshot ref" "bi_epoch e = bf_epoch ref" "bf_head ref \<in> set (bi_history e)"
proof -
  from assms(1,2) check_clean_iff [of H rp] obtain entries where
    e: "branch_index_entries H (rp_branches rp) = Inr entries" "\<And>b. b \<in> set entries \<Longrightarrow> check_entry rp b = Inr []"
    and r: "check_ref H rp ref = Inr []"
    using assms(3,4) by auto
  from r obtain x where f: "branch_index_find H (bf_name ref) (rp_branches rp) = Inr (Some x)"
    by (auto simp: check_ref_def res_bind_Inr_iff lift_res_def split: sum.splits if_splits)
  with e(1) have x: "entry_find bi_name (bf_name ref) entries = Some x"
    by (simp add: branch_index_find_def index_find_def branch_index_entries_def)
  then have "x \<in> set entries" "bi_name x = bf_name ref"
    by (auto simp: entry_find_def find_Some_iff)
  from check_entry_none [OF e(2) [OF this(1)]] obtain r where
    r: "read_branch (bi_name x) (rp_refs rp) = Inr (Some r)" "bf_head r = bi_head x" "bf_snapshot r = bi_snapshot x"
      "bf_epoch r = bi_epoch x" "bi_head x \<in> set (bi_history x)" .
  with \<open>bi_name x = bf_name ref\<close> listed_read(1) [OF assms(3,4)] have "r = ref" by simp
  with r show thesis by (intro that [OF f]) simp_all
qed

section \<open>A rebuild leaves the check clean\<close>

definition written_as :: "digest \<Rightarrow> string \<Rightarrow> index_file \<Rightarrow> bool" where
  "written_as H magic file \<longleftrightarrow> (\<exists>payload. file = Some (index_payload_file H magic payload))"

definition fits_index :: "index_file \<Rightarrow> bool" where
  "fits_index file \<longleftrightarrow> (case file of None \<Rightarrow> True | Some bs \<Rightarrow> length bs < 2 ^ 64)"

lemma length_payload_file: "length (index_payload_file H magic payload) = length magic + 44 + length payload"
  by (simp add: index_payload_file_def index_u32_def index_u64_def)

lemma written_index_ok:
  assumes "written_as H magic file" "fits_index file"
  shows "index_ok (index_check H magic file)"
proof -
  from assms obtain payload where f: "file = Some (index_payload_file H magic payload)" "size_ok payload"
    by (auto simp: written_as_def fits_index_def length_payload_file size_ok_def)
  then show ?thesis by (simp add: index_ok_def index_check_def index_read_write)
qed

lemma write_written:
  "index_write_payload H magic p file = file' \<Longrightarrow> written_as H magic file'"
  by (auto simp: index_write_payload_def written_as_def)

text \<open>What a branch leaves in the state of the rebuild.\<close>

definition rebuilt_files :: "digest \<Rightarrow> rebuild_state \<Rightarrow> bool" where
  "rebuilt_files H rb \<longleftrightarrow> written_as H event_magic (rb_events rb)
     \<and> written_as H objects_magic (ws_objects (rb_world rb)) \<and> written_as H relations_magic (ws_relations (rb_world rb))"

lemma event_commit_written:
  assumes "event_index_commit H b r after file = Inr file'"
  shows "written_as H event_magic file'"
proof -
  from assms obtain es where es: "event_name_entries H file = Inr es"
    unfolding event_index_commit_def res_bind_Inr_iff by blast
  from assms obtain ts where ts: "touch_entries H file = Inr ts"
    unfolding event_index_commit_def es res_bind_simps res_bind_Inr_iff by blast
  obtain p q where "index_record b r after (es, ts) = (p, q)" by fastforce
  with assms es ts show ?thesis by (auto simp: event_index_commit_def event_index_write_def intro: write_written)
qed

lemma rebuild_commit_step:
  assumes "rebuild_commit H u rp ref rb i = Some (Inr rb')"
  shows "rb_branches rb' = rb_branches rb" "written_as H event_magic (rb_events rb')"
proof -
  from assms obtain c where c: "engine_stored_commit H rp i = Inr c"
    unfolding rebuild_commit_def run_bind_Inr_iff by blast
  from assms obtain r where r: "full_record H rp i c = Inr r"
    unfolding rebuild_commit_def c run_bind_simps Let_def run_bind_Inr_iff by blast
  from assms obtain after where a: "engine_snapshot_at H rp i = Some (Inr after)"
    unfolding rebuild_commit_def c r run_bind_simps Let_def run_bind_Inr_iff by blast
  let ?rb = "if i \<in> rb_seen rb then rb
    else rb\<lparr>rb_seen := insert i (rb_seen rb), rb_commits := rb_commits rb @ [make_commit_entry (bf_name ref) (sc_record c) c]\<rparr>"
  from assms obtain ev where e: "event_index_commit H (bf_name ref) r after (rb_events ?rb) = Inr ev"
    unfolding rebuild_commit_def c r a run_bind_simps Let_def run_bind_Some_iff lift_res_Inr_iff by blast
  from assms obtain w where w: "rb' = ?rb\<lparr>rb_events := ev, rb_world := w\<rparr>"
    unfolding rebuild_commit_def c r a run_bind_simps Let_def e lift_res_simps run_bind_Some_iff lift_res_Inr_iff option.inject sum.inject by blast
  have "rb_events rb' = ev" unfolding w by simp
  with event_commit_written [OF e] show "written_as H event_magic (rb_events rb')" by simp
  show "rb_branches rb' = rb_branches rb" unfolding w by simp
qed

lemma rebuild_commits:
  assumes "run_fold (rebuild_commit H u rp ref) rb ids = Some (Inr rb')"
  shows "rb_branches rb' = rb_branches rb \<and> (ids \<noteq> [] \<longrightarrow> written_as H event_magic (rb_events rb'))"
  using assms
proof (induction ids arbitrary: rb)
  case (Cons i ids)
  from Cons.prems obtain mid where m: "rebuild_commit H u rp ref rb i = Some (Inr mid)"
    and rest: "run_fold (rebuild_commit H u rp ref) mid ids = Some (Inr rb')" by (auto simp: run_bind_Inr_iff)
  from rebuild_commit_step [OF m] Cons.IH [OF rest] rest show ?case by (cases ids) auto
qed simp

lemma rebuild_ids_head: "rebuild_ids H rp ref = Some (Inr ids) \<Longrightarrow> bf_head ref \<in> set ids"
  by (auto simp: rebuild_ids_def run_bind_Inr_iff split: if_splits)

lemma rebuild_branch_step:
  assumes "rebuild_branch H u rp rb ref = Some (Inr rb')"
  shows "rebuilt_files H rb' \<and> (\<exists>ids. rb_branches rb' = rb_branches rb @ [make_branch_entry ref ids] \<and> bf_head ref \<in> set ids)"
proof -
  from assms obtain ids where ids: "rebuild_ids H rp ref = Some (Inr ids)"
    unfolding rebuild_branch_def run_bind_Inr_iff by blast
  from assms obtain mid where mid: "run_fold (rebuild_commit H u rp ref) rb ids = Some (Inr mid)"
    unfolding rebuild_branch_def ids run_bind_simps run_bind_Inr_iff by blast
  from assms obtain head where head: "engine_snapshot_at H rp (bf_head ref) = Some (Inr head)"
    unfolding rebuild_branch_def ids mid run_bind_simps Let_def run_bind_Inr_iff by blast
  from assms obtain w where w: "update_branch_index H (bf_name ref) (bf_snapshot ref) head (rb_world mid) = Inr w"
    and rb': "rb' = mid\<lparr>rb_branches := rb_branches mid @ [make_branch_entry ref ids], rb_world := w\<rparr>"
    unfolding rebuild_branch_def ids mid head run_bind_simps Let_def run_bind_Inr_iff by (auto simp: lift_res_Inr_iff)
  note h = rebuild_ids_head [OF ids]
  then have "ids \<noteq> []" by auto
  with rebuild_commits [OF mid] have ev: "written_as H event_magic (rb_events mid)" "rb_branches mid = rb_branches rb" by simp_all
  from w have "written_as H objects_magic (ws_objects w)" "written_as H relations_magic (ws_relations w)"
    by (auto simp: update_branch_index_def res_bind_Inr_iff world_write_def index_write_def intro: write_written)
  with ev h show ?thesis by (auto simp: rebuilt_files_def rb')
qed

lemma rebuild_branches:
  assumes "run_fold (rebuild_branch H u rp) rb refs = Some (Inr rb')"
  shows "(refs \<noteq> [] \<longrightarrow> rebuilt_files H rb') \<and> (\<exists>es. rb_branches rb' = rb_branches rb @ es
    \<and> list_all2 (\<lambda>ref e. \<exists>ids. e = make_branch_entry ref ids \<and> bf_head ref \<in> set ids) refs es)"
  using assms
proof (induction refs arbitrary: rb)
  case (Cons ref refs)
  from Cons.prems obtain mid where m: "rebuild_branch H u rp rb ref = Some (Inr mid)"
    and rest: "run_fold (rebuild_branch H u rp) mid refs = Some (Inr rb')" by (auto simp: run_bind_Inr_iff)
  from rebuild_branch_step [OF m] obtain ids where s: "rebuilt_files H mid"
    "rb_branches mid = rb_branches rb @ [make_branch_entry ref ids]" "bf_head ref \<in> set ids" by blast
  from Cons.IH [OF rest] obtain es where es: "rb_branches rb' = rb_branches mid @ es"
    "list_all2 (\<lambda>ref e. \<exists>ids. e = make_branch_entry ref ids \<and> bf_head ref \<in> set ids) refs es" "refs \<noteq> [] \<Longrightarrow> rebuilt_files H rb'"
    by blast
  have "rb' = mid" if "refs = []" using rest that by simp
  with s(1) es(3) have "rebuilt_files H rb'" by blast
  moreover have "rb_branches rb' = rb_branches rb @ (make_branch_entry ref ids # es)" using s(2) es(1) by simp
  ultimately show ?case using s(3) es(2) by (intro conjI exI [of _ "make_branch_entry ref ids # es"]) auto
qed simp

text \<open>The table of branches that is written reads back.\<close>

lemma branch_table_read:
  assumes fits: "fits_index (branch_index_write H es file)" and d: "distinct (map bi_name es)"
  obtains table where "branch_index_entries H (branch_index_write H es file) = Inr table" "set table = set es" "distinct (map bi_name table)"
proof -
  let ?t = "index_table bi_name bi_name (\<lambda>e. e) es"
  note t = branches.table_distinct [OF d]
  have f: "branch_index_write H es file = Some (index_payload_file H branch_magic (index_payload write_branch_entry ?t))"
    by (simp add: branch_index_write_def index_write_def index_write_payload_def)
  have total: "branches.total ?t < 2 ^ 64"
    using fits unfolding f by (simp add: fits_index_def length_payload_file branches.length_payload)
  have "branch_entry_ok e" if "e \<in> set ?t" for e
  proof -
    have "length (write_branch_entry e) \<le> (\<Sum>e\<leftarrow>?t. length (write_branch_entry e))"
      using that by (simp add: member_le_sum_list)
    then have "length (write_branch_entry e) < 2 ^ 64" using total by (simp add: branches.total_def)
    then show ?thesis
      by (simp add: branch_entry_ok_def size_ok_def write_branch_entry_def index_string_def index_hashes_def index_u64_def
          index_hash_def length_concat comp_def sum_list_triv)
  qed
  then have "list_all branch_entry_ok ?t" by (simp add: list_all_iff)
  from branches.entries_file [OF this total] have "branch_index_entries H (branch_index_write H es file) = Inr ?t"
    by (simp add: branch_index_entries_def f)
  moreover have "set ?t = set es" using t(1) by (metis list.map_ident set_mset_mset)
  ultimately show thesis using t(2) by (rule that)
qed

definition indexes_fit :: "repository \<Rightarrow> bool" where
  "indexes_fit rp \<longleftrightarrow> fits_index (rp_commits rp) \<and> fits_index (rp_branches rp) \<and> fits_index (rp_events rp)
     \<and> fits_index (ws_objects (rp_world rp)) \<and> fits_index (ws_relations (rp_world rp))"

lemma rebuild_clean:
  assumes run: "rebuild_indexes H u rp = Some (Inr rp')" and inv: "om_inv (rf_files (rp_refs rp))"
    and refs: "list_branches (rp_refs rp) = Inr refs" "refs \<noteq> []" and fits: "indexes_fit rp'"
  shows "\<exists>report. check_indexes H rp' = Inr report \<and> rc_clean report"
proof -
  from run obtain rb where rb: "run_fold (rebuild_branch H u rp)
       \<lparr>rb_commits = [], rb_branches = [], rb_seen = {}, rb_events = index_remove (rp_events rp),
        rb_world = remove_world_index (rp_world rp)\<rparr> refs = Some (Inr rb)"
    unfolding rebuild_indexes_def refs(1) lift_res_simps run_bind_simps run_bind_Inr_iff by blast
  have rp': "rp' = rp\<lparr>rp_events := rb_events rb, rp_world := rb_world rb,
      rp_commits := commit_index_write H (rb_commits rb) (rp_commits rp),
      rp_branches := branch_index_write H (rb_branches rb) (rp_branches rp)\<rparr>"
    using run unfolding rebuild_indexes_def refs(1) lift_res_simps run_bind_simps rb by simp
  from rebuild_branches [OF rb] refs(2) obtain es where files: "rebuilt_files H rb" and es: "rb_branches rb = es"
    "list_all2 (\<lambda>ref e. \<exists>ids. e = make_branch_entry ref ids \<and> bf_head ref \<in> set ids) refs es" by auto
  have names: "map bi_name es = map bf_name refs"
    using es(2) by (induction rule: list_all2_induct) (auto simp: make_branch_entry_def)
  then have d: "distinct (map bi_name es)" using listed_read(2) [OF refs(1) inv] by simp
  from fits have "fits_index (branch_index_write H es (rp_branches rp))" by (simp add: indexes_fit_def rp' es(1))
  from branch_table_read [OF this d] obtain table where
    table: "branch_index_entries H (rp_branches rp') = Inr table" "set table = set es" "distinct (map bi_name table)"
    by (auto simp: rp' es(1))
  have ok: "indexes_readable H rp'"
    unfolding indexes_readable_def
  proof (intro conjI written_index_ok)
    show "written_as H commit_magic (rp_commits rp')"
      by (auto simp: rp' commit_index_write_def index_write_def intro: write_written)
    show "written_as H branch_magic (rp_branches rp')"
      by (auto simp: rp' branch_index_write_def index_write_def intro: write_written)
  qed (use files fits in \<open>simp_all add: rebuilt_files_def indexes_fit_def rp'\<close>)
  have entry: "check_entry rp' e = Inr []" if "e \<in> set table" for e
  proof -
    from that table(2) have "e \<in> set es" by simp
      then obtain k where k: "k < length es" "e = es ! k" by (auto simp: in_set_conv_nth)
    with es(2) have "refs ! k \<in> set refs" "\<exists>ids. es ! k = make_branch_entry (refs ! k) ids \<and> bf_head (refs ! k) \<in> set ids"
      by (simp_all add: list_all2_conv_all_nth)
    with k(2) obtain ref ids where e: "ref \<in> set refs" "e = make_branch_entry ref ids" "bf_head ref \<in> set ids" by blast
    with listed_read(1) [OF refs(1) e(1)] show ?thesis
      by (simp add: check_entry_def make_branch_entry_def rp')
  qed
  have ref: "check_ref H rp' r = Inr []" if "r \<in> set refs" for r
  proof -
    from that names have "bf_name r \<in> bi_name ` set table" by (metis image_eqI list.set_map table(2))
    then have "entry_find bi_name (bf_name r) table \<noteq> None" by (auto simp: entry_find_def find_None_iff)
    with table(1) show ?thesis
      by (simp add: check_ref_def branch_index_find_def index_find_def branch_index_entries_def)
  qed
  have "list_branches (rp_refs rp') = Inr refs" using refs(1) by (simp add: rp')
  with ok table(1) entry ref show ?thesis unfolding check_clean_iff by blast
qed

section \<open>Opening\<close>

lemma rebuild_keeps:
  assumes "rebuild_indexes H u rp = Some (Inr rp')"
  shows "rp_refs rp' = rp_refs rp" "rp_objects rp' = rp_objects rp" "rp_wal rp' = rp_wal rp" "rp_history rp' = rp_history rp"
proof -
  from assms obtain refs where refs: "list_branches (rp_refs rp) = Inr refs"
    unfolding rebuild_indexes_def run_bind_Some_iff lift_res_Inr_iff by blast
  show "rp_refs rp' = rp_refs rp" "rp_objects rp' = rp_objects rp" "rp_wal rp' = rp_wal rp" "rp_history rp' = rp_history rp"
    using assms by (auto simp: rebuild_indexes_def refs run_bind_Inr_iff)
qed

text \<open>An opened repository answers for every reference with the head and the snapshot the reference names.\<close>

lemma engine_open_clean:
  assumes run: "engine_open H u rp = Some (Inr rp')" and inv: "om_inv (rf_files (rp_refs rp))"
    and refs: "list_branches (rp_refs rp) = Inr refs" "refs \<noteq> []" and fits: "indexes_fit rp'"
  shows "\<exists>report. check_indexes H rp' = Inr report \<and> rc_clean report" "rp_refs rp' = rp_refs rp" "rp_objects rp' = rp_objects rp"
proof -
  from run obtain w where w: "wal_recover H (rp_wal rp) = Inr w"
    unfolding engine_open_def run_bind_Some_iff lift_res_Inr_iff by blast
  from run consider "rebuild_indexes H u rp = Some (Inr rp')"
    | report where "check_indexes H rp = Inr report" "rc_clean report" "rp' = rp"
    unfolding engine_open_def w refs(1) lift_res_simps run_bind_simps
    by (auto simp: run_bind_Some_iff split: if_splits)
  then have "(\<exists>report. check_indexes H rp' = Inr report \<and> rc_clean report) \<and> rp_refs rp' = rp_refs rp \<and> rp_objects rp' = rp_objects rp"
  proof cases
    case 1
    from rebuild_clean [OF this inv refs fits] rebuild_keeps [OF this] show ?thesis by simp
  qed auto
  then show "\<exists>report. check_indexes H rp' = Inr report \<and> rc_clean report" "rp_refs rp' = rp_refs rp" "rp_objects rp' = rp_objects rp"
    by simp_all
qed

lemma engine_open_answers:
  assumes run: "engine_open H u rp = Some (Inr rp')" and inv: "om_inv (rf_files (rp_refs rp))"
    and refs: "list_branches (rp_refs rp) = Inr refs" "ref \<in> set refs" and fits: "indexes_fit rp'"
  obtains r where "branch_ref_of H rp' (bf_name ref) = Inr (Some r)" "bf_head r = bf_head ref" "bf_snapshot r = bf_snapshot ref"
    "bf_epoch r = bf_epoch ref"
proof -
  from refs(2) have "refs \<noteq> []" by auto
  note open' = engine_open_clean [OF run inv refs(1) this fits]
  from open'(1) obtain report where report: "check_indexes H rp' = Inr report" "rc_clean report" by blast
  have "list_branches (rp_refs rp') = Inr refs" using refs(1) open'(2) by simp
  from check_clean_agrees [OF report this refs(2)] obtain e where
    e: "branch_index_find H (bf_name ref) (rp_branches rp') = Inr (Some e)" "bi_head e = bf_head ref"
      "bi_snapshot e = bf_snapshot ref" "bi_epoch e = bf_epoch ref" .
  then show thesis by (intro that [of "ref_of_entry e"]) (simp_all add: branch_ref_of_def ref_of_entry_def)
qed

text \<open>
  Without branches the rebuild writes neither the events nor the worlds, and the check that follows reports them as
  missing: the indexes of a new repository are never clean.
\<close>

lemma rebuild_without_branches:
  assumes "list_branches (rp_refs rp) = Inr []"
  obtains rp' report where "rebuild_indexes H u rp = Some (Inr rp')" "check_indexes H rp' = Inr report" "\<not> rc_clean report"
    "rc_messages report = [IndexMissing ''event'', IndexMissing ''world'', IndexMissing ''relation'']"
proof -
  let ?rp = "rp\<lparr>rp_events := None, rp_world := remove_world_index (rp_world rp),
      rp_commits := commit_index_write H [] (rp_commits rp), rp_branches := branch_index_write H [] (rp_branches rp)\<rparr>"
  have run: "rebuild_indexes H u rp = Some (Inr ?rp)"
    by (simp add: rebuild_indexes_def assms index_remove_def)
  have ok: "index_ok (index_check H commit_magic (rp_commits ?rp))" "index_ok (index_check H branch_magic (rp_branches ?rp))"
    by (rule written_index_ok;
        auto simp: commit_index_write_def branch_index_write_def index_write_def index_write_payload_def written_as_def fits_index_def
          length_payload_file index_table_def index_payload_def index_u64_def commit_magic_def branch_magic_def)+
  have none: "index_check H m None = \<lparr>ix_exists = False, ix_checksum_ok = False, ix_payload_bytes = 0, ix_checksum = 0, ix_error = None\<rparr>" for m
    by (simp add: index_check_def)
  have "fits_index (branch_index_write H [] (rp_branches rp))"
    by (simp add: branch_index_write_def index_write_def index_write_payload_def fits_index_def
          length_payload_file index_table_def index_payload_def index_u64_def branch_magic_def)
  from branch_table_read [OF this] obtain table where
    "branch_index_entries H (branch_index_write H [] (rp_branches rp)) = Inr table" "set table = set []" by auto
  then have entries: "branch_index_entries H (rp_branches ?rp) = Inr []" by simp
  have no: "status_problems what (index_check H m None) = [IndexMissing what]" for what m
    by (simp add: none status_problems_def index_ok_def)
  have "\<exists>report. check_indexes H ?rp = Inr report \<and> \<not> rc_clean report
      \<and> rc_messages report = [IndexMissing ''event'', IndexMissing ''world'', IndexMissing ''relation'']"
    unfolding check_indexes_def Let_def entries
    using ok assms by (simp add: remove_world_index_def no status_problems_def [of _ "index_check H commit_magic _"]
        status_problems_def [of _ "index_check H branch_magic _"])
  with run that show thesis by blast
qed

text \<open>A repository in order is left as it is by a recovery, with nothing to report.\<close>

lemma recover_in_order:
  assumes "wal_recover H (rp_wal rp) = Inr wal" "\<not> wr_incomplete_commit wal" "check_indexes H rp = Inr report" "rc_clean report"
    and "temp_files (rf_files (rp_refs rp)) = []" "temp_files (rp_history rp) = []"
  shows "recover_repository H u repair rp = Some (Inr (\<lparr>rv_wal_entries = wr_entries_read wal, rv_incomplete_wal = False,
     rv_repaired = False, rv_actions = []\<rparr>, rp))"
proof -
  have same: "without_temp files = files" if "temp_files files = []" for files
  proof -
    have "\<forall>f \<in> set (map fst files). \<not> has_tmp_extension f" using that unfolding temp_files_def filter_empty_conv .
    then show ?thesis unfolding without_temp_def by (intro filter_True) auto
  qed
  then have "remove_temp_files rp = rp" using assms(5,6) by (simp add: remove_temp_files_def)
  with assms show ?thesis by (simp add: recover_repository_def Let_def)
qed

end
