(* ===== verification/Repo_Session.thy ===== *)
theory Repo_Session
  imports Repo_Clean World_Store_Inv
begin

text \<open>
  A session on a repository (\<open>src/storage/repository.cpp\<close>): the store of worlds in memory over the repository on
  disk.  Branches are restored into the store when they are first needed; creating, forking and committing go to the
  store first and are then written.  The lemmas show what a commit leaves on disk, and that the identifiers the
  store gives out start over in every session.
\<close>

datatype session_error =
    SessionRepo repo_error
  | SessionStore store_error
  | BranchAlreadyExists string
  | UnknownSessionBranch string
  | BranchWithoutHead
  | UnknownSessionSnapshot

record session =
  se_repo :: repository
  se_store :: world_store

type_synonym 'a session_run = "(session_error, 'a) partial"

definition on_repo :: "'a run \<Rightarrow> 'a session_run" where
  "on_repo m = (case m of None \<Rightarrow> None | Some (Inl e) \<Rightarrow> Some (Inl (SessionRepo e)) | Some (Inr x) \<Rightarrow> Some (Inr x))"

definition on_store :: "store_error + 'a \<Rightarrow> 'a session_run" where
  "on_store m = (case m of Inl e \<Rightarrow> Some (Inl (SessionStore e)) | Inr x \<Rightarrow> Some (Inr x))"

lemma on_repo_iff: "on_repo m = Some (Inr x) \<longleftrightarrow> m = Some (Inr x)"
  by (auto simp: on_repo_def split: option.splits sum.splits)

lemma on_store_iff: "on_store m = Some (Inr x) \<longleftrightarrow> m = Inr x"
  by (auto simp: on_store_def split: sum.splits)

definition new_session :: "checkpoint_policy \<Rightarrow> repository \<Rightarrow> session" where
  "new_session policy rp = \<lparr>se_repo = rp, se_store = new_store policy\<rparr>"

text \<open>\<open>Repository::init\<close> on the state of the directory.\<close>

definition init_repository :: "digest \<Rightarrow> u64 \<Rightarrow> checkpoint_policy \<Rightarrow> repository \<Rightarrow> session run" where
  "init_repository H unspecified policy rp =
     run_bind (Some (lift_res RepoRef (set_current_branch ''main'' (rp_refs rp)))) (\<lambda>refs.
     run_bind (rebuild_indexes H unspecified (rp\<lparr>rp_refs := refs, rp_wal := wal_truncate (rp_wal rp)\<rparr>)) (\<lambda>rp.
       Some (Inr (new_session policy rp))))"

definition open_session :: "digest \<Rightarrow> u64 \<Rightarrow> checkpoint_policy \<Rightarrow> repository \<Rightarrow> session run" where
  "open_session H unspecified policy rp =
     run_bind (open_repository H unspecified rp) (\<lambda>rp. Some (Inr (new_session policy rp)))"

definition ensure_materialized :: "digest \<Rightarrow> string \<Rightarrow> session \<Rightarrow> session session_run" where
  "ensure_materialized H name se =
     (if find_branch (se_store se) name \<noteq> None then Some (Inr se)
      else
        run_bind (on_repo (engine_materialize_branch H (se_repo se) name)) (\<lambda>m.
        run_bind (on_store (restore_branch H (bf_branch (mw_ref m)) (bf_name (mw_ref m)) (mw_world m) (mw_history m)
            (mw_snapshots m) (se_store se))) (\<lambda>(_, store).
          Some (Inr (se\<lparr>se_store := store\<rparr>)))))"

definition require_branch :: "digest \<Rightarrow> string \<Rightarrow> session \<Rightarrow> (branch_id \<times> session) session_run" where
  "require_branch H name se =
     run_bind (ensure_materialized H name se) (\<lambda>se. case find_branch (se_store se) name of
       None \<Rightarrow> Some (Inl (UnknownSessionBranch name))
     | Some i \<Rightarrow> Some (Inr (i, se)))"

definition session_world :: "digest \<Rightarrow> string \<Rightarrow> session \<Rightarrow> (world \<times> session) session_run" where
  "session_world H name se =
     run_bind (require_branch H name se) (\<lambda>(i, se).
     run_bind (on_store (branch_state_of (se_store se) i)) (\<lambda>b. Some (Inr (bs_world b, se))))"

definition branch_ref_from_runtime :: "digest \<Rightarrow> string \<Rightarrow> session \<Rightarrow> (branch_ref \<times> session) session_run" where
  "branch_ref_from_runtime H name se =
     run_bind (require_branch H name se) (\<lambda>(i, se).
     run_bind (on_store (branch_state_of (se_store se) i)) (\<lambda>b. case br_head (bs_branch b) of
       None \<Rightarrow> Some (Inl BranchWithoutHead)
     | Some head \<Rightarrow> Some (Inr (\<lparr>bf_name = br_name (bs_branch b), bf_branch = br_id (bs_branch b), bf_head = head,
           bf_snapshot = world_canonical_hash H (bs_world b), bf_epoch = br_epoch (bs_branch b)\<rparr>, se))))"

definition persist_record ::
  "digest \<Rightarrow> u64 \<Rightarrow> string \<Rightarrow> commit_record \<Rightarrow> delta \<Rightarrow> kernel_program option \<Rightarrow> string list \<Rightarrow> session \<Rightarrow> session session_run" where
  "persist_record H unspecified name record d program path se =
     (case snapshot_get (st_snapshots (se_store se)) (cr_before_snapshot record) of
        None \<Rightarrow> Some (Inl UnknownSessionSnapshot)
      | Some before \<Rightarrow> (case snapshot_get (st_snapshots (se_store se)) (cr_after_snapshot record) of
        None \<Rightarrow> Some (Inl UnknownSessionSnapshot)
      | Some after \<Rightarrow>
          run_bind (require_branch H name se) (\<lambda>(i, se).
          run_bind (on_store (branch_state_of (se_store se) i)) (\<lambda>b.
          run_bind (if cr_accepted record
                    then run_bind (branch_ref_from_runtime H name se) (\<lambda>(ref, se). Some (Inr (Some ref, se)))
                    else Some (Inr (None, se))) (\<lambda>(ref, se).
          run_bind (on_repo (Some (write_commit H unspecified
              \<lparr>cw_branch = name, cw_record = record, cw_delta = d, cw_program = program, cw_morphism_path = path, cw_before = before,
               cw_after = after, cw_accepted_ref = ref, cw_history = map cr_id (bs_history b)\<rparr> (se_repo se)))) (\<lambda>(_, rp).
            Some (Inr (se\<lparr>se_repo := rp\<rparr>))))))))"

definition repo_create_branch :: "digest \<Rightarrow> u64 \<Rightarrow> string \<Rightarrow> world \<Rightarrow> session \<Rightarrow> (branch_id \<times> session) session_run" where
  "repo_create_branch H unspecified name initial se =
     run_bind (on_repo (Some (has_branch H (se_repo se) name))) (\<lambda>exists.
       if exists then Some (Inl (BranchAlreadyExists name))
       else
         run_bind (on_store (create_branch H name initial (se_store se))) (\<lambda>(i, store).
         run_bind (on_store (branch_state_of store i)) (\<lambda>b.
         run_bind (persist_record H unspecified (br_name (bs_branch b)) (last (bs_history b)) [] None [] (se\<lparr>se_store := store\<rparr>)) (\<lambda>se.
           Some (Inr (i, se))))))"

definition next_fork_id :: "branch_ref list \<Rightarrow> u64" where
  "next_fork_id refs = fold (\<lambda>ref n. max n (bf_branch ref + 1)) refs 1"

definition repo_fork :: "digest \<Rightarrow> u64 \<Rightarrow> string \<Rightarrow> string \<Rightarrow> session \<Rightarrow> (fork_result \<times> session) session_run" where
  "repo_fork H unspecified source new_name se =
     run_bind (require_branch H source se) (\<lambda>(source_id, se).
     run_bind (on_repo (Some (engine_branches H (se_repo se)))) (\<lambda>refs.
     run_bind (on_store (fork_with_id H source_id (next_fork_id refs) new_name (se_store se))) (\<lambda>(result, store).
     run_bind (on_store (branch_state_of store (fk_forked result))) (\<lambda>forked.
     run_bind (branch_ref_from_runtime H (br_name (bs_branch forked)) (se\<lparr>se_store := store\<rparr>)) (\<lambda>(ref, se).
     let rp = se_repo se; history = map cr_id (bs_history forked) in
     run_bind (on_repo (Some (lift_res RepoRef (update_ref ref (rp_refs rp))))) (\<lambda>files.
     run_bind (on_repo (Some (lift_res RepoIndex (branch_index_upsert H (make_branch_entry ref history) (rp_branches rp))))) (\<lambda>branches.
     run_bind (on_repo (Some (lift_res RepoIndex (update_branch_index H (bf_name ref) (bf_snapshot ref)
         (world_snapshot_of H (bs_world forked)) (rp_world rp))))) (\<lambda>world.
     run_bind (on_repo (Some (lift_res RepoRef (write_history_mirror (br_name (bs_branch forked)) history (rp_history rp))))) (\<lambda>mirror.
       Some (Inr (result, se\<lparr>se_repo := rp\<lparr>rp_refs := files, rp_branches := branches, rp_world := world, rp_history := mirror\<rparr>\<rparr>)))))))))))"

definition repo_commit ::
  "digest \<Rightarrow> (f64 \<Rightarrow> string) \<Rightarrow> u64 \<Rightarrow> string \<Rightarrow> transaction \<Rightarrow> verifier \<Rightarrow> session \<Rightarrow> (commit_record \<times> session) session_run" where
  "repo_commit H fmt17 unspecified name tx v se =
     run_bind (require_branch H name se) (\<lambda>(i, se).
     run_bind (on_store (normalize_delta H (se_store se) i (tx_delta tx))) (\<lambda>d.
     let tx = tx\<lparr>tx_delta := d\<rparr> in
     run_bind (on_store (store_commit H fmt17 i tx v (se_store se))) (\<lambda>(record, store).
     run_bind (persist_record H unspecified name record (tx_delta tx) (tx_program tx) (tx_morphism_path tx) (se\<lparr>se_store := store\<rparr>)) (\<lambda>se.
       Some (Inr (record, se))))))"

definition repo_checkout :: "digest \<Rightarrow> string \<Rightarrow> session \<Rightarrow> session session_run" where
  "repo_checkout H name se =
     run_bind (on_repo (Some (has_branch H (se_repo se) name))) (\<lambda>known.
       if \<not> known then Some (Inl (UnknownSessionBranch name))
       else run_bind (on_repo (Some (lift_res RepoRef (set_current_branch name (rp_refs (se_repo se)))))) (\<lambda>refs.
         Some (Inr (se\<lparr>se_repo := (se_repo se)\<lparr>rp_refs := refs\<rparr>\<rparr>))))"

section \<open>What a write leaves on disk\<close>

lemma only_trans: "objects_only a b \<Longrightarrow> objects_only b c \<Longrightarrow> objects_only a c"
  by (cases a; cases b; cases c) (simp add: objects_only_def)

lemma only_fields: "objects_only a b \<Longrightarrow> rp_refs b = rp_refs a" "objects_only a b \<Longrightarrow> rp_history b = rp_history a"
  by (cases a; cases b; simp add: objects_only_def)+

lemma log_op_only: "log_op H op p rp = Inr rp' \<Longrightarrow> objects_only rp rp'"
  by (auto simp: log_op_def res_bind_Inr_iff lift_res_Inr_iff objects_only_def)

lemma put_object_only: "put_object H b rp = Inr (i, rp') \<Longrightarrow> objects_only rp rp'"
  by (auto simp: put_object_def res_bind_Inr_iff lift_res_Inr_iff objects_only_def)

lemma put_logged_only: "put_logged H b rp = Inr (i, rp') \<Longrightarrow> objects_only rp rp'"
  by (auto simp: put_logged_def res_bind_Inr_iff intro: only_trans put_object_only log_op_only)

lemma put_program_only: "put_program H w (c, rp) = Inr (c', rp') \<Longrightarrow> objects_only rp rp'"
proof (cases "cw_program w")
  case None
  then show "put_program H w (c, rp) = Inr (c', rp') \<Longrightarrow> ?thesis" by (simp add: put_program_def objects_only_def)
next
  case (Some p)
  then show "put_program H w (c, rp) = Inr (c', rp') \<Longrightarrow> ?thesis"
    by (auto simp: put_program_def res_bind_Inr_iff intro: only_trans put_object_only log_op_only split: if_splits)
qed

lemma put_checkpoint_only:
  assumes "put_checkpoint H w rp = Inr rp'"
  shows "objects_only rp rp'"
proof (cases "cr_checkpoint_snapshot_object (cw_record w) = 0")
  case True
  with assms show ?thesis by (simp add: put_checkpoint_def objects_only_def)
next
  case False
  with assms obtain i s where "log_op H WalPutObject (hash_bytes i) (rp\<lparr>rp_objects := s\<rparr>) = Inr rp'"
    by (auto simp: put_checkpoint_def res_bind_Inr_iff split: if_splits)
  moreover have "objects_only rp (rp\<lparr>rp_objects := s\<rparr>)" by (simp add: objects_only_def)
  ultimately show ?thesis by (blast intro: only_trans log_op_only)
qed

lemma write_objects_only:
  assumes "write_objects H w rp = Inr (c, rp')"
  shows "objects_only rp rp'"
proof -
  note only = log_op_only put_object_only put_logged_only put_program_only put_checkpoint_only
  from assms show ?thesis
    unfolding write_objects_def Let_def res_bind_Inr_iff
    by (elim exE conjE) (auto simp: res_bind_Inr_iff split: if_splits prod.splits dest!: only elim!: only_trans)
qed

lemma write_ref_disk:
  assumes "write_ref H w rp = Inr rp'"
  shows "case cw_accepted_ref w of None \<Rightarrow> rp_refs rp' = rp_refs rp | Some ref \<Rightarrow> update_ref ref (rp_refs rp) = Inr (rp_refs rp')"
    "rp_history rp' = rp_history rp"
proof -
  have "(case cw_accepted_ref w of None \<Rightarrow> rp_refs rp' = rp_refs rp | Some ref \<Rightarrow> update_ref ref (rp_refs rp) = Inr (rp_refs rp'))
      \<and> rp_history rp' = rp_history rp"
  proof (cases "cw_accepted_ref w")
    case None
    with assms show ?thesis by (auto simp: write_ref_def res_bind_Inr_iff lift_res_Inr_iff split: option.splits)
  next
    case (Some ref)
    with assms show ?thesis by (auto simp: write_ref_def res_bind_Inr_iff lift_res_Inr_iff log_op_def)
  qed
  then show "case cw_accepted_ref w of None \<Rightarrow> rp_refs rp' = rp_refs rp | Some ref \<Rightarrow> update_ref ref (rp_refs rp) = Inr (rp_refs rp')"
    "rp_history rp' = rp_history rp" by simp_all
qed

text \<open>
  After a write the log is empty, the mirror holds the history, and the reference is the accepted one, or, for a
  rejected commit, untouched.
\<close>

lemma write_commit_disk:
  assumes "write_commit H u w rp = Inr (x, rp')"
  shows "rp_wal rp' = Some []" "read_history_ids (cw_branch w) (rp_history rp') = Inr (cw_history w)"
    "case cw_accepted_ref w of None \<Rightarrow> rp_refs rp' = rp_refs rp | Some ref \<Rightarrow> update_ref ref (rp_refs rp) = Inr (rp_refs rp')"
proof -
  from assms obtain c rp1 where 1: "write_objects H w rp = Inr (c, rp1)"
    unfolding write_commit_def res_bind_Inr_iff by fast
  from assms obtain rp2 where 2: "write_indexes H u w c rp1 = Inr rp2"
    unfolding write_commit_def 1 res_bind_simps prod.case res_bind_Inr_iff by fast
  from assms obtain rp3 where 3: "write_ref H w rp2 = Inr rp3"
    unfolding write_commit_def 1 2 res_bind_simps prod.case res_bind_Inr_iff by fast
  from assms obtain files where 4: "write_history_mirror (cw_branch w) (cw_history w) (rp_history rp3) = Inr files"
    unfolding write_commit_def 1 2 3 res_bind_simps prod.case res_bind_Inr_iff lift_res_Inr_iff by fast
  from assms obtain rp5 where 5: "log_op H WalAddCommitNode (hash_bytes (cr_id (cw_record w))) (rp3\<lparr>rp_history := files\<rparr>) = Inr rp5"
    unfolding write_commit_def 1 2 3 4 res_bind_simps prod.case lift_res_simps Let_def res_bind_Inr_iff by fast
  from assms obtain rp6 where 6: "log_op H WalEndCommit (hash_bytes (cr_id (cw_record w))) rp5 = Inr rp6"
    unfolding write_commit_def 1 2 3 4 5 res_bind_simps prod.case lift_res_simps Let_def res_bind_Inr_iff by fast
  have rp': "rp' = rp6\<lparr>rp_wal := wal_truncate (rp_wal rp6)\<rparr>"
    using assms unfolding write_commit_def 1 2 3 4 5 6 res_bind_simps prod.case lift_res_simps Let_def by simp
  have keep: "rp_refs rp6 = rp_refs rp3" "rp_history rp6 = files"
    using only_fields [OF log_op_only [OF 5]] only_fields [OF log_op_only [OF 6]] by simp_all
  show "rp_wal rp' = Some []" by (simp add: rp' wal_truncate_def)
  show "read_history_ids (cw_branch w) (rp_history rp') = Inr (cw_history w)"
    using history_reads_back [OF 4] by (simp add: rp' keep)
  have "rp_refs rp1 = rp_refs rp" using only_fields(1) [OF write_objects_only [OF 1]] .
  then have "rp_refs rp2 = rp_refs rp" using write_indexes_fields(3) [OF 2] by simp
  with write_ref_disk(1) [OF 3] show "case cw_accepted_ref w of None \<Rightarrow> rp_refs rp' = rp_refs rp
      | Some ref \<Rightarrow> update_ref ref (rp_refs rp) = Inr (rp_refs rp')"
    by (simp add: rp' keep split: option.splits)
qed

section \<open>An accepted commit is on disk\<close>

lemma materialized_stays: "find_branch (se_store se) name = Some i \<Longrightarrow> require_branch H name se = Some (Inr (i, se))"
  by (simp add: require_branch_def ensure_materialized_def)

lemma find_branch_commit:
  assumes "commit_effect H b tx result w' r b' store store'" "find_branch store name = Some i"
    and "distinct (map (br_id \<circ> bs_branch) (st_branches store))" "b \<in> set (st_branches store)"
  shows "find_branch store' name = Some i"
proof -
  let ?f = "\<lambda>c. if br_id (bs_branch c) = br_id (bs_branch b) then b' else c"
  have f: "st_branches store' = map ?f (st_branches store)" and b': "br_id (bs_branch b') = br_id (bs_branch b)" "br_name (bs_branch b') = br_name (bs_branch b)"
    using assms(1) by (simp_all add: commit_effect_def)
  have "br_name (bs_branch (?f c)) = br_name (bs_branch c) \<and> br_id (bs_branch (?f c)) = br_id (bs_branch c)" if "c \<in> set (st_branches store)" for c
    using that assms(3,4) b' by (auto simp: distinct_map inj_on_def)
  then have "map_option (br_id \<circ> bs_branch) (List.find (\<lambda>b. br_name (bs_branch b) = name) (map ?f bs))
      = map_option (br_id \<circ> bs_branch) (List.find (\<lambda>b. br_name (bs_branch b) = name) bs)" if "set bs \<subseteq> set (st_branches store)" for bs
    using that by (induction bs) auto
  with assms(2) show ?thesis by (simp add: find_branch_def f)
qed

lemma persist_disk:
  assumes run: "persist_record H u name r d p path se = Some (Inr se')" and f: "find_branch (se_store se) name = Some i"
    and b: "branch_state_of (se_store se) i = Inr b"
  shows "se_store se' = se_store se" "rp_wal (se_repo se') = Some []"
    "read_history_ids name (rp_history (se_repo se')) = Inr (map cr_id (bs_history b))"
    "\<not> cr_accepted r \<Longrightarrow> rp_refs (se_repo se') = rp_refs (se_repo se)"
    "cr_accepted r \<Longrightarrow> \<exists>head. br_head (bs_branch b) = Some head \<and> update_ref \<lparr>bf_name = br_name (bs_branch b), bf_branch = br_id (bs_branch b),
       bf_head = head, bf_snapshot = world_canonical_hash H (bs_world b), bf_epoch = br_epoch (bs_branch b)\<rparr> (rp_refs (se_repo se))
       = Inr (rp_refs (se_repo se'))"
proof -
  note req = materialized_stays [OF f]
  have ob: "on_store (branch_state_of (se_store se) i) = Some (Inr b)" by (simp add: on_store_iff b)
  from run obtain before after where s: "snapshot_get (st_snapshots (se_store se)) (cr_before_snapshot r) = Some before"
    "snapshot_get (st_snapshots (se_store se)) (cr_after_snapshot r) = Some after"
    by (auto simp: persist_record_def split: option.splits)
  define ref where "ref = (if cr_accepted r then map_option (\<lambda>head. \<lparr>bf_name = br_name (bs_branch b), bf_branch = br_id (bs_branch b),
       bf_head = head, bf_snapshot = world_canonical_hash H (bs_world b), bf_epoch = br_epoch (bs_branch b)\<rparr>) (br_head (bs_branch b)) else None)"
  have head: "br_head (bs_branch b) \<noteq> None" if "cr_accepted r"
  proof
    assume "br_head (bs_branch b) = None"
    with run that show False by (simp add: persist_record_def s req ob branch_ref_from_runtime_def)
  qed
  have "(if cr_accepted r then run_bind (branch_ref_from_runtime H name se) (\<lambda>(ref, se). Some (Inr (Some ref, se))) else Some (Inr (None, se)))
      = Some (Inr (ref, se))"
    using head by (auto simp: branch_ref_from_runtime_def req ob ref_def)
  note run' = run [unfolded persist_record_def s option.case req run_bind_simps prod.case ob this run_bind_Inr_iff on_repo_iff]
  then obtain x rp where w: "write_commit H u \<lparr>cw_branch = name, cw_record = r, cw_delta = d, cw_program = p, cw_morphism_path = path,
      cw_before = before, cw_after = after, cw_accepted_ref = ref, cw_history = map cr_id (bs_history b)\<rparr> (se_repo se) = Inr (x, rp)"
    and se': "se' = se\<lparr>se_repo := rp\<rparr>" by auto
  note disk = write_commit_disk [OF w]
  show "se_store se' = se_store se" "rp_wal (se_repo se') = Some []"
    "read_history_ids name (rp_history (se_repo se')) = Inr (map cr_id (bs_history b))"
    using disk(1,2) by (simp_all add: se')
  show "\<not> cr_accepted r \<Longrightarrow> rp_refs (se_repo se') = rp_refs (se_repo se)" using disk(3) by (simp add: se' ref_def)
  show "cr_accepted r \<Longrightarrow> \<exists>head. br_head (bs_branch b) = Some head \<and> update_ref \<lparr>bf_name = br_name (bs_branch b), bf_branch = br_id (bs_branch b),
       bf_head = head, bf_snapshot = world_canonical_hash H (bs_world b), bf_epoch = br_epoch (bs_branch b)\<rparr> (rp_refs (se_repo se))
       = Inr (rp_refs (se_repo se'))"
    using disk(3) head by (auto simp: se' ref_def)
qed

text \<open>
  When a commit returns, the log is empty and the mirror of the history ends in the new record; the reference on disk
  is the branch's old one for a rejected commit and names the new record and the hash of its world for an accepted one.
\<close>

lemma commit_on_disk:
  assumes run: "repo_commit H fmt17 u name tx v se = Some (Inr (r, se'))" and f: "find_branch (se_store se) name = Some i"
    and b: "branch_state_of (se_store se) i = Inr b" "br_name (bs_branch b) = name"
    and dist: "distinct (map (br_id \<circ> bs_branch) (st_branches (se_store se)))" and inv: "om_inv (rf_files (rp_refs (se_repo se)))"
  obtains w' :: world where "rp_wal (se_repo se') = Some []"
    "read_history_ids name (rp_history (se_repo se')) = Inr (map cr_id (bs_history b) @ [cr_id r])"
    "\<not> cr_accepted r \<Longrightarrow> rp_refs (se_repo se') = rp_refs (se_repo se)"
    "cr_accepted r \<Longrightarrow> om_find (rf_files (rp_refs (se_repo se'))) name
       = Some (ref_text \<lparr>bf_name = name, bf_branch = i, bf_head = cr_id r, bf_snapshot = cr_after_hash r, bf_epoch = w_epoch w'\<rparr>)"
proof -
  note req = materialized_stays [OF f]
  from run obtain d where d: "normalize_delta H (se_store se) i (tx_delta tx) = Inr d"
    unfolding repo_commit_def req run_bind_simps prod.case run_bind_Inr_iff on_store_iff by fast
  have od: "on_store (normalize_delta H (se_store se) i (tx_delta tx)) = Some (Inr d)" by (simp add: on_store_iff d)
  from run obtain store' se1 where c: "store_commit H fmt17 i (tx\<lparr>tx_delta := d\<rparr>) v (se_store se) = Inr (r, store')"
    and p: "persist_record H u name r (tx_delta (tx\<lparr>tx_delta := d\<rparr>)) (tx_program (tx\<lparr>tx_delta := d\<rparr>))
      (tx_morphism_path (tx\<lparr>tx_delta := d\<rparr>)) (se\<lparr>se_store := store'\<rparr>) = Some (Inr se')"
    unfolding repo_commit_def req run_bind_simps prod.case od Let_def run_bind_Inr_iff on_store_iff
    by (auto simp: run_bind_Inr_iff)
  obtain b0 p0 result w' b' k where b0: "branch_state_of (se_store se) i = Inr b0"
    and eff: "commit_effect H b0 (tx\<lparr>tx_delta := d\<rparr>) result w' r b' (se_store se) store'"
    by (rule store_commit_props [OF c dist])
  have "b0 = b" using b0 b(1) by simp
  note eff = eff [unfolded this]
  note mem = branch_state_of_mem [OF b(1)]
  have f': "find_branch store' name = Some i" by (rule find_branch_commit [OF eff f dist mem(1)])
  have e: "st_branches store' = map (\<lambda>c. if br_id (bs_branch c) = br_id (bs_branch b) then b' else c) (st_branches (se_store se))"
    "bs_history b' = bs_history b @ [r]" "br_id (bs_branch b') = i" "br_name (bs_branch b') = name" "bs_world b' = w'"
    "cr_after_hash r = world_canonical_hash H w'" "cr_accepted r = cm_accepted result"
    using eff b(2) mem(2) by (simp_all add: commit_effect_def)
  have "List.find (\<lambda>c. br_id (bs_branch c) = i) (map (\<lambda>c. if br_id (bs_branch c) = br_id (bs_branch b) then b' else c) bs)
      = (if \<exists>c \<in> set bs. br_id (bs_branch c) = i then Some b' else None)" for bs
    using e(3) mem(2) by (induction bs) auto
  with mem have b': "branch_state_of store' i = Inr b'" by (auto simp: branch_state_of_def e(1))
  have f1: "find_branch (se_store (se\<lparr>se_store := store'\<rparr>)) name = Some i" and b1: "branch_state_of (se_store (se\<lparr>se_store := store'\<rparr>)) i = Inr b'"
    using f' b' by simp_all
  note disk = persist_disk [OF p f1 b1]
  show thesis
  proof (rule that [of w'])
    show "rp_wal (se_repo se') = Some []" by (rule disk(2))
    show "read_history_ids name (rp_history (se_repo se')) = Inr (map cr_id (bs_history b) @ [cr_id r])" using disk(3) by (simp add: e(2))
    show "\<not> cr_accepted r \<Longrightarrow> rp_refs (se_repo se') = rp_refs (se_repo se)" using disk(4) by simp
    assume acc: "cr_accepted r"
    with e(7) eff have h: "br_head (bs_branch b') = Some (cr_id r)" "br_epoch (bs_branch b') = w_epoch w'"
      by (simp_all add: commit_effect_def)
    from disk(5) [OF acc] have "update_ref \<lparr>bf_name = name, bf_branch = i, bf_head = cr_id r, bf_snapshot = cr_after_hash r, bf_epoch = w_epoch w'\<rparr>
        (rp_refs (se_repo se)) = Inr (rp_refs (se_repo se'))"
      by (simp add: h e)
    from update_branch_ok(3) [OF this inv, of name] show "om_find (rf_files (rp_refs (se_repo se'))) name
       = Some (ref_text \<lparr>bf_name = name, bf_branch = i, bf_head = cr_id r, bf_snapshot = cr_after_hash r, bf_epoch = w_epoch w'\<rparr>)"
      by simp
  qed
qed

section \<open>Identifiers start over\<close>

text \<open>
  The store numbers branches from 1 in every session.  A branch created before any other was restored takes the
  identifier of the first branch of the repository, and that branch, once restored, is found behind the new one: its
  world in the session is the new branch's.
\<close>

lemma persist_store:
  assumes "persist_record H u name r d p path se = Some (Inr se')" "find_branch (se_store se) name = Some i"
  shows "se_store se' = se_store se"
proof -
  from assms obtain b where "branch_state_of (se_store se) i = Inr b"
    by (auto simp: persist_record_def materialized_stays [OF assms(2)] run_bind_Inr_iff on_store_iff split: option.splits)
  with persist_disk(1) [OF assms this] show ?thesis by blast
qed

lemma reopened_create:
  assumes "repo_create_branch H u name w (new_session policy rp) = Some (Inr (i, se))"
  obtains b where "i = 1" "st_branches (se_store se) = [b]" "br_id (bs_branch b) = 1" "br_name (bs_branch b) = name" "bs_world b = w"
proof -
  let ?se = "new_session policy rp"
  from assms have "has_branch H rp name = Inr False"
    by (auto simp: repo_create_branch_def new_session_def run_bind_Inr_iff on_repo_iff split: if_splits)
  then have hb: "on_repo (Some (has_branch H (se_repo ?se) name)) = Some (Inr False)" by (simp add: on_repo_iff new_session_def)
  from assms obtain j store where c: "create_branch H name w (se_store ?se) = Inr (j, store)"
    unfolding repo_create_branch_def hb run_bind_simps if_False run_bind_Inr_iff on_store_iff by auto
  have oc: "on_store (create_branch H name w (se_store ?se)) = Some (Inr (j, store))" by (simp add: on_store_iff c)
  from create_branch_props [OF c] obtain b where b: "st_branches store = st_branches (se_store ?se) @ [b]" "br_id (bs_branch b) = j"
    "br_name (bs_branch b) = name" "bs_world b = w" "j = st_next_branch (se_store ?se)" by blast
  then have j: "j = 1" "st_branches store = [b]" by (simp_all add: new_session_def new_store_def)
  have os: "on_store (branch_state_of store j) = Some (Inr b)" using b(2) by (simp add: on_store_iff branch_state_of_def j)
  from assms have i: "i = j" and p: "\<exists>r. persist_record H u name r [] None [] (?se\<lparr>se_store := store\<rparr>) = Some (Inr se)"
    unfolding repo_create_branch_def hb run_bind_simps if_False oc prod.case os run_bind_Inr_iff b(3) by auto
  from p obtain r where r: "persist_record H u name r [] None [] (?se\<lparr>se_store := store\<rparr>) = Some (Inr se)" ..
  have "find_branch (se_store (?se\<lparr>se_store := store\<rparr>)) name = Some 1" using b(2,3) by (simp add: find_branch_def j)
  from persist_store [OF r this] have "se_store se = store" by simp
  with i j b that show thesis by simp
qed

lemma reopened_world_collides:
  assumes create: "repo_create_branch H u name w (new_session policy rp) = Some (Inr (i, se))"
    and old: "branch_index_find H other (rp_branches (se_repo se)) = Inr (Some e)" "bi_branch e = 1" "bi_name e = other" "other \<noteq> name"
    and world: "session_world H other se = Some (Inr (w', se'))"
  shows "w' = w"
proof -
  obtain b where b: "st_branches (se_store se) = [b]" "br_id (bs_branch b) = 1" "br_name (bs_branch b) = name" "bs_world b = w"
    by (rule reopened_create [OF create])
  have none: "find_branch (se_store se) other = None" using b(1,3) old(4) by (simp add: find_branch_def)
  from world obtain j se1 where req: "require_branch H other se = Some (Inr (j, se1))"
    unfolding session_world_def run_bind_Inr_iff by auto
  then have ens: "ensure_materialized H other se = Some (Inr se1)" and j: "find_branch (se_store se1) other = Some j"
    by (auto simp: require_branch_def run_bind_Inr_iff split: option.splits)
  from ens none obtain m where m: "engine_materialize_branch H (se_repo se) other = Some (Inr m)"
    unfolding ensure_materialized_def by (auto simp: run_bind_Inr_iff on_repo_iff)
  have om: "on_repo (engine_materialize_branch H (se_repo se) other) = Some (Inr m)" by (simp add: on_repo_iff m)
  from m old(1) have ref: "mw_ref m = ref_of_entry e"
    by (auto simp: engine_materialize_branch_def indexed_branch_def run_bind_Inr_iff lift_res_Inr_iff res_bind_Inr_iff split: option.splits)
  from ens none obtain k store where r: "restore_branch H (bf_branch (mw_ref m)) (bf_name (mw_ref m)) (mw_world m) (mw_history m) (mw_snapshots m)
      (se_store se) = Inr (k, store)" and se1: "se1 = se\<lparr>se_store := store\<rparr>"
    unfolding ensure_materialized_def om run_bind_simps by (auto simp: run_bind_Inr_iff on_store_iff)
  from r obtain b2 where b2: "st_branches store = st_branches (se_store se) @ [b2]" "br_id (bs_branch b2) = 1" "br_name (bs_branch b2) = other"
    using old(2,3) by (auto simp: restore_branch_def Let_def ref ref_of_entry_def split: if_splits prod.splits)
  with b j se1 old(4) have "j = 1" by (simp add: find_branch_def)
  have "branch_state_of (se_store se1) 1 = Inr b" using b b2 by (simp add: branch_state_of_def se1)
  then have "on_store (branch_state_of (se_store se1) j) = Some (Inr b)" using \<open>j = 1\<close> by (simp add: on_store_iff)
  with world b(4) show ?thesis unfolding session_world_def req run_bind_simps prod.case by simp
qed

end
