(* ===== verification/Demo_Storage.thy ===== *)
theory Demo_Storage
  imports Repo_Session Demo_Runtime
begin

text \<open>
  Concrete data for the storage: a digest that tells the streams below apart (their length and the first letter of
  their tag), the genesis commit of a branch with one object, a commit on top of it, and an empty repository.
\<close>

definition mark_digest :: digest where
  "mark_digest b = of_nat (length b) * 256 + ucast (hd (drop 8 b @ [0]))"

definition demo_shelf :: world_snapshot where
  "demo_shelf = demo_flat\<lparr>sn_objects := [demo_object\<lparr>os_attributes := [(''k'', UInt64Value 7)], os_incoming := 0, os_outgoing := 0\<rparr>]\<rparr>"

definition demo_genesis :: commit_record where
  "demo_genesis = make_genesis_record mark_digest 1 ''main'' demo_world demo_shelf 1 (canonical_hash mark_digest demo_shelf)"

definition demo_ref :: branch_ref where
  "demo_ref = \<lparr>bf_name = ''main'', bf_branch = 1, bf_head = cr_id demo_genesis, bf_snapshot = cr_after_hash demo_genesis, bf_epoch = 1\<rparr>"

definition demo_write :: commit_write where
  "demo_write = \<lparr>cw_branch = ''main'', cw_record = demo_genesis, cw_delta = [], cw_program = None, cw_morphism_path = [],
     cw_before = demo_shelf, cw_after = demo_shelf, cw_accepted_ref = Some demo_ref, cw_history = [cr_id demo_genesis]\<rparr>"

definition demo_repo :: repository where
  "demo_repo = \<lparr>rp_objects = empty_store, rp_refs = \<lparr>rf_files = [], rf_head = None\<rparr>, rp_wal = Some [], rp_commits = None,
     rp_branches = None, rp_world = \<lparr>ws_objects = None, ws_relations = None, ws_graph = None\<rparr>, rp_events = None, rp_history = []\<rparr>"

definition demo_op :: delta where
  "demo_op = [\<lparr>op_id = 1, op_body = InternType ''U'' 0\<rparr>]"

definition demo_next :: world_snapshot where
  "demo_next = projr (overlay_apply mark_digest demo_shelf demo_op)"

definition demo_child :: commit_record where
  "demo_child = (let r = blank_commit\<lparr>cr_parent := Some (cr_id demo_genesis), cr_parents := [cr_id demo_genesis], cr_branch_name := ''main'',
       cr_delta_hash := hash_delta mark_digest demo_op, cr_trace_hash := hash_trace_events mark_digest [],
       cr_law_hash := hash_law_statuses mark_digest [], cr_violation_hash := hash_law_violations mark_digest [],
       cr_morphism_path_hash := hash_morphism_path mark_digest [], cr_after_hash := canonical_hash mark_digest demo_next,
       cr_after_root := wr_root (compute_world_root mark_digest demo_next), cr_accepted := True\<rparr>
     in r\<lparr>cr_id := make_commit_id mark_digest r\<rparr>)"

definition demo_second_write :: commit_write where
  "demo_second_write = demo_write\<lparr>cw_record := demo_child, cw_delta := demo_op, cw_accepted_ref := None\<rparr>"

section \<open>The record of a write names its parts\<close>

lemma stored_of_record:
  assumes "cr_delta_hash (cw_record w) = H (encode_delta (cw_delta w))" "cr_trace_hash (cw_record w) = H (encode_trace_events (cr_events (cw_record w)))"
    "cr_law_hash (cw_record w) = H (encode_law_statuses (cr_law_statuses (cw_record w)))"
    "cr_violation_hash (cw_record w) = H (encode_law_violations (cr_violations (cw_record w)))"
    "cr_morphism_path_hash (cw_record w) = H (encode_morphism_path (cw_morphism_path w))" "cw_program w = None"
  shows "stored_of H w = make_stored_commit (cw_record w)"
  by (simp add: stored_of_def make_stored_commit_def assms [symmetric]) (simp add: assms(6))

lemma identity_without_id: "make_commit_id H (r\<lparr>cr_id := i\<rparr>) = make_commit_id H r"
  by (simp add: make_commit_id_def encode_commit_identity_def encode_commit_record_body_v4_def encode_commit_record_body_def
      encode_commit_head_def encode_commit_hashes_def encode_commit_tail_def encode_commit_roots_def encode_commit_objects_def)

lemma demo_genesis_fields:
  "cr_id demo_genesis = make_commit_id mark_digest demo_genesis" "cr_parents demo_genesis = []" "cr_parent demo_genesis = None"
  "cr_branch_name demo_genesis = ''main''" "cr_events demo_genesis = []" "cr_law_statuses demo_genesis = []" "cr_violations demo_genesis = []"
  "cr_accepted demo_genesis" "cr_origin demo_genesis = Internal" "cr_label demo_genesis = ''genesis''" "cr_proof demo_genesis = None"
  "cr_after_hash demo_genesis = canonical_hash mark_digest demo_shelf"
  "cr_after_root demo_genesis = wr_root (compute_world_root mark_digest demo_shelf)"
  "cr_checkpoint_snapshot_object demo_genesis = plan_root_object (chunked_plan_of mark_digest demo_shelf)"
  "cr_graph_page_roots demo_genesis = graph_page_roots (chunked_plan_of mark_digest demo_shelf)"
proof -
  show "cr_id demo_genesis = make_commit_id mark_digest demo_genesis"
    by (simp add: demo_genesis_def make_genesis_record_def Let_def identity_without_id)
qed (simp_all add: demo_genesis_def make_genesis_record_def Let_def blank_commit_def)

lemma demo_stored: "stored_of mark_digest demo_write = make_stored_commit demo_genesis"
  by (subst stored_of_record) (simp_all add: demo_write_def demo_genesis_def make_genesis_record_def Let_def blank_commit_def
      hash_delta_def hash_trace_events_def hash_law_statuses_def hash_law_violations_def hash_morphism_path_def)

lemma demo_child_fields:
  "cr_id demo_child = make_commit_id mark_digest demo_child" "cr_parents demo_child = [cr_id demo_genesis]" "cr_parent demo_child = Some (cr_id demo_genesis)"
  "cr_branch_name demo_child = ''main''" "cr_events demo_child = []" "cr_law_statuses demo_child = []" "cr_violations demo_child = []"
  "cr_accepted demo_child" "cr_origin demo_child = cr_origin blank_commit" "cr_label demo_child = []" "cr_proof demo_child = None"
  "cr_after_hash demo_child = canonical_hash mark_digest demo_next" "cr_after_root demo_child = wr_root (compute_world_root mark_digest demo_next)"
  "cr_checkpoint_snapshot_object demo_child = 0" "cr_graph_page_roots demo_child = []"
proof -
  show "cr_id demo_child = make_commit_id mark_digest demo_child"
    by (simp add: demo_child_def Let_def identity_without_id)
qed (simp_all add: demo_child_def Let_def blank_commit_def)

lemma demo_second_stored: "stored_of mark_digest demo_second_write = make_stored_commit demo_child"
  by (subst stored_of_record) (simp_all add: demo_second_write_def demo_write_def demo_child_def Let_def blank_commit_def
      hash_delta_def hash_trace_events_def hash_law_statuses_def hash_law_violations_def hash_morphism_path_def)

section \<open>The streams\<close>

abbreviation demo_plan_of :: chunked_plan where
  "demo_plan_of \<equiv> projr (build_chunked_snapshot_plan mark_digest demo_shelf default_snapshot_page_size)"

definition demo_streams :: "bytes list" where
  "demo_streams =
     [encode_delta [], encode_trace_events [], encode_law_statuses [], encode_law_violations [], encode_morphism_path [],
      encode_stored_commit (make_stored_commit demo_genesis), encode_stored_commit (make_stored_commit demo_child), encode_delta demo_op,
      encode_snapshot_root (plan_root demo_plan_of), encode_page_index [mark_digest (encode_object_page (sn_objects demo_shelf))],
      encode_page_index [], encode_symbol_table_object [(1, ''T'')], encode_symbol_table_object [(1, ''rel'')],
      encode_object_page (sn_objects demo_shelf)]"

lemma length_writers [simp]:
  "length (writer_u64 v) = 8" "length (writer_u8 b) = 1" "length (writer_count n) = 8" "length (writer_hash h) = 32" "length (writer_bool x) = 1"
  "length (writer_string t) = 8 + length t"
  by (simp_all add: writer_u64_def writer_u8_def writer_count_def writer_hash_def writer_bool_def writer_string_def)

definition mark :: "bytes \<Rightarrow> nat \<times> u8" where
  "mark b = (length b, hd (drop 8 b @ [0]))"

lemma mark_string: "tag \<noteq> [] \<Longrightarrow> mark (writer_string tag @ b) = (8 + length tag + length b, char_to_byte (hd tag))"
  by (cases tag) (simp_all add: mark_def writer_string_def writer_count_def writer_u64_def)

lemma tag_bytes:
  "char_to_byte (CHR ''D'') = 68" "char_to_byte (CHR ''T'') = 84" "char_to_byte (CHR ''L'') = 76" "char_to_byte (CHR ''M'') = 77"
  "char_to_byte (CHR ''S'') = 83" "char_to_byte (CHR ''O'') = 79"
  by code_simp+

lemma mark_identity:
  "mark (encode_commit_identity r) =
     (23 + length (encode_commit_record_body_v4 r @ encode_commit_objects r), 83)"
  by (simp only: encode_commit_identity_def) (subst mark_string; simp add: tag_bytes)

lemmas length_defs = encode_commit_record_body_v4_def encode_commit_record_body_def encode_commit_objects_def encode_commit_head_def
  encode_commit_hashes_def encode_commit_tail_def encode_commit_roots_def encode_optional_commit_id_def encode_optional_proof_def wlist_def

lemma demo_roots_length: "length (cr_graph_page_roots demo_genesis) = 6"
  by (simp add: demo_genesis_fields graph_page_roots_def chunked_plan_of_def build_chunked_snapshot_plan_def Let_def snapshot_page_size_def
     demo_shelf_def demo_flat_def demo_snapshot_def build_pages.simps)

lemma sum_hashes: "sum_list (map (length \<circ> writer_hash) hs) = 32 * length hs"
  by (induction hs) simp_all

lemma demo_commit_marks:
  "mark (encode_stored_commit (make_stored_commit demo_genesis)) = (1110, 83)"
  "mark (encode_stored_commit (make_stored_commit demo_child)) = (975, 83)"
  unfolding encode_make_stored_commit mark_identity
  by (simp_all add: length_defs length_concat demo_genesis_fields demo_child_fields demo_roots_length [simplified demo_genesis_fields] sum_hashes)

lemma demo_plan_256: "build_chunked_snapshot_plan mark_digest demo_shelf default_snapshot_page_size = Inr demo_plan_of"
  "chunked_plan_of mark_digest demo_shelf = demo_plan_of"
  by (simp_all add: build_chunked_snapshot_plan_def Let_def default_snapshot_page_size_def chunked_plan_of_def snapshot_page_size_def)

lemma demo_plan_streams:
  "plan_streams demo_plan_of = set [encode_snapshot_root (plan_root demo_plan_of),
     encode_page_index [mark_digest (encode_object_page (sn_objects demo_shelf))], encode_page_index [],
     encode_symbol_table_object [(1, ''T'')], encode_symbol_table_object [(1, ''rel'')], encode_object_page (sn_objects demo_shelf)]"
  by (simp add: plan_streams_def build_chunked_snapshot_plan_def Let_def default_snapshot_page_size_def demo_shelf_def demo_flat_def
      demo_snapshot_def build_pages.simps insert_commute)

lemma demo_root_mark: "mark (encode_snapshot_root (plan_root demo_plan_of)) = (214, 83)"
  by (simp add: encode_snapshot_root_def mark_string tag_bytes)
    (simp add: build_chunked_snapshot_plan_def Let_def default_snapshot_page_size_def demo_shelf_def demo_flat_def demo_snapshot_def)

lemma mark_digest_of: "mark_digest b = of_nat (fst (mark b)) * 256 + ucast (snd (mark b))"
  by (simp add: mark_digest_def mark_def)

lemma demo_root_object: "plan_root_object demo_plan_of = 54867"
proof -
  have "plan_root_object demo_plan_of = mark_digest (encode_snapshot_root (plan_root demo_plan_of))"
    by (simp add: build_chunked_snapshot_plan_def Let_def default_snapshot_page_size_def)
  then show ?thesis by (simp add: mark_digest_of demo_root_mark)
qed

lemma demo_checkpoint: "cr_checkpoint_snapshot_object demo_genesis \<noteq> 0"
  by (simp only: demo_genesis_fields(14) demo_plan_256(2) demo_root_object) simp

lemma demo_marks:
  "map mark demo_streams = [(24, 68), (30, 84), (30, 76), (32, 76), (31, 77), (1110, 83), (975, 83), (46, 68), (214, 83), (74, 83), (42, 83),
     (49, 83), (51, 83), (93, 79)]"
proof -
  note demo_root_mark
  moreover have "mark (encode_page_index [h]) = (74, 83)" for h
    by (simp add: encode_page_index_def wlist_def mark_string tag_bytes)
  moreover have "map mark [encode_page_index [], encode_symbol_table_object [(1, ''T'')], encode_symbol_table_object [(1, ''rel'')],
      encode_object_page (sn_objects demo_shelf)] = [(42, 83), (49, 83), (51, 83), (93, 79)]"
    by code_simp
  moreover have "map mark [encode_delta [], encode_trace_events [], encode_law_statuses [], encode_law_violations [], encode_morphism_path [],
      encode_delta demo_op] = [(24, 68), (30, 84), (30, 76), (32, 76), (31, 77), (46, 68)]"
    by code_simp
  ultimately show ?thesis by (simp add: demo_streams_def demo_commit_marks)
qed

lemma split_mark: "(x::nat) * 256 + p = y * 256 + q \<Longrightarrow> p < 256 \<Longrightarrow> q < 256 \<Longrightarrow> x = y \<and> p = q"
  using div_mult_self3 [of 256 x p] div_mult_self3 [of 256 y q] mod_mult_self3 [of x 256 p] mod_mult_self3 [of y 256 q] by simp

lemma mark_inj:
  assumes "distinct (map mark xs)" "list_all (\<lambda>b. length b < 2000) xs"
  shows "inj_on mark_digest (set xs)"
proof (rule inj_onI)
  fix a b
  assume ab: "a \<in> set xs" "b \<in> set xs" "mark_digest a = mark_digest b"
  have less: "unat (hd (drop 8 x @ [0]) :: u8) < 256" for x
    by (rule order_less_le_trans [OF unsigned_less]) simp
  have code: "unat (mark_digest x) = length x * 256 + unat (hd (drop 8 x @ [0]))" if "length x < 2000" for x
    unfolding mark_digest_def using that less [of x]
    by (simp add: unat_word_ariths unat_of_nat unsigned_ucast_eq take_bit_nat_eq_self del: hd_append)
  from ab assms(2) have "length a * 256 + unat (hd (drop 8 a @ [0])) = length b * 256 + unat (hd (drop 8 b @ [0]))"
    unfolding list_all_iff by (metis code)
  note split = split_mark [OF this less less]
  from split have "mark a = mark b" by (simp add: mark_def word_unat_eq_iff)
  with assms(1) ab show "a = b" by (simp add: distinct_map inj_on_def)
qed

lemma demo_streams_inj: "inj_on mark_digest (set demo_streams)"
proof (rule mark_inj)
  show "distinct (map mark demo_streams)" by (simp only: demo_marks) simp
  have "map length demo_streams = map fst (map mark demo_streams)" by (simp add: mark_def)
  then have "list_all (\<lambda>n. n < 2000) (map length demo_streams)" by (simp only: demo_marks) simp
  then show "list_all (\<lambda>b. length b < 2000) demo_streams" by (simp add: list_all_iff)
qed

section \<open>The writes are consistent\<close>

lemma demo_shelf_ok: "plan_ok demo_shelf"
  by (simp add: plan_ok_def demo_shelf_def demo_flat_def demo_snapshot_def demo_object_def demo_ok_defs)

lemma demo_shelf_attributes: "norm_attributes [(''k'', UInt64Value 7)] = [(''k'', UInt64Value 7)]"
  by code_simp

lemma demo_shelf_paged: "paged_snapshot default_snapshot_page_size demo_shelf = demo_shelf"
  by (simp add: paged_snapshot_def default_snapshot_page_size_def demo_shelf_def demo_flat_def demo_snapshot_def build_pages.simps
      sort_objects_def norm_object_def demo_object_def demo_shelf_attributes)

lemma demo_record_ok: "commit_ok demo_genesis" "commit_ok demo_child"
  by (simp_all add: commit_ok_def demo_genesis_fields demo_child_fields demo_roots_length [simplified demo_genesis_fields] size_ok_def
      blank_commit_def)

lemma demo_write_fields [simp]:
  "cw_branch demo_write = ''main''" "cw_record demo_write = demo_genesis" "cw_delta demo_write = []" "cw_program demo_write = None"
  "cw_morphism_path demo_write = []" "cw_after demo_write = demo_shelf" "cw_accepted_ref demo_write = Some demo_ref"
  "cw_history demo_write = [cr_id demo_genesis]"
  "cw_branch demo_second_write = ''main''" "cw_record demo_second_write = demo_child" "cw_delta demo_second_write = demo_op"
  "cw_program demo_second_write = None" "cw_morphism_path demo_second_write = []" "cw_after demo_second_write = demo_shelf"
  "cw_accepted_ref demo_second_write = None" "cw_history demo_second_write = [cr_id demo_genesis]"
  by (simp_all add: demo_write_def demo_second_write_def)

lemma demo_parts: "part_streams mark_digest demo_write \<subseteq> set demo_streams" "part_streams mark_digest demo_second_write \<subseteq> set demo_streams"
  by (simp_all add: part_streams_def demo_stored demo_second_stored demo_genesis_fields demo_child_fields demo_streams_def)

lemma demo_plan_part: "plan_streams demo_plan_of \<subseteq> set demo_streams"
  unfolding demo_plan_streams by (simp add: demo_streams_def)

lemma demo_consistent: "write_consistent mark_digest (set demo_streams) demo_write"
proof -
  have "mark_digest (encode_stored_commit (stored_of mark_digest demo_write)) = cr_id demo_genesis"
    unfolding demo_stored encode_make_stored_commit using demo_genesis_fields(1) by (simp add: make_commit_id_def)
  then show ?thesis
    using demo_parts(1) demo_plan_part demo_plan_256(1) demo_plan_256(2)
    by (auto simp: write_consistent_def demo_genesis_fields(14) intro!: exI [of _ demo_plan_of])
qed

lemma demo_second_consistent: "write_consistent mark_digest (set demo_streams) demo_second_write"
proof -
  have "mark_digest (encode_stored_commit (stored_of mark_digest demo_second_write)) = cr_id demo_child"
    unfolding demo_second_stored encode_make_stored_commit using demo_child_fields(1) by (simp add: make_commit_id_def)
  then show ?thesis using demo_parts(2) by (simp add: write_consistent_def demo_child_fields)
qed

lemma demo_verified: "verify_snapshot mark_digest i demo_genesis demo_shelf = Inr ()"
  by (simp add: verify_snapshot_def demo_genesis_fields)

lemma demo_op_ok: "delta_ok demo_op"
  by (simp add: delta_ok_def demo_op_def demo_ok_defs)

lemma demo_next_applies: "apply_delta_to_snapshot mark_digest demo_shelf (map norm_operation demo_op) = Inr demo_next"
proof -
  have "map norm_operation demo_op = demo_op" by code_simp
  moreover have "\<not> isl (overlay_apply mark_digest demo_shelf demo_op)"
    unfolding overlay_apply_def isl_res_bind by (simp only: sum.disc) code_simp
  ultimately show ?thesis by (simp add: apply_delta_to_snapshot_def demo_next_def not_isl_projr)
qed

lemma demo_next_verified: "verify_snapshot mark_digest i demo_child demo_next = Inr ()"
  by (simp add: verify_snapshot_def demo_child_fields)

lemma demo_empty: "content_ok mark_digest (set demo_streams) (rp_objects demo_repo)" "logged mark_digest [] demo_repo"
  using empty_content_ok [OF demo_streams_inj] by (simp_all add: demo_repo_def logged_def wal_numbered_def wal_text_def)

text \<open>Indexes that do not exist yet take every commit.\<close>

definition no_indexes :: "repository \<Rightarrow> bool" where
  "no_indexes rp \<longleftrightarrow> rp_commits rp = None \<and> rp_branches rp = None \<and> rp_events rp = None
     \<and> rp_world rp = \<lparr>ws_objects = None, ws_relations = None, ws_graph = None\<rparr>"

lemma no_indexes_write:
  assumes "no_indexes rp"
  obtains rp' where "write_indexes H u w c rp = Inr rp'" "rp_refs rp' = rp_refs rp" "rp_history rp' = rp_history rp" "rp_wal rp' = rp_wal rp"
    "rp_branches rp' = None" "ws_objects (rp_world rp') = None"
proof -
  obtain ev where ev: "event_index_commit H (cw_branch w) (cw_record w) (cw_after w) None = Inr ev"
    by (cases "index_record (cw_branch w) (cw_record w) (cw_after w) ([], [])")
      (auto simp: event_index_commit_def event_name_entries_def touch_entries_def event_tables_def)
  have "\<exists>rp'. write_indexes H u w c rp = Inr rp' \<and> ws_objects (rp_world rp') = None"
    using assms ev by (simp add: no_indexes_def write_indexes_def Let_def commit_index_upsert_def index_upsert_def keyed_entries_def
        index_commit_graph_def)
  then obtain rp' where w: "write_indexes H u w c rp = Inr rp'" "ws_objects (rp_world rp') = None" by blast
  note fields = write_indexes_fields [OF w(1)]
  show thesis by (rule that [OF w(1) fields(3,4,2) _ w(2)]) (use fields(5) assms in \<open>simp add: no_indexes_def\<close>)
qed

lemma demo_branch_name: "valid_branch_name ''main''"
  by code_simp

lemma demo_accepts:
  assumes "no_indexes rp" "logged H ops rp" "rf_files (rp_refs rp) = []" "rp_history rp = []"
  shows "indexes_accept H u demo_write rp" "indexes_accept H u demo_second_write rp"
proof -
  have mirror: "\<not> isl (write_history_mirror ''main'' h [])" for h
    by (simp add: write_history_mirror_def demo_branch_name below_file_def is_directory_def)
  have ref: "\<not> isl (update_ref demo_ref (rp_refs rp))"
    using assms(3) by (simp add: update_ref_def Let_def demo_ref_def demo_branch_name below_file_def is_directory_def)
  obtain a where a: "write_indexes H u demo_write (stored_of H demo_write) rp = Inr a" "rp_refs a = rp_refs rp" "rp_history a = rp_history rp"
    "rp_wal a = rp_wal rp" "rp_branches a = None" "ws_objects (rp_world a) = None"
    by (rule no_indexes_write [OF assms(1)])
  obtain refs where refs: "update_ref demo_ref (rp_refs a) = Inr refs" using ref a(2) by (cases "update_ref demo_ref (rp_refs rp)") auto
  obtain b where b: "write_ref H demo_write a = Inr b" "rp_history b = []"
  proof -
    obtain branches where br: "branch_index_upsert H e (rp_branches a) = Inr (branches e)" for e
      using a(5) that [of "\<lambda>e. projr (branch_index_upsert H e None)"]
      by (simp add: branch_index_upsert_def index_upsert_def keyed_entries_def)
    obtain world where wo: "update_branch_index H n s x (rp_world a) = Inr (world n s x)" for n s x
      using that [of "\<lambda>n s x. projr (update_branch_index H n s x (rp_world a))"] a(6)
      by (simp add: update_branch_index_def world_entries_def keyed_entries_def)
    have "logged H ops (a\<lparr>rp_refs := refs, rp_branches := branches e, rp_world := v\<rparr>)" for e v
      using assms(2) a(4) by (simp add: logged_def)
    note log_op_logged(1) [OF this]
    then show thesis
      by (intro that) (auto simp: write_ref_def refs br wo a(3) assms(4))
  qed
  show "indexes_accept H u demo_write rp"
    using mirror [of "[cr_id demo_genesis]"] by (auto simp: indexes_accept_def a(1) b lift_res_def split: sum.splits)
  obtain a' where a': "write_indexes H u demo_second_write (stored_of H demo_second_write) rp = Inr a'" "rp_history a' = rp_history rp"
    "rp_branches a' = None"
    by (rule no_indexes_write [OF assms(1)])
  have "write_ref H demo_second_write a' = Inr a'"
    by (simp add: write_ref_def branch_index_find_def index_find_def a'(3) keyed_entries_def entry_find_def)
  then show "indexes_accept H u demo_second_write rp"
    using mirror [of "[cr_id demo_genesis]"] assms(4) by (auto simp: indexes_accept_def a'(1,2) lift_res_def split: sum.splits)
qed

section \<open>What the first write leaves\<close>

lemma demo_no_indexes: "no_indexes demo_repo" "rf_files (rp_refs demo_repo) = []" "rp_history demo_repo = []"
  by (simp_all add: no_indexes_def demo_repo_def)

lemmas demo_first_accepts = demo_accepts(1) [OF demo_no_indexes(1) demo_empty(2) demo_no_indexes(2,3)]

text \<open>A store that holds the genesis commit, and a repository over it whose indexes and references are lost.\<close>

lemma demo_first_store:
  obtains s where "stores mark_digest (set demo_streams) empty_store
      (part_streams mark_digest demo_write \<union> checkpoint_streams mark_digest demo_write) s"
    "content_ok mark_digest (set demo_streams) s" "stored_at mark_digest s (cr_id demo_genesis) = Inr (norm_stored_commit (stored_of mark_digest demo_write))"
    "pages_listed mark_digest s (norm_stored_commit (stored_of mark_digest demo_write))"
    "materialize_accepted_chain_to mark_digest s (cr_id demo_genesis) = Some (Inr [(cr_id demo_genesis, demo_shelf)])"
proof -
  note empty = demo_empty(1)
  from write_commit_ok [OF demo_empty demo_consistent demo_first_accepts [of 0]] obtain rp' :: repository where
    st: "stores mark_digest (set demo_streams) (rp_objects demo_repo)
      (part_streams mark_digest demo_write \<union> checkpoint_streams mark_digest demo_write) (rp_objects rp')" .
  note root = demo_checkpoint
  have paged: "verify_snapshot mark_digest (cr_id demo_genesis) demo_genesis (paged_snapshot default_snapshot_page_size demo_shelf) = Inr ()"
    by (simp only: demo_shelf_paged demo_verified)
  from written_checkpoint_materializes [OF empty st demo_consistent, unfolded demo_write_fields,
      OF demo_record_ok(1) demo_shelf_ok demo_genesis_fields(8) root _ paged]
  have "materialize_accepted_chain_to mark_digest (rp_objects rp') (cr_id demo_genesis) = Some (Inr [(cr_id demo_genesis, demo_shelf)])"
    by (simp add: demo_genesis_fields(2) demo_shelf_paged)
  moreover have streams: "checkpoint_streams mark_digest demo_write = plan_streams demo_plan_of"
    by (cases "build_chunked_snapshot_plan mark_digest demo_shelf default_snapshot_page_size")
      (use root demo_plan_256(1) in \<open>simp_all add: checkpoint_streams_def\<close>)
  moreover have held: "held mark_digest (rp_objects rp') (encode_stored_commit (stored_of mark_digest demo_write))"
    "\<forall>b \<in> plan_streams demo_plan_of. held mark_digest (rp_objects rp') b"
    using st unfolding streams by (simp_all add: stores_def part_streams_def)
  moreover have "stored_at mark_digest (rp_objects rp') (cr_id demo_genesis) = Inr (norm_stored_commit (stored_of mark_digest demo_write))"
    using stored_at_written [OF held(1)] demo_record_ok(1) demo_consistent by (simp add: stored_of_fields write_consistent_def)
  moreover have "pages_listed mark_digest (rp_objects rp') (norm_stored_commit (stored_of mark_digest demo_write))"
    by (rule written_pages_listed [OF demo_plan_256(1) demo_shelf_ok held(2)])
      (simp_all add: stored_of_fields demo_genesis_fields(14,15) demo_plan_256(2) norm_commit_def)
  ultimately show thesis
    using st by (intro that [of "rp_objects rp'"]) (simp_all add: demo_repo_def stores_def)
qed

definition demo_table :: index_file where
  "demo_table = branch_index_write mark_digest [make_branch_entry demo_ref [cr_id demo_genesis]] None"

lemma demo_table: "branch_index_entries mark_digest demo_table = Inr [make_branch_entry demo_ref [cr_id demo_genesis]]"
proof -
  let ?e = "make_branch_entry demo_ref [cr_id demo_genesis]"
  have "branch_entry_ok ?e" by (simp add: branch_entry_ok_def make_branch_entry_def demo_ref_def size_ok_def)
  moreover have "branches.total [?e] < 2 ^ 64"
    by (simp add: branches.total_def write_branch_entry_def make_branch_entry_def demo_ref_def index_string_def index_hashes_def
        index_u64_def index_hash_def)
  ultimately show ?thesis
    using branches.entries_file [of "[?e]" mark_digest]
    by (simp add: demo_table_def branch_index_write_def index_write_def index_write_payload_def index_table_def branch_index_entries_def)
qed

text \<open>The collector runs on it.\<close>

lemma mark_not_zero: "b \<in> set demo_streams \<Longrightarrow> mark_digest b \<noteq> 0"
proof -
  assume "b \<in> set demo_streams"
  then have "mark b \<in> set (map mark demo_streams)" by simp
  then show "mark_digest b \<noteq> 0" unfolding mark_digest_of by (simp only: demo_marks) auto
qed

lemma demo_collected:
  assumes "content_ok mark_digest (set demo_streams) s"
    and "stored_at mark_digest s (cr_id demo_genesis) = Inr (norm_stored_commit (stored_of mark_digest demo_write))"
  obtains report g' where "quarantine_unreachable mark_digest demo_table \<lparr>gs_objects = s, gs_quarantine = []\<rparr> = Inr (report, g')"
    "om_inv (cs_loose s)" "om_find (cs_loose s) 0 = None"
proof -
  obtain c where "get_canonical mark_digest decode_stored_commit s (cr_id demo_genesis) = Inr c"
    using assms(2) by (auto simp: stored_at_def mat_get_def split: sum.splits)
  then obtain marked where m: "reachable_objects mark_digest demo_table s = Inr marked"
    by (auto simp: reachable_objects_def demo_table mark_branch_def mark_commit_def make_branch_entry_def)
  obtain report g' where run: "fold (quarantine_object marked) (loose_objects s)
      (projr (gc_mark mark_digest demo_table s), \<lparr>gs_objects = s, gs_quarantine = []\<rparr>) = (report, g')" by force
  have "om_inv (cs_loose s)" "list_all (named mark_digest) (cs_loose s)" "snd ` set (cs_loose s) \<subseteq> set demo_streams"
    using assms(1) by (auto simp: content_ok_def store_holds_def)
  moreover from this have "om_find (cs_loose s) 0 = None"
    using mark_not_zero by (force simp: om_find_None_iff named_def list_all_iff)
  ultimately show thesis
    using run m by (intro that) (auto simp: quarantine_unreachable_def gc_mark_def)
qed

end
