(* ===== verification/Spec2Isabelle.thy ===== *)
theory Spec2Isabelle
  imports Demo_Layers Demo_Storage
begin

text \<open>
  Pointerverse: the kernel of worlds, deltas and commits, and the runtime of branches above it.

  A world holds objects in an arena, pointers between them, two registries of symbols and an index; it
  changes by deltas, lists of operations with identifiers.  \<open>SnapshotOverlay::apply\<close> tries a delta on
  a snapshot, \<open>World::apply_delta_unchecked\<close> applies it to the live world.  A transaction wraps a delta
  with its expectations and perhaps the program that built it: it is prepared on a snapshot (program,
  overlay, laws, preview) and then committed or rejected.  The store keeps branches with their worlds and
  histories, the snapshots and the graph of commits; everything that is stored or hashed goes through one
  canonical codec, and Merkle roots and proofs are computed from it.

  Theories and the code they model, in the order of their imports:
    \<open>Prelude\<close>, \<open>Omap\<close>, \<open>Big_Endian\<close>: sums, folds that stop at an error, stable sorting, updates of the first
      match, ordered maps as sorted association lists, bytes of words; the locales of codecs are in \<open>Codec_Base\<close>.
    \<open>Values\<close>, \<open>Model_Types\<close>, \<open>Floats\<close>: identifiers, values and the structs of \<open>core\<close>, \<open>law\<close>, \<open>kernel\<close>,
      \<open>runtime\<close>; the arithmetic of doubles on their bit patterns.
    \<open>Codec_Base\<close> to \<open>Codec_Commit\<close>: \<open>kernel/canonical_codec.cpp\<close>, \<open>storage/object_codec.cpp\<close>,
      \<open>core/snapshot_page.cpp\<close>.  \<open>Hashing\<close>, \<open>Merkle\<close>: \<open>hash\<close>, \<open>kernel/merkle.cpp\<close>.
    \<open>Facts\<close>, \<open>Delta_Ops\<close>, \<open>Registry\<close>, \<open>World_Index\<close>: \<open>core/fact.cpp\<close>, \<open>core/operation.cpp\<close>, \<open>core/type.cpp\<close>,
      \<open>core/relation.cpp\<close>, \<open>core/world_index.cpp\<close>.
    \<open>Overlay\<close>, \<open>Overlay_Inv\<close>, \<open>Merge_Sequential\<close>: \<open>core/snapshot.cpp\<close>, its invariant, and the merge of two deltas.
    \<open>World\<close>, \<open>World_Inv\<close>, \<open>World_Restore\<close>: \<open>core/world.cpp\<close>, \<open>core/object.cpp\<close>, the invariant of the live
      world, and restoring it.  \<open>Simulation\<close>, \<open>Progress\<close>: the overlay refines the live world, step by step.
    \<open>Execution_Plan\<close>, \<open>Plan_Cover\<close>: \<open>kernel/execution_plan.cpp\<close>, \<open>kernel/executor.cpp\<close>, and what read and
      write sets cover.  \<open>Verifier\<close>: \<open>law/verifier.cpp\<close>, \<open>law/invariant.cpp\<close>.
    \<open>Vm\<close>, \<open>Vm_Sound\<close>: \<open>kernel/vm.cpp\<close>, \<open>kernel/instruction.cpp\<close>; the frame of the machine agrees with the overlay.
    \<open>Transactions\<close>: \<open>runtime/transaction.cpp\<close>.  \<open>Commit_Graph\<close>: \<open>runtime/commit_graph.cpp\<close>.
    \<open>World_Store\<close>, \<open>World_Store_Inv\<close>: \<open>runtime/world_store.cpp\<close>, \<open>runtime/snapshot_store.cpp\<close>, and the invariant of stores.
    \<open>Merge_Analysis\<close>, \<open>Merge_Props\<close>: \<open>runtime/merge.cpp\<close>, the analysis of a merge of two branches.
    \<open>Text_Lines\<close>, \<open>Rules\<close>, \<open>Rules_Props\<close>, \<open>Rules_Text\<close>: \<open>rule/rule.cpp\<close>, \<open>rule/pattern.cpp\<close>,
      \<open>rule/rule_engine.cpp\<close>; what the law of a rule reports, and the text of rules.
    \<open>Derivation\<close>, \<open>Derivation_Model\<close>: \<open>rule/derivation.cpp\<close> and the least model it computes.
    \<open>Program_Builder\<close>, \<open>Compile_Tables\<close>, \<open>Compile_Correct\<close>, \<open>Compile_Commands\<close>, \<open>Compile_Effect\<close>:
      \<open>compiler/program_builder.cpp\<close>, \<open>compiler/script_compiler.cpp\<close>; the symbol tables the builder makes, the
      instructions it emits, and what the machine does with them.
    \<open>Text_Stream\<close>, \<open>Wal\<close>: extraction from a stream of text, and \<open>storage/wal.cpp\<close>, the log.
    \<open>Content_Store\<close>, \<open>Chunked_Store\<close>: \<open>storage/content_store.cpp\<close>, \<open>storage/pack_store.cpp\<close>,
      \<open>storage/chunked_snapshot_store.cpp\<close>; objects under their hash, loose or packed, and snapshots in pages.
    \<open>Index_Store\<close>, \<open>Commit_Index\<close>, \<open>Event_Index\<close>, \<open>Graph_Index\<close>: \<open>storage/index_store.cpp\<close>,
      \<open>storage/commit_index.cpp\<close>, \<open>storage/event_index.cpp\<close>, \<open>storage/world_index_store.cpp\<close>.
    \<open>Ref_Store\<close>: \<open>storage/ref_store.cpp\<close>, the references of branches.
    \<open>Materializer\<close>, \<open>Materializer_Keeps\<close>: \<open>storage/snapshot_materializer.cpp\<close>, and which objects it reads.
    \<open>Repo_Write\<close>: \<open>storage/repository_transaction.cpp\<close>.  \<open>Repo_Gc\<close>: \<open>storage/repository_gc.cpp\<close>.
    \<open>Repo_Engine\<close>, \<open>Repo_Clean\<close>: \<open>storage/repository_engine.cpp\<close>, \<open>storage/recovery.cpp\<close>, and when the
      indexes of a repository are in order.  \<open>Repo_Session\<close>: \<open>storage/repository.cpp\<close>, a store of worlds over a repository.
    \<open>Demo\<close>, \<open>Demo_Runtime\<close>, \<open>Demo_Layers\<close>, \<open>Demo_Storage\<close>: concrete data for the witnesses.

  Conventions.  Machine integers are words; identifiers with one field are the word.  A struct is a record, a
  variant a datatype, an enumeration of eight bits has one more constructor for bytes that name no case.
  Ordered maps are sorted association lists.  An error value or an exception is the \<open>Inl\<close> of a sum; the state
  that an exception leaves half changed is not modelled.  SHA-256 (OpenSSL) is the parameter \<open>H\<close> of every
  definition that hashes, and collision freedom is a hypothesis on the streams a theorem names; the formats
  of doubles (\<open>{:.12g}\<close>, \<open>{:.17g}\<close> of fmt) are the parameters \<open>fmt12\<close> and \<open>fmt17\<close>.  Loops over lists are
  structural; the walk of the commit graph, which has no bound, is a partial function whose value \<open>None\<close>
  is a walk that does not end.  The rounds of a derivation are the source's own bound, \<open>derive_cap\<close>; no other
  fuel is used.  \<open>std::stod\<close> is a parameter, and so is the order in which C++ evaluates two arguments of a call.
  A file is its bytes or its text, absent files are \<open>None\<close>, a directory is a map from paths to files; the walks along
  the parents of stored commits are partial functions like the walk of the graph, and what calls them is a sum in an
  option (\<open>run\<close>).  The value of \<open>std::llround\<close> outside its range is the parameter \<open>unspecified\<close>.

  What is shown.  C1 to C4: the overlay previews the live world, both keep their invariants, snapshots
  restore.  C5 to C9: the codec is a normal form with exact round trips, and hashes, roots and plans stand for
  what they hash.  C10: the index.  C11: execution plans.  C12, C13: the verifier and its laws.  C14, C15: the
  virtual machine.  C16 to C19: transactions.  C20, C21: the commit graph.  C22 to C24: the store of worlds.
  C25: merging deltas.  C26: derivations.  C27: merging branches.  C28, C29: rules.  C30: compiled commands.
  C31 to C40: storage.  The log survives a crash, compaction is invisible, snapshots, references and indexes come
  back as they were put, a written commit materialises to its snapshot whether it was stored as a checkpoint or as
  a delta, the collector keeps what branches need, and the check of the indexes says exactly when they are in
  order.  Further theorems without a number stand beside them, among them that history is only appended to, that
  the order of values is total, and that a fork merges back cleanly.

  Bounds.  Identifiers are words that wrap in the code; \<open>ids_room\<close>, \<open>delta_room\<close> and \<open>store_room\<close> say that the
  next ones exist.  The reachable stores of C22 to C27 are built by creating, forking and committing under one
  policy: \<open>restore_branch\<close> and \<open>set_checkpoint_policy\<close> are modelled but trust their arguments.

  Not modelled.  The evolution loop of \<open>World\<close> (weights computed with transcendental functions), \<open>mutable_world\<close>,
  failures of the file system and what is on disk after an exception, locks, the JSON manifest and the replay of JSON
  traces, the integrity report, the staging directory, the readers of external files, the layers above the runtime
  (measures, interventions, breakpoints, queries, guards) and the command line.
\<close>

section \<open>Snapshots and worlds\<close>

text \<open>
  C1.  The overlay is a sound preview of the live world.  When \<open>SnapshotOverlay::apply\<close> accepts a delta on
  the snapshot of a consistent world, \<open>World::apply_delta_unchecked\<close> throws on none of its operations, and
  the world it leaves has the canonical hash, the Merkle root, the objects and the pointers that the
  overlay predicted.  The delta lists no attribute key twice in a create, names its objects, asserts no
  fact, and names no known symbol under a second identifier; identifiers have room.
\<close>

theorem overlay_previews_world:
  assumes "world_ok w" and "snapshot_wf (world_snapshot_of H w)" and "delta_room w d"
    and "list_all operation_clean d" and "list_all (operation_portable s) d"
    and "overlay_apply H (world_snapshot_of H w) d = Inr s"
  shows "\<exists>events w'. apply_delta_unchecked H d w = Inr (events, w')
    \<and> world_canonical_hash H w' = canonical_hash H s
    \<and> compute_world_root H (world_snapshot_of H w') = compute_world_root H s
    \<and> sn_objects (world_snapshot_of H w') = sn_objects s
    \<and> sn_pointers (world_snapshot_of H w') = sn_pointers s \<and> w_epoch w' = sn_epoch s"
proof -
  obtain events w' where ap: "apply_delta_unchecked H d w = Inr (events, w')"
    using overlay_accept_apply [OF assms(1,2,3,4,6,5)] by blast
  have agr: "agree s (world_snapshot_of H w')"
    by (rule overlay_predicts_world_aux [OF assms(1,3,4,6) ap])
  show ?thesis
    using ap agree_hash [OF agr, of H] agree_root [OF agr, of H] agr
    by (auto simp: agree_def world_canonical_hash_def snapshot_of_fields)
qed

theorem overlay_previews_world_witness:
  "\<exists>events w'. apply_delta_unchecked demo_digest demo_delta demo_world = Inr (events, w')
    \<and> world_canonical_hash demo_digest w'
        = canonical_hash demo_digest (projr (overlay_apply demo_digest (world_snapshot_of demo_digest demo_world) demo_delta))"
  using overlay_previews_world [OF demo_world_ok demo_base_wf demo_room demo_clean demo_portable
      not_isl_projr [OF demo_overlay_accepts]] by blast



text \<open>
  C3.  The overlay keeps snapshots well formed: accepted on a well-formed snapshot with room for the
  identifiers, a delta gives a well-formed snapshot of the same world one epoch later, with the counts
  and the facts recomputed.
\<close>

theorem overlay_keeps_snapshots:
  assumes "snapshot_wf base" and "ids_room base (length d)" and "overlay_apply H base d = Inr s"
  shows "snapshot_wf s \<and> sn_world s = sn_world base \<and> sn_world_name s = sn_world_name base
    \<and> sn_epoch s = sn_epoch base + 1 \<and> sn_facts s = derive_facts H s"
  using overlay_apply_wf [OF assms] overlay_apply_frame [OF assms(3)] overlay_apply_facts [OF assms(3)] by simp_all

theorem overlay_keeps_snapshots_witness:
  "snapshot_wf (projr (overlay_apply demo_digest demo_snapshot [\<lparr>op_id = 1, op_body = InternType ''U'' 0\<rparr>]))"
  using overlay_keeps_snapshots [OF demo_snapshot_wf _ not_isl_projr [OF demo_intern_accepts]]
  by (simp add: demo_snapshot_room)

text \<open>
  History is append-only: an accepted delta keeps every object (its identifier and name), every
  pointer (its identifier, ends, relation, role and birth) and every symbol of the base snapshot, in
  their order, and only adds entries after them.
\<close>

theorem overlay_appends:
  assumes "overlay_apply H base d = Inr s"
  shows "extends base s"
  by (rule overlay_apply_extends [OF assms])

theorem overlay_appends_witness:
  "extends demo_snapshot (projr (overlay_apply demo_digest demo_snapshot [\<lparr>op_id = 1, op_body = InternType ''U'' 0\<rparr>]))"
  by (rule overlay_appends [OF not_isl_projr [OF demo_intern_accepts]])

text \<open>
  C4.  Taking a snapshot of a consistent world and restoring it gives the world back, up to its trace:
  registries with their gaps, the arena, the table of names, the attribute tables, the pointers, the next
  identifiers and the index.
\<close>

theorem restore_snapshot:
  assumes "world_ok w" and "w_name w \<noteq> []"
  shows "from_snapshot H (world_snapshot_of H w) = rebuild_index H (w\<lparr>w_trace := []\<rparr>)"
  by (rule from_snapshot_world [OF assms])

theorem restore_snapshot_witness:
  "from_snapshot demo_digest (world_snapshot_of demo_digest demo_world)
     = rebuild_index demo_digest (demo_world\<lparr>w_trace := []\<rparr>)"
  by (rule restore_snapshot [OF demo_world_ok]) (simp add: demo_world_def new_world_def)

section \<open>Byte streams and hashes\<close>

text \<open>
  C5.  A snapshot survives its canonical encoding: decoding consumes exactly the stream written, gives the
  canonical form of the snapshot (sorted objects, pointers, facts and attributes, canonical doubles), and
  the decoded snapshot has the canonical hash of the original.
\<close>

theorem snapshot_stream_roundtrip:
  assumes "snapshot_ok H s"
  shows "decode_world_snapshot (encode_world_snapshot H s @ rest) = Inr (norm_snapshot H s, rest)
    \<and> canonical_hash H (norm_snapshot H s) = canonical_hash H s"
  using snapshotc.roundtrip [OF assms] snapshotc.enc_norm [of H s] by (simp add: canonical_hash_def)

theorem snapshot_stream_roundtrip_witness:
  "decode_world_snapshot (encode_world_snapshot demo_digest demo_snapshot @ [1])
     = Inr (norm_snapshot demo_digest demo_snapshot, [1])"
  using snapshot_stream_roundtrip [OF demo_snapshot_ok, of "[1]"] by (rule conjunct1)

text \<open>
  The canonical encoding is a normal form: two snapshots that fit the format have the same bytes
  exactly when they have the same canonical form.
\<close>

theorem snapshot_bytes_iff:
  assumes "snapshot_ok H s" and "snapshot_ok H t"
  shows "encode_world_snapshot H s = encode_world_snapshot H t \<longleftrightarrow> norm_snapshot H s = norm_snapshot H t"
  by (rule snapshotc.same_bytes_iff [OF assms])

theorem snapshot_bytes_iff_witness:
  "encode_world_snapshot demo_digest demo_snapshot = encode_world_snapshot demo_digest demo_snapshot
     \<longleftrightarrow> norm_snapshot demo_digest demo_snapshot = norm_snapshot demo_digest demo_snapshot"
  by (rule snapshot_bytes_iff [OF demo_snapshot_ok demo_snapshot_ok])

text \<open>
  C6.  The canonical hash and the Merkle root of a snapshot do not depend on the order in which objects
  and pointers are listed, nor on names of types and relations that no entry uses, as long as identifiers
  are distinct.
\<close>

theorem hashes_order_independent:
  assumes "snapshot_equiv s t" and "distinct (map os_id (sn_objects s))" and "distinct (map ps_id (sn_pointers s))"
  shows "canonical_hash H s = canonical_hash H t \<and> compute_world_root H s = compute_world_root H t"
  using encode_world_snapshot_equiv [OF assms, of H] compute_world_root_equiv [OF assms, of H]
  by (simp add: canonical_hash_def)

theorem hashes_order_independent_witness:
  "canonical_hash demo_digest demo_snapshot = canonical_hash demo_digest (demo_snapshot\<lparr>sn_type_names := [(1, ''T''), (2, ''U'')]\<rparr>)"
  using hashes_order_independent [of demo_snapshot "demo_snapshot\<lparr>sn_type_names := [(1, ''T''), (2, ''U'')]\<rparr>" demo_digest]
  by (simp add: demo_snapshot_def snapshot_equiv_def name_or_empty_def demo_object_def)

text \<open>
  C7.  A delta survives its encoding: every operation kind, with its identifier, comes back in canonical
  form, in order, whatever follows in the stream; and the bytes of the decoded delta are the same.
\<close>

theorem delta_stream_roundtrip:
  assumes "delta_ok ops"
  shows "decode_delta (encode_delta ops @ rest) = Inr (map norm_operation ops, rest)
    \<and> hash_delta H (map norm_operation ops) = hash_delta H ops"
  using deltac.roundtrip [OF assms] deltac.enc_norm [of ops] by (simp add: hash_delta_def)

theorem delta_stream_roundtrip_witness:
  "decode_delta (encode_delta demo_delta @ [7]) = Inr (map norm_operation demo_delta, [7])"
  using delta_stream_roundtrip [OF demo_delta_ok, of "[7]"] by blast

text \<open>
  A kernel program survives its encoding, and decoding keeps its hash and its instruction root.
\<close>

theorem program_stream_roundtrip:
  assumes "program_ok p"
  shows "decode_program (encode_program p @ rest) = Inr (norm_program p, rest)
    \<and> program_hash H (norm_program p) = program_hash H p"
  using programc.roundtrip [OF assms] programc.enc_norm [of p] by (simp add: program_hash_def)

theorem program_stream_roundtrip_witness:
  "decode_program (encode_program demo_program @ [7]) = Inr (norm_program demo_program, [7])"
  using program_stream_roundtrip [OF demo_program_ok, of "[7]"] by blast

text \<open>
  C8.  A commit is content addressed: its identity is the hash of the very bytes it is stored as, those
  bytes decode, to the end, to the stored commit without the fields kept beside the stream, and the identity
  computed from the loaded commit is the identity it was stored under.
\<close>

theorem commit_identity_survives:
  assumes "commit_ok r"
  shows "make_commit_id H r = H (encode_stored_commit (make_stored_commit r))
    \<and> decode_stored_commit (encode_stored_commit (make_stored_commit r)) = Inr (norm_stored_commit (make_stored_commit r), [])
    \<and> stored_commit_identity H (norm_stored_commit (make_stored_commit r)) = make_commit_id H r"
  using decode_stored_commit_encode [of "make_stored_commit r"] assms encode_commit_identity_norm [of r]
  by (simp add: make_commit_id_def encode_make_stored_commit stored_commit_identity_def norm_stored_commit_def)
    (simp add: make_stored_commit_def)

theorem commit_identity_survives_witness:
  "decode_stored_commit (encode_stored_commit (make_stored_commit demo_commit))
     = Inr (norm_stored_commit (make_stored_commit demo_commit), [])"
  using commit_identity_survives [OF demo_commit_ok, of demo_digest] by blast

text \<open>
  Commits written by version 3 of the format are still read: they decode to the end with the
  fields of version 4 blank, and keep the identity they were stored under.
\<close>

theorem commit_v3_still_read:
  assumes "commit_ok r"
  shows "decode_stored_commit (encode_commit_identity_v3 r) = Inr (norm_stored_v3 r, [])
    \<and> stored_commit_identity H (norm_stored_v3 r) = H (encode_commit_identity_v3 r)"
  using decode_stored_commit_v3 [OF assms] encode_commit_identity_v3_norm [of r]
  by (simp add: stored_commit_identity_def norm_stored_v3_def make_stored_commit_def)

theorem commit_v3_still_read_witness:
  "decode_stored_commit (encode_commit_identity_v3 demo_commit) = Inr (norm_stored_v3 demo_commit, [])"
  using commit_v3_still_read [OF demo_commit_ok, of demo_digest] by blast

text \<open>
  The chunked plan of a snapshot partitions it: in order, the pages of objects, pointers and facts
  concatenate to the lists of the snapshot, no page is empty and none exceeds the page size; a page size of
  zero is the only error.
\<close>

theorem plan_partitions_snapshot:
  assumes "build_chunked_snapshot_plan H s n = Inr p"
  shows "0 < n \<and> concat (plan_object_pages p) = sn_objects s \<and> concat (plan_pointer_pages p) = sn_pointers s
    \<and> concat (plan_fact_pages p) = sn_facts s
    \<and> list_all (\<lambda>page. page \<noteq> [] \<and> length page \<le> n) (plan_object_pages p)
    \<and> list_all (\<lambda>page. page \<noteq> [] \<and> length page \<le> n) (plan_pointer_pages p)
    \<and> list_all (\<lambda>page. page \<noteq> [] \<and> length page \<le> n) (plan_fact_pages p)"
  using plan_fields(1-4) [OF assms] by (simp add: concat_build_pages list_all_iff build_pages_sizes)

theorem plan_partitions_snapshot_witness:
  "concat (plan_object_pages (projr (build_chunked_snapshot_plan demo_digest demo_flat 1))) = [demo_object]"
  using plan_partitions_snapshot [OF demo_plan] by (simp add: demo_flat_def demo_snapshot_def)

text \<open>
  C9.  The root object of a chunked plan determines the snapshot: if the digest does not collide on
  the streams of two plans and their root objects are equal, the snapshots hold the same objects,
  pointers and facts in canonical form, the same symbols and the same identity, whatever the page sizes.
\<close>

theorem plan_root_determines_snapshot:
  assumes "build_chunked_snapshot_plan H s m = Inr p" and "build_chunked_snapshot_plan H t n = Inr q"
    and "plan_ok s" and "plan_ok t" and "inj_on H (plan_streams p \<union> plan_streams q)"
    and "plan_root_object p = plan_root_object q"
  shows "sn_world s = sn_world t \<and> sn_world_name s = sn_world_name t \<and> sn_epoch s = sn_epoch t
    \<and> sn_type_names s = sn_type_names t \<and> sn_relation_names s = sn_relation_names t
    \<and> image_mset norm_object (mset (sn_objects s)) = image_mset norm_object (mset (sn_objects t))
    \<and> image_mset norm_pointer (mset (sn_pointers s)) = image_mset norm_pointer (mset (sn_pointers t))
    \<and> image_mset norm_fact (mset (sn_facts s)) = image_mset norm_fact (mset (sn_facts t))"
  using plan_root_determines [OF assms] by simp

theorem plan_root_determines_snapshot_witness:
  "image_mset norm_object (mset (sn_objects demo_flat)) = image_mset norm_object (mset (sn_objects demo_flat))"
  using plan_root_determines_snapshot [OF demo_plan demo_plan demo_flat_ok demo_flat_ok _ refl] demo_plan_inj by simp

text \<open>
  A hash list root stands for a multiset: it does not change when the list is permuted, and when the
  digest does not collide on the two streams hashed, equal roots come from the same hashes.
\<close>

theorem hash_list_root_iff:
  assumes "inj_on H {hash_list_stream gs label, hash_list_stream hs label}"
    and "size_ok label" and "size_ok gs" and "size_ok hs"
  shows "compute_hash_list_root H gs label = compute_hash_list_root H hs label \<longleftrightarrow> mset gs = mset hs"
  using compute_hash_list_root_inj [OF assms] compute_hash_list_root_perm by blast

theorem hash_list_root_iff_witness:
  "compute_hash_list_root demo_digest [1, 2] ''Facts'' = compute_hash_list_root demo_digest [2, 1] ''Facts''"
proof -
  have "mset [1::hash256, 2] = mset [2, 1]" by simp
  moreover from this have "hash_list_stream [1, 2] ''Facts'' = hash_list_stream [2, 1] ''Facts''"
    using sort_hex_perm [of "[1, 2]" "[2, 1]"] by (simp add: hash_list_stream_def del: sort_by.simps)
  ultimately show ?thesis
    using hash_list_root_iff [of demo_digest "[1, 2]" "''Facts''" "[2, 1]"] by (simp add: size_ok_def)
qed

text \<open>
  Hashes survive printing: 64 hexadecimal digits that parse back, with or without a 0x prefix,
  and distinct hashes print differently.
\<close>

theorem hash_text_roundtrip:
  "parse_hash256 (to_hex h) = Some h \<and> parse_hash256 (''0x'' @ to_hex h) = Some h
   \<and> length (to_hex h) = 64 \<and> (to_hex g = to_hex h \<longleftrightarrow> g = h)"
  using parse_prefixed_hex [of h] length_to_hex [of h] by simp

section \<open>Values, symbols, indexes\<close>

text \<open>
  \<open>Value::compare\<close> is a total order on values up to the canonical bits of doubles: exactly one of
  less, equal and greater holds, it is transitive, and values compare equal exactly when they have the same
  canonical form.
\<close>

theorem value_order_total:
  "of_bool (value_lt l r) + of_bool (value_eq l r) + of_bool (value_lt r l) = (1 :: nat)
   \<and> (value_lt l m \<and> value_lt m r \<longrightarrow> value_lt l r)
   \<and> (value_eq l r \<longleftrightarrow> norm_value l = norm_value r)"
proof -
  have "of_bool (value_lt l r) + of_bool (value_eq l r) + of_bool (value_lt r l) = (1 :: nat)"
    unfolding value_lt_key value_eq_key by (cases "value_key l" "value_key r" rule: linorder_cases) auto
  then show ?thesis using value_eq_norm [of l r] by (auto simp: value_lt_key)
qed

theorem value_order_total_witness: "value_lt (Int64Value (- 1)) (UInt64Value 0)"
proof -
  have "value_lt (Int64Value (- 1)) (Int64Value 0)" "value_lt (Int64Value 0) (UInt64Value 0)" by code_simp+
  then show ?thesis using value_order_total [of "Int64Value (- 1)" "UInt64Value 0" "Int64Value 0"] by blast
qed

text \<open>
  Interning at an identifier keeps the registry injective and binds the name: the name is found
  under the identifier returned (the requested one when one was requested), no other name moves, and the
  slot of the identifier held nothing else.
\<close>

theorem registry_intern_binds:
  assumes "registry_inv r" and "length (rg_names r) + 1 < 2 ^ 32" and "registry_intern_at i name r = Inr (k, r')"
  shows "registry_inv r' \<and> k \<noteq> 0 \<and> (i = 0 \<or> k = i) \<and> name \<noteq> []
    \<and> registry_find r' n = (if n = name then Some k else registry_find r n)
    \<and> (slot_name r k = [] \<or> slot_name r k = name)
    \<and> slot_name r' j = (if j = k then name else slot_name r j)"
  using registry_intern_at_props [OF assms] by blast

theorem registry_intern_binds_witness:
  "registry_find (snd (projr (registry_intern_at 3 ''T'' registry_empty))) ''T'' = Some 3"
proof -
  have "registry_intern_at 3 ''T'' registry_empty = Inr (3, \<lparr>rg_ids = [(''T'', 3)], rg_names = [[], [], ''T'']\<rparr>)"
    by code_simp
  from registry_intern_binds [OF registry_inv_empty _ this, of "''T''" 0] this show ?thesis
    by (simp add: registry_empty_def)
qed

text \<open>
  Restoring a registry from the table a snapshot takes gives the registry back, gaps included.
\<close>

theorem registry_restore_roundtrip:
  assumes "registry_inv r"
  shows "registry_restore (registry_table r) = r"
  by (rule registry_restore_table [OF assms])

theorem registry_restore_roundtrip_witness: "registry_restore (registry_table registry_empty) = registry_empty"
  by (rule registry_restore_roundtrip [OF registry_inv_empty])

text \<open>
  C10.  The world index answers exactly: outgoing, incoming and relation lookups list, sorted, the
  identifiers of the pointers active at the epoch of the snapshot, and an object is found by name as a scan
  of the objects would find it.
\<close>

theorem index_answers:
  "index_outgoing (index_rebuild s) i =
     sort_ids (map ps_id (filter (\<lambda>p. pointer_active_at p (sn_epoch s) \<and> ps_from p = i) (sn_pointers s)))
   \<and> index_incoming (index_rebuild s) i =
     sort_ids (map ps_id (filter (\<lambda>p. pointer_active_at p (sn_epoch s) \<and> ps_to p = i) (sn_pointers s)))
   \<and> index_relation (index_rebuild s) r =
     sort_ids (map ps_id (filter (\<lambda>p. pointer_active_at p (sn_epoch s) \<and> ps_relation p = r) (sn_pointers s)))
   \<and> index_objects_by_type (index_rebuild s) t = sort_ids (map os_id (filter (\<lambda>ob. os_type ob = t) (sn_objects s)))
   \<and> index_object_by_name (index_rebuild s) n = map_option os_id (List.find (\<lambda>ob. os_name ob = n) (sn_objects s))
   \<and> set (index_objects_with_attribute (index_rebuild s) key) =
     os_id ` {ob \<in> set (sn_objects s). key \<in> fst ` set (os_attributes ob)}"
  by (simp add: index_outgoing_rebuild index_incoming_rebuild index_relation_rebuild
      index_objects_by_type_rebuild index_object_by_name_rebuild index_objects_with_attribute_rebuild)

text \<open>
  The degree counts of a snapshot are the numbers of active pointers: recomputing them by walking the
  pointers, as the overlay does, gives each object the number of entries the world index lists for it, as
  the live world does.
\<close>

theorem counts_agree_with_index:
  assumes "distinct (map os_id (sn_objects s))"
  shows "sn_objects (recompute_counts s) =
    map (\<lambda>ob. ob\<lparr>os_incoming := of_nat (length (index_incoming (index_rebuild s) (os_id ob))),
                os_outgoing := of_nat (length (index_outgoing (index_rebuild s) (os_id ob)))\<rparr>) (sn_objects s)"
  using recompute_counts_spec [OF assms] by (simp add: index_counts with_counts_def)

theorem counts_agree_with_index_witness:
  "map os_outgoing (sn_objects (recompute_counts demo_snapshot)) = [1]"
proof -
  have "distinct (map os_id (sn_objects demo_snapshot))" by (simp add: demo_snapshot_def)
  from counts_agree_with_index [OF this] show ?thesis
    by (simp add: index_counts outgoing_count_def demo_snapshot_def demo_pointer_def demo_object_def pointer_active_at_def)
qed

section \<open>Plans, programs and laws\<close>

text \<open>
  C11.  The write set of an execution plan covers what a delta changes.  For a delta that the overlay accepts
  on a well-formed snapshot, every fact that is new in the result is in the write set and every fact that
  is gone is in the read set, except the object facts of tombstones, whose expiry is the epoch of the
  snapshot that derives them.
\<close>

theorem plan_covers_changes:
  assumes "snapshot_wf base" and "ids_room base (length d)" and "overlay_apply H base d = Inr s"
    and "plan = make_execution_plan H tx base s v" and "tx_delta tx = d"
  shows "fact_id_of ` {f \<in> set (derive_facts H s) - set (derive_facts H base). \<not> tombstone_fact (sn_epoch s) f}
      \<subseteq> set (collect_writes plan)
    \<and> fact_id_of ` {f \<in> set (derive_facts H base) - set (derive_facts H s). \<not> tombstone_fact (sn_epoch base) f}
      \<subseteq> set (collect_reads plan)"
  using plan_covers_facts [OF assms] by blast

theorem plan_covers_changes_witness:
  "fact_id_of ` {f \<in> set (derive_facts demo_digest demo_after). \<not> tombstone_fact (sn_epoch demo_after) f}
     \<subseteq> set (collect_writes (make_execution_plan demo_digest demo_tx demo_base demo_after default_verification))"
  using plan_covers_changes [OF demo_base_wf [folded demo_base_def] demo_base_room demo_after refl demo_tx_delta]
  by (simp add: derive_facts_def demo_base_empty)

text \<open>
  An execution plan lists one entry per operation, in order, with its identifier and kind; the
  identifiers of an entry are listed once, its facts in the order of their hashes; the read set only
  holds facts of the snapshot before, the write set only facts of the snapshot after.
\<close>

theorem plan_lists_operations:
  "map ro_id (xp_resolved (make_execution_plan H tx before after v)) = map op_id (tx_delta tx)
   \<and> map ro_kind (xp_resolved (make_execution_plan H tx before after v))
       = map (\<lambda>op. operation_kind (op_body op)) (tx_delta tx)
   \<and> list_all (\<lambda>e. distinct (ro_objects e) \<and> distinct (ro_pointers e) \<and> unique_fact_ids (ro_reads e) = ro_reads e
         \<and> unique_fact_ids (ro_writes e) = ro_writes e) (xp_resolved (make_execution_plan H tx before after v))
   \<and> set (collect_reads (make_execution_plan H tx before after v)) \<subseteq> fact_id_of ` set (derive_facts H before)
   \<and> set (collect_writes (make_execution_plan H tx before after v)) \<subseteq> fact_id_of ` set (derive_facts H after)"
proof -
  have ops: "xp_resolved (make_execution_plan H tx before after v)
      = resolve_operations (tx_delta tx) before after (fact_store_from_snapshot H before) (fact_store_from_snapshot H after)"
    by (simp add: make_execution_plan_def Let_def)
  show ?thesis
    unfolding ops resolve_operations_def list_all_iff
    using collect_sources [OF refl, of H tx before after v] resolve_loop_ids resolve_loop_canonical by simp
qed

text \<open>
  C12.  The verifier folds its laws into one verdict: it throws exactly when a law throws; otherwise its
  result lists, in the order of the laws, the status of every law that passed and of every violation, and
  the transition is accepted when the mode observes or no violation has a rejecting severity.
\<close>

theorem verifier_verdict:
  "(isl (verifier_check v ctx) \<longleftrightarrow> (\<exists>l \<in> set (vf_laws v). isl (lw_check l ctx)))
   \<and> (\<not> isl (verifier_check v ctx) \<longrightarrow> verifier_check v ctx = Inr (verdict v ctx))"
proof (cases "\<exists>l \<in> set (vf_laws v). isl (lw_check l ctx)")
  case True
  then show ?thesis using verifier_check_throws by blast
next
  case False
  then have "verifier_check v ctx = Inr (verdict v ctx)" by (intro verifier_check_verdict) blast
  then show ?thesis using False by simp
qed

theorem verifier_verdict_witness:
  "verifier_check (demo_verifier\<lparr>vf_laws := [\<lparr>lw_name = ''l'', lw_check = \<lambda>_. Inr []\<rparr>]\<rparr>)
       (transaction_context demo_digest demo_tx demo_base demo_after)
     = Inr (verdict (demo_verifier\<lparr>vf_laws := [\<lparr>lw_name = ''l'', lw_check = \<lambda>_. Inr []\<rparr>]\<rparr>)
       (transaction_context demo_digest demo_tx demo_base demo_after))"
  using verifier_verdict [of "demo_verifier\<lparr>vf_laws := [\<lparr>lw_name = ''l'', lw_check = \<lambda>_. Inr []\<rparr>]\<rparr>"
      "transaction_context demo_digest demo_tx demo_base demo_after"] by simp



text \<open>
  The bounded-weight law is exact: it reports nothing exactly when no pointer of the snapshot
  after has a weight out of bounds.
\<close>

theorem bounded_weight_exact:
  "bounded_weight fmt12 name tolerance ctx = []
     \<longleftrightarrow> (\<forall>p \<in> set (sn_pointers (lc_after ctx)). \<not> out_of_bounds tolerance (ps_weight p))"
  by (rule bounded_weight_nil)

theorem bounded_weight_exact_witness:
  "bounded_weight demo_fmt ''l'' 0 (transaction_context demo_digest demo_tx demo_base
     (demo_snapshot\<lparr>sn_pointers := [demo_pointer\<lparr>ps_weight := 0x7ff0000000000000\<rparr>]\<rparr>)) \<noteq> []"
proof -
  have "\<not> f64_is_finite 0x7ff0000000000000" by (simp add: f64_is_finite_def f64_magnitude_def)
  then have "out_of_bounds 0 0x7ff0000000000000" by (simp add: out_of_bounds_def)
  then show ?thesis by (simp add: bounded_weight_exact transaction_context_def)
qed

text \<open>
  C14.  The virtual machine succeeds exactly when it has nothing to report, and then its delta has one
  operation per instruction, the overlay accepts it with the result recorded in the plan, and the proof is
  the proof of that plan.
\<close>

theorem vm_success:
  "(vm_ok (vm_execute H fmt17 before program) \<longleftrightarrow> vm_diagnostics (vm_execute H fmt17 before program) = [])
   \<and> (vm_ok (vm_execute H fmt17 before program) \<longrightarrow>
       length (vm_delta (vm_execute H fmt17 before program)) = length (pr_instructions program)
       \<and> overlay_apply H before (vm_delta (vm_execute H fmt17 before program))
           = Inr (xp_after (vm_plan (vm_execute H fmt17 before program)))
       \<and> vm_proof (vm_execute H fmt17 before program) = Some (make_commit_proof H (vm_plan (vm_execute H fmt17 before program))))"
proof (cases rule: vm_execute_cases [of H fmt17 before program])
  case (accepted frame after)
  have "length (fr_delta frame) = length (pr_instructions program)"
    using execute_loop_outcome [OF accepted(1)] by (simp add: initial_frame_def)
  then show ?thesis using accepted vm_execute_diagnosed [of H fmt17 before program] by simp
qed (use vm_execute_diagnosed in blast)+

theorem vm_success_witness:
  "length (vm_delta (vm_execute demo_digest demo_fmt demo_base demo_run)) = 1"
  using vm_success [of demo_digest demo_fmt demo_base demo_run] demo_vm_ok by (simp add: demo_run_def)

text \<open>
  C15.  A program whose instructions all succeed builds a delta that the overlay can only refuse for
  a symbol: an identifier or a name that is not free, or a type or relation that is not registered.
  Dangling references, tombstones and bad pointers were reported by the machine before.
\<close>

theorem vm_catches_references:
  assumes "execute_loop H fmt17 (initial_frame before program) 0 (pr_instructions program) = (True, frame)"
    and "overlay_apply H before (fr_delta frame) = Inl e"
  shows "e = InvalidSymbol \<or> e = InvalidTempObject \<or> e = InvalidPointerRelation"
  using vm_execute_overlay_errors [OF assms] by (simp add: symbol_error_def)

theorem vm_catches_references_witness:
  "\<exists>e. (e = InvalidSymbol \<or> e = InvalidTempObject \<or> e = InvalidPointerRelation)
     \<and> overlay_apply demo_digest demo_base
         (fr_delta (snd (execute_loop demo_digest demo_fmt (initial_frame demo_base demo_unnamed) 0 (pr_instructions demo_unnamed))))
       = Inl e"
proof -
  obtain frame where run: "execute_loop demo_digest demo_fmt (initial_frame demo_base demo_unnamed) 0
      (pr_instructions demo_unnamed) = (True, frame)"
    using demo_unnamed_runs by (metis prod.collapse)
  moreover obtain e where "overlay_apply demo_digest demo_base (fr_delta frame) = Inl e"
    using demo_unnamed_rejected run by (auto simp: isl_def)
  ultimately show ?thesis using vm_catches_references [OF run] by auto
qed

section \<open>Transactions\<close>





text \<open>
  C18.  A transaction is accepted exactly when it was prepared as committable on the state the world is in;
  a stale or rejected one changes nothing but the trace: not the hash, not the epoch.
\<close>

theorem rejection_only_traces:
  assumes "commit_prepared H w p = Inr (r, w')"
  shows "(cm_accepted r \<longleftrightarrow> pt_committable p \<and> w_epoch w = sn_epoch (pt_before p)
      \<and> world_canonical_hash H w = canonical_hash H (pt_before p))
    \<and> (\<not> cm_accepted r \<longrightarrow> w' = append_trace (cm_events r) w \<and> world_canonical_hash H w' = world_canonical_hash H w
        \<and> w_epoch w' = w_epoch w)"
  using commit_accepted_iff [OF assms] commit_rejected(1) [OF assms] by auto

theorem rejection_only_traces_witness:
  "\<not> cm_accepted (fst (projr (commit_prepared demo_digest (demo_world\<lparr>w_epoch := 7\<rparr>) demo_prepared)))"
  using rejection_only_traces [OF demo_stale] demo_stale_epoch by blast



section \<open>The commit graph and the store\<close>

text \<open>
  C20.  On a graph whose commits were added after their parents, the walk to the root ends, lists no commit
  twice, and steps from each commit to its first parent.
\<close>

theorem path_to_root_total:
  assumes "graph_ok g"
  shows "\<exists>path. path_to_root g i = Some path \<and> distinct path
    \<and> (\<forall>xs j k ys. path = xs @ j # k # ys \<longrightarrow> (\<exists>n ps. graph_node g j = Some n \<and> cn_parents n = k # ps))"
proof -
  obtain path where "path_to_root g i = Some path" using path_ends [OF assms] by blast
  then show ?thesis using path_distinct path_parents by blast
qed

theorem path_to_root_total_witness: "\<exists>path. path_to_root (st_graph demo_store) 5 = Some path \<and> distinct path"
proof -
  have "graph_ok (st_graph demo_store)"
    using reachable_store_inv [OF demo_store_reachable] by (simp add: store_ok_def)
  then show ?thesis using path_to_root_total by blast
qed

text \<open>
  C21.  The common ancestor of two commits lies on both paths to the root, and every other common commit of
  the paths comes after it; it does not depend on the order of the two commits, and there is none exactly when
  the paths have no commit in common.
\<close>

theorem common_ancestor_nearest:
  assumes "graph_ok g"
  shows "\<exists>p q. path_to_root g l = Some p \<and> path_to_root g r = Some q \<and> common_ancestor g l r = common_ancestor g r l
    \<and> (case common_ancestor g l r of
         Some (Some a) \<Rightarrow> a \<in> set p \<inter> set q \<and> (\<forall>j \<in> set p \<inter> set q. \<exists>xs ys. q = xs @ a # ys \<and> j \<in> set (a # ys))
       | Some None \<Rightarrow> set p \<inter> set q = {}
       | None \<Rightarrow> False)"
proof -
  obtain p q where pq: "path_to_root g l = Some p" "path_to_root g r = Some q"
    using path_ends [OF assms] by blast
  have sym: "common_ancestor g l r = common_ancestor g r l" by (rule common_ancestor_sym) (simp_all add: pq)
  obtain x where x: "common_ancestor g l r = Some x" using pq by (simp add: common_ancestor_def)
  show ?thesis
  proof (cases x)
    case None
    then show ?thesis using x pq sym common_ancestor_None [of g l r] by auto
  next
    case (Some a)
    then have "common_ancestor g l r = Some (Some a)" using x by simp
    from this obtain p' q' where "path_to_root g l = Some p'" "path_to_root g r = Some q'" "a \<in> set p'" "a \<in> set q'"
        "\<And>j. j \<in> set q' \<Longrightarrow> j \<in> set p' \<Longrightarrow> (\<exists>xs ys. q' = xs @ a # ys \<and> j \<in> set (a # ys))"
      by (rule common_ancestor_Some) blast
    then show ?thesis using x Some pq sym by auto
  qed
qed

theorem common_ancestor_nearest_witness:
  "common_ancestor (st_graph demo_store) 5 6 = common_ancestor (st_graph demo_store) 6 5"
proof -
  have "graph_ok (st_graph demo_store)"
    using reachable_store_inv [OF demo_store_reachable] by (simp add: store_ok_def)
  then show ?thesis using common_ancestor_nearest by blast
qed

text \<open>
  C22.  Every store built by creating branches, forking them and committing on them is consistent:
  branches have their own identifiers and names, the head of a branch is a commit of the graph, its stored
  snapshot has the hash of the branch's world, and the history is a chain of hashes from the first commit to
  that world; the walk to the root ends from every commit.
\<close>

theorem stores_consistent:
  assumes "reachable_store H fmt17 store"
  shows "store_ok H store \<and> path_to_root (st_graph store) i \<noteq> None"
  using reachable_store_inv [OF assms] path_ends by (auto simp: store_ok_def)

theorem stores_consistent_witness: "store_ok demo_digest (snd demo_commit_store)"
  using stores_consistent [OF demo_commit_reachable] by blast

text \<open>
  C23.  Branches are isolated: a commit on one branch leaves every other branch as it was, its
  world, head and history; a fork leaves all branches as they were and starts the new one at the head, the
  history and the state of its source.
\<close>

theorem branches_isolated:
  assumes "reachable_store H fmt17 store"
  shows "(store_commit H fmt17 i tx v store = Inr (r, store') \<and> j \<noteq> i \<longrightarrow>
      branch_state_of store' j = branch_state_of store j)
    \<and> (fork_branch H i name store = Inr (f, store') \<and> branch_state_of store j = Inr b \<longrightarrow>
      branch_state_of store' j = Inr b)
    \<and> (fork_branch H i name store = Inr (f, store') \<longrightarrow>
      (\<exists>src forked. branch_state_of store i = Inr src \<and> branch_state_of store' (fk_forked f) = Inr forked
        \<and> br_head (bs_branch forked) = br_head (bs_branch src) \<and> bs_history forked = bs_history src
        \<and> world_canonical_hash H (bs_world forked) = world_canonical_hash H (bs_world src)))"
proof (intro conjI impI)
  have ok: "store_ok H store" using reachable_store_inv [OF assms] by blast
  show "branch_state_of store' j = branch_state_of store j"
    if "store_commit H fmt17 i tx v store = Inr (r, store') \<and> j \<noteq> i"
    using store_commit_others [OF ok] that by blast
  show "branch_state_of store' j = Inr b"
    if "fork_branch H i name store = Inr (f, store') \<and> branch_state_of store j = Inr b"
    using fork_branch_keeps that by blast
  assume fork: "fork_branch H i name store = Inr (f, store')"
  then obtain src c events where c: "branch_state_of store i = Inr src" "st_branches store' = st_branches store @ [c]"
      "bs_branch c = (bs_branch src)\<lparr>br_id := st_next_branch store, br_name := name\<rparr>"
      "bs_world c = append_trace events (bs_world src)" "bs_history c = bs_history src"
      "fk_forked f = st_next_branch store"
    by (rule fork_branch_props) blast
  have "br_id (bs_branch c) \<notin> (br_id \<circ> bs_branch) ` set (st_branches store)"
    using ok by (auto simp: store_ok_def c(3))
  from branch_state_of_last [OF c(2) this] c
  show "\<exists>src forked. branch_state_of store i = Inr src \<and> branch_state_of store' (fk_forked f) = Inr forked
      \<and> br_head (bs_branch forked) = br_head (bs_branch src) \<and> bs_history forked = bs_history src
      \<and> world_canonical_hash H (bs_world forked) = world_canonical_hash H (bs_world src)"
    by simp
qed

theorem branches_isolated_witness:
  "branch_state_of (snd demo_fork) 1 = branch_state_of demo_store 1"
proof -
  obtain b where "branch_state_of demo_store 1 = Inr b" using demo_store_branch by blast
  then show ?thesis using branches_isolated [OF demo_store_reachable, of 1] demo_fork by metis
qed

text \<open>
  C24.  Checkpoints bound the chains of deltas: in every reachable store no commit is further from its last
  checkpoint than the limits of the policy allow.
\<close>

theorem checkpoints_bound_chains:
  assumes "reachable_store H fmt17 store" and "b \<in> set (st_branches store)" and "r \<in> set (bs_history b)"
  shows "(0 < ck_every_n_commits (st_policy store) \<longrightarrow> cr_checkpoint_distance r < ck_every_n_commits (st_policy store))
    \<and> (0 < ck_max_delta_chain (st_policy store) \<longrightarrow> cr_checkpoint_distance r < ck_max_delta_chain (st_policy store))"
  using reachable_store_inv [OF assms(1)] assms(2,3) by (auto simp: distances_ok_def distance_ok_def list_all_iff)

theorem checkpoints_bound_chains_witness:
  "list_all (\<lambda>b. list_all (\<lambda>r. cr_checkpoint_distance r < 64) (bs_history b)) (st_branches demo_store)"
proof -
  have "ck_every_n_commits (st_policy demo_store) = 64"
    by (simp add: demo_store_def create_branch_def find_branch_def new_store_def Let_def default_checkpoint_policy_def
        split: prod.splits)
  then show ?thesis using checkpoints_bound_chains [OF demo_store_reachable] by (force simp: list_all_iff)
qed



section \<open>Merges, rules, derivations and compiled commands\<close>



text \<open>
  C27.  The analysis of a merge is total and exact: on every store a program can build it returns for any two
  branches, in either order with the same verdict and ancestor; the objects it reports are those whose type name
  or existence differ between the branches, the pointers those that both sides changed differently from the ancestor,
  and the merge is clean exactly when it reports neither of them nor different laws.
\<close>

theorem merge_analysis_exact:
  assumes reach: "reachable_store H fmt17 store"
    and l: "branch_state_of store l = Inr lb" and r: "branch_state_of store r = Inr rb"
  shows "\<exists>a b. analyze_merge H store l r = Some (Inr a) \<and> analyze_merge H store r l = Some (Inr b)
    \<and> ma_status b = ma_status a \<and> ma_common_ancestor b = ma_common_ancestor a
    \<and> (case ma_common_ancestor a of
         None \<Rightarrow> ma_status a = DivergentHistory
       | Some c \<Rightarrow> (\<exists>k base. snapshot_materialize (st_snapshots store) c = Some k
           \<and> snapshot_get (st_snapshots store) k = Some base
           \<and> oc_object ` set (ma_object_conflicts a)
               = {i. \<not> objects_agree (world_snapshot_of H (bs_world lb)) (world_snapshot_of H (bs_world rb)) i}
           \<and> pc_pointer ` set (ma_pointer_conflicts a)
               = {i. \<not> pointers_agree base (world_snapshot_of H (bs_world lb)) (world_snapshot_of H (bs_world rb)) i}
           \<and> ma_status a = (if ma_object_conflicts a = [] \<and> ma_pointer_conflicts a = [] \<and> ma_law_drifts a = []
                            then MergeClean else MergeConflict)))"
proof -
  obtain a b where ab: "analyze_merge H store l r = Some (Inr a)" "analysis_spec H store lb rb a"
      "analyze_merge H store r l = Some (Inr b)" "analysis_spec H store rb lb b"
    using analyze_merge_spec [OF reach] l r by meson
  have "graph_ok (st_graph store)" using reachable_store_inv [OF reach] by (simp add: store_ok_def)
  note analysis_spec_swap(1,2) [OF ab(2,4) this]
  moreover have "case ma_common_ancestor a of None \<Rightarrow> ma_status a = DivergentHistory
    | Some c \<Rightarrow> (\<exists>k base. snapshot_materialize (st_snapshots store) c = Some k
        \<and> snapshot_get (st_snapshots store) k = Some base
        \<and> oc_object ` set (ma_object_conflicts a)
            = {i. \<not> objects_agree (world_snapshot_of H (bs_world lb)) (world_snapshot_of H (bs_world rb)) i}
        \<and> pc_pointer ` set (ma_pointer_conflicts a)
            = {i. \<not> pointers_agree base (world_snapshot_of H (bs_world lb)) (world_snapshot_of H (bs_world rb)) i}
        \<and> ma_status a = (if ma_object_conflicts a = [] \<and> ma_pointer_conflicts a = [] \<and> ma_law_drifts a = []
                         then MergeClean else MergeConflict))"
  proof (cases "ma_common_ancestor a")
    case None
    then show ?thesis using ab(2) by (auto simp: analysis_spec_def)
  next
    case (Some c)
    with ab(2) obtain k base where "snapshot_materialize (st_snapshots store) c = Some k"
        "snapshot_get (st_snapshots store) k = Some base"
        "ma_object_conflicts a = object_conflicts base (world_snapshot_of H (bs_world lb)) (world_snapshot_of H (bs_world rb))"
        "ma_pointer_conflicts a = pointer_conflicts base (world_snapshot_of H (bs_world lb)) (world_snapshot_of H (bs_world rb))"
        "ma_status a = (if ma_object_conflicts a = [] \<and> ma_pointer_conflicts a = [] \<and> ma_law_drifts a = []
           then MergeClean else MergeConflict)"
      unfolding analysis_spec_def Some option.case by blast
    then show ?thesis unfolding Some option.case object_conflicts_ids [symmetric] pointer_conflicts_ids [symmetric]
      by (intro exI [of _ k] exI [of _ base] conjI) (simp_all only: object_conflicts_ids pointer_conflicts_ids)
  qed
  ultimately show ?thesis using ab(1,3) by blast
qed

theorem merge_analysis_exact_witness:
  "\<exists>a. analyze_merge demo_digest demo_store 1 1 = Some (Inr a)"
proof -
  obtain b where b: "branch_state_of demo_store 1 = Inr b" using demo_store_branch by blast
  from merge_analysis_exact [OF demo_store_reachable b b] show ?thesis by blast
qed

text \<open>
  A branch merges cleanly with its own fresh fork: the analysis finds no conflict, the head of the
  source is the common ancestor, and neither side has diverged.
\<close>

theorem fork_merges_cleanly:
  assumes reach: "reachable_store H fmt17 store" and room: "store_room store"
    and fork: "fork_branch H i name store = Inr (f, store')"
  shows "\<exists>a src. branch_state_of store i = Inr src
    \<and> analyze_merge H store' i (fk_forked f) = Some (Inr a) \<and> ma_status a = MergeClean
    \<and> ma_common_ancestor a = br_head (bs_branch src)
    \<and> ma_left_divergence a = blank_point \<and> ma_right_divergence a = blank_point"
proof -
  have ok: "store_ok H store" using reachable_store_inv [OF reach] by blast
  have reach': "reachable_store H fmt17 store'" by (rule reachable_store.fork [OF reach room fork])
  then have ok': "store_ok H store'" using reachable_store_inv by blast
  obtain src c events where src: "branch_state_of store i = Inr src" and c: "st_branches store' = st_branches store @ [c]"
      "bs_branch c = (bs_branch src)\<lparr>br_id := st_next_branch store, br_name := name\<rparr>"
      "bs_world c = append_trace events (bs_world src)" "fk_forked f = st_next_branch store"
    using fork by (rule fork_branch_props) blast
  have "br_id (bs_branch c) \<notin> (br_id \<circ> bs_branch) ` set (st_branches store)"
    using ok by (auto simp: store_ok_def c(2))
  from branch_state_of_last [OF c(1) this] have "branch_state_of store' (fk_forked f) = Inr c" by (simp add: c(2,4))
  then obtain a where a: "analyze_merge H store' i (fk_forked f) = Some (Inr a)" "analysis_spec H store' src c a"
    using analyze_merge_spec [OF reach' fork_branch_keeps [OF fork src]] by blast
  have src': "state_ok H store' src" "graph_ok (st_graph store')"
    using ok' branch_state_of_mem(1) [OF fork_branch_keeps [OF fork src]] by (simp_all add: store_ok_def)
  from analysis_spec_same [OF a(2) _ _ this] show ?thesis using src a(1) by (simp add: c(2,3))
qed

theorem fork_merges_cleanly_witness:
  "\<exists>a. analyze_merge demo_digest (snd demo_fork) 1 (fk_forked (fst demo_fork)) = Some (Inr a) \<and> ma_status a = MergeClean"
  using fork_merges_cleanly [OF demo_store_reachable demo_store_room(2) demo_fork] by blast

text \<open>
  C28.  The law of a rule is exact: checked on a transition of the overlay it reports, in order, one violation for
  every pointer the delta created (or every active pointer, if it created none) that matches the trigger while the rule
  has no requirements or one of them is not met.
\<close>

theorem rule_law_exact:
  assumes "overlay_apply H (lc_before ctx) (lc_delta ctx) = Inr (lc_after ctx)"
    and "distinct (map os_name (sn_objects (lc_after ctx)))"
  shows "pattern_law_check r ctx = Inr (map (rule_violation r \<circ> match_of (lc_after ctx))
     (filter (\<lambda>p. pointer_triggers (lc_after ctx) (rl_trigger r) p
        \<and> \<not> (rl_requirements r \<noteq> [] \<and> list_all (requirement_met ctx (match_of (lc_after ctx) p)) (rl_requirements r)))
      (watched_pointers ctx)))"
  using pattern_law_violations [OF assms] by (simp add: list_all_iff)

theorem rule_law_exact_witness:
  "\<exists>vs. pattern_law_check demo_rule (transaction_context demo_digest demo_tx demo_base demo_after) = Inr vs"
proof -
  have "distinct (map os_name (sn_objects (projr (overlay_apply demo_digest demo_base demo_delta))))"
    unfolding demo_base_def by code_simp
  then have "distinct (map os_name (sn_objects demo_after))" by (simp add: demo_after_def)
  then show ?thesis
    using rule_law_exact [of demo_digest "transaction_context demo_digest demo_tx demo_base demo_after" demo_rule] demo_after
    by (simp add: transaction_context_def)
qed

text \<open>
  C29.  Rules survive being written: the parser reads the text of any list of rules that the syntax can
  express back as the same rules.
\<close>

theorem rules_text_roundtrip:
  assumes "list_all rule_writable rules"
  shows "parse_rules (rules_text rules) = Inr rules"
  by (rule parse_rules_text [OF assms])

theorem rules_text_roundtrip_witness:
  "parse_rules (rules_text [demo_rule]) = Inr [demo_rule]"
proof -
  have "list_all rule_writable [demo_rule]" by code_simp
  then show ?thesis by (rule rules_text_roundtrip)
qed

text \<open>
  A compiled command to create an object does what it says: the program runs without a diagnostic, and its
  delta, applied to the snapshot it was compiled for, adds one object with the name, the type and the attributes.
\<close>

theorem compiled_object_runs:
  fixes H :: digest and fmt17 :: "f64 \<Rightarrow> string"
  assumes "snapshot_wf s" and "ids_room s 1" and "names_proper (sn_type_names s)" and "length attributes + 1 < 2 ^ 64"
    and "object_named s name = None" and "type \<noteq> []" and "list_all (\<lambda>a. \<not> is_object_ref (snd a)) attributes"
  shows "vm_ok (vm_execute H fmt17 s (compile_object s name type attributes))
    \<and> (\<exists>after ob. overlay_apply H s (vm_delta (vm_execute H fmt17 s (compile_object s name type attributes))) = Inr after
    \<and> map os_id (sn_objects after) = map os_id (sn_objects s) @ [os_id ob] \<and> ob \<in> set (sn_objects after)
    \<and> os_name ob = name \<and> snapshot_type_name after (os_type ob) = type
    \<and> os_existence ob = Alive \<and> os_attributes ob = fold set_attribute attributes [])"
  by (rule compile_object_effect [OF assms])

theorem compiled_object_runs_witness:
  "vm_ok (vm_execute demo_digest demo_fmt demo_base (compile_object demo_base ''a'' ''T'' [(''k'', BoolValue True)]))"
proof -
  have n: "length [(''k'', BoolValue True)] + 1 < 2 ^ 64" "''T'' \<noteq> []"
      "list_all (\<lambda>a. \<not> is_object_ref (snd a)) [(''k'', BoolValue True)]"
    by (simp_all add: is_object_ref_def)
  have room: "ids_room demo_base 1" using demo_base_program(2) by simp
  show ?thesis
    by (rule compiled_object_runs [THEN conjunct1, OF demo_base_program(1) room demo_base_program(4) n(1)
          demo_base_program(3) n(2,3)])
qed



section \<open>Storage\<close>

text \<open>
  C31.  The log counts and survives.  Whatever was appended to an empty log, \<open>recover\<close> reads every record and
  says whether a commit was begun and not ended.  When the next record is cut off anywhere (a crash in
  the middle of \<open>append\<close>), reading either throws or returns exactly the records that are complete: a
  payload is never returned shortened, given that the hash tells the payload from its prefixes.
\<close>

theorem log_recovers:
  assumes "tells_prefixes H payload"
    and "prefix str (wal_line \<lparr>we_sequence = of_nat (length ops + 1), we_op = op, we_payload_hash = H payload, we_payload = payload\<rparr>)"
  shows "\<exists>f. wal_appends H ops (Some []) = Inr (Some f)
    \<and> wal_recover H (Some f) = Inr \<lparr>wr_entries_read = length ops, wr_incomplete_commit = commit_open (map fst ops)\<rparr>
    \<and> (isl (wal_read_all H (Some (f @ str)))
      \<or> wal_read_all H (Some (f @ str)) = Inr (if str = [] then wal_numbered H ops else wal_numbered H (ops @ [(op, payload)])))"
proof -
  have enum: "map (\<lambda>p. fst (snd p)) (enumerate n ops) = map fst ops" for n
    by (induction ops arbitrary: n) simp_all
  have ops: "map we_op (wal_numbered H ops) = map fst ops" "length (wal_numbered H ops) = length ops"
    by (simp_all add: wal_numbered_def comp_def case_prod_unfold enum)
  have ok: "list_all (entry_ok H) (wal_numbered H ops @ [\<lparr>we_sequence = of_nat (length ops + 1), we_op = op,
      we_payload_hash = H payload, we_payload = payload\<rparr>])"
    using wal_numbered_ok [of H "ops @ [(op, payload)]"] by (simp add: wal_numbered_snoc)
  have tells: "tells_prefixes H (we_payload \<lparr>we_sequence = of_nat (length ops + 1), we_op = op, we_payload_hash = H payload, we_payload = payload\<rparr>)"
    using assms(1) by simp
  note torn = wal_read_torn_text [OF ok tells assms(2), folded wal_numbered_snoc]
  show ?thesis
    using torn wal_recover_text [OF wal_numbered_ok, of H ops] by (intro exI [of _ "wal_text (wal_numbered H ops)"]) (simp only: wal_appends_numbered ops simp_thms)
qed

theorem log_recovers_witness:
  "\<exists>f. wal_appends mark_digest [(WalBeginCommit, [])] (Some []) = Inr (Some f)
    \<and> wal_recover mark_digest (Some f) = Inr \<lparr>wr_entries_read = 1, wr_incomplete_commit = True\<rparr>
    \<and> (isl (wal_read_all mark_digest (Some (f @ ''2'')))
      \<or> wal_read_all mark_digest (Some (f @ ''2'')) = Inr (wal_numbered mark_digest [(WalBeginCommit, []), (WalPutObject, [1])]))"
proof -
  have "dec_string 2 = ''2''" by code_simp
  then have "prefix ''2'' (wal_line \<lparr>we_sequence = of_nat (length [(WalBeginCommit, [] :: bytes)] + 1), we_op = WalPutObject,
      we_payload_hash = mark_digest [1], we_payload = [1]\<rparr>)"
    by (simp add: wal_line_def)
  moreover have "tells_prefixes mark_digest [1]" by (simp add: tells_prefixes_def mark_digest_def)
  ultimately show ?thesis
    using log_recovers [of mark_digest "[1]" "''2''" "[(WalBeginCommit, [])]" WalPutObject] commit_open_simps(2) [of "[]" WalBeginCommit] by simp
qed

text \<open>
  C32.  Compaction is invisible.  On a store built by puts and compactions, \<open>compact_loose_objects\<close> succeeds, no loose
  object is left, and every \<open>get\<close> answers as before: the packed object is the loose one, and what was
  missing is still missing.  The new pack stays below 2^64 bytes; the hash is injective on the stored streams.
\<close>

theorem compaction_invisible:
  assumes "reachable_content H U s" and "inj_on H U" and "pack_room s"
  shows "\<exists>r s'. compact_loose H s = Inr (r, s') \<and> cs_loose s' = [] \<and> (\<forall>i. get_bytes H s' i = get_bytes H s i)"
  using compact_ok [OF reachable_content_ok [OF assms(1,2)] assms(3)] by blast

theorem compaction_invisible_witness:
  "\<exists>r s'. compact_loose mark_digest (snd (projr (put_bytes mark_digest [1] empty_store))) = Inr (r, s') \<and> cs_loose s' = []
    \<and> get_bytes mark_digest s' (mark_digest [1]) = Inr [1]"
proof -
  obtain s where s: "put_bytes mark_digest [1] empty_store = Inr (mark_digest [1], s)" "get_bytes mark_digest s (mark_digest [1]) = Inr [1]"
    using put_bytes_ok [OF empty_content_ok [of mark_digest "{[1]}"], of "[1]"] by auto
  have "reachable_content mark_digest {[1]} s"
    by (rule reachable_content.put [OF reachable_content.empty _ s(1)]) simp
  moreover have "pack_room s"
    using s(1) by (auto simp: put_bytes_def pack_room_def pack_magic_def blobs_of_def empty_store_def Let_def split: if_splits sum.splits)
  ultimately show ?thesis using compaction_invisible [of mark_digest "{[1]}" s] s by auto
qed

text \<open>
  C33.  A snapshot that was put is the snapshot that is got, page by page in canonical form and with nothing
  else changed, at the hash that its chunked plan announces; the objects that were in the store stay.
\<close>

theorem paged_put_get:
  assumes "build_chunked_snapshot_plan H snapshot n = Inr p" and "plan_ok snapshot"
    and "content_ok H U s" and "plan_streams p \<subseteq> U"
  shows "\<exists>s'. put_snapshot H n snapshot s = Inr (plan_root_object p, s') \<and> content_ok H U s'
    \<and> get_snapshot H n s' (plan_root_object p) = Inr (paged_snapshot n snapshot)
    \<and> (\<forall>b. get_bytes H s (H b) = Inr b \<longrightarrow> get_bytes H s' (H b) = Inr b)"
proof -
  obtain s' where s': "put_snapshot H n snapshot s = Inr (plan_root_object p, s')" "stores H U s (plan_streams p) s'"
    using put_snapshot_ok [OF assms(1,3,4)] by blast
  then show ?thesis using get_snapshot_held [OF assms(1,2), of s'] by (simp add: stores_def held_def)
qed

theorem paged_put_get_witness:
  "\<exists>s'. put_snapshot mark_digest 256 demo_shelf empty_store = Inr (plan_root_object demo_plan_of, s')
    \<and> get_snapshot mark_digest 256 s' (plan_root_object demo_plan_of) = Inr demo_shelf"
  using paged_put_get [OF demo_plan_256(1) demo_shelf_ok empty_content_ok [OF demo_streams_inj] demo_plan_part]
    demo_shelf_paged by (auto simp: default_snapshot_page_size_def)

text \<open>
  C34.  The index of branches is a map on disk: after any sequence of upserts into a file that did not exist, a lookup
  reads the file (magic, version, length, entries, checksum) and finds the last entry that was written under the name, or none.
\<close>

theorem branch_index_is_map:
  assumes "list_all branch_entry_ok es" and "8 + (\<Sum>e\<leftarrow>es. length (write_branch_entry e)) < 2 ^ 64"
  shows "res_bind (res_fold (\<lambda>f e. branch_index_upsert H e f) None es) (branch_index_find H name)
    = Inr (entry_find bi_name name (rev es))"
  by (rule branch_upserts_find [OF assms])

theorem branch_index_is_map_witness:
  "res_bind (res_fold (\<lambda>f e. branch_index_upsert mark_digest e f) None
      [make_branch_entry demo_ref [], make_branch_entry (demo_ref\<lparr>bf_epoch := 2\<rparr>) []]) (branch_index_find mark_digest ''main'')
    = Inr (Some (make_branch_entry (demo_ref\<lparr>bf_epoch := 2\<rparr>) []))"
  by (subst branch_index_is_map)
    (simp_all add: branch_entry_ok_def make_branch_entry_def demo_ref_def size_ok_def write_branch_entry_def index_string_def index_hashes_def
      index_u64_def index_hash_def entry_find_def)

text \<open>
  C35.  A branch reference reads back as it was written, through the text of the file, and the references of the other
  branches stay (except for a branch that is named like the temporary file of this one).
\<close>

theorem ref_roundtrip:
  assumes "update_ref ref rs = Inr rs'" and "om_inv (rf_files rs)" and "branch_ref_ok ref"
  shows "read_branch (bf_name ref) rs' = Inr (Some ref)
    \<and> (\<forall>n. n \<noteq> bf_name ref \<and> n \<noteq> bf_name ref @ ''.tmp'' \<and> om_contains (rf_files rs) n \<longrightarrow> read_branch n rs' = read_branch n rs)"
  using update_then_read [OF assms] update_keeps_others [OF assms(1,2)] by blast

theorem ref_roundtrip_witness:
  "read_branch ''main'' (projr (update_ref \<lparr>bf_name = ''main'', bf_branch = 1, bf_head = 2, bf_snapshot = 3, bf_epoch = 4\<rparr>
      \<lparr>rf_files = [], rf_head = None\<rparr>)) = Inr (Some \<lparr>bf_name = ''main'', bf_branch = 1, bf_head = 2, bf_snapshot = 3, bf_epoch = 4\<rparr>)"
proof -
  let ?r = "\<lparr>bf_name = ''main'', bf_branch = 1, bf_head = 2, bf_snapshot = 3, bf_epoch = 4\<rparr> :: branch_ref"
  have u: "update_ref ?r \<lparr>rf_files = [], rf_head = None\<rparr> = Inr (projr (update_ref ?r \<lparr>rf_files = [], rf_head = None\<rparr>))"
    by (simp add: update_ref_def Let_def demo_branch_name below_file_def is_directory_def)
  show ?thesis using ref_roundtrip [OF u] by (simp add: branch_ref_ok_def om_inv_def)
qed

text \<open>
  C36.  What is materialised is what the history records.  When \<open>materialize_accepted_chain_to\<close> returns, it returns at least one
  snapshot; each is the one of an accepted commit, with the hash and the root its record names; each one after
  the first is the one before it with the stored delta of its commit applied; and the last is what
  \<open>materialize_commit\<close> returns.
\<close>

theorem materialized_is_recorded:
  assumes "materialize_accepted_chain_to H s i = Some (Inr out)"
  shows "out \<noteq> [] \<and> list_all (recorded H s) out \<and> successively (follows H s) out
    \<and> materialize_commit H s i = Some (Inr (snd (last out)))"
  using materialize_accepted_sound [OF assms] assms by (simp add: materialize_commit_def)

theorem materialized_is_recorded_witness:
  "\<exists>s. materialize_commit mark_digest s (cr_id demo_genesis) = Some (Inr demo_shelf) \<and> recorded mark_digest s (cr_id demo_genesis, demo_shelf)"
proof -
  obtain s where "materialize_accepted_chain_to mark_digest s (cr_id demo_genesis) = Some (Inr [(cr_id demo_genesis, demo_shelf)])"
    by (rule demo_first_store)
  from materialized_is_recorded [OF this] show ?thesis by (intro exI [of _ s]) simp
qed





text \<open>
  C39.  The collector keeps what branches need.  After \<open>quarantine_unreachable\<close>, every commit whose chain of parents lies in the history of an
  indexed branch materialises as before, provided that the checkpoints on the chain list their pages, as
  every written commit does.
\<close>

theorem collector_keeps_branches:
  assumes "quarantine_unreachable H branches g = Inr (report, g')" and "om_inv (cs_loose (gs_objects g))"
    and "om_find (cs_loose (gs_objects g)) 0 = None"
    and "branch_index_entries H branches = Inr bs" and "b \<in> set bs"
    and "parent_chain H (gs_objects g) i = Some (Inr ids)" and "set ids \<subseteq> set (bi_history b)"
    and "\<And>j c. j \<in> set ids \<Longrightarrow> stored_at H (gs_objects g) j = Inr c \<Longrightarrow> pages_listed H (gs_objects g) c"
    and "materialize_accepted_chain_to H (gs_objects g) i = Some (Inr out)"
  shows "materialize_accepted_chain_to H (gs_objects g') i = Some (Inr out)
    \<and> materialize_commit H (gs_objects g') i = materialize_commit H (gs_objects g) i"
  using gc_keeps_commits [OF assms] by simp

theorem collector_keeps_branches_witness:
  "\<exists>s report g'. quarantine_unreachable mark_digest demo_table \<lparr>gs_objects = s, gs_quarantine = []\<rparr> = Inr (report, g')
    \<and> materialize_accepted_chain_to mark_digest (gs_objects g') (cr_id demo_genesis) = Some (Inr [(cr_id demo_genesis, demo_shelf)])"
proof -
  obtain s where s: "content_ok mark_digest (set demo_streams) s"
    "stored_at mark_digest s (cr_id demo_genesis) = Inr (norm_stored_commit (stored_of mark_digest demo_write))"
    "pages_listed mark_digest s (norm_stored_commit (stored_of mark_digest demo_write))"
    "materialize_accepted_chain_to mark_digest s (cr_id demo_genesis) = Some (Inr [(cr_id demo_genesis, demo_shelf)])"
    by (rule demo_first_store)
  obtain report g' where g: "quarantine_unreachable mark_digest demo_table \<lparr>gs_objects = s, gs_quarantine = []\<rparr> = Inr (report, g')"
    "om_inv (cs_loose s)" "om_find (cs_loose s) 0 = None"
    by (rule demo_collected [OF s(1,2)])
  have "parent_chain mark_digest s (cr_id demo_genesis) = Some (Inr [cr_id demo_genesis])"
    by (rule parent_chain_root [OF s(2)]) (simp add: stored_of_fields demo_genesis_fields)
  from collector_keeps_branches [OF g(1) _ _ demo_table, of "make_branch_entry demo_ref [cr_id demo_genesis]" "cr_id demo_genesis"
      "[cr_id demo_genesis]"] this g s show ?thesis by (auto simp: make_branch_entry_def)
qed


end
